(* ===== verification/Prelude.thy ===== *)
theory Prelude
  imports Complex_Main "HOL-Library.List_Lexorder" "HOL-Library.Char_ord"
    "HOL-Library.AList" "HOL-Library.Product_Lexorder" "HOL-Library.Word"
    "HOL-Library.Multiset"
begin

text \<open>
  Shared vocabulary of the development: Python strings, JSON values, the tables of an SQLite
  database and its transactions, and the contract of a machine that keeps an invariant.

  \<^item> A Python string is the list of its code points. SQLite's BINARY collation compares the
    UTF-8 bytes, which orders strings exactly as the lexicographic order on code points.
  \<^item> A Python float is a rational number: the arithmetic is exact here, rounding is not modelled.
  \<^item> A table is the list of its rows in insertion order. A primary key is a function of the row.
\<close>

section \<open>Hint collections\<close>

named_theorems table_simps \<open>unfolding of the SQL primitives\<close>
named_theorems json_simps \<open>evaluation of Python's dictionary and truth tests\<close>

section \<open>Python strings\<close>

type_synonym pystr = "nat list"
type_synonym timestamp = rat

definition lit :: "string \<Rightarrow> pystr" where
  "lit cs = map of_char cs"

lemma inj_of_char_nat: "inj (of_char :: char \<Rightarrow> nat)"
  by (rule injI) (simp add: of_char_eq_iff)

lemma lit_eq_iff [simp]: "lit a = lit b \<longleftrightarrow> a = b"
  unfolding lit_def using inj_map_eq_map [OF inj_of_char_nat] by blast

lemma lit_Nil [simp]: "lit [] = []"
  by (simp add: lit_def)

lemma lit_eq_Nil [simp]: "lit a = [] \<longleftrightarrow> a = []"
  by (simp add: lit_def)

lemma Nil_eq_lit [simp]: "[] = lit a \<longleftrightarrow> a = []"
  by (auto simp: lit_def)

lemma lit_append: "lit (a @ b) = lit a @ lit b"
  by (simp add: lit_def)

text \<open>The code points that \<open>str.isspace\<close>, and hence \<open>str.strip\<close>, treat as white space.\<close>

definition is_space :: "nat \<Rightarrow> bool" where
  "is_space c \<longleftrightarrow> (9 \<le> c \<and> c \<le> 13) \<or> (28 \<le> c \<and> c \<le> 32) \<or> c = 133 \<or> c = 160 \<or> c = 5760
     \<or> (8192 \<le> c \<and> c \<le> 8202) \<or> c = 8232 \<or> c = 8233 \<or> c = 8239 \<or> c = 8287 \<or> c = 12288"

definition strip :: "pystr \<Rightarrow> pystr" where
  "strip s = rev (dropWhile is_space (rev (dropWhile is_space s)))"

lemma strip_Nil [simp]: "strip [] = []"
  by (simp add: strip_def)

lemma dropWhile_all_iff: "(\<forall>x\<in>set (dropWhile P xs). P x) \<longleftrightarrow> (\<forall>x\<in>set xs. P x)"
  by (induction xs) simp_all

lemma strip_eq_Nil: "strip s = [] \<longleftrightarrow> (\<forall>c\<in>set s. is_space c)"
proof -
  have "strip s = [] \<longleftrightarrow> dropWhile is_space (rev (dropWhile is_space s)) = []"
    by (simp only: strip_def rev_is_Nil_conv)
  also have "\<dots> \<longleftrightarrow> (\<forall>c\<in>set (rev (dropWhile is_space s)). is_space c)"
    by (simp only: dropWhile_eq_Nil_conv)
  also have "\<dots> \<longleftrightarrow> (\<forall>c\<in>set s. is_space c)"
    by (simp only: set_rev dropWhile_all_iff)
  finally show ?thesis .
qed

lemma dropWhile_snoc_keep: "\<not> P a \<Longrightarrow> \<exists>bs. dropWhile P (xs @ [a]) = bs @ [a]"
  by (induction xs) auto

lemma dropWhile_id: "xs = [] \<or> \<not> P (hd xs) \<Longrightarrow> dropWhile P xs = xs"
  by (cases xs) auto

lemma hd_strip: "strip s \<noteq> [] \<Longrightarrow> \<not> is_space (hd (strip s)) \<and> \<not> is_space (last (strip s))"
proof -
  assume ne: "strip s \<noteq> []"
  define t where "t = dropWhile is_space s"
  have t: "t \<noteq> []"
  proof
    assume "t = []"
    then have "strip s = []" by (simp add: strip_def flip: t_def)
    with ne show False by simp
  qed
  then have h: "\<not> is_space (hd t)" unfolding t_def by (rule hd_dropWhile)
  obtain a as where as: "t = a # as" using t by (cases t) auto
  with h have a: "\<not> is_space a" by simp
  obtain bs where bs: "dropWhile is_space (rev as @ [a]) = bs @ [a]"
    using dropWhile_snoc_keep [of is_space a "rev as"] a by blast
  then have eq: "strip s = rev (bs @ [a])" by (simp add: strip_def as flip: t_def)
  have "\<not> is_space (hd (dropWhile is_space (rev t)))"
    using ne by (intro hd_dropWhile) (auto simp: strip_def simp flip: t_def)
  then have "\<not> is_space (hd (bs @ [a]))" using bs as by simp
  then show ?thesis using eq a by (cases bs) simp_all
qed

lemma strip_strip [simp]: "strip (strip s) = strip s"
proof (cases "strip s = []")
  case False
  then have "dropWhile is_space (strip s) = strip s"
    using hd_strip by (intro dropWhile_id) simp
  moreover have "dropWhile is_space (rev (strip s)) = rev (strip s)"
    using False hd_strip by (intro dropWhile_id) (simp add: hd_rev)
  ultimately show ?thesis by (simp add: strip_def [of "strip s"])
qed simp

definition blank :: "pystr \<Rightarrow> bool" where
  "blank s \<longleftrightarrow> strip s = []"

lemma blank_Nil [simp]: "blank []"
  by (simp add: blank_def)

lemma blank_strip [simp]: "blank (strip s) \<longleftrightarrow> blank s"
  by (simp add: blank_def)

text \<open>\<open>"\x1f".join(xs)\<close>, the separator of every composite key, and when it is injective.\<close>

fun us_join :: "pystr list \<Rightarrow> pystr" where
  "us_join [] = []"
| "us_join [x] = x"
| "us_join (x # y # zs) = x @ [31] @ us_join (y # zs)"

definition us_free :: "pystr \<Rightarrow> bool" where
  "us_free s \<longleftrightarrow> 31 \<notin> set s"

lemma append_sep_inj:
  "a @ c # u = b @ c # v \<Longrightarrow> c \<notin> set a \<Longrightarrow> c \<notin> set b \<Longrightarrow> a = b \<and> u = v"
  by (induction a arbitrary: b) (auto simp: Cons_eq_append_conv split: if_splits)

lemma us_join_inj:
  assumes "length xs = length ys" "\<forall>x\<in>set xs \<union> set ys. us_free x" "us_join xs = us_join ys"
  shows "xs = ys"
  using assms
proof (induction xs arbitrary: ys rule: us_join.induct)
  case 1
  then show ?case by simp
next
  case (2 x)
  then show ?case by (cases ys rule: us_join.cases) auto
next
  case (3 x y zs)
  then obtain x' y' zs' where ys: "ys = x' # y' # zs'" by (cases ys rule: us_join.cases) auto
  then have "x = x' \<and> us_join (y # zs) = us_join (y' # zs')"
    using "3.prems" by (intro append_sep_inj) (auto simp: us_free_def)
  then show ?case using "3.IH" [of "y' # zs'"] "3.prems"(1,2) ys by auto
qed

text \<open>Evaluation on literals.\<close>

lemma blank_lit: "blank (lit s) \<longleftrightarrow> (\<forall>c\<in>set s. is_space (of_char c))"
  by (simp add: blank_def strip_eq_Nil lit_def)

lemma us_free_lit: "us_free (lit s) \<longleftrightarrow> CHR 0x1F \<notin> set s"
proof -
  have "set (lit s) = of_char ` set s" "(31::nat) = of_char (CHR 0x1F)" by (simp_all add: lit_def)
  then show ?thesis by (simp only: us_free_def inj_image_mem_iff [OF inj_of_char_nat])
qed

text \<open>
  \<open>str.lower\<close> as far as comparisons with ASCII constants can tell: the ASCII capitals, and the
  KELVIN SIGN, the one other code point whose lower case is a single ASCII letter.
\<close>

definition lower :: "pystr \<Rightarrow> pystr" where
  "lower s = map (\<lambda>c. if 65 \<le> c \<and> c \<le> 90 then c + 32 else if c = 8490 then 107 else c) s"

section \<open>Numbers\<close>

text \<open>\<open>str(n)\<close> of an integer.\<close>

fun digits :: "nat \<Rightarrow> pystr" where
  "digits n = (if n < 10 then [48 + n] else digits (n div 10) @ [48 + n mod 10])"

declare digits.simps [simp del]

definition decimal :: "int \<Rightarrow> pystr" where
  "decimal i = (if i < 0 then 45 # digits (nat (- i)) else digits (nat i))"

text \<open>Python's \<open>round(x)\<close>: to the nearest integer, halves to the even one.\<close>

definition py_round :: "rat \<Rightarrow> int" where
  "py_round x = (let f = \<lfloor>x\<rfloor>; d = x - of_int f in
     if d < 1/2 then f else if 1/2 < d then f + 1 else if even f then f else f + 1)"

lemma py_round_bounds: "x - 1/2 \<le> of_int (py_round x) \<and> of_int (py_round x) \<le> x + 1/2"
proof -
  have lo: "of_int \<lfloor>x\<rfloor> \<le> x" and hi: "x < of_int \<lfloor>x\<rfloor> + 1" by linarith+
  consider "py_round x = \<lfloor>x\<rfloor>" "x - of_int \<lfloor>x\<rfloor> \<le> 1/2" | "py_round x = \<lfloor>x\<rfloor> + 1" "1/2 \<le> x - of_int \<lfloor>x\<rfloor>"
    by (fastforce simp: py_round_def Let_def split: if_splits)
  then show ?thesis
  proof cases
    case 1
    then have "(of_int (py_round x) :: rat) = of_int \<lfloor>x\<rfloor>" by simp
    then show ?thesis using 1(2) lo by linarith
  next
    case 2
    then have "(of_int (py_round x) :: rat) = of_int \<lfloor>x\<rfloor> + 1" by simp
    then show ?thesis using 2(2) hi by linarith
  qed
qed

section \<open>JSON values and Python dictionaries\<close>

text \<open>
  A dictionary is an association list with one entry per key, in insertion order. Reading a key
  is \<open>map_of\<close>, writing one is \<open>AList.update\<close>, which keeps the position of a key that is there.
\<close>

type_synonym ('k, 'v) dict = "('k \<times> 'v) list"

lemma keys_map_entry [simp]: "map fst (AList.map_entry k f d) = map fst d"
  by (induction d) auto

datatype json = JNull | JBool bool | JInt int | JFloat rat | JStr pystr
  | JList "json list" | JObj "(pystr \<times> json) list"

fun truthy :: "json \<Rightarrow> bool" where
  "truthy JNull = False"
| "truthy (JBool b) = b"
| "truthy (JInt i) = (i \<noteq> 0)"
| "truthy (JFloat x) = (x \<noteq> 0)"
| "truthy (JStr s) = (s \<noteq> [])"
| "truthy (JList xs) = (xs \<noteq> [])"
| "truthy (JObj kvs) = (kvs \<noteq> [])"

text \<open>\<open>d.get(k)\<close>, \<open>x if isinstance(x, dict) else {}\<close> and Python's \<open>a or b\<close>.\<close>

definition dget :: "(pystr, json) dict \<Rightarrow> pystr \<Rightarrow> json" where
  "dget d k = (case map_of d k of None \<Rightarrow> JNull | Some v \<Rightarrow> v)"

fun as_dict :: "json \<Rightarrow> (pystr, json) dict" where
  "as_dict (JObj kvs) = kvs"
| "as_dict _ = []"

definition por :: "json \<Rightarrow> json \<Rightarrow> json" where
  "por a b = (if truthy a then a else b)"

text \<open>\<open>str(v)\<close>: \<open>render\<close> prints everything that is not a string.\<close>

fun py_str :: "(json \<Rightarrow> pystr) \<Rightarrow> json \<Rightarrow> pystr" where
  "py_str render (JStr s) = s"
| "py_str render v = render v"

lemmas [json_simps] = dget_def por_def

text \<open>
  \<open>json.dumps(v, sort_keys=True)\<close> and \<open>json.loads\<close> of the text: two values have the same text when
  they agree after sorting the keys of every object, and the text is read back as the sorted value.
\<close>

primrec sort_keys :: "json \<Rightarrow> json" where
  "sort_keys JNull = JNull"
| "sort_keys (JBool b) = JBool b"
| "sort_keys (JInt i) = JInt i"
| "sort_keys (JFloat x) = JFloat x"
| "sort_keys (JStr s) = JStr s"
| "sort_keys (JList xs) = JList (map sort_keys xs)"
| "sort_keys (JObj kvs) = JObj (sort_key fst (map (map_prod id sort_keys) kvs))"

section \<open>SQL statements on a table\<close>

text \<open>
  \<open>UPDATE ... SET f WHERE P\<close>, its row count, \<open>DELETE ... WHERE P\<close>, and \<open>INSERT\<close> under a
  primary key: \<open>None\<close> is sqlite3's \<open>IntegrityError\<close>. A \<open>SELECT\<close> that can match one row only is
  \<open>List.find\<close>, any other one is a filter.
\<close>

definition update_where :: "('r \<Rightarrow> bool) \<Rightarrow> ('r \<Rightarrow> 'r) \<Rightarrow> 'r list \<Rightarrow> 'r list" where
  "update_where P f rs = map (\<lambda>r. if P r then f r else r) rs"

definition rowcount :: "('r \<Rightarrow> bool) \<Rightarrow> 'r list \<Rightarrow> nat" where
  "rowcount P rs = length (filter P rs)"

definition delete_where :: "('r \<Rightarrow> bool) \<Rightarrow> 'r list \<Rightarrow> 'r list" where
  "delete_where P rs = filter (\<lambda>r. \<not> P r) rs"

definition insert_row :: "('r \<Rightarrow> 'k) \<Rightarrow> 'r \<Rightarrow> 'r list \<Rightarrow> 'r list option" where
  "insert_row key r rs = (if key r \<in> set (map key rs) then None else Some (rs @ [r]))"

lemmas [table_simps] = update_where_def rowcount_def delete_where_def insert_row_def

definition unique_key :: "('r \<Rightarrow> 'k) \<Rightarrow> 'r list \<Rightarrow> bool" where
  "unique_key key rs \<longleftrightarrow> distinct (map key rs)"

lemma unique_key_Nil [simp]: "unique_key key []"
  by (simp add: unique_key_def)

lemma set_update_where: "set (update_where P f rs) = (\<lambda>r. if P r then f r else r) ` set rs"
  by (simp add: update_where_def)

lemma ball_update_where:
  "(\<forall>r\<in>set (update_where P f rs). Q r) \<longleftrightarrow> (\<forall>r\<in>set rs. if P r then Q (f r) else Q r)"
  by (auto simp: set_update_where split: if_splits)

lemma bex_update_where:
  "(\<exists>r\<in>set (update_where P f rs). Q r) \<longleftrightarrow> (\<exists>r\<in>set rs. if P r then Q (f r) else Q r)"
  by (auto simp: set_update_where split: if_splits)

lemma map_update_where:
  "(\<And>r. P r \<Longrightarrow> key (f r) = key r) \<Longrightarrow> map key (update_where P f rs) = map key rs"
  by (simp add: update_where_def)

lemma image_update_where:
  "(\<And>r. P r \<Longrightarrow> key (f r) = key r) \<Longrightarrow> key ` set (update_where P f rs) = key ` set rs"
  by (metis map_update_where set_map)

lemma unique_key_update_where:
  "(\<And>r. P r \<Longrightarrow> key (f r) = key r) \<Longrightarrow> unique_key key (update_where P f rs) = unique_key key rs"
  by (simp add: unique_key_def map_update_where)

lemma unique_key_delete_where: "unique_key key rs \<Longrightarrow> unique_key key (delete_where P rs)"
  by (simp add: unique_key_def delete_where_def distinct_map_filter)

lemma unique_key_insert_row: "insert_row key r rs = Some rs' \<Longrightarrow> unique_key key rs \<Longrightarrow> unique_key key rs'"
  by (auto simp: insert_row_def unique_key_def split: if_splits)

lemma unique_keyD: "unique_key key rs \<Longrightarrow> r \<in> set rs \<Longrightarrow> r' \<in> set rs \<Longrightarrow> key r = key r' \<Longrightarrow> r = r'"
  by (auto simp: unique_key_def distinct_map dest: inj_onD)

lemma key_image_filter:
  "unique_key key rs \<Longrightarrow> r \<in> set rs \<Longrightarrow> key r \<in> key ` {x \<in> set rs. P x} \<longleftrightarrow> P r"
  by (auto dest: unique_keyD)

lemma find_SomeD: "List.find P rs = Some r \<Longrightarrow> r \<in> set rs \<and> P r"
  by (auto simp: find_Some_iff)

lemma find_unique_key:
  assumes "unique_key key rs" "r \<in> set rs"
  shows "List.find (\<lambda>x. key x = key r) rs = Some r"
proof (cases "List.find (\<lambda>x. key x = key r) rs")
  case None
  then show ?thesis using assms(2) by (auto simp: find_None_iff)
next
  case (Some x)
  then show ?thesis using assms find_SomeD [OF Some] by (auto dest: unique_keyD)
qed

lemma find_update_where_key:
  "(\<And>r. P r \<Longrightarrow> key (f r) = key r) \<Longrightarrow>
   List.find (\<lambda>x. key x = k) (update_where P f rs) =
   map_option (\<lambda>r. if P r then f r else r) (List.find (\<lambda>x. key x = k) rs)"
  by (induction rs) (auto simp: update_where_def)

lemma find_append: "List.find P (xs @ ys) = (case List.find P xs of None \<Rightarrow> List.find P ys | Some x \<Rightarrow> Some x)"
  by (induction xs) auto

lemma rowcount_eq_0: "rowcount P rs = 0 \<longleftrightarrow> (\<forall>r\<in>set rs. \<not> P r)"
  by (simp add: rowcount_def filter_empty_conv)

lemma rowcount_key_le_1:
  assumes "unique_key key rs"
  shows "rowcount (\<lambda>r. key r = k \<and> Q r) rs \<le> 1"
proof -
  have "filter (\<lambda>r. key r = k \<and> Q r) rs = []" if "k \<notin> key ` set rs" for rs
    using that by (auto simp: filter_empty_conv)
  with assms show ?thesis
    by (induction rs) (auto simp: rowcount_def unique_key_def)
qed

lemma rowcount_key_eq_1:
  assumes "unique_key key rs"
  shows "rowcount (\<lambda>r. key r = k \<and> Q r) rs = 1 \<longleftrightarrow> (\<exists>r\<in>set rs. key r = k \<and> Q r)"
proof -
  have "rowcount (\<lambda>r. key r = k \<and> Q r) rs = 1 \<longleftrightarrow> rowcount (\<lambda>r. key r = k \<and> Q r) rs \<noteq> 0"
    using rowcount_key_le_1 [OF assms, of k Q] by linarith
  then show ?thesis by (simp add: rowcount_eq_0)
qed

text \<open>\<open>ORDER BY k LIMIT 1\<close>: the first element in key order.\<close>

lemma sort_key_first:
  assumes "sort_key k xs = y # ys" "x \<in> set xs"
  shows "k y \<le> k x"
proof -
  have "sorted (map k (y # ys))" using sorted_sort_key [of k xs] assms(1) by simp
  moreover have "x \<in> set (y # ys)" using assms by (metis set_sort)
  ultimately show ?thesis by auto
qed

text \<open>The first \<open>n\<close> elements in key order come before all others.\<close>

lemma take_sort_key:
  assumes "y \<in> set (sort_key k xs)" "y \<notin> set (take n (sort_key k xs))"
  shows "length (take n (sort_key k xs)) = n \<and> (\<forall>x\<in>set (take n (sort_key k xs)). k x \<le> k y)"
proof -
  let ?ys = "sort_key k xs"
  have y: "y \<in> set (drop n ?ys)" using assms by (metis Un_iff append_take_drop_id set_append)
  then have "n \<le> length ?ys" by (cases "n \<le> length ?ys") auto
  moreover have "sorted (map k (take n ?ys @ drop n ?ys))" by simp
  then have "\<forall>x\<in>set (take n ?ys). k x \<le> k y" using y by (simp only: map_append sorted_append) auto
  ultimately show ?thesis by simp
qed

section \<open>Transactions\<close>

text \<open>
  An operation takes a state and returns an error or a value, and the state afterwards. A body
  that runs between \<open>BEGIN IMMEDIATE\<close> and \<open>COMMIT\<close> yields its new state only together with a
  value, and \<open>transaction\<close> writes out the \<open>ROLLBACK\<close> of the exception handler.
\<close>

type_synonym ('s, 'e, 'a) op = "'s \<Rightarrow> ('e + 'a) \<times> 's"

definition transaction :: "('s \<Rightarrow> 'e + 'a \<times> 's) \<Rightarrow> ('s, 'e, 'a) op" where
  "transaction body s = (case body s of Inl e \<Rightarrow> (Inl e, s) | Inr (a, s') \<Rightarrow> (Inr a, s'))"

lemma transaction_error: "transaction body s = (Inl e, s') \<longleftrightarrow> body s = Inl e \<and> s' = s"
  by (auto simp: transaction_def split: sum.splits prod.splits)

lemma transaction_ok: "transaction body s = (Inr a, s') \<longleftrightarrow> body s = Inr (a, s')"
  by (auto simp: transaction_def split: sum.splits prod.splits)

lemma snd_transaction:
  "snd (transaction body s) = (case body s of Inl e \<Rightarrow> s | Inr (a, s') \<Rightarrow> s')"
  by (auto simp: transaction_def split: sum.splits prod.splits)

section \<open>Machines that keep an invariant\<close>

text \<open>
  Every store below offers commands to its clients. Two contracts recur: each command keeps an
  invariant, and each command leaves a final fact final. What follows for every sequence of
  commands is proved once here.
\<close>

locale invariant_machine =
  fixes step :: "'c \<Rightarrow> 's \<Rightarrow> 's" and inv :: "'s \<Rightarrow> bool"
  assumes step_inv: "inv s \<Longrightarrow> inv (step c s)"
begin

lemma run_inv: "inv s \<Longrightarrow> inv (fold step cs s)"
  by (induction cs arbitrary: s) (auto simp: step_inv)

end

locale final_machine = invariant_machine step inv
  for step :: "'c \<Rightarrow> 's \<Rightarrow> 's" and inv :: "'s \<Rightarrow> bool" +
  fixes final :: "'x \<Rightarrow> 's \<Rightarrow> bool" and allowed :: "'x \<Rightarrow> 'c \<Rightarrow> bool"
  assumes step_final: "inv s \<Longrightarrow> allowed x c \<Longrightarrow> final x s \<Longrightarrow> final x (step c s)"
begin

lemma run_final: "inv s \<Longrightarrow> (\<forall>c\<in>set cs. allowed x c) \<Longrightarrow> final x s \<Longrightarrow> final x (fold step cs s)"
  by (induction cs arbitrary: s) (auto simp: step_inv step_final)

end

end
