(* ===== verification/TurnFence.thy ===== *)
theory TurnFence
  imports Prelude
begin

text \<open>
  \<^verbatim>\<open>runtime/plugins/tuoguan_core/turn_fence.py\<close>: the process-local registry that decides
  whether a late model turn may still act. The three module dictionaries are one record, the
  lock makes every function atomic, and each call of \<open>time.monotonic()\<close> is an argument.
  A fence object is only reached through \<open>_BY_MESSAGE\<close>, so a mutation is an update of its entry.
\<close>

section \<open>State\<close>

datatype fence_status = Active | Superseded | Expired | Finished

record turn_fence =
  tf_message_id :: pystr
  tf_chat_id :: pystr
  tf_deadline_monotonic :: timestamp
  tf_phase :: pystr
  tf_status :: fence_status
  tf_session_ids :: "pystr list"
  tf_verified_write :: bool
  tf_delivery_unknown :: bool
  tf_created_monotonic :: timestamp
  tf_terminal_reason :: pystr

record fences =
  by_message :: "(pystr, turn_fence) dict"
  by_session :: "(pystr, pystr) dict"
  by_chat :: "(pystr, pystr) dict"

definition DEFAULT_TURN_BUDGET_SECONDS :: timestamp where
  "DEFAULT_TURN_BUDGET_SECONDS = 38"

section \<open>Operations\<close>

text \<open>The loop body of \<open>_prune_locked\<close>, and the loop over the stale keys.\<close>

definition prune_key :: "pystr \<Rightarrow> fences \<Rightarrow> fences" where
  "prune_key key st = (case map_of (by_message st) key of
     None \<Rightarrow> st
   | Some fence \<Rightarrow> st\<lparr>
       by_message := AList.delete key (by_message st),
       by_session := fold (\<lambda>session_id d. if map_of d session_id = Some key then AList.delete session_id d else d)
                       (tf_session_ids fence) (by_session st),
       by_chat := (if tf_chat_id fence \<noteq> [] \<and> map_of (by_chat st) (tf_chat_id fence) = Some key
                   then AList.delete (tf_chat_id fence) (by_chat st) else by_chat st)\<rparr>)"

definition prune_locked :: "timestamp \<Rightarrow> fences \<Rightarrow> fences" where
  "prune_locked current st =
     (let stale = map fst (filter (\<lambda>(key, fence). current - tf_created_monotonic fence > 2 * 60 * 60) (by_message st))
      in fold prune_key stale st)"

definition modify :: "pystr \<Rightarrow> (turn_fence \<Rightarrow> turn_fence) \<Rightarrow> fences \<Rightarrow> fences" where
  "modify key f st = st\<lparr>by_message := AList.map_entry key f (by_message st)\<rparr>"

text \<open>\<open>_find_locked\<close>: the entry a call is about, as its key and its value.\<close>

definition find_key :: "fences \<Rightarrow> pystr \<Rightarrow> pystr \<Rightarrow> pystr option" where
  "find_key st session_id message_id =
     (if strip message_id \<noteq> [] then Some (strip message_id)
      else if strip session_id \<noteq> [] then
        Some (case map_of (by_session st) (strip session_id) of None \<Rightarrow> [] | Some k \<Rightarrow> k)
      else None)"

definition find_locked :: "fences \<Rightarrow> pystr \<Rightarrow> pystr \<Rightarrow> (pystr \<times> turn_fence) option" where
  "find_locked st session_id message_id = (case find_key st session_id message_id of
     None \<Rightarrow> None
   | Some k \<Rightarrow> map_option (Pair k) (map_of (by_message st) k))"

definition turn_budget :: "timestamp \<Rightarrow> timestamp" where
  "turn_budget budget_seconds =
     max 5 (min (if budget_seconds = 0 then DEFAULT_TURN_BUDGET_SECONDS else budget_seconds) 120)"

definition supersede :: "pystr option \<Rightarrow> fences \<Rightarrow> fences" where
  "supersede previous_key st =
     (let key = (case previous_key of None \<Rightarrow> [] | Some k \<Rightarrow> k) in
      case map_of (by_message st) key of
        None \<Rightarrow> st
      | Some previous \<Rightarrow>
          if tf_status previous = Active \<and> tf_phase previous \<in> {lit ''created'', lit ''model''}
          then modify key (\<lambda>f. f\<lparr>tf_status := Superseded, tf_terminal_reason := lit ''newer_message''\<rparr>) st
          else st)"

datatype fence_error = Message_id_required

text \<open>The three clock readings are those of the pruning, the deadline and \<open>created_monotonic\<close>.\<close>

definition begin_callback_turn ::
  "pystr \<Rightarrow> pystr \<Rightarrow> timestamp \<Rightarrow> timestamp \<times> timestamp \<times> timestamp \<Rightarrow> (fences, fence_error, turn_fence) op" where
  "begin_callback_turn message_id chat_id budget_seconds clock st =
     (let message_key = strip message_id; chat_key = strip chat_id; (t_prune, t_deadline, t_created) = clock in
      if message_key = [] then (Inl Message_id_required, st) else
      let st1 = prune_locked t_prune st;
          previous_key = (if chat_key \<noteq> [] then map_of (by_chat st1) chat_key else None);
          st2 = supersede previous_key st1;
          fence = \<lparr>tf_message_id = message_key, tf_chat_id = chat_key,
                   tf_deadline_monotonic = t_deadline + turn_budget budget_seconds,
                   tf_phase = lit ''created'', tf_status = Active, tf_session_ids = [],
                   tf_verified_write = False, tf_delivery_unknown = False,
                   tf_created_monotonic = t_created, tf_terminal_reason = []\<rparr>
      in (Inr fence, st2\<lparr>
           by_message := AList.update message_key fence (by_message st2),
           by_chat := (if chat_key \<noteq> [] then AList.update chat_key message_key (by_chat st2) else by_chat st2)\<rparr>))"

definition bind_session :: "pystr \<Rightarrow> pystr \<Rightarrow> pystr \<Rightarrow> fences \<Rightarrow> bool \<times> fences" where
  "bind_session message_id session_id chat_id st =
     (let message_key = strip message_id; session_key = strip session_id in
      if message_key = [] \<or> session_key = [] then (False, st) else
      let fence = (case map_of (by_message st) message_key of
            Some f \<Rightarrow> Some (message_key, f)
          | None \<Rightarrow> if chat_id \<noteq> [] then
              let k = (case map_of (by_chat st) (strip chat_id) of None \<Rightarrow> [] | Some k \<Rightarrow> k) in
              (case map_of (by_message st) k of
                 Some candidate \<Rightarrow> if tf_message_id candidate = message_key then Some (k, candidate) else None
               | None \<Rightarrow> None)
            else None) in
      case fence of
        None \<Rightarrow> (False, st)
      | Some (k, f) \<Rightarrow>
          let st' = modify k (\<lambda>f. f\<lparr>tf_session_ids := List.insert session_key (tf_session_ids f)\<rparr>) st in
          (True, st'\<lparr>by_session := AList.update session_key (tf_message_id f) (by_session st')\<rparr>))"

definition mark_phase :: "pystr \<Rightarrow> pystr \<Rightarrow> pystr \<Rightarrow> fences \<Rightarrow> fences" where
  "mark_phase session_id message_id phase st = (case find_locked st session_id message_id of
     None \<Rightarrow> st
   | Some (k, fence) \<Rightarrow>
       if tf_status fence = Active
       then modify k (\<lambda>f. f\<lparr>tf_phase := (if strip phase \<noteq> [] then strip phase else tf_phase f)\<rparr>) st else st)"

text \<open>
  \<open>str(x) == "result_unknown"\<close> holds for the string itself only, since no number, boolean, list
  or dictionary prints as that text.
\<close>

definition observe_tool_result :: "pystr \<Rightarrow> json \<Rightarrow> fences \<Rightarrow> fences" where
  "observe_tool_result session_id result st = (case find_locked st session_id [] of
     None \<Rightarrow> st
   | Some (k, fence) \<Rightarrow>
       let parsed = as_dict result;
           data = as_dict (dget parsed (lit ''data''));
           receipt = as_dict (dget data (lit ''execution_receipt''));
           delivery = por (dget data (lit ''delivery_status'')) (dget receipt (lit ''delivery_status''))
       in modify k (\<lambda>f. f\<lparr>
            tf_verified_write := (tf_verified_write f \<or> truthy (dget data (lit ''writeback_verified''))
              \<or> truthy (dget receipt (lit ''writeback_verified''))),
            tf_delivery_unknown := (tf_delivery_unknown f \<or> delivery = JStr (lit ''result_unknown''))\<rparr>) st)"

definition expire_turn :: "pystr \<Rightarrow> pystr \<Rightarrow> pystr \<Rightarrow> fences \<Rightarrow> bool \<times> fences" where
  "expire_turn message_id session_id reason st = (case find_locked st session_id message_id of
     None \<Rightarrow> (False, st)
   | Some (k, fence) \<Rightarrow>
       if tf_status fence \<noteq> Active then (False, st)
       else (True, modify k (\<lambda>f. f\<lparr>tf_status := Expired,
              tf_terminal_reason := (if strip reason \<noteq> [] then strip reason else lit ''timeout'')\<rparr>) st))"

definition finish_turn :: "pystr \<Rightarrow> pystr \<Rightarrow> fences \<Rightarrow> fences" where
  "finish_turn session_id message_id st = (case find_locked st session_id message_id of
     None \<Rightarrow> st
   | Some (k, fence) \<Rightarrow>
       if tf_status fence = Active
       then modify k (\<lambda>f. f\<lparr>tf_status := Finished, tf_terminal_reason := lit ''completed''\<rparr>) st else st)"

definition block_reason :: "pystr \<Rightarrow> pystr \<Rightarrow> timestamp \<Rightarrow> fences \<Rightarrow> pystr \<times> fences" where
  "block_reason session_id message_id current st = (case find_locked st session_id message_id of
     None \<Rightarrow> ([], st)
   | Some (k, fence) \<Rightarrow>
       let late = (tf_status fence = Active \<and> current > tf_deadline_monotonic fence);
           status = (if late then Expired else tf_status fence);
           st' = (if late then modify k (\<lambda>f. f\<lparr>tf_status := Expired,
                    tf_terminal_reason := lit ''deadline_exceeded''\<rparr>) st else st)
       in (case status of Expired \<Rightarrow> (lit ''turn_expired'', st')
           | Superseded \<Rightarrow> (lit ''turn_superseded'', st')
           | _ \<Rightarrow> ([], st')))"

text \<open>The three fixed replies of \<open>failure_reply\<close>, one constructor for each Chinese sentence.\<close>

datatype failure_text = Delivery_unconfirmed | Done_but_reply_failed | No_write_no_send

definition failure_reply :: "pystr \<Rightarrow> pystr \<Rightarrow> fences \<Rightarrow> failure_text" where
  "failure_reply message_id session_id st = (case find_locked st session_id message_id of
     None \<Rightarrow> No_write_no_send
   | Some (k, fence) \<Rightarrow>
       if tf_delivery_unknown fence then Delivery_unconfirmed
       else if tf_verified_write fence then Done_but_reply_failed
       else No_write_no_send)"

record turn_snapshot =
  sn_message_id :: pystr
  sn_phase :: pystr
  sn_status :: fence_status
  sn_terminal_reason :: pystr
  sn_verified_write :: bool
  sn_delivery_unknown :: bool
  sn_remaining_ms :: int

definition turn_snapshot :: "pystr \<Rightarrow> pystr \<Rightarrow> timestamp \<Rightarrow> fences \<Rightarrow> turn_snapshot option" where
  "turn_snapshot session_id message_id now st = (case find_locked st session_id message_id of
     None \<Rightarrow> None
   | Some (k, fence) \<Rightarrow> Some \<lparr>sn_message_id = tf_message_id fence, sn_phase = tf_phase fence,
       sn_status = tf_status fence, sn_terminal_reason = tf_terminal_reason fence,
       sn_verified_write = tf_verified_write fence, sn_delivery_unknown = tf_delivery_unknown fence,
       sn_remaining_ms = max 0 (py_round ((tf_deadline_monotonic fence - now) * 1000))\<rparr>)"

definition clear_turn_fences :: "fences \<Rightarrow> fences" where
  "clear_turn_fences st = st\<lparr>by_message := [], by_session := [], by_chat := []\<rparr>"

section \<open>Effect of each operation on one entry\<close>

lemma by_message_modify [simp]:
  "map_of (by_message (modify k f st)) x =
     (if x = k then map_option f (map_of (by_message st) k) else map_of (by_message st) x)"
  by (simp add: modify_def map_of_map_entry split: option.split)

lemma modify_other [simp]: "by_session (modify k f st) = by_session st" "by_chat (modify k f st) = by_chat st"
  by (simp_all add: modify_def)

lemma by_message_prune_key: "by_message (prune_key k st) = AList.delete k (by_message st)"
  by (auto simp: prune_key_def map_of_eq_None_iff delete_id split: option.split)

lemma by_message_prune_keys:
  "map_of (by_message (fold prune_key ks st)) x = (if x \<in> set ks then None else map_of (by_message st) x)"
  by (induction ks arbitrary: st) (auto simp: by_message_prune_key delete_conv')

definition fences_inv :: "fences \<Rightarrow> bool" where
  "fences_inv st \<longleftrightarrow> distinct (map fst (by_message st))
     \<and> (\<forall>k f. map_of (by_message st) k = Some f \<longrightarrow> tf_message_id f = k \<and> k \<noteq> [])"

lemma by_message_prune:
  assumes "fences_inv st"
  shows "map_of (by_message (prune_locked t st)) x =
    (case map_of (by_message st) x of None \<Rightarrow> None
     | Some f \<Rightarrow> if t - tf_created_monotonic f > 2 * 60 * 60 then None else Some f)"
proof -
  have d: "distinct (map fst (by_message st))" using assms by (simp add: fences_inv_def)
  have stale: "x \<in> fst ` {p \<in> set (by_message st). P (snd p)} \<longleftrightarrow> (\<exists>f. map_of (by_message st) x = Some f \<and> P f)" for P
    using map_of_eq_Some_iff [OF d, of x] by force
  show ?thesis
    using stale [of "\<lambda>f. t - tf_created_monotonic f > 2 * 60 * 60"]
    by (auto simp: prune_locked_def by_message_prune_keys case_prod_unfold split: option.split)
qed

lemma map_of_prune_Some:
  "fences_inv st \<Longrightarrow> map_of (by_message (prune_locked t st)) x = Some f \<Longrightarrow> map_of (by_message st) x = Some f"
  by (auto simp: by_message_prune split: option.splits if_splits)

lemma distinct_prune: "distinct (map fst (by_message st)) \<Longrightarrow> distinct (map fst (by_message (prune_locked t st)))"
proof -
  have "distinct (map fst (by_message st)) \<Longrightarrow> distinct (map fst (by_message (fold prune_key ks st)))" for ks
    by (induction ks arbitrary: st) (auto simp: by_message_prune_key distinct_delete)
  then show "distinct (map fst (by_message st)) \<Longrightarrow> ?thesis" by (simp add: prune_locked_def Let_def)
qed

section \<open>The registry as a machine\<close>

datatype fence_cmd =
    Begin pystr pystr timestamp "timestamp \<times> timestamp \<times> timestamp"
  | Bind pystr pystr pystr
  | Mark pystr pystr pystr
  | Observe pystr json
  | Expire pystr pystr pystr
  | Finish pystr pystr
  | Ask pystr pystr timestamp
  | Clear

fun fence_step :: "fence_cmd \<Rightarrow> fences \<Rightarrow> fences" where
  "fence_step (Begin m c b clock) st = snd (begin_callback_turn m c b clock st)"
| "fence_step (Bind m s c) st = snd (bind_session m s c st)"
| "fence_step (Mark s m p) st = mark_phase s m p st"
| "fence_step (Observe s r) st = observe_tool_result s r st"
| "fence_step (Expire m s r) st = snd (expire_turn m s r st)"
| "fence_step (Finish s m) st = finish_turn s m st"
| "fence_step (Ask s m t) st = snd (block_reason s m t st)"
| "fence_step Clear st = clear_turn_fences st"

lemmas fence_op_defs = bind_session_def mark_phase_def observe_tool_result_def
  expire_turn_def finish_turn_def block_reason_def clear_turn_fences_def

text \<open>Every operation but \<open>begin_callback_turn\<close> and \<open>clear_turn_fences\<close> edits one entry at most.\<close>

definition mild :: "turn_fence \<Rightarrow> turn_fence \<Rightarrow> bool" where
  "mild f g \<longleftrightarrow> tf_message_id g = tf_message_id f \<and> tf_created_monotonic g = tf_created_monotonic f
     \<and> (tf_status f \<noteq> Active \<longrightarrow> tf_status g = tf_status f)
     \<and> (tf_verified_write f \<longrightarrow> tf_verified_write g) \<and> (tf_delivery_unknown f \<longrightarrow> tf_delivery_unknown g)"

lemma mild_refl [simp]: "mild f f"
  by (simp add: mild_def)

lemma find_lockedD: "find_locked st s m = Some (k, f) \<Longrightarrow> map_of (by_message st) k = Some f"
  by (auto simp: find_locked_def split: option.splits)

definition edits :: "fences \<Rightarrow> fences \<Rightarrow> bool" where
  "edits st st' \<longleftrightarrow> map fst (by_message st') = map fst (by_message st)
     \<and> (\<forall>k f. map_of (by_message st) k = Some f \<longrightarrow> (\<exists>g. map_of (by_message st') k = Some g \<and> mild f g))"

lemma edits_refl [simp]: "edits st st"
  by (auto simp: edits_def)

lemma edits_modify: "(\<And>f. map_of (by_message st) k = Some f \<Longrightarrow> mild f (h f)) \<Longrightarrow> edits st (modify k h st)"
  by (auto simp: edits_def) (simp add: modify_def)

lemma edits_by_message: "by_message st' = by_message st'' \<Longrightarrow> edits st st'' \<Longrightarrow> edits st st'"
  by (simp add: edits_def)

lemma edits_bind: "edits st (snd (bind_session m s c st))"
  by (auto simp: bind_session_def Let_def mild_def split: option.split
      intro!: edits_modify edits_by_message [where st'' = "modify _ _ st"])

lemma edits_mark: "edits st (mark_phase s m p st)"
  by (auto simp: mark_phase_def mild_def split: option.split intro!: edits_modify)

lemma edits_observe: "edits st (observe_tool_result s r st)"
  by (auto simp: observe_tool_result_def Let_def mild_def split: option.split intro!: edits_modify)

lemma edits_expire: "edits st (snd (expire_turn m s r st))"
  by (auto simp: expire_turn_def mild_def dest!: find_lockedD split: option.split intro!: edits_modify)

lemma edits_finish: "edits st (finish_turn s m st)"
  by (auto simp: finish_turn_def mild_def dest!: find_lockedD split: option.split intro!: edits_modify)

lemma edits_block: "edits st (snd (block_reason s m t st))"
  by (auto simp: block_reason_def Let_def mild_def dest!: find_lockedD
      split: option.split fence_status.split intro!: edits_modify)

lemma edits_supersede: "edits st (supersede p st)"
  by (auto simp: supersede_def Let_def mild_def split: option.split intro!: edits_modify)

lemmas edits_ops = edits_bind edits_mark edits_observe edits_expire edits_finish edits_block

lemma edits_inv:
  assumes "edits st st'" "fences_inv st"
  shows "fences_inv st'"
proof -
  have keys: "map fst (by_message st') = map fst (by_message st)" using assms(1) by (simp add: edits_def)
  have "tf_message_id g = k \<and> k \<noteq> []" if g: "map_of (by_message st') k = Some g" for k g
  proof -
    have "k \<in> set (map fst (by_message st))"
      using g keys by (metis domI dom_map_of_conv_image_fst list.set_map)
    then obtain f where "map_of (by_message st) k = Some f"
      by (metis domD dom_map_of_conv_image_fst list.set_map)
    then show ?thesis using assms g by (fastforce simp: edits_def mild_def fences_inv_def)
  qed
  then show ?thesis using assms(2) keys by (simp add: fences_inv_def)
qed

lemma fence_prune_inv:
  assumes "fences_inv st"
  shows "fences_inv (prune_locked t st)"
  unfolding fences_inv_def
  using assms distinct_prune map_of_prune_Some [OF assms] by (metis fences_inv_def)

lemma begin_cases:
  obtains (rejected) "strip m = []" "begin_callback_turn m c b clock st = (Inl Message_id_required, st)"
  | (begun) f p where "strip m \<noteq> []" "fst (begin_callback_turn m c b clock st) = Inr f"
      "tf_message_id f = strip m"
      "by_message (snd (begin_callback_turn m c b clock st)) =
         AList.update (strip m) f (by_message (supersede p (prune_locked (fst clock) st)))"
  by (cases clock; cases "strip m = []") (auto simp: begin_callback_turn_def Let_def)

lemma begin_inv:
  assumes "fences_inv st"
  shows "fences_inv (snd (begin_callback_turn m c b clock st))"
proof (cases rule: begin_cases [of m c b clock st])
  case rejected
  then show ?thesis using assms by simp
next
  case (begun f p)
  have "fences_inv (supersede p (prune_locked (fst clock) st))"
    by (rule edits_inv [OF edits_supersede fence_prune_inv [OF assms]])
  then show ?thesis using begun
    by (simp add: fences_inv_def update_conv' distinct_update)
qed

lemma clear_inv: "fences_inv (clear_turn_fences st)"
  by (simp add: clear_turn_fences_def fences_inv_def)

lemma fence_step_edits: "\<forall>m ch b clock. c \<noteq> Begin m ch b clock \<Longrightarrow> c \<noteq> Clear \<Longrightarrow> edits st (fence_step c st)"
  by (cases c) (simp_all add: edits_ops)

lemma fence_step_inv: "fences_inv st \<Longrightarrow> fences_inv (fence_step c st)"
  using edits_inv [OF fence_step_edits [of c st]] by (cases c) (auto simp: begin_inv clear_inv)

section \<open>Finality of a blocked turn\<close>

text \<open>
  An entry may disappear: a later \<open>begin_callback_turn\<close> prunes turns older than two hours, the
  same message id may begin again, and \<open>clear_turn_fences\<close> empties the registry. \<open>keeps\<close>
  excludes exactly these for the turn \<open>k\<close> and the clock bound \<open>t\<close>.
\<close>

fun keeps :: "pystr \<times> timestamp \<Rightarrow> fence_cmd \<Rightarrow> bool" where
  "keeps (k, t) (Begin m c b (t_prune, t_deadline, t_created)) = (strip m \<noteq> k \<and> t_prune \<le> t)"
| "keeps (k, t) Clear = False"
| "keeps (k, t) _ = True"

definition persists :: "(turn_fence \<Rightarrow> bool) \<Rightarrow> pystr \<times> timestamp \<Rightarrow> fences \<Rightarrow> bool" where
  "persists P kt st \<longleftrightarrow> (\<exists>f. map_of (by_message st) (fst kt) = Some f
     \<and> P f \<and> snd kt \<le> tf_created_monotonic f + 2 * 60 * 60)"

definition blocked_fence :: "turn_fence \<Rightarrow> bool" where
  "blocked_fence f \<longleftrightarrow> tf_status f = Expired \<or> tf_status f = Superseded"

definition touched_fence :: "turn_fence \<Rightarrow> bool" where
  "touched_fence f \<longleftrightarrow> tf_verified_write f \<or> tf_delivery_unknown f"

lemma edits_persists:
  assumes "edits st st'" "persists P kt st" "\<And>f g. mild f g \<Longrightarrow> P f \<Longrightarrow> P g"
  shows "persists P kt st'"
proof -
  obtain f where f: "map_of (by_message st) (fst kt) = Some f" "P f"
      "snd kt \<le> tf_created_monotonic f + 2 * 60 * 60"
    using assms(2) by (auto simp: persists_def)
  then obtain g where "map_of (by_message st') (fst kt) = Some g" "mild f g"
    using assms(1) by (auto simp: edits_def)
  then show ?thesis using f assms(3) by (auto simp: persists_def mild_def)
qed

lemma begin_persists:
  assumes inv: "fences_inv st" and k: "strip m \<noteq> fst kt" and t: "fst clock \<le> snd kt"
    and P: "\<And>f g. mild f g \<Longrightarrow> P f \<Longrightarrow> P g" and per: "persists P kt st"
  shows "persists P kt (snd (begin_callback_turn m c b clock st))"
proof -
  have "persists P kt (prune_locked (fst clock) st)"
    using per t by (auto simp: persists_def by_message_prune [OF inv])
  then have sup: "persists P kt (supersede p (prune_locked (fst clock) st))" for p
    using edits_persists [OF edits_supersede] P by blast
  show ?thesis
  proof (cases rule: begin_cases [of m c b clock st])
    case rejected
    then show ?thesis using per by simp
  next
    case (begun f p)
    then show ?thesis using k sup [of p] by (simp add: persists_def update_conv')
  qed
qed

lemma step_persists:
  assumes "fences_inv st" "keeps kt c" "persists P kt st" "\<And>f g. mild f g \<Longrightarrow> P f \<Longrightarrow> P g"
  shows "persists P kt (fence_step c st)"
proof (cases "\<forall>m ch b clock. c \<noteq> Begin m ch b clock")
  case True
  moreover have "c \<noteq> Clear" using assms(2) by (cases kt) auto
  ultimately show ?thesis
    using edits_persists [OF fence_step_edits assms(3)] assms(4) by blast
next
  case False
  then obtain m ch b clock where "c = Begin m ch b clock" by blast
  then show ?thesis using assms begin_persists [of st m kt clock P]
    by (cases kt; cases clock) auto
qed

lemma mild_blocked: "mild f g \<Longrightarrow> blocked_fence f \<Longrightarrow> blocked_fence g"
  by (auto simp: mild_def blocked_fence_def)

lemma mild_touched: "mild f g \<Longrightarrow> touched_fence f \<Longrightarrow> touched_fence g"
  by (auto simp: mild_def touched_fence_def)

interpretation blocked: final_machine fence_step fences_inv "persists blocked_fence" keeps
  by unfold_locales (auto intro: fence_step_inv step_persists mild_blocked)

interpretation touched: final_machine fence_step fences_inv "persists touched_fence" keeps
  by unfold_locales (auto intro: step_persists mild_touched)

section \<open>Properties\<close>

lemma block_reason_known:
  assumes "strip m \<noteq> []" "map_of (by_message st) (strip m) = Some f"
  shows "fst (block_reason s m t st) \<noteq> [] \<longleftrightarrow>
      blocked_fence f \<or> tf_status f = Active \<and> t > tf_deadline_monotonic f"
    and "fst (block_reason s m t st) \<noteq> [] \<Longrightarrow> persists blocked_fence (strip m, tf_created_monotonic f + 2 * 60 * 60)
      (snd (block_reason s m t st))"
  using assms by (auto simp: block_reason_def find_locked_def find_key_def Let_def blocked_fence_def
      persists_def split: fence_status.splits if_splits)

lemma persists_mono: "persists P (k, t) st \<Longrightarrow> t' \<le> t \<Longrightarrow> persists P (k, t') st"
  by (auto simp: persists_def)

text \<open>
  C30: A turn that was refused once stays refused. After \<open>block_reason\<close> has returned a reason
  for a message, no sequence of tool results, phase marks, expiries, finishes or new turns makes
  it return the empty string for that message again, as long as the same message id does not
  begin anew, the registry is not cleared and no pruning runs later than two hours after the
  turn was created.
\<close>

theorem refused_turn_stays_refused:
  assumes inv: "fences_inv st" and m: "strip m \<noteq> []" "map_of (by_message st) (strip m) = Some f"
    and refused: "fst (block_reason s m now st) \<noteq> []"
    and cs: "\<forall>c\<in>set cs. keeps (strip m, tf_created_monotonic f + 2 * 60 * 60) c"
  shows "fst (block_reason s' m now' (fold fence_step cs (snd (block_reason s m now st)))) \<noteq> []"
proof -
  let ?st = "snd (block_reason s m now st)"
  have "fences_inv ?st" using edits_inv [OF edits_block inv] .
  then have "persists blocked_fence (strip m, tf_created_monotonic f + 2 * 60 * 60) (fold fence_step cs ?st)"
    using blocked.run_final cs block_reason_known(2) [OF m refused] by blast
  then show ?thesis using block_reason_known(1) [OF m(1)] by (auto simp: persists_def)
qed

definition demo_fence :: turn_fence where
  "demo_fence = \<lparr>tf_message_id = lit ''m1'', tf_chat_id = lit ''c'', tf_deadline_monotonic = 38,
     tf_phase = lit ''model'', tf_status = Active, tf_session_ids = [], tf_verified_write = False,
     tf_delivery_unknown = False, tf_created_monotonic = 0, tf_terminal_reason = []\<rparr>"

definition demo_fences :: fences where
  "demo_fences = \<lparr>by_message = [(lit ''m1'', demo_fence)], by_session = [], by_chat = [(lit ''c'', lit ''m1'')]\<rparr>"

lemma demo_facts [simp]:
  "fences_inv demo_fences"
  "map_of (by_message demo_fences) (lit ''m1'') = Some demo_fence"
  "map_of (by_chat demo_fences) (lit ''c'') = Some (lit ''m1'')"
  "tf_created_monotonic demo_fence = 0" "tf_deadline_monotonic demo_fence = 38"
  "tf_status demo_fence = Active" "tf_phase demo_fence = lit ''model''"
  "strip (lit ''m1'') = lit ''m1''" "strip (lit ''m2'') = lit ''m2''" "strip (lit ''c'') = lit ''c''"
  by (auto simp: demo_fences_def demo_fence_def fences_inv_def strip_def lit_def is_space_def split: if_splits)

theorem refused_turn_stays_refused_witness:
  "fst (block_reason [] (lit ''m1'') 50 (fold fence_step
     [Begin (lit ''m2'') (lit ''c'') 0 (60, 60, 60), Mark [] (lit ''m1'') (lit ''model''), Finish [] (lit ''m1'')]
     (snd (block_reason [] (lit ''m1'') 40 demo_fences)))) \<noteq> []"
  by (rule refused_turn_stays_refused [where f = demo_fence])
    (auto simp: block_reason_known [where f = demo_fence])

text \<open>
  A turn past its deadline is expired by the first query: \<open>block_reason\<close> returns
  \<open>turn_expired\<close>, stores the reason \<open>deadline_exceeded\<close> and leaves every other turn alone.
\<close>

theorem late_turn_is_expired:
  assumes "strip m \<noteq> []" "map_of (by_message st) (strip m) = Some f"
    "tf_status f = Active" "tf_deadline_monotonic f < now"
  shows "fst (block_reason s m now st) = lit ''turn_expired'' \<and>
    map_of (by_message (snd (block_reason s m now st))) =
      (map_of (by_message st))(strip m \<mapsto> f\<lparr>tf_status := Expired, tf_terminal_reason := lit ''deadline_exceeded''\<rparr>)"
  using assms by (auto simp: block_reason_def find_locked_def find_key_def Let_def)

theorem late_turn_is_expired_witness:
  "fst (block_reason [] (lit ''m1'') 39 demo_fences) = lit ''turn_expired''"
  using late_turn_is_expired [of "lit ''m1''" demo_fences demo_fence 39 "[]"] by simp

lemma by_chat_prune_key:
  "map_of (by_chat st) c = Some k \<Longrightarrow> k \<noteq> a \<Longrightarrow> map_of (by_chat (prune_key a st)) c = Some k"
  by (auto simp: prune_key_def delete_conv' split: option.split)

lemma by_chat_prune:
  assumes "map_of (by_chat st) c = Some k" "k \<notin> set ks"
  shows "map_of (by_chat (fold prune_key ks st)) c = Some k"
  using assms by (induction ks arbitrary: st) (auto simp: by_chat_prune_key)

text \<open>
  A new message of a chat supersedes the chat's current turn exactly when that turn is
  active and still in a pure model phase (\<open>created\<close> or \<open>model\<close>). A turn whose tool phase has
  begun, or that has ended, is left as it is.
\<close>

theorem begin_supersedes_model_phase:
  assumes inv: "fences_inv st" and m: "strip m \<noteq> []" "strip m \<noteq> k" and c: "strip c \<noteq> []"
    and cur: "map_of (by_chat st) (strip c) = Some k" "map_of (by_message st) k = Some f"
    and fresh: "fst clock - tf_created_monotonic f \<le> 2 * 60 * 60"
  shows "map_of (by_message (snd (begin_callback_turn m c b clock st))) k =
    Some (if tf_status f = Active \<and> tf_phase f \<in> {lit ''created'', lit ''model''}
          then f\<lparr>tf_status := Superseded, tf_terminal_reason := lit ''newer_message''\<rparr> else f)"
proof -
  let ?st = "prune_locked (fst clock) st"
  have d: "distinct (map fst (by_message st))" using inv by (simp add: fences_inv_def)
  have f: "map_of (by_message ?st) k = Some f"
    using fresh cur by (simp add: by_message_prune [OF inv])
  have "k \<notin> set (map fst (filter (\<lambda>(key, g). fst clock - tf_created_monotonic g > 2 * 60 * 60) (by_message st)))"
    using map_of_eq_Some_iff [OF d, of k] cur(2) fresh by force
  then have "map_of (by_chat ?st) (strip c) = Some k"
    using by_chat_prune [OF cur(1)] by (simp add: prune_locked_def Let_def)
  then show ?thesis using m c f
    by (cases clock) (auto simp: begin_callback_turn_def Let_def update_conv' supersede_def)
qed

theorem begin_supersedes_model_phase_witness:
  "map_of (by_message (snd (begin_callback_turn (lit ''m2'') (lit ''c'') 0 (1, 1, 1) demo_fences))) (lit ''m1'') =
     Some (demo_fence\<lparr>tf_status := Superseded, tf_terminal_reason := lit ''newer_message''\<rparr>)"
  using begin_supersedes_model_phase [of demo_fences "lit ''m2''" "lit ''m1''" "lit ''c''" demo_fence "(1, 1, 1)" 0]
  by simp

lemma failure_reply_known:
  assumes "strip m \<noteq> []" "map_of (by_message st) (strip m) = Some f"
  shows "failure_reply m s st \<noteq> No_write_no_send \<longleftrightarrow> touched_fence f"
  using assms by (auto simp: failure_reply_def find_locked_def find_key_def touched_fence_def)

text \<open>
  The failure reply is honest. Once a tool result with a verified write, or with an unknown
  delivery, was observed for a turn, \<open>failure_reply\<close> never again says that nothing was written
  or sent, whatever happens to the registry under the same conditions as above.
\<close>

theorem failure_reply_is_honest:
  assumes inv: "fences_inv st" and k: "strip m \<noteq> []"
    and sess: "find_locked st s [] = Some (strip m, f)"
    and result: "data = as_dict (dget (as_dict r) (lit ''data''))"
      "truthy (dget data (lit ''writeback_verified'')) \<or> dget data (lit ''delivery_status'') = JStr (lit ''result_unknown'')"
    and cs: "\<forall>c\<in>set cs. keeps (strip m, tf_created_monotonic f + 2 * 60 * 60) c"
  shows "failure_reply m s' (fold fence_step cs (observe_tool_result s r st)) \<noteq> No_write_no_send"
proof -
  let ?st = "observe_tool_result s r st"
  have "map_of (by_message st) (strip m) = Some f" using sess by (rule find_lockedD)
  then have "persists touched_fence (strip m, tf_created_monotonic f + 2 * 60 * 60) ?st"
    using sess result
    by (auto simp: observe_tool_result_def Let_def persists_def touched_fence_def por_def)
  moreover have "fences_inv ?st" by (rule edits_inv [OF edits_observe inv])
  ultimately have "persists touched_fence (strip m, tf_created_monotonic f + 2 * 60 * 60) (fold fence_step cs ?st)"
    using touched.run_final cs by blast
  then show ?thesis using failure_reply_known [OF k] by (auto simp: persists_def)
qed

theorem failure_reply_is_honest_witness:
  "failure_reply (lit ''m1'') [] (fold fence_step [Ask [] (lit ''m1'') 100]
     (observe_tool_result (lit ''c'') (JObj [(lit ''data'', JObj [(lit ''writeback_verified'', JBool True)])])
       (demo_fences\<lparr>by_session := [(lit ''c'', lit ''m1'')]\<rparr>))) \<noteq> No_write_no_send"
proof -
  have "fences_inv (demo_fences\<lparr>by_session := [(lit ''c'', lit ''m1'')]\<rparr>)"
    using demo_facts(1) by (simp add: fences_inv_def)
  then show ?thesis
    by (rule failure_reply_is_honest [where f = demo_fence])
      (auto simp: find_locked_def find_key_def json_simps)
qed

end
