(* ===== verification/InboundReceipts.thy ===== *)
theory InboundReceipts
  imports Prelude
begin

text \<open>
  \<^verbatim>\<open>runtime/plugins/platforms/wecom/inbound_receipts.py\<close>: the durable receipts that make a
  WeCom callback idempotent. The table \<open>inbound_receipts\<close> is a list of rows; every method is
  one SQLite transaction and takes the owner id of its store object and its clock as arguments.
  \<open>H\<close> stands for \<open>sha256(...).hexdigest()\<close>. The JSON column \<open>payload_json\<close> is the dictionary it
  encodes, so that \<open>'{}'\<close> is the empty dictionary.
\<close>

section \<open>State\<close>

datatype receipt_status = Claimed | Processed | Failed

datatype reply_status = Received | Processing | Replied | Reply_failed

record receipt =
  ir_receipt_key :: pystr
  ir_app_name :: pystr
  ir_message_id :: pystr
  ir_user_id :: pystr
  ir_session_id :: pystr
  ir_status :: receipt_status
  ir_attempt_count :: int
  ir_claimed_at :: timestamp
  ir_processing_at :: "timestamp option"
  ir_processed_at :: "timestamp option"
  ir_replied_at :: "timestamp option"
  ir_failed_at :: "timestamp option"
  ir_reply_status :: reply_status
  ir_last_error :: pystr
  ir_payload :: "(pystr, json) dict"
  ir_owner_id :: pystr

definition CLAIM_STALE_SECONDS :: timestamp where
  "CLAIM_STALE_SECONDS = 15 * 60"

definition RECEIPT_RETENTION_SECONDS :: timestamp where
  "RECEIPT_RETENTION_SECONDS = 7 * 24 * 60 * 60"

section \<open>Operations\<close>

definition receipt_key :: "(pystr \<Rightarrow> pystr) \<Rightarrow> pystr \<Rightarrow> pystr \<Rightarrow> pystr" where
  "receipt_key H app_name message_id =
     H (strip (if app_name = [] then lit ''default'' else app_name) @ [10] @ strip message_id)"

record claim_result =
  cr_accepted :: bool
  cr_duplicate :: bool
  cr_reclaimed :: bool
  cr_receipt_key :: pystr

definition stale_claim :: "timestamp \<Rightarrow> receipt \<Rightarrow> bool" where
  "stale_claim now r \<longleftrightarrow> ir_status r = Claimed \<and> now - ir_claimed_at r \<ge> CLAIM_STALE_SECONDS"

definition retryable :: "timestamp \<Rightarrow> receipt \<Rightarrow> bool" where
  "retryable now r \<longleftrightarrow> ir_status r = Failed \<or> stale_claim now r"

text \<open>The row of the \<open>INSERT\<close> and the assignments of the \<open>UPDATE\<close> of \<open>claim\<close>.\<close>

definition new_receipt :: "pystr \<Rightarrow> pystr \<Rightarrow> pystr \<Rightarrow> pystr \<Rightarrow> pystr \<Rightarrow> pystr \<Rightarrow> (pystr, json) dict \<Rightarrow>
    timestamp \<Rightarrow> receipt" where
  "new_receipt key owner app_name message_id user_id session_id payload now =
     \<lparr>ir_receipt_key = key, ir_app_name = app_name, ir_message_id = message_id, ir_user_id = user_id,
      ir_session_id = session_id, ir_status = Claimed, ir_attempt_count = 1, ir_claimed_at = now,
      ir_processing_at = None, ir_processed_at = None, ir_replied_at = None, ir_failed_at = None,
      ir_reply_status = Received, ir_last_error = [], ir_payload = payload, ir_owner_id = owner\<rparr>"

definition retake :: "pystr \<Rightarrow> pystr \<Rightarrow> pystr \<Rightarrow> (pystr, json) dict \<Rightarrow> timestamp \<Rightarrow> receipt \<Rightarrow> receipt" where
  "retake owner user_id session_id payload now r =
     r\<lparr>ir_status := Claimed, ir_attempt_count := ir_attempt_count r + 1, ir_user_id := user_id,
       ir_session_id := session_id, ir_claimed_at := now, ir_processing_at := None,
       ir_processed_at := None, ir_replied_at := None, ir_failed_at := None,
       ir_reply_status := Received, ir_last_error := [],
       ir_payload := (if payload = [] then ir_payload r else payload), ir_owner_id := owner\<rparr>"

definition claim :: "(pystr \<Rightarrow> pystr) \<Rightarrow> pystr \<Rightarrow> pystr \<Rightarrow> pystr \<Rightarrow> pystr \<Rightarrow> pystr \<Rightarrow> (pystr, json) dict \<Rightarrow>
    timestamp \<Rightarrow> receipt list \<Rightarrow> claim_result \<times> receipt list" where
  "claim H owner app_name message_id user_id session_id payload now rows =
     (let key = receipt_key H app_name message_id;
          result = (\<lambda>accepted reclaimed. \<lparr>cr_accepted = accepted, cr_duplicate = \<not> accepted,
                      cr_reclaimed = reclaimed, cr_receipt_key = key\<rparr>)
      in case List.find (\<lambda>r. ir_receipt_key r = key) rows of
        None \<Rightarrow> (result True False,
          rows @ [new_receipt key owner app_name message_id user_id session_id payload now])
      | Some row \<Rightarrow>
          if retryable now row then
            (result True True, update_where (\<lambda>r. ir_receipt_key r = key)
              (retake owner user_id session_id payload now) rows)
          else (result False False, rows))"

record recovered =
  rc_receipt_key :: pystr
  rc_app_name :: pystr
  rc_message_id :: pystr
  rc_user_id :: pystr
  rc_session_id :: pystr
  rc_attempt_count :: int
  rc_payload :: "(pystr, json) dict"

definition recoverable :: "pystr \<Rightarrow> int \<Rightarrow> bool \<Rightarrow> receipt \<Rightarrow> bool" where
  "recoverable owner max_attempts include_owned r \<longleftrightarrow>
     ir_status r \<in> {Claimed, Failed} \<and> ir_attempt_count r < max 1 max_attempts \<and> ir_payload r \<noteq> []
     \<and> (include_owned \<or> ir_owner_id r \<noteq> owner)"

text \<open>The loop over the rows of the \<open>SELECT\<close>; a row whose payload is no dictionary is skipped.\<close>

fun recover_rows :: "pystr \<Rightarrow> timestamp \<Rightarrow> receipt list \<Rightarrow> receipt list \<Rightarrow> recovered list \<times> receipt list" where
  "recover_rows owner now [] rows = ([], rows)"
| "recover_rows owner now (row # todo) rows =
     (if ir_payload row = [] then recover_rows owner now todo rows else
      let rows' = update_where (\<lambda>r. ir_receipt_key r = ir_receipt_key row)
            (\<lambda>r. r\<lparr>ir_status := Claimed, ir_attempt_count := ir_attempt_count r + 1,
               ir_claimed_at := now, ir_failed_at := None, ir_last_error := [], ir_owner_id := owner\<rparr>) rows;
          (out, rows'') = recover_rows owner now todo rows'
      in (\<lparr>rc_receipt_key = ir_receipt_key row, rc_app_name = ir_app_name row,
           rc_message_id = ir_message_id row, rc_user_id = ir_user_id row,
           rc_session_id = ir_session_id row, rc_attempt_count = ir_attempt_count row + 1,
           rc_payload = ir_payload row\<rparr> # out, rows''))"

definition recover_pending :: "pystr \<Rightarrow> int \<Rightarrow> bool \<Rightarrow> timestamp \<Rightarrow> receipt list \<Rightarrow> recovered list \<times> receipt list" where
  "recover_pending owner max_attempts include_owned now rows =
     recover_rows owner now (sort_key ir_claimed_at (filter (recoverable owner max_attempts include_owned) rows)) rows"

definition mark_processing :: "pystr \<Rightarrow> timestamp \<Rightarrow> receipt list \<Rightarrow> bool \<times> receipt list" where
  "mark_processing key now rows =
     (let P = (\<lambda>r. ir_receipt_key r = key \<and> ir_status r = Claimed) in
      (rowcount P rows = 1, update_where P (\<lambda>r. r\<lparr>ir_processing_at := Some now, ir_reply_status := Processing\<rparr>) rows))"

definition mark_processed :: "pystr \<Rightarrow> pystr \<Rightarrow> timestamp \<Rightarrow> receipt list \<Rightarrow> bool \<times> receipt list" where
  "mark_processed key session_id now rows =
     (let P = (\<lambda>r. ir_receipt_key r = key \<and> ir_status r = Claimed) in
      (rowcount P rows = 1, update_where P (\<lambda>r. r\<lparr>ir_status := Processed, ir_processed_at := Some now,
          ir_replied_at := Some now, ir_reply_status := Replied, ir_session_id := session_id, ir_last_error := []\<rparr>) rows))"

definition mark_failed :: "pystr \<Rightarrow> pystr \<Rightarrow> timestamp \<Rightarrow> receipt list \<Rightarrow> bool \<times> receipt list" where
  "mark_failed key err now rows =
     (let P = (\<lambda>r. ir_receipt_key r = key \<and> ir_status r = Claimed) in
      (rowcount P rows = 1, update_where P (\<lambda>r. r\<lparr>ir_status := Failed, ir_failed_at := Some now,
          ir_reply_status := Reply_failed, ir_last_error := take 500 err\<rparr>) rows))"

definition prunable :: "timestamp \<Rightarrow> receipt \<Rightarrow> bool" where
  "prunable now r \<longleftrightarrow> ir_status r \<in> {Processed, Failed} \<and> ir_claimed_at r < now - RECEIPT_RETENTION_SECONDS"

definition prune :: "timestamp \<Rightarrow> receipt list \<Rightarrow> nat \<times> receipt list" where
  "prune now rows = (rowcount (prunable now) rows, delete_where (prunable now) rows)"

definition status_counts :: "receipt list \<Rightarrow> receipt_status \<Rightarrow> nat" where
  "status_counts rows s = rowcount (\<lambda>r. ir_status r = s) rows"

record health =
  h_total_count :: nat
  h_duplicate_or_retry_count :: nat
  h_failed_count :: nat
  h_claimed_count :: nat
  h_received_count :: nat
  h_processing_count :: nat
  h_replied_count :: nat
  h_reply_failed_count :: nat

definition health_snapshot :: "timestamp \<Rightarrow> receipt list \<Rightarrow> health" where
  "health_snapshot since rows =
     (let sel = filter (\<lambda>r. ir_claimed_at r \<ge> since) rows in
      \<lparr>h_total_count = length sel,
       h_duplicate_or_retry_count = rowcount (\<lambda>r. ir_attempt_count r > 1) sel,
       h_failed_count = rowcount (\<lambda>r. ir_status r = Failed) sel,
       h_claimed_count = rowcount (\<lambda>r. ir_status r = Claimed) sel,
       h_received_count = length sel,
       h_processing_count = rowcount (\<lambda>r. ir_reply_status r = Processing) sel,
       h_replied_count = rowcount (\<lambda>r. ir_reply_status r = Replied) sel,
       h_reply_failed_count = rowcount (\<lambda>r. ir_reply_status r = Reply_failed) sel\<rparr>)"

section \<open>Invariant\<close>

definition receipt_ok :: "receipt \<Rightarrow> bool" where
  "receipt_ok r \<longleftrightarrow> 1 \<le> ir_attempt_count r
     \<and> (ir_reply_status r = Replied \<longleftrightarrow> ir_status r = Processed)
     \<and> (ir_status r = Processed \<longleftrightarrow> ir_processed_at r \<noteq> None)
     \<and> (ir_status r = Failed \<longrightarrow> ir_reply_status r = Reply_failed \<and> ir_failed_at r \<noteq> None)"

definition receipts_inv :: "receipt list \<Rightarrow> bool" where
  "receipts_inv rows \<longleftrightarrow> unique_key ir_receipt_key rows \<and> (\<forall>r\<in>set rows. receipt_ok r)"

lemma receipts_inv_update:
  assumes "receipts_inv rows" "\<And>r. r \<in> set rows \<Longrightarrow> P r \<Longrightarrow> receipt_ok r \<Longrightarrow> receipt_ok (f r)"
    "\<And>r. P r \<Longrightarrow> ir_receipt_key (f r) = ir_receipt_key r"
  shows "receipts_inv (update_where P f rows)"
  using assms by (auto simp: receipts_inv_def unique_key_update_where ball_update_where)

definition reclaim :: "pystr \<Rightarrow> timestamp \<Rightarrow> receipt \<Rightarrow> receipt" where
  "reclaim owner now r = r\<lparr>ir_status := Claimed, ir_attempt_count := ir_attempt_count r + 1,
     ir_claimed_at := now, ir_failed_at := None, ir_last_error := [], ir_owner_id := owner\<rparr>"

definition recovered_of :: "receipt \<Rightarrow> recovered" where
  "recovered_of row = \<lparr>rc_receipt_key = ir_receipt_key row, rc_app_name = ir_app_name row,
     rc_message_id = ir_message_id row, rc_user_id = ir_user_id row, rc_session_id = ir_session_id row,
     rc_attempt_count = ir_attempt_count row + 1, rc_payload = ir_payload row\<rparr>"

lemma reclaim_simps [simp]:
  "ir_receipt_key (reclaim o' now r) = ir_receipt_key r" "ir_owner_id (reclaim o' now r) = o'"
  "ir_status (reclaim o' now r) = Claimed" "ir_payload (reclaim o' now r) = ir_payload r"
  by (simp_all add: reclaim_def)

lemma recover_rows_eq:
  assumes "distinct (map ir_receipt_key todo)" "\<forall>r\<in>set todo. ir_payload r \<noteq> []"
  shows "recover_rows owner now todo rows =
    (map recovered_of todo, update_where (\<lambda>r. ir_receipt_key r \<in> ir_receipt_key ` set todo) (reclaim owner now) rows)"
  using assms
proof (induction todo arbitrary: rows)
  case Nil
  then show ?case by (simp add: update_where_def)
next
  case (Cons row todo)
  have "update_where (\<lambda>r. ir_receipt_key r \<in> ir_receipt_key ` set todo) (reclaim owner now)
      (update_where (\<lambda>r. ir_receipt_key r = ir_receipt_key row) (reclaim owner now) rows) =
    update_where (\<lambda>r. ir_receipt_key r \<in> ir_receipt_key ` set (row # todo)) (reclaim owner now) rows"
    using Cons.prems by (auto simp: update_where_def)
  then show ?case using Cons by (simp add: recovered_of_def flip: reclaim_def)
qed

lemma recover_pending_eq:
  assumes "unique_key ir_receipt_key rows"
  shows "recover_pending owner n incl now rows =
    (map recovered_of (sort_key ir_claimed_at (filter (recoverable owner n incl) rows)),
     update_where (recoverable owner n incl) (reclaim owner now) rows)"
proof -
  let ?todo = "sort_key ir_claimed_at (filter (recoverable owner n incl) rows)"
  have "distinct (map ir_receipt_key (filter (recoverable owner n incl) rows))"
    using assms by (simp add: unique_key_def distinct_map_filter)
  then have d: "distinct (map ir_receipt_key ?todo)"
    by (auto simp: distinct_map)
  have "update_where (\<lambda>r. ir_receipt_key r \<in> ir_receipt_key ` set ?todo) (reclaim owner now) rows =
      update_where (recoverable owner n incl) (reclaim owner now) rows"
    using key_image_filter [OF assms, of _ "recoverable owner n incl"] by (auto simp: update_where_def)
  then show ?thesis
    unfolding recover_pending_def using recover_rows_eq [OF d] by (simp add: recoverable_def)
qed

lemma claim_inv:
  assumes "receipts_inv rows"
  shows "receipts_inv (snd (claim H owner app msg user sess payload now rows))"
proof (cases "List.find (\<lambda>r. ir_receipt_key r = receipt_key H app msg) rows")
  case None
  then have "receipt_key H app msg \<notin> set (map ir_receipt_key rows)" by (auto simp: find_None_iff)
  with None show ?thesis using assms
    by (simp add: claim_def Let_def receipts_inv_def unique_key_def receipt_ok_def new_receipt_def)
next
  case (Some row)
  then show ?thesis using assms
    by (auto simp: claim_def Let_def receipt_ok_def retake_def intro!: receipts_inv_update)
qed

lemma recover_inv: "receipts_inv rows \<Longrightarrow> receipts_inv (snd (recover_pending owner n incl now rows))"
  by (subst recover_pending_eq)
    (auto simp: receipts_inv_def [of rows] recoverable_def reclaim_def receipt_ok_def intro!: receipts_inv_update)

lemma marks_inv:
  assumes "receipts_inv rows"
  shows "receipts_inv (snd (mark_processing k now rows))" "receipts_inv (snd (mark_processed k sid now rows))"
    "receipts_inv (snd (mark_failed k e now rows))"
  using assms by (auto simp: mark_processing_def mark_processed_def mark_failed_def Let_def receipt_ok_def
      intro!: receipts_inv_update)

lemma prune_inv: "receipts_inv rows \<Longrightarrow> receipts_inv (snd (prune now rows))"
  by (auto simp: prune_def receipts_inv_def unique_key_delete_where) (auto simp: delete_where_def)

section \<open>The receipt table as a machine\<close>

datatype receipt_cmd =
    Claim pystr pystr pystr pystr pystr "(pystr, json) dict" timestamp
  | Recover pystr int bool timestamp
  | Start pystr timestamp
  | Done pystr pystr timestamp
  | Fail pystr pystr timestamp
  | Prune timestamp

fun receipt_step :: "(pystr \<Rightarrow> pystr) \<Rightarrow> receipt_cmd \<Rightarrow> receipt list \<Rightarrow> receipt list" where
  "receipt_step H (Claim owner app msg user sess payload now) rows =
     snd (claim H owner app msg user sess payload now rows)"
| "receipt_step H (Recover owner n incl now) rows = snd (recover_pending owner n incl now rows)"
| "receipt_step H (Start k now) rows = snd (mark_processing k now rows)"
| "receipt_step H (Done k sid now) rows = snd (mark_processed k sid now rows)"
| "receipt_step H (Fail k e now) rows = snd (mark_failed k e now rows)"
| "receipt_step H (Prune now) rows = snd (prune now rows)"

lemma receipt_step_inv: "receipts_inv rows \<Longrightarrow> receipts_inv (receipt_step H c rows)"
  by (cases c) (simp_all add: claim_inv recover_inv marks_inv prune_inv)

text \<open>A processed receipt stays as it is until a pruning later than its retention time.\<close>

definition is_processed :: "pystr \<times> timestamp \<Rightarrow> receipt list \<Rightarrow> bool" where
  "is_processed kt rows \<longleftrightarrow> (\<exists>r\<in>set rows. ir_receipt_key r = fst kt \<and> ir_status r = Processed
     \<and> snd kt \<le> ir_claimed_at r + RECEIPT_RETENTION_SECONDS)"

fun within_retention :: "pystr \<times> timestamp \<Rightarrow> receipt_cmd \<Rightarrow> bool" where
  "within_retention kt (Prune now) = (now \<le> snd kt)"
| "within_retention kt _ = True"

lemma is_processed_update:
  "is_processed kt rows \<Longrightarrow> (\<And>r. P r \<Longrightarrow> ir_status r \<noteq> Processed) \<Longrightarrow> is_processed kt (update_where P f rows)"
  by (auto simp: is_processed_def bex_update_where)

lemma claim_processed:
  assumes inv: "receipts_inv rows" and r: "r \<in> set rows" "ir_receipt_key r = receipt_key H app msg" "ir_status r = Processed"
  shows "\<not> cr_accepted (fst (claim H owner app msg user sess payload now rows))
    \<and> snd (claim H owner app msg user sess payload now rows) = rows"
proof -
  have "List.find (\<lambda>x. ir_receipt_key x = receipt_key H app msg) rows = Some r"
    using find_unique_key [of ir_receipt_key rows r] inv r by (simp add: receipts_inv_def)
  then show ?thesis using r by (simp add: claim_def Let_def retryable_def stale_claim_def)
qed

lemma claim_other_key:
  assumes "r \<in> set rows" "ir_receipt_key r \<noteq> receipt_key H app msg"
  shows "r \<in> set (snd (claim H owner app msg user sess payload now rows))"
  using assms by (auto simp: claim_def Let_def set_update_where split: option.split)

lemma receipt_step_processed:
  assumes inv: "receipts_inv rows" and ok: "within_retention kt c" and p: "is_processed kt rows"
  shows "is_processed kt (receipt_step H c rows)"
proof (cases c)
  case (Claim owner app msg user sess payload now)
  obtain r where r: "r \<in> set rows" "ir_receipt_key r = fst kt" "ir_status r = Processed"
      "snd kt \<le> ir_claimed_at r + RECEIPT_RETENTION_SECONDS" using p by (auto simp: is_processed_def)
  show ?thesis
  proof (cases "fst kt = receipt_key H app msg")
    case True
    then show ?thesis using Claim claim_processed [OF inv r(1)] r p by simp
  next
    case False
    then show ?thesis using Claim claim_other_key [OF r(1)] r by (auto simp: is_processed_def)
  qed
next
  case (Recover owner n incl now)
  moreover have "unique_key ir_receipt_key rows" using inv by (simp add: receipts_inv_def)
  ultimately show ?thesis using p by (auto simp: recover_pending_eq recoverable_def intro!: is_processed_update)
next
  case (Prune now)
  then show ?thesis using p ok by (fastforce simp: is_processed_def prune_def delete_where_def prunable_def)
qed (use p in \<open>auto simp: mark_processing_def mark_processed_def mark_failed_def Let_def intro!: is_processed_update\<close>)

interpretation receipts: final_machine "receipt_step H" receipts_inv is_processed within_retention
  for H by unfold_locales (auto intro: receipt_step_inv receipt_step_processed)

text \<open>A claim taken at time \<open>t\<close> is live while its row is claimed or processed and not older than \<open>t\<close>.\<close>

definition is_live :: "pystr \<times> timestamp \<Rightarrow> receipt list \<Rightarrow> bool" where
  "is_live kt rows \<longleftrightarrow> (\<exists>r\<in>set rows. ir_receipt_key r = fst kt \<and> ir_status r \<noteq> Failed \<and> snd kt \<le> ir_claimed_at r)"

fun keeps_claim :: "pystr \<times> timestamp \<Rightarrow> receipt_cmd \<Rightarrow> bool" where
  "keeps_claim kt (Claim owner app msg user sess payload now) = (snd kt \<le> now)"
| "keeps_claim kt (Recover owner n incl now) = (snd kt \<le> now)"
| "keeps_claim kt (Fail k e now) = (k \<noteq> fst kt)"
| "keeps_claim kt (Prune now) = (now \<le> snd kt + RECEIPT_RETENTION_SECONDS)"
| "keeps_claim kt _ = True"

lemma is_live_update:
  assumes "is_live kt rows" "\<And>r. P r \<Longrightarrow> ir_receipt_key r = fst kt \<Longrightarrow> ir_status r \<noteq> Failed \<Longrightarrow> snd kt \<le> ir_claimed_at r \<Longrightarrow>
      ir_receipt_key (f r) = fst kt \<and> ir_status (f r) \<noteq> Failed \<and> snd kt \<le> ir_claimed_at (f r)"
  shows "is_live kt (update_where P f rows)"
  using assms by (fastforce simp: is_live_def bex_update_where)

lemma receipt_step_live:
  assumes inv: "receipts_inv rows" and ok: "keeps_claim kt c" and l: "is_live kt rows"
  shows "is_live kt (receipt_step H c rows)"
proof (cases c)
  case (Claim owner app msg user sess payload now)
  show ?thesis
  proof (cases "List.find (\<lambda>r. ir_receipt_key r = receipt_key H app msg) rows")
    case None
    then show ?thesis using Claim l by (auto simp: claim_def Let_def is_live_def)
  next
    case (Some row)
    then show ?thesis using Claim l ok by (auto simp: claim_def Let_def retake_def intro!: is_live_update)
  qed
next
  case (Recover owner n incl now)
  moreover have "unique_key ir_receipt_key rows" using inv by (simp add: receipts_inv_def)
  ultimately show ?thesis using l ok by (auto simp: recover_pending_eq reclaim_def intro!: is_live_update)
next
  case (Prune now)
  then show ?thesis using l ok by (fastforce simp: is_live_def prune_def delete_where_def prunable_def)
qed (use l ok in \<open>auto simp: mark_processing_def mark_processed_def mark_failed_def Let_def intro!: is_live_update\<close>)

interpretation live: final_machine "receipt_step H" receipts_inv is_live keeps_claim
  for H by unfold_locales (auto intro: receipt_step_live)

lemma claim_live:
  assumes inv: "receipts_inv rows" and l: "is_live (receipt_key H app msg, t) rows" and now: "now < t + CLAIM_STALE_SECONDS"
  shows "\<not> cr_accepted (fst (claim H owner app msg user sess payload now rows))"
proof -
  obtain r where r: "r \<in> set rows" "ir_receipt_key r = receipt_key H app msg" "ir_status r \<noteq> Failed" "t \<le> ir_claimed_at r"
    using l by (auto simp: is_live_def)
  have "List.find (\<lambda>x. ir_receipt_key x = receipt_key H app msg) rows = Some r"
    using find_unique_key [of ir_receipt_key rows r] inv r by (simp add: receipts_inv_def)
  then show ?thesis using r now by (simp add: claim_def Let_def retryable_def stale_claim_def)
qed

section \<open>Properties\<close>

text \<open>
  C25: A processed message never runs again. After \<open>mark_processed\<close> has succeeded for the receipt
  of a message, no sequence of claims, recoveries, marks and prunings within the retention time
  makes \<open>claim\<close> accept a redelivery of that message, by any owner and at any later time.
\<close>

theorem processed_message_never_runs_again:
  assumes inv: "receipts_inv rows" and r: "r \<in> set rows" "ir_receipt_key r = receipt_key H app msg"
    and marked: "fst (mark_processed (receipt_key H app msg) sid t rows)"
    and cs: "\<forall>c\<in>set cs. within_retention (receipt_key H app msg, ir_claimed_at r + RECEIPT_RETENTION_SECONDS) c"
  shows "\<not> cr_accepted (fst (claim H owner app msg user sess payload now
      (fold (receipt_step H) cs (snd (mark_processed (receipt_key H app msg) sid t rows)))))"
proof -
  let ?k = "receipt_key H app msg" and ?rows = "snd (mark_processed (receipt_key H app msg) sid t rows)"
  have u: "unique_key ir_receipt_key rows" using inv by (simp add: receipts_inv_def)
  obtain r' where r': "r' \<in> set rows" "ir_receipt_key r' = ?k" "ir_status r' = Claimed"
    using marked rowcount_key_eq_1 [OF u, of ?k "\<lambda>r. ir_status r = Claimed"]
    by (auto simp: mark_processed_def Let_def)
  then have "ir_status r = Claimed" using unique_keyD [OF u r(1) r'(1)] r(2) by simp
  then have "is_processed (?k, ir_claimed_at r + RECEIPT_RETENTION_SECONDS) ?rows"
    using r by (auto simp: is_processed_def mark_processed_def Let_def bex_update_where)
  moreover have "receipts_inv ?rows" using marks_inv [OF inv] by blast
  ultimately have p: "is_processed (?k, ir_claimed_at r + RECEIPT_RETENTION_SECONDS) (fold (receipt_step H) cs ?rows)"
    and i: "receipts_inv (fold (receipt_step H) cs ?rows)"
    using receipts.run_final cs receipts.run_inv by blast+
  from p obtain r' where "r' \<in> set (fold (receipt_step H) cs ?rows)" "ir_receipt_key r' = ?k" "ir_status r' = Processed"
    by (auto simp: is_processed_def)
  then show ?thesis using claim_processed [OF i] by blast
qed

lemma new_receipt_inv: "receipts_inv [new_receipt k ow app msg user sess payload now]"
  by (simp add: receipts_inv_def unique_key_def receipt_ok_def new_receipt_def)

theorem processed_message_never_runs_again_witness:
  "\<not> cr_accepted (fst (claim id (lit ''o2'') [] [] [] [] [] 5000
      (fold (receipt_step id) [Recover (lit ''o2'') 3 True 20, Claim (lit ''o2'') [] [] [] [] [] 2000]
        (snd (mark_processed (receipt_key id [] []) [] 10
          [new_receipt (receipt_key id [] []) (lit ''o1'') [] [] [] [] [] 0])))))"
  by (rule processed_message_never_runs_again [OF new_receipt_inv])
    (auto simp: mark_processed_def new_receipt_def rowcount_def)

text \<open>
  A claim is exclusive for fifteen minutes. If a claim of a message was accepted at time
  \<open>t\<close>, then, as long as nobody marks that receipt failed, every further claim of the message
  before \<open>t\<close> plus the staleness bound is a duplicate, whatever claims, recoveries and marks of
  any receipts happened in between.
\<close>

theorem claim_is_exclusive:
  assumes inv: "receipts_inv rows"
    and first: "cr_accepted (fst (claim H owner app msg user sess payload t rows))"
    and cs: "\<forall>c\<in>set cs. keeps_claim (receipt_key H app msg, t) c"
    and now: "now < t + CLAIM_STALE_SECONDS"
  shows "cr_duplicate (fst (claim H owner' app msg user' sess' payload' now
      (fold (receipt_step H) cs (snd (claim H owner app msg user sess payload t rows)))))"
proof -
  let ?k = "receipt_key H app msg" and ?rows = "snd (claim H owner app msg user sess payload t rows)"
  have "is_live (?k, t) ?rows"
  proof (cases "List.find (\<lambda>r. ir_receipt_key r = ?k) rows")
    case None
    then show ?thesis by (simp add: claim_def Let_def is_live_def new_receipt_def)
  next
    case (Some row)
    then show ?thesis using first find_SomeD [OF Some]
      by (auto simp: claim_def Let_def is_live_def bex_update_where retake_def split: if_splits)
  qed
  moreover have "receipts_inv ?rows" by (rule claim_inv [OF inv])
  ultimately have "is_live (?k, t) (fold (receipt_step H) cs ?rows)" "receipts_inv (fold (receipt_step H) cs ?rows)"
    using live.run_final cs receipts.run_inv by blast+
  then have "\<not> cr_accepted (fst (claim H owner' app msg user' sess' payload' now (fold (receipt_step H) cs ?rows)))"
    using claim_live now by blast
  then show ?thesis by (auto simp: claim_def Let_def split: option.splits if_splits)
qed

theorem claim_is_exclusive_witness:
  "cr_duplicate (fst (claim id (lit ''o2'') [] [] [] [] [] 899
      (fold (receipt_step id) [Start (receipt_key id [] []) 3, Recover (lit ''o2'') 3 False 20]
        (snd (claim id (lit ''o1'') [] [] [] [] [] 0 [])))))"
  by (rule claim_is_exclusive) (auto simp: receipts_inv_def claim_def Let_def CLAIM_STALE_SECONDS_def)

text \<open>
  Recovery is exact, bounded and settles. \<open>recover_pending\<close> returns exactly the unfinished
  receipts with a payload, fewer than the allowed attempts and, without \<open>include_owned\<close>, a foreign
  owner, in the order of their claims; no returned attempt number exceeds the bound; and a
  second recovery by the same owner right after it returns nothing.
\<close>

theorem recovery_exact_bounded_settles:
  assumes inv: "receipts_inv rows"
  shows "fst (recover_pending owner n incl now rows) =
      map recovered_of (sort_key ir_claimed_at (filter (recoverable owner n incl) rows))
    \<and> (\<forall>x\<in>set (fst (recover_pending owner n incl now rows)). rc_attempt_count x \<le> max 1 n)
    \<and> fst (recover_pending owner n False now' (snd (recover_pending owner n incl now rows))) = []"
proof -
  have u: "unique_key ir_receipt_key rows" using inv by (simp add: receipts_inv_def)
  have u': "unique_key ir_receipt_key (snd (recover_pending owner n i now rows))" for i
    using recover_inv [OF inv] by (simp add: receipts_inv_def)
  have none: "filter (recoverable owner n False) (snd (recover_pending owner n i now rows)) = []" for i
    by (auto simp: recover_pending_eq [OF u] filter_empty_conv set_update_where recoverable_def split: if_splits)
  have "fst (recover_pending owner n False now' (snd (recover_pending owner n i now rows))) = []" for i
    by (simp add: recover_pending_eq [OF u'] none)
  then show ?thesis
    by (auto simp: recover_pending_eq [OF u] recovered_of_def recoverable_def)
qed

theorem recovery_exact_bounded_settles_witness:
  "fst (recover_pending (lit ''o2'') 3 False 9 (snd (recover_pending (lit ''o2'') 3 False 8
     [new_receipt (lit ''k'') (lit ''o1'') [] [] [] [] [(lit ''a'', JNull)] 0]))) = []"
  using recovery_exact_bounded_settles [OF new_receipt_inv] by blast

end
