(* ===== verification/Gates.thy ===== *)
theory Gates
  imports Prelude
begin

text \<open>
  The two file-backed control gates of the WeCom ingress: \<open>WecomCallbackDrainGate\<close> of
  \<^verbatim>\<open>maintenance_drain.py\<close>, which pauses the callback dispatcher, and \<open>HoldingModeGate\<close> of
  \<^verbatim>\<open>holding_bridge.py\<close>, which stops the bridge from forwarding. Both read a marker file; what
  they can find is a \<open>marker\<close>: no file, a file that cannot be read, decoded or parsed, or a JSON
  value. The \<open>path\<close> entry of the snapshots, a constant of the gate object, is left out.
\<close>

datatype marker = Absent | Unreadable | Parsed json

section \<open>The drain gate\<close>

record drain_view =
  ds_active :: bool
  ds_state :: pystr
  ds_valid :: bool
  ds_requested_at :: json
  ds_reason :: pystr
  ds_error :: "pystr option"

definition DRAIN_STATE :: pystr where "DRAIN_STATE = lit ''draining''"

definition DRAIN_SCHEMA_VERSION :: pystr where
  "DRAIN_SCHEMA_VERSION = lit ''xiaoyou_wecom_callback_drain_v1''"

text \<open>
  \<open>str(payload.get("state") or "").strip().lower() == constant\<close>: only a string value can print
  as one of the two constants.
\<close>

definition state_is :: "(pystr, json) dict \<Rightarrow> pystr \<Rightarrow> bool" where
  "state_is payload expected = (case dget payload (lit ''state'') of
     JStr s \<Rightarrow> lower (strip s) = expected | _ \<Rightarrow> False)"

definition reason_of :: "(json \<Rightarrow> pystr) \<Rightarrow> (pystr, json) dict \<Rightarrow> pystr" where
  "reason_of render payload =
     (let v = dget payload (lit ''reason'') in if truthy v then py_str render v else [])"

fun drain_snapshot :: "(json \<Rightarrow> pystr) \<Rightarrow> marker \<Rightarrow> drain_view" where
  "drain_snapshot render Absent = \<lparr>ds_active = False, ds_state = lit ''open'', ds_valid = True,
     ds_requested_at = JNull, ds_reason = [], ds_error = None\<rparr>"
| "drain_snapshot render Unreadable = \<lparr>ds_active = True, ds_state = DRAIN_STATE, ds_valid = False,
     ds_requested_at = JNull, ds_reason = [], ds_error = Some (lit ''drain_state_unreadable'')\<rparr>"
| "drain_snapshot render (Parsed (JObj payload)) =
     (let valid = (dget payload (lit ''schema_version'') = JStr DRAIN_SCHEMA_VERSION
                   \<and> state_is payload DRAIN_STATE) in
      \<lparr>ds_active = True, ds_state = DRAIN_STATE, ds_valid = valid,
       ds_requested_at = dget payload (lit ''requested_at''), ds_reason = reason_of render payload,
       ds_error = (if valid then None else Some (lit ''drain_state_invalid''))\<rparr>)"
| "drain_snapshot render (Parsed _) = \<lparr>ds_active = True, ds_state = DRAIN_STATE, ds_valid = False,
     ds_requested_at = JNull, ds_reason = [], ds_error = Some (lit ''drain_state_invalid'')\<rparr>"

definition is_draining :: "(json \<Rightarrow> pystr) \<Rightarrow> marker \<Rightarrow> bool" where
  "is_draining render m = ds_active (drain_snapshot render m)"

text \<open>
  \<open>wait_until_open\<close>: \<open>polls i\<close> is the marker found by the \<open>i\<close>-th check. The loop need not end;
  its value is the number of the first check that finds the gate open.
\<close>

partial_function (option) wait_until_open :: "(json \<Rightarrow> pystr) \<Rightarrow> (nat \<Rightarrow> marker) \<Rightarrow> nat \<Rightarrow> nat option" where
  "wait_until_open render polls i =
     (if is_draining render (polls i) then wait_until_open render polls (Suc i) else Some i)"

section \<open>The holding gate\<close>

datatype hold_mode = FORWARD_mode | HOLD_mode

record hold_view =
  hs_mode :: hold_mode
  hs_active :: bool
  hs_valid :: bool
  hs_requested_at :: json
  hs_reason :: pystr
  hs_error :: "pystr option"

definition MODE_SCHEMA_VERSION :: pystr where
  "MODE_SCHEMA_VERSION = lit ''xiaoyou_wecom_holding_mode_v1''"

definition HOLD_STATE :: pystr where "HOLD_STATE = lit ''hold''"

fun hold_snapshot :: "(json \<Rightarrow> pystr) \<Rightarrow> marker \<Rightarrow> hold_view" where
  "hold_snapshot render Absent = \<lparr>hs_mode = FORWARD_mode, hs_active = False, hs_valid = True,
     hs_requested_at = JNull, hs_reason = [], hs_error = None\<rparr>"
| "hold_snapshot render Unreadable = \<lparr>hs_mode = HOLD_mode, hs_active = True, hs_valid = False,
     hs_requested_at = JNull, hs_reason = [], hs_error = Some (lit ''holding_mode_unreadable'')\<rparr>"
| "hold_snapshot render (Parsed v) =
     (let payload = as_dict v;
          valid = ((case v of JObj d \<Rightarrow> True | _ \<Rightarrow> False) \<and> dget payload (lit ''schema_version'') = JStr MODE_SCHEMA_VERSION
                   \<and> state_is payload HOLD_STATE) in
      \<lparr>hs_mode = HOLD_mode, hs_active = True, hs_valid = valid,
       hs_requested_at = dget payload (lit ''requested_at''), hs_reason = reason_of render payload,
       hs_error = (if valid then None else Some (lit ''holding_mode_invalid''))\<rparr>)"

definition is_holding :: "(json \<Rightarrow> pystr) \<Rightarrow> marker \<Rightarrow> bool" where
  "is_holding render m = hs_active (hold_snapshot render m)"

section \<open>The contract the dispatcher and the bridge rely on\<close>

text \<open>
  A fail-closed gate lets traffic through only when the marker file does not exist. A client that
  polls such a gate is released exactly by the first check that finds no file.
\<close>

locale fail_closed_gate =
  fixes closed :: "marker \<Rightarrow> bool"
  assumes open_when_absent: "\<not> closed Absent"
    and closed_when_present: "m \<noteq> Absent \<Longrightarrow> closed m"
begin

lemma closed_iff: "closed m \<longleftrightarrow> m \<noteq> Absent"
  using open_when_absent closed_when_present by auto

lemma first_open_iff: "\<not> closed (polls n) \<and> (\<forall>j<n. closed (polls j)) \<longleftrightarrow>
    polls n = Absent \<and> (\<forall>j<n. polls j \<noteq> Absent)"
  by (simp add: closed_iff)

end

lemma drain_active: "ds_active (drain_snapshot render m) \<longleftrightarrow> m \<noteq> Absent"
  by (cases "(render, m)" rule: drain_snapshot.cases) (simp_all add: Let_def)

interpretation drain_gate: fail_closed_gate "is_draining render" for render
  by unfold_locales (simp_all add: is_draining_def drain_active)

interpretation hold_gate: fail_closed_gate "is_holding render" for render
proof unfold_locales
  show "\<not> is_holding render Absent" by (simp add: is_holding_def)
  show "is_holding render m" if "m \<noteq> Absent" for m
    using that by (cases m) (simp_all add: is_holding_def Let_def)
qed

lemma wait_step:
  "is_draining render (polls i) \<Longrightarrow> wait_until_open render polls i = wait_until_open render polls (Suc i)"
  "\<not> is_draining render (polls i) \<Longrightarrow> wait_until_open render polls i = Some i"
  by (simp_all add: wait_until_open.simps)

lemma wait_returns: "wait_until_open render polls i = Some n \<Longrightarrow>
    i \<le> n \<and> \<not> is_draining render (polls n) \<and> (\<forall>j. i \<le> j \<and> j < n \<longrightarrow> is_draining render (polls j))"
proof (rule wait_until_open.raw_induct [where P = "\<lambda>r p i n. i \<le> n \<and> \<not> is_draining r (p n)
    \<and> (\<forall>j. i \<le> j \<and> j < n \<longrightarrow> is_draining r (p j))"])
  fix w r p i n
  assume IH: "\<And>r p i n. w r p i = Some n \<Longrightarrow> i \<le> n \<and> \<not> is_draining r (p n)
      \<and> (\<forall>j. i \<le> j \<and> j < n \<longrightarrow> is_draining r (p j))"
    and eq: "(if is_draining r (p i) then w r p (Suc i) else Some i) = Some n"
  show "i \<le> n \<and> \<not> is_draining r (p n) \<and> (\<forall>j. i \<le> j \<and> j < n \<longrightarrow> is_draining r (p j))"
  proof (cases "is_draining r (p i)")
    case True
    with eq IH [of r p "Suc i" n] show ?thesis by (auto simp: Suc_le_eq) (metis le_less)
  next
    case False
    with eq have "i = n" "\<not> is_draining r (p n)" by simp_all
    then show ?thesis by auto
  qed
qed

lemma wait_terminates: "\<not> is_draining render (polls (i + d)) \<Longrightarrow> \<exists>n. wait_until_open render polls i = Some n"
proof (induction d arbitrary: i)
  case 0
  then show ?case by (auto simp: wait_step)
next
  case (Suc d)
  then show ?case by (cases "is_draining render (polls i)") (auto simp: wait_step)
qed

section \<open>Properties\<close>

text \<open>
  C36: The dispatcher stays paused until the marker file is gone. \<open>wait_until_open\<close> returns if
  and only if some check finds no file, and it then returns at the first such check; a corrupt,
  unreadable or wrongly versioned file never opens the gate.
\<close>

theorem wait_until_open_iff_marker_removed:
  "wait_until_open render polls 0 = Some n \<longleftrightarrow> polls n = Absent \<and> (\<forall>j<n. polls j \<noteq> Absent)"
proof
  assume "wait_until_open render polls 0 = Some n"
  then show "polls n = Absent \<and> (\<forall>j<n. polls j \<noteq> Absent)"
    using wait_returns [of render polls 0 n] drain_gate.first_open_iff [of render polls n] by auto
next
  assume n: "polls n = Absent \<and> (\<forall>j<n. polls j \<noteq> Absent)"
  then obtain k where k: "wait_until_open render polls 0 = Some k"
    using wait_terminates [of render polls 0 n] by (auto simp: drain_gate.closed_iff)
  then have "polls k = Absent" "\<forall>j<k. polls j \<noteq> Absent"
    using wait_returns [OF k] by (auto simp: drain_gate.closed_iff)
  with n have "k = n" by (meson linorder_neqE_nat)
  with k show "wait_until_open render polls 0 = Some n" by simp
qed

theorem wait_until_open_iff_marker_removed_witness:
  "wait_until_open (\<lambda>_. []) (\<lambda>i. if i = 0 then Unreadable else if i = 1 then Parsed JNull else Absent) 0 = Some 2"
  unfolding wait_until_open_iff_marker_removed by auto

end
