(* ===== verification/HoldingBridge.thy ===== *)
theory HoldingBridge
  imports Gates
begin

text \<open>
  \<^verbatim>\<open>runtime/plugins/platforms/wecom/holding_bridge.py\<close>: the store-and-forward bridge in front of
  the WeCom callback. The table \<open>held_callbacks\<close> is a list of rows. \<open>urllib.parse\<close> is a record of
  three functions (\<open>url_lib\<close>), \<open>HX\<close> is \<open>sha256(...).hexdigest()\<close> on bytes and \<open>H\<close> the same on the
  UTF-8 encoding of a string; what the HTTP client, the clock, the mode file and SQLite do during
  a call is an argument of the call. SQLite errors leave the table unchanged.
\<close>

type_synonym bytes = "8 word list"

section \<open>Transport envelopes\<close>

record url_lib =
  url_path :: "pystr \<Rightarrow> pystr"
  url_query_pairs :: "pystr \<Rightarrow> (pystr \<times> pystr) list"
  url_encode :: "(pystr \<times> pystr) list \<Rightarrow> pystr"

record held_request =
  hr_fingerprint :: pystr
  hr_method :: pystr
  hr_raw_path :: pystr
  hr_headers :: "(pystr, pystr) dict"
  hr_body :: bytes

definition MAX_BODY_BYTES :: nat where "MAX_BODY_BYTES = 65536"

definition ALLOWED_REQUEST_HEADERS :: "pystr list" where
  "ALLOWED_REQUEST_HEADERS = map lit [''content-type'', ''user-agent'', ''x-forwarded-for'',
     ''x-forwarded-proto'', ''x-real-ip'', ''x-request-id'']"

text \<open>Header names are ASCII, so \<open>lower\<close> and \<open>upper\<close> act on the ASCII letters.\<close>

definition filtered_headers :: "(pystr \<times> pystr) list \<Rightarrow> (pystr, pystr) dict" where
  "filtered_headers headers = fold (\<lambda>(key, value) d.
     if lower key \<in> set ALLOWED_REQUEST_HEADERS then AList.update (lower key) value d else d) headers []"

definition upper :: "pystr \<Rightarrow> pystr" where
  "upper s = map (\<lambda>c. if 97 \<le> c \<and> c \<le> 122 then c - 32 else c) s"

definition canonical_query :: "url_lib \<Rightarrow> pystr \<Rightarrow> pystr" where
  "canonical_query u raw_path = url_encode u (sort (url_query_pairs u raw_path))"

definition transport_fingerprint ::
  "url_lib \<Rightarrow> (pystr \<Rightarrow> pystr) \<Rightarrow> (bytes \<Rightarrow> pystr) \<Rightarrow> pystr \<Rightarrow> pystr \<Rightarrow> bytes \<Rightarrow> pystr" where
  "transport_fingerprint u H HX method raw_path body =
     H (upper method @ [10] @ (if url_path u raw_path = [] then lit ''/'' else url_path u raw_path) @ [10]
        @ canonical_query u raw_path @ [10] @ HX body)"

definition make_held_request ::
  "url_lib \<Rightarrow> (pystr \<Rightarrow> pystr) \<Rightarrow> (bytes \<Rightarrow> pystr) \<Rightarrow> pystr \<Rightarrow> pystr \<Rightarrow> (pystr \<times> pystr) list \<Rightarrow> bytes \<Rightarrow> held_request" where
  "make_held_request u H HX method raw_path headers body =
     \<lparr>hr_fingerprint = transport_fingerprint u H HX method raw_path body,
      hr_method = upper (if method = [] then lit ''POST'' else method),
      hr_raw_path = (if raw_path = [] then lit ''/wecom/callback'' else raw_path),
      hr_headers = filtered_headers headers, hr_body = body\<rparr>"

section \<open>The store\<close>

datatype held_state = Pending | Direct | Replaying | Completed

record held_row =
  hb_fingerprint :: pystr
  hb_method :: pystr
  hb_raw_path :: pystr
  hb_headers :: "(pystr, pystr) dict"
  hb_body :: bytes
  hb_state :: held_state
  hb_received_at :: timestamp
  hb_updated_at :: timestamp
  hb_next_attempt_at :: timestamp
  hb_attempt_count :: int
  hb_last_attempt_at :: "timestamp option"
  hb_completed_at :: "timestamp option"
  hb_last_status :: "int option"
  hb_last_error :: pystr

text \<open>What \<open>_initialize\<close> does to the rows of a previous process.\<close>

definition initialize :: "timestamp \<Rightarrow> held_row list \<Rightarrow> held_row list" where
  "initialize now = update_where (\<lambda>r. hb_state r \<in> {Direct, Replaying})
     (\<lambda>r. r\<lparr>hb_state := Pending, hb_next_attempt_at := now\<rparr>)"

definition fp_is :: "pystr \<Rightarrow> held_row \<Rightarrow> bool" where
  "fp_is fp r \<longleftrightarrow> hb_fingerprint r = fp"

definition persist_pending :: "held_request \<Rightarrow> timestamp \<Rightarrow> timestamp \<Rightarrow> held_row list \<Rightarrow> (bool \<times> held_state) \<times> held_row list" where
  "persist_pending request direct_lease_seconds now rows =
     (let lease = max 0 direct_lease_seconds;
          initial_state = (if lease > 0 then Direct else Pending)
      in case List.find (fp_is (hr_fingerprint request)) rows of
        None \<Rightarrow> ((True, initial_state), rows @
          [\<lparr>hb_fingerprint = hr_fingerprint request, hb_method = hr_method request,
            hb_raw_path = hr_raw_path request, hb_headers = hr_headers request, hb_body = hr_body request,
            hb_state = initial_state, hb_received_at = now, hb_updated_at = now,
            hb_next_attempt_at = now + lease, hb_attempt_count = 0, hb_last_attempt_at = None,
            hb_completed_at = None, hb_last_status = None, hb_last_error = []\<rparr>])
      | Some row \<Rightarrow> ((False, hb_state row), rows))"

definition due :: "timestamp \<Rightarrow> held_row \<Rightarrow> bool" where
  "due now r \<longleftrightarrow> hb_state r \<in> {Pending, Direct} \<and> hb_next_attempt_at r \<le> now"

definition request_of :: "held_row \<Rightarrow> held_request" where
  "request_of row = \<lparr>hr_fingerprint = hb_fingerprint row, hr_method = hb_method row,
     hr_raw_path = hb_raw_path row, hr_headers = hb_headers row, hr_body = hb_body row\<rparr>"

definition pending :: "int \<Rightarrow> timestamp \<Rightarrow> held_row list \<Rightarrow> held_request list" where
  "pending limit now rows =
     map request_of (take (nat (max 1 limit)) (sort_key hb_received_at (filter (due now) rows)))"

definition mark_attempt :: "pystr \<Rightarrow> timestamp \<Rightarrow> held_row list \<Rightarrow> int \<times> held_row list" where
  "mark_attempt fp now rows = (case List.find (\<lambda>r. fp_is fp r \<and> due now r) rows of
     None \<Rightarrow> (0, rows)
   | Some row \<Rightarrow> let attempt = hb_attempt_count row + 1 in
       (attempt, update_where (\<lambda>r. fp_is fp r \<and> due now r)
          (\<lambda>r. r\<lparr>hb_state := Replaying, hb_attempt_count := attempt,
             hb_last_attempt_at := Some now, hb_updated_at := now\<rparr>) rows))"

definition release_for_replay :: "pystr \<Rightarrow> timestamp \<Rightarrow> held_row list \<Rightarrow> bool \<times> held_row list" where
  "release_for_replay fp now rows =
     (let P = (\<lambda>r. fp_is fp r \<and> hb_state r = Direct) in
      (rowcount P rows = 1,
       update_where P (\<lambda>r. r\<lparr>hb_state := Pending, hb_next_attempt_at := now, hb_updated_at := now\<rparr>) rows))"

text \<open>\<open>min(30.0, max(1.0, float(2 ** max(0, min(int(attempt), 5) - 1))))\<close>\<close>

definition backoff :: "int \<Rightarrow> timestamp" where
  "backoff attempt = min 30 (max 1 (2 ^ nat (max 0 (min attempt 5 - 1))))"

definition mark_replay_failure :: "pystr \<Rightarrow> int \<Rightarrow> pystr \<Rightarrow> int option \<Rightarrow> timestamp \<Rightarrow> held_row list \<Rightarrow> held_row list" where
  "mark_replay_failure fp attempt err status now =
     update_where (\<lambda>r. fp_is fp r \<and> hb_state r = Replaying)
       (\<lambda>r. r\<lparr>hb_state := Pending, hb_updated_at := now, hb_next_attempt_at := now + backoff attempt,
          hb_last_status := status, hb_last_error := take 500 err\<rparr>)"

definition mark_completed :: "pystr \<Rightarrow> int \<Rightarrow> timestamp \<Rightarrow> held_row list \<Rightarrow> bool \<times> held_row list" where
  "mark_completed fp status now rows =
     (let P = (\<lambda>r. fp_is fp r \<and> hb_state r \<in> {Direct, Replaying}) in
      (rowcount P rows = 1,
       update_where P (\<lambda>r. r\<lparr>hb_state := Completed, hb_raw_path := [], hb_headers := [], hb_body := [],
          hb_updated_at := now, hb_completed_at := Some now, hb_last_status := Some status, hb_last_error := []\<rparr>) rows))"

definition discard_pending :: "pystr \<Rightarrow> held_row list \<Rightarrow> bool \<times> held_row list" where
  "discard_pending fp rows =
     (let P = (\<lambda>r. fp_is fp r \<and> hb_state r \<in> {Direct, Pending}) in (rowcount P rows = 1, delete_where P rows))"

definition counts :: "held_row list \<Rightarrow> nat \<times> nat" where
  "counts rows = (rowcount (\<lambda>r. hb_state r \<noteq> Completed) rows, rowcount (\<lambda>r. hb_state r = Completed) rows)"

definition prune_completed :: "timestamp \<Rightarrow> timestamp \<Rightarrow> held_row list \<Rightarrow> nat \<times> held_row list" where
  "prune_completed retention_seconds now rows =
     (let cutoff = now - max 0 retention_seconds;
          P = (\<lambda>r. hb_state r = Completed \<and> (case hb_completed_at r of None \<Rightarrow> False | Some t \<Rightarrow> t < cutoff))
      in (rowcount P rows, delete_where P rows))"

section \<open>The bridge\<close>

text \<open>
  What one call of \<open>_forward\<close> can do: raise a timeout or another transport error (with the name
  of its class), raise another \<open>httpx.HTTPError\<close> such as a decoding error, raise anything else, or
  answer.
\<close>

datatype http_outcome = Timed_out pystr | Transport_failed pystr | Other_http_error | Other_failure
  | Answered int bytes "(pystr, pystr) dict"

datatype route = FORWARD | HOLD | FALLBACK | DUPLICATE | PERSIST_FAILED | REJECT

record bridge_result =
  br_status :: int
  br_body :: bytes
  br_headers :: "(pystr, pystr) dict"
  br_route :: route

record bridge_cfg =
  forward_timeout_seconds :: timestamp
  replay_interval_seconds :: timestamp
  replay_batch_size :: int

definition ascii_bytes :: "string \<Rightarrow> bytes" where
  "ascii_bytes cs = map (\<lambda>c. of_nat (of_char c)) cs"

definition text_plain :: "(pystr, pystr) dict" where
  "text_plain = [(lit ''content-type'', lit ''text/plain; charset=utf-8'')]"

definition is_success :: "int \<Rightarrow> bool" where
  "is_success status \<longleftrightarrow> 200 \<le> status \<and> status < 300"

definition is_transient_status :: "int \<Rightarrow> bool" where
  "is_transient_status status \<longleftrightarrow> status \<ge> 500 \<or> status \<in> {408, 425, 429}"

definition ack :: "route \<Rightarrow> bridge_result" where
  "ack rt = \<lparr>br_status = 200, br_body = ascii_bytes ''success'', br_headers = text_plain, br_route = rt\<rparr>"

definition plain :: "int \<Rightarrow> string \<Rightarrow> route \<Rightarrow> bridge_result" where
  "plain status body rt = \<lparr>br_status = status, br_body = ascii_bytes body, br_headers = text_plain, br_route = rt\<rparr>"

definition handle_get :: "http_outcome \<Rightarrow> bridge_result option" where
  "handle_get outcome = (case outcome of
     Timed_out _ \<Rightarrow> Some (plain 504 ''upstream timeout'' FORWARD)
   | Transport_failed _ \<Rightarrow> Some (plain 502 ''upstream unavailable'' FORWARD)
   | Other_http_error \<Rightarrow> Some (plain 502 ''upstream unavailable'' FORWARD)
   | Other_failure \<Rightarrow> None
   | Answered st b h \<Rightarrow> Some \<lparr>br_status = st, br_body = b, br_headers = h, br_route = FORWARD\<rparr>)"

text \<open>
  \<open>handle_post\<close> up to the \<open>await\<close> of the forwarded request: either the final answer, or the
  request to forward. The flags say whether the two SQLite calls succeed and whether the gate
  holds; the times are the clock readings of the store calls.
\<close>

record post_env =
  pe_stage_ok :: bool
  pe_stage_time :: timestamp
  pe_holding :: bool
  pe_release_ok :: bool
  pe_release_time :: timestamp

definition direct_lease :: "bridge_cfg \<Rightarrow> timestamp" where
  "direct_lease cfg = max 5 (forward_timeout_seconds cfg * 2 + replay_interval_seconds cfg)"

definition post_begin :: "url_lib \<Rightarrow> (pystr \<Rightarrow> pystr) \<Rightarrow> (bytes \<Rightarrow> pystr) \<Rightarrow> bridge_cfg \<Rightarrow> post_env \<Rightarrow>
    pystr \<Rightarrow> (pystr \<times> pystr) list \<Rightarrow> bytes \<Rightarrow> held_row list \<Rightarrow> (bridge_result + held_request) \<times> held_row list" where
  "post_begin u H HX cfg env raw_path headers body rows =
     (if length body > MAX_BODY_BYTES then (Inl (plain 413 ''payload too large'' REJECT), rows)
      else if \<not> {lit ''msg_signature'', lit ''timestamp'', lit ''nonce''} \<subseteq> set (map fst (url_query_pairs u raw_path))
      then (Inl (plain 400 ''invalid callback transport'' REJECT), rows)
      else let held = make_held_request u H HX (lit ''POST'') raw_path headers body in
      if \<not> pe_stage_ok env then (Inl (plain 503 ''holding persistence unavailable'' PERSIST_FAILED), rows)
      else let ((created, state), rows1) = persist_pending held (direct_lease cfg) (pe_stage_time env) rows in
      if \<not> created then (Inl (ack DUPLICATE), rows1)
      else if pe_holding env then
        (Inl (ack HOLD), if pe_release_ok env
           then snd (release_for_replay (hr_fingerprint held) (pe_release_time env) rows1) else rows1)
      else (Inr held, rows1))"

text \<open>The rest of \<open>handle_post\<close>. \<open>None\<close> is an exception that leaves the handler.\<close>

definition post_end :: "held_request \<Rightarrow> http_outcome \<Rightarrow> bool \<Rightarrow> timestamp \<Rightarrow> held_row list \<Rightarrow>
    bridge_result option \<times> held_row list" where
  "post_end held outcome db_ok now rows =
     (let fp = hr_fingerprint held; release = (if db_ok then snd (release_for_replay fp now rows) else rows) in
      case outcome of
        Timed_out _ \<Rightarrow> (Some (ack FALLBACK), release)
      | Transport_failed _ \<Rightarrow> (Some (ack FALLBACK), release)
      | Other_http_error \<Rightarrow> (None, rows)
      | Other_failure \<Rightarrow> (None, rows)
      | Answered st b h \<Rightarrow>
          let forward = \<lparr>br_status = st, br_body = b, br_headers = h, br_route = FORWARD\<rparr> in
          if is_success st then (Some forward, if db_ok then snd (mark_completed fp st now rows) else rows)
          else if is_transient_status st then (Some (ack FALLBACK), release)
          else (Some forward, if db_ok then snd (discard_pending fp rows) else rows))"

definition handle_post :: "url_lib \<Rightarrow> (pystr \<Rightarrow> pystr) \<Rightarrow> (bytes \<Rightarrow> pystr) \<Rightarrow> bridge_cfg \<Rightarrow> post_env \<Rightarrow>
    http_outcome \<Rightarrow> bool \<Rightarrow> timestamp \<Rightarrow> pystr \<Rightarrow> (pystr \<times> pystr) list \<Rightarrow> bytes \<Rightarrow> held_row list \<Rightarrow>
    bridge_result option \<times> held_row list" where
  "handle_post u H HX cfg env outcome db_ok now raw_path headers body rows =
     (case post_begin u H HX cfg env raw_path headers body rows of
        (Inl res, rows1) \<Rightarrow> (Some res, rows1)
      | (Inr held, rows1) \<Rightarrow> post_end held outcome db_ok now rows1)"

subsection \<open>Replay\<close>

text \<open>
  One iteration of the loop of \<open>replay_once\<close> after a successful \<open>mark_attempt\<close>: the increments of
  \<open>completed\<close> and \<open>failed\<close>, or an exception. \<open>db_ok\<close> says whether the bookkeeping write succeeds.
\<close>

datatype replay_error = Db_error | Http_error_raised

definition replay_end :: "held_request \<Rightarrow> int \<Rightarrow> http_outcome \<Rightarrow> bool \<Rightarrow> timestamp \<Rightarrow> held_row list \<Rightarrow>
    (replay_error + nat \<times> nat) \<times> held_row list" where
  "replay_end held attempt outcome db_ok now rows =
     (let fp = hr_fingerprint held;
          fail = (\<lambda>err status. if db_ok then (Inr (0, 1), mark_replay_failure fp attempt err status now rows)
                                else (Inl Db_error, rows)) in
      case outcome of
        Timed_out name \<Rightarrow> fail name None
      | Transport_failed name \<Rightarrow> fail name None
      | Other_http_error \<Rightarrow> (Inl Http_error_raised, rows)
      | Other_failure \<Rightarrow> (Inl Http_error_raised, rows)
      | Answered st b h \<Rightarrow>
          if is_success st then
            if db_ok then (let (ok, rows') = mark_completed fp st now rows in (Inr (if ok then 1 else 0, 0), rows'))
            else (Inl Db_error, rows)
          else fail (lit ''upstream_status_'' @ decimal st) (Some st))"

record replay_env =
  en_holding :: bool
  en_attempt_ok :: bool
  en_attempt_time :: timestamp
  en_outcome :: http_outcome
  en_end_ok :: bool
  en_end_time :: timestamp

fun replay_items :: "(nat \<Rightarrow> replay_env) \<Rightarrow> nat \<Rightarrow> held_request list \<Rightarrow> nat \<times> nat \<times> nat \<Rightarrow> held_row list \<Rightarrow>
    (replay_error + nat \<times> nat \<times> nat) \<times> held_row list" where
  "replay_items env i [] c rows = (Inr c, rows)"
| "replay_items env i (held # todo) (attempted, completed, failed) rows =
     (let e = env i in
      if en_holding e then (Inr (attempted, completed, failed), rows)
      else if \<not> en_attempt_ok e then (Inl Db_error, rows)
      else let (attempt, rows1) = mark_attempt (hr_fingerprint held) (en_attempt_time e) rows in
      if attempt \<le> 0 then replay_items env (Suc i) todo (attempted, completed, failed) rows1
      else case replay_end held attempt (en_outcome e) (en_end_ok e) (en_end_time e) rows1 of
        (Inl err, rows2) \<Rightarrow> (Inl err, rows2)
      | (Inr (dc, df), rows2) \<Rightarrow> replay_items env (Suc i) todo (attempted + 1, completed + dc, failed + df) rows2)"

definition replay_once :: "bridge_cfg \<Rightarrow> bool \<Rightarrow> bool \<Rightarrow> timestamp \<Rightarrow> (nat \<Rightarrow> replay_env) \<Rightarrow> held_row list \<Rightarrow>
    (replay_error + nat \<times> nat \<times> nat) \<times> held_row list" where
  "replay_once cfg holding select_ok now env rows =
     (if holding then (Inr (0, 0, 0), rows)
      else if \<not> select_ok then (Inl Db_error, rows)
      else replay_items env 0 (pending (replay_batch_size cfg) now rows) (0, 0, 0) rows)"

section \<open>The bridge process as a machine\<close>

text \<open>
  The handlers and the replay loop interleave at their \<open>await\<close>s, so a step is what one of them does
  between two \<open>await\<close>s. The state adds to the table the direct forwards in flight, the rows still
  to be visited by the current \<open>replay_once\<close> and the replayed request in flight with its attempt
  number. \<open>Restart\<close> is a crash followed by \<open>_initialize\<close>.
\<close>

record bridge_sys =
  sys_rows :: "held_row list"
  sys_direct :: "held_request list"
  sys_todo :: "held_request list"
  sys_replay :: "(held_request \<times> int) option"

datatype bridge_cmd =
    Post_begin post_env pystr "(pystr \<times> pystr) list" bytes
  | Post_end held_request http_outcome bool timestamp
  | Replay_select int timestamp
  | Replay_stop
  | Replay_begin timestamp
  | Replay_end held_request http_outcome bool timestamp
  | Prune timestamp timestamp
  | Restart timestamp

record bridge_lib =
  lib_url :: url_lib
  lib_sha_text :: "pystr \<Rightarrow> pystr"
  lib_sha_bytes :: "bytes \<Rightarrow> pystr"
  lib_cfg :: bridge_cfg

fun bridge_step :: "bridge_lib \<Rightarrow> bridge_cmd \<Rightarrow> bridge_sys \<Rightarrow> bridge_sys" where
  "bridge_step L (Post_begin env raw_path headers body) s =
     (case post_begin (lib_url L) (lib_sha_text L) (lib_sha_bytes L) (lib_cfg L) env raw_path headers body (sys_rows s) of
        (Inl _, rows) \<Rightarrow> s\<lparr>sys_rows := rows\<rparr>
      | (Inr held, rows) \<Rightarrow> s\<lparr>sys_rows := rows, sys_direct := held # sys_direct s\<rparr>)"
| "bridge_step L (Post_end held outcome db_ok now) s =
     (if held \<in> set (sys_direct s)
      then s\<lparr>sys_rows := snd (post_end held outcome db_ok now (sys_rows s)),
             sys_direct := remove1 held (sys_direct s)\<rparr>
      else s)"
| "bridge_step L (Replay_select limit now) s =
     (if sys_todo s = [] \<and> sys_replay s = None then s\<lparr>sys_todo := pending limit now (sys_rows s)\<rparr> else s)"
| "bridge_step L Replay_stop s = (if sys_replay s = None then s\<lparr>sys_todo := []\<rparr> else s)"
| "bridge_step L (Replay_begin now) s = (case (sys_replay s, sys_todo s) of
     (None, held # todo) \<Rightarrow>
       (let (attempt, rows) = mark_attempt (hr_fingerprint held) now (sys_rows s) in
        if attempt \<le> 0 then s\<lparr>sys_rows := rows, sys_todo := todo\<rparr>
        else s\<lparr>sys_rows := rows, sys_todo := todo, sys_replay := Some (held, attempt)\<rparr>)
   | _ \<Rightarrow> s)"
| "bridge_step L (Replay_end held outcome db_ok now) s = (case sys_replay s of
     Some (held', attempt) \<Rightarrow> if held' \<noteq> held then s else
       (case replay_end held attempt outcome db_ok now (sys_rows s) of
          (Inl _, rows) \<Rightarrow> s\<lparr>sys_rows := rows, sys_replay := None, sys_todo := []\<rparr>
        | (Inr _, rows) \<Rightarrow> s\<lparr>sys_rows := rows, sys_replay := None\<rparr>)
   | None \<Rightarrow> s)"
| "bridge_step L (Prune retention now) s = s\<lparr>sys_rows := snd (prune_completed retention now (sys_rows s))\<rparr>"
| "bridge_step L (Restart now) s = \<lparr>sys_rows = initialize now (sys_rows s), sys_direct = [], sys_todo = [], sys_replay = None\<rparr>"

definition held_inv :: "held_row list \<Rightarrow> bool" where
  "held_inv rows \<longleftrightarrow> unique_key hb_fingerprint rows
     \<and> (\<forall>r\<in>set rows. (hb_state r = Completed \<longleftrightarrow> hb_completed_at r \<noteq> None) \<and> 0 \<le> hb_attempt_count r)"

definition sys_inv :: "bridge_sys \<Rightarrow> bool" where
  "sys_inv s \<longleftrightarrow> held_inv (sys_rows s)"

lemma held_inv_update:
  assumes "held_inv rows" "\<And>r. P r \<Longrightarrow> hb_fingerprint (f r) = hb_fingerprint r"
    "\<And>r. r \<in> set rows \<Longrightarrow> P r \<Longrightarrow> (hb_state r = Completed \<longleftrightarrow> hb_completed_at r \<noteq> None) \<Longrightarrow> 0 \<le> hb_attempt_count r \<Longrightarrow>
       (hb_state (f r) = Completed \<longleftrightarrow> hb_completed_at (f r) \<noteq> None) \<and> 0 \<le> hb_attempt_count (f r)"
  shows "held_inv (update_where P f rows)"
  using assms by (auto simp: held_inv_def unique_key_update_where ball_update_where)

lemma held_inv_delete: "held_inv rows \<Longrightarrow> held_inv (delete_where P rows)"
  by (auto simp: held_inv_def unique_key_delete_where) (auto simp: delete_where_def)

lemma persist_inv: "held_inv rows \<Longrightarrow> held_inv (snd (persist_pending req lease now rows))"
  by (auto simp: persist_pending_def Let_def held_inv_def unique_key_def fp_is_def find_None_iff split: option.split)

lemma mark_attempt_inv:
  assumes "held_inv rows"
  shows "held_inv (snd (mark_attempt fp now rows))"
proof (cases "List.find (\<lambda>r. fp_is fp r \<and> due now r) rows")
  case None
  then show ?thesis using assms by (simp add: mark_attempt_def)
next
  case (Some row)
  then have "0 \<le> hb_attempt_count row" using assms by (auto simp: held_inv_def dest: find_SomeD)
  with Some show ?thesis using assms
    by (auto simp: mark_attempt_def Let_def due_def intro!: held_inv_update)
qed

lemma store_inv:
  assumes "held_inv rows"
  shows "held_inv (snd (release_for_replay fp now rows))" "held_inv (mark_replay_failure fp a e st now rows)"
    "held_inv (snd (mark_completed fp st' now rows))" "held_inv (snd (discard_pending fp rows))"
    "held_inv (snd (prune_completed ret now rows))" "held_inv (initialize now rows)"
  using assms by (auto simp: release_for_replay_def mark_replay_failure_def mark_completed_def discard_pending_def
      prune_completed_def initialize_def Let_def fp_is_def intro!: held_inv_update held_inv_delete)

lemma post_end_inv: "held_inv rows \<Longrightarrow> held_inv (snd (post_end held outcome ok now rows))"
  by (cases outcome) (auto simp: post_end_def Let_def store_inv)

lemma replay_end_inv: "held_inv rows \<Longrightarrow> held_inv (snd (replay_end held a outcome ok now rows))"
  by (cases outcome) (auto simp: replay_end_def Let_def store_inv case_prod_unfold)

lemma post_begin_inv: "held_inv rows \<Longrightarrow> held_inv (snd (post_begin u H HX cfg env p hs b rows))"
  by (auto simp: post_begin_def Let_def store_inv persist_inv case_prod_unfold)

lemma bridge_step_inv: "sys_inv s \<Longrightarrow> sys_inv (bridge_step L c s)"
proof (cases c)
  case (Post_begin env p hs b)
  moreover assume "sys_inv s"
  ultimately show ?thesis
    using post_begin_inv [of "sys_rows s" "lib_url L" "lib_sha_text L" "lib_sha_bytes L" "lib_cfg L" env p hs b]
    by (auto simp: sys_inv_def split: prod.split sum.split)
next
  case (Replay_begin now)
  moreover assume "sys_inv s"
  ultimately show ?thesis using mark_attempt_inv [of "sys_rows s" _ now]
    by (auto simp: sys_inv_def Let_def split: prod.split option.split list.split) (metis snd_conv)+
next
  case (Replay_end held outcome ok now)
  moreover assume "sys_inv s"
  ultimately show ?thesis using replay_end_inv [of "sys_rows s" held _ outcome ok now]
    by (auto simp: sys_inv_def Let_def split: prod.split option.split sum.split) (metis snd_conv)+
qed (auto simp: sys_inv_def post_end_inv store_inv)

section \<open>No staged callback is lost\<close>

definition holds_request :: "held_request \<Rightarrow> held_row list \<Rightarrow> bool" where
  "holds_request req rows \<longleftrightarrow> (\<exists>r\<in>set rows. request_of r = req \<and> hb_state r \<noteq> Completed)"

text \<open>The answers after which the bridge may give a callback up: a 2xx, and on the direct path an
  explicit rejection.\<close>

fun delivers :: "http_outcome \<Rightarrow> bool" where
  "delivers (Answered st b h) = is_success st"
| "delivers _ = False"

fun settles :: "http_outcome \<Rightarrow> bool" where
  "settles (Answered st b h) = (is_success st \<or> \<not> is_transient_status st)"
| "settles _ = False"

fun unsettled :: "held_request \<Rightarrow> bridge_cmd \<Rightarrow> bool" where
  "unsettled req (Post_end held outcome ok now) = (hr_fingerprint held = hr_fingerprint req \<longrightarrow> \<not> settles outcome)"
| "unsettled req (Replay_end held outcome ok now) = (hr_fingerprint held = hr_fingerprint req \<longrightarrow> \<not> delivers outcome)"
| "unsettled req _ = True"

lemma holds_update:
  assumes "holds_request req rows"
    "\<And>r. P r \<Longrightarrow> request_of r = req \<Longrightarrow> hb_state r \<noteq> Completed \<Longrightarrow> request_of (f r) = req \<and> hb_state (f r) \<noteq> Completed"
  shows "holds_request req (update_where P f rows)"
  using assms by (fastforce simp: holds_request_def bex_update_where)

lemma holds_delete:
  "holds_request req rows \<Longrightarrow> (\<And>r. P r \<Longrightarrow> request_of r = req \<Longrightarrow> hb_state r = Completed) \<Longrightarrow> holds_request req (delete_where P rows)"
  by (fastforce simp: holds_request_def delete_where_def)

lemma holds_keep:
  assumes "holds_request req rows"
  shows "holds_request req (snd (persist_pending r' lease now rows))"
    "holds_request req (snd (release_for_replay fp now rows))"
    "holds_request req (mark_replay_failure fp a e st now rows)"
    "holds_request req (snd (mark_attempt fp now rows))"
    "holds_request req (snd (prune_completed ret now rows))"
    "holds_request req (initialize now rows)"
    "fp \<noteq> hr_fingerprint req \<Longrightarrow> holds_request req (snd (mark_completed fp st' now rows))"
    "fp \<noteq> hr_fingerprint req \<Longrightarrow> holds_request req (snd (discard_pending fp rows))"
proof -
  show "holds_request req (snd (persist_pending r' lease now rows))"
    using assms by (auto simp: persist_pending_def Let_def holds_request_def split: option.split)
qed (use assms in \<open>auto simp: release_for_replay_def mark_replay_failure_def mark_attempt_def prune_completed_def
    initialize_def mark_completed_def discard_pending_def Let_def fp_is_def due_def
    intro!: holds_update holds_delete split: option.split simp: request_of_def\<close>)

lemma post_end_holds:
  assumes "holds_request req rows" "hr_fingerprint held = hr_fingerprint req \<longrightarrow> \<not> settles outcome"
  shows "holds_request req (snd (post_end held outcome ok now rows))"
  using assms by (cases outcome) (auto simp: post_end_def Let_def holds_keep)

lemma replay_end_holds:
  assumes "holds_request req rows" "hr_fingerprint held = hr_fingerprint req \<longrightarrow> \<not> delivers outcome"
  shows "holds_request req (snd (replay_end held a outcome ok now rows))"
  using assms by (cases outcome) (auto simp: replay_end_def Let_def holds_keep case_prod_unfold)

lemma post_begin_holds: "holds_request req rows \<Longrightarrow> holds_request req (snd (post_begin u H HX cfg env p hs b rows))"
  by (auto simp: post_begin_def Let_def holds_keep case_prod_unfold)

lemma bridge_step_holds:
  assumes "unsettled req c" "holds_request req (sys_rows s)"
  shows "holds_request req (sys_rows (bridge_step L c s))"
proof (cases c)
  case (Post_begin env p hs b)
  then show ?thesis
    using assms(2) post_begin_holds [of req "sys_rows s" "lib_url L" "lib_sha_text L" "lib_sha_bytes L" "lib_cfg L" env p hs b]
    by (auto split: prod.split sum.split)
next
  case (Replay_begin now)
  then show ?thesis using assms(2) holds_keep(4) [OF assms(2), of _ now]
    by (auto simp: Let_def split: prod.split option.split list.split) (metis snd_conv)+
next
  case (Replay_end held outcome ok now)
  then show ?thesis using assms replay_end_holds [OF assms(2), of held outcome _ ok now]
    by (auto split: prod.split option.split sum.split) (metis snd_conv)+
qed (use assms in \<open>auto simp: post_end_holds holds_keep\<close>)

interpretation held: final_machine "bridge_step L" sys_inv "\<lambda>req s. holds_request req (sys_rows s)" unsettled
  for L by unfold_locales (auto intro: bridge_step_inv bridge_step_holds)

section \<open>Stranded rows\<close>

definition replaying :: "pystr \<Rightarrow> held_row list \<Rightarrow> bool" where
  "replaying fp rows \<longleftrightarrow> (\<exists>r\<in>set rows. hb_fingerprint r = fp \<and> hb_state r = Replaying)"

lemma replaying_update:
  assumes "replaying fp rows" "\<And>r. P r \<Longrightarrow> hb_fingerprint r = fp \<Longrightarrow> hb_state r \<noteq> Replaying"
  shows "replaying fp (update_where P f rows)"
  using assms by (fastforce simp: replaying_def bex_update_where)

lemma replaying_keep:
  assumes "replaying fp rows"
  shows "replaying fp (snd (persist_pending r' lease now rows))"
    "replaying fp (snd (release_for_replay fp' now rows))"
    "replaying fp (snd (mark_attempt fp' now rows))"
    "replaying fp (snd (prune_completed ret now rows))"
    "replaying fp (snd (discard_pending fp' rows))"
    "fp' \<noteq> fp \<Longrightarrow> replaying fp (mark_replay_failure fp' a e st now rows)"
    "fp' \<noteq> fp \<Longrightarrow> replaying fp (snd (mark_completed fp' st' now rows))"
proof -
  show "replaying fp (snd (persist_pending r' lease now rows))"
    using assms by (auto simp: persist_pending_def Let_def replaying_def split: option.split)
  show "replaying fp (snd (prune_completed ret now rows))" "replaying fp (snd (discard_pending fp' rows))"
    using assms by (auto simp: prune_completed_def discard_pending_def delete_where_def Let_def replaying_def)
qed (use assms in \<open>auto simp: release_for_replay_def mark_replay_failure_def mark_attempt_def
    mark_completed_def Let_def fp_is_def due_def intro!: replaying_update split: option.split\<close>)

definition stranded :: "pystr \<Rightarrow> bridge_sys \<Rightarrow> bool" where
  "stranded fp s \<longleftrightarrow> replaying fp (sys_rows s) \<and> (\<forall>h\<in>set (sys_direct s). hr_fingerprint h \<noteq> fp)
     \<and> (\<forall>h a. sys_replay s = Some (h, a) \<longrightarrow> hr_fingerprint h \<noteq> fp)"

fun no_restart :: "pystr \<Rightarrow> bridge_cmd \<Rightarrow> bool" where
  "no_restart fp (Restart now) = False"
| "no_restart fp _ = True"

lemma post_begin_rows:
  "snd (post_begin u H HX cfg env p hs b rows) \<in>
     {rows, snd (persist_pending (make_held_request u H HX (lit ''POST'') p hs b) (direct_lease cfg) (pe_stage_time env) rows),
      snd (release_for_replay (hr_fingerprint (make_held_request u H HX (lit ''POST'') p hs b)) (pe_release_time env)
        (snd (persist_pending (make_held_request u H HX (lit ''POST'') p hs b) (direct_lease cfg) (pe_stage_time env) rows)))}"
  by (auto simp: post_begin_def Let_def case_prod_unfold)

lemma persist_created:
  "fst (fst (persist_pending req lease now rows)) \<longleftrightarrow> (\<forall>r\<in>set rows. hb_fingerprint r \<noteq> hr_fingerprint req)"
proof (cases "List.find (fp_is (hr_fingerprint req)) rows")
  case None
  then have "\<forall>r\<in>set rows. hb_fingerprint r \<noteq> hr_fingerprint req" by (auto simp: find_None_iff fp_is_def)
  with None show ?thesis by (simp add: persist_pending_def Let_def)
next
  case (Some r)
  then have "\<exists>r\<in>set rows. hb_fingerprint r = hr_fingerprint req" using find_SomeD [OF Some] by (auto simp: fp_is_def)
  with Some show ?thesis by (simp add: persist_pending_def Let_def)
qed

lemma post_begin_Inr:
  assumes "fst (post_begin u H HX cfg env p hs b rows) = Inr held"
  shows "held = make_held_request u H HX (lit ''POST'') p hs b
    \<and> (\<forall>r\<in>set rows. hb_fingerprint r \<noteq> hr_fingerprint held)
    \<and> snd (post_begin u H HX cfg env p hs b rows) =
        snd (persist_pending held (direct_lease cfg) (pe_stage_time env) rows)"
  using assms by (auto simp: post_begin_def Let_def case_prod_unfold persist_created split: if_splits)

lemma post_end_replaying:
  "replaying fp rows \<Longrightarrow> hr_fingerprint held \<noteq> fp \<Longrightarrow> replaying fp (snd (post_end held outcome ok now rows))"
  by (cases outcome) (auto simp: post_end_def Let_def replaying_keep)

lemma replay_end_replaying:
  "replaying fp rows \<Longrightarrow> hr_fingerprint held \<noteq> fp \<Longrightarrow> replaying fp (snd (replay_end held a outcome ok now rows))"
  by (cases outcome) (auto simp: replay_end_def Let_def replaying_keep case_prod_unfold)

lemma post_begin_replaying: "replaying fp rows \<Longrightarrow> replaying fp (snd (post_begin u H HX cfg env p hs b rows))"
  using post_begin_rows [of u H HX cfg env p hs b rows] by (auto simp: replaying_keep)

lemma mark_attempt_replaying:
  assumes "unique_key hb_fingerprint rows" "replaying fp rows"
  shows "fst (mark_attempt fp now rows) = 0"
proof -
  have "\<not> due now r" if "r \<in> set rows" "fp_is fp r" for r
    using assms that unique_keyD [OF assms(1)] by (fastforce simp: replaying_def due_def fp_is_def)
  then have "List.find (\<lambda>r. fp_is fp r \<and> due now r) rows = None" by (auto simp: find_None_iff)
  then show ?thesis by (simp add: mark_attempt_def)
qed

lemma bridge_step_stranded:
  assumes inv: "sys_inv s" and c: "no_restart fp c" and st: "stranded fp s"
  shows "stranded fp (bridge_step L c s)"
proof -
  have rep: "replaying fp (sys_rows s)" and u: "unique_key hb_fingerprint (sys_rows s)"
    using st inv by (auto simp: stranded_def sys_inv_def held_inv_def)
  show ?thesis
  proof (cases c)
    case (Post_begin env p hs b)
    let ?pb = "post_begin (lib_url L) (lib_sha_text L) (lib_sha_bytes L) (lib_cfg L) env p hs b (sys_rows s)"
    have "replaying fp (snd ?pb)" using post_begin_replaying [OF rep] .
    moreover have "hr_fingerprint held \<noteq> fp" if "fst ?pb = Inr held" for held
      using post_begin_Inr [OF that] rep by (auto simp: replaying_def)
    ultimately show ?thesis using st Post_begin
      by (auto simp: stranded_def case_prod_unfold split: sum.split)
  next
    case (Post_end held outcome ok now)
    then show ?thesis using st post_end_replaying [OF rep]
      by (auto simp: stranded_def dest: notin_set_remove1)
  next
    case (Replay_begin now)
    then show ?thesis using st replaying_keep(3) [OF rep] mark_attempt_replaying [OF u rep]
      by (auto simp: stranded_def Let_def case_prod_unfold split: option.split list.split)
  next
    case (Replay_end held outcome ok now)
    then show ?thesis using st replay_end_replaying [OF rep]
      by (auto simp: stranded_def case_prod_unfold split: option.split sum.split)
  qed (use st c in \<open>auto simp: stranded_def replaying_keep\<close>)
qed

interpretation stranded: final_machine "bridge_step L" sys_inv stranded no_restart
  for L by unfold_locales (auto intro: bridge_step_stranded)

section \<open>Properties\<close>

lemma persist_holds:
  assumes "\<forall>r\<in>set rows. hb_fingerprint r \<noteq> hr_fingerprint req"
  shows "holds_request req (snd (persist_pending req lease now rows))"
proof -
  have "List.find (fp_is (hr_fingerprint req)) rows = None"
    using assms by (auto simp: find_None_iff fp_is_def)
  then show ?thesis by (auto simp: persist_pending_def Let_def holds_request_def request_of_def)
qed

lemma post_begin_staged:
  assumes "fst (post_begin u H HX cfg env p hs b rows) \<in> {Inl (ack HOLD), Inr req'}"
  shows "holds_request (make_held_request u H HX (lit ''POST'') p hs b) (snd (post_begin u H HX cfg env p hs b rows))"
  using assms persist_holds [of rows "make_held_request u H HX (lit ''POST'') p hs b"]
  by (auto simp: post_begin_def Let_def case_prod_unfold persist_created holds_keep plain_def ack_def split: if_splits)

definition demo_lib :: bridge_lib where
  "demo_lib = \<lparr>lib_url = \<lparr>url_path = id,
       url_query_pairs = (\<lambda>_. [(lit ''timestamp'', []), (lit ''nonce'', []), (lit ''msg_signature'', [])]),
       url_encode = (\<lambda>_. [])\<rparr>, lib_sha_text = id, lib_sha_bytes = (\<lambda>_. []),
     lib_cfg = \<lparr>forward_timeout_seconds = 5, replay_interval_seconds = 1, replay_batch_size = 50\<rparr>\<rparr>"

definition demo_env :: post_env where
  "demo_env = \<lparr>pe_stage_ok = True, pe_stage_time = 0, pe_holding = False, pe_release_ok = True, pe_release_time = 0\<rparr>"

definition demo_sys :: bridge_sys where
  "demo_sys = \<lparr>sys_rows = [], sys_direct = [], sys_todo = [], sys_replay = None\<rparr>"

abbreviation demo_post :: "bridge_sys \<Rightarrow> bridge_sys" where
  "demo_post \<equiv> bridge_step demo_lib (Post_begin demo_env [] [] [])"

abbreviation demo_req :: held_request where
  "demo_req \<equiv> make_held_request (lib_url demo_lib) (lib_sha_text demo_lib) (lib_sha_bytes demo_lib) (lit ''POST'') [] [] []"

lemma demo_begin:
  "fst (post_begin (lib_url demo_lib) (lib_sha_text demo_lib) (lib_sha_bytes demo_lib) (lib_cfg demo_lib) demo_env [] [] [] []) =
     Inr demo_req"
  by (simp add: post_begin_def Let_def persist_pending_def demo_env_def demo_lib_def case_prod_unfold MAX_BODY_BYTES_def)

lemma demo_sys_inv [simp]: "sys_inv demo_sys" "sys_rows demo_sys = []"
  by (simp_all add: sys_inv_def held_inv_def demo_sys_def)

text \<open>
  C3: A staged callback is never lost. Once \<open>handle_post\<close> has staged a request (it goes on to
  forward it, or acknowledges it under HOLD), then however posts, replays, failures of SQLite or of
  the upstream, prunings and restarts interleave, the table keeps an uncompleted row with the
  whole request, until the upstream answers it with a 2xx or, on the direct path, with an
  explicit rejection.
\<close>

theorem staged_callback_is_never_lost:
  assumes inv: "sys_inv s"
    and staged: "fst (post_begin (lib_url L) (lib_sha_text L) (lib_sha_bytes L) (lib_cfg L) env p hs b (sys_rows s))
      \<in> {Inl (ack HOLD), Inr held}"
    and req: "req = make_held_request (lib_url L) (lib_sha_text L) (lib_sha_bytes L) (lit ''POST'') p hs b"
    and cs: "\<forall>c\<in>set cs. unsettled req c"
  shows "holds_request req (sys_rows (fold (bridge_step L) cs (bridge_step L (Post_begin env p hs b) s)))"
proof -
  have "holds_request req (sys_rows (bridge_step L (Post_begin env p hs b) s))"
    using post_begin_staged [OF staged] by (auto simp: req case_prod_unfold split: sum.split)
  then show ?thesis using held.run_final cs bridge_step_inv [OF inv] by blast
qed

theorem staged_callback_is_never_lost_witness:
  "holds_request demo_req (sys_rows (fold (bridge_step demo_lib)
     [Post_end demo_req (Transport_failed (lit ''ConnectError'')) True 1, Replay_select 50 2, Replay_begin 2,
      Replay_end demo_req (Answered 503 [] []) True 3, Restart 9] (demo_post demo_sys)))"
  by (rule staged_callback_is_never_lost [where held = demo_req]) (simp_all add: demo_begin is_success_def)



text \<open>
  An exception in the replay loop strands a callback. If forwarding a replayed request raises
  anything but a timeout or transport error, or if the write that records its outcome fails, its
  row stays in the state \<open>replaying\<close>, which \<open>pending\<close> does not select, and no later post, replay
  or pruning changes that: only a restart of the process makes the callback deliverable again.
\<close>

theorem replay_exception_strands_callback:
  assumes inv: "sys_inv s" and flight: "sys_replay s = Some (held, attempt)"
    and row: "replaying (hr_fingerprint held) (sys_rows s)"
    and alone: "\<forall>h\<in>set (sys_direct s). hr_fingerprint h \<noteq> hr_fingerprint held"
    and exn: "outcome \<in> {Other_http_error, Other_failure} \<or> \<not> db_ok"
    and cs: "\<forall>c\<in>set cs. no_restart (hr_fingerprint held) c"
    and final: "s' = fold (bridge_step L) cs (bridge_step L (Replay_end held outcome db_ok t) s)"
  shows "replaying (hr_fingerprint held) (sys_rows s') \<and> (\<forall>req\<in>set (pending limit now (sys_rows s')).
    hr_fingerprint req \<noteq> hr_fingerprint held)"
proof -
  let ?fp = "hr_fingerprint held" and ?s1 = "bridge_step L (Replay_end held outcome db_ok t) s"
  have e: "snd (replay_end held attempt outcome db_ok t (sys_rows s)) = sys_rows s"
    using exn by (cases outcome) (auto simp: replay_end_def Let_def)
  have "stranded ?fp ?s1" using flight row alone e
    by (auto simp: stranded_def case_prod_unfold split: sum.split)
  then have st: "stranded ?fp s'" and i: "sys_inv s'"
    using stranded.run_final cs bridge_step_inv [OF inv] held.run_inv final by blast+
  have rep: "replaying ?fp (sys_rows s')" using st by (simp add: stranded_def)
  have u: "unique_key hb_fingerprint (sys_rows s')" using i by (simp add: sys_inv_def held_inv_def)
  obtain r where r: "r \<in> set (sys_rows s')" "hb_fingerprint r = ?fp" "hb_state r = Replaying"
    using rep by (auto simp: replaying_def)
  have "hb_fingerprint r' \<noteq> ?fp" if "r' \<in> set (sys_rows s')" "due now r'" for r'
    using that unique_keyD [OF u r(1), of r'] r by (auto simp: due_def)
  then have "hr_fingerprint req \<noteq> ?fp" if "req \<in> set (pending limit now (sys_rows s'))" for req
    using that by (auto simp: pending_def request_of_def dest!: in_set_takeD)
  then show ?thesis using rep by blast
qed

definition demo_row :: held_row where
  "demo_row = \<lparr>hb_fingerprint = lit ''f'', hb_method = [], hb_raw_path = [], hb_headers = [], hb_body = [],
     hb_state = Replaying, hb_received_at = 0, hb_updated_at = 0, hb_next_attempt_at = 0, hb_attempt_count = 1,
     hb_last_attempt_at = Some 0, hb_completed_at = None, hb_last_status = None, hb_last_error = []\<rparr>"

theorem replay_exception_strands_callback_witness:
  "replaying (lit ''f'') (sys_rows (fold (bridge_step demo_lib) [Replay_select 50 100, Replay_begin 100]
     (bridge_step demo_lib (Replay_end (request_of demo_row) Other_http_error True 1)
       (demo_sys\<lparr>sys_rows := [demo_row], sys_replay := Some (request_of demo_row, 1)\<rparr>))))"
proof -
  have "replaying (hr_fingerprint (request_of demo_row)) (sys_rows (fold (bridge_step demo_lib)
       [Replay_select 50 100, Replay_begin 100]
     (bridge_step demo_lib (Replay_end (request_of demo_row) Other_http_error True 1)
       (demo_sys\<lparr>sys_rows := [demo_row], sys_replay := Some (request_of demo_row, 1)\<rparr>))))"
    by (rule replay_exception_strands_callback [where attempt = 1, THEN conjunct1, OF _ _ _ _ _ _ refl])
      (simp_all add: sys_inv_def held_inv_def unique_key_def replaying_def demo_row_def request_of_def demo_sys_def)
  then show ?thesis by (simp add: request_of_def demo_row_def)
qed

text \<open>
  A restart recovers every open callback. \<open>_initialize\<close> makes each uncompleted row, whether
  pending, owned by a dead request handler or left in a dead replay, selectable without changing
  the stored request, and it leaves completed rows and pending schedules as they are.
\<close>

theorem restart_recovers_open_callbacks:
  assumes "r \<in> set rows" "hb_state r \<noteq> Completed"
  shows "\<exists>r'\<in>set (initialize now rows). request_of r' = request_of r \<and> hb_state r' = Pending
    \<and> due (max now (hb_next_attempt_at r)) r' \<and> (hb_state r \<noteq> Pending \<longrightarrow> due now r')
    \<and> hb_attempt_count r' = hb_attempt_count r
    \<and> {x \<in> set (initialize now rows). hb_state x = Completed} = {x \<in> set rows. hb_state x = Completed}"
proof (cases "hb_state r = Pending")
  case True
  then show ?thesis using assms
    by (intro bexI [of _ r]) (auto simp: initialize_def set_update_where due_def image_iff)
next
  case False
  then have "hb_state r \<in> {Direct, Replaying}" using assms(2) by (cases "hb_state r") auto
  then show ?thesis using assms
    by (intro bexI [of _ "r\<lparr>hb_state := Pending, hb_next_attempt_at := now\<rparr>"])
      (auto simp: initialize_def set_update_where due_def request_of_def image_iff)
qed

theorem restart_recovers_open_callbacks_witness:
  "\<exists>r'\<in>set (initialize 9 [demo_row]). request_of r' = request_of demo_row \<and> due 9 r'"
  using restart_recovers_open_callbacks [of demo_row "[demo_row]" 9] by (auto simp: demo_row_def)

lemma backoff_bounds: "1 \<le> backoff a \<and> backoff a \<le> 16"
proof -
  have "nat (max 0 (min a 5 - 1)) \<le> 4" by simp
  then have "(2::rat) ^ nat (max 0 (min a 5 - 1)) \<le> 2 ^ 4" by (intro power_increasing) auto
  moreover have "1 \<le> (2::rat) ^ nat (max 0 (min a 5 - 1))" by (rule one_le_power) simp
  ultimately show ?thesis by (simp add: backoff_def)
qed



lemma update_where_keeps: "r \<in> set rows \<Longrightarrow> \<not> P r \<Longrightarrow> r \<in> set (update_where P f rows)"
  by (auto simp: set_update_where image_iff)

lemma mark_attempt_direct:
  assumes u: "unique_key hb_fingerprint rows" and r: "r \<in> set rows" "now < hb_next_attempt_at r"
  shows "r \<in> set (snd (mark_attempt fp now rows))"
    "0 < fst (mark_attempt fp now rows) \<Longrightarrow> fp \<noteq> hb_fingerprint r"
proof -
  have nd: "\<not> due now r" using r by (simp add: due_def)
  then show "r \<in> set (snd (mark_attempt fp now rows))"
    using r by (auto simp: mark_attempt_def Let_def intro!: update_where_keeps split: option.split)
  show "fp \<noteq> hb_fingerprint r" if pos: "0 < fst (mark_attempt fp now rows)"
  proof -
    obtain x where "List.find (\<lambda>r. fp_is fp r \<and> due now r) rows = Some x"
      using pos by (cases "List.find (\<lambda>r. fp_is fp r \<and> due now r) rows") (auto simp: mark_attempt_def)
    then have "x \<in> set rows" "hb_fingerprint x = fp" "due now x" by (auto simp: fp_is_def dest: find_SomeD)
    then show ?thesis using unique_keyD [OF u r(1)] nd by metis
  qed
qed

lemma replay_end_other:
  assumes "r \<in> set rows" "hr_fingerprint held \<noteq> hb_fingerprint r"
  shows "r \<in> set (snd (replay_end held a outcome ok now rows))"
proof -
  have "r \<in> set (mark_replay_failure (hr_fingerprint held) a e st now rows)" for e st
    using assms by (auto simp: mark_replay_failure_def fp_is_def intro!: update_where_keeps)
  moreover have "r \<in> set (snd (mark_completed (hr_fingerprint held) st now rows))" for st
    using assms by (auto simp: mark_completed_def Let_def fp_is_def intro!: update_where_keeps)
  ultimately show ?thesis using assms(1)
    by (cases outcome) (auto simp: replay_end_def Let_def case_prod_unfold)
qed

lemma replay_items_lease:
  assumes "held_inv rows" "r \<in> set rows" "\<forall>j. en_attempt_time (env j) < hb_next_attempt_at r"
  shows "r \<in> set (snd (replay_items env i todo c rows))"
  using assms
proof (induction todo arbitrary: i c rows)
  case Nil
  then show ?case by simp
next
  case (Cons held todo)
  let ?ma = "mark_attempt (hr_fingerprint held) (en_attempt_time (env i)) rows"
  let ?re = "replay_end held (fst ?ma) (en_outcome (env i)) (en_end_ok (env i)) (en_end_time (env i)) (snd ?ma)"
  have u: "unique_key hb_fingerprint rows" using Cons.prems(1) by (simp add: held_inv_def)
  have r1: "r \<in> set (snd ?ma)" using mark_attempt_direct(1) [OF u Cons.prems(2)] Cons.prems(3) by blast
  have i1: "held_inv (snd ?ma)" by (rule mark_attempt_inv [OF Cons.prems(1)])
  have "r \<in> set (snd ?re)" if "0 < fst ?ma"
  proof -
    have "hr_fingerprint held \<noteq> hb_fingerprint r"
      using mark_attempt_direct(2) [OF u Cons.prems(2)] Cons.prems(3) that by blast
    then show ?thesis by (rule replay_end_other [OF r1])
  qed
  then show ?case using Cons.IH [OF i1 r1] Cons.IH [OF replay_end_inv [OF i1]] Cons.prems
    by (cases c) (auto simp: Let_def case_prod_unfold not_le split: sum.split)
qed

text \<open>
  The replay loop never touches a request that its handler still owns. During the direct lease
  of a row, a whole run of \<open>replay_once\<close>, whatever the upstream answers and whatever fails, leaves
  that row exactly as it is.
\<close>

theorem direct_lease_excludes_replay:
  assumes "held_inv rows" "r \<in> set rows" "hb_state r = Direct"
    and "\<forall>j. en_attempt_time (env j) < hb_next_attempt_at r"
  shows "r \<in> set (snd (replay_once cfg holding select_ok now env rows))"
  using replay_items_lease [OF assms(1,2,4)] assms(2) by (simp add: replay_once_def)

theorem direct_lease_excludes_replay_witness:
  "demo_row\<lparr>hb_state := Direct, hb_next_attempt_at := 11\<rparr> \<in> set (snd (replay_once (lib_cfg demo_lib) False True 20
     (\<lambda>_. \<lparr>en_holding = False, en_attempt_ok = True, en_attempt_time = 5, en_outcome = Answered 200 [] [],
            en_end_ok = True, en_end_time = 6\<rparr>) [demo_row\<lparr>hb_state := Direct, hb_next_attempt_at := 11\<rparr>]))"
  by (rule direct_lease_excludes_replay) (simp_all add: held_inv_def unique_key_def demo_row_def)

lemma sort_mset_eq: "mset xs = mset ys \<Longrightarrow> sort xs = sort (ys :: (pystr \<times> pystr) list)"
  by (rule properties_for_sort) simp_all

text \<open>
  The transport fingerprint does not depend on the order of the query parameters: two
  requests with the same method up to case, the same path, the same parameters in any order and
  the same body have the same fingerprint, so the second one is answered as a duplicate.
\<close>

theorem fingerprint_ignores_query_order:
  assumes "upper m = upper m'" "url_path u p = url_path u p'"
    and "mset (url_query_pairs u p) = mset (url_query_pairs u p')"
  shows "transport_fingerprint u H HX m p b = transport_fingerprint u H HX m' p' b
    \<and> fst (fst (persist_pending (make_held_request u H HX m' p' hs' b) lease' t'
        (snd (persist_pending (make_held_request u H HX m p hs b) lease t rows)))) = False"
proof -
  have eq: "transport_fingerprint u H HX m p b = transport_fingerprint u H HX m' p' b"
    using assms sort_mset_eq [OF assms(3)] by (simp add: transport_fingerprint_def canonical_query_def)
  let ?req = "make_held_request u H HX m p hs b"
  have "\<exists>r\<in>set (snd (persist_pending ?req lease t rows)). hb_fingerprint r = hr_fingerprint ?req"
    by (auto simp: persist_pending_def Let_def fp_is_def dest!: find_SomeD split: option.split)
  then show ?thesis using eq by (auto simp: persist_created make_held_request_def)
qed

theorem fingerprint_ignores_query_order_witness:
  "transport_fingerprint (lib_url demo_lib) id (\<lambda>_. []) (lit ''POST'') [] [] =
   transport_fingerprint (lib_url demo_lib) id (\<lambda>_. []) (lit ''post'') [] []"
  by (rule fingerprint_ignores_query_order [THEN conjunct1]) (simp_all add: upper_def lit_def)

end
