(* ===== verification/WorkAuthority.thy ===== *)
theory WorkAuthority
  imports Prelude
begin

text \<open>
  The trusted half of \<^verbatim>\<open>runtime/plugins/tuoguan_core/work_runtime.py\<close>: work facts, the bindings that
  an authenticated adapter attests for them, and the partition a fact belongs to. The class
  \<open>TrustedWorkAuthority\<close> keeps a process-local cache and, when it is durable, a table; \<open>H\<close> is
  \<open>sha256(...).hexdigest()\<close>. The JSON text of a binding is the binding it encodes.
\<close>

section \<open>Data\<close>

datatype wr_error = Rejected pystr | Lease_lost pystr | Value_error pystr | Integrity_error | Operational_error

record trusted_principal =
  tp_canonical_actor_id :: pystr
  tp_role :: pystr
  tp_kind :: pystr
  tp_active :: bool

record reply_destination =
  rd_tenant_id :: pystr
  rd_channel :: pystr
  rd_recipient_id :: pystr
  rd_source_identity :: pystr
  rd_device_id :: pystr

definition canonical :: "reply_destination \<Rightarrow> wr_error + pystr" where
  "canonical d = (if \<exists>v\<in>set [rd_tenant_id d, rd_channel d, rd_recipient_id d, rd_source_identity d]. blank v
     then Inl (Rejected (lit ''reply_destination_required_fields_missing''))
     else Inr (us_join [rd_tenant_id d, rd_channel d, rd_recipient_id d, rd_source_identity d, rd_device_id d]))"

record work_fact =
  wf_tenant_id :: pystr
  wf_source_kind :: pystr
  wf_source_event_id :: pystr
  wf_source_version :: pystr
  wf_created_at :: timestamp
  wf_payload_ref :: pystr
  wf_trusted_actor_ref :: pystr
  wf_trace_id :: pystr
  wf_correlation_id :: pystr
  wf_source_attested :: bool

definition work_id :: "(pystr \<Rightarrow> pystr) \<Rightarrow> work_fact \<Rightarrow> pystr" where
  "work_id H f = lit ''work_'' @ take 24 (H (us_join
     [wf_tenant_id f, wf_source_kind f, wf_source_event_id f, wf_source_version f]))"

record trusted_work_binding =
  tb_work_id :: pystr
  tb_tenant_id :: pystr
  tb_source_kind :: pystr
  tb_source_event_id :: pystr
  tb_source_version :: pystr
  tb_payload_ref :: pystr
  tb_trusted_actor_ref :: pystr
  tb_source_identity :: pystr
  tb_principal :: trusted_principal
  tb_authenticated_session_id :: pystr
  tb_continuity_id :: "pystr option"
  tb_destination :: reply_destination
  tb_status :: pystr

record trusted_partition =
  tq_partition_id :: pystr
  tq_tenant_id :: pystr
  tq_canonical_actor_id :: pystr
  tq_principal_kind :: pystr
  tq_trusted_session_id :: pystr
  tq_continuity_id :: "pystr option"
  tq_source_identity :: pystr

record authority =
  au_durable :: bool
  au_bindings :: "(pystr, trusted_work_binding) dict"
  au_table :: "(pystr, trusted_work_binding \<times> timestamp) dict"

section \<open>Operations\<close>

definition stored_binding :: "pystr \<Rightarrow> authority \<Rightarrow> trusted_work_binding option \<times> authority" where
  "stored_binding wid st = (case map_of (au_bindings st) wid of
     Some cached \<Rightarrow> (Some cached, st)
   | None \<Rightarrow> if \<not> au_durable st then (None, st) else
       (case map_of (au_table st) wid of
          None \<Rightarrow> (None, st)
        | Some (binding, _) \<Rightarrow> (Some binding, st\<lparr>au_bindings := AList.update wid binding (au_bindings st)\<rparr>)))"

definition validate_fact :: "work_fact \<Rightarrow> wr_error option" where
  "validate_fact f =
     (if \<not> wf_source_attested f then Some (Rejected (lit ''source_not_attested''))
      else if \<exists>v\<in>set [wf_tenant_id f, wf_source_kind f, wf_source_event_id f, wf_source_version f,
                 wf_payload_ref f, wf_trusted_actor_ref f, wf_trace_id f, wf_correlation_id f]. blank v
      then Some (Rejected (lit ''work_fact_required_fields_missing'')) else None)"

text \<open>The loop over \<open>comparisons\<close>: the first field, in the order of the dictionary, that differs.\<close>

definition comparisons :: "(pystr \<Rightarrow> pystr) \<Rightarrow> work_fact \<Rightarrow> trusted_work_binding \<Rightarrow> (pystr \<times> pystr \<times> pystr) list" where
  "comparisons H f b =
     [(lit ''work_id'', tb_work_id b, work_id H f),
      (lit ''tenant_id'', tb_tenant_id b, wf_tenant_id f),
      (lit ''source_kind'', tb_source_kind b, wf_source_kind f),
      (lit ''source_event_id'', tb_source_event_id b, wf_source_event_id f),
      (lit ''source_version'', tb_source_version b, wf_source_version f),
      (lit ''payload_ref'', tb_payload_ref b, wf_payload_ref f),
      (lit ''trusted_actor_ref'', tb_trusted_actor_ref b, wf_trusted_actor_ref f)]"

definition check_binding :: "(pystr \<Rightarrow> pystr) \<Rightarrow> work_fact \<Rightarrow> trusted_work_binding \<Rightarrow> wr_error option" where
  "check_binding H f b = (case validate_fact f of Some e \<Rightarrow> Some e | None \<Rightarrow>
     if tb_status b \<noteq> lit ''active'' \<or> \<not> tp_active (tb_principal b)
     then Some (Rejected (lit ''source_or_principal_not_active''))
     else case List.find (\<lambda>(field, expected, actual). expected \<noteq> actual) (comparisons H f b) of
       Some (field, _) \<Rightarrow> Some (Rejected (lit ''binding_mismatch:'' @ field))
     | None \<Rightarrow>
         if \<exists>v\<in>set [tb_source_identity b, tb_authenticated_session_id b,
              tp_canonical_actor_id (tb_principal b), tp_role (tb_principal b)]. blank v
         then Some (Rejected (lit ''trusted_binding_required_fields_missing''))
         else if rd_tenant_id (tb_destination b) \<noteq> wf_tenant_id f
           \<or> rd_source_identity (tb_destination b) \<noteq> tb_source_identity b
         then Some (Rejected (lit ''trusted_destination_mismatch'')) else None)"

definition binding_conflict :: wr_error where
  "binding_conflict = Rejected (lit ''work_fact_trusted_binding_conflict'')"

definition attest :: "(pystr \<Rightarrow> pystr) \<Rightarrow> timestamp \<Rightarrow> work_fact \<Rightarrow> trusted_work_binding \<Rightarrow> (authority, wr_error, unit) op" where
  "attest H now f b st = (case check_binding H f b of Some e \<Rightarrow> (Inl e, st) | None \<Rightarrow>
     let wid = work_id H f; (existing, st1) = stored_binding wid st in
     if existing \<noteq> None \<and> existing \<noteq> Some b then (Inl binding_conflict, st1)
     else if existing = None \<and> au_durable st1 then
       (case map_of (au_table st1) wid of
          Some (stored, _) \<Rightarrow>
            if stored \<noteq> b then (Inl binding_conflict, st1)
            else (Inr (), st1\<lparr>au_bindings := AList.update wid b (au_bindings st1)\<rparr>)
        | None \<Rightarrow> (Inr (), st1\<lparr>au_table := au_table st1 @ [(wid, b, now)],
                             au_bindings := AList.update wid b (au_bindings st1)\<rparr>))
     else (Inr (), st1\<lparr>au_bindings := AList.update wid b (au_bindings st1)\<rparr>))"

definition binding_for :: "(pystr \<Rightarrow> pystr) \<Rightarrow> timestamp \<Rightarrow> work_fact \<Rightarrow> (authority, wr_error, trusted_work_binding) op" where
  "binding_for H now f st = (case validate_fact f of Some e \<Rightarrow> (Inl e, st) | None \<Rightarrow>
     (case stored_binding (work_id H f) st of
        (None, st1) \<Rightarrow> (Inl (Rejected (lit ''work_fact_has_no_trusted_binding'')), st1)
      | (Some b, st1) \<Rightarrow> (case attest H now f b st1 of
            (Inl e, st2) \<Rightarrow> (Inl e, st2)
          | (Inr _, st2) \<Rightarrow> (Inr b, st2))))"

definition continuity_of :: "trusted_work_binding \<Rightarrow> pystr" where
  "continuity_of b = strip (case tb_continuity_id b of None \<Rightarrow> [] | Some c \<Rightarrow> c)"

definition crosses_channels :: "trusted_work_binding \<Rightarrow> bool" where
  "crosses_channels b \<longleftrightarrow> continuity_of b \<noteq> [] \<and> tp_kind (tb_principal b) \<noteq> lit ''service''"

definition partition_material :: "trusted_work_binding \<Rightarrow> pystr list" where
  "partition_material b =
     [tb_tenant_id b, tp_canonical_actor_id (tb_principal b),
      if crosses_channels b then lit ''attested-subject'' else tp_kind (tb_principal b),
      if crosses_channels b then lit ''continuity:'' @ continuity_of b else lit ''session:'' @ tb_authenticated_session_id b,
      if crosses_channels b then lit ''attested-cross-channel'' else tb_source_identity b]"

definition partition_of :: "(pystr \<Rightarrow> pystr) \<Rightarrow> trusted_work_binding \<Rightarrow> trusted_partition" where
  "partition_of H b =
      \<lparr>tq_partition_id = lit ''twp_'' @ take 32 (H (us_join (partition_material b))),
       tq_tenant_id = tb_tenant_id b,
       tq_canonical_actor_id = tp_canonical_actor_id (tb_principal b),
       tq_principal_kind = tp_kind (tb_principal b),
       tq_trusted_session_id = tb_authenticated_session_id b,
       tq_continuity_id = (if continuity_of b = [] then None else Some (continuity_of b)),
       tq_source_identity = (if crosses_channels b then lit ''attested-cross-channel'' else tb_source_identity b)\<rparr>"

definition partition_for :: "(pystr \<Rightarrow> pystr) \<Rightarrow> timestamp \<Rightarrow> work_fact \<Rightarrow> (authority, wr_error, trusted_partition) op" where
  "partition_for H now f st = (case binding_for H now f st of
     (Inl e, st') \<Rightarrow> (Inl e, st')
   | (Inr b, st') \<Rightarrow> (Inr (partition_of H b), st'))"

text \<open>A new process on the same database starts with an empty cache.\<close>

definition reopen :: "authority \<Rightarrow> authority" where
  "reopen st = st\<lparr>au_bindings := []\<rparr>"

section \<open>What the authority holds\<close>

text \<open>The binding of a work id: the cache first, then the table.\<close>

definition bound :: "authority \<Rightarrow> pystr \<Rightarrow> trusted_work_binding option" where
  "bound st wid = fst (stored_binding wid st)"

definition authority_inv :: "authority \<Rightarrow> bool" where
  "authority_inv st \<longleftrightarrow> (au_durable st \<longrightarrow>
     (\<forall>wid b. map_of (au_bindings st) wid = Some b \<longrightarrow> (\<exists>t. map_of (au_table st) wid = Some (b, t))))"

lemma bound_eq: "bound st wid = (case map_of (au_bindings st) wid of Some b \<Rightarrow> Some b
    | None \<Rightarrow> if au_durable st then map_option fst (map_of (au_table st) wid) else None)"
  by (simp add: bound_def stored_binding_def split: option.split)

lemma stored_binding_bound [simp]: "bound (snd (stored_binding wid st)) x = bound st x"
  by (auto simp: bound_eq stored_binding_def update_conv' split: option.split)

lemma stored_binding_inv: "authority_inv st \<Longrightarrow> authority_inv (snd (stored_binding wid st))"
  by (auto simp: authority_inv_def stored_binding_def update_conv' split: option.split)

lemma stored_binding_fst: "fst (stored_binding wid st) = bound st wid"
  by (simp add: bound_def)

lemma stored_binding_durable [simp]: "au_durable (snd (stored_binding wid st)) = au_durable st"
  "au_table (snd (stored_binding wid st)) = au_table st"
  by (auto simp: stored_binding_def split: option.split)

lemma bound_in_table:
  assumes "authority_inv st" "au_durable st" "bound st wid = Some b"
  shows "\<exists>t. map_of (au_table st) wid = Some (b, t)"
proof (cases "map_of (au_bindings st) wid")
  case None
  then show ?thesis using assms(2,3) by (auto simp: bound_eq)
next
  case (Some b')
  then have "b' = b" using assms(3) by (simp add: bound_eq)
  then show ?thesis using Some assms(1,2) by (auto simp: authority_inv_def)
qed

lemma bound_cached: "bound (st\<lparr>au_bindings := AList.update w b (au_bindings st)\<rparr>) x =
    (if x = w then Some b else bound st x)"
  by (simp add: bound_eq update_conv' cong: option.case_cong)

lemma bound_inserted: "bound (st\<lparr>au_table := au_table st @ [(w, b, t)], au_bindings := AList.update w b (au_bindings st)\<rparr>) x =
    (if x = w then Some b else bound st x)"
  by (simp add: bound_eq update_conv' map_add_def split: option.split)

lemma inv_inserted:
  assumes "authority_inv st" "au_durable st" "map_of (au_table st) w = None"
  shows "authority_inv (st\<lparr>au_table := au_table st @ [(w, b, t)], au_bindings := AList.update w b (au_bindings st)\<rparr>)"
  unfolding authority_inv_def
proof (intro impI allI)
  fix x c
  assume c: "map_of (au_bindings (st\<lparr>au_table := au_table st @ [(w, b, t)], au_bindings := AList.update w b (au_bindings st)\<rparr>)) x = Some c"
  show "\<exists>t'. map_of (au_table (st\<lparr>au_table := au_table st @ [(w, b, t)], au_bindings := AList.update w b (au_bindings st)\<rparr>)) x = Some (c, t')"
  proof (cases "x = w")
    case True
    then show ?thesis using assms(3) c by (simp add: update_conv' map_add_def)
  next
    case False
    then have "map_of (au_bindings st) x = Some c" using c by (simp add: update_conv')
    then show ?thesis using assms(1,2) by (fastforce simp: authority_inv_def map_add_def)
  qed
qed

text \<open>The three ways \<open>attest\<close> can go.\<close>

lemma attest_cases:
  assumes inv: "authority_inv st"
  obtains (invalid) e where "check_binding H f b = Some e" "attest H now f b st = (Inl e, st)"
  | (conflict) b' where "check_binding H f b = None" "bound st (work_id H f) = Some b'" "b' \<noteq> b"
      "fst (attest H now f b st) = Inl binding_conflict" "\<forall>x. bound (snd (attest H now f b st)) x = bound st x"
      "authority_inv (snd (attest H now f b st))"
  | (accepted) "check_binding H f b = None" "bound st (work_id H f) \<in> {None, Some b}"
      "fst (attest H now f b st) = Inr ()"
      "\<forall>x. bound (snd (attest H now f b st)) x = (if x = work_id H f then Some b else bound st x)"
      "authority_inv (snd (attest H now f b st))"
proof (cases "check_binding H f b")
  case (Some e)
  then show ?thesis using invalid by (simp add: attest_def)
next
  case None
  let ?w = "work_id H f"
  define st1 where "st1 = snd (stored_binding ?w st)"
  have st1: "authority_inv st1" "\<forall>x. bound st1 x = bound st x" "au_durable st1 = au_durable st" "au_table st1 = au_table st"
    by (simp_all add: st1_def stored_binding_inv inv)
  have at: "attest H now f b st = (if bound st ?w \<noteq> None \<and> bound st ?w \<noteq> Some b then (Inl binding_conflict, st1)
     else if bound st ?w = None \<and> au_durable st1 then
       (case map_of (au_table st1) ?w of
          Some (stored, _) \<Rightarrow>
            if stored \<noteq> b then (Inl binding_conflict, st1)
            else (Inr (), st1\<lparr>au_bindings := AList.update ?w b (au_bindings st1)\<rparr>)
        | None \<Rightarrow> (Inr (), st1\<lparr>au_table := au_table st1 @ [(?w, b, now)],
                             au_bindings := AList.update ?w b (au_bindings st1)\<rparr>))
     else (Inr (), st1\<lparr>au_bindings := AList.update ?w b (au_bindings st1)\<rparr>))"
    unfolding attest_def st1_def None option.case Let_def case_prod_unfold stored_binding_fst ..
  consider (c) b' where "bound st ?w = Some b'" "b' \<noteq> b" | (s) "bound st ?w = Some b" | (n) "bound st ?w = None"
    by (cases "bound st ?w") auto
  then show ?thesis
  proof cases
    case c
    then have a: "attest H now f b st = (Inl binding_conflict, st1)"
      unfolding at by simp
    show ?thesis by (rule conflict [OF None c]) (use a st1 in simp_all)
  next
    case s
    then have a: "attest H now f b st = (Inr (), st1\<lparr>au_bindings := AList.update ?w b (au_bindings st1)\<rparr>)"
      unfolding at by simp
    have "authority_inv (snd (attest H now f b st))"
      using bound_in_table [OF st1(1), of ?w b] st1(1,2) s by (auto simp: a authority_inv_def update_conv')
    then show ?thesis by (intro accepted [OF None]) (use a s st1(2) in \<open>simp_all add: bound_cached\<close>)
  next
    case n
    then have t: "au_durable st1 \<Longrightarrow> map_of (au_table st1) ?w = None" using st1(2-4)
      by (auto simp: bound_eq split: option.splits)
    show ?thesis
    proof (cases "au_durable st1")
      case True
      then have a: "attest H now f b st = (Inr (), st1\<lparr>au_table := au_table st1 @ [(?w, b, now)],
          au_bindings := AList.update ?w b (au_bindings st1)\<rparr>)"
        unfolding at n by (simp add: t [OF True])
      have "authority_inv (snd (attest H now f b st))"
        using inv_inserted [OF st1(1) True t [OF True]] by (simp add: a)
      then show ?thesis by (intro accepted [OF None]) (use a n st1(2) in \<open>simp_all add: bound_inserted\<close>)
    next
      case False
      then have a: "attest H now f b st = (Inr (), st1\<lparr>au_bindings := AList.update ?w b (au_bindings st1)\<rparr>)"
        unfolding at n by simp
      then have "authority_inv (snd (attest H now f b st))" using False by (simp add: authority_inv_def)
      then show ?thesis by (intro accepted [OF None]) (use a n st1(2) in \<open>simp_all add: bound_cached\<close>)
    qed
  qed
qed

lemma attest_ok_iff:
  assumes "authority_inv st"
  shows "fst (attest H now f b st) = Inr () \<longleftrightarrow> check_binding H f b = None \<and> bound st (work_id H f) \<in> {None, Some b}"
  by (rule attest_cases [OF assms, of H f b now]) auto

lemma attest_bound:
  assumes "authority_inv st"
  shows "bound (snd (attest H now f b st)) x =
    (if x = work_id H f \<and> fst (attest H now f b st) = Inr () then Some b else bound st x)"
  by (rule attest_cases [OF assms, of H f b now]) auto

lemma attest_inv: "authority_inv st \<Longrightarrow> authority_inv (snd (attest H now f b st))"
  by (rule attest_cases [of st H f b now]) auto

lemma attest_durable [simp]: "au_durable (snd (attest H now f b st)) = au_durable st"
  by (simp add: attest_def Let_def case_prod_unfold split: option.split)

lemma reopen_inv: "authority_inv (reopen st)"
  by (simp add: reopen_def authority_inv_def)

lemma reopen_durable [simp]: "au_durable (reopen st) = au_durable st"
  by (simp add: reopen_def)

lemma reopen_bound:
  assumes "authority_inv st" "au_durable st"
  shows "bound st wid = Some b \<Longrightarrow> bound (reopen st) wid = Some b"
  using bound_in_table [OF assms, of wid b] assms(2) by (auto simp: reopen_def bound_eq)

lemma binding_for_state:
  assumes "authority_inv st"
  shows "authority_inv (snd (binding_for H now f st)) \<and> au_durable (snd (binding_for H now f st)) = au_durable st
    \<and> bound (snd (binding_for H now f st)) x = bound st x"
proof (cases "validate_fact f")
  case (Some e)
  then show ?thesis using assms by (simp add: binding_for_def)
next
  case None
  let ?s = "stored_binding (work_id H f) st"
  have s: "authority_inv (snd ?s)" using assms by (rule stored_binding_inv)
  show ?thesis
  proof (cases "fst ?s")
    case n: None
    then show ?thesis using s None by (simp add: binding_for_def case_prod_unfold)
  next
    case (Some b)
    then have b: "bound (snd ?s) (work_id H f) = Some b" by (simp add: stored_binding_fst)
    have "snd (binding_for H now f st) = snd (attest H now f b (snd ?s))"
      using Some None by (auto simp: binding_for_def case_prod_unfold split: sum.split)
    then show ?thesis using b attest_inv [OF s] attest_bound [OF s, of H now f b x] by auto
  qed
qed

lemma binding_for_bound:
  assumes "authority_inv st" "check_binding H f b = None" "bound st (work_id H f) = Some b"
  shows "fst (binding_for H now f st) = Inr b"
proof -
  let ?s = "stored_binding (work_id H f) st"
  have v: "validate_fact f = None" using assms(2) by (auto simp: check_binding_def split: option.splits)
  have "fst (attest H now f b (snd ?s)) = Inr ()"
    using assms by (simp add: attest_ok_iff stored_binding_inv)
  then show ?thesis using v assms(3)
    by (simp add: binding_for_def case_prod_unfold stored_binding_fst split: sum.split)
qed

text \<open>What the answer of \<open>binding_for\<close> says of the fact it was asked for.\<close>

lemma binding_for_ok:
  assumes "authority_inv st" "fst (binding_for H now f st) = Inr b"
  shows "check_binding H f b = None \<and> bound st (work_id H f) = Some b"
proof -
  let ?s = "stored_binding (work_id H f) st"
  have s: "authority_inv (snd ?s)" using assms(1) by (rule stored_binding_inv)
  have v: "validate_fact f = None" using assms(2) by (auto simp: binding_for_def split: option.splits)
  obtain b' where b': "bound st (work_id H f) = Some b'"
    using assms(2) v by (cases "bound st (work_id H f)") (auto simp: binding_for_def case_prod_unfold stored_binding_fst)
  have "(case attest H now f b' (snd ?s) of (Inl e, st2) \<Rightarrow> Inl e | (Inr _, st2) \<Rightarrow> Inr b') = Inr b"
    using assms(2) v b' by (simp add: binding_for_def case_prod_unfold stored_binding_fst split: sum.splits)
  then have "b' = b \<and> fst (attest H now f b' (snd ?s)) = Inr ()"
    by (auto simp: case_prod_unfold split: sum.splits)
  then show ?thesis using b' s by (auto simp: attest_ok_iff)
qed

lemma check_binding_ok:
  assumes "check_binding H f b = None"
  shows "tb_work_id b = work_id H f \<and> tb_tenant_id b = wf_tenant_id f \<and> tb_status b = lit ''active''
    \<and> tp_active (tb_principal b) \<and> rd_tenant_id (tb_destination b) = wf_tenant_id f"
  using assms by (auto simp: check_binding_def comparisons_def find_None_iff split: option.splits if_splits prod.splits)

section \<open>The authority as a machine\<close>

datatype authority_cmd = Attest work_fact trusted_work_binding timestamp | Binding_for work_fact timestamp
  | Partition_for work_fact timestamp | Reopen

fun authority_step :: "(pystr \<Rightarrow> pystr) \<Rightarrow> authority_cmd \<Rightarrow> authority \<Rightarrow> authority" where
  "authority_step H (Attest f b now) st = snd (attest H now f b st)"
| "authority_step H (Binding_for f now) st = snd (binding_for H now f st)"
| "authority_step H (Partition_for f now) st = snd (partition_for H now f st)"
| "authority_step H Reopen st = reopen st"

definition new_authority :: "bool \<Rightarrow> authority" where
  "new_authority durable = \<lparr>au_durable = durable, au_bindings = [], au_table = []\<rparr>"

lemma snd_partition_for: "snd (partition_for H now f st) = snd (binding_for H now f st)"
  by (auto simp: partition_for_def case_prod_unfold split: sum.split)

lemma authority_step_inv: "authority_inv st \<Longrightarrow> authority_inv (authority_step H c st)"
  by (cases c) (simp_all add: attest_inv binding_for_state snd_partition_for reopen_inv)

lemma authority_step_bound:
  assumes "authority_inv st" "au_durable st" "bound st wid = Some b"
  shows "au_durable (authority_step H c st) \<and> bound (authority_step H c st) wid = Some b"
proof (cases c)
  case (Attest f b' now)
  then show ?thesis using assms by (auto simp: attest_bound attest_ok_iff)
qed (use assms in \<open>auto simp: binding_for_state snd_partition_for reopen_bound\<close>)

interpretation authority: final_machine "authority_step H" authority_inv
    "\<lambda>(wid, b) st. au_durable st \<and> bound st wid = Some b" "\<lambda>_ _. True" for H
  by unfold_locales (auto simp: authority_step_inv dest: authority_step_bound)

lemma new_authority_inv: "authority_inv (fold (authority_step H) cs (new_authority d))"
  by (rule authority.run_inv) (simp add: new_authority_def authority_inv_def)

section \<open>Properties\<close>

text \<open>
  C27: Once a durable authority has accepted a binding for a fact, no sequence of further attestations,
  look-ups and process restarts can rebind it: every later attestation of the same work id with
  another binding is refused, and the fact resolves to the very binding and partition that were attested.
\<close>

theorem attested_binding_is_immutable:
  assumes "attest H now f b (fold (authority_step H) before (new_authority True)) = (Inr (), st1)"
  shows "let st2 = fold (authority_step H) later st1 in
    fst (binding_for H t f st2) = Inr b \<and> fst (partition_for H t f st2) = Inr (partition_of H b)
    \<and> (\<forall>f2 b2 t2. work_id H f2 = work_id H f \<and> b2 \<noteq> b \<longrightarrow> fst (attest H t2 f2 b2 st2) \<noteq> Inr ())"
proof -
  let ?s0 = "fold (authority_step H) before (new_authority True)" and ?s2 = "fold (authority_step H) later st1"
  have i0: "authority_inv ?s0" by (rule new_authority_inv)
  have d0: "au_durable ?s0"
  proof -
    have "au_durable (fold (authority_step H) cs s)" if "au_durable s" "authority_inv s" for cs s
      using that
    proof (induction cs arbitrary: s)
      case (Cons c cs)
      have "au_durable (authority_step H c s)" using Cons.prems
        by (cases c) (simp_all add: binding_for_state snd_partition_for)
      then show ?case using Cons authority_step_inv by simp
    qed simp
    then show ?thesis by (simp add: new_authority_def authority_inv_def)
  qed
  have ok: "check_binding H f b = None" using attest_ok_iff [OF i0, of H now f b] assms by simp
  have i1: "authority_inv st1" "au_durable st1" "bound st1 (work_id H f) = Some b"
    using attest_inv [OF i0, of H now f b] attest_bound [OF i0, of H now f b "work_id H f"]
      attest_durable [of H now f b ?s0] d0 assms by simp_all
  have i2: "authority_inv ?s2" using i1(1) by (rule authority.run_inv)
  have "au_durable ?s2 \<and> bound ?s2 (work_id H f) = Some b"
    using authority.run_final [OF i1(1), where x = "(work_id H f, b)"] i1(2,3) by simp
  then have b2: "bound ?s2 (work_id H f) = Some b" ..
  have r: "fst (binding_for H t f ?s2) = Inr b" by (rule binding_for_bound [OF i2 ok b2])
  moreover have "fst (partition_for H t f ?s2) = Inr (partition_of H b)"
    using r by (simp add: partition_for_def case_prod_unfold)
  moreover have "fst (attest H t2 f2 c ?s2) \<noteq> Inr ()" if "work_id H f2 = work_id H f" "c \<noteq> b" for f2 c t2
    using that b2 by (simp add: attest_ok_iff [OF i2])
  ultimately show ?thesis by (simp add: Let_def)
qed

definition sample_fact :: work_fact where
  "sample_fact = \<lparr>wf_tenant_id = lit ''t1'', wf_source_kind = lit ''chat'', wf_source_event_id = lit ''e1'',
     wf_source_version = lit ''1'', wf_created_at = 5, wf_payload_ref = lit ''ref'', wf_trusted_actor_ref = lit ''boss'',
     wf_trace_id = lit ''tr'', wf_correlation_id = lit ''co'', wf_source_attested = True\<rparr>"

definition sample_binding :: "(pystr \<Rightarrow> pystr) \<Rightarrow> pystr \<Rightarrow> trusted_work_binding" where
  "sample_binding H session = \<lparr>tb_work_id = work_id H sample_fact, tb_tenant_id = lit ''t1'', tb_source_kind = lit ''chat'',
     tb_source_event_id = lit ''e1'', tb_source_version = lit ''1'', tb_payload_ref = lit ''ref'',
     tb_trusted_actor_ref = lit ''boss'', tb_source_identity = lit ''wecom'',
     tb_principal = \<lparr>tp_canonical_actor_id = lit ''a1'', tp_role = lit ''boss'', tp_kind = lit ''human'', tp_active = True\<rparr>,
     tb_authenticated_session_id = session, tb_continuity_id = None,
     tb_destination = \<lparr>rd_tenant_id = lit ''t1'', rd_channel = lit ''robot_poc'', rd_recipient_id = lit ''boss'',
       rd_source_identity = lit ''wecom'', rd_device_id = []\<rparr>, tb_status = lit ''active''\<rparr>"

lemma sample_checked: "check_binding (\<lambda>s. s) sample_fact (sample_binding (\<lambda>s. s) (lit ''s1'')) = None"
proof -
  have "validate_fact sample_fact = None"
    by (simp add: validate_fact_def sample_fact_def blank_lit is_space_def)
  moreover have "List.find (\<lambda>(field, expected, actual). expected \<noteq> actual)
      (comparisons (\<lambda>s. s) sample_fact (sample_binding (\<lambda>s. s) (lit ''s1''))) = None"
    by (simp add: comparisons_def) (simp add: sample_binding_def sample_fact_def)
  ultimately show ?thesis
    by (simp add: check_binding_def) (simp add: sample_binding_def sample_fact_def blank_lit is_space_def)
qed

lemma sample_attested:
  "attest (\<lambda>s. s) 5 sample_fact (sample_binding (\<lambda>s. s) (lit ''s1'')) (new_authority True) =
    (Inr (), \<lparr>au_durable = True,
       au_bindings = [(work_id (\<lambda>s. s) sample_fact, sample_binding (\<lambda>s. s) (lit ''s1''))],
       au_table = [(work_id (\<lambda>s. s) sample_fact, sample_binding (\<lambda>s. s) (lit ''s1''), 5)]\<rparr>)"
  by (simp add: attest_def new_authority_def stored_binding_def Let_def sample_checked)

lemma attested_binding_is_immutable_witness:
  "let H = (\<lambda>s. s); st = snd (attest H 5 sample_fact (sample_binding H (lit ''s1'')) (new_authority True)) in
    fst (attest H 7 sample_fact (sample_binding H (lit ''s2'')) (reopen st)) \<noteq> Inr ()"
proof -
  have ne: "sample_binding (\<lambda>s. s) (lit ''s2'') \<noteq> sample_binding (\<lambda>s. s) (lit ''s1'')"
    by (simp add: sample_binding_def)
  show ?thesis
    using attested_binding_is_immutable [of "\<lambda>s. s" 5 sample_fact "sample_binding (\<lambda>s. s) (lit ''s1'')" "[]"
        _ "[Reopen]" 7] ne
    by (simp add: Let_def sample_attested)
qed

text \<open>
  Two bindings share a partition exactly when tenant and canonical actor agree and, for an attested
  continuity, the continuity agrees (whatever the channel), or otherwise the principal kind, the
  authenticated session and the source identity agree; provided no field holds the separator and the
  truncated digest does not collide on the two materials. A service principal never crosses channels.
\<close>

theorem partition_separates_subjects:
  assumes "\<forall>x\<in>set (partition_material b @ partition_material c). us_free x"
    "take 32 (H (us_join (partition_material b))) = take 32 (H (us_join (partition_material c))) \<Longrightarrow>
     us_join (partition_material b) = us_join (partition_material c)"
  shows "tq_partition_id (partition_of H b) = tq_partition_id (partition_of H c) \<longleftrightarrow>
    tb_tenant_id b = tb_tenant_id c
    \<and> tp_canonical_actor_id (tb_principal b) = tp_canonical_actor_id (tb_principal c)
    \<and> crosses_channels b = crosses_channels c
    \<and> (if crosses_channels b then continuity_of b = continuity_of c
       else tp_kind (tb_principal b) = tp_kind (tb_principal c)
         \<and> tb_authenticated_session_id b = tb_authenticated_session_id c
         \<and> tb_source_identity b = tb_source_identity c)"
proof -
  have "tq_partition_id (partition_of H b) = tq_partition_id (partition_of H c) \<longleftrightarrow>
      partition_material b = partition_material c"
  proof
    assume "tq_partition_id (partition_of H b) = tq_partition_id (partition_of H c)"
    then have "us_join (partition_material b) = us_join (partition_material c)"
      using assms(2) by (simp add: partition_of_def)
    then show "partition_material b = partition_material c"
      using assms(1) by (intro us_join_inj) (auto simp: partition_material_def)
  qed (simp add: partition_of_def)
  also have "\<dots> \<longleftrightarrow> tb_tenant_id b = tb_tenant_id c
      \<and> tp_canonical_actor_id (tb_principal b) = tp_canonical_actor_id (tb_principal c)
      \<and> crosses_channels b = crosses_channels c
      \<and> (if crosses_channels b then continuity_of b = continuity_of c
         else tp_kind (tb_principal b) = tp_kind (tb_principal c)
           \<and> tb_authenticated_session_id b = tb_authenticated_session_id c
           \<and> tb_source_identity b = tb_source_identity c)"
    by (auto simp: partition_material_def lit_def)
  finally show ?thesis .
qed

lemma partition_separates_subjects_witness:
  "let b = sample_binding (\<lambda>s. s) (lit ''s1''); c = sample_binding (\<lambda>s. s) (lit ''s2'');
       H = (\<lambda>s. if s = us_join (partition_material b) then lit ''d1'' else lit ''d2'')
   in tq_partition_id (partition_of H b) \<noteq> tq_partition_id (partition_of H c)"
proof -
  let ?b = "sample_binding (\<lambda>s. s) (lit ''s1'')" and ?c = "sample_binding (\<lambda>s. s) (lit ''s2'')"
  let ?H = "\<lambda>s. if s = us_join (partition_material ?b) then lit ''d1'' else lit ''d2''"
  have "partition_material ?b = [lit ''t1'', lit ''a1'', lit ''human'', lit ''session:s1'', lit ''wecom'']"
    "partition_material ?c = [lit ''t1'', lit ''a1'', lit ''human'', lit ''session:s2'', lit ''wecom'']"
    by (simp_all add: partition_material_def sample_binding_def crosses_channels_def continuity_of_def flip: lit_append)
  then have "\<forall>x\<in>set (partition_material ?b @ partition_material ?c). us_free x" by (simp add: us_free_lit)
  moreover have "take 32 (?H (us_join (partition_material ?b))) = take 32 (?H (us_join (partition_material ?c))) \<Longrightarrow>
     us_join (partition_material ?b) = us_join (partition_material ?c)"
    by (auto simp: lit_def split: if_splits)
  ultimately have "tq_partition_id (partition_of ?H ?b) \<noteq> tq_partition_id (partition_of ?H ?c)"
    using partition_separates_subjects [of ?b ?c ?H]
    by (simp add: sample_binding_def crosses_channels_def continuity_of_def)
  then show ?thesis by (simp only: Let_def not_False_eq_True)
qed

end
