(* ===== verification/WorkInbox.thy ===== *)
theory WorkInbox
  imports WorkAuthority
begin

text \<open>
  \<open>DurableWorkInbox\<close> of \<^verbatim>\<open>runtime/plugins/tuoguan_core/work_runtime.py\<close>: the SQLite tables \<open>work_facts\<close>,
  \<open>work_partitions\<close> and \<open>wake_batches\<close> and every operation on them. A comparison with an SQL NULL
  is false, a NULL column is \<open>None\<close>. The hex digits of the fresh \<open>uuid4\<close> values are an argument.
\<close>

section \<open>Tables\<close>

datatype fact_state = Pending | Leased | Delivered
datatype batch_status = Scheduled | BatchLeased | Completed

record fact_row =
  f_work_id :: pystr
  f_tenant_id :: pystr
  f_partition_id :: pystr
  f_source_kind :: pystr
  f_source_event_id :: pystr
  f_source_version :: pystr
  f_created_at :: timestamp
  f_payload_ref :: pystr
  f_trusted_actor_ref :: pystr
  f_trace_id :: pystr
  f_correlation_id :: pystr
  f_state :: fact_state
  f_lease_owner :: "pystr option"
  f_lease_until :: "timestamp option"
  f_delivered_batch_id :: "pystr option"
  f_delivered_at :: "timestamp option"

record batch_row =
  b_batch_id :: pystr
  b_partition_id :: pystr
  b_tenant_id :: pystr
  b_status :: batch_status
  b_created_at :: timestamp
  b_not_before :: timestamp
  b_lease_owner :: "pystr option"
  b_lease_until :: "timestamp option"
  b_pending_rerun :: bool
  b_completed_at :: "timestamp option"

record partition_row =
  p_partition_id :: pystr
  p_tenant_id :: pystr
  p_partition :: trusted_partition

record inbox =
  ib_facts :: "fact_row list"
  ib_batches :: "batch_row list"
  ib_partitions :: "partition_row list"

record inbox_cfg =
  cfg_debounce :: rat
  cfg_lease :: rat

text \<open>A delivered envelope repeats the eleven columns of each fact that \<open>claim\<close> selected.\<close>

record envelope_fact =
  ef_work_id :: pystr
  ef_tenant_id :: pystr
  ef_partition_id :: pystr
  ef_source_kind :: pystr
  ef_source_event_id :: pystr
  ef_source_version :: pystr
  ef_created_at :: timestamp
  ef_payload_ref :: pystr
  ef_trusted_actor_ref :: pystr
  ef_trace_id :: pystr
  ef_correlation_id :: pystr

record work_envelope =
  we_batch_id :: pystr
  we_partition :: trusted_partition
  we_worker_id :: pystr
  we_lease_until :: timestamp
  we_facts :: "envelope_fact list"

record work_delivery_ack =
  wa_batch_id :: pystr
  wa_delivered_count :: nat
  wa_returned_to_pending_count :: nat
  wa_pending_rerun_batch_id :: "pystr option"

definition sql_lt :: "timestamp option \<Rightarrow> timestamp \<Rightarrow> bool" where
  "sql_lt c now = (case c of None \<Rightarrow> False | Some t \<Rightarrow> t < now)"

definition source_key :: "fact_row \<Rightarrow> pystr \<times> pystr \<times> pystr \<times> pystr" where
  "source_key r = (f_tenant_id r, f_source_kind r, f_source_event_id r, f_source_version r)"

definition active :: "batch_row \<Rightarrow> bool" where
  "active b \<longleftrightarrow> b_status b \<in> {Scheduled, BatchLeased}"

definition active_in :: "pystr \<Rightarrow> inbox \<Rightarrow> bool" where
  "active_in pid ib \<longleftrightarrow> (\<exists>b\<in>set (ib_batches ib). b_partition_id b = pid \<and> active b)"

section \<open>Operations\<close>

definition new_batch :: "inbox_cfg \<Rightarrow> pystr \<Rightarrow> trusted_partition \<Rightarrow> timestamp \<Rightarrow> bool \<Rightarrow> batch_row" where
  "new_batch cfg uuid q now immediate =
     \<lparr>b_batch_id = lit ''wb_'' @ take 24 uuid, b_partition_id = tq_partition_id q, b_tenant_id = tq_tenant_id q,
      b_status = Scheduled, b_created_at = now,
      b_not_before = (if immediate then now else now + cfg_debounce cfg),
      b_lease_owner = None, b_lease_until = None, b_pending_rerun = False, b_completed_at = None\<rparr>"

definition ensure_batch :: "inbox_cfg \<Rightarrow> pystr \<Rightarrow> trusted_partition \<Rightarrow> timestamp \<Rightarrow> bool \<Rightarrow> inbox \<Rightarrow> wr_error + pystr \<times> inbox" where
  "ensure_batch cfg uuid q now immediate ib =
     (case List.find (\<lambda>b. b_partition_id b = tq_partition_id q \<and> active b) (ib_batches ib) of
        Some b \<Rightarrow> Inr (b_batch_id b,
          if b_status b = BatchLeased
          then ib\<lparr>ib_batches := update_where (\<lambda>x. b_batch_id x = b_batch_id b) (\<lambda>x. x\<lparr>b_pending_rerun := True\<rparr>) (ib_batches ib)\<rparr>
          else ib)
      | None \<Rightarrow> (case insert_row b_batch_id (new_batch cfg uuid q now immediate) (ib_batches ib) of
          None \<Rightarrow> Inl Integrity_error
        | Some bs \<Rightarrow> Inr (lit ''wb_'' @ take 24 uuid, ib\<lparr>ib_batches := bs\<rparr>)))"

definition new_fact :: "(pystr \<Rightarrow> pystr) \<Rightarrow> work_fact \<Rightarrow> trusted_partition \<Rightarrow> fact_row" where
  "new_fact H f q =
     \<lparr>f_work_id = work_id H f, f_tenant_id = wf_tenant_id f, f_partition_id = tq_partition_id q,
      f_source_kind = wf_source_kind f, f_source_event_id = wf_source_event_id f,
      f_source_version = wf_source_version f, f_created_at = wf_created_at f, f_payload_ref = wf_payload_ref f,
      f_trusted_actor_ref = wf_trusted_actor_ref f, f_trace_id = wf_trace_id f,
      f_correlation_id = wf_correlation_id f, f_state = Pending, f_lease_owner = None, f_lease_until = None,
      f_delivered_batch_id = None, f_delivered_at = None\<rparr>"

definition insert_or_ignore_partition :: "trusted_partition \<Rightarrow> partition_row list \<Rightarrow> partition_row list" where
  "insert_or_ignore_partition q ps =
     (case insert_row p_partition_id \<lparr>p_partition_id = tq_partition_id q, p_tenant_id = tq_tenant_id q, p_partition = q\<rparr> ps of
        None \<Rightarrow> ps | Some ps' \<Rightarrow> ps')"

definition ingest_body :: "(pystr \<Rightarrow> pystr) \<Rightarrow> inbox_cfg \<Rightarrow> pystr \<Rightarrow> timestamp \<Rightarrow> work_fact \<Rightarrow> trusted_partition \<Rightarrow> inbox
    \<Rightarrow> wr_error + (bool \<times> pystr \<times> trusted_partition) \<times> inbox" where
  "ingest_body H cfg uuid now f q ib =
     (if work_id H f \<in> f_work_id ` set (ib_facts ib) then Inr ((True, work_id H f, q), ib)
      else let ps = insert_or_ignore_partition q (ib_partitions ib); r = new_fact H f q in
        if source_key r \<in> source_key ` set (ib_facts ib) then Inl Integrity_error
        else (case insert_row f_work_id r (ib_facts ib) of
            None \<Rightarrow> Inl Integrity_error
          | Some fs \<Rightarrow> (case ensure_batch cfg uuid q now False (ib\<lparr>ib_partitions := ps, ib_facts := fs\<rparr>) of
              Inl e \<Rightarrow> Inl e
            | Inr (_, ib') \<Rightarrow> Inr ((False, work_id H f, q), ib'))))"

definition ingest :: "(pystr \<Rightarrow> pystr) \<Rightarrow> inbox_cfg \<Rightarrow> pystr \<Rightarrow> timestamp \<Rightarrow> timestamp \<Rightarrow> work_fact
    \<Rightarrow> (authority \<times> inbox, wr_error, bool \<times> pystr \<times> trusted_partition) op" where
  "ingest H cfg uuid clock now f s = (case partition_for H clock f (fst s) of
     (Inl e, au) \<Rightarrow> (Inl e, (au, snd s))
   | (Inr q, au) \<Rightarrow> (case transaction (ingest_body H cfg uuid now f q) (snd s) of (r, ib) \<Rightarrow> (r, (au, ib))))"

text \<open>
  \<open>recover\<close>: the expired leases of facts and batches, then a batch for every partition with a
  pending fact and no active batch. The n-th batch made takes the n-th of the fresh identifiers.
\<close>

definition release_facts :: "timestamp \<Rightarrow> fact_row list \<Rightarrow> fact_row list" where
  "release_facts now = update_where (\<lambda>r. f_state r = Leased \<and> sql_lt (f_lease_until r) now)
     (\<lambda>r. r\<lparr>f_state := Pending, f_lease_owner := None, f_lease_until := None\<rparr>)"

definition release_batches :: "timestamp \<Rightarrow> batch_row list \<Rightarrow> batch_row list" where
  "release_batches now = update_where (\<lambda>b. b_status b = BatchLeased \<and> sql_lt (b_lease_until b) now)
     (\<lambda>b. b\<lparr>b_status := Scheduled, b_lease_owner := None, b_lease_until := None, b_not_before := now\<rparr>)"

definition missing :: "inbox \<Rightarrow> partition_row list" where
  "missing ib = filter (\<lambda>p. (\<exists>r\<in>set (ib_facts ib). f_partition_id r = p_partition_id p \<and> f_state r = Pending)
     \<and> \<not> active_in (p_partition_id p) ib) (ib_partitions ib)"

fun ensure_batches :: "inbox_cfg \<Rightarrow> (nat \<Rightarrow> pystr) \<Rightarrow> nat \<Rightarrow> timestamp \<Rightarrow> partition_row list \<Rightarrow> inbox \<Rightarrow> wr_error + inbox" where
  "ensure_batches cfg uuids n now [] ib = Inr ib"
| "ensure_batches cfg uuids n now (p # ps) ib =
     (case ensure_batch cfg (uuids n) (p_partition p) now True ib of
        Inl e \<Rightarrow> Inl e | Inr (_, ib') \<Rightarrow> ensure_batches cfg uuids (Suc n) now ps ib')"

definition recover_body :: "inbox_cfg \<Rightarrow> (nat \<Rightarrow> pystr) \<Rightarrow> timestamp \<Rightarrow> inbox \<Rightarrow> wr_error + (nat \<times> nat \<times> nat) \<times> inbox" where
  "recover_body cfg uuids now ib =
     (let ib1 = ib\<lparr>ib_facts := release_facts now (ib_facts ib), ib_batches := release_batches now (ib_batches ib)\<rparr> in
      case ensure_batches cfg uuids 0 now (missing ib1) ib1 of
        Inl e \<Rightarrow> Inl e
      | Inr ib2 \<Rightarrow> Inr ((rowcount (\<lambda>r. f_state r = Leased \<and> sql_lt (f_lease_until r) now) (ib_facts ib),
                        rowcount (\<lambda>b. b_status b = BatchLeased \<and> sql_lt (b_lease_until b) now) (ib_batches ib),
                        length (missing ib1)), ib2))"

definition recover_inbox :: "inbox_cfg \<Rightarrow> (nat \<Rightarrow> pystr) \<Rightarrow> timestamp \<Rightarrow> (inbox, wr_error, nat \<times> nat \<times> nat) op" where
  "recover_inbox cfg uuids now = transaction (recover_body cfg uuids now)"

definition envelope_fact_of :: "fact_row \<Rightarrow> envelope_fact" where
  "envelope_fact_of r =
     \<lparr>ef_work_id = f_work_id r, ef_tenant_id = f_tenant_id r, ef_partition_id = f_partition_id r,
      ef_source_kind = f_source_kind r, ef_source_event_id = f_source_event_id r,
      ef_source_version = f_source_version r, ef_created_at = f_created_at r, ef_payload_ref = f_payload_ref r,
      ef_trusted_actor_ref = f_trusted_actor_ref r, ef_trace_id = f_trace_id r, ef_correlation_id = f_correlation_id r\<rparr>"

text \<open>\<open>ORDER BY created_at, batch_id LIMIT 1\<close> and \<open>ORDER BY created_at, work_id LIMIT n\<close>.\<close>

definition ready_batches :: "timestamp \<Rightarrow> inbox \<Rightarrow> batch_row list" where
  "ready_batches now ib = sort_key (\<lambda>b. (b_created_at b, b_batch_id b))
     (filter (\<lambda>b. b_status b = Scheduled \<and> b_not_before b \<le> now) (ib_batches ib))"

definition ready_facts :: "pystr \<Rightarrow> inbox \<Rightarrow> fact_row list" where
  "ready_facts pid ib = sort_key (\<lambda>r. (f_created_at r, f_work_id r))
     (filter (\<lambda>r. f_partition_id r = pid \<and> f_state r = Pending) (ib_facts ib))"

definition claim_batch :: "inbox_cfg \<Rightarrow> pystr \<Rightarrow> timestamp \<Rightarrow> nat \<Rightarrow> (inbox, wr_error, work_envelope option) op" where
  "claim_batch cfg worker now max_facts ib = (case ready_batches now ib of
     [] \<Rightarrow> (Inr None, ib)
   | b # _ \<Rightarrow>
      let until = now + cfg_lease cfg;
          mine = (\<lambda>x. b_batch_id x = b_batch_id b \<and> b_status x = Scheduled);
          batches = update_where mine (\<lambda>x. x\<lparr>b_status := BatchLeased, b_lease_owner := Some worker, b_lease_until := Some until\<rparr>) (ib_batches ib);
          rows = take max_facts (ready_facts (b_partition_id b) ib);
          facts = update_where (\<lambda>r. f_work_id r \<in> f_work_id ` set rows \<and> f_state r = Pending)
            (\<lambda>r. r\<lparr>f_state := Leased, f_lease_owner := Some worker, f_lease_until := Some until\<rparr>) (ib_facts ib);
          ib' = ib\<lparr>ib_batches := batches, ib_facts := facts\<rparr>
      in if rowcount mine (ib_batches ib) \<noteq> 1 then (Inr None, ib)
         else (case List.find (\<lambda>p. p_partition_id p = b_partition_id b) (ib_partitions ib) of
            None \<Rightarrow> (Inl Operational_error, ib')
          | Some p \<Rightarrow> (Inr (Some \<lparr>we_batch_id = b_batch_id b, we_partition = p_partition p, we_worker_id = worker,
                we_lease_until = until, we_facts = map envelope_fact_of rows\<rparr>), ib')))"

definition claim_work :: "inbox_cfg \<Rightarrow> (nat \<Rightarrow> pystr) \<Rightarrow> pystr \<Rightarrow> timestamp \<Rightarrow> int \<Rightarrow> (inbox, wr_error, work_envelope option) op" where
  "claim_work cfg uuids worker now max_facts ib =
     (if blank worker \<or> max_facts < 1 then (Inl (Value_error (lit ''worker_id_and_positive_max_facts_required'')), ib)
      else (case recover_inbox cfg uuids now ib of
          (Inl e, ib1) \<Rightarrow> (Inl e, ib1)
        | (Inr _, ib1) \<Rightarrow> claim_batch cfg worker now (nat max_facts) ib1))"

definition expected :: "work_envelope \<Rightarrow> pystr list" where
  "expected env = remdups (map ef_work_id (we_facts env))"

text \<open>\<open>str(batch["lease_owner"])\<close> of an SQL NULL is the string \<open>None\<close>.\<close>

definition str_owner :: "pystr option \<Rightarrow> pystr" where
  "str_owner c = (case c of None \<Rightarrow> lit ''None'' | Some w \<Rightarrow> w)"

definition settle_facts :: "work_envelope \<Rightarrow> pystr list \<Rightarrow> timestamp \<Rightarrow> fact_row list \<Rightarrow> fact_row list" where
  "settle_facts env delivered now fs =
     update_where (\<lambda>r. f_work_id r \<in> set (expected env) - set delivered \<and> f_lease_owner r = Some (we_worker_id env) \<and> f_state r = Leased)
       (\<lambda>r. r\<lparr>f_state := Pending, f_lease_owner := None, f_lease_until := None\<rparr>)
     (update_where (\<lambda>r. f_work_id r \<in> set delivered \<and> f_lease_owner r = Some (we_worker_id env) \<and> f_state r = Leased)
       (\<lambda>r. r\<lparr>f_state := Delivered, f_lease_owner := None, f_lease_until := None,
              f_delivered_batch_id := Some (we_batch_id env), f_delivered_at := Some now\<rparr>) fs)"

definition complete_batch :: "work_envelope \<Rightarrow> timestamp \<Rightarrow> batch_row list \<Rightarrow> batch_row list" where
  "complete_batch env now = update_where (\<lambda>b. b_batch_id b = we_batch_id env)
     (\<lambda>b. b\<lparr>b_status := Completed, b_completed_at := Some now, b_lease_owner := None, b_lease_until := None\<rparr>)"

definition acknowledge_body :: "inbox_cfg \<Rightarrow> pystr \<Rightarrow> work_envelope \<Rightarrow> pystr list \<Rightarrow> timestamp \<Rightarrow> inbox
    \<Rightarrow> wr_error + work_delivery_ack \<times> inbox" where
  "acknowledge_body cfg uuid env delivered now ib =
     (case List.find (\<lambda>b. b_batch_id b = we_batch_id env) (ib_batches ib) of
        None \<Rightarrow> Inl (Lease_lost (lit ''batch_not_owned''))
      | Some b \<Rightarrow>
        if b_status b \<noteq> BatchLeased \<or> str_owner (b_lease_owner b) \<noteq> we_worker_id env
        then Inl (Lease_lost (lit ''batch_not_owned''))
        else let ib1 = ib\<lparr>ib_facts := settle_facts env delivered now (ib_facts ib),
                          ib_batches := complete_batch env now (ib_batches ib)\<rparr>;
                 ack = (\<lambda>rerun. \<lparr>wa_batch_id = we_batch_id env, wa_delivered_count = length (remdups delivered),
                   wa_returned_to_pending_count = length (filter (\<lambda>w. w \<notin> set delivered) (expected env)),
                   wa_pending_rerun_batch_id = rerun\<rparr>)
             in if rowcount (\<lambda>r. f_partition_id r = tq_partition_id (we_partition env) \<and> f_state r = Pending) (ib_facts ib1) > 0
                then (case ensure_batch cfg uuid (we_partition env) now True ib1 of
                    Inl e \<Rightarrow> Inl e | Inr (rerun, ib2) \<Rightarrow> Inr (ack (Some rerun), ib2))
                else Inr (ack None, ib1))"

definition acknowledge :: "inbox_cfg \<Rightarrow> pystr \<Rightarrow> work_envelope \<Rightarrow> pystr list \<Rightarrow> timestamp \<Rightarrow> (inbox, wr_error, work_delivery_ack) op" where
  "acknowledge cfg uuid env delivered now ib =
     (if \<not> set delivered \<subseteq> set (expected env) then (Inl (Rejected (lit ''ack_contains_fact_not_in_envelope'')), ib)
      else transaction (acknowledge_body cfg uuid env delivered now) ib)"

definition owned_fact :: "work_envelope \<Rightarrow> fact_row \<Rightarrow> bool" where
  "owned_fact env r \<longleftrightarrow> f_work_id r \<in> set (expected env) \<and> f_state r = Leased \<and> f_lease_owner r = Some (we_worker_id env)"

definition renew_lease_body :: "work_envelope \<Rightarrow> timestamp \<Rightarrow> inbox \<Rightarrow> wr_error + work_envelope \<times> inbox" where
  "renew_lease_body env until ib =
     (let mine = (\<lambda>x. b_batch_id x = we_batch_id env \<and> b_status x = BatchLeased \<and> b_lease_owner x = Some (we_worker_id env));
          ib' = ib\<lparr>ib_facts := update_where (owned_fact env) (\<lambda>r. r\<lparr>f_lease_until := Some until\<rparr>) (ib_facts ib),
                   ib_batches := update_where mine (\<lambda>x. x\<lparr>b_lease_until := Some until\<rparr>) (ib_batches ib)\<rparr>
      in case List.find (\<lambda>b. b_batch_id b = we_batch_id env) (ib_batches ib) of
           None \<Rightarrow> Inl (Lease_lost (lit ''batch_not_owned''))
         | Some b \<Rightarrow>
           if b_status b \<noteq> BatchLeased \<or> (case b_lease_owner b of None \<Rightarrow> [] | Some w \<Rightarrow> w) \<noteq> we_worker_id env
              \<or> b_partition_id b \<noteq> tq_partition_id (we_partition env)
           then Inl (Lease_lost (lit ''batch_not_owned''))
           else if expected env \<noteq> [] \<and> rowcount (owned_fact env) (ib_facts ib) \<noteq> length (expected env)
           then Inl (Lease_lost (lit ''work_fact_not_owned''))
           else if rowcount mine (ib_batches ib) \<noteq> 1
           then Inl (Lease_lost (lit ''batch_lease_not_renewed''))
           else Inr (env\<lparr>we_lease_until := until\<rparr>, ib'))"

definition renew_lease :: "inbox_cfg \<Rightarrow> work_envelope \<Rightarrow> timestamp \<Rightarrow> rat option \<Rightarrow> (inbox, wr_error, work_envelope) op" where
  "renew_lease cfg env now lease_seconds ib =
     (let duration = (case lease_seconds of None \<Rightarrow> cfg_lease cfg | Some d \<Rightarrow> d) in
      if duration \<le> 0 then (Inl (Value_error (lit ''work_lease_duration_must_be_positive'')), ib)
      else transaction (renew_lease_body env (now + duration)) ib)"

section \<open>The invariant\<close>

definition fact_ok :: "pystr set \<Rightarrow> fact_row \<Rightarrow> bool" where
  "fact_ok pids r \<longleftrightarrow> f_partition_id r \<in> pids \<and> (f_state r = Leased) = (f_lease_owner r \<noteq> None)
     \<and> (f_state r = Leased) = (f_lease_until r \<noteq> None)"

definition batch_ok :: "pystr set \<Rightarrow> batch_row \<Rightarrow> bool" where
  "batch_ok pids b \<longleftrightarrow> b_partition_id b \<in> pids \<and> (b_status b = BatchLeased) = (b_lease_owner b \<noteq> None)
     \<and> (b_status b = BatchLeased) = (b_lease_until b \<noteq> None)"

definition one_active :: "batch_row list \<Rightarrow> bool" where
  "one_active bs \<longleftrightarrow> (\<forall>b\<in>set bs. \<forall>c\<in>set bs.
     active b \<and> active c \<and> b_partition_id b = b_partition_id c \<longrightarrow> b_batch_id b = b_batch_id c)"

definition facts_inv :: "pystr set \<Rightarrow> fact_row list \<Rightarrow> bool" where
  "facts_inv pids fs \<longleftrightarrow> unique_key f_work_id fs \<and> unique_key source_key fs \<and> (\<forall>r\<in>set fs. fact_ok pids r)"

definition batches_inv :: "pystr set \<Rightarrow> batch_row list \<Rightarrow> bool" where
  "batches_inv pids bs \<longleftrightarrow> unique_key b_batch_id bs \<and> one_active bs \<and> (\<forall>b\<in>set bs. batch_ok pids b)"

definition partitions_inv :: "partition_row list \<Rightarrow> bool" where
  "partitions_inv ps \<longleftrightarrow> unique_key p_partition_id ps
     \<and> (\<forall>p\<in>set ps. tq_partition_id (p_partition p) = p_partition_id p \<and> tq_tenant_id (p_partition p) = p_tenant_id p)"

definition known_partitions :: "inbox \<Rightarrow> pystr set" where
  "known_partitions ib = p_partition_id ` set (ib_partitions ib)"

definition inbox_inv :: "inbox \<Rightarrow> bool" where
  "inbox_inv ib \<longleftrightarrow> facts_inv (known_partitions ib) (ib_facts ib) \<and> batches_inv (known_partitions ib) (ib_batches ib)
     \<and> partitions_inv (ib_partitions ib)"

text \<open>Updates that leave keys and partitions alone, row by row.\<close>

lemma facts_inv_update:
  assumes "facts_inv pids fs"
    "\<And>r. P r \<Longrightarrow> f_work_id (f r) = f_work_id r \<and> source_key (f r) = source_key r"
    "\<And>r. P r \<Longrightarrow> fact_ok pids r \<Longrightarrow> fact_ok pids (f r)"
  shows "facts_inv pids (update_where P f fs)"
  using assms by (simp add: facts_inv_def unique_key_update_where ball_update_where)

lemma one_activeI:
  "(\<And>b c. b \<in> set bs \<Longrightarrow> c \<in> set bs \<Longrightarrow> active b \<Longrightarrow> active c \<Longrightarrow> b_partition_id b = b_partition_id c \<Longrightarrow> b_batch_id b = b_batch_id c)
   \<Longrightarrow> one_active bs"
  unfolding one_active_def by blast

lemma one_activeD:
  "one_active bs \<Longrightarrow> b \<in> set bs \<Longrightarrow> c \<in> set bs \<Longrightarrow> active b \<Longrightarrow> active c \<Longrightarrow> b_partition_id b = b_partition_id c
   \<Longrightarrow> b_batch_id b = b_batch_id c"
  unfolding one_active_def by blast

lemma one_active_update:
  assumes one: "one_active bs"
    and f: "\<And>b. P b \<Longrightarrow> b_batch_id (f b) = b_batch_id b \<and> b_partition_id (f b) = b_partition_id b \<and> (active (f b) \<longrightarrow> active b)"
  shows "one_active (update_where P f bs)"
proof -
  define g where "g = (\<lambda>b. if P b then f b else b)"
  have g: "b_batch_id (g b) = b_batch_id b" "b_partition_id (g b) = b_partition_id b" "active (g b) \<Longrightarrow> active b" for b
    using f [of b] by (auto simp: g_def split: if_splits)
  have s: "set (update_where P f bs) = g ` set bs" by (simp add: set_update_where g_def)
  show ?thesis
  proof (rule one_activeI)
    fix b c assume "b \<in> set (update_where P f bs)" "c \<in> set (update_where P f bs)" "active b" "active c"
      "b_partition_id b = b_partition_id c"
    moreover from this(1,2) s obtain b0 c0 where "b0 \<in> set bs" "b = g b0" "c0 \<in> set bs" "c = g c0" by auto
    ultimately show "b_batch_id b = b_batch_id c" using one_activeD [OF one, of b0 c0] g by simp
  qed
qed

lemma batches_inv_update:
  assumes "batches_inv pids bs"
    "\<And>b. P b \<Longrightarrow> b_batch_id (f b) = b_batch_id b \<and> b_partition_id (f b) = b_partition_id b \<and> (active (f b) \<longrightarrow> active b)"
    "\<And>b. P b \<Longrightarrow> batch_ok pids b \<Longrightarrow> batch_ok pids (f b)"
  shows "batches_inv pids (update_where P f bs)"
  using assms by (simp add: batches_inv_def unique_key_update_where ball_update_where one_active_update)

lemma fact_ok_mono: "fact_ok pids r \<Longrightarrow> pids \<subseteq> pids' \<Longrightarrow> fact_ok pids' r"
  by (auto simp: fact_ok_def)

lemma batch_ok_mono: "batch_ok pids r \<Longrightarrow> pids \<subseteq> pids' \<Longrightarrow> batch_ok pids' r"
  by (auto simp: batch_ok_def)

text \<open>The two ways \<open>ensure_batch\<close> succeeds.\<close>

definition flag_rerun :: "pystr \<Rightarrow> batch_row list \<Rightarrow> batch_row list" where
  "flag_rerun bid = update_where (\<lambda>x. b_batch_id x = bid) (\<lambda>x. x\<lparr>b_pending_rerun := True\<rparr>)"

lemma ensure_batch_cases:
  assumes "ensure_batch cfg uuid q now immediate ib = Inr (bid, ib')"
  obtains (present) b where "b \<in> set (ib_batches ib)" "active b" "b_partition_id b = tq_partition_id q" "bid = b_batch_id b"
      "ib' = ib \<or> ib' = ib\<lparr>ib_batches := flag_rerun bid (ib_batches ib)\<rparr>"
  | (fresh) "\<not> active_in (tq_partition_id q) ib" "bid = lit ''wb_'' @ take 24 uuid" "bid \<notin> b_batch_id ` set (ib_batches ib)"
      "ib' = ib\<lparr>ib_batches := ib_batches ib @ [new_batch cfg uuid q now immediate]\<rparr>"
proof (cases "List.find (\<lambda>b. b_partition_id b = tq_partition_id q \<and> active b) (ib_batches ib)")
  case None
  let ?n = "new_batch cfg uuid q now immediate"
  have "\<not> active_in (tq_partition_id q) ib" using None by (auto simp: find_None_iff active_in_def)
  moreover have "(case insert_row b_batch_id ?n (ib_batches ib) of None \<Rightarrow> Inl Integrity_error
      | Some bs \<Rightarrow> Inr (lit ''wb_'' @ take 24 uuid, ib\<lparr>ib_batches := bs\<rparr>)) = Inr (bid, ib')"
    using assms by (simp add: ensure_batch_def None)
  moreover have "b_batch_id ?n = lit ''wb_'' @ take 24 uuid" by (simp add: new_batch_def)
  ultimately show ?thesis by (intro fresh) (simp_all add: insert_row_def split: if_splits)
next
  case (Some b)
  have b: "b \<in> set (ib_batches ib)" "b_partition_id b = tq_partition_id q" "active b"
    using find_SomeD [OF Some] by simp_all
  have "bid = b_batch_id b" "ib' = ib \<or> ib' = ib\<lparr>ib_batches := flag_rerun bid (ib_batches ib)\<rparr>"
    using assms Some by (auto simp: ensure_batch_def flag_rerun_def split: if_splits)
  then show ?thesis using b by (intro present [of b])
qed

lemma flag_rerun_inv: "batches_inv pids bs \<Longrightarrow> batches_inv pids (flag_rerun bid bs)"
  unfolding flag_rerun_def by (rule batches_inv_update) (auto simp: active_def batch_ok_def)

lemma ensure_batch_rest:
  assumes "ensure_batch cfg uuid q now immediate ib = Inr (bid, ib')"
  shows "ib_facts ib' = ib_facts ib \<and> ib_partitions ib' = ib_partitions ib"
  using assms by (cases rule: ensure_batch_cases) auto

lemma ensure_batch_inv:
  assumes "ensure_batch cfg uuid q now immediate ib = Inr (bid, ib')"
    "batches_inv pids (ib_batches ib)" "tq_partition_id q \<in> pids"
  shows "batches_inv pids (ib_batches ib')"
  using assms(1)
proof (cases rule: ensure_batch_cases)
  case (present b)
  then show ?thesis using assms(2) flag_rerun_inv by auto
next
  case fresh
  let ?n = "new_batch cfg uuid q now immediate"
  have n: "b_batch_id ?n = bid" "b_partition_id ?n = tq_partition_id q" "batch_ok pids ?n"
    using assms(3) fresh(2) by (simp_all add: new_batch_def batch_ok_def)
  have bs: "unique_key b_batch_id (ib_batches ib)" "one_active (ib_batches ib)" "\<forall>b\<in>set (ib_batches ib). batch_ok pids b"
    using assms(2) by (simp_all add: batches_inv_def)
  have none: "\<forall>b\<in>set (ib_batches ib). active b \<longrightarrow> b_partition_id b \<noteq> tq_partition_id q"
    using fresh(1) by (auto simp: active_in_def)
  have "one_active (ib_batches ib @ [?n])"
    by (rule one_activeI) (use bs(2) none n(2) in \<open>auto dest: one_activeD\<close>)
  moreover have "unique_key b_batch_id (ib_batches ib @ [?n])"
    using bs(1) fresh(3) n(1) by (simp add: unique_key_def)
  ultimately show ?thesis using bs(3) n(3) fresh(4) by (simp add: batches_inv_def)
qed

lemma ensure_batch_active:
  assumes "ensure_batch cfg uuid q now immediate ib = Inr (bid, ib')"
  shows "active_in pid ib' \<longleftrightarrow> active_in pid ib \<or> pid = tq_partition_id q"
  using assms
proof (cases rule: ensure_batch_cases)
  case (present b)
  have "active_in pid (ib\<lparr>ib_batches := flag_rerun bid (ib_batches ib)\<rparr>) = active_in pid ib"
    by (simp add: active_in_def flag_rerun_def bex_update_where active_def)
  moreover have "active_in (tq_partition_id q) ib" using present(1-3) by (auto simp: active_in_def)
  ultimately show ?thesis using present(5) by auto
next
  case fresh
  then show ?thesis by (auto simp: active_in_def active_def new_batch_def)
qed

section \<open>Every operation keeps the invariant\<close>

lemma ingest_body_cases:
  assumes "ingest_body H cfg uuid now f q ib = Inr ((dup, wid, q'), ib')"
  obtains (duplicate) "dup" "wid = work_id H f" "q' = q" "ib' = ib" "work_id H f \<in> f_work_id ` set (ib_facts ib)"
  | (fresh) bid where "\<not> dup" "wid = work_id H f" "q' = q" "work_id H f \<notin> f_work_id ` set (ib_facts ib)"
      "source_key (new_fact H f q) \<notin> source_key ` set (ib_facts ib)"
      "ensure_batch cfg uuid q now False (ib\<lparr>ib_partitions := insert_or_ignore_partition q (ib_partitions ib),
         ib_facts := ib_facts ib @ [new_fact H f q]\<rparr>) = Inr (bid, ib')"
proof (cases "work_id H f \<in> f_work_id ` set (ib_facts ib)")
  case True
  then show ?thesis using assms by (intro duplicate) (simp_all add: ingest_body_def)
next
  case False
  have w: "f_work_id (new_fact H f q) = work_id H f" by (simp add: new_fact_def)
  have k: "source_key (new_fact H f q) \<notin> source_key ` set (ib_facts ib)"
    using assms False by (auto simp: ingest_body_def Let_def split: if_splits)
  let ?e = "ensure_batch cfg uuid q now False (ib\<lparr>ib_partitions := insert_or_ignore_partition q (ib_partitions ib),
         ib_facts := ib_facts ib @ [new_fact H f q]\<rparr>)"
  have "(case ?e of Inl e \<Rightarrow> Inl e | Inr (_, x) \<Rightarrow> Inr ((False, work_id H f, q), x)) = Inr ((dup, wid, q'), ib')"
    using assms False k by (simp add: ingest_body_def Let_def insert_row_def w)
  then obtain bid where "?e = Inr (bid, ib')" "\<not> dup" "wid = work_id H f" "q' = q"
    by (auto split: sum.splits)
  then show ?thesis using fresh False k by blast
qed

lemma insert_or_ignore_partition_keys:
  "p_partition_id ` set (insert_or_ignore_partition q ps) = insert (tq_partition_id q) (p_partition_id ` set ps)"
  by (auto simp: insert_or_ignore_partition_def insert_row_def)

lemma insert_or_ignore_partition_inv:
  "partitions_inv ps \<Longrightarrow> partitions_inv (insert_or_ignore_partition q ps)"
  by (auto simp: insert_or_ignore_partition_def insert_row_def partitions_inv_def unique_key_def)

lemma ingest_body_inv:
  assumes "ingest_body H cfg uuid now f q ib = Inr ((dup, wid, q'), ib')" "inbox_inv ib"
  shows "inbox_inv ib'"
  using assms(1)
proof (cases rule: ingest_body_cases)
  case (fresh bid)
  let ?ps = "insert_or_ignore_partition q (ib_partitions ib)"
  let ?pids = "insert (tq_partition_id q) (known_partitions ib)"
  note rest = ensure_batch_rest [OF fresh(6)]
  have k: "known_partitions ib' = ?pids" using rest by (simp add: known_partitions_def insert_or_ignore_partition_keys)
  have "facts_inv ?pids (ib_facts ib @ [new_fact H f q])"
    using assms(2) fresh(4,5) by (auto simp: inbox_inv_def facts_inv_def unique_key_def fact_ok_def new_fact_def)
  moreover have "batches_inv ?pids (ib_batches ib)"
    using assms(2) by (auto simp: inbox_inv_def batches_inv_def intro: batch_ok_mono)
  then have "batches_inv ?pids (ib_batches ib')" using ensure_batch_inv [OF fresh(6), of ?pids] by simp
  moreover have "partitions_inv ?ps" using assms(2) by (simp add: inbox_inv_def insert_or_ignore_partition_inv)
  ultimately show ?thesis using rest k by (simp add: inbox_inv_def)
qed (use assms in simp)

lemma ensure_batches_rest:
  "ensure_batches cfg uuids n now ps ib = Inr ib' \<Longrightarrow> ib_facts ib' = ib_facts ib \<and> ib_partitions ib' = ib_partitions ib"
  by (induction ps arbitrary: n ib) (auto split: sum.splits dest!: ensure_batch_rest)

lemma ensure_batches_inv:
  "ensure_batches cfg uuids n now ps ib = Inr ib' \<Longrightarrow> batches_inv pids (ib_batches ib) \<Longrightarrow>
   (\<forall>p\<in>set ps. tq_partition_id (p_partition p) \<in> pids) \<Longrightarrow> batches_inv pids (ib_batches ib')"
  by (induction ps arbitrary: n ib) (auto split: sum.splits dest: ensure_batch_inv)

lemma ensure_batches_active:
  "ensure_batches cfg uuids n now ps ib = Inr ib' \<Longrightarrow>
   active_in pid ib' \<longleftrightarrow> active_in pid ib \<or> pid \<in> (\<lambda>p. tq_partition_id (p_partition p)) ` set ps"
proof (induction ps arbitrary: n ib)
  case (Cons p ps)
  then obtain bid ib1 where e: "ensure_batch cfg (uuids n) (p_partition p) now True ib = Inr (bid, ib1)"
    "ensure_batches cfg uuids (Suc n) now ps ib1 = Inr ib'" by (auto split: sum.splits)
  show ?case using Cons.IH [OF e(2)] ensure_batch_active [OF e(1), of pid] by auto
qed simp

lemma release_facts_inv: "facts_inv pids fs \<Longrightarrow> facts_inv pids (release_facts now fs)"
  unfolding release_facts_def by (rule facts_inv_update) (auto simp: fact_ok_def source_key_def)

lemma release_batches_inv: "batches_inv pids bs \<Longrightarrow> batches_inv pids (release_batches now bs)"
  unfolding release_batches_def by (rule batches_inv_update) (auto simp: batch_ok_def active_def)

lemma recover_body_cases:
  assumes "recover_body cfg uuids now ib = Inr (counts, ib')"
  obtains ib1 where "ib1 = ib\<lparr>ib_facts := release_facts now (ib_facts ib), ib_batches := release_batches now (ib_batches ib)\<rparr>"
    "ensure_batches cfg uuids 0 now (missing ib1) ib1 = Inr ib'"
  using assms by (auto simp: recover_body_def Let_def split: sum.splits)

lemma recover_body_inv:
  assumes "recover_body cfg uuids now ib = Inr (counts, ib')" "inbox_inv ib"
  shows "inbox_inv ib'"
proof -
  obtain ib1 where ib1: "ib1 = ib\<lparr>ib_facts := release_facts now (ib_facts ib), ib_batches := release_batches now (ib_batches ib)\<rparr>"
    "ensure_batches cfg uuids 0 now (missing ib1) ib1 = Inr ib'" using assms(1) by (rule recover_body_cases)
  have k: "known_partitions ib' = known_partitions ib"
    using ensure_batches_rest [OF ib1(2)] ib1(1) by (simp add: known_partitions_def)
  have "batches_inv (known_partitions ib) (ib_batches ib')"
  proof (rule ensure_batches_inv [OF ib1(2)])
    show "batches_inv (known_partitions ib) (ib_batches ib1)"
      using assms(2) by (simp add: ib1(1) inbox_inv_def release_batches_inv)
    show "\<forall>p\<in>set (missing ib1). tq_partition_id (p_partition p) \<in> known_partitions ib"
      using assms(2) by (auto simp: missing_def ib1(1) inbox_inv_def partitions_inv_def known_partitions_def)
  qed
  then show ?thesis using assms(2) ensure_batches_rest [OF ib1(2)] ib1(1) k by (simp add: inbox_inv_def release_facts_inv)
qed

lemma recover_inbox_inv: "inbox_inv ib \<Longrightarrow> inbox_inv (snd (recover_inbox cfg uuids now ib))"
  by (auto simp: recover_inbox_def snd_transaction dest: recover_body_inv split: sum.split)

text \<open>What \<open>claim_batch\<close> does when a batch is ready: the chosen batch \<open>b\<close>, the rows, the new tables.\<close>

definition lease_batch :: "pystr \<Rightarrow> pystr \<Rightarrow> timestamp \<Rightarrow> batch_row list \<Rightarrow> batch_row list" where
  "lease_batch bid worker until = update_where (\<lambda>x. b_batch_id x = bid \<and> b_status x = Scheduled)
     (\<lambda>x. x\<lparr>b_status := BatchLeased, b_lease_owner := Some worker, b_lease_until := Some until\<rparr>)"

definition lease_facts :: "pystr set \<Rightarrow> pystr \<Rightarrow> timestamp \<Rightarrow> fact_row list \<Rightarrow> fact_row list" where
  "lease_facts wids worker until = update_where (\<lambda>r. f_work_id r \<in> wids \<and> f_state r = Pending)
     (\<lambda>r. r\<lparr>f_state := Leased, f_lease_owner := Some worker, f_lease_until := Some until\<rparr>)"

lemma ready_batches_set: "b \<in> set (ready_batches now ib) \<longleftrightarrow> b \<in> set (ib_batches ib) \<and> b_status b = Scheduled \<and> b_not_before b \<le> now"
  by (auto simp: ready_batches_def)

lemma ready_facts_set: "r \<in> set (ready_facts pid ib) \<longleftrightarrow> r \<in> set (ib_facts ib) \<and> f_partition_id r = pid \<and> f_state r = Pending"
  by (auto simp: ready_facts_def)

lemma find_partition:
  assumes "partitions_inv ps" "p \<in> set ps"
  shows "List.find (\<lambda>x. p_partition_id x = p_partition_id p) ps = Some p"
  using assms by (simp add: partitions_inv_def find_unique_key)

lemma claim_batch_ready:
  assumes "inbox_inv ib" "ready_batches now ib = b # bs"
  shows "\<exists>p\<in>set (ib_partitions ib). p_partition_id p = b_partition_id b \<and>
    (let rows = take n (ready_facts (b_partition_id b) ib) in
     claim_batch cfg worker now n ib =
       (Inr (Some \<lparr>we_batch_id = b_batch_id b, we_partition = p_partition p, we_worker_id = worker,
          we_lease_until = now + cfg_lease cfg, we_facts = map envelope_fact_of rows\<rparr>),
        ib\<lparr>ib_batches := lease_batch (b_batch_id b) worker (now + cfg_lease cfg) (ib_batches ib),
           ib_facts := lease_facts (f_work_id ` set rows) worker (now + cfg_lease cfg) (ib_facts ib)\<rparr>))"
proof -
  have b: "b \<in> set (ib_batches ib)" "b_status b = Scheduled"
    using ready_batches_set [of b now ib] assms(2) by simp_all
  have k: "unique_key b_batch_id (ib_batches ib)" using assms(1) by (simp add: inbox_inv_def batches_inv_def)
  have n: "rowcount (\<lambda>x. b_batch_id x = b_batch_id b \<and> b_status x = Scheduled) (ib_batches ib) = 1"
    unfolding rowcount_key_eq_1 [OF k] using b by blast
  have "b_partition_id b \<in> known_partitions ib"
    using assms(1) b(1) by (auto simp: inbox_inv_def batches_inv_def batch_ok_def)
  then obtain p where p: "p \<in> set (ib_partitions ib)" "p_partition_id p = b_partition_id b"
    by (auto simp: known_partitions_def)
  then have "List.find (\<lambda>x. p_partition_id x = b_partition_id b) (ib_partitions ib) = Some p"
    using find_partition [of "ib_partitions ib" p] assms(1) by (simp add: inbox_inv_def)
  then show ?thesis using p n by (intro bexI [of _ p]) (simp_all add: claim_batch_def assms(2) Let_def lease_batch_def lease_facts_def)
qed

lemma claim_batch_none: "ready_batches now ib = [] \<Longrightarrow> claim_batch cfg worker now n ib = (Inr None, ib)"
  by (simp add: claim_batch_def)

lemma lease_batch_inv: "batches_inv pids bs \<Longrightarrow> batches_inv pids (lease_batch bid worker until bs)"
  unfolding lease_batch_def by (rule batches_inv_update) (auto simp: batch_ok_def active_def)

lemma lease_facts_inv: "facts_inv pids fs \<Longrightarrow> facts_inv pids (lease_facts wids worker until fs)"
  unfolding lease_facts_def by (rule facts_inv_update) (auto simp: fact_ok_def source_key_def)

lemma claim_batch_inv:
  assumes "inbox_inv ib"
  shows "inbox_inv (snd (claim_batch cfg worker now n ib))"
proof (cases "ready_batches now ib")
  case Nil
  then show ?thesis using assms by (simp add: claim_batch_none)
next
  case (Cons b bs)
  show ?thesis using claim_batch_ready [OF assms Cons, of n cfg worker] assms
    by (auto simp: Let_def inbox_inv_def known_partitions_def lease_batch_inv lease_facts_inv)
qed

lemma claim_work_cases:
  obtains (refused) e where "claim_work cfg uuids worker now m ib = (Inl e, ib)"
  | (claimed) counts ib1 where "recover_body cfg uuids now ib = Inr (counts, ib1)"
      "claim_work cfg uuids worker now m ib = claim_batch cfg worker now (nat m) ib1" "\<not> blank worker" "0 < m"
proof (cases "blank worker \<or> m < 1")
  case True
  then show ?thesis by (intro refused) (simp add: claim_work_def)
next
  case False
  show ?thesis
  proof (cases "recover_body cfg uuids now ib")
    case (Inl e)
    then show ?thesis using False by (intro refused) (simp add: claim_work_def recover_inbox_def transaction_def)
  next
    case (Inr x)
    then show ?thesis using False
      by (intro claimed [of "fst x" "snd x"]) (simp_all add: claim_work_def recover_inbox_def transaction_def case_prod_unfold)
  qed
qed

lemma claim_work_inv: "inbox_inv ib \<Longrightarrow> inbox_inv (snd (claim_work cfg uuids worker now m ib))"
  by (rule claim_work_cases [of cfg uuids worker now m ib]) (auto dest: recover_body_inv intro: claim_batch_inv)

lemma settle_facts_inv: "facts_inv pids fs \<Longrightarrow> facts_inv pids (settle_facts env delivered now fs)"
  unfolding settle_facts_def by (intro facts_inv_update) (auto simp: fact_ok_def source_key_def)

lemma complete_batch_inv: "batches_inv pids bs \<Longrightarrow> batches_inv pids (complete_batch env now bs)"
  unfolding complete_batch_def by (rule batches_inv_update) (auto simp: batch_ok_def active_def)

lemma acknowledge_body_cases:
  assumes "acknowledge_body cfg uuid env delivered now ib = Inr (ack, ib')"
  obtains b where "b \<in> set (ib_batches ib)" "b_batch_id b = we_batch_id env" "b_status b = BatchLeased"
    "str_owner (b_lease_owner b) = we_worker_id env"
    "let ib1 = ib\<lparr>ib_facts := settle_facts env delivered now (ib_facts ib), ib_batches := complete_batch env now (ib_batches ib)\<rparr>;
         pending = (\<exists>r\<in>set (ib_facts ib1). f_partition_id r = tq_partition_id (we_partition env) \<and> f_state r = Pending)
     in if pending then \<exists>bid. ensure_batch cfg uuid (we_partition env) now True ib1 = Inr (bid, ib') else ib' = ib1"
    "wa_batch_id ack = we_batch_id env"
proof (cases "List.find (\<lambda>b. b_batch_id b = we_batch_id env) (ib_batches ib)")
  case None
  then show ?thesis using assms by (simp add: acknowledge_body_def)
next
  case (Some b)
  let ?ib1 = "ib\<lparr>ib_facts := settle_facts env delivered now (ib_facts ib), ib_batches := complete_batch env now (ib_batches ib)\<rparr>"
  have p: "rowcount (\<lambda>r. f_partition_id r = tq_partition_id (we_partition env) \<and> f_state r = Pending) (ib_facts ?ib1) > 0
    \<longleftrightarrow> (\<exists>r\<in>set (ib_facts ?ib1). f_partition_id r = tq_partition_id (we_partition env) \<and> f_state r = Pending)"
    by (simp add: rowcount_eq_0 flip: neq0_conv)
  have o: "b_status b = BatchLeased" "str_owner (b_lease_owner b) = we_worker_id env"
    using assms Some by (auto simp: acknowledge_body_def split: if_splits)
  show ?thesis
    by (rule that [of b]) (use find_SomeD [OF Some] o assms Some p in
      \<open>auto simp: acknowledge_body_def Let_def split: if_splits sum.splits\<close>)
qed

lemma acknowledge_body_facts:
  assumes "acknowledge_body cfg uuid env delivered now ib = Inr (ack, ib')"
  shows "ib_facts ib' = settle_facts env delivered now (ib_facts ib) \<and> ib_partitions ib' = ib_partitions ib"
  using assms
proof (rule acknowledge_body_cases)
  let ?ib1 = "ib\<lparr>ib_facts := settle_facts env delivered now (ib_facts ib), ib_batches := complete_batch env now (ib_batches ib)\<rparr>"
  assume "let ib1 = ?ib1; pending = (\<exists>r\<in>set (ib_facts ib1). f_partition_id r = tq_partition_id (we_partition env) \<and> f_state r = Pending)
     in if pending then \<exists>bid. ensure_batch cfg uuid (we_partition env) now True ib1 = Inr (bid, ib') else ib' = ib1"
  then have "(\<exists>bid. ensure_batch cfg uuid (we_partition env) now True ?ib1 = Inr (bid, ib')) \<or> ib' = ?ib1"
    unfolding Let_def by (simp only: split: if_splits) blast+
  then show ?thesis
  proof
    assume "\<exists>bid. ensure_batch cfg uuid (we_partition env) now True ?ib1 = Inr (bid, ib')"
    then obtain bid where "ensure_batch cfg uuid (we_partition env) now True ?ib1 = Inr (bid, ib')" ..
    from ensure_batch_rest [OF this] show ?thesis by simp
  qed simp
qed

lemma acknowledge_body_inv:
  assumes "acknowledge_body cfg uuid env delivered now ib = Inr (ack, ib')" "inbox_inv ib"
  shows "inbox_inv ib'"
proof -
  let ?ib1 = "ib\<lparr>ib_facts := settle_facts env delivered now (ib_facts ib), ib_batches := complete_batch env now (ib_batches ib)\<rparr>"
  let ?pending = "\<exists>r\<in>set (ib_facts ?ib1). f_partition_id r = tq_partition_id (we_partition env) \<and> f_state r = Pending"
  have r: "if ?pending then \<exists>bid. ensure_batch cfg uuid (we_partition env) now True ?ib1 = Inr (bid, ib') else ib' = ?ib1"
    using acknowledge_body_cases [OF assms(1)] by (simp add: Let_def) metis
  have k: "known_partitions ?ib1 = known_partitions ib" by (simp add: known_partitions_def)
  have i1: "inbox_inv ?ib1" using assms(2) by (simp add: inbox_inv_def k settle_facts_inv complete_batch_inv)
  show ?thesis
  proof (cases ?pending)
    case True
    then obtain bid where e: "ensure_batch cfg uuid (we_partition env) now True ?ib1 = Inr (bid, ib')" using r by auto
    have "facts_inv (known_partitions ?ib1) (ib_facts ?ib1)" using i1 by (simp only: inbox_inv_def)
    then have "tq_partition_id (we_partition env) \<in> known_partitions ?ib1"
      using True unfolding facts_inv_def fact_ok_def by metis
    then have "batches_inv (known_partitions ?ib1) (ib_batches ib')"
      using ensure_batch_inv [OF e] i1 by (simp only: inbox_inv_def)
    moreover have "known_partitions ib' = known_partitions ?ib1" using ensure_batch_rest [OF e] by (simp add: known_partitions_def)
    ultimately show ?thesis using ensure_batch_rest [OF e] i1 by (simp only: inbox_inv_def)
  next
    case False
    then show ?thesis using r i1 by (simp only: if_False)
  qed
qed

lemma snd_acknowledge: "snd (acknowledge cfg uuid env delivered now ib) = ib
    \<or> (\<exists>ack. set delivered \<subseteq> set (expected env)
        \<and> acknowledge_body cfg uuid env delivered now ib = Inr (ack, snd (acknowledge cfg uuid env delivered now ib)))"
  by (auto simp: acknowledge_def snd_transaction split: sum.split)

lemma acknowledge_inv: "inbox_inv ib \<Longrightarrow> inbox_inv (snd (acknowledge cfg uuid env delivered now ib))"
  using snd_acknowledge [of cfg uuid env delivered now ib] by (metis acknowledge_body_inv)

definition renew_facts :: "work_envelope \<Rightarrow> timestamp \<Rightarrow> fact_row list \<Rightarrow> fact_row list" where
  "renew_facts env until = update_where (owned_fact env) (\<lambda>r. r\<lparr>f_lease_until := Some until\<rparr>)"

definition renew_batch :: "work_envelope \<Rightarrow> timestamp \<Rightarrow> batch_row list \<Rightarrow> batch_row list" where
  "renew_batch env until = update_where
     (\<lambda>x. b_batch_id x = we_batch_id env \<and> b_status x = BatchLeased \<and> b_lease_owner x = Some (we_worker_id env))
     (\<lambda>x. x\<lparr>b_lease_until := Some until\<rparr>)"

lemma renew_lease_body_cases:
  assumes "renew_lease_body env until ib = Inr (env', ib')" "unique_key b_batch_id (ib_batches ib)"
  shows "env' = env\<lparr>we_lease_until := until\<rparr>
    \<and> ib' = ib\<lparr>ib_facts := renew_facts env until (ib_facts ib), ib_batches := renew_batch env until (ib_batches ib)\<rparr>
    \<and> (expected env \<noteq> [] \<longrightarrow> rowcount (owned_fact env) (ib_facts ib) = length (expected env))
    \<and> (\<exists>b\<in>set (ib_batches ib). b_batch_id b = we_batch_id env \<and> b_status b = BatchLeased
        \<and> b_lease_owner b = Some (we_worker_id env) \<and> b_partition_id b = tq_partition_id (we_partition env))"
proof -
  let ?mine = "\<lambda>x. b_batch_id x = we_batch_id env \<and> b_status x = BatchLeased \<and> b_lease_owner x = Some (we_worker_id env)"
  obtain b where b: "List.find (\<lambda>b. b_batch_id b = we_batch_id env) (ib_batches ib) = Some b"
    using assms(1) by (cases "List.find (\<lambda>b. b_batch_id b = we_batch_id env) (ib_batches ib)") (simp_all add: renew_lease_body_def Let_def)
  define owner where "owner = (case b_lease_owner b of None \<Rightarrow> [] | Some w \<Rightarrow> w)"
  define ib2 where "ib2 = ib\<lparr>ib_facts := renew_facts env until (ib_facts ib), ib_batches := renew_batch env until (ib_batches ib)\<rparr>"
  have eq: "(if b_status b \<noteq> BatchLeased \<or> owner \<noteq> we_worker_id env \<or> b_partition_id b \<noteq> tq_partition_id (we_partition env)
        then Inl (Lease_lost (lit ''batch_not_owned''))
      else if expected env \<noteq> [] \<and> rowcount (owned_fact env) (ib_facts ib) \<noteq> length (expected env)
        then Inl (Lease_lost (lit ''work_fact_not_owned''))
      else if rowcount ?mine (ib_batches ib) \<noteq> 1 then Inl (Lease_lost (lit ''batch_lease_not_renewed''))
      else Inr (env\<lparr>we_lease_until := until\<rparr>, ib2)) = Inr (env', ib')"
    using assms(1) unfolding renew_lease_body_def Let_def b option.case owner_def ib2_def renew_facts_def renew_batch_def .
  then have c: "b_partition_id b = tq_partition_id (we_partition env)" "rowcount ?mine (ib_batches ib) = 1"
      "env' = env\<lparr>we_lease_until := until\<rparr>" "ib' = ib2"
      "expected env \<noteq> [] \<longrightarrow> rowcount (owned_fact env) (ib_facts ib) = length (expected env)"
    by (auto split: if_splits)
  have "rowcount ?mine (ib_batches ib) \<noteq> 0" using c(2) by simp
  then obtain x where x: "x \<in> set (ib_batches ib)" "?mine x"
    unfolding rowcount_eq_0 by blast
  then have "b = x" using find_SomeD [OF b] by (intro unique_keyD [OF assms(2)]) simp_all
  then show ?thesis using c x unfolding ib2_def by blast
qed

lemma renew_facts_inv: "facts_inv pids fs \<Longrightarrow> facts_inv pids (renew_facts env until fs)"
  unfolding renew_facts_def by (rule facts_inv_update) (auto simp: fact_ok_def source_key_def owned_fact_def)

lemma renew_batch_inv: "batches_inv pids bs \<Longrightarrow> batches_inv pids (renew_batch env until bs)"
  unfolding renew_batch_def by (rule batches_inv_update) (auto simp: batch_ok_def active_def)

lemma snd_renew_lease: "snd (renew_lease cfg env now secs ib) = ib
    \<or> (\<exists>until env'. renew_lease_body env until ib = Inr (env', snd (renew_lease cfg env now secs ib)))"
  by (auto simp: renew_lease_def Let_def snd_transaction split: sum.split)

lemma renew_lease_inv: "inbox_inv ib \<Longrightarrow> inbox_inv (snd (renew_lease cfg env now secs ib))"
proof -
  assume i: "inbox_inv ib"
  then have u: "unique_key b_batch_id (ib_batches ib)" by (simp add: inbox_inv_def batches_inv_def)
  show ?thesis using snd_renew_lease [of cfg env now secs ib]
  proof
    assume "\<exists>until env'. renew_lease_body env until ib = Inr (env', snd (renew_lease cfg env now secs ib))"
    then obtain until where "snd (renew_lease cfg env now secs ib)
        = ib\<lparr>ib_facts := renew_facts env until (ib_facts ib), ib_batches := renew_batch env until (ib_batches ib)\<rparr>"
      using renew_lease_body_cases [OF _ u] by blast
    then show ?thesis using i by (simp add: inbox_inv_def known_partitions_def renew_facts_inv renew_batch_inv)
  qed (simp add: i)
qed

lemma snd_ingest:
  "snd (ingest H cfg uuid clock now f s) = (snd (partition_for H clock f (fst s)),
     case fst (partition_for H clock f (fst s)) of Inl e \<Rightarrow> snd s
     | Inr q \<Rightarrow> snd (transaction (ingest_body H cfg uuid now f q) (snd s)))"
  by (simp add: ingest_def case_prod_unfold split: sum.split)

lemma transaction_ingest_inv: "inbox_inv ib \<Longrightarrow> inbox_inv (snd (transaction (ingest_body H cfg uuid now f q) ib))"
  by (auto simp: snd_transaction split: sum.split dest: ingest_body_inv)

section \<open>The inbox as a machine\<close>

datatype inbox_cmd = Ingest pystr timestamp timestamp work_fact
  | Recover "nat \<Rightarrow> pystr" timestamp
  | Claim "nat \<Rightarrow> pystr" pystr timestamp int
  | Acknowledge pystr work_envelope "pystr list" timestamp
  | Renew work_envelope timestamp "rat option"
  | Authority authority_cmd

fun inbox_step :: "(pystr \<Rightarrow> pystr) \<Rightarrow> inbox_cfg \<Rightarrow> inbox_cmd \<Rightarrow> authority \<times> inbox \<Rightarrow> authority \<times> inbox" where
  "inbox_step H cfg (Ingest uuid clock now f) s = snd (ingest H cfg uuid clock now f s)"
| "inbox_step H cfg (Recover uuids now) (au, ib) = (au, snd (recover_inbox cfg uuids now ib))"
| "inbox_step H cfg (Claim uuids worker now m) (au, ib) = (au, snd (claim_work cfg uuids worker now m ib))"
| "inbox_step H cfg (Acknowledge uuid env delivered now) (au, ib) = (au, snd (acknowledge cfg uuid env delivered now ib))"
| "inbox_step H cfg (Renew env now secs) (au, ib) = (au, snd (renew_lease cfg env now secs ib))"
| "inbox_step H cfg (Authority c) (au, ib) = (authority_step H c au, ib)"

definition system_inv :: "authority \<times> inbox \<Rightarrow> bool" where
  "system_inv s \<longleftrightarrow> authority_inv (fst s) \<and> inbox_inv (snd s)"

definition new_system :: "authority \<times> inbox" where
  "new_system = (new_authority True, \<lparr>ib_facts = [], ib_batches = [], ib_partitions = []\<rparr>)"

lemma inbox_step_inv:
  assumes "system_inv s"
  shows "system_inv (inbox_step H cfg c s)"
proof (cases s)
  case (Pair au ib)
  with assms have i: "authority_inv au" "inbox_inv ib" by (simp_all add: system_inv_def)
  show ?thesis
  proof (cases c)
    case (Ingest uuid clock now f)
    then show ?thesis using i Pair
      by (simp add: system_inv_def snd_ingest snd_partition_for binding_for_state transaction_ingest_inv split: sum.split)
  qed (use i Pair in \<open>simp_all add: system_inv_def recover_inbox_inv claim_work_inv acknowledge_inv renew_lease_inv authority_step_inv\<close>)
qed

interpretation inbox: invariant_machine "inbox_step H cfg" system_inv for H cfg
  by unfold_locales (rule inbox_step_inv)

lemma new_system_inv: "system_inv new_system"
  by (simp add: new_system_def system_inv_def inbox_inv_def facts_inv_def batches_inv_def partitions_inv_def
      one_active_def new_authority_def authority_inv_def)

lemma system_reachable_inv: "system_inv (fold (inbox_step H cfg) cs new_system)"
  using new_system_inv by (rule inbox.run_inv)

text \<open>What an operation can do to the facts it does not touch.\<close>

lemma in_update_where: "r \<in> set rs \<Longrightarrow> \<not> P r \<Longrightarrow> r \<in> set (update_where P f rs)"
  by (force simp: set_update_where)

text \<open>A row of the facts is kept by each operation when no statement of the operation selects it.\<close>

lemma ingest_keeps_fact:
  assumes "r \<in> set (ib_facts ib)"
  shows "r \<in> set (ib_facts (snd (transaction (ingest_body H cfg uuid now f q) ib)))"
proof (cases "ingest_body H cfg uuid now f q ib")
  case (Inl e)
  then show ?thesis using assms by (simp add: snd_transaction)
next
  case (Inr x)
  obtain d w q' ib' where x: "ingest_body H cfg uuid now f q ib = Inr ((d, w, q'), ib')"
    using Inr by (metis prod.collapse)
  then have "r \<in> set (ib_facts ib')"
  proof (cases rule: ingest_body_cases)
    case (fresh bid)
    then show ?thesis using assms ensure_batch_rest [OF fresh(6)] by simp
  qed (use assms in simp)
  then show ?thesis using x by (simp add: snd_transaction)
qed

lemma recover_keeps_fact:
  assumes "r \<in> set (ib_facts ib)" "\<not> (f_state r = Leased \<and> sql_lt (f_lease_until r) now)"
    "recover_body cfg uuids now ib = Inr (counts, ib')"
  shows "r \<in> set (ib_facts ib')"
  using assms(3)
proof (rule recover_body_cases)
  fix ib1 assume ib1: "ib1 = ib\<lparr>ib_facts := release_facts now (ib_facts ib), ib_batches := release_batches now (ib_batches ib)\<rparr>"
    "ensure_batches cfg uuids 0 now (missing ib1) ib1 = Inr ib'"
  show ?thesis using ensure_batches_rest [OF ib1(2)] assms(1,2)
    by (simp add: ib1(1) release_facts_def in_update_where)
qed

fun untouched :: "inbox_cmd \<Rightarrow> fact_row \<Rightarrow> bool" where
  "untouched (Recover uuids now) r \<longleftrightarrow> \<not> (f_state r = Leased \<and> sql_lt (f_lease_until r) now)"
| "untouched (Claim uuids worker now m) r \<longleftrightarrow> f_state r \<noteq> Pending \<and> \<not> (f_state r = Leased \<and> sql_lt (f_lease_until r) now)"
| "untouched (Acknowledge uuid env delivered now) r \<longleftrightarrow> \<not> (f_state r = Leased \<and> f_lease_owner r = Some (we_worker_id env))"
| "untouched (Renew env now secs) r \<longleftrightarrow> \<not> (f_state r = Leased \<and> f_lease_owner r = Some (we_worker_id env))"
| "untouched _ r \<longleftrightarrow> True"

lemma claim_batch_keeps_fact:
  assumes "inbox_inv ib" "r \<in> set (ib_facts ib)" "f_state r \<noteq> Pending"
  shows "r \<in> set (ib_facts (snd (claim_batch cfg worker now n ib)))"
proof (cases "ready_batches now ib")
  case Nil
  then show ?thesis using assms by (simp add: claim_batch_none)
next
  case (Cons b bs)
  then show ?thesis using claim_batch_ready [OF assms(1) Cons, of n cfg worker] assms(2,3)
    by (auto simp: Let_def lease_facts_def in_update_where)
qed

lemma acknowledge_keeps_fact:
  assumes "r \<in> set (ib_facts ib)" "\<not> (f_state r = Leased \<and> f_lease_owner r = Some (we_worker_id env))"
  shows "r \<in> set (ib_facts (snd (acknowledge cfg uuid env delivered now ib)))"
  using snd_acknowledge [of cfg uuid env delivered now ib]
proof
  let ?ib' = "snd (acknowledge cfg uuid env delivered now ib)"
  assume "\<exists>ack. set delivered \<subseteq> set (expected env) \<and> acknowledge_body cfg uuid env delivered now ib = Inr (ack, ?ib')"
  then obtain ack where "acknowledge_body cfg uuid env delivered now ib = Inr (ack, ?ib')" by blast
  from acknowledge_body_facts [OF this] have "ib_facts ?ib' = settle_facts env delivered now (ib_facts ib)" ..
  moreover have "r \<in> set (settle_facts env delivered now (ib_facts ib))"
    unfolding settle_facts_def using assms by (intro in_update_where) auto
  ultimately show ?thesis by simp
qed (simp add: assms(1))

lemma renew_keeps_fact:
  assumes "inbox_inv ib" "r \<in> set (ib_facts ib)" "\<not> (f_state r = Leased \<and> f_lease_owner r = Some (we_worker_id env))"
  shows "r \<in> set (ib_facts (snd (renew_lease cfg env now secs ib)))"
  using snd_renew_lease [of cfg env now secs ib]
proof
  assume "\<exists>until env'. renew_lease_body env until ib = Inr (env', snd (renew_lease cfg env now secs ib))"
  then obtain until env' where e: "renew_lease_body env until ib = Inr (env', snd (renew_lease cfg env now secs ib))" by blast
  have "unique_key b_batch_id (ib_batches ib)" using assms(1) by (simp add: inbox_inv_def batches_inv_def)
  from renew_lease_body_cases [OF e this] have "ib_facts (snd (renew_lease cfg env now secs ib)) = renew_facts env until (ib_facts ib)"
    by auto
  moreover have "r \<in> set (renew_facts env until (ib_facts ib))"
    unfolding renew_facts_def using assms(2,3) by (intro in_update_where) (auto simp: owned_fact_def)
  ultimately show ?thesis by simp
qed (simp add: assms(2))

lemma step_keeps_fact:
  assumes inv: "system_inv s" and r: "r \<in> set (ib_facts (snd s))" and u: "untouched c r"
  shows "r \<in> set (ib_facts (snd (inbox_step H cfg c s)))"
proof (cases s)
  case (Pair au ib)
  have i: "inbox_inv ib" and r: "r \<in> set (ib_facts ib)" using inv r Pair by (simp_all add: system_inv_def)
  show ?thesis
  proof (cases c)
    case (Ingest uuid clock now f)
    then show ?thesis using r Pair by (simp add: snd_ingest ingest_keeps_fact split: sum.split)
  next
    case (Recover uuids now)
    then show ?thesis using u r Pair
      by (cases "recover_body cfg uuids now ib") (auto simp: recover_inbox_def snd_transaction dest: recover_keeps_fact)
  next
    case (Claim uuids worker now m)
    have "r \<in> set (ib_facts (snd (claim_work cfg uuids worker now m ib)))"
    proof (rule claim_work_cases [of cfg uuids worker now m ib])
      fix counts ib1 assume c: "recover_body cfg uuids now ib = Inr (counts, ib1)"
        "claim_work cfg uuids worker now m ib = claim_batch cfg worker now (nat m) ib1"
      have "r \<in> set (ib_facts ib1)" using recover_keeps_fact [OF r _ c(1)] u Claim by simp
      then show ?thesis using c claim_batch_keeps_fact [OF recover_body_inv [OF c(1) i]] u Claim by simp
    qed (use r in simp)
    then show ?thesis using Claim Pair by simp
  qed (use Pair i r u in \<open>auto intro: acknowledge_keeps_fact renew_keeps_fact\<close>)
qed

text \<open>What a successful \<open>claim\<close> hands out.\<close>

lemma claim_work_some:
  assumes inv: "inbox_inv ib" and c: "claim_work cfg uuids worker now m ib = (Inr (Some env), ib')"
  obtains counts ib1 b bs p rows where "recover_body cfg uuids now ib = Inr (counts, ib1)" "inbox_inv ib1"
    "ready_batches now ib1 = b # bs" "rows = take (nat m) (ready_facts (b_partition_id b) ib1)"
    "p \<in> set (ib_partitions ib1)" "p_partition_id p = b_partition_id b"
    "env = \<lparr>we_batch_id = b_batch_id b, we_partition = p_partition p, we_worker_id = worker,
          we_lease_until = now + cfg_lease cfg, we_facts = map envelope_fact_of rows\<rparr>"
    "ib' = ib1\<lparr>ib_batches := lease_batch (b_batch_id b) worker (now + cfg_lease cfg) (ib_batches ib1),
           ib_facts := lease_facts (f_work_id ` set rows) worker (now + cfg_lease cfg) (ib_facts ib1)\<rparr>"
proof (rule claim_work_cases [of cfg uuids worker now m ib])
  fix counts ib1 assume r: "recover_body cfg uuids now ib = Inr (counts, ib1)"
    "claim_work cfg uuids worker now m ib = claim_batch cfg worker now (nat m) ib1"
  have i: "inbox_inv ib1" using r(1) inv by (rule recover_body_inv)
  show ?thesis
  proof (cases "ready_batches now ib1")
    case Nil
    then show ?thesis using r c by (simp add: claim_batch_none)
  next
    case (Cons b bs)
    show ?thesis using claim_batch_ready [OF i Cons, of "nat m" cfg worker] c r that [OF r(1) i Cons refl]
      by (auto simp: Let_def)
  qed
qed (use c in simp)

lemma claimed_was_pending:
  assumes "inbox_inv ib" "claim_work cfg uuids worker now m ib = (Inr (Some env), ib')"
    "r \<in> set (ib_facts ib)" "f_state r \<noteq> Pending" "\<not> (f_state r = Leased \<and> sql_lt (f_lease_until r) now)"
  shows "f_work_id r \<notin> set (expected env)"
  using assms(1,2)
proof (rule claim_work_some)
  fix counts ib1 b bs p rows
  assume c: "recover_body cfg uuids now ib = Inr (counts, ib1)" "inbox_inv ib1"
    "rows = take (nat m) (ready_facts (b_partition_id b) ib1)"
    "env = \<lparr>we_batch_id = b_batch_id b, we_partition = p_partition p, we_worker_id = worker,
          we_lease_until = now + cfg_lease cfg, we_facts = map envelope_fact_of rows\<rparr>"
  have r1: "r \<in> set (ib_facts ib1)" using recover_keeps_fact [OF assms(3,5) c(1)] .
  have u: "unique_key f_work_id (ib_facts ib1)" using c(2) by (simp add: inbox_inv_def facts_inv_def)
  show ?thesis
  proof
    assume "f_work_id r \<in> set (expected env)"
    then obtain x where x: "x \<in> set rows" "f_work_id x = f_work_id r"
      by (auto simp: c(4) expected_def envelope_fact_of_def)
    then have "x \<in> set (ib_facts ib1)" "f_state x = Pending"
      using set_take_subset [of "nat m" "ready_facts (b_partition_id b) ib1"] c(3) ready_facts_set [of x "b_partition_id b" ib1] by auto
    then have "x = r" using unique_keyD [OF u _ r1 x(2)] by simp
    then show False using \<open>f_state x = Pending\<close> assms(4) by simp
  qed
qed

section \<open>Delivered and leased facts\<close>

definition delivered_fact :: "fact_row \<Rightarrow> authority \<times> inbox \<Rightarrow> bool" where
  "delivered_fact r s \<longleftrightarrow> f_state r = Delivered \<and> r \<in> set (ib_facts (snd s))"

lemma untouched_delivered: "f_state r = Delivered \<Longrightarrow> untouched c r"
  by (cases c) simp_all

interpretation settled: final_machine "inbox_step H cfg" system_inv delivered_fact "\<lambda>_ _. True" for H cfg
  by unfold_locales (auto simp: delivered_fact_def untouched_delivered intro: step_keeps_fact)

text \<open>A fact leased to \<open>w\<close> until \<open>t\<close>; the commands that run by then and do not act for \<open>w\<close>.\<close>

definition leased_fact :: "pystr \<Rightarrow> timestamp \<Rightarrow> fact_row \<Rightarrow> bool" where
  "leased_fact w t r \<longleftrightarrow> f_state r = Leased \<and> f_lease_owner r = Some w \<and> f_lease_until r = Some t"

fun within_lease :: "pystr \<Rightarrow> timestamp \<Rightarrow> inbox_cmd \<Rightarrow> bool" where
  "within_lease w t (Recover uuids now) \<longleftrightarrow> now \<le> t"
| "within_lease w t (Claim uuids worker now m) \<longleftrightarrow> now \<le> t"
| "within_lease w t (Acknowledge uuid env delivered now) \<longleftrightarrow> we_worker_id env \<noteq> w"
| "within_lease w t (Renew env now secs) \<longleftrightarrow> we_worker_id env \<noteq> w"
| "within_lease w t _ \<longleftrightarrow> True"

lemma untouched_leased: "leased_fact w t r \<Longrightarrow> within_lease w t c \<Longrightarrow> untouched c r"
  by (cases c) (auto simp: leased_fact_def sql_lt_def)

interpretation leases: final_machine "inbox_step H cfg" system_inv
    "\<lambda>(w, t, r) s. leased_fact w t r \<and> r \<in> set (ib_facts (snd s))" "\<lambda>(w, t, r). within_lease w t" for H cfg
  by unfold_locales (auto intro: step_keeps_fact untouched_leased)

section \<open>Known facts and attested bindings stay\<close>

definition identity :: "fact_row \<Rightarrow> pystr \<times> pystr \<times> pystr" where
  "identity r = (f_work_id r, f_tenant_id r, f_partition_id r)"

text \<open>What every operation but an ingestion leaves alone.\<close>

definition same_facts :: "inbox \<Rightarrow> inbox \<Rightarrow> bool" where
  "same_facts ib ib' \<longleftrightarrow> identity ` set (ib_facts ib') = identity ` set (ib_facts ib) \<and> ib_partitions ib' = ib_partitions ib"

lemma same_facts_refl [simp]: "same_facts ib ib"
  by (simp add: same_facts_def)

lemma same_facts_trans: "same_facts a b \<Longrightarrow> same_facts b c \<Longrightarrow> same_facts a c"
  by (simp add: same_facts_def)

lemma settle_identity: "identity ` set (settle_facts env delivered now fs) = identity ` set fs"
  by (simp add: settle_facts_def image_update_where identity_def)

lemma lease_identity: "identity ` set (lease_facts wids worker until fs) = identity ` set fs"
  by (simp add: lease_facts_def image_update_where identity_def)

lemma recover_body_same:
  assumes "recover_body cfg uuids now ib = Inr (counts, ib')"
  shows "same_facts ib ib'"
  using assms
proof (rule recover_body_cases)
  fix ib1 assume ib1: "ib1 = ib\<lparr>ib_facts := release_facts now (ib_facts ib), ib_batches := release_batches now (ib_batches ib)\<rparr>"
    "ensure_batches cfg uuids 0 now (missing ib1) ib1 = Inr ib'"
  show ?thesis using ensure_batches_rest [OF ib1(2)]
    by (simp add: ib1(1) same_facts_def release_facts_def image_update_where identity_def)
qed

lemma recover_inbox_same: "same_facts ib (snd (recover_inbox cfg uuids now ib))"
  by (auto simp: recover_inbox_def snd_transaction dest: recover_body_same split: sum.split)

lemma claim_work_same:
  assumes "inbox_inv ib"
  shows "same_facts ib (snd (claim_work cfg uuids worker now m ib))"
proof (rule claim_work_cases [of cfg uuids worker now m ib])
  fix counts ib1 assume c: "recover_body cfg uuids now ib = Inr (counts, ib1)"
    "claim_work cfg uuids worker now m ib = claim_batch cfg worker now (nat m) ib1"
  have i: "inbox_inv ib1" using c(1) assms by (rule recover_body_inv)
  have "same_facts ib1 (snd (claim_batch cfg worker now (nat m) ib1))"
  proof (cases "ready_batches now ib1")
    case (Cons b bs)
    then obtain fs env where "claim_batch cfg worker now (nat m) ib1 = (Inr (Some env), fs)"
      "ib_facts fs = lease_facts (f_work_id ` set (take (nat m) (ready_facts (b_partition_id b) ib1))) worker (now + cfg_lease cfg) (ib_facts ib1)"
      "ib_partitions fs = ib_partitions ib1"
      using claim_batch_ready [OF i Cons, of "nat m" cfg worker] unfolding Let_def by fastforce
    then show ?thesis by (simp add: same_facts_def lease_identity)
  qed (simp add: claim_batch_none)
  then show ?thesis using c recover_body_same same_facts_trans by fastforce
qed simp

lemma acknowledge_same: "same_facts ib (snd (acknowledge cfg uuid env delivered now ib))"
  using snd_acknowledge [of cfg uuid env delivered now ib]
proof
  assume "\<exists>ack. set delivered \<subseteq> set (expected env)
    \<and> acknowledge_body cfg uuid env delivered now ib = Inr (ack, snd (acknowledge cfg uuid env delivered now ib))"
  then show ?thesis using acknowledge_body_facts settle_identity unfolding same_facts_def by metis
qed simp

lemma renew_lease_same:
  assumes "inbox_inv ib"
  shows "same_facts ib (snd (renew_lease cfg env now secs ib))"
  using snd_renew_lease [of cfg env now secs ib]
proof
  assume "\<exists>until env'. renew_lease_body env until ib = Inr (env', snd (renew_lease cfg env now secs ib))"
  then obtain until env' where e: "renew_lease_body env until ib = Inr (env', snd (renew_lease cfg env now secs ib))" by blast
  have "unique_key b_batch_id (ib_batches ib)" using assms by (simp add: inbox_inv_def batches_inv_def)
  from renew_lease_body_cases [OF e this] obtain bs where "snd (renew_lease cfg env now secs ib) =
      ib\<lparr>ib_facts := renew_facts env until (ib_facts ib), ib_batches := bs\<rparr>" by blast
  then show ?thesis by (simp add: same_facts_def renew_facts_def image_update_where identity_def)
qed simp

text \<open>One step: an ingestion, or nothing new.\<close>

lemma step_same:
  assumes "system_inv s" "\<And>uuid clock now f. c \<noteq> Ingest uuid clock now f"
  shows "same_facts (snd s) (snd (inbox_step H cfg c s))"
  using assms
  by (cases s; cases c) (auto simp: system_inv_def recover_inbox_same claim_work_same acknowledge_same renew_lease_same)

definition work_ids :: "inbox \<Rightarrow> pystr set" where
  "work_ids ib = f_work_id ` set (ib_facts ib)"

lemma same_facts_work_ids: "same_facts ib ib' \<Longrightarrow> work_ids ib' = work_ids ib"
proof -
  have w: "work_ids x = fst ` identity ` set (ib_facts x)" for x by (simp add: work_ids_def image_image identity_def)
  show "same_facts ib ib' \<Longrightarrow> work_ids ib' = work_ids ib" by (simp add: w same_facts_def)
qed

lemma ingest_work_ids: "work_ids ib \<subseteq> work_ids (snd (transaction (ingest_body H cfg uuid now f q) ib))"
  unfolding work_ids_def by (auto intro: imageI ingest_keeps_fact)

lemma step_work_ids:
  assumes "system_inv s"
  shows "work_ids (snd s) \<subseteq> work_ids (snd (inbox_step H cfg c s))"
proof (cases "\<exists>uuid clock now f. c = Ingest uuid clock now f")
  case True
  then show ?thesis by (auto simp: snd_ingest split: sum.split intro: subsetD [OF ingest_work_ids])
next
  case False
  then show ?thesis using step_same [OF assms, of c] same_facts_work_ids by blast
qed

lemma step_bound:
  assumes "system_inv s" "au_durable (fst s)" "bound (fst s) wid = Some b"
  shows "au_durable (fst (inbox_step H cfg c s)) \<and> bound (fst (inbox_step H cfg c s)) wid = Some b"
proof (cases s)
  case (Pair au ib)
  then have "authority_inv au" "au_durable au" "bound au wid = Some b" using assms by (simp_all add: system_inv_def)
  then show ?thesis using Pair
    by (cases c) (auto simp: snd_ingest snd_partition_for binding_for_state dest: authority_step_bound)
qed

lemma step_durable:
  assumes "system_inv s"
  shows "au_durable (fst (inbox_step H cfg c s)) = au_durable (fst s)"
proof (cases s)
  case (Pair au ib)
  have d: "au_durable (authority_step H a au) = au_durable au" if "authority_inv au" for a
    using that by (cases a) (simp_all add: binding_for_state snd_partition_for)
  then show ?thesis using Pair assms
    by (cases c) (auto simp: snd_ingest snd_partition_for binding_for_state system_inv_def)
qed

interpretation known: final_machine "inbox_step H cfg" system_inv
    "\<lambda>(wid, b) s. au_durable (fst s) \<and> bound (fst s) wid = Some b \<and> wid \<in> work_ids (snd s)" "\<lambda>_ _. True" for H cfg
  by unfold_locales (use step_bound step_work_ids in blast)

lemma reachable_durable: "au_durable (fst (fold (inbox_step H cfg) cs new_system))"
proof -
  have "au_durable (fst (fold (inbox_step H cfg) cs s))" if "system_inv s" "au_durable (fst s)" for s
    using that by (induction cs arbitrary: s) (simp_all add: step_durable inbox_step_inv)
  then show ?thesis using new_system_inv by (simp add: new_system_def new_authority_def)
qed

section \<open>After a recovery\<close>

definition batch_ids :: "inbox \<Rightarrow> pystr set" where
  "batch_ids ib = b_batch_id ` set (ib_batches ib)"

text \<open>Identifiers that do not repeat and are not in use: what \<open>uuid4\<close> is relied on for.\<close>

definition fresh_uuids :: "(nat \<Rightarrow> pystr) \<Rightarrow> inbox \<Rightarrow> bool" where
  "fresh_uuids uuids ib \<longleftrightarrow> inj (\<lambda>n. take 24 (uuids n)) \<and> (\<forall>n. lit ''wb_'' @ take 24 (uuids n) \<notin> batch_ids ib)"

lemma ensure_batch_total:
  assumes "lit ''wb_'' @ take 24 uuid \<notin> batch_ids ib"
  shows "\<exists>bid ib'. ensure_batch cfg uuid q now immediate ib = Inr (bid, ib') \<and>
    batch_ids ib' \<subseteq> insert (lit ''wb_'' @ take 24 uuid) (batch_ids ib)"
proof -
  have n: "b_batch_id (new_batch cfg uuid q now immediate) = lit ''wb_'' @ take 24 uuid" by (simp add: new_batch_def)
  have "\<exists>bid ib'. ensure_batch cfg uuid q now immediate ib = Inr (bid, ib')"
    using assms by (auto simp: ensure_batch_def insert_row_def n batch_ids_def split: option.split)
  then obtain bid ib' where e: "ensure_batch cfg uuid q now immediate ib = Inr (bid, ib')" by blast
  then have "batch_ids ib' \<subseteq> insert (lit ''wb_'' @ take 24 uuid) (batch_ids ib)"
  proof (cases rule: ensure_batch_cases)
    case (present b)
    have "b_batch_id ` set (flag_rerun bid (ib_batches ib)) = b_batch_id ` set (ib_batches ib)"
      by (simp add: flag_rerun_def image_update_where)
    then show ?thesis using present(5) by (auto simp: batch_ids_def)
  next
    case fresh
    then show ?thesis by (auto simp: batch_ids_def n)
  qed
  then show ?thesis using e by blast
qed

lemma ensure_batches_total:
  assumes "inj (\<lambda>n. take 24 (uuids n))" "\<forall>k\<ge>n. lit ''wb_'' @ take 24 (uuids k) \<notin> batch_ids ib"
  shows "\<exists>ib'. ensure_batches cfg uuids n now ps ib = Inr ib'"
  using assms(2)
proof (induction ps arbitrary: n ib)
  case (Cons p ps)
  obtain bid ib1 where e: "ensure_batch cfg (uuids n) (p_partition p) now True ib = Inr (bid, ib1)"
    "batch_ids ib1 \<subseteq> insert (lit ''wb_'' @ take 24 (uuids n)) (batch_ids ib)"
    using ensure_batch_total [of "uuids n" ib cfg "p_partition p" now True] Cons.prems by auto
  have "lit ''wb_'' @ take 24 (uuids k) \<notin> batch_ids ib1" if "k \<ge> Suc n" for k
  proof -
    have "take 24 (uuids k) \<noteq> take 24 (uuids n)" using injD [OF assms(1), of k n] that by auto
    then show ?thesis using e(2) Cons.prems that by auto
  qed
  then show ?case using Cons.IH [of "Suc n" ib1] e(1) by auto
qed simp

lemma recover_body_total:
  assumes "fresh_uuids uuids ib"
  shows "\<exists>counts ib'. recover_body cfg uuids now ib = Inr (counts, ib')"
proof -
  let ?ib1 = "ib\<lparr>ib_facts := release_facts now (ib_facts ib), ib_batches := release_batches now (ib_batches ib)\<rparr>"
  have "batch_ids ?ib1 = batch_ids ib"
    by (simp add: batch_ids_def release_batches_def image_update_where)
  then obtain ib' where "ensure_batches cfg uuids 0 now (missing ?ib1) ?ib1 = Inr ib'"
    using ensure_batches_total [of uuids 0 ?ib1 cfg now "missing ?ib1"] assms unfolding fresh_uuids_def by auto
  then show ?thesis by (simp add: recover_body_def Let_def)
qed

text \<open>The guarantee of a recovery: no expired lease is left, and every pending fact has an active batch.\<close>

lemma recover_body_wakes:
  assumes "recover_body cfg uuids now ib = Inr (counts, ib')" "inbox_inv ib" "r \<in> set (ib_facts ib')"
  shows "\<not> (f_state r = Leased \<and> sql_lt (f_lease_until r) now)
    \<and> (f_state r = Pending \<longrightarrow> active_in (f_partition_id r) ib')"
  using assms(1)
proof (rule recover_body_cases)
  fix ib1 assume ib1: "ib1 = ib\<lparr>ib_facts := release_facts now (ib_facts ib), ib_batches := release_batches now (ib_batches ib)\<rparr>"
    "ensure_batches cfg uuids 0 now (missing ib1) ib1 = Inr ib'"
  have r: "r \<in> set (ib_facts ib1)" using assms(3) ensure_batches_rest [OF ib1(2)] by simp
  have "active_in (f_partition_id r) ib'" if "f_state r = Pending"
  proof (cases "active_in (f_partition_id r) ib1")
    case False
    have "facts_inv (known_partitions ib) (ib_facts ib1)" using assms(2) by (simp add: ib1(1) inbox_inv_def release_facts_inv)
    then obtain p where p: "p \<in> set (ib_partitions ib)" "p_partition_id p = f_partition_id r"
      using r by (auto simp: facts_inv_def fact_ok_def known_partitions_def)
    then have "p \<in> set (missing ib1)" using False r that by (auto simp: missing_def ib1(1))
    moreover have "tq_partition_id (p_partition p) = f_partition_id r"
      using assms(2) p by (simp add: inbox_inv_def partitions_inv_def)
    ultimately show ?thesis using ensure_batches_active [OF ib1(2), of "f_partition_id r"] by (metis imageI)
  qed (simp add: ensure_batches_active [OF ib1(2)])
  moreover have "\<not> (f_state r = Leased \<and> sql_lt (f_lease_until r) now)"
    using r by (auto simp: ib1(1) release_facts_def set_update_where)
  ultimately show ?thesis by simp
qed

lemma ensure_batch_completed:
  assumes "ensure_batch cfg uuid q now immediate ib = Inr (bid, ib')"
    "\<exists>b\<in>set (ib_batches ib). b_batch_id b = x \<and> b_status b = Completed"
  shows "\<exists>b\<in>set (ib_batches ib'). b_batch_id b = x \<and> b_status b = Completed"
  using assms(1)
proof (cases rule: ensure_batch_cases)
  case (present b)
  have "\<exists>b\<in>set (flag_rerun bid (ib_batches ib)). b_batch_id b = x \<and> b_status b = Completed"
    using assms(2) by (auto simp: flag_rerun_def bex_update_where)
  then show ?thesis using present(5) assms(2) by auto
next
  case fresh
  then show ?thesis using assms(2) by auto
qed

lemma settle_facts_eq:
  assumes "set delivered \<subseteq> set (expected env)"
  shows "settle_facts env delivered now fs =
    map (\<lambda>r. if f_state r = Leased \<and> f_lease_owner r = Some (we_worker_id env) \<and> f_work_id r \<in> set (expected env)
            then if f_work_id r \<in> set delivered
              then r\<lparr>f_state := Delivered, f_lease_owner := None, f_lease_until := None,
                     f_delivered_batch_id := Some (we_batch_id env), f_delivered_at := Some now\<rparr>
              else r\<lparr>f_state := Pending, f_lease_owner := None, f_lease_until := None\<rparr>
            else r) fs"
  unfolding settle_facts_def update_where_def map_map o_def
proof (rule map_cong [OF refl], goal_cases)
  case (1 r)
  then show ?case
  proof (cases "f_state r = Leased \<and> f_lease_owner r = Some (we_worker_id env)")
    case True
    then show ?thesis
      by (cases "f_work_id r \<in> set delivered"; cases "f_work_id r \<in> set (expected env)") (use assms in \<open>simp_all add: subset_iff\<close>)
  qed auto
qed

text \<open>Every active batch of a partition can be claimed at \<open>now\<close>.\<close>

definition due_in :: "pystr \<Rightarrow> timestamp \<Rightarrow> inbox \<Rightarrow> bool" where
  "due_in pid now ib \<longleftrightarrow> (\<forall>b\<in>set (ib_batches ib). b_partition_id b = pid \<and> active b
     \<longrightarrow> b_status b = Scheduled \<and> b_not_before b \<le> now)"

lemma ensure_batch_due:
  assumes "ensure_batch cfg uuid q now True ib = Inr (bid, ib')" "due_in pid now ib"
  shows "due_in pid now ib'"
  using assms(1)
proof (cases rule: ensure_batch_cases)
  case (present b)
  have "due_in pid now (ib\<lparr>ib_batches := flag_rerun bid (ib_batches ib)\<rparr>)"
    using assms(2) by (simp add: due_in_def flag_rerun_def ball_update_where active_def)
  then show ?thesis using present(5) assms(2) by blast
next
  case fresh
  then show ?thesis using assms(2) by (auto simp: due_in_def new_batch_def)
qed

lemma ensure_batches_due:
  "ensure_batches cfg uuids n now ps ib = Inr ib' \<Longrightarrow> due_in pid now ib \<Longrightarrow> due_in pid now ib'"
  by (induction ps arbitrary: n ib) (auto split: sum.splits dest: ensure_batch_due)

lemma release_batches_due:
  assumes "\<forall>b\<in>set bs. b_partition_id b = pid \<longrightarrow> (b_status b = Scheduled \<longrightarrow> b_not_before b \<le> now)
     \<and> (b_status b = BatchLeased \<longrightarrow> sql_lt (b_lease_until b) now)"
  shows "\<forall>b\<in>set (release_batches now bs). b_partition_id b = pid \<and> active b \<longrightarrow> b_status b = Scheduled \<and> b_not_before b \<le> now"
  using assms by (auto simp: release_batches_def ball_update_where active_def)

lemma recover_body_due:
  assumes "recover_body cfg uuids now ib = Inr (counts, ib')"
    "\<forall>b\<in>set (ib_batches ib). b_partition_id b = pid \<longrightarrow> (b_status b = Scheduled \<longrightarrow> b_not_before b \<le> now)
     \<and> (b_status b = BatchLeased \<longrightarrow> sql_lt (b_lease_until b) now)"
  shows "due_in pid now ib'"
  using assms(1)
proof (rule recover_body_cases)
  fix ib1 assume ib1: "ib1 = ib\<lparr>ib_facts := release_facts now (ib_facts ib), ib_batches := release_batches now (ib_batches ib)\<rparr>"
    "ensure_batches cfg uuids 0 now (missing ib1) ib1 = Inr ib'"
  have "due_in pid now ib1" using release_batches_due [OF assms(2)] by (simp add: due_in_def ib1(1))
  then show ?thesis using ensure_batches_due [OF ib1(2)] by simp
qed

lemma released_pending:
  assumes "r \<in> set (ib_facts ib)" "f_state r = Pending \<or> (f_state r = Leased \<and> sql_lt (f_lease_until r) now)"
    "recover_body cfg uuids now ib = Inr (counts, ib')"
  shows "\<exists>r'\<in>set (ib_facts ib'). f_partition_id r' = f_partition_id r \<and> f_state r' = Pending"
  using assms(3)
proof (rule recover_body_cases)
  fix ib1 assume ib1: "ib1 = ib\<lparr>ib_facts := release_facts now (ib_facts ib), ib_batches := release_batches now (ib_batches ib)\<rparr>"
    "ensure_batches cfg uuids 0 now (missing ib1) ib1 = Inr ib'"
  have f: "ib_facts ib' = release_facts now (ib_facts ib)" using ensure_batches_rest [OF ib1(2)] by (simp add: ib1(1))
  show ?thesis unfolding f release_facts_def bex_update_where
    by (rule bexI [OF _ assms(1)]) (use assms(2) in auto)
qed

section \<open>Tenants\<close>

text \<open>
  What the inbox relies on the authority for: the partition answered for a fact carries the fact's
  tenant, and a partition id belongs to one tenant.
\<close>

definition tenants_ok :: "(pystr \<Rightarrow> pystr) \<Rightarrow> inbox \<Rightarrow> bool" where
  "tenants_ok owner ib \<longleftrightarrow> (\<forall>(wid, tenant, pid)\<in>identity ` set (ib_facts ib). tenant = owner pid)
     \<and> (\<forall>p\<in>set (ib_partitions ib). p_tenant_id p = owner (p_partition_id p))"

locale attested_tenants =
  fixes resolves :: "work_fact \<Rightarrow> trusted_partition \<Rightarrow> bool" and owner :: "pystr \<Rightarrow> pystr"
  assumes tenant: "resolves f q \<Longrightarrow> tq_tenant_id q = wf_tenant_id f"
    and owned: "resolves f q \<Longrightarrow> owner (tq_partition_id q) = tq_tenant_id q"
begin

lemma ingest_tenants:
  assumes "resolves f q" "tenants_ok owner ib"
  shows "tenants_ok owner (snd (transaction (ingest_body H cfg uuid now f q) ib))"
proof (cases "ingest_body H cfg uuid now f q ib")
  case (Inl e)
  then show ?thesis using assms(2) by (simp add: snd_transaction)
next
  case (Inr x)
  obtain d w q' ib' where x: "ingest_body H cfg uuid now f q ib = Inr ((d, w, q'), ib')"
    using Inr by (metis prod.collapse)
  then have "tenants_ok owner ib'"
  proof (cases rule: ingest_body_cases)
    case (fresh bid)
    have "wf_tenant_id f = owner (tq_partition_id q)" "tq_tenant_id q = owner (tq_partition_id q)"
      using tenant [OF assms(1)] owned [OF assms(1)] by simp_all
    then have "identity (new_fact H f q) = (work_id H f, owner (tq_partition_id q), tq_partition_id q)"
      "\<forall>p\<in>set (insert_or_ignore_partition q (ib_partitions ib)). p_tenant_id p = owner (p_partition_id p)"
      using assms(2) by (auto simp: identity_def new_fact_def tenants_ok_def insert_or_ignore_partition_def insert_row_def)
    then show ?thesis using ensure_batch_rest [OF fresh(6)] assms(2) by (simp add: tenants_ok_def)
  qed (use assms in simp)
  then show ?thesis using x by (simp add: snd_transaction)
qed

end

text \<open>The authority provides it, for the bindings whose partition id belongs to their tenant.\<close>

definition resolves_to :: "(pystr \<Rightarrow> pystr) \<Rightarrow> (pystr \<Rightarrow> pystr) \<Rightarrow> work_fact \<Rightarrow> trusted_partition \<Rightarrow> bool" where
  "resolves_to H owner f q \<longleftrightarrow> (\<exists>b. check_binding H f b = None \<and> q = partition_of H b
     \<and> owner (tq_partition_id (partition_of H b)) = tb_tenant_id b)"

interpretation tenants: attested_tenants "resolves_to H owner" owner for H owner
  by unfold_locales (auto simp: resolves_to_def partition_of_def dest: check_binding_ok)

definition owners_ok :: "(pystr \<Rightarrow> pystr) \<Rightarrow> (pystr \<Rightarrow> pystr) \<Rightarrow> trusted_work_binding \<Rightarrow> bool" where
  "owners_ok H owner b \<longleftrightarrow> owner (tq_partition_id (partition_of H b)) = tb_tenant_id b"

fun attests_owned :: "(pystr \<Rightarrow> pystr) \<Rightarrow> (pystr \<Rightarrow> pystr) \<Rightarrow> inbox_cmd \<Rightarrow> bool" where
  "attests_owned H owner (Authority (Attest f b now)) \<longleftrightarrow> owners_ok H owner b"
| "attests_owned H owner _ \<longleftrightarrow> True"

definition isolated :: "(pystr \<Rightarrow> pystr) \<Rightarrow> (pystr \<Rightarrow> pystr) \<Rightarrow> authority \<times> inbox \<Rightarrow> bool" where
  "isolated H owner s \<longleftrightarrow> (\<forall>wid b. bound (fst s) wid = Some b \<longrightarrow> owners_ok H owner b) \<and> tenants_ok owner (snd s)"

lemma reopen_bound_subset:
  assumes "authority_inv st" "bound (reopen st) wid = Some b"
  shows "bound st wid = Some b"
proof -
  obtain t where t: "au_durable st" "map_of (au_table st) wid = Some (b, t)"
    using assms(2) by (auto simp: bound_eq reopen_def split: if_splits)
  then show ?thesis using assms(1) by (fastforce simp: bound_eq authority_inv_def split: option.split)
qed

lemma authority_step_bound_subset:
  "authority_inv st \<Longrightarrow> (\<And>f b now. a \<noteq> Attest f b now) \<Longrightarrow> bound (authority_step H a st) wid = Some b \<Longrightarrow> bound st wid = Some b"
  by (cases a) (auto simp: snd_partition_for binding_for_state reopen_bound_subset)

lemma same_facts_tenants: "same_facts ib ib' \<Longrightarrow> tenants_ok owner ib' = tenants_ok owner ib"
  by (simp add: same_facts_def tenants_ok_def)

lemma step_isolated:
  assumes inv: "system_inv s" and a: "attests_owned H owner c" and iso: "isolated H owner s"
  shows "isolated H owner (inbox_step H cfg c s)"
proof -
  have au: "authority_inv (fst s)" using inv by (simp add: system_inv_def)
  have old: "owners_ok H owner b" if "bound (fst s) wid = Some b" for wid b using iso that by (auto simp: isolated_def)
  consider (ing) uuid clock now f where "c = Ingest uuid clock now f"
    | (att) f b now where "c = Authority (Attest f b now)"
    | (other) "\<And>uuid clock now f. c \<noteq> Ingest uuid clock now f" "\<And>f b now. c \<noteq> Authority (Attest f b now)"
    by blast
  then show ?thesis
  proof cases
    case ing
    have t: "tenants_ok owner (snd (transaction (ingest_body H cfg uuid now f q) (snd s)))"
      if q: "fst (partition_for H clock f (fst s)) = Inr q" for q
    proof -
      obtain b where b: "fst (binding_for H clock f (fst s)) = Inr b" "q = partition_of H b"
        using q by (auto simp: partition_for_def case_prod_unfold split: sum.splits)
      then have "resolves_to H owner f q"
        using binding_for_ok [OF au b(1)] old by (auto simp: resolves_to_def owners_ok_def)
      then show ?thesis using iso by (intro tenants.ingest_tenants) (auto simp: isolated_def)
    qed
    then show ?thesis using iso old
      by (auto simp: ing isolated_def snd_ingest snd_partition_for binding_for_state [OF au] split: sum.split)
  next
    case att
    have "owners_ok H owner x" if "bound (snd (attest H now f b (fst s))) wid = Some x" for wid x
      using that a old att unfolding attest_bound [OF au] by (auto split: if_splits)
    then show ?thesis using iso att by (cases s) (auto simp: isolated_def)
  next
    case other
    have "tenants_ok owner (snd (inbox_step H cfg c s))"
      using same_facts_tenants [OF step_same [OF inv other(1)]] iso by (simp add: isolated_def)
    moreover have "bound (fst s) wid = Some b" if b: "bound (fst (inbox_step H cfg c s)) wid = Some b" for wid b
    proof (cases "\<exists>a. c = Authority a")
      case True
      then obtain a where a: "c = Authority a" by blast
      show ?thesis using b other(2) authority_step_bound_subset [OF au, of a H wid b] by (cases s) (auto simp: a)
    next
      case False
      then have "fst (inbox_step H cfg c s) = fst s" using other(1) by (cases s; cases c) auto
      then show ?thesis using b by simp
    qed
    ultimately show ?thesis using old by (auto simp: isolated_def)
  qed
qed

interpretation isolation: final_machine "inbox_step H cfg" system_inv "\<lambda>_. isolated H owner" "\<lambda>_. attests_owned H owner"
  for H cfg owner
  by unfold_locales (rule step_isolated)

section \<open>A sample run\<close>

definition sample_cfg :: inbox_cfg where
  "sample_cfg = \<lparr>cfg_debounce = 5/2, cfg_lease = 30\<rparr>"

definition sample_partition :: trusted_partition where
  "sample_partition = partition_of (\<lambda>s. s) (sample_binding (\<lambda>s. s) (lit ''s1''))"

definition sample_row :: fact_row where
  "sample_row = new_fact (\<lambda>s. s) sample_fact sample_partition"

definition sample_batch :: batch_row where
  "sample_batch = new_batch sample_cfg (lit ''u1'') sample_partition 5 False"

definition sample_authority :: authority where
  "sample_authority = \<lparr>au_durable = True,
     au_bindings = [(work_id (\<lambda>s. s) sample_fact, sample_binding (\<lambda>s. s) (lit ''s1''))],
     au_table = [(work_id (\<lambda>s. s) sample_fact, sample_binding (\<lambda>s. s) (lit ''s1''), 5)]\<rparr>"

definition sample_inbox :: "fact_row \<Rightarrow> batch_row \<Rightarrow> inbox" where
  "sample_inbox r b = \<lparr>ib_facts = [r], ib_batches = [b], ib_partitions =
     [\<lparr>p_partition_id = tq_partition_id sample_partition, p_tenant_id = tq_tenant_id sample_partition, p_partition = sample_partition\<rparr>]\<rparr>"

definition sample_env :: work_envelope where
  "sample_env = \<lparr>we_batch_id = b_batch_id sample_batch, we_partition = sample_partition, we_worker_id = lit ''w1'',
     we_lease_until = 40, we_facts = [envelope_fact_of sample_row]\<rparr>"

lemma sample_attest: "fold (inbox_step (\<lambda>s. s) sample_cfg) [Authority (Attest sample_fact (sample_binding (\<lambda>s. s) (lit ''s1'')) 5)] new_system
    = (sample_authority, snd new_system)"
  by (simp add: new_system_def sample_attested sample_authority_def)

lemma sample_partition_for: "partition_for (\<lambda>s. s) 5 sample_fact sample_authority = (Inr sample_partition, sample_authority)"
proof -
  have "validate_fact sample_fact = None"
    using sample_checked by (auto simp: check_binding_def split: option.splits)
  then show ?thesis
    by (simp add: partition_for_def binding_for_def stored_binding_def sample_authority_def attest_def Let_def sample_partition_def sample_checked)
qed

lemma sample_ingest: "ingest (\<lambda>s. s) sample_cfg (lit ''u1'') 5 5 sample_fact (sample_authority, snd new_system)
    = (Inr (False, work_id (\<lambda>s. s) sample_fact, sample_partition), (sample_authority, sample_inbox sample_row sample_batch))"
  by (simp add: ingest_def sample_partition_for transaction_def ingest_body_def Let_def new_system_def insert_row_def ensure_batch_def
      insert_or_ignore_partition_def sample_inbox_def sample_row_def [symmetric] sample_batch_def [symmetric])

lemma sample_states: "f_state sample_row = Pending" "f_partition_id sample_row = tq_partition_id sample_partition"
    "b_status sample_batch = Scheduled" "b_partition_id sample_batch = tq_partition_id sample_partition"
    "b_not_before sample_batch = 15/2"
  by (simp_all add: sample_row_def new_fact_def sample_batch_def new_batch_def sample_cfg_def)

lemma sample_claim: "claim_work sample_cfg uuids (lit ''w1'') 10 10 (sample_inbox sample_row sample_batch)
   = (Inr (Some sample_env), sample_inbox
       (sample_row\<lparr>f_state := Leased, f_lease_owner := Some (lit ''w1''), f_lease_until := Some 40\<rparr>)
       (sample_batch\<lparr>b_status := BatchLeased, b_lease_owner := Some (lit ''w1''), b_lease_until := Some 40\<rparr>))"
proof -
  have "recover_inbox sample_cfg uuids 10 (sample_inbox sample_row sample_batch) = (Inr (0, 0, 0), sample_inbox sample_row sample_batch)"
    by (simp add: recover_inbox_def transaction_def recover_body_def Let_def sample_inbox_def release_facts_def release_batches_def
        update_where_def sample_states missing_def active_in_def active_def rowcount_def)
  then show ?thesis
    by (simp add: claim_work_def blank_lit is_space_def claim_batch_def ready_batches_def ready_facts_def sample_inbox_def sample_states
        Let_def rowcount_def update_where_def sample_env_def sample_cfg_def)
qed

section \<open>Properties\<close>

text \<open>
  C22: A delivered work fact is final. Whatever the coordinator, stale workers, forged envelopes, lease
  expiries and re-ingestions do afterwards, in any order, its row never changes, and no later claim
  hands the fact out again.
\<close>

theorem delivered_work_is_final:
  assumes "r \<in> set (ib_facts (snd (fold (inbox_step H cfg) before new_system)))" "f_state r = Delivered"
  shows "let s = fold (inbox_step H cfg) later (fold (inbox_step H cfg) before new_system) in
    r \<in> set (ib_facts (snd s)) \<and>
    (\<forall>uuids worker now m env ib'. claim_work cfg uuids worker now m (snd s) = (Inr (Some env), ib')
      \<longrightarrow> f_work_id r \<notin> set (expected env))"
proof -
  let ?s0 = "fold (inbox_step H cfg) before new_system"
  let ?fin = "fold (inbox_step H cfg) later ?s0"
  have i0: "system_inv ?s0" by (rule system_reachable_inv)
  have "delivered_fact r ?fin"
    using settled.run_final [OF i0, of later r] assms by (simp add: delivered_fact_def)
  then have r: "r \<in> set (ib_facts (snd ?fin))" by (simp add: delivered_fact_def)
  have "inbox_inv (snd ?fin)" using inbox.run_inv [OF i0, of H cfg later] by (simp add: system_inv_def)
  then show ?thesis using r assms(2) claimed_was_pending by (auto simp: Let_def)
qed

lemma sample_acknowledge: "acknowledge sample_cfg uuid sample_env [f_work_id sample_row] 20 (sample_inbox
       (sample_row\<lparr>f_state := Leased, f_lease_owner := Some (lit ''w1''), f_lease_until := Some 40\<rparr>)
       (sample_batch\<lparr>b_status := BatchLeased, b_lease_owner := Some (lit ''w1''), b_lease_until := Some 40\<rparr>))
   = (Inr \<lparr>wa_batch_id = b_batch_id sample_batch, wa_delivered_count = 1, wa_returned_to_pending_count = 0, wa_pending_rerun_batch_id = None\<rparr>,
      sample_inbox
       (sample_row\<lparr>f_state := Delivered, f_lease_owner := None, f_lease_until := None,
          f_delivered_batch_id := Some (b_batch_id sample_batch), f_delivered_at := Some 20\<rparr>)
       (sample_batch\<lparr>b_status := Completed, b_lease_owner := None, b_lease_until := None, b_completed_at := Some 20\<rparr>))"
  by (simp add: acknowledge_def expected_def sample_env_def envelope_fact_of_def transaction_def acknowledge_body_def
      sample_inbox_def str_owner_def Let_def settle_facts_def complete_batch_def update_where_def rowcount_def)

definition sample_history :: "inbox_cmd list" where
  "sample_history = [Authority (Attest sample_fact (sample_binding (\<lambda>s. s) (lit ''s1'')) 5), Ingest (lit ''u1'') 5 5 sample_fact,
     Claim (\<lambda>n. digits n) (lit ''w1'') 10 10, Acknowledge (lit ''u2'') sample_env [f_work_id sample_row] 20]"

definition sample_delivered :: fact_row where
  "sample_delivered = sample_row\<lparr>f_state := Delivered, f_lease_owner := None, f_lease_until := None,
     f_delivered_batch_id := Some (b_batch_id sample_batch), f_delivered_at := Some 20\<rparr>"

lemma delivered_work_is_final_witness:
  "\<not> (\<exists>env r. f_work_id sample_delivered \<in> set (expected env) \<and>
   claim_work sample_cfg (\<lambda>n. digits n) (lit ''w2'') 99 5
      (snd (fold (inbox_step (\<lambda>s. s) sample_cfg) [Ingest (lit ''u3'') 50 50 sample_fact]
        (fold (inbox_step (\<lambda>s. s) sample_cfg) sample_history new_system))) = (Inr (Some env), r))"
proof -
  have "fold (inbox_step (\<lambda>s. s) sample_cfg) sample_history new_system = (sample_authority, sample_inbox sample_delivered
       (sample_batch\<lparr>b_status := Completed, b_lease_owner := None, b_lease_until := None, b_completed_at := Some 20\<rparr>))"
    using sample_attest by (simp add: sample_history_def sample_delivered_def sample_ingest sample_claim sample_acknowledge)
  then have "sample_delivered \<in> set (ib_facts (snd (fold (inbox_step (\<lambda>s. s) sample_cfg) sample_history new_system)))"
    by (simp add: sample_inbox_def)
  moreover have "f_state sample_delivered = Delivered" by (simp add: sample_delivered_def)
  ultimately show ?thesis
    using delivered_work_is_final [of sample_delivered "\<lambda>s. s" sample_cfg sample_history "[Ingest (lit ''u3'') 50 50 sample_fact]"]
    unfolding Let_def by blast
qed

text \<open>
  C21: A claim is exclusive for the length of its lease. While the lease runs, no sequence of
  recoveries, claims, ingestions, restarts, and acknowledgements or renewals by other workers frees a
  claimed fact, and no claim by anyone receives it.
\<close>

theorem claimed_work_is_exclusive:
  assumes "claim_work cfg uuids w now m (snd (fold (inbox_step H cfg) before new_system)) = (Inr (Some env), ib1)"
    and "\<forall>c\<in>set others. within_lease w (we_lease_until env) c"
    and "now2 \<le> we_lease_until env"
    and "claim_work cfg uuids2 w2 now2 m2 (snd (fold (inbox_step H cfg) others (fst (fold (inbox_step H cfg) before new_system), ib1)))
      = (Inr (Some env2), ib2)"
  shows "set (expected env) \<inter> set (expected env2) = {}"
proof -
  let ?s0 = "fold (inbox_step H cfg) before new_system"
  let ?s1 = "(fst ?s0, ib1)"
  let ?s2 = "fold (inbox_step H cfg) others ?s1"
  have i0: "system_inv ?s0" by (rule system_reachable_inv)
  have i1: "system_inv ?s1"
    using i0 claim_work_inv [of "snd ?s0" cfg uuids w now m] assms(1) by (simp add: system_inv_def)
  have i2: "system_inv ?s2" using i1 by (rule inbox.run_inv)
  have leased: "\<exists>r\<in>set (ib_facts ib1). f_work_id r = wid \<and> leased_fact w (we_lease_until env) r"
    if wid: "wid \<in> set (expected env)" for wid
    using _ assms(1)
  proof (rule claim_work_some)
    show "inbox_inv (snd ?s0)" using i0 by (simp add: system_inv_def)
    fix counts ibr b bs p rows
    assume c: "rows = take (nat m) (ready_facts (b_partition_id b) ibr)"
      "env = \<lparr>we_batch_id = b_batch_id b, we_partition = p_partition p, we_worker_id = w,
          we_lease_until = now + cfg_lease cfg, we_facts = map envelope_fact_of rows\<rparr>"
      "ib1 = ibr\<lparr>ib_batches := lease_batch (b_batch_id b) w (now + cfg_lease cfg) (ib_batches ibr),
           ib_facts := lease_facts (f_work_id ` set rows) w (now + cfg_lease cfg) (ib_facts ibr)\<rparr>"
    obtain x where x: "x \<in> set rows" "f_work_id x = wid"
      using wid by (auto simp: c(2) expected_def envelope_fact_of_def)
    then have "x \<in> set (ib_facts ibr)" "f_state x = Pending"
      using set_take_subset [of "nat m" "ready_facts (b_partition_id b) ibr"] c(1) ready_facts_set [of x "b_partition_id b" ibr] by auto
    then show ?thesis using x c(2) by (auto simp: c(3) lease_facts_def bex_update_where leased_fact_def intro!: bexI [of _ x])
  qed
  have "wid \<notin> set (expected env2)" if wid: "wid \<in> set (expected env)" for wid
  proof -
    obtain r where r: "r \<in> set (ib_facts ib1)" "f_work_id r = wid" "leased_fact w (we_lease_until env) r"
      using leased [OF wid] by blast
    have "r \<in> set (ib_facts (snd ?s2))"
      using leases.run_final [OF i1, of others "(w, we_lease_until env, r)" H cfg] assms(2) r by simp
    moreover have "f_state r \<noteq> Pending" "\<not> (f_state r = Leased \<and> sql_lt (f_lease_until r) now2)"
      using r(3) assms(3) by (auto simp: leased_fact_def sql_lt_def)
    ultimately show ?thesis using claimed_was_pending [OF _ assms(4)] i2 r(2) by (auto simp: system_inv_def)
  qed
  then show ?thesis by blast
qed

lemma claimed_work_is_exclusive_witness:
  "\<not> (\<exists>env2 ib2. f_work_id sample_row \<in> set (expected env2) \<and>
    claim_work sample_cfg (\<lambda>n. digits n) (lit ''w2'') 40 5
      (snd (fold (inbox_step (\<lambda>s. s) sample_cfg) [Recover (\<lambda>n. digits n) 39]
        (sample_authority, snd (claim_work sample_cfg (\<lambda>n. digits n) (lit ''w1'') 10 10 (sample_inbox sample_row sample_batch)))))
      = (Inr (Some env2), ib2))"
proof -
  let ?before = "[Authority (Attest sample_fact (sample_binding (\<lambda>s. s) (lit ''s1'')) 5), Ingest (lit ''u1'') 5 5 sample_fact]"
  have b: "fold (inbox_step (\<lambda>s. s) sample_cfg) ?before new_system = (sample_authority, sample_inbox sample_row sample_batch)"
    using sample_attest by (simp add: sample_ingest)
  have "f_work_id sample_row \<in> set (expected sample_env)" "we_lease_until sample_env = 40"
    by (simp_all add: expected_def sample_env_def envelope_fact_of_def)
  moreover have "set (expected sample_env) \<inter> set (expected env2) = {}"
    if "claim_work sample_cfg (\<lambda>n. digits n) (lit ''w2'') 40 5 (snd (fold (inbox_step (\<lambda>s. s) sample_cfg) [Recover (\<lambda>n. digits n) 39]
        (sample_authority, snd (claim_work sample_cfg (\<lambda>n. digits n) (lit ''w1'') 10 10 (sample_inbox sample_row sample_batch)))))
      = (Inr (Some env2), ib2)" for env2 ib2
    by (rule claimed_work_is_exclusive [of sample_cfg "\<lambda>n. digits n" "lit ''w1''" 10 10 "\<lambda>s. s" ?before sample_env _
        "[Recover (\<lambda>n. digits n) 39]" 40 "\<lambda>n. digits n" "lit ''w2''" 5 env2 ib2])
       (use that in \<open>simp_all only: b fst_conv snd_conv sample_claim calculation list.set within_lease.simps, simp_all add: calculation\<close>)
  ultimately show ?thesis by blast
qed

text \<open>A fact that was accepted is known and bound, and a known and bound fact is a duplicate.\<close>

lemma ingest_accepted:
  assumes "authority_inv (fst s)" "ingest H cfg uuid clock now f s = (Inr (dup, wid, q), s1)"
  shows "\<exists>b. check_binding H f b = None \<and> bound (fst s) (work_id H f) = Some b \<and> q = partition_of H b
    \<and> wid = work_id H f \<and> work_id H f \<in> work_ids (snd s1)"
proof -
  obtain p where p: "fst (partition_for H clock f (fst s)) = Inr p"
    using assms(2) by (cases "fst (partition_for H clock f (fst s))") (auto simp: ingest_def case_prod_unfold)
  then obtain b where b: "fst (binding_for H clock f (fst s)) = Inr b" "p = partition_of H b"
    by (auto simp: partition_for_def case_prod_unfold split: sum.splits)
  have "transaction (ingest_body H cfg uuid now f p) (snd s) = (Inr (dup, wid, q), snd s1)"
    using assms(2) p by (auto simp: ingest_def case_prod_unfold prod_eq_iff)
  then have "ingest_body H cfg uuid now f p (snd s) = Inr ((dup, wid, q), snd s1)" by (simp add: transaction_ok)
  then have "wid = work_id H f \<and> q = p \<and> work_id H f \<in> work_ids (snd s1)"
  proof (cases rule: ingest_body_cases)
    case (fresh bid)
    have "new_fact H f p \<in> set (ib_facts (snd s1))" using ensure_batch_rest [OF fresh(6)] by simp
    moreover have "f_work_id (new_fact H f p) = work_id H f" by (simp add: new_fact_def)
    ultimately show ?thesis using fresh(2,3) unfolding work_ids_def by (metis imageI)
  qed (simp add: work_ids_def)
  then show ?thesis using binding_for_ok [OF assms(1) b(1)] b(2) by blast
qed

lemma ingest_known_fact:
  assumes "authority_inv (fst s)" "check_binding H f b = None" "bound (fst s) (work_id H f) = Some b" "work_id H f \<in> work_ids (snd s)"
  shows "\<exists>au. ingest H cfg uuid clock now f s = (Inr (True, work_id H f, partition_of H b), (au, snd s))"
proof -
  have "fst (binding_for H clock f (fst s)) = Inr b" using assms(1-3) by (rule binding_for_bound)
  then have "fst (partition_for H clock f (fst s)) = Inr (partition_of H b)" by (simp add: partition_for_def case_prod_unfold)
  then show ?thesis using assms(4)
    by (auto simp: ingest_def case_prod_unfold transaction_def ingest_body_def work_ids_def split: sum.split)
qed

text \<open>
  Ingestion is idempotent for good. Once a fact was accepted, a later delivery of the same fact,
  after any number of other operations, restarts and even its completion, answers that it is a
  duplicate in the very same partition and leaves the inbox exactly as it was.
\<close>

theorem ingest_is_idempotent:
  assumes "ingest H cfg uuid clock now f (fold (inbox_step H cfg) before new_system) = (Inr (dup, wid, q), s1)"
  shows "let s2 = fold (inbox_step H cfg) later s1 in
    \<exists>au. ingest H cfg uuid2 clock2 now2 f s2 = (Inr (True, wid, q), (au, snd s2))"
proof -
  let ?s0 = "fold (inbox_step H cfg) before new_system" and ?s2 = "fold (inbox_step H cfg) later s1"
  have i0: "system_inv ?s0" by (rule system_reachable_inv)
  have s1: "s1 = inbox_step H cfg (Ingest uuid clock now f) ?s0" using assms by simp
  obtain b where b: "check_binding H f b = None" "bound (fst ?s0) (work_id H f) = Some b" "q = partition_of H b"
      "wid = work_id H f" "work_id H f \<in> work_ids (snd s1)"
    using ingest_accepted [OF _ assms] i0 by (auto simp: system_inv_def)
  have i1: "system_inv s1" unfolding s1 using i0 by (rule inbox_step_inv)
  have "au_durable (fst s1) \<and> bound (fst s1) (work_id H f) = Some b"
    unfolding s1 using i0 reachable_durable b(2) by (intro step_bound) auto
  then have k: "bound (fst ?s2) (work_id H f) = Some b \<and> work_id H f \<in> work_ids (snd ?s2)"
    using known.run_final [OF i1, of later "(work_id H f, b)" H cfg] b(5) by simp
  have "authority_inv (fst ?s2)" using inbox.run_inv [OF i1, of H cfg later] by (simp add: system_inv_def)
  then show ?thesis using ingest_known_fact [of ?s2 H f b] k b(1,3,4) by (auto simp: Let_def)
qed

lemma ingest_is_idempotent_witness:
  "\<exists>au. ingest (\<lambda>s. s) sample_cfg (lit ''u9'') 77 77 sample_fact
      (fold (inbox_step (\<lambda>s. s) sample_cfg) [Claim (\<lambda>n. digits n) (lit ''w1'') 10 10, Authority Reopen]
        (sample_authority, sample_inbox sample_row sample_batch))
    = (Inr (True, work_id (\<lambda>s. s) sample_fact, sample_partition),
       (au, snd (fold (inbox_step (\<lambda>s. s) sample_cfg) [Claim (\<lambda>n. digits n) (lit ''w1'') 10 10, Authority Reopen]
        (sample_authority, sample_inbox sample_row sample_batch))))"
proof -
  have "ingest (\<lambda>s. s) sample_cfg (lit ''u1'') 5 5 sample_fact
      (fold (inbox_step (\<lambda>s. s) sample_cfg) [Authority (Attest sample_fact (sample_binding (\<lambda>s. s) (lit ''s1'')) 5)] new_system)
    = (Inr (False, work_id (\<lambda>s. s) sample_fact, sample_partition), (sample_authority, sample_inbox sample_row sample_batch))"
    unfolding sample_attest by (rule sample_ingest)
  from ingest_is_idempotent [OF this] show ?thesis unfolding Let_def .
qed

text \<open>
  Work is not lost and is served oldest first. Whenever a partition holds a pending or expired
  fact and no running lease or debounce interval covers it, a claim returns an envelope; the batch and
  every fact in it are then leased to the claimer, and a fact of that partition is left pending only
  when the envelope is full and holds nothing younger.
\<close>

theorem pending_work_is_claimed:
  fixes before H cfg
  defines "ib \<equiv> snd (fold (inbox_step H cfg) before new_system)"
  assumes "\<not> blank worker" "1 \<le> m" "fresh_uuids uuids ib"
    and "r \<in> set (ib_facts ib)" "f_state r = Pending \<or> (f_state r = Leased \<and> sql_lt (f_lease_until r) now)"
    and "\<forall>b\<in>set (ib_batches ib). b_partition_id b = f_partition_id r \<longrightarrow>
       (b_status b = Scheduled \<longrightarrow> b_not_before b \<le> now) \<and> (b_status b = BatchLeased \<longrightarrow> sql_lt (b_lease_until b) now)"
  shows "\<exists>env ib'. claim_work cfg uuids worker now m ib = (Inr (Some env), ib')
    \<and> (\<exists>b\<in>set (ib_batches ib'). b_batch_id b = we_batch_id env \<and> b_status b = BatchLeased
         \<and> b_lease_owner b = Some worker \<and> b_lease_until b = Some (now + cfg_lease cfg))
    \<and> (\<forall>x\<in>set (we_facts env). \<exists>y\<in>set (ib_facts ib'). f_work_id y = ef_work_id x \<and> leased_fact worker (now + cfg_lease cfg) y)
    \<and> (\<forall>y\<in>set (ib_facts ib'). f_partition_id y = tq_partition_id (we_partition env) \<and> f_state y = Pending \<longrightarrow>
         length (we_facts env) = nat m \<and> (\<forall>x\<in>set (we_facts env). (ef_created_at x, ef_work_id x) \<le> (f_created_at y, f_work_id y)))"
proof -
  have inv: "inbox_inv ib" using system_reachable_inv [of H cfg before] by (simp add: system_inv_def ib_def)
  obtain counts ib1 where rec: "recover_body cfg uuids now ib = Inr (counts, ib1)"
    using recover_body_total [OF assms(4)] by blast
  have i1: "inbox_inv ib1" using rec inv by (rule recover_body_inv)
  have "ready_batches now ib1 \<noteq> []"
  proof -
    obtain r' where r': "r' \<in> set (ib_facts ib1)" "f_partition_id r' = f_partition_id r" "f_state r' = Pending"
      using released_pending [OF assms(5,6) rec] by blast
    then have "active_in (f_partition_id r) ib1" using recover_body_wakes [OF rec inv r'(1)] by simp
    moreover have "due_in (f_partition_id r) now ib1"
      using rec assms(7) by (rule recover_body_due)
    ultimately obtain b where "b \<in> set (ready_batches now ib1)"
      by (auto simp: active_in_def due_in_def ready_batches_set)
    then show ?thesis by auto
  qed
  then obtain b bs where b: "ready_batches now ib1 = b # bs" by (cases "ready_batches now ib1") auto
  let ?until = "now + cfg_lease cfg"
  define rows where "rows = take (nat m) (ready_facts (b_partition_id b) ib1)"
  obtain p where p: "p \<in> set (ib_partitions ib1)" "p_partition_id p = b_partition_id b"
    and c: "claim_batch cfg worker now (nat m) ib1 =
       (Inr (Some \<lparr>we_batch_id = b_batch_id b, we_partition = p_partition p, we_worker_id = worker,
          we_lease_until = ?until, we_facts = map envelope_fact_of rows\<rparr>),
        ib1\<lparr>ib_batches := lease_batch (b_batch_id b) worker ?until (ib_batches ib1),
           ib_facts := lease_facts (f_work_id ` set rows) worker ?until (ib_facts ib1)\<rparr>)"
    using claim_batch_ready [OF i1 b, of "nat m" cfg worker] unfolding Let_def rows_def by blast
  have tq: "tq_partition_id (p_partition p) = b_partition_id b" using i1 p by (simp add: inbox_inv_def partitions_inv_def)
  have rows: "x \<in> set (ib_facts ib1) \<and> f_state x = Pending" if "x \<in> set rows" for x
    using that ready_facts_set [of x "b_partition_id b" ib1] by (auto simp: rows_def dest: in_set_takeD)
  have bb: "\<exists>x\<in>set (lease_batch (b_batch_id b) worker ?until (ib_batches ib1)). b_batch_id x = b_batch_id b \<and> b_status x = BatchLeased
         \<and> b_lease_owner x = Some worker \<and> b_lease_until x = Some ?until"
    using ready_batches_set [of b now ib1] b by (auto simp: lease_batch_def bex_update_where intro!: bexI [of _ b])
  have ff: "\<exists>y\<in>set (lease_facts (f_work_id ` set rows) worker ?until (ib_facts ib1)). f_work_id y = f_work_id x \<and> leased_fact worker ?until y"
    if "x \<in> set rows" for x
    using rows [OF that] that by (auto simp: lease_facts_def bex_update_where leased_fact_def intro!: bexI [of _ x])
  have left: "length rows = nat m \<and> (\<forall>x\<in>set rows. (f_created_at x, f_work_id x) \<le> (f_created_at y, f_work_id y))"
    if y: "y \<in> set (lease_facts (f_work_id ` set rows) worker ?until (ib_facts ib1))" "f_partition_id y = b_partition_id b" "f_state y = Pending" for y
  proof -
    obtain z where "z \<in> set (ib_facts ib1)" "y = (if f_work_id z \<in> f_work_id ` set rows \<and> f_state z = Pending
        then z\<lparr>f_state := Leased, f_lease_owner := Some worker, f_lease_until := Some ?until\<rparr> else z)"
      using y(1) by (auto simp: lease_facts_def set_update_where)
    then have "y \<in> set (ib_facts ib1)" "y \<notin> set rows" using y(3) by (auto split: if_splits)
    then have "y \<in> set (ready_facts (b_partition_id b) ib1)" using y by (simp add: ready_facts_set)
    from take_sort_key [OF this [unfolded ready_facts_def], of "nat m"] show ?thesis
      using \<open>y \<notin> set rows\<close> unfolding rows_def ready_facts_def by simp
  qed
  have cw: "claim_work cfg uuids worker now m ib = claim_batch cfg worker now (nat m) ib1"
    using assms(2,3) rec by (simp add: claim_work_def recover_inbox_def transaction_def)
  have e: "ef_work_id (envelope_fact_of x) = f_work_id x" "ef_created_at (envelope_fact_of x) = f_created_at x" for x
    by (simp_all add: envelope_fact_of_def)
  have sel: "ib_batches (ib1\<lparr>ib_batches := bs1, ib_facts := fs1\<rparr>) = bs1" "ib_facts (ib1\<lparr>ib_batches := bs1, ib_facts := fs1\<rparr>) = fs1" for bs1 fs1
    by simp_all
  show ?thesis unfolding cw c
    by (intro exI conjI, rule refl, unfold sel work_envelope.select_convs tq set_map ball_simps length_map e)
      (use bb ff left in blast)+
qed

lemma sample_fresh: "fresh_uuids (\<lambda>n. [n + 300]) (sample_inbox r sample_batch)"
  by (auto simp: fresh_uuids_def inj_def batch_ids_def sample_inbox_def sample_batch_def new_batch_def lit_def)

lemma pending_work_is_claimed_witness:
  "\<exists>env ib'. claim_work sample_cfg (\<lambda>n. [n + 300]) (lit ''w1'') 10 3 (sample_inbox sample_row sample_batch) = (Inr (Some env), ib')"
proof -
  let ?before = "[Authority (Attest sample_fact (sample_binding (\<lambda>s. s) (lit ''s1'')) 5), Ingest (lit ''u1'') 5 5 sample_fact]"
  have b: "snd (fold (inbox_step (\<lambda>s. s) sample_cfg) ?before new_system) = sample_inbox sample_row sample_batch"
    using sample_attest by (simp add: sample_ingest)
  have "\<not> blank (lit ''w1'')" by (simp add: blank_lit is_space_def)
  moreover have "sample_row \<in> set (ib_facts (sample_inbox sample_row sample_batch))"
    "\<forall>b\<in>set (ib_batches (sample_inbox sample_row sample_batch)). b_partition_id b = f_partition_id sample_row \<longrightarrow>
       (b_status b = Scheduled \<longrightarrow> b_not_before b \<le> 10) \<and> (b_status b = BatchLeased \<longrightarrow> sql_lt (b_lease_until b) 10)"
    by (simp_all add: sample_inbox_def sample_states)
  ultimately show ?thesis
    using pending_work_is_claimed [of "lit ''w1''" 3 "\<lambda>n. [n + 300]" "\<lambda>s. s" sample_cfg ?before sample_row 10]
    unfolding b by (simp add: sample_fresh sample_states) blast
qed

text \<open>
  Tenant isolation. When the partition id of every binding that adapters attest belongs to the
  binding's tenant (the truncated digest does not collide across tenants), then after any run of the
  system every fact in a claimed envelope is in the envelope's partition and of its tenant.
\<close>

theorem envelope_serves_one_tenant:
  assumes "\<forall>c\<in>set cs. attests_owned H owner c"
    and "claim_work cfg uuids worker now m (snd (fold (inbox_step H cfg) cs new_system)) = (Inr (Some env), ib')"
  shows "\<forall>x\<in>set (we_facts env). ef_partition_id x = tq_partition_id (we_partition env)
    \<and> ef_tenant_id x = tq_tenant_id (we_partition env)"
proof -
  let ?st = "fold (inbox_step H cfg) cs new_system"
  have "isolated H owner new_system"
    by (simp add: new_system_def isolated_def bound_eq new_authority_def tenants_ok_def)
  then have iso: "isolated H owner ?st"
    using isolation.run_final [OF new_system_inv, of cs] assms(1) by simp
  have inv: "inbox_inv (snd ?st)" using system_reachable_inv [of H cfg cs] by (simp add: system_inv_def)
  from inv assms(2) show ?thesis
  proof (rule claim_work_some)
    fix counts ib1 b bs p rows
    assume c: "recover_body cfg uuids now (snd ?st) = Inr (counts, ib1)" "inbox_inv ib1"
      "rows = take (nat m) (ready_facts (b_partition_id b) ib1)"
      "p \<in> set (ib_partitions ib1)" "p_partition_id p = b_partition_id b"
      "env = \<lparr>we_batch_id = b_batch_id b, we_partition = p_partition p, we_worker_id = worker,
          we_lease_until = now + cfg_lease cfg, we_facts = map envelope_fact_of rows\<rparr>"
    have ok: "tenants_ok owner ib1"
      using iso same_facts_tenants [OF recover_body_same [OF c(1)]] by (simp add: isolated_def)
    have p: "tq_partition_id (p_partition p) = b_partition_id b" "tq_tenant_id (p_partition p) = owner (b_partition_id b)"
      using c(2,4,5) ok by (simp_all add: inbox_inv_def partitions_inv_def tenants_ok_def)
    have "f_partition_id r = b_partition_id b \<and> f_tenant_id r = owner (b_partition_id b)" if "r \<in> set rows" for r
    proof -
      have "r \<in> set (ib_facts ib1)" "f_partition_id r = b_partition_id b"
        using that ready_facts_set [of r "b_partition_id b" ib1] by (auto simp: c(3) dest: in_set_takeD)
      then show ?thesis using ok by (auto simp: tenants_ok_def identity_def)
    qed
    then show ?thesis using p by (simp add: c(6) envelope_fact_of_def)
  qed
qed

lemma envelope_serves_one_tenant_witness:
  "ef_tenant_id (envelope_fact_of sample_row) = tq_tenant_id (we_partition sample_env)"
proof -
  let ?cs = "[Authority (Attest sample_fact (sample_binding (\<lambda>s. s) (lit ''s1'')) 5), Ingest (lit ''u1'') 5 5 sample_fact]"
  have b: "snd (fold (inbox_step (\<lambda>s. s) sample_cfg) ?cs new_system) = sample_inbox sample_row sample_batch"
    using sample_attest by (simp add: sample_ingest)
  have "\<forall>c\<in>set ?cs. attests_owned (\<lambda>s. s) (\<lambda>pid. lit ''t1'') c"
    by (simp add: owners_ok_def sample_binding_def)
  moreover have "claim_work sample_cfg (\<lambda>n. digits n) (lit ''w1'') 10 10 (snd (fold (inbox_step (\<lambda>s. s) sample_cfg) ?cs new_system))
      = (Inr (Some sample_env), snd (claim_work sample_cfg (\<lambda>n. digits n) (lit ''w1'') 10 10 (sample_inbox sample_row sample_batch)))"
    unfolding b by (simp add: sample_claim)
  ultimately have "\<forall>x\<in>set (we_facts sample_env). ef_partition_id x = tq_partition_id (we_partition sample_env)
    \<and> ef_tenant_id x = tq_tenant_id (we_partition sample_env)" by (rule envelope_serves_one_tenant)
  then show ?thesis by (simp add: sample_env_def)
qed

text \<open>
  An acknowledgement either fails and changes nothing, or was made by the worker that holds the
  batch: then exactly the acknowledged facts leased to that worker become delivered, its other facts of
  the envelope return to pending, every other fact is untouched, the batch is completed, and no pending
  fact of the partition is left without an active batch.
\<close>

theorem acknowledge_settles_exactly:
  fixes before H cfg
  defines "ib \<equiv> snd (fold (inbox_step H cfg) before new_system)"
  shows "case acknowledge cfg uuid env delivered now ib of
      (Inl e, ib') \<Rightarrow> ib' = ib
    | (Inr ack, ib') \<Rightarrow>
        (\<exists>b\<in>set (ib_batches ib). b_batch_id b = we_batch_id env \<and> b_status b = BatchLeased \<and> b_lease_owner b = Some (we_worker_id env))
        \<and> ib_facts ib' = map (\<lambda>r. if f_state r = Leased \<and> f_lease_owner r = Some (we_worker_id env) \<and> f_work_id r \<in> set (expected env)
            then if f_work_id r \<in> set delivered
              then r\<lparr>f_state := Delivered, f_lease_owner := None, f_lease_until := None,
                     f_delivered_batch_id := Some (we_batch_id env), f_delivered_at := Some now\<rparr>
              else r\<lparr>f_state := Pending, f_lease_owner := None, f_lease_until := None\<rparr>
            else r) (ib_facts ib)
        \<and> (\<exists>b\<in>set (ib_batches ib'). b_batch_id b = we_batch_id env \<and> b_status b = Completed)
        \<and> ((\<exists>r\<in>set (ib_facts ib'). f_partition_id r = tq_partition_id (we_partition env) \<and> f_state r = Pending)
            \<longrightarrow> active_in (tq_partition_id (we_partition env)) ib')"
proof (cases "set delivered \<subseteq> set (expected env)")
  case False
  then show ?thesis by (simp add: acknowledge_def)
next
  case sub: True
  have inv: "inbox_inv ib" using system_reachable_inv [of H cfg before] by (simp add: system_inv_def ib_def)
  show ?thesis
  proof (cases "acknowledge_body cfg uuid env delivered now ib")
    case (Inl e)
    then show ?thesis using sub by (simp add: acknowledge_def transaction_def)
  next
    case (Inr x)
    obtain ack ib' where x: "acknowledge_body cfg uuid env delivered now ib = Inr (ack, ib')" using Inr by (cases x) simp
    let ?ib1 = "ib\<lparr>ib_facts := settle_facts env delivered now (ib_facts ib), ib_batches := complete_batch env now (ib_batches ib)\<rparr>"
    let ?pending = "\<exists>r\<in>set (ib_facts ?ib1). f_partition_id r = tq_partition_id (we_partition env) \<and> f_state r = Pending"
    obtain b where b: "b \<in> set (ib_batches ib)" "b_batch_id b = we_batch_id env" "b_status b = BatchLeased"
        "str_owner (b_lease_owner b) = we_worker_id env"
      and r: "if ?pending then \<exists>bid. ensure_batch cfg uuid (we_partition env) now True ?ib1 = Inr (bid, ib') else ib' = ?ib1"
      by (rule acknowledge_body_cases [OF x]) (unfold Let_def, rule that)
    have "b_lease_owner b \<noteq> None" using inv b(1,3) by (auto simp: inbox_inv_def batches_inv_def batch_ok_def)
    then have o: "b_lease_owner b = Some (we_worker_id env)" using b(4) by (auto simp: str_owner_def)
    have f: "ib_facts ib' = settle_facts env delivered now (ib_facts ib)" using acknowledge_body_facts [OF x] ..
    note fs = settle_facts_eq [OF sub]
    have done1: "\<exists>b\<in>set (ib_batches ?ib1). b_batch_id b = we_batch_id env \<and> b_status b = Completed"
      using b(1,2) by (auto simp: complete_batch_def bex_update_where intro!: bexI [of _ b])
    have done2: "\<exists>b\<in>set (ib_batches ib'). b_batch_id b = we_batch_id env \<and> b_status b = Completed"
    proof (cases ?pending)
      case True
      then obtain bid where e: "ensure_batch cfg uuid (we_partition env) now True ?ib1 = Inr (bid, ib')"
        using r by (simp only: if_True) blast
      from ensure_batch_completed [OF e done1] show ?thesis .
    next
      case False
      then have "ib' = ?ib1" using r by (simp only: if_False)
      then show ?thesis using done1 by (simp only:)
    qed
    have act: "?pending \<longrightarrow> active_in (tq_partition_id (we_partition env)) ib'"
    proof
      assume ?pending
      then obtain bid where e: "ensure_batch cfg uuid (we_partition env) now True ?ib1 = Inr (bid, ib')"
        using r by (simp only: if_True) blast
      show "active_in (tq_partition_id (we_partition env)) ib'" by (simp add: ensure_batch_active [OF e])
    qed
    have ak: "acknowledge cfg uuid env delivered now ib = (Inr ack, ib')" using sub x by (simp add: acknowledge_def transaction_def)
    have sel: "ib_facts ?ib1 = ib_facts ib'" by (simp add: f)
    have owned: "\<exists>b\<in>set (ib_batches ib). b_batch_id b = we_batch_id env \<and> b_status b = BatchLeased \<and> b_lease_owner b = Some (we_worker_id env)"
      using b(1-3) o by blast
    show ?thesis unfolding ak prod.case sum.case fs [of now "ib_facts ib", symmetric]
      by (intro conjI owned f done2 act [unfolded sel])
  qed
qed

lemma acknowledge_settles_exactly_witness:
  "ib_facts (snd (acknowledge sample_cfg (lit ''u2'') sample_env [] 20
      (snd (fold (inbox_step (\<lambda>s. s) sample_cfg) (take 3 sample_history) new_system)))) = [sample_row]"
proof -
  have h: "snd (fold (inbox_step (\<lambda>s. s) sample_cfg) (take 3 sample_history) new_system) = sample_inbox
       (sample_row\<lparr>f_state := Leased, f_lease_owner := Some (lit ''w1''), f_lease_until := Some 40\<rparr>)
       (sample_batch\<lparr>b_status := BatchLeased, b_lease_owner := Some (lit ''w1''), b_lease_until := Some 40\<rparr>)"
    using sample_attest by (simp add: sample_history_def sample_ingest sample_claim)
  have "sample_row\<lparr>f_state := Pending, f_lease_owner := None, f_lease_until := None\<rparr> = sample_row"
    by (simp add: sample_row_def new_fact_def)
  moreover have "\<exists>r. fst (acknowledge sample_cfg (lit ''u2'') sample_env [] 20 (snd (fold (inbox_step (\<lambda>s. s) sample_cfg) (take 3 sample_history) new_system))) = Inr r"
    unfolding h by (simp add: acknowledge_def expected_def sample_env_def envelope_fact_of_def transaction_def acknowledge_body_def
      sample_inbox_def str_owner_def Let_def settle_facts_def complete_batch_def update_where_def rowcount_def ensure_batch_def
      insert_row_def sample_batch_def new_batch_def lit_def sample_partition_def active_def split: sum.split)
  ultimately show ?thesis
    using acknowledge_settles_exactly [where cfg = sample_cfg and uuid = "lit ''u2''" and env = sample_env and delivered = "[]"
        and now = 20 and H = "\<lambda>s. s" and before = "take 3 sample_history"]
    unfolding h by (auto simp: sample_inbox_def sample_env_def expected_def envelope_fact_of_def split: prod.splits sum.splits)
qed

end
