(* ===== verification/ReplyOutbox.thy ===== *)
theory ReplyOutbox
  imports WorkAuthority
begin

text \<open>
  \<open>DurableReplyOutbox\<close> of \<^verbatim>\<open>runtime/plugins/tuoguan_core/work_runtime.py\<close>: the verified business truth, the
  observed agent terminals and the reply jobs, from generation to delivery. A text column that is
  compared as JSON is the value it encodes; \<open>H\<close> is \<open>sha256(...).hexdigest()\<close>.
\<close>

section \<open>Data\<close>

record verified_business_fact =
  bf_operation_id :: pystr
  bf_tenant_id :: pystr
  bf_receipt :: "(pystr, json) dict"
  bf_writeback_verified :: bool
  bf_original_request_ref :: pystr
  bf_original_turn_id :: pystr

definition validate_business :: "(json \<Rightarrow> pystr) \<Rightarrow> verified_business_fact \<Rightarrow> wr_error option" where
  "validate_business render b =
     (if \<exists>v\<in>set [bf_operation_id b, bf_tenant_id b, bf_original_request_ref b, bf_original_turn_id b]. blank v
      then Some (Rejected (lit ''verified_business_fact_fields_missing''))
      else if py_str render (por (dget (bf_receipt b) (lit ''status'')) (JStr [])) \<noteq> lit ''completed'' \<or> \<not> bf_writeback_verified b
      then Some (Rejected (lit ''reply_outbox_requires_completed_verified_receipt'')) else None)"

record reply_recovery =
  rr_recovery_id :: pystr
  rr_tenant_id :: pystr
  rr_original_request_ref :: pystr
  rr_original_turn_id :: pystr
  rr_verified_receipt :: json
  rr_destination :: reply_destination

record hermes_terminal =
  ht_terminal_state :: pystr
  ht_reply_text :: pystr
  ht_selected_tools :: "pystr list"

datatype generation_state = Pending_generation | Generated | Generation_failed
datatype delivery_state = Not_ready | Ready | In_lease | Sent | Blocked | Unknown | Suppressed

record reply_row =
  rj_reply_id :: pystr
  rj_operation_id :: pystr
  rj_tenant_id :: pystr
  rj_partition_id :: pystr
  rj_destination :: reply_destination
  rj_generation_state :: generation_state
  rj_delivery_state :: delivery_state
  rj_reply_text :: pystr
  rj_generation_attempts :: int
  rj_delivery_attempts :: int
  rj_delivery_id :: pystr
  rj_delivery_hold :: bool
  rj_lease_owner :: "pystr option"
  rj_lease_until :: "timestamp option"
  rj_last_error :: pystr
  rj_delivery_disposition :: pystr
  rj_channel_message_id :: pystr
  rj_delivery_trace_ref :: pystr
  rj_created_at :: timestamp
  rj_updated_at :: timestamp

record reply_job =
  jb_reply_id :: pystr
  jb_operation_id :: pystr
  jb_tenant_id :: pystr
  jb_partition_id :: pystr
  jb_destination :: reply_destination
  jb_generation_state :: generation_state
  jb_delivery_state :: delivery_state
  jb_reply_text :: pystr
  jb_delivery_id :: pystr
  jb_delivery_hold :: bool
  jb_lease_owner :: "pystr option"
  jb_lease_until :: "timestamp option"
  jb_delivery_disposition :: pystr
  jb_channel_message_id :: pystr
  jb_delivery_trace_ref :: pystr

record truth_row =
  bt_operation_id :: pystr
  bt_tenant_id :: pystr
  bt_partition_id :: pystr
  bt_receipt :: json
  bt_original_request_ref :: pystr
  bt_original_turn_id :: pystr
  bt_recorded_at :: timestamp

record agent_row =
  ag_agent_attempt_id :: pystr
  ag_operation_id :: "pystr option"
  ag_terminal_state :: pystr
  ag_provider_succeeded :: "bool option"
  ag_raw_trace_ref :: pystr
  ag_final_reply_text :: pystr
  ag_recorded_at :: timestamp

record outbox =
  ob_truth :: "truth_row list"
  ob_agents :: "agent_row list"
  ob_jobs :: "reply_row list"

definition job :: "reply_row \<Rightarrow> reply_job" where
  "job r =
     \<lparr>jb_reply_id = rj_reply_id r, jb_operation_id = rj_operation_id r, jb_tenant_id = rj_tenant_id r,
      jb_partition_id = rj_partition_id r, jb_destination = rj_destination r,
      jb_generation_state = rj_generation_state r, jb_delivery_state = rj_delivery_state r,
      jb_reply_text = rj_reply_text r, jb_delivery_id = rj_delivery_id r, jb_delivery_hold = rj_delivery_hold r,
      jb_lease_owner = (case rj_lease_owner r of None \<Rightarrow> None | Some w \<Rightarrow> if w = [] then None else Some w),
      jb_lease_until = rj_lease_until r, jb_delivery_disposition = rj_delivery_disposition r,
      jb_channel_message_id = rj_channel_message_id r, jb_delivery_trace_ref = rj_delivery_trace_ref r\<rparr>"

section \<open>Observing terminals\<close>

definition reply_id :: "(pystr \<Rightarrow> pystr) \<Rightarrow> pystr \<Rightarrow> pystr" where
  "reply_id H operation_id = lit ''reply_'' @ take 32 (H operation_id)"

definition delivery_id :: "(pystr \<Rightarrow> pystr) \<Rightarrow> pystr \<Rightarrow> pystr \<Rightarrow> pystr" where
  "delivery_id H operation_id canon = lit ''delivery_'' @ take 32 (H (operation_id @ [31] @ canon))"

definition insert_or_ignore_agent :: "agent_row \<Rightarrow> agent_row list \<Rightarrow> agent_row list" where
  "insert_or_ignore_agent a as = (case insert_row ag_agent_attempt_id a as of None \<Rightarrow> as | Some as' \<Rightarrow> as')"

text \<open>The \<open>INSERT\<close> into \<open>reply_jobs\<close> with its three unique columns.\<close>

definition new_job :: "(pystr \<Rightarrow> pystr) \<Rightarrow> pystr \<Rightarrow> pystr \<Rightarrow> pystr \<Rightarrow> reply_destination \<Rightarrow> pystr \<Rightarrow> pystr \<Rightarrow> bool \<Rightarrow> timestamp \<Rightarrow> reply_row" where
  "new_job H operation tenant pid dest canon text hold now =
     \<lparr>rj_reply_id = reply_id H operation, rj_operation_id = operation, rj_tenant_id = tenant, rj_partition_id = pid,
      rj_destination = dest, rj_generation_state = (if text \<noteq> [] then Generated else Pending_generation),
      rj_delivery_state = (if hold then Not_ready else if text \<noteq> [] then Ready else Not_ready), rj_reply_text = text,
      rj_generation_attempts = 0, rj_delivery_attempts = 0, rj_delivery_id = delivery_id H operation canon,
      rj_delivery_hold = hold, rj_lease_owner = None, rj_lease_until = None, rj_last_error = [],
      rj_delivery_disposition = [], rj_channel_message_id = [], rj_delivery_trace_ref = [],
      rj_created_at = now, rj_updated_at = now\<rparr>"

definition insert_job :: "reply_row \<Rightarrow> reply_row list \<Rightarrow> reply_row list option" where
  "insert_job r rs = (if rj_operation_id r \<in> rj_operation_id ` set rs \<or> rj_delivery_id r \<in> rj_delivery_id ` set rs
     then None else insert_row rj_reply_id r rs)"

definition find_job :: "pystr \<Rightarrow> outbox \<Rightarrow> reply_row option" where
  "find_job operation ob = List.find (\<lambda>r. rj_operation_id r = operation) (ob_jobs ob)"

record terminal_observation =
  to_partition :: trusted_partition
  to_destination :: reply_destination
  to_agent_attempt_id :: pystr
  to_terminal_state :: pystr
  to_provider_succeeded :: "bool option"
  to_raw_trace_ref :: pystr
  to_final_reply_text :: pystr
  to_delivery_hold :: bool

definition agent_row_of :: "terminal_observation \<Rightarrow> pystr option \<Rightarrow> timestamp \<Rightarrow> agent_row" where
  "agent_row_of t operation now =
     \<lparr>ag_agent_attempt_id = to_agent_attempt_id t, ag_operation_id = operation, ag_terminal_state = to_terminal_state t,
      ag_provider_succeeded = to_provider_succeeded t, ag_raw_trace_ref = to_raw_trace_ref t,
      ag_final_reply_text = strip (to_final_reply_text t), ag_recorded_at = now\<rparr>"

definition record_truth :: "trusted_partition \<Rightarrow> verified_business_fact \<Rightarrow> timestamp \<Rightarrow> truth_row list \<Rightarrow> wr_error + truth_row list" where
  "record_truth q b now ts = (case List.find (\<lambda>t. bt_operation_id t = bf_operation_id b) ts of
     None \<Rightarrow> Inr (ts @ [\<lparr>bt_operation_id = bf_operation_id b, bt_tenant_id = bf_tenant_id b, bt_partition_id = tq_partition_id q,
       bt_receipt = sort_keys (JObj (bf_receipt b)), bt_original_request_ref = bf_original_request_ref b,
       bt_original_turn_id = bf_original_turn_id b, bt_recorded_at = now\<rparr>])
   | Some t \<Rightarrow> if bt_tenant_id t \<noteq> bf_tenant_id b \<or> bt_partition_id t \<noteq> tq_partition_id q \<or> bt_receipt t \<noteq> sort_keys (JObj (bf_receipt b))
       then Inl (Rejected (lit ''operation_business_truth_conflict'')) else Inr ts)"

text \<open>The assignments of the \<open>UPDATE\<close> that stores a first reply text.\<close>

definition set_text :: "pystr \<Rightarrow> timestamp \<Rightarrow> reply_row \<Rightarrow> reply_row" where
  "set_text text now r = r\<lparr>rj_reply_text := text, rj_generation_state := Generated,
     rj_delivery_state := (if rj_delivery_hold r then Not_ready else Ready), rj_updated_at := now\<rparr>"

definition job_of_truth :: "(pystr \<Rightarrow> pystr) \<Rightarrow> terminal_observation \<Rightarrow> verified_business_fact \<Rightarrow> timestamp \<Rightarrow> reply_row list
    \<Rightarrow> wr_error + reply_row list" where
  "job_of_truth H t b now rs =
     (let text = strip (to_final_reply_text t); pid = tq_partition_id (to_partition t) in
      case List.find (\<lambda>r. rj_operation_id r = bf_operation_id b) rs of
        None \<Rightarrow> (case canonical (to_destination t) of Inl e \<Rightarrow> Inl e | Inr canon \<Rightarrow>
          (case insert_job (new_job H (bf_operation_id b) (bf_tenant_id b) pid (to_destination t) canon text (to_delivery_hold t) now) rs of
             None \<Rightarrow> Inl Integrity_error | Some rs' \<Rightarrow> Inr rs'))
      | Some r \<Rightarrow> (if rj_tenant_id r \<noteq> bf_tenant_id b \<or> rj_partition_id r \<noteq> pid
           then Inl (Rejected (lit ''operation_reply_destination_or_partition_conflict''))
         else case canonical (to_destination t) of Inl e \<Rightarrow> Inl e | Inr _ \<Rightarrow>
           if rj_destination r \<noteq> to_destination t
           then Inl (Rejected (lit ''operation_reply_destination_or_partition_conflict''))
           else if text \<noteq> [] \<and> blank (rj_reply_text r)
           then Inr (update_where (\<lambda>x. rj_operation_id x = bf_operation_id b) (set_text text now) rs)
           else Inr rs))"

definition observe_terminal_body :: "(pystr \<Rightarrow> pystr) \<Rightarrow> terminal_observation \<Rightarrow> verified_business_fact option \<Rightarrow> timestamp \<Rightarrow> outbox
    \<Rightarrow> wr_error + reply_job option \<times> outbox" where
  "observe_terminal_body H t business now ob = (case business of
     None \<Rightarrow> Inr (None, ob\<lparr>ob_agents := insert_or_ignore_agent (agent_row_of t None now) (ob_agents ob)\<rparr>)
   | Some b \<Rightarrow> (case record_truth (to_partition t) b now (ob_truth ob) of
       Inl e \<Rightarrow> Inl e
     | Inr truth \<Rightarrow> (case job_of_truth H t b now (ob_jobs ob) of
         Inl e \<Rightarrow> Inl e
       | Inr jobs \<Rightarrow>
         let ob' = ob\<lparr>ob_truth := truth, ob_agents := insert_or_ignore_agent (agent_row_of t (Some (bf_operation_id b)) now) (ob_agents ob),
                      ob_jobs := jobs\<rparr>
         in Inr (map_option job (find_job (bf_operation_id b) ob'), ob'))))"

definition observe_agent_terminal :: "(json \<Rightarrow> pystr) \<Rightarrow> (pystr \<Rightarrow> pystr) \<Rightarrow> terminal_observation \<Rightarrow> verified_business_fact option \<Rightarrow> timestamp
    \<Rightarrow> (outbox, wr_error, reply_job option) op" where
  "observe_agent_terminal render H t business now ob =
     (if \<exists>v\<in>set [to_agent_attempt_id t, to_terminal_state t, to_raw_trace_ref t]. blank v
      then (Inl (Rejected (lit ''agent_terminal_fields_missing'')), ob)
      else if rd_tenant_id (to_destination t) \<noteq> tq_tenant_id (to_partition t)
      then (Inl (Rejected (lit ''reply_destination_partition_cross_tenant'')), ob)
      else case (case business of None \<Rightarrow> None | Some b \<Rightarrow> validate_business render b) of
        Some e \<Rightarrow> (Inl e, ob)
      | None \<Rightarrow> if (case business of None \<Rightarrow> False | Some b \<Rightarrow> bf_tenant_id b \<noteq> tq_tenant_id (to_partition t))
          then (Inl (Rejected (lit ''business_partition_cross_tenant'')), ob)
          else transaction (observe_terminal_body H t business now) ob)"

definition observe_notice_body :: "(pystr \<Rightarrow> pystr) \<Rightarrow> pystr \<Rightarrow> terminal_observation \<Rightarrow> timestamp \<Rightarrow> outbox
    \<Rightarrow> wr_error + reply_job option \<times> outbox" where
  "observe_notice_body H operation t now ob =
     (let text = strip (to_final_reply_text t);
          ob1 = ob\<lparr>ob_agents := insert_or_ignore_agent (agent_row_of t (Some operation) now) (ob_agents ob)\<rparr>
      in if to_terminal_state t \<noteq> lit ''completed'' \<or> text = [] then Inr (None, ob1)
         else case canonical (to_destination t) of Inl e \<Rightarrow> Inl e | Inr canon \<Rightarrow>
           (case find_job operation ob of
              None \<Rightarrow> (case insert_job (new_job H operation (tq_tenant_id (to_partition t)) (tq_partition_id (to_partition t))
                    (to_destination t) canon text (to_delivery_hold t) now) (ob_jobs ob) of
                  None \<Rightarrow> Inl Integrity_error
                | Some rs \<Rightarrow> (let ob2 = ob1\<lparr>ob_jobs := rs\<rparr> in Inr (map_option job (find_job operation ob2), ob2)))
            | Some r \<Rightarrow> if rj_tenant_id r \<noteq> tq_tenant_id (to_partition t) \<or> rj_partition_id r \<noteq> tq_partition_id (to_partition t)
                  \<or> rj_destination r \<noteq> to_destination t \<or> rj_reply_text r \<noteq> text
                then Inl (Rejected (lit ''agent_notice_truth_conflict''))
                else Inr (map_option job (find_job operation ob1), ob1)))"

definition observe_agent_notice :: "(pystr \<Rightarrow> pystr) \<Rightarrow> pystr \<Rightarrow> terminal_observation \<Rightarrow> timestamp \<Rightarrow> (outbox, wr_error, reply_job option) op" where
  "observe_agent_notice H notice_id t now ob =
     (let operation = strip notice_id in
      if operation = [] \<or> (\<exists>v\<in>set [to_agent_attempt_id t, to_terminal_state t, to_raw_trace_ref t]. blank v)
      then (Inl (Rejected (lit ''agent_notice_required_fields_missing'')), ob)
      else if rd_tenant_id (to_destination t) \<noteq> tq_tenant_id (to_partition t)
      then (Inl (Rejected (lit ''reply_destination_partition_cross_tenant'')), ob)
      else transaction (observe_notice_body H operation t now) ob)"

section \<open>Leases\<close>

definition expired :: "timestamp \<Rightarrow> reply_row \<Rightarrow> bool" where
  "expired now r \<longleftrightarrow> rj_delivery_state r = In_lease \<and> (case rj_lease_until r of None \<Rightarrow> False | Some t \<Rightarrow> t < now)"

definition expire :: "timestamp \<Rightarrow> reply_row \<Rightarrow> reply_row" where
  "expire now r = r\<lparr>rj_delivery_state := (if rj_generation_state r = Generated \<and> \<not> rj_delivery_hold r then Ready else Not_ready),
     rj_lease_owner := None, rj_lease_until := None, rj_updated_at := now\<rparr>"

definition recover_jobs :: "timestamp \<Rightarrow> outbox \<Rightarrow> nat \<times> outbox" where
  "recover_jobs now ob = (rowcount (expired now) (ob_jobs ob), ob\<lparr>ob_jobs := update_where (expired now) (expire now) (ob_jobs ob)\<rparr>)"

definition claimable :: "bool \<Rightarrow> reply_row \<Rightarrow> bool" where
  "claimable generation r \<longleftrightarrow> (if generation then rj_generation_state r = Pending_generation \<and> rj_delivery_state r = Not_ready
     else rj_generation_state r = Generated \<and> rj_delivery_state r = Ready)"

definition lease :: "pystr \<Rightarrow> timestamp \<Rightarrow> timestamp \<Rightarrow> reply_row \<Rightarrow> reply_row" where
  "lease worker until now r = r\<lparr>rj_delivery_state := In_lease, rj_lease_owner := Some worker, rj_lease_until := Some until, rj_updated_at := now\<rparr>"

definition claimable_jobs :: "bool \<Rightarrow> outbox \<Rightarrow> reply_row list" where
  "claimable_jobs generation ob = sort_key (\<lambda>r. (rj_created_at r, rj_reply_id r)) (filter (claimable generation) (ob_jobs ob))"

definition claim_job :: "rat \<Rightarrow> bool \<Rightarrow> pystr \<Rightarrow> timestamp \<Rightarrow> (outbox, wr_error, reply_job option) op" where
  "claim_job lease_seconds generation worker now ob =
     (if blank worker then (Inl (Value_error (lit ''reply_worker_id_required'')), ob)
      else let ob1 = snd (recover_jobs now ob) in
      case claimable_jobs generation ob1 of
        [] \<Rightarrow> (Inr None, ob1)
      | r # _ \<Rightarrow>
          let mine = (\<lambda>x. rj_reply_id x = rj_reply_id r \<and> rj_delivery_state x = rj_delivery_state r);
              ob2 = ob1\<lparr>ob_jobs := update_where mine (lease worker (now + lease_seconds) now) (ob_jobs ob1)\<rparr>
          in if rowcount mine (ob_jobs ob1) \<noteq> 1 then (Inr None, ob1)
             else (Inr (map_option job (List.find (\<lambda>x. rj_reply_id x = rj_reply_id r) (ob_jobs ob2))), ob2))"

abbreviation claim_generation :: "rat \<Rightarrow> pystr \<Rightarrow> timestamp \<Rightarrow> (outbox, wr_error, reply_job option) op" where
  "claim_generation lease_seconds \<equiv> claim_job lease_seconds True"

abbreviation claim_delivery :: "rat \<Rightarrow> pystr \<Rightarrow> timestamp \<Rightarrow> (outbox, wr_error, reply_job option) op" where
  "claim_delivery lease_seconds \<equiv> claim_job lease_seconds False"

section \<open>Finishing a lease\<close>

text \<open>The arguments of \<open>_finish\<close>; \<open>None\<close> is the SQL NULL that \<open>COALESCE\<close> skips.\<close>

record finish_args =
  fa_state :: generation_state
  fa_delivery_state :: delivery_state
  fa_reply_text :: "pystr option"
  fa_error :: pystr
  fa_increment_delivery :: bool
  fa_disposition :: "pystr option"
  fa_channel_message_id :: "pystr option"
  fa_trace_ref :: "pystr option"

definition coalesce :: "'a option \<Rightarrow> 'a \<Rightarrow> 'a" where
  "coalesce a b = (case a of None \<Rightarrow> b | Some x \<Rightarrow> x)"

definition finish_row :: "finish_args \<Rightarrow> timestamp \<Rightarrow> reply_row \<Rightarrow> reply_row" where
  "finish_row a now r = r\<lparr>rj_generation_state := fa_state a, rj_delivery_state := fa_delivery_state a,
     rj_reply_text := coalesce (fa_reply_text a) (rj_reply_text r),
     rj_generation_attempts := rj_generation_attempts r + (if fa_increment_delivery a then 0 else 1),
     rj_delivery_attempts := rj_delivery_attempts r + (if fa_increment_delivery a then 1 else 0),
     rj_lease_owner := None, rj_lease_until := None, rj_last_error := fa_error a,
     rj_delivery_disposition := coalesce (fa_disposition a) (rj_delivery_disposition r),
     rj_channel_message_id := coalesce (fa_channel_message_id a) (rj_channel_message_id r),
     rj_delivery_trace_ref := coalesce (fa_trace_ref a) (rj_delivery_trace_ref r), rj_updated_at := now\<rparr>"

definition held_by :: "pystr \<Rightarrow> pystr \<Rightarrow> reply_row \<Rightarrow> bool" where
  "held_by rid worker r \<longleftrightarrow> rj_reply_id r = rid \<and> rj_delivery_state r = In_lease \<and> rj_lease_owner r = Some worker"

text \<open>An update of the jobs that must hit exactly one row, \<open>SELECT\<close> of the row, \<open>COMMIT\<close>.\<close>

definition update_one :: "(reply_row \<Rightarrow> bool) \<Rightarrow> (reply_row \<Rightarrow> reply_row) \<Rightarrow> pystr \<Rightarrow> wr_error \<Rightarrow> (outbox, wr_error, reply_job) op" where
  "update_one P f rid err ob =
     (let ob' = ob\<lparr>ob_jobs := update_where P f (ob_jobs ob)\<rparr> in
      if rowcount P (ob_jobs ob) \<noteq> 1 then (Inl err, ob)
      else case List.find (\<lambda>r. rj_reply_id r = rid) (ob_jobs ob') of
        None \<Rightarrow> (Inl Operational_error, ob) | Some r \<Rightarrow> (Inr (job r), ob'))"

definition finish :: "reply_job \<Rightarrow> pystr \<Rightarrow> finish_args \<Rightarrow> timestamp \<Rightarrow> (outbox, wr_error, reply_job) op" where
  "finish j worker a now = update_one (held_by (jb_reply_id j) worker) (finish_row a now) (jb_reply_id j)
     (Lease_lost (lit ''reply_job_not_owned''))"

definition complete_generation :: "reply_job \<Rightarrow> pystr \<Rightarrow> hermes_terminal \<Rightarrow> timestamp \<Rightarrow> (outbox, wr_error, reply_job) op" where
  "complete_generation j worker t now ob =
     (if ht_selected_tools t \<noteq> [] then (Inl (Rejected (lit ''reply_only_recovery_may_not_select_tools'')), ob)
      else if ht_terminal_state t \<noteq> lit ''completed'' \<or> blank (ht_reply_text t)
      then finish j worker \<lparr>fa_state = Generation_failed, fa_delivery_state = Not_ready, fa_reply_text = None,
        fa_error = lit ''terminal:'' @ ht_terminal_state t, fa_increment_delivery = False, fa_disposition = None,
        fa_channel_message_id = None, fa_trace_ref = None\<rparr> now ob
      else finish j worker \<lparr>fa_state = Generated, fa_delivery_state = (if jb_delivery_hold j then Not_ready else Ready),
        fa_reply_text = Some (strip (ht_reply_text t)), fa_error = [], fa_increment_delivery = False, fa_disposition = None,
        fa_channel_message_id = None, fa_trace_ref = None\<rparr> now ob)"

definition nonempty :: "pystr \<Rightarrow> pystr option" where
  "nonempty s = (if s = [] then None else Some s)"

definition complete_delivery :: "reply_job \<Rightarrow> pystr \<Rightarrow> bool \<Rightarrow> pystr \<Rightarrow> pystr \<Rightarrow> pystr \<Rightarrow> timestamp \<Rightarrow> (outbox, wr_error, reply_job) op" where
  "complete_delivery j worker delivered error channel_message_id trace_ref now =
     finish j worker \<lparr>fa_state = Generated, fa_delivery_state = (if delivered then Sent else Ready), fa_reply_text = None,
       fa_error = (if delivered then [] else if error = [] then lit ''channel_delivery_failed'' else error),
       fa_increment_delivery = True, fa_disposition = Some (if delivered then lit ''delivered'' else lit ''failed''),
       fa_channel_message_id = nonempty channel_message_id, fa_trace_ref = nonempty trace_ref\<rparr> now"

definition complete_delivery_blocked :: "reply_job \<Rightarrow> pystr \<Rightarrow> pystr \<Rightarrow> timestamp \<Rightarrow> (outbox, wr_error, reply_job) op" where
  "complete_delivery_blocked j worker error now ob =
     (if blank error then (Inl (Rejected (lit ''blocked_delivery_requires_error'')), ob)
      else finish j worker \<lparr>fa_state = Generated, fa_delivery_state = Blocked, fa_reply_text = None, fa_error = error,
        fa_increment_delivery = True, fa_disposition = Some (lit ''blocked''), fa_channel_message_id = None, fa_trace_ref = None\<rparr> now ob)"

definition complete_delivery_unknown :: "reply_job \<Rightarrow> pystr \<Rightarrow> pystr \<Rightarrow> pystr \<Rightarrow> pystr \<Rightarrow> timestamp \<Rightarrow> (outbox, wr_error, reply_job) op" where
  "complete_delivery_unknown j worker error trace_ref channel_message_id now ob =
     (if blank error \<or> blank trace_ref then (Inl (Rejected (lit ''unknown_delivery_requires_error_and_trace'')), ob)
      else finish j worker \<lparr>fa_state = Generated, fa_delivery_state = Unknown, fa_reply_text = None, fa_error = error,
        fa_increment_delivery = True, fa_disposition = Some (lit ''unknown''), fa_channel_message_id = Some channel_message_id,
        fa_trace_ref = Some trace_ref\<rparr> now ob)"

section \<open>Transitions outside a lease\<close>

definition releasable :: "pystr \<Rightarrow> pystr \<Rightarrow> reply_destination \<Rightarrow> reply_row \<Rightarrow> bool" where
  "releasable rid operation dest r \<longleftrightarrow>
     rj_reply_id r = rid \<and> rj_operation_id r = operation \<and> rj_destination r = dest \<and> rj_delivery_hold r"

definition release :: "timestamp \<Rightarrow> reply_row \<Rightarrow> reply_row" where
  "release now r = r\<lparr>rj_delivery_hold := False,
     rj_delivery_state := (if rj_generation_state r = Generated then Ready else Not_ready), rj_updated_at := now\<rparr>"

definition release_delivery_hold :: "pystr \<Rightarrow> pystr \<Rightarrow> reply_destination \<Rightarrow> timestamp \<Rightarrow> (outbox, wr_error, reply_job) op" where
  "release_delivery_hold rid operation dest now ob = (case canonical dest of Inl e \<Rightarrow> (Inl e, ob) | Inr _ \<Rightarrow>
     update_one (releasable rid operation dest) (release now) rid (Rejected (lit ''reply_delivery_hold_not_releasable'')) ob)"

definition parked :: "pystr \<Rightarrow> reply_row \<Rightarrow> bool" where
  "parked channel r \<longleftrightarrow> rj_generation_state r = Generated \<and> rj_delivery_state r = Blocked
     \<and> rj_last_error r = lit ''channel_unregistered'' \<and> rd_channel (rj_destination r) = channel"

definition unpark :: "timestamp \<Rightarrow> reply_row \<Rightarrow> reply_row" where
  "unpark now r = r\<lparr>rj_delivery_state := Ready, rj_last_error := [], rj_delivery_disposition := lit ''port_registered'', rj_updated_at := now\<rparr>"

definition requeue_blocked_channel :: "pystr \<Rightarrow> timestamp \<Rightarrow> (outbox, wr_error, nat) op" where
  "requeue_blocked_channel channel now ob =
     (let expected = strip channel in
      if expected = [] then (Inl (Rejected (lit ''blocked_delivery_channel_required'')), ob)
      else (Inr (rowcount (parked expected) (ob_jobs ob)), ob\<lparr>ob_jobs := update_where (parked expected) (unpark now) (ob_jobs ob)\<rparr>))"

definition suppressible :: "pystr \<Rightarrow> reply_row \<Rightarrow> bool" where
  "suppressible rid r \<longleftrightarrow> rj_reply_id r = rid \<and> rj_generation_state r = Generated \<and> rj_delivery_state r \<in> {Ready, Blocked, Not_ready}"

definition suppress :: "pystr \<Rightarrow> timestamp \<Rightarrow> reply_row \<Rightarrow> reply_row" where
  "suppress reason now r = r\<lparr>rj_delivery_state := Suppressed, rj_delivery_disposition := lit ''suppressed'', rj_last_error := reason,
     rj_lease_owner := None, rj_lease_until := None, rj_updated_at := now\<rparr>"

definition suppress_pending_delivery :: "pystr \<Rightarrow> pystr \<Rightarrow> timestamp \<Rightarrow> (outbox, wr_error, reply_job) op" where
  "suppress_pending_delivery rid reason now ob =
     (if blank rid \<or> blank reason then (Inl (Rejected (lit ''delivery_suppression_fields_required'')), ob)
      else update_one (suppressible rid) (suppress reason now) rid (Rejected (lit ''delivery_not_suppressible'')) ob)"

definition quarantined :: "pystr \<Rightarrow> reply_row \<Rightarrow> bool" where
  "quarantined rid r \<longleftrightarrow> rj_reply_id r = rid \<and> rj_delivery_state r = Unknown"

definition reconcile :: "bool \<Rightarrow> pystr \<Rightarrow> timestamp \<Rightarrow> reply_row \<Rightarrow> reply_row" where
  "reconcile delivered ref now r = r\<lparr>rj_delivery_state := (if delivered then Sent else Ready),
     rj_delivery_disposition := (if delivered then lit ''reconciled_delivered'' else lit ''reconciled_not_delivered''),
     rj_delivery_trace_ref := ref, rj_last_error := [], rj_updated_at := now\<rparr>"

definition reconcile_unknown_delivery :: "pystr \<Rightarrow> bool \<Rightarrow> pystr \<Rightarrow> timestamp \<Rightarrow> (outbox, wr_error, reply_job) op" where
  "reconcile_unknown_delivery rid delivered ref now ob =
     (if blank ref then (Inl (Rejected (lit ''delivery_reconciliation_evidence_required'')), ob)
      else update_one (quarantined rid) (reconcile delivered ref now) rid (Rejected (lit ''unknown_delivery_not_reconcilable'')) ob)"

definition failed_generation :: "pystr \<Rightarrow> reply_row \<Rightarrow> bool" where
  "failed_generation rid r \<longleftrightarrow> rj_reply_id r = rid \<and> rj_generation_state r = Generation_failed"

definition retry_generation :: "timestamp \<Rightarrow> reply_row \<Rightarrow> reply_row" where
  "retry_generation now r = r\<lparr>rj_generation_state := Pending_generation, rj_delivery_state := Not_ready,
     rj_lease_owner := None, rj_lease_until := None, rj_updated_at := now\<rparr>"

definition requeue_generation :: "pystr \<Rightarrow> timestamp \<Rightarrow> (outbox, wr_error, reply_job) op" where
  "requeue_generation rid now ob =
     (let ob' = ob\<lparr>ob_jobs := update_where (failed_generation rid) (retry_generation now) (ob_jobs ob)\<rparr> in
      case List.find (\<lambda>r. rj_reply_id r = rid) (ob_jobs ob') of
        None \<Rightarrow> (Inl (Rejected (lit ''reply_job_not_found'')), ob')
      | Some r \<Rightarrow> (Inr (job r), ob'))"

section \<open>Reading\<close>

definition get_job :: "pystr \<Rightarrow> outbox \<Rightarrow> reply_job option" where
  "get_job operation ob = map_option job (find_job operation ob)"

definition get_by_reply_id :: "pystr \<Rightarrow> outbox \<Rightarrow> reply_job option" where
  "get_by_reply_id rid ob = map_option job (List.find (\<lambda>r. rj_reply_id r = rid) (ob_jobs ob))"

definition get_by_delivery_id :: "pystr \<Rightarrow> outbox \<Rightarrow> reply_job option" where
  "get_by_delivery_id did ob = map_option job (List.find (\<lambda>r. rj_delivery_id r = did) (ob_jobs ob))"

definition reply_recovery_request :: "reply_job \<Rightarrow> outbox \<Rightarrow> wr_error + reply_recovery" where
  "reply_recovery_request j ob = (case List.find (\<lambda>t. bt_operation_id t = jb_operation_id j) (ob_truth ob) of
     None \<Rightarrow> Inl (Rejected (lit ''reply_recovery_missing_verified_business_truth''))
   | Some t \<Rightarrow> if bt_tenant_id t \<noteq> jb_tenant_id j \<or> bt_partition_id t \<noteq> jb_partition_id j
       then Inl (Rejected (lit ''reply_recovery_business_truth_scope_conflict''))
       else Inr \<lparr>rr_recovery_id = jb_reply_id j, rr_tenant_id = jb_tenant_id j, rr_original_request_ref = bt_original_request_ref t,
         rr_original_turn_id = bt_original_turn_id t, rr_verified_receipt = bt_receipt t, rr_destination = jb_destination j\<rparr>)"

section \<open>The outbox as a machine\<close>

datatype outbox_cmd =
    Observe terminal_observation "verified_business_fact option" timestamp
  | Notice pystr terminal_observation timestamp
  | Claim_job bool pystr timestamp
  | Recover_jobs timestamp
  | Complete_generation reply_job pystr hermes_terminal timestamp
  | Complete_delivery reply_job pystr bool pystr pystr pystr timestamp
  | Complete_blocked reply_job pystr pystr timestamp
  | Complete_unknown reply_job pystr pystr pystr pystr timestamp
  | Release_hold pystr pystr reply_destination timestamp
  | Requeue_blocked pystr timestamp
  | Suppress_job pystr pystr timestamp
  | Reconcile pystr bool pystr timestamp
  | Requeue_generation pystr timestamp

record outbox_env =
  oe_render :: "json \<Rightarrow> pystr"
  oe_sha :: "pystr \<Rightarrow> pystr"
  oe_lease :: rat

fun outbox_step :: "outbox_env \<Rightarrow> outbox_cmd \<Rightarrow> outbox \<Rightarrow> outbox" where
  "outbox_step E (Observe t business now) ob = snd (observe_agent_terminal (oe_render E) (oe_sha E) t business now ob)"
| "outbox_step E (Notice n t now) ob = snd (observe_agent_notice (oe_sha E) n t now ob)"
| "outbox_step E (Claim_job g w now) ob = snd (claim_job (oe_lease E) g w now ob)"
| "outbox_step E (Recover_jobs now) ob = snd (recover_jobs now ob)"
| "outbox_step E (Complete_generation j w t now) ob = snd (complete_generation j w t now ob)"
| "outbox_step E (Complete_delivery j w d e m tr now) ob = snd (complete_delivery j w d e m tr now ob)"
| "outbox_step E (Complete_blocked j w e now) ob = snd (complete_delivery_blocked j w e now ob)"
| "outbox_step E (Complete_unknown j w e tr m now) ob = snd (complete_delivery_unknown j w e tr m now ob)"
| "outbox_step E (Release_hold rid op dest now) ob = snd (release_delivery_hold rid op dest now ob)"
| "outbox_step E (Requeue_blocked ch now) ob = snd (requeue_blocked_channel ch now ob)"
| "outbox_step E (Suppress_job rid reason now) ob = snd (suppress_pending_delivery rid reason now ob)"
| "outbox_step E (Reconcile rid d ref now) ob = snd (reconcile_unknown_delivery rid d ref now ob)"
| "outbox_step E (Requeue_generation rid now) ob = snd (requeue_generation rid now ob)"

definition jobs_inv :: "reply_row list \<Rightarrow> bool" where
  "jobs_inv rs \<longleftrightarrow> unique_key rj_reply_id rs \<and> unique_key rj_operation_id rs \<and> unique_key rj_delivery_id rs
     \<and> (\<forall>r\<in>set rs. rd_tenant_id (rj_destination r) = rj_tenant_id r)"

definition outbox_inv :: "outbox \<Rightarrow> bool" where
  "outbox_inv ob \<longleftrightarrow> jobs_inv (ob_jobs ob) \<and> unique_key bt_operation_id (ob_truth ob)"

definition new_outbox :: outbox where
  "new_outbox = \<lparr>ob_truth = [], ob_agents = [], ob_jobs = []\<rparr>"

text \<open>The columns that no operation changes.\<close>

definition job_identity :: "reply_row \<Rightarrow> pystr \<times> pystr \<times> pystr \<times> pystr \<times> reply_destination \<times> pystr \<times> timestamp" where
  "job_identity r = (rj_reply_id r, rj_operation_id r, rj_tenant_id r, rj_partition_id r, rj_destination r, rj_delivery_id r, rj_created_at r)"

lemma job_identity_edits [simp]:
  "job_identity (set_text x now r) = job_identity r" "job_identity (expire now r) = job_identity r"
  "job_identity (lease w u now r) = job_identity r" "job_identity (finish_row a now r) = job_identity r"
  "job_identity (release now r) = job_identity r" "job_identity (unpark now r) = job_identity r"
  "job_identity (suppress x now r) = job_identity r" "job_identity (reconcile d x now r) = job_identity r"
  "job_identity (retry_generation now r) = job_identity r"
  by (simp_all add: job_identity_def set_text_def expire_def lease_def finish_row_def release_def unpark_def
      suppress_def reconcile_def retry_generation_def)

lemma jobs_inv_update:
  assumes "jobs_inv rs" "\<And>r. P r \<Longrightarrow> job_identity (f r) = job_identity r"
  shows "jobs_inv (update_where P f rs)"
proof -
  have "rj_reply_id (f r) = rj_reply_id r \<and> rj_operation_id (f r) = rj_operation_id r \<and> rj_delivery_id (f r) = rj_delivery_id r
      \<and> rj_destination (f r) = rj_destination r \<and> rj_tenant_id (f r) = rj_tenant_id r" if "P r" for r
    using assms(2) [OF that] by (simp add: job_identity_def)
  then show ?thesis using assms(1) by (simp add: jobs_inv_def unique_key_update_where ball_update_where)
qed

subsection \<open>One job at a time\<close>

text \<open>The completion that a command asks for, when its arguments are accepted.\<close>

fun finish_of :: "outbox_cmd \<Rightarrow> (reply_job \<times> pystr \<times> finish_args \<times> timestamp) option" where
  "finish_of (Complete_generation j w t now) =
     (if ht_selected_tools t \<noteq> [] then None
      else if ht_terminal_state t \<noteq> lit ''completed'' \<or> blank (ht_reply_text t)
      then Some (j, w, \<lparr>fa_state = Generation_failed, fa_delivery_state = Not_ready, fa_reply_text = None,
        fa_error = lit ''terminal:'' @ ht_terminal_state t, fa_increment_delivery = False, fa_disposition = None,
        fa_channel_message_id = None, fa_trace_ref = None\<rparr>, now)
      else Some (j, w, \<lparr>fa_state = Generated, fa_delivery_state = (if jb_delivery_hold j then Not_ready else Ready),
        fa_reply_text = Some (strip (ht_reply_text t)), fa_error = [], fa_increment_delivery = False, fa_disposition = None,
        fa_channel_message_id = None, fa_trace_ref = None\<rparr>, now))"
| "finish_of (Complete_delivery j w delivered error m tr now) =
     Some (j, w, \<lparr>fa_state = Generated, fa_delivery_state = (if delivered then Sent else Ready), fa_reply_text = None,
       fa_error = (if delivered then [] else if error = [] then lit ''channel_delivery_failed'' else error),
       fa_increment_delivery = True, fa_disposition = Some (if delivered then lit ''delivered'' else lit ''failed''),
       fa_channel_message_id = nonempty m, fa_trace_ref = nonempty tr\<rparr>, now)"
| "finish_of (Complete_blocked j w error now) =
     (if blank error then None
      else Some (j, w, \<lparr>fa_state = Generated, fa_delivery_state = Blocked, fa_reply_text = None, fa_error = error,
        fa_increment_delivery = True, fa_disposition = Some (lit ''blocked''), fa_channel_message_id = None, fa_trace_ref = None\<rparr>, now))"
| "finish_of (Complete_unknown j w error tr m now) =
     (if blank error \<or> blank tr then None
      else Some (j, w, \<lparr>fa_state = Generated, fa_delivery_state = Unknown, fa_reply_text = None, fa_error = error,
        fa_increment_delivery = True, fa_disposition = Some (lit ''unknown''), fa_channel_message_id = Some m,
        fa_trace_ref = Some tr\<rparr>, now))"
| "finish_of _ = None"

lemma step_finish:
  assumes "finish_of c = Some (j, w, a, now)"
  shows "outbox_step E c ob = snd (finish j w a now ob)"
  using assms
  by (cases c) (auto simp: complete_generation_def complete_delivery_def complete_delivery_blocked_def complete_delivery_unknown_def split: if_splits)

text \<open>
  The life of a single reply job, as a step relation: what a command may do to the row \<open>r\<close>. This
  is the abstract machine that the table operations implement.
\<close>

inductive job_step :: "rat \<Rightarrow> outbox_cmd \<Rightarrow> reply_row \<Rightarrow> reply_row \<Rightarrow> bool" for L where
  js_stay: "job_step L c r r"
| js_text: "blank (rj_reply_text r) \<Longrightarrow> strip (to_final_reply_text t) \<noteq> [] \<Longrightarrow> bf_operation_id b = rj_operation_id r \<Longrightarrow>
    job_step L (Observe t (Some b) now) r (set_text (strip (to_final_reply_text t)) now r)"
| js_expire: "expired now r \<Longrightarrow> job_step L (Recover_jobs now) r (expire now r)"
| js_expire_claim: "expired now r \<Longrightarrow> job_step L (Claim_job g w now) r (expire now r)"
| js_lease: "r' = (if expired now r then expire now r else r) \<Longrightarrow> claimable g r' \<Longrightarrow>
    job_step L (Claim_job g w now) r (lease w (now + L) now r')"
| js_finish: "finish_of c = Some (j, w, a, now) \<Longrightarrow> held_by (jb_reply_id j) w r \<Longrightarrow> job_step L c r (finish_row a now r)"
| js_release: "releasable rid operation dest r \<Longrightarrow> job_step L (Release_hold rid operation dest now) r (release now r)"
| js_unpark: "parked (strip ch) r \<Longrightarrow> job_step L (Requeue_blocked ch now) r (unpark now r)"
| js_suppress: "suppressible rid r \<Longrightarrow> job_step L (Suppress_job rid reason now) r (suppress reason now r)"
| js_reconcile: "quarantined rid r \<Longrightarrow> job_step L (Reconcile rid d ref now) r (reconcile d ref now r)"
| js_retry: "failed_generation rid r \<Longrightarrow> job_step L (Requeue_generation rid now) r (retry_generation now r)"

lemma job_step_identity: "job_step L c r r' \<Longrightarrow> job_identity r' = job_identity r"
  by (induction rule: job_step.induct) (auto split: if_splits)

text \<open>Each table operation moves every row along the relation.\<close>

definition fresh_job :: "reply_row \<Rightarrow> bool" where
  "fresh_job r \<longleftrightarrow> rj_lease_owner r = None \<and> rj_lease_until r = None \<and> strip (rj_reply_text r) = rj_reply_text r
     \<and> rj_generation_state r = (if rj_reply_text r = [] then Pending_generation else Generated)
     \<and> rj_delivery_state r = (if rj_delivery_hold r \<or> rj_reply_text r = [] then Not_ready else Ready)"

definition moves :: "rat \<Rightarrow> outbox_cmd \<Rightarrow> reply_row list \<Rightarrow> reply_row list \<Rightarrow> bool" where
  "moves L c rs rs' \<longleftrightarrow> (\<forall>r\<in>set rs. \<exists>r'\<in>set rs'. job_step L c r r')
     \<and> (\<forall>r'\<in>set rs'. (\<exists>r\<in>set rs. job_step L c r r') \<or> (fresh_job r' \<and> rj_reply_id r' \<notin> rj_reply_id ` set rs))"

lemma moves_refl [simp]: "moves L c rs rs"
  using js_stay by (auto simp: moves_def)

text \<open>A row-by-row edit that follows the relation.\<close>

lemma moves_map: "(\<And>r. r \<in> set rs \<Longrightarrow> job_step L c r (g r)) \<Longrightarrow> moves L c rs (map g rs)"
  by (auto simp: moves_def)

lemma moves_update: "(\<And>r. r \<in> set rs \<Longrightarrow> P r \<Longrightarrow> job_step L c r (f r)) \<Longrightarrow> moves L c rs (update_where P f rs)"
  unfolding update_where_def by (rule moves_map) (simp add: js_stay)

lemma moves_append:
  assumes "fresh_job x" "rj_reply_id x \<notin> rj_reply_id ` set rs"
  shows "moves L c rs (rs @ [x])"
proof -
  have "\<exists>r'\<in>set (rs @ [x]). job_step L c r r'" if "r \<in> set rs" for r using that js_stay [of L c r] by auto
  moreover have "(\<exists>r\<in>set rs. job_step L c r r') \<or> (fresh_job r' \<and> rj_reply_id r' \<notin> rj_reply_id ` set rs)"
    if "r' \<in> set (rs @ [x])" for r' using that js_stay [of L c r'] assms by auto
  ultimately show ?thesis unfolding moves_def by blast
qed

lemma snd_update_one:
  "snd (update_one P f rid err ob) = ob \<or> snd (update_one P f rid err ob) = ob\<lparr>ob_jobs := update_where P f (ob_jobs ob)\<rparr>"
  by (simp add: update_one_def Let_def split: option.split)

lemma update_one_hit:
  assumes "outbox_inv b" "x \<in> set (ob_jobs b)" "P x" "\<And>y. P y \<Longrightarrow> rj_reply_id y = rj_reply_id x" "\<And>y. rj_reply_id (f y) = rj_reply_id y"
  shows "snd (update_one P f (rj_reply_id x) err b) = b\<lparr>ob_jobs := update_where P f (ob_jobs b)\<rparr>"
proof -
  have u: "unique_key rj_reply_id (ob_jobs b)" using assms(1) by (simp add: outbox_inv_def jobs_inv_def)
  have "P = (\<lambda>y. rj_reply_id y = rj_reply_id x \<and> P y)" using assms(4) by auto
  then have "rowcount P (ob_jobs b) = 1" using rowcount_key_eq_1 [OF u, of "rj_reply_id x" P] assms(2,3) by auto
  moreover have "List.find (\<lambda>r. rj_reply_id r = rj_reply_id x) (update_where P f (ob_jobs b)) = Some (f x)"
    using find_update_where_key [of P rj_reply_id f "rj_reply_id x" "ob_jobs b"] find_unique_key [OF u assms(2)] assms(3,5) by simp
  ultimately show ?thesis by (simp add: update_one_def)
qed

lemma jobs_inv_moves:
  assumes "\<And>r. P r \<Longrightarrow> job_step L c r (f r)" "jobs_inv rs"
  shows "jobs_inv (update_where P f rs)"
  using assms(2) job_step_identity [OF assms(1)] by (rule jobs_inv_update)

definition kept :: "rat \<Rightarrow> outbox_cmd \<Rightarrow> outbox \<Rightarrow> outbox \<Rightarrow> bool" where
  "kept L c ob ob' \<longleftrightarrow> moves L c (ob_jobs ob) (ob_jobs ob') \<and> outbox_inv ob' \<and> set (ob_truth ob) \<subseteq> set (ob_truth ob')"

lemma kept_refl: "outbox_inv ob \<Longrightarrow> kept L c ob ob"
  by (simp add: kept_def)

lemma kept_update:
  assumes "\<And>r. P r \<Longrightarrow> job_step L c r (f r)" "outbox_inv ob"
  shows "kept L c ob (ob\<lparr>ob_jobs := update_where P f (ob_jobs ob)\<rparr>)"
  using assms(2) jobs_inv_moves [OF assms(1)] moves_update [of _ P L c f] assms(1) by (simp add: kept_def outbox_inv_def)

lemma kept_update_one: "(\<And>r. P r \<Longrightarrow> job_step L c r (f r)) \<Longrightarrow> outbox_inv ob \<Longrightarrow> kept L c ob (snd (update_one P f rid err ob))"
  using snd_update_one [of P f rid err ob] kept_update [of P L c f ob] kept_refl by metis

lemma insert_job_Some:
  assumes "insert_job r rs = Some rs'" "jobs_inv rs" "rd_tenant_id (rj_destination r) = rj_tenant_id r"
  shows "rs' = rs @ [r] \<and> rj_reply_id r \<notin> rj_reply_id ` set rs \<and> jobs_inv rs'"
  using assms by (auto simp: insert_job_def insert_row_def jobs_inv_def unique_key_def split: if_splits)

lemma new_job_identity [simp]:
  "rj_tenant_id (new_job H operation tenant pid dest canon text hold now) = tenant"
  "rj_destination (new_job H operation tenant pid dest canon text hold now) = dest"
  "rj_operation_id (new_job H operation tenant pid dest canon text hold now) = operation"
  by (simp_all add: new_job_def)

lemma new_job_fresh: "fresh_job (new_job H operation tenant pid dest canon (strip text) hold now)"
  by (simp add: new_job_def fresh_job_def)

lemma record_truth_Inr:
  assumes "record_truth q b now ts = Inr ts'" "unique_key bt_operation_id ts"
  shows "set ts \<subseteq> set ts' \<and> unique_key bt_operation_id ts'"
proof (cases "List.find (\<lambda>t. bt_operation_id t = bf_operation_id b) ts")
  case None
  then have "bf_operation_id b \<notin> bt_operation_id ` set ts" by (auto simp: find_None_iff)
  then show ?thesis using assms None by (auto simp: record_truth_def unique_key_def)
next
  case (Some t)
  then show ?thesis using assms by (auto simp: record_truth_def split: if_splits)
qed

lemma job_of_truth_Inr:
  assumes "job_of_truth H t b now rs = Inr rs'" "jobs_inv rs" "rd_tenant_id (to_destination t) = bf_tenant_id b"
  shows "moves L (Observe t (Some b) now) rs rs' \<and> jobs_inv rs'"
proof (cases "List.find (\<lambda>r. rj_operation_id r = bf_operation_id b) rs")
  case None
  then obtain canon where "insert_job (new_job H (bf_operation_id b) (bf_tenant_id b) (tq_partition_id (to_partition t)) (to_destination t) canon
      (strip (to_final_reply_text t)) (to_delivery_hold t) now) rs = Some rs'"
    using assms(1) by (auto simp: job_of_truth_def Let_def split: sum.splits option.splits)
  from insert_job_Some [OF this assms(2)] show ?thesis using assms(3) new_job_fresh by (auto intro: moves_append)
next
  case (Some r)
  have r: "r \<in> set rs" "rj_operation_id r = bf_operation_id b" using find_SomeD [OF Some] by simp_all
  have "rs' = rs \<or> (strip (to_final_reply_text t) \<noteq> [] \<and> blank (rj_reply_text r)
      \<and> rs' = update_where (\<lambda>x. rj_operation_id x = bf_operation_id b) (set_text (strip (to_final_reply_text t)) now) rs)"
    using assms(1) Some by (auto simp: job_of_truth_def Let_def split: sum.splits if_splits)
  then show ?thesis
  proof
    assume u: "strip (to_final_reply_text t) \<noteq> [] \<and> blank (rj_reply_text r)
      \<and> rs' = update_where (\<lambda>x. rj_operation_id x = bf_operation_id b) (set_text (strip (to_final_reply_text t)) now) rs"
    have "job_step L (Observe t (Some b) now) x (set_text (strip (to_final_reply_text t)) now x)"
      if x: "x \<in> set rs" "rj_operation_id x = bf_operation_id b" for x
    proof -
      have "x = r" using unique_keyD [of rj_operation_id rs x r] x r assms(2) by (simp add: jobs_inv_def)
      then show ?thesis using u r(2) by (intro js_text) simp_all
    qed
    then have "moves L (Observe t (Some b) now) rs rs'" unfolding u [THEN conjunct2, THEN conjunct2] by (rule moves_update)
    moreover have "jobs_inv rs'" using u jobs_inv_update [OF assms(2)] by simp
    ultimately show ?thesis by simp
  qed (use assms(2) in simp)
qed

lemma observe_body_kept:
  assumes "observe_terminal_body H t business now ob = Inr (j, ob')" "outbox_inv ob"
    "\<forall>b. business = Some b \<longrightarrow> rd_tenant_id (to_destination t) = bf_tenant_id b"
  shows "kept L (Observe t business now) ob ob'"
proof (cases business)
  case None
  then show ?thesis using assms by (auto simp: observe_terminal_body_def kept_def outbox_inv_def)
next
  case (Some b)
  obtain truth jobs where tj: "record_truth (to_partition t) b now (ob_truth ob) = Inr truth"
    "job_of_truth H t b now (ob_jobs ob) = Inr jobs" "ob_truth ob' = truth" "ob_jobs ob' = jobs"
    using assms(1) Some by (auto simp: observe_terminal_body_def Let_def split: sum.splits)
  have "set (ob_truth ob) \<subseteq> set truth \<and> unique_key bt_operation_id truth"
    using record_truth_Inr [OF tj(1)] assms(2) by (simp add: outbox_inv_def)
  moreover have "moves L (Observe t business now) (ob_jobs ob) jobs \<and> jobs_inv jobs"
    using job_of_truth_Inr [OF tj(2)] assms(2,3) Some by (simp add: outbox_inv_def)
  ultimately show ?thesis using tj(3,4) by (simp add: kept_def outbox_inv_def)
qed

lemma observe_kept:
  assumes "outbox_inv ob"
  shows "kept L (Observe t business now) ob (snd (observe_agent_terminal render H t business now ob))"
proof -
  let ?o = "observe_agent_terminal render H t business now ob"
  have "snd ?o = ob \<or> (\<exists>j. observe_terminal_body H t business now ob = Inr (j, snd ?o)
      \<and> (\<forall>b. business = Some b \<longrightarrow> rd_tenant_id (to_destination t) = bf_tenant_id b))"
    by (auto simp: observe_agent_terminal_def snd_transaction split: option.split sum.split)
  then show ?thesis using observe_body_kept assms kept_refl by metis
qed

lemma notice_body_kept:
  assumes "observe_notice_body H operation t now ob = Inr (j, ob')" "outbox_inv ob"
    "rd_tenant_id (to_destination t) = tq_tenant_id (to_partition t)"
  shows "kept L (Notice n t now) ob ob'"
proof -
  let ?new = "\<lambda>canon. new_job H operation (tq_tenant_id (to_partition t)) (tq_partition_id (to_partition t)) (to_destination t) canon
          (strip (to_final_reply_text t)) (to_delivery_hold t) now"
  have "ob_truth ob' = ob_truth ob \<and> (ob_jobs ob' = ob_jobs ob \<or> (\<exists>canon. insert_job (?new canon) (ob_jobs ob) = Some (ob_jobs ob')))"
    using assms(1) by (auto simp: observe_notice_body_def Let_def split: sum.splits option.splits if_splits)
  moreover have "moves L (Notice n t now) (ob_jobs ob) rs \<and> jobs_inv rs"
    if "insert_job (?new canon) (ob_jobs ob) = Some rs" for canon rs
    using insert_job_Some [OF that] assms(2,3) new_job_fresh by (auto simp: outbox_inv_def intro: moves_append)
  ultimately show ?thesis using assms(2) by (auto simp: kept_def outbox_inv_def)
qed

lemma notice_kept:
  assumes "outbox_inv ob"
  shows "kept L (Notice n t now) ob (snd (observe_agent_notice H n t now ob))"
proof -
  let ?o = "observe_agent_notice H n t now ob"
  have "snd ?o = ob \<or> (\<exists>j. observe_notice_body H (strip n) t now ob = Inr (j, snd ?o)
      \<and> rd_tenant_id (to_destination t) = tq_tenant_id (to_partition t))"
    by (auto simp: observe_agent_notice_def Let_def snd_transaction split: sum.split)
  then show ?thesis using notice_body_kept assms kept_refl by metis
qed

text \<open>A claim: the expired leases, then the lease of the first claimable row.\<close>

lemma recover_jobs_kept: "outbox_inv ob \<Longrightarrow> kept L (Recover_jobs now) ob (snd (recover_jobs now ob))"
  unfolding recover_jobs_def snd_conv by (rule kept_update) (auto intro: js_expire)

lemma claim_job_cases:
  assumes "outbox_inv ob"
  obtains (refused) e where "claim_job L g w now ob = (Inl e, ob)"
  | (idle) "claim_job L g w now ob = (Inr None, snd (recover_jobs now ob))"
  | (leased) r where "r \<in> set (ob_jobs (snd (recover_jobs now ob)))" "claimable g r"
      "\<forall>x\<in>set (ob_jobs (snd (recover_jobs now ob))). claimable g x \<longrightarrow> (rj_created_at r, rj_reply_id r) \<le> (rj_created_at x, rj_reply_id x)"
      "claim_job L g w now ob = (Inr (Some (job (lease w (now + L) now r))),
         snd (recover_jobs now ob)\<lparr>ob_jobs := update_where (\<lambda>x. rj_reply_id x = rj_reply_id r) (lease w (now + L) now) (ob_jobs (snd (recover_jobs now ob)))\<rparr>)"
proof (cases "blank w")
  case True
  then show ?thesis by (intro refused) (simp add: claim_job_def)
next
  case nb: False
  let ?ob1 = "snd (recover_jobs now ob)"
  have inv1: "jobs_inv (ob_jobs ?ob1)" using recover_jobs_kept [OF assms, of L now] by (simp add: kept_def outbox_inv_def)
  show ?thesis
  proof (cases "claimable_jobs g ?ob1")
    case Nil
    then show ?thesis using nb by (intro idle) (simp add: claim_job_def)
  next
    case (Cons r rs)
    have "set (claimable_jobs g ?ob1) = {x \<in> set (ob_jobs ?ob1). claimable g x}" by (simp add: claimable_jobs_def)
    then have r: "r \<in> set (ob_jobs ?ob1)" "claimable g r" using Cons by auto
    have u: "unique_key rj_reply_id (ob_jobs ?ob1)" using inv1 by (simp add: jobs_inv_def)
    have one: "rowcount (\<lambda>x. rj_reply_id x = rj_reply_id r \<and> rj_delivery_state x = rj_delivery_state r) (ob_jobs ?ob1) = 1"
      unfolding rowcount_key_eq_1 [OF u] using r(1) by blast
    have eq: "update_where (\<lambda>x. rj_reply_id x = rj_reply_id r \<and> rj_delivery_state x = rj_delivery_state r) (lease w (now + L) now) (ob_jobs ?ob1)
        = update_where (\<lambda>x. rj_reply_id x = rj_reply_id r) (lease w (now + L) now) (ob_jobs ?ob1)"
      unfolding update_where_def by (rule map_cong [OF refl]) (use unique_keyD [OF u _ r(1)] in auto)
    have "List.find (\<lambda>x. rj_reply_id x = rj_reply_id r) (update_where (\<lambda>x. rj_reply_id x = rj_reply_id r) (lease w (now + L) now) (ob_jobs ?ob1))
        = Some (lease w (now + L) now r)"
      using find_update_where_key [of "\<lambda>x. rj_reply_id x = rj_reply_id r" rj_reply_id "lease w (now + L) now" "rj_reply_id r" "ob_jobs ?ob1"]
        find_unique_key [OF u r(1)] by (simp add: lease_def)
    then have c: "claim_job L g w now ob = (Inr (Some (job (lease w (now + L) now r))),
         ?ob1\<lparr>ob_jobs := update_where (\<lambda>x. rj_reply_id x = rj_reply_id r) (lease w (now + L) now) (ob_jobs ?ob1)\<rparr>)"
      using nb Cons one by (simp add: claim_job_def Let_def eq)
    have "(rj_created_at r, rj_reply_id r) \<le> (rj_created_at x, rj_reply_id x)"
      if "x \<in> set (ob_jobs ?ob1)" "claimable g x" for x
      using sort_key_first [OF Cons [unfolded claimable_jobs_def], of x] that by simp
    then show ?thesis by (intro leased [OF r _ c]) blast
  qed
qed

lemma claim_job_kept:
  assumes inv: "outbox_inv ob"
  shows "kept L (Claim_job g w now) ob (snd (claim_job L g w now ob))"
proof (rule claim_job_cases [OF inv, of L g w now])
  let ?ob1 = "snd (recover_jobs now ob)" and ?c = "Claim_job g w now"
  have ob1: "?ob1 = ob\<lparr>ob_jobs := update_where (expired now) (expire now) (ob_jobs ob)\<rparr>" by (simp add: recover_jobs_def)
  have k1: "kept L ?c ob ?ob1" unfolding ob1 using inv by (intro kept_update) (auto intro: js_expire_claim)
  show ?thesis if "claim_job L g w now ob = (Inr None, ?ob1)" using k1 that by simp
  fix r assume r: "r \<in> set (ob_jobs ?ob1)" "claimable g r"
    and c: "claim_job L g w now ob = (Inr (Some (job (lease w (now + L) now r))),
         ?ob1\<lparr>ob_jobs := update_where (\<lambda>x. rj_reply_id x = rj_reply_id r) (lease w (now + L) now) (ob_jobs ?ob1)\<rparr>)"
  have u: "unique_key rj_reply_id (ob_jobs ?ob1)" using k1 by (simp add: kept_def outbox_inv_def jobs_inv_def)
  have eq: "update_where (\<lambda>x. rj_reply_id x = rj_reply_id r) (lease w (now + L) now) (ob_jobs ?ob1) =
      map (\<lambda>x. let y = (if expired now x then expire now x else x) in if rj_reply_id y = rj_reply_id r then lease w (now + L) now y else y) (ob_jobs ob)"
    by (simp add: ob1 update_where_def Let_def)
  have m: "moves L ?c (ob_jobs ob) (update_where (\<lambda>x. rj_reply_id x = rj_reply_id r) (lease w (now + L) now) (ob_jobs ?ob1))"
    unfolding eq
  proof (rule moves_map)
    fix x assume x: "x \<in> set (ob_jobs ob)"
    define y where "y = (if expired now x then expire now x else x)"
    have y: "y \<in> set (ob_jobs ?ob1)" using x by (auto simp: ob1 set_update_where y_def)
    have "job_step L ?c x (if rj_reply_id y = rj_reply_id r then lease w (now + L) now y else y)"
    proof (cases "rj_reply_id y = rj_reply_id r")
      case True
      then have "y = r" using unique_keyD [OF u y r(1)] by simp
      then have "job_step L ?c x (lease w (now + L) now y)" using r(2) y_def by (intro js_lease) simp_all
      then show ?thesis using True by simp
    next
      case False
      have "job_step L ?c x y" by (auto simp: y_def intro: js_expire_claim js_stay)
      then show ?thesis using False by simp
    qed
    then show "job_step L ?c x (let y = (if expired now x then expire now x else x) in
        if rj_reply_id y = rj_reply_id r then lease w (now + L) now y else y)"
      by (simp only: Let_def y_def)
  qed
  have "jobs_inv (update_where (\<lambda>x. rj_reply_id x = rj_reply_id r) (lease w (now + L) now) (ob_jobs ?ob1))"
    using k1 by (intro jobs_inv_update) (simp_all add: kept_def outbox_inv_def)
  then show ?thesis using c m inv by (simp add: kept_def outbox_inv_def ob1)
qed (use inv in \<open>simp_all add: kept_refl\<close>)

lemma finish_kept:
  assumes "finish_of c = Some (j, w, a, now)" "outbox_inv ob"
  shows "kept L c ob (snd (finish j w a now ob))"
  unfolding finish_def using assms(2) by (rule kept_update_one [rotated]) (use assms(1) in \<open>auto intro: js_finish\<close>)

lemma outbox_step_kept:
  assumes inv: "outbox_inv ob"
  shows "kept (oe_lease E) c ob (outbox_step E c ob)"
proof (cases "finish_of c")
  case (Some x)
  obtain j w a now where x: "finish_of c = Some (j, w, a, now)" using Some by (cases x) auto
  show ?thesis unfolding step_finish [OF x] using x inv by (rule finish_kept)
next
  case None
  show ?thesis
  proof (cases c)
    case (Release_hold rid operation dest now)
    then show ?thesis using inv by (auto simp: release_delivery_hold_def kept_refl intro!: kept_update_one js_release split: sum.split)
  next
    case (Requeue_blocked ch now)
    then show ?thesis using inv by (auto simp: requeue_blocked_channel_def Let_def kept_refl intro!: kept_update js_unpark)
  next
    case (Suppress_job rid reason now)
    then show ?thesis using inv by (auto simp: suppress_pending_delivery_def kept_refl intro!: kept_update_one js_suppress)
  next
    case (Reconcile rid d ref now)
    then show ?thesis using inv by (auto simp: reconcile_unknown_delivery_def kept_refl intro!: kept_update_one js_reconcile)
  next
    case (Requeue_generation rid now)
    then show ?thesis using inv by (auto simp: requeue_generation_def Let_def intro!: kept_update js_retry split: option.split)
  next
    case (Complete_unknown j w e tr m now)
    then show ?thesis using inv None by (auto simp: complete_delivery_unknown_def kept_refl split: if_splits)
  qed (use inv None in \<open>simp_all add: observe_kept notice_kept claim_job_kept recover_jobs_kept kept_refl
      complete_generation_def complete_delivery_blocked_def complete_delivery_unknown_def split: if_splits\<close>)
qed

interpretation replies: invariant_machine "outbox_step E" outbox_inv for E
  by unfold_locales (use outbox_step_kept in \<open>auto simp: kept_def\<close>)

lemma new_outbox_inv: "outbox_inv new_outbox"
  by (simp add: new_outbox_def outbox_inv_def jobs_inv_def)

lemma outbox_reachable_inv: "outbox_inv (fold (outbox_step E) cs new_outbox)"
  using new_outbox_inv by (rule replies.run_inv)

text \<open>A row on which a command can only stay is kept by the command.\<close>

lemma row_stays:
  assumes "outbox_inv ob" "r \<in> set (ob_jobs ob)" "\<And>r'. job_step (oe_lease E) c r r' \<Longrightarrow> r' = r"
  shows "r \<in> set (ob_jobs (outbox_step E c ob))"
proof -
  have "moves (oe_lease E) c (ob_jobs ob) (ob_jobs (outbox_step E c ob))"
    using outbox_step_kept [OF assms(1)] by (simp add: kept_def)
  then obtain r' where "r' \<in> set (ob_jobs (outbox_step E c ob))" "job_step (oe_lease E) c r r'"
    using assms(2) unfolding moves_def by blast
  then show ?thesis using assms(3) by blast
qed

inductive_cases job_stepE: "job_step L c r r'"

text \<open>A row whose transport hold is gone and whose reply is written.\<close>

definition committed :: "reply_row \<Rightarrow> bool" where
  "committed r \<longleftrightarrow> \<not> rj_delivery_hold r \<and> \<not> blank (rj_reply_text r) \<and> rj_generation_state r = Generated"

lemma sent_stays: "job_step L c r r' \<Longrightarrow> committed r \<Longrightarrow> rj_delivery_state r = Sent \<Longrightarrow> r' = r"
  by (erule job_stepE) (auto simp: committed_def expired_def claimable_def held_by_def releasable_def parked_def suppressible_def
      quarantined_def failed_generation_def split: if_splits)

fun settles_unknown :: "pystr \<Rightarrow> outbox_cmd \<Rightarrow> bool" where
  "settles_unknown rid (Reconcile rid' d ref now) \<longleftrightarrow> rid' = rid"
| "settles_unknown rid _ \<longleftrightarrow> False"

lemma unknown_stays:
  "job_step L c r r' \<Longrightarrow> committed r \<Longrightarrow> rj_delivery_state r = Unknown \<Longrightarrow> \<not> settles_unknown (rj_reply_id r) c \<Longrightarrow> r' = r"
  by (erule job_stepE) (auto simp: committed_def expired_def claimable_def held_by_def releasable_def parked_def suppressible_def
      quarantined_def failed_generation_def split: if_splits)

fun within_delivery :: "pystr \<Rightarrow> timestamp \<Rightarrow> pystr \<Rightarrow> outbox_cmd \<Rightarrow> bool" where
  "within_delivery w t rid (Claim_job g w' now) \<longleftrightarrow> now \<le> t"
| "within_delivery w t rid (Recover_jobs now) \<longleftrightarrow> now \<le> t"
| "within_delivery w t rid (Complete_generation j w' tr now) \<longleftrightarrow> w' \<noteq> w \<or> jb_reply_id j \<noteq> rid"
| "within_delivery w t rid (Complete_delivery j w' d e m tr now) \<longleftrightarrow> w' \<noteq> w \<or> jb_reply_id j \<noteq> rid"
| "within_delivery w t rid (Complete_blocked j w' e now) \<longleftrightarrow> w' \<noteq> w \<or> jb_reply_id j \<noteq> rid"
| "within_delivery w t rid (Complete_unknown j w' e tr m now) \<longleftrightarrow> w' \<noteq> w \<or> jb_reply_id j \<noteq> rid"
| "within_delivery w t rid _ \<longleftrightarrow> True"

lemma finish_of_worker: "finish_of c = Some (j, w', a, now) \<Longrightarrow> within_delivery w t rid c \<Longrightarrow> w' \<noteq> w \<or> jb_reply_id j \<noteq> rid"
  by (cases c) (auto split: if_splits)

lemma leased_stays:
  assumes "job_step L c r r'" "committed r" "rj_delivery_state r = In_lease" "rj_lease_owner r = Some w" "rj_lease_until r = Some t"
    "within_delivery w t (rj_reply_id r) c"
  shows "r' = r"
  using assms
  by (elim job_stepE) (auto simp: committed_def expired_def claimable_def held_by_def releasable_def parked_def suppressible_def
      quarantined_def failed_generation_def dest: finish_of_worker split: if_splits)

interpretation sent: final_machine "outbox_step E" outbox_inv
    "\<lambda>r ob. committed r \<and> rj_delivery_state r = Sent \<and> r \<in> set (ob_jobs ob)" "\<lambda>_ _. True" for E
  by unfold_locales (use row_stays sent_stays in blast)

interpretation quarantine: final_machine "outbox_step E" outbox_inv
    "\<lambda>r ob. committed r \<and> rj_delivery_state r = Unknown \<and> r \<in> set (ob_jobs ob)" "\<lambda>r c. \<not> settles_unknown (rj_reply_id r) c" for E
  by unfold_locales (use row_stays unknown_stays in blast)

interpretation delivery: final_machine "outbox_step E" outbox_inv
    "\<lambda>(w, t, r) ob. committed r \<and> rj_delivery_state r = In_lease \<and> rj_lease_owner r = Some w \<and> rj_lease_until r = Some t \<and> r \<in> set (ob_jobs ob)"
    "\<lambda>(w, t, r). within_delivery w t (rj_reply_id r)" for E
  by unfold_locales (use row_stays leased_stays in \<open>simp add: case_prod_unfold; metis\<close>)

interpretation truth: final_machine "outbox_step E" outbox_inv "\<lambda>tr ob. tr \<in> set (ob_truth ob)" "\<lambda>_ _. True" for E
  by unfold_locales (use outbox_step_kept in \<open>auto simp: kept_def\<close>)

text \<open>A claim never returns a row that is neither claimable nor expired.\<close>

lemma claim_other_row:
  assumes "outbox_inv ob" "claim_job L g w now ob = (Inr (Some j), ob')" "r \<in> set (ob_jobs ob)"
    "\<not> expired now r" "\<not> claimable g r"
  shows "jb_reply_id j \<noteq> rj_reply_id r"
proof (rule claim_job_cases [OF assms(1), of L g w now])
  let ?ob1 = "snd (recover_jobs now ob)"
  fix x assume x: "x \<in> set (ob_jobs ?ob1)" "claimable g x"
    and c: "claim_job L g w now ob = (Inr (Some (job (lease w (now + L) now x))),
         ?ob1\<lparr>ob_jobs := update_where (\<lambda>y. rj_reply_id y = rj_reply_id x) (lease w (now + L) now) (ob_jobs ?ob1)\<rparr>)"
  have u: "unique_key rj_reply_id (ob_jobs ?ob1)"
    using recover_jobs_kept [OF assms(1), of L now] by (simp add: kept_def outbox_inv_def jobs_inv_def)
  have "r \<in> set (ob_jobs ?ob1)" using assms(3,4) by (force simp: recover_jobs_def set_update_where)
  then have "rj_reply_id x \<noteq> rj_reply_id r" using unique_keyD [OF u x(1)] x(2) assms(5) by blast
  moreover have "jb_reply_id j = rj_reply_id x" using c assms(2) by (simp add: job_def lease_def)
  ultimately show ?thesis by simp
qed (use assms in simp_all)

subsection \<open>Workers that finish what they claimed\<close>

text \<open>
  The coordinator completes a job only with the value its own claim returned. \<open>issued\<close> collects
  those values; a completion with any other job, or of the wrong phase, does not happen.
\<close>

definition claimed_job :: "outbox_env \<Rightarrow> outbox_cmd \<Rightarrow> outbox \<Rightarrow> reply_job list" where
  "claimed_job E c ob = (case c of
     Claim_job g w now \<Rightarrow> (case fst (claim_job (oe_lease E) g w now ob) of Inr (Some j) \<Rightarrow> [j] | _ \<Rightarrow> [])
   | _ \<Rightarrow> [])"

fun genuine :: "reply_job list \<Rightarrow> outbox_cmd \<Rightarrow> bool" where
  "genuine issued (Complete_generation j w t now) \<longleftrightarrow> j \<in> set issued \<and> jb_generation_state j = Pending_generation"
| "genuine issued (Complete_delivery j w d e m tr now) \<longleftrightarrow> j \<in> set issued \<and> jb_generation_state j = Generated"
| "genuine issued (Complete_blocked j w e now) \<longleftrightarrow> j \<in> set issued \<and> jb_generation_state j = Generated"
| "genuine issued (Complete_unknown j w e tr m now) \<longleftrightarrow> j \<in> set issued \<and> jb_generation_state j = Generated"
| "genuine issued _ \<longleftrightarrow> True"

fun desk_step :: "outbox_env \<Rightarrow> outbox_cmd \<Rightarrow> outbox \<times> reply_job list \<Rightarrow> outbox \<times> reply_job list" where
  "desk_step E c (ob, issued) = (if genuine issued c then (outbox_step E c ob, claimed_job E c ob @ issued) else (ob, issued))"

definition held_ok :: "reply_job list \<Rightarrow> reply_row \<Rightarrow> bool" where
  "held_ok issued r \<longleftrightarrow> rj_delivery_hold r \<longrightarrow> rj_delivery_state r \<in> {Not_ready, In_lease, Suppressed}
     \<and> (\<forall>j\<in>set issued. jb_reply_id j = rj_reply_id r \<longrightarrow> jb_delivery_hold j \<and> jb_generation_state j = Pending_generation)"

definition desk_inv :: "outbox \<times> reply_job list \<Rightarrow> bool" where
  "desk_inv s \<longleftrightarrow> outbox_inv (fst s) \<and> (\<forall>r\<in>set (ob_jobs (fst s)). held_ok (snd s) r)
     \<and> (\<forall>j\<in>set (snd s). jb_reply_id j \<in> rj_reply_id ` set (ob_jobs (fst s)))"

lemma held_ok_step:
  assumes "job_step L c r r'" "held_ok issued r" "genuine issued c"
  shows "held_ok issued r'"
proof -
  have id: "rj_reply_id r' = rj_reply_id r" using job_step_identity [OF assms(1)] by (simp add: job_identity_def)
  have hold: "rj_delivery_hold r' \<Longrightarrow> rj_delivery_hold r"
    using assms(1) by (elim job_stepE)
      (auto simp: set_text_def expire_def lease_def finish_row_def release_def unpark_def suppress_def reconcile_def retry_generation_def split: if_splits)
  have "rj_delivery_state r' \<in> {Not_ready, In_lease, Suppressed}" if h: "rj_delivery_hold r'"
  proof -
    have r: "rj_delivery_hold r" "rj_delivery_state r \<in> {Not_ready, In_lease, Suppressed}"
      and iss: "\<forall>j\<in>set issued. jb_reply_id j = rj_reply_id r \<longrightarrow> jb_delivery_hold j \<and> jb_generation_state j = Pending_generation"
      using hold [OF h] assms(2) by (auto simp: held_ok_def)
    show ?thesis
      using assms(1)
    proof (cases rule: job_step.cases)
      case (js_finish j w a now)
      then have jr: "jb_reply_id j = rj_reply_id r" by (simp add: held_by_def)
      have "fa_delivery_state a = Not_ready"
        using js_finish(2) iss jr assms(3) by (cases c) (auto split: if_splits)
      then show ?thesis using js_finish by (simp add: finish_row_def)
    qed (use r h in \<open>auto simp: set_text_def expire_def lease_def release_def unpark_def parked_def suppress_def reconcile_def
        quarantined_def retry_generation_def split: if_splits\<close>)
  qed
  then show ?thesis using assms(2) hold id by (auto simp: held_ok_def)
qed

lemma claim_held:
  assumes inv: "outbox_inv ob" and ok: "\<forall>r\<in>set (ob_jobs ob). held_ok issued r"
    and c: "claim_job L g w now ob = (Inr (Some j), ob')"
    and r': "r' \<in> set (ob_jobs ob')" "rj_reply_id r' = jb_reply_id j" "rj_delivery_hold r'"
  shows "g \<and> jb_delivery_hold j \<and> jb_generation_state j = Pending_generation"
proof (rule claim_job_cases [OF inv, of L g w now])
  let ?ob1 = "snd (recover_jobs now ob)"
  fix x assume x: "x \<in> set (ob_jobs ?ob1)" "claimable g x"
    and cl: "claim_job L g w now ob = (Inr (Some (job (lease w (now + L) now x))),
         ?ob1\<lparr>ob_jobs := update_where (\<lambda>y. rj_reply_id y = rj_reply_id x) (lease w (now + L) now) (ob_jobs ?ob1)\<rparr>)"
  have "outbox_inv ob'" using claim_job_kept [OF inv, of L g w now] c by (simp add: kept_def)
  then have u: "unique_key rj_reply_id (ob_jobs ob')" by (simp add: outbox_inv_def jobs_inv_def)
  have j: "j = job (lease w (now + L) now x)" using c cl by simp
  have "lease w (now + L) now x \<in> set (ob_jobs ob')" using c cl x(1) by (auto simp: set_update_where)
  then have "r' = lease w (now + L) now x"
    using unique_keyD [OF u r'(1)] r'(2) by (simp add: j job_def)
  then have hold: "rj_delivery_hold x" using r'(3) by (simp add: lease_def)
  obtain r where r: "r \<in> set (ob_jobs ob)" "x = (if expired now r then expire now r else r)"
    using x(1) by (auto simp: recover_jobs_def set_update_where)
  have "job_step L (Recover_jobs now) r x" using r(2) by (auto intro: js_expire js_stay)
  then have "held_ok issued x" using held_ok_step ok r(1) by fastforce
  then have "rj_delivery_state x \<noteq> Ready" using hold by (auto simp: held_ok_def)
  then have g: "g" "rj_generation_state x = Pending_generation" using x(2) by (auto simp: claimable_def split: if_splits)
  then show ?thesis using hold by (simp add: j job_def lease_def)
qed (use c in simp_all)

lemma claim_issues_known:
  assumes "outbox_inv ob" "claim_job L g w now ob = (Inr (Some j), ob')"
  shows "jb_reply_id j \<in> rj_reply_id ` set (ob_jobs ob')"
proof (rule claim_job_cases [OF assms(1), of L g w now])
  let ?ob1 = "snd (recover_jobs now ob)"
  fix x assume x: "x \<in> set (ob_jobs ?ob1)"
    and cl: "claim_job L g w now ob = (Inr (Some (job (lease w (now + L) now x))),
         ?ob1\<lparr>ob_jobs := update_where (\<lambda>y. rj_reply_id y = rj_reply_id x) (lease w (now + L) now) (ob_jobs ?ob1)\<rparr>)"
  have "lease w (now + L) now x \<in> set (ob_jobs ob')" using assms(2) cl x by (auto simp: set_update_where)
  then show ?thesis using assms(2) cl by (auto simp: job_def intro!: image_eqI)
qed (use assms in simp_all)

lemma claimed_jobD:
  assumes "j \<in> set (claimed_job E c ob)"
  obtains g w now where "c = Claim_job g w now"
    "claim_job (oe_lease E) g w now ob = (Inr (Some j), outbox_step E c ob)"
proof (cases c)
  case (Claim_job g w now)
  then have "fst (claim_job (oe_lease E) g w now ob) = Inr (Some j)"
    using assms by (auto simp: claimed_job_def split: sum.splits option.splits)
  then show ?thesis using that Claim_job by (auto simp: prod_eq_iff)
qed (use assms in \<open>simp_all add: claimed_job_def\<close>)

lemma desk_step_inv:
  assumes "desk_inv s"
  shows "desk_inv (desk_step E c s)"
proof (cases s)
  case (Pair ob issued)
  have inv: "outbox_inv ob" and ok: "\<forall>r\<in>set (ob_jobs ob). held_ok issued r"
    and ids: "\<forall>j\<in>set issued. jb_reply_id j \<in> rj_reply_id ` set (ob_jobs ob)"
    using assms by (simp_all add: desk_inv_def Pair)
  show ?thesis
  proof (cases "genuine issued c")
    case False
    then show ?thesis using assms Pair by simp
  next
    case True
    let ?ob' = "outbox_step E c ob"
    have k: "kept (oe_lease E) c ob ?ob'" using inv by (rule outbox_step_kept)
    have rows: "held_ok issued r'" if r': "r' \<in> set (ob_jobs ?ob')" for r'
    proof -
      have "(\<exists>r\<in>set (ob_jobs ob). job_step (oe_lease E) c r r') \<or> (fresh_job r' \<and> rj_reply_id r' \<notin> rj_reply_id ` set (ob_jobs ob))"
        using k r' by (simp add: kept_def moves_def)
      then show ?thesis
      proof
        assume "\<exists>r\<in>set (ob_jobs ob). job_step (oe_lease E) c r r'"
        then show ?thesis using held_ok_step ok True by blast
      next
        assume f: "fresh_job r' \<and> rj_reply_id r' \<notin> rj_reply_id ` set (ob_jobs ob)"
        then have "\<forall>j\<in>set issued. jb_reply_id j \<noteq> rj_reply_id r'" using ids by metis
        then show ?thesis using f by (auto simp: held_ok_def fresh_job_def)
      qed
    qed
    have new: "jb_delivery_hold j \<and> jb_generation_state j = Pending_generation"
      if j: "j \<in> set (claimed_job E c ob)" and r': "r' \<in> set (ob_jobs ?ob')" "jb_reply_id j = rj_reply_id r'" "rj_delivery_hold r'" for j r'
      using j
    proof (rule claimed_jobD)
      fix g w now assume "claim_job (oe_lease E) g w now ob = (Inr (Some j), ?ob')"
      from claim_held [OF inv ok this r'(1)] r'(2,3) show ?thesis by simp
    qed
    have keep: "rj_reply_id ` set (ob_jobs ob) \<subseteq> rj_reply_id ` set (ob_jobs ?ob')"
    proof (rule image_subsetI)
      fix r assume "r \<in> set (ob_jobs ob)"
      then obtain r' where r': "r' \<in> set (ob_jobs ?ob')" "job_step (oe_lease E) c r r'" using k unfolding kept_def moves_def by blast
      then have "rj_reply_id r = rj_reply_id r'" using job_step_identity [OF r'(2)] by (simp add: job_identity_def)
      then show "rj_reply_id r \<in> rj_reply_id ` set (ob_jobs ?ob')" using r'(1) by (rule image_eqI)
    qed
    have "jb_reply_id j \<in> rj_reply_id ` set (ob_jobs ?ob')" if "j \<in> set (claimed_job E c ob)" for j
      using that by (rule claimed_jobD) (rule claim_issues_known [OF inv])
    then have "\<forall>j\<in>set (claimed_job E c ob @ issued). jb_reply_id j \<in> rj_reply_id ` set (ob_jobs ?ob')"
      using ids keep by auto
    moreover have "held_ok (claimed_job E c ob @ issued) r'" if "r' \<in> set (ob_jobs ?ob')" for r'
      using rows [OF that] new [OF _ that] by (auto simp: held_ok_def)
    moreover have "outbox_inv ?ob'" using k by (simp add: kept_def)
    ultimately show ?thesis using True by (simp add: desk_inv_def Pair)
  qed
qed

interpretation desk: invariant_machine "desk_step E" desk_inv for E
  by unfold_locales (rule desk_step_inv)

section \<open>A sample run\<close>

definition sample_outbox_env :: outbox_env where
  "sample_outbox_env = \<lparr>oe_render = (\<lambda>_. []), oe_sha = (\<lambda>s. s), oe_lease = 30\<rparr>"

definition sample_place :: trusted_partition where
  "sample_place = partition_of (\<lambda>s. s) (sample_binding (\<lambda>s. s) (lit ''s1''))"

definition sample_destination :: reply_destination where
  "sample_destination = tb_destination (sample_binding (\<lambda>s. s) (lit ''s1''))"

definition sample_observation :: "bool \<Rightarrow> terminal_observation" where
  "sample_observation hold = \<lparr>to_partition = sample_place, to_destination = sample_destination, to_agent_attempt_id = lit ''attempt'',
     to_terminal_state = lit ''completed'', to_provider_succeeded = Some True, to_raw_trace_ref = lit ''trace'',
     to_final_reply_text = lit ''ok'', to_delivery_hold = hold\<rparr>"

definition sample_business :: verified_business_fact where
  "sample_business = \<lparr>bf_operation_id = lit ''op'', bf_tenant_id = lit ''t1'', bf_receipt = [(lit ''status'', JStr (lit ''completed''))],
     bf_writeback_verified = True, bf_original_request_ref = lit ''req'', bf_original_turn_id = lit ''turn''\<rparr>"

definition sample_reply_canonical :: pystr where
  "sample_reply_canonical = us_join [rd_tenant_id sample_destination, rd_channel sample_destination, rd_recipient_id sample_destination,
     rd_source_identity sample_destination, rd_device_id sample_destination]"

definition sample_job :: "bool \<Rightarrow> reply_row" where
  "sample_job hold = new_job (\<lambda>s. s) (lit ''op'') (lit ''t1'') (tq_partition_id sample_place) sample_destination sample_reply_canonical (lit ''ok'') hold 5"

definition sample_observed :: "bool \<Rightarrow> outbox" where
  "sample_observed hold = \<lparr>ob_truth = [\<lparr>bt_operation_id = lit ''op'', bt_tenant_id = lit ''t1'', bt_partition_id = tq_partition_id sample_place,
       bt_receipt = JObj [(lit ''status'', JStr (lit ''completed''))], bt_original_request_ref = lit ''req'',
       bt_original_turn_id = lit ''turn'', bt_recorded_at = 5\<rparr>],
     ob_agents = [agent_row_of (sample_observation hold) (Some (lit ''op'')) 5], ob_jobs = [sample_job hold]\<rparr>"

lemma strip_lit_ok [simp]: "strip (lit ''ok'') = lit ''ok''"
  by (simp add: strip_def lit_def is_space_def)

lemma sample_reply_canonical: "canonical sample_destination = Inr sample_reply_canonical"
  by (simp add: canonical_def sample_reply_canonical_def) (simp add: sample_destination_def sample_binding_def blank_lit is_space_def)

lemma sample_validated: "validate_business render sample_business = None"
  by (simp add: validate_business_def sample_business_def blank_lit is_space_def dget_def por_def)

lemma sample_observe:
  "observe_agent_terminal render (\<lambda>s. s) (sample_observation hold) (Some sample_business) 5 new_outbox
    = (Inr (Some (job (sample_job hold))), sample_observed hold)"
proof -
  have same: "rd_tenant_id sample_destination = lit ''t1''" "tq_tenant_id sample_place = lit ''t1''" "bf_tenant_id sample_business = lit ''t1''"
    "bf_operation_id sample_business = lit ''op''"
    by (simp_all add: sample_destination_def sample_binding_def sample_place_def partition_of_def sample_business_def)
  have fields: "\<not> (\<exists>v\<in>set [to_agent_attempt_id (sample_observation hold), to_terminal_state (sample_observation hold), to_raw_trace_ref (sample_observation hold)]. blank v)"
    by (simp add: sample_observation_def blank_lit is_space_def)
  have obs: "to_partition (sample_observation hold) = sample_place" "to_destination (sample_observation hold) = sample_destination"
    "to_final_reply_text (sample_observation hold) = lit ''ok''" "to_delivery_hold (sample_observation hold) = hold"
    by (simp_all add: sample_observation_def)
  have tr: "record_truth sample_place sample_business 5 [] = Inr (ob_truth (sample_observed hold))"
    by (simp add: record_truth_def sample_observed_def) (simp add: sample_business_def)
  have jb: "job_of_truth (\<lambda>s. s) (sample_observation hold) sample_business 5 [] = Inr [sample_job hold]"
    by (simp add: job_of_truth_def obs same sample_reply_canonical insert_job_def insert_row_def sample_job_def)
  have body: "observe_terminal_body (\<lambda>s. s) (sample_observation hold) (Some sample_business) 5 new_outbox
      = Inr (Some (job (sample_job hold)), sample_observed hold)"
    using tr jb by (simp add: observe_terminal_body_def new_outbox_def obs same insert_or_ignore_agent_def insert_row_def Let_def)
      (simp add: find_job_def sample_observed_def sample_job_def)
  show ?thesis unfolding observe_agent_terminal_def if_not_P [OF fields]
    by (simp add: obs same sample_validated transaction_def body)
qed

lemma sample_job_columns [simp]:
  "rj_reply_id (sample_job hold) = lit ''reply_op''" "rj_operation_id (sample_job hold) = lit ''op''"
  "rj_generation_state (sample_job hold) = Generated" "rj_delivery_state (sample_job hold) = (if hold then Not_ready else Ready)"
  "rj_reply_text (sample_job hold) = lit ''ok''" "rj_delivery_hold (sample_job hold) = hold" "rj_destination (sample_job hold) = sample_destination"
  by (simp_all add: sample_job_def new_job_def reply_id_def lit_def)

definition sample_with :: "reply_row \<Rightarrow> outbox" where
  "sample_with r = (sample_observed False)\<lparr>ob_jobs := [r]\<rparr>"

lemma sample_step1: "outbox_step sample_outbox_env (Observe (sample_observation hold) (Some sample_business) 5) new_outbox = sample_observed hold"
  by (simp add: sample_outbox_env_def sample_observe)

definition sample_leased :: reply_row where
  "sample_leased = lease (lit ''w1'') 40 10 (sample_job False)"

lemma sample_reply_claim: "claim_job 30 False (lit ''w1'') 10 (sample_observed False) = (Inr (Some (job sample_leased)), sample_with sample_leased)"
  by (simp add: claim_job_def blank_lit is_space_def recover_jobs_def sample_observed_def update_where_def expired_def claimable_jobs_def
      claimable_def rowcount_def sample_with_def sample_leased_def) (simp add: lease_def)

definition sample_finish :: "delivery_state \<Rightarrow> finish_args" where
  "sample_finish st = \<lparr>fa_state = Generated, fa_delivery_state = st, fa_reply_text = None, fa_error = (if st = Sent then [] else lit ''e''),
     fa_increment_delivery = True, fa_disposition = Some (if st = Sent then lit ''delivered'' else lit ''unknown''),
     fa_channel_message_id = (if st = Sent then None else Some []), fa_trace_ref = (if st = Sent then None else Some (lit ''tr''))\<rparr>"

lemma sample_finished: "finish (job sample_leased) (lit ''w1'') (sample_finish st) 20 (sample_with sample_leased)
    = (Inr (job (finish_row (sample_finish st) 20 sample_leased)), sample_with (finish_row (sample_finish st) 20 sample_leased))"
  by (simp add: finish_def update_one_def Let_def sample_with_def rowcount_def held_by_def update_where_def job_def)
     (simp add: sample_leased_def lease_def finish_row_def)

definition sample_prefix :: "outbox_cmd list" where
  "sample_prefix = [Observe (sample_observation False) (Some sample_business) 5, Claim_job False (lit ''w1'') 10]"

lemma sample_prefix_run: "fold (outbox_step sample_outbox_env) sample_prefix new_outbox = sample_with sample_leased"
  by (simp add: sample_prefix_def sample_step1 [simplified]) (simp add: sample_outbox_env_def sample_reply_claim)

definition sample_end :: "delivery_state \<Rightarrow> reply_row" where
  "sample_end st = finish_row (sample_finish st) 20 sample_leased"

definition sample_report :: "delivery_state \<Rightarrow> outbox_cmd" where
  "sample_report st = (if st = Sent then Complete_delivery (job sample_leased) (lit ''w1'') True [] [] [] 20
     else Complete_unknown (job sample_leased) (lit ''w1'') (lit ''e'') (lit ''tr'') [] 20)"

definition sample_second :: reply_row where
  "sample_second = new_job (\<lambda>s. s) (lit ''n2'') (lit ''t1'') (tq_partition_id sample_place) sample_destination sample_reply_canonical (lit ''ok'') False 6"

lemma sample_noticed: "\<exists>as. observe_agent_notice (\<lambda>s. s) (lit ''n2'') (sample_observation False) 6 (sample_observed True)
    = (Inr (Some (job sample_second)), (sample_observed True)\<lparr>ob_agents := as, ob_jobs := [sample_job True, sample_second]\<rparr>)"
proof -
  have n: "strip (lit ''n2'') = lit ''n2''" "lit ''n2'' \<noteq> []" by (simp_all add: strip_def lit_def is_space_def)
  have obs: "to_partition (sample_observation False) = sample_place" "to_destination (sample_observation False) = sample_destination"
    "to_final_reply_text (sample_observation False) = lit ''ok''" "to_delivery_hold (sample_observation False) = False"
    "to_terminal_state (sample_observation False) = lit ''completed''" "lit ''ok'' \<noteq> []"
    by (simp_all add: sample_observation_def lit_def)
  have same: "rd_tenant_id sample_destination = lit ''t1''" "tq_tenant_id sample_place = lit ''t1''"
    by (simp_all add: sample_destination_def sample_binding_def sample_place_def partition_of_def)
  have fields: "\<not> (\<exists>v\<in>set [to_agent_attempt_id (sample_observation False), to_terminal_state (sample_observation False),
      to_raw_trace_ref (sample_observation False)]. blank v)"
    by (simp add: sample_observation_def blank_lit is_space_def)
  have jobs: "ob_jobs (sample_observed True) = [sample_job True]" by (simp add: sample_observed_def)
  have ids: "rj_operation_id sample_second = lit ''n2''" "rj_reply_id sample_second = lit ''reply_n2''"
    "rj_delivery_id sample_second \<noteq> rj_delivery_id (sample_job True)"
    by (simp_all add: sample_second_def sample_job_def new_job_def reply_id_def delivery_id_def lit_def)
  have neq: "lit ''op'' \<noteq> lit ''n2''" "lit ''n2'' \<noteq> lit ''op''" "lit ''reply_n2'' \<noteq> lit ''reply_op''" by (simp_all add: lit_def)
  have fj: "find_job (lit ''n2'') (sample_observed True) = None" by (simp add: find_job_def jobs neq)
  have ins: "insert_job sample_second [sample_job True] = Some [sample_job True, sample_second]"
    using ids neq by (simp add: insert_job_def insert_row_def)
  have ins': "insert_job (new_job (\<lambda>s. s) (lit ''n2'') (lit ''t1'') (tq_partition_id sample_place) sample_destination sample_reply_canonical (lit ''ok'') False 6)
      [sample_job True] = Some [sample_job True, sample_second]" using ins unfolding sample_second_def .
  show ?thesis
    unfolding observe_agent_notice_def Let_def n(1) if_not_P [OF fields] using n(2) fields neq
    by (simp add: obs same observe_notice_body_def transaction_def fj sample_reply_canonical jobs ins' find_job_def ids) blast
qed

lemma sample_lease_time [simp]: "oe_lease sample_outbox_env = 30"
  by (simp add: sample_outbox_env_def)

lemma sample_open: "\<forall>c\<in>set [Recover_jobs 400, Requeue_blocked (lit ''wecom'') 401]. \<not> settles_unknown rid c"
  by simp

lemma sample_reported:
  assumes "st = Sent \<or> st = Unknown"
  shows "fold (outbox_step sample_outbox_env) (sample_prefix @ [sample_report st]) new_outbox = sample_with (sample_end st)"
proof -
  have f: "finish_of (sample_report st) = Some (job sample_leased, lit ''w1'', sample_finish st, 20)"
    using assms by (auto simp: sample_report_def sample_finish_def nonempty_def blank_lit is_space_def)
  show ?thesis by (simp add: sample_prefix_run step_finish [OF f] sample_finished sample_end_def)
qed

lemma sample_end_columns [simp]:
  "rj_delivery_state (sample_end st) = st" "committed (sample_end st)" "rj_reply_id (sample_end st) = lit ''reply_op''"
  by (simp_all add: sample_end_def finish_row_def sample_finish_def sample_leased_def lease_def committed_def coalesce_def blank_lit is_space_def)

section \<open>Properties\<close>



text \<open>
  A delivered reply is final. Once a released, written reply is recorded as delivered, its row
  never changes under any sequence of operations by any worker, and no claim for generation or
  delivery returns it again: the reply is not sent a second time.
\<close>

theorem delivered_reply_is_never_resent:
  assumes "r \<in> set (ob_jobs (fold (outbox_step E) before new_outbox))" "rj_delivery_state r = Sent" "committed r"
  shows "let ob = fold (outbox_step E) later (fold (outbox_step E) before new_outbox) in
    r \<in> set (ob_jobs ob) \<and> (\<forall>g w now j ob'. claim_job (oe_lease E) g w now ob = (Inr (Some j), ob') \<longrightarrow> jb_reply_id j \<noteq> rj_reply_id r)"
proof -
  let ?ob0 = "fold (outbox_step E) before new_outbox"
  let ?fin = "fold (outbox_step E) later ?ob0"
  have i0: "outbox_inv ?ob0" by (rule outbox_reachable_inv)
  have "r \<in> set (ob_jobs ?fin)" using sent.run_final [OF i0, of later r] assms by simp
  moreover have "\<not> expired now r" "\<not> claimable g r" for now g
    using assms(2) by (auto simp: expired_def claimable_def)
  ultimately show ?thesis using claim_other_row replies.run_inv [OF i0, of E later] by (simp add: Let_def) metis
qed

lemma delivered_reply_is_never_resent_witness:
  "\<not> (\<exists>j ob'. jb_reply_id j = lit ''reply_op'' \<and> claim_job 30 False (lit ''w2'') 500
      (fold (outbox_step sample_outbox_env) [Recover_jobs 400]
        (fold (outbox_step sample_outbox_env) (sample_prefix @ [sample_report Sent]) new_outbox)) = (Inr (Some j), ob'))"
proof -
  have "sample_end Sent \<in> set (ob_jobs (fold (outbox_step sample_outbox_env) (sample_prefix @ [sample_report Sent]) new_outbox))"
    unfolding sample_reported [OF disjI1 [OF refl]] by (simp add: sample_with_def)
  then show ?thesis
    using delivered_reply_is_never_resent [of "sample_end Sent" sample_outbox_env "sample_prefix @ [sample_report Sent]" "[Recover_jobs 400]"]
      sample_end_columns [of Sent] unfolding Let_def sample_end_columns sample_lease_time by blast
qed

text \<open>
  A quarantined delivery is never retried on its own. A released, written reply whose delivery
  outcome is unknown stays exactly as it is, and is handed to no worker, until it is reconciled by
  its reply id.
\<close>

theorem unknown_delivery_waits_for_reconciliation:
  assumes "r \<in> set (ob_jobs (fold (outbox_step E) before new_outbox))" "rj_delivery_state r = Unknown" "committed r"
    and "\<forall>c\<in>set later. \<not> settles_unknown (rj_reply_id r) c"
  shows "let ob = fold (outbox_step E) later (fold (outbox_step E) before new_outbox) in
    r \<in> set (ob_jobs ob) \<and> (\<forall>g w now j ob'. claim_job (oe_lease E) g w now ob = (Inr (Some j), ob') \<longrightarrow> jb_reply_id j \<noteq> rj_reply_id r)"
proof -
  let ?ob0 = "fold (outbox_step E) before new_outbox"
  let ?fin = "fold (outbox_step E) later ?ob0"
  have i0: "outbox_inv ?ob0" by (rule outbox_reachable_inv)
  have "r \<in> set (ob_jobs ?fin)" using quarantine.run_final [OF i0, of later r] assms by simp
  moreover have "\<not> expired now r" "\<not> claimable g r" for now g
    using assms(2) by (auto simp: expired_def claimable_def)
  ultimately show ?thesis using claim_other_row replies.run_inv [OF i0, of E later] by (simp add: Let_def) metis
qed

lemma unknown_delivery_waits_for_reconciliation_witness:
  "\<not> (\<exists>j ob'. jb_reply_id j = lit ''reply_op'' \<and> claim_job 30 False (lit ''w2'') 500
      (fold (outbox_step sample_outbox_env) [Recover_jobs 400, Requeue_blocked (lit ''wecom'') 401]
        (fold (outbox_step sample_outbox_env) (sample_prefix @ [sample_report Unknown]) new_outbox)) = (Inr (Some j), ob'))"
proof -
  have "sample_end Unknown \<in> set (ob_jobs (fold (outbox_step sample_outbox_env) (sample_prefix @ [sample_report Unknown]) new_outbox))"
    unfolding sample_reported [OF disjI2 [OF refl]] by (simp add: sample_with_def)
  then show ?thesis
    using unknown_delivery_waits_for_reconciliation [of "sample_end Unknown" sample_outbox_env "sample_prefix @ [sample_report Unknown]"
        "[Recover_jobs 400, Requeue_blocked (lit ''wecom'') 401]"]
      sample_end_columns [of Unknown] sample_open unfolding Let_def sample_end_columns sample_lease_time by blast
qed

text \<open>
  One worker sends at a time. While the delivery lease of a released, written reply runs, no
  operation other than its own worker's completion of it changes the row, no claim returns the
  reply, and a completion attempted by any other worker is refused.
\<close>

theorem delivery_lease_is_exclusive:
  assumes "r \<in> set (ob_jobs (fold (outbox_step E) before new_outbox))" "committed r" "rj_delivery_state r = In_lease"
    "rj_lease_owner r = Some w" "rj_lease_until r = Some t" "\<forall>c\<in>set others. within_delivery w t (rj_reply_id r) c"
  shows "let ob = fold (outbox_step E) others (fold (outbox_step E) before new_outbox) in
    r \<in> set (ob_jobs ob)
    \<and> (\<forall>g w' now j ob'. now \<le> t \<and> claim_job (oe_lease E) g w' now ob = (Inr (Some j), ob') \<longrightarrow> jb_reply_id j \<noteq> rj_reply_id r)
    \<and> (\<forall>w' j a now. w' \<noteq> w \<and> jb_reply_id j = rj_reply_id r \<longrightarrow> finish j w' a now ob = (Inl (Lease_lost (lit ''reply_job_not_owned'')), ob))"
proof -
  let ?ob0 = "fold (outbox_step E) before new_outbox"
  let ?fin = "fold (outbox_step E) others ?ob0"
  have i0: "outbox_inv ?ob0" by (rule outbox_reachable_inv)
  have r: "r \<in> set (ob_jobs ?fin)" using delivery.run_final [OF i0, of others "(w, t, r)" E] assms by simp
  have inv: "outbox_inv ?fin" using i0 by (rule replies.run_inv)
  then have u: "unique_key rj_reply_id (ob_jobs ?fin)" by (simp add: outbox_inv_def jobs_inv_def)
  have "jb_reply_id j \<noteq> rj_reply_id r" if "now \<le> t" "claim_job (oe_lease E) g w' now ?fin = (Inr (Some j), ob')" for g w' now j ob'
    using claim_other_row [OF inv that(2) r] assms(3,5) that(1) by (auto simp: expired_def claimable_def split: if_splits)
  moreover have "finish j w' a now ?fin = (Inl (Lease_lost (lit ''reply_job_not_owned'')), ?fin)"
    if "w' \<noteq> w" "jb_reply_id j = rj_reply_id r" for w' j a now
  proof -
    have "rowcount (held_by (jb_reply_id j) w') (ob_jobs ?fin) = 0"
      using unique_keyD [OF u _ r] that assms(4) by (force simp: rowcount_eq_0 held_by_def)
    then show ?thesis by (simp add: finish_def update_one_def)
  qed
  ultimately show ?thesis using r by (simp add: Let_def) blast
qed

lemma delivery_lease_is_exclusive_witness:
  "sample_leased \<in> set (ob_jobs (fold (outbox_step sample_outbox_env) [Recover_jobs 40]
      (fold (outbox_step sample_outbox_env) sample_prefix new_outbox)))
   \<and> fst (finish (job sample_leased) (lit ''w2'') (sample_finish Sent) 39 (fold (outbox_step sample_outbox_env) [Recover_jobs 40]
      (fold (outbox_step sample_outbox_env) sample_prefix new_outbox))) = Inl (Lease_lost (lit ''reply_job_not_owned''))"
proof -
  have c: "committed sample_leased" "rj_delivery_state sample_leased = In_lease" "rj_lease_owner sample_leased = Some (lit ''w1'')"
    "rj_lease_until sample_leased = Some 40" "jb_reply_id (job sample_leased) = rj_reply_id sample_leased"
    by (simp_all add: sample_leased_def lease_def committed_def job_def blank_lit is_space_def)
  have "sample_leased \<in> set (ob_jobs (fold (outbox_step sample_outbox_env) sample_prefix new_outbox))"
    by (simp add: sample_prefix_run sample_with_def)
  from delivery_lease_is_exclusive [OF this c(1-4), of "[Recover_jobs 40]"]
  have e: "sample_leased \<in> set (ob_jobs (fold (outbox_step sample_outbox_env) [Recover_jobs 40]
        (fold (outbox_step sample_outbox_env) sample_prefix new_outbox)))"
    "w' \<noteq> lit ''w1'' \<Longrightarrow> jb_reply_id j = rj_reply_id sample_leased \<Longrightarrow> fst (finish j w' a now (fold (outbox_step sample_outbox_env) [Recover_jobs 40]
        (fold (outbox_step sample_outbox_env) sample_prefix new_outbox))) = Inl (Lease_lost (lit ''reply_job_not_owned''))" for w' j a now
    unfolding Let_def by auto
  have "lit ''w2'' \<noteq> lit ''w1''" by (simp add: lit_def)
  from e(1) e(2) [OF this c(5)] show ?thesis by (rule conjI)
qed

text \<open>
  A reply on transport hold is not sent. When every completion uses a job that its worker
  claimed for that phase, a reply whose hold is set is never returned by a delivery claim, whatever
  else happens.
\<close>

theorem held_reply_is_not_sent:
  assumes "fold (desk_step E) cs (new_outbox, []) = (ob, issued)"
    and "r \<in> set (ob_jobs ob)" "rj_delivery_hold r" "claim_delivery (oe_lease E) w now ob = (Inr (Some j), ob')"
  shows "jb_reply_id j \<noteq> rj_reply_id r"
proof
  assume id: "jb_reply_id j = rj_reply_id r"
  have "desk_inv (fold (desk_step E) cs (new_outbox, []))"
    by (rule desk.run_inv) (simp add: desk_inv_def new_outbox_inv, simp add: new_outbox_def)
  then have inv: "outbox_inv ob" and ok: "\<forall>r\<in>set (ob_jobs ob). held_ok issued r" using assms(1) by (simp_all add: desk_inv_def)
  obtain r' where r': "r' \<in> set (ob_jobs ob')" "job_step (oe_lease E) (Claim_job False w now) r r'"
    using claim_job_kept [OF inv, of "oe_lease E" False w now] assms(2,4) by (auto simp: kept_def moves_def)
  have "rj_delivery_hold r' = rj_delivery_hold r"
    using r'(2) by (elim job_stepE) (auto simp: expire_def lease_def split: if_splits)
  then show False
    using claim_held [OF inv ok assms(4) r'(1)] job_step_identity [OF r'(2)] assms(3) id by (simp add: job_identity_def)
qed

lemma held_reply_is_not_sent_witness:
  "\<exists>ob j ob'. fold (desk_step sample_outbox_env) [Observe (sample_observation True) (Some sample_business) 5, Notice (lit ''n2'') (sample_observation False) 6]
      (new_outbox, []) = (ob, []) \<and> sample_job True \<in> set (ob_jobs ob)
    \<and> claim_delivery 30 (lit ''w1'') 10 ob = (Inr (Some j), ob') \<and> jb_reply_id j \<noteq> lit ''reply_op''"
proof -
  obtain as where as: "observe_agent_notice (\<lambda>s. s) (lit ''n2'') (sample_observation False) 6 (sample_observed True)
    = (Inr (Some (job sample_second)), (sample_observed True)\<lparr>ob_agents := as, ob_jobs := [sample_job True, sample_second]\<rparr>)"
    using sample_noticed by blast
  define ob where "ob = (sample_observed True)\<lparr>ob_agents := as, ob_jobs := [sample_job True, sample_second]\<rparr>"
  have jobs: "ob_jobs ob = [sample_job True, sample_second]" by (simp add: ob_def)
  have run: "fold (desk_step sample_outbox_env) [Observe (sample_observation True) (Some sample_business) 5, Notice (lit ''n2'') (sample_observation False) 6]
      (new_outbox, []) = (ob, [])"
    by (simp add: sample_outbox_env_def sample_observe as claimed_job_def ob_def)
  have sec: "claimable False sample_second" "rj_lease_until sample_second = None" "rj_delivery_state sample_second = Ready" "rj_generation_state sample_second = Generated"
    by (simp_all add: sample_second_def claimable_def new_job_def lit_def)
  have "recover_jobs 10 ob = (0, ob)"
    by (simp add: recover_jobs_def jobs expired_def rowcount_def update_where_def sec ob_def)
  then have cl: "\<exists>j ob'. claim_delivery 30 (lit ''w1'') 10 ob = (Inr (Some j), ob')"
    by (simp add: claim_job_def blank_lit is_space_def claimable_jobs_def jobs sec claimable_def rowcount_def Let_def update_where_def)
       (simp add: lease_def)
  have mem: "sample_job True \<in> set (ob_jobs ob)" by (simp add: jobs)
  obtain j ob' where c: "claim_delivery 30 (lit ''w1'') 10 ob = (Inr (Some j), ob')" using cl by blast
  have "jb_reply_id j \<noteq> lit ''reply_op''"
    using held_reply_is_not_sent [OF run mem, of "lit ''w1''" 10 j ob'] c by simp
  then show ?thesis using run mem c by blast
qed

text \<open>
  The business truth behind a reply cannot be replaced. Once the recovery request of a job can
  be built, the same request, with the same verified receipt and original turn, is built for it
  after any sequence of operations: later observations of the operation never overwrite it.
\<close>

theorem recovery_request_is_stable:
  assumes "reply_recovery_request j (fold (outbox_step E) before new_outbox) = Inr req"
  shows "reply_recovery_request j (fold (outbox_step E) later (fold (outbox_step E) before new_outbox)) = Inr req"
proof -
  let ?ob0 = "fold (outbox_step E) before new_outbox"
  let ?fin = "fold (outbox_step E) later ?ob0"
  have i0: "outbox_inv ?ob0" by (rule outbox_reachable_inv)
  obtain tr where tr: "List.find (\<lambda>t. bt_operation_id t = jb_operation_id j) (ob_truth ?ob0) = Some tr"
    using assms by (auto simp: reply_recovery_request_def split: option.splits)
  have mem: "tr \<in> set (ob_truth ?ob0)" and op: "bt_operation_id tr = jb_operation_id j" using find_SomeD [OF tr] by auto
  have fin: "tr \<in> set (ob_truth ?fin)" using truth.run_final [OF i0, of later tr E] mem by simp
  have "unique_key bt_operation_id (ob_truth ?fin)" using replies.run_inv [OF i0] by (simp add: outbox_inv_def)
  from find_unique_key [OF this fin] have "List.find (\<lambda>t. bt_operation_id t = jb_operation_id j) (ob_truth ?fin) = Some tr"
    unfolding op .
  then show ?thesis using assms tr by (simp add: reply_recovery_request_def)
qed

lemma recovery_request_is_stable_witness:
  "\<exists>req. rr_verified_receipt req = JObj [(lit ''status'', JStr (lit ''completed''))] \<and>
     reply_recovery_request (job sample_leased) (fold (outbox_step sample_outbox_env) [Recover_jobs 70, Requeue_blocked (lit ''wecom'') 71]
       (fold (outbox_step sample_outbox_env) sample_prefix new_outbox)) = Inr req"
proof -
  have "\<exists>req. rr_verified_receipt req = JObj [(lit ''status'', JStr (lit ''completed''))] \<and>
      reply_recovery_request (job sample_leased) (fold (outbox_step sample_outbox_env) sample_prefix new_outbox) = Inr req"
    by (simp add: sample_prefix_run reply_recovery_request_def sample_with_def sample_observed_def sample_leased_def lease_def job_def)
       (simp add: sample_job_def new_job_def)
  then show ?thesis using recovery_request_is_stable by blast
qed

text \<open>
  Releasing the transport hold of a suppressed reply revives it. A generated reply that an
  operator suppressed while it was on hold becomes pending again when the hold is released, and the
  delivery worker can claim it.
\<close>

theorem release_revives_suppressed_reply:
  assumes "fold (outbox_step E) before new_outbox = ob" "r \<in> set (ob_jobs ob)" "rj_generation_state r = Generated"
    "rj_delivery_state r = Not_ready" "rj_delivery_hold r" "\<not> blank (rj_reply_id r)" "\<not> blank reason"
    "canonical (rj_destination r) = Inr canon"
  shows "let ob1 = snd (suppress_pending_delivery (rj_reply_id r) reason t1 ob);
             ob2 = snd (release_delivery_hold (rj_reply_id r) (rj_operation_id r) (rj_destination r) t2 ob1)
    in (\<exists>x\<in>set (ob_jobs ob1). rj_reply_id x = rj_reply_id r \<and> rj_delivery_state x = Suppressed)
     \<and> (\<exists>x\<in>set (ob_jobs ob2). rj_reply_id x = rj_reply_id r \<and> claimable False x)"
proof -
  have inv: "outbox_inv ob" using outbox_reachable_inv [of E before] assms(1) by simp
  let ?ob1 = "ob\<lparr>ob_jobs := update_where (suppressible (rj_reply_id r)) (suppress reason t1) (ob_jobs ob)\<rparr>"
  have e1: "snd (suppress_pending_delivery (rj_reply_id r) reason t1 ob) = ?ob1"
  proof -
    have ok: "\<not> (blank (rj_reply_id r) \<or> blank reason)" using assms(6,7) by simp
    show ?thesis unfolding suppress_pending_delivery_def if_not_P [OF ok]
      by (rule update_one_hit [OF inv assms(2)]) (simp_all add: suppressible_def suppress_def assms(3,4))
  qed
  let ?x = "suppress reason t1 r"
  have x: "?x \<in> set (ob_jobs ?ob1)" using assms by (force simp: set_update_where suppressible_def)
  have "outbox_inv ?ob1"
    using kept_update [of "suppressible (rj_reply_id r)" 0 "Suppress_job (rj_reply_id r) reason t1"] inv js_suppress by (auto simp: kept_def)
  have e2: "snd (release_delivery_hold (rj_reply_id r) (rj_operation_id r) (rj_destination r) t2 ?ob1)
      = ?ob1\<lparr>ob_jobs := update_where (releasable (rj_reply_id r) (rj_operation_id r) (rj_destination r)) (release t2) (ob_jobs ?ob1)\<rparr>"
  proof -
    have id: "rj_reply_id ?x = rj_reply_id r" by (simp add: suppress_def)
    have "releasable (rj_reply_id r) (rj_operation_id r) (rj_destination r) ?x" using assms(5) by (simp add: releasable_def suppress_def)
    from update_one_hit [where f = "release t2" and P = "releasable (rj_reply_id r) (rj_operation_id r) (rj_destination r)",
        OF \<open>outbox_inv ?ob1\<close> x this, unfolded id]
    show ?thesis unfolding release_delivery_hold_def assms(8) sum.case by (simp add: releasable_def release_def)
  qed
  have "release t2 ?x \<in> set (update_where (releasable (rj_reply_id r) (rj_operation_id r) (rj_destination r)) (release t2) (ob_jobs ?ob1))"
    unfolding set_update_where by (rule image_eqI [OF _ x]) (simp add: releasable_def suppress_def assms(5))
  moreover have "rj_reply_id (release t2 ?x) = rj_reply_id r" "claimable False (release t2 ?x)" "rj_reply_id ?x = rj_reply_id r" "rj_delivery_state ?x = Suppressed"
    by (simp_all add: release_def suppress_def claimable_def assms(3))
  moreover have sel: "ob_jobs (b\<lparr>ob_jobs := rs\<rparr>) = rs" for b rs by simp
  ultimately show ?thesis using x unfolding e1 Let_def e2 sel by blast
qed

lemma release_revives_suppressed_reply_witness:
  "\<exists>x\<in>set (ob_jobs (snd (release_delivery_hold (lit ''reply_op'') (lit ''op'') sample_destination 8
      (snd (suppress_pending_delivery (lit ''reply_op'') (lit ''obsolete'') 7 (sample_observed True)))))). claimable False x"
proof -
  have "fold (outbox_step sample_outbox_env) [Observe (sample_observation True) (Some sample_business) 5] new_outbox = sample_observed True"
    unfolding fold.simps o_apply id_apply by (rule sample_step1)
  moreover have "sample_job True \<in> set (ob_jobs (sample_observed True))" by (simp add: sample_observed_def)
  moreover have "\<not> blank (lit ''reply_op'')" "\<not> blank (lit ''obsolete'')" by (simp_all add: blank_lit is_space_def)
  ultimately show ?thesis
    using release_revives_suppressed_reply [of sample_outbox_env "[Observe (sample_observation True) (Some sample_business) 5]" "sample_observed True" "sample_job True" "lit ''obsolete''" sample_reply_canonical 7 8]
      sample_reply_canonical unfolding Let_def by (auto simp del: fold.simps)
qed

end
