(* ===== verification/DeliveryAuthority.thy ===== *)
theory DeliveryAuthority
  imports WorkAuthority
begin

text \<open>
  \<^verbatim>\<open>runtime/plugins/tuoguan_core/proactive_delivery_authority.py\<close>: may a reply that the work runtime has
  bound to a destination be sent there now? The documents that the class reads from the workspace
  are a record of JSON values; a document that the store cannot read is \<open>None\<close>. The parameter
  \<open>render\<close> is \<open>str\<close> on JSON values that are not strings.
\<close>

section \<open>Python helpers\<close>

text \<open>A raised exception: one of the work runtime, or any other by the name of its class.\<close>

datatype py_exn = Runtime wr_error | Py_error pystr

definition sbind :: "'e + 'a \<Rightarrow> ('a \<Rightarrow> 'e + 'b) \<Rightarrow> 'e + 'b" where
  "sbind m f = (case m of Inl e \<Rightarrow> Inl e | Inr a \<Rightarrow> f a)"

lemma sbind_Inr [simp]: "sbind (Inr a) f = f a"
  by (simp add: sbind_def)

lemma sbind_Inl [simp]: "sbind (Inl e) f = Inl e"
  by (simp add: sbind_def)

lemma sbind_eq_Inr: "sbind m f = Inr b \<longleftrightarrow> (\<exists>a. m = Inr a \<and> f a = Inr b)"
  by (cases m) simp_all

text \<open>The values that \<open>for x in v\<close> yields for a JSON value, a \<open>TypeError\<close> when it yields none.\<close>

fun py_iter :: "json \<Rightarrow> py_exn + json list" where
  "py_iter (JList xs) = Inr xs"
| "py_iter (JStr s) = Inr (map (\<lambda>c. JStr [c]) s)"
| "py_iter (JObj kvs) = Inr (map (\<lambda>kv. JStr (fst kv)) kvs)"
| "py_iter _ = Inl (Py_error (lit ''TypeError''))"

text \<open>\<open>str(v or "")\<close>, and \<open>{str(x).strip() for x in (v or []) if str(x).strip()}\<close> as a list.\<close>

definition text_of :: "(json \<Rightarrow> pystr) \<Rightarrow> json \<Rightarrow> pystr" where
  "text_of render v = py_str render (por v (JStr []))"

definition texts_of :: "(json \<Rightarrow> pystr) \<Rightarrow> json \<Rightarrow> py_exn + pystr list" where
  "texts_of render v = sbind (py_iter (por v (JList []))) (\<lambda>xs. Inr (filter (\<lambda>s. s \<noteq> []) (map (strip \<circ> py_str render) xs)))"

text \<open>\<open>s.split(sep, 1)\<close> when \<open>sep\<close> occurs, and the last field of \<open>s.rsplit(sep, 1)\<close>.\<close>

definition split_once :: "nat \<Rightarrow> pystr \<Rightarrow> pystr \<times> pystr" where
  "split_once c s = (takeWhile (\<lambda>x. x \<noteq> c) s, tl (dropWhile (\<lambda>x. x \<noteq> c) s))"

definition last_field :: "nat \<Rightarrow> pystr \<Rightarrow> pystr" where
  "last_field c s = rev (takeWhile (\<lambda>x. x \<noteq> c) (rev s))"

lemma split_once_append: "c \<notin> set a \<Longrightarrow> split_once c (a @ c # b) = (a, b)"
  by (simp add: split_once_def takeWhile_append dropWhile_append)

lemma last_field_free: "c \<notin> set (last_field c s)"
  unfolding last_field_def set_rev by (auto dest: set_takeWhileD)

definition colon :: nat where
  "colon = of_char CHR '':''"

section \<open>The directory\<close>

record authority_docs =
  ad_authorization :: "json option"
  ad_directory :: "json option"
  ad_governance :: "json option"
  ad_staff :: "json option"

record delivery_decision =
  dd_allowed :: bool
  dd_reason :: pystr
  dd_role :: pystr

definition permitted_roles :: "pystr list" where
  "permitted_roles = [lit ''boss'', lit ''manager'', lit ''teacher'']"

definition permitted_source_kinds :: "pystr list" where
  "permitted_source_kinds = [lit ''agenda'', lit ''relationship_touch'', lit ''task_delivery'']"

definition inactive_person_states :: "pystr list" where
  "inactive_person_states = [lit ''pending'', lit ''suspended'', lit ''left'', lit ''inactive'', lit ''offboarded'', lit ''terminated'',
     [0x79BB, 0x804C], [0x505C, 0x7528]]"

definition recipient_key :: "pystr \<Rightarrow> pystr" where
  "recipient_key v = (let t = strip v in if colon \<in> set t then last_field colon t else t)"

definition offboarded_fields :: "pystr list" where
  "offboarded_fields = [lit ''user_id'', lit ''userid'', lit ''canonical_user_id'', lit ''staff_user_id'', lit ''id'']"

fun offboarded_row :: "(json \<Rightarrow> pystr) \<Rightarrow> json \<Rightarrow> pystr list" where
  "offboarded_row render (JStr s) = [strip s]"
| "offboarded_row render (JObj kvs) =
     take 1 (filter (\<lambda>s. s \<noteq> []) (map (\<lambda>field. strip (text_of render (dget kvs field))) offboarded_fields))"
| "offboarded_row render _ = []"

fun offboarded_user_ids :: "(json \<Rightarrow> pystr) \<Rightarrow> json \<Rightarrow> pystr list" where
  "offboarded_user_ids render (JList rows) = concat (map (offboarded_row render) rows)"
| "offboarded_user_ids render _ = []"

definition effective_role :: "(json \<Rightarrow> pystr) \<Rightarrow> (pystr, json) dict \<Rightarrow> pystr \<Rightarrow> py_exn + pystr" where
  "effective_role render directory recipient = sbind (texts_of render (dget directory (lit ''super_users''))) (\<lambda>owners.
     Inr (if recipient \<in> set owners then lit ''boss''
       else lower (strip (text_of render (dget (as_dict (dget directory (lit ''user_roles''))) recipient)))))"

definition source_kind_for_tenant :: "pystr \<Rightarrow> pystr \<Rightarrow> pystr" where
  "source_kind_for_tenant source_identity tenant_id =
     (let source = strip source_identity; tenant = strip tenant_id in
      if source = [] \<or> tenant = [] \<or> colon \<notin> set source then []
      else let (kind, source_tenant) = split_once colon source in
        if kind \<in> set permitted_source_kinds \<and> source_tenant = tenant then kind else [])"

definition human_prefix :: "pystr \<Rightarrow> pystr" where
  "human_prefix tenant = lit ''human_command:'' @ tenant @ lit '':''"

definition human_command_actor :: "pystr \<Rightarrow> pystr \<Rightarrow> pystr" where
  "human_command_actor source_identity tenant_id =
     (let source = strip source_identity; tenant = strip tenant_id; p = human_prefix tenant in
      if tenant = [] \<or> take (length p) source \<noteq> p then [] else strip (drop (length p) source))"

definition read_doc :: "json option \<Rightarrow> py_exn + json" where
  "read_doc d = (case d of None \<Rightarrow> Inl (Py_error (lit ''TuoguanStoreError'')) | Some v \<Rightarrow> Inr v)"

definition directory_of :: "authority_docs \<Rightarrow> py_exn + (pystr, json) dict" where
  "directory_of D = (case ad_directory D of
     None \<Rightarrow> Inl (Runtime (Rejected (lit ''proactive_delivery_directory_unavailable'')))
   | Some (JObj kvs) \<Rightarrow> Inr kvs
   | Some _ \<Rightarrow> Inl (Runtime (Rejected (lit ''proactive_delivery_directory_invalid''))))"

fun rows_of :: "json \<Rightarrow> json list" where
  "rows_of (JList xs) = xs"
| "rows_of _ = []"

fun is_obj :: "json \<Rightarrow> bool" where
  "is_obj (JObj kvs) = True"
| "is_obj _ = False"

text \<open>The rows of a list that describe the person, and the state that denies the delivery.\<close>

definition person_row :: "(json \<Rightarrow> pystr) \<Rightarrow> pystr \<Rightarrow> pystr \<Rightarrow> json \<Rightarrow> bool" where
  "person_row render tenant recipient row \<longleftrightarrow> is_obj row
     \<and> text_of render (dget (as_dict row) (lit ''tenant_id'')) = tenant
     \<and> text_of render (dget (as_dict row) (lit ''staff_user_id'')) = recipient"

definition active_employment :: "(json \<Rightarrow> pystr) \<Rightarrow> pystr \<Rightarrow> pystr \<Rightarrow> json \<Rightarrow> bool" where
  "active_employment render tenant recipient row \<longleftrightarrow> person_row render tenant recipient row
     \<and> text_of render (dget (as_dict row) (lit ''state'')) = lit ''active''
     \<and> text_of render (dget (as_dict row) (lit ''effective_until'')) = []"

definition governance_denial :: "(json \<Rightarrow> pystr) \<Rightarrow> pystr \<Rightarrow> pystr \<Rightarrow> (pystr, json) dict \<Rightarrow> pystr" where
  "governance_denial render tenant recipient g =
     (case List.find (person_row render tenant recipient) (rows_of (dget g (lit ''people''))) of
        None \<Rightarrow> []
      | Some person \<Rightarrow>
          (let state = lower (strip (text_of render (dget (as_dict person) (lit ''state'')))) in
           if state \<noteq> lit ''active'' then lit ''proactive_recipient_personnel_'' @ (if state = [] then lit ''not_active'' else state)
           else if \<not> (\<exists>row\<in>set (rows_of (dget g (lit ''employments''))). active_employment render tenant recipient row)
           then lit ''proactive_recipient_no_active_employment'' else []))"

definition staff_denial :: "(json \<Rightarrow> pystr) \<Rightarrow> pystr \<Rightarrow> (pystr, json) dict \<Rightarrow> pystr" where
  "staff_denial render recipient staff = (case dget staff recipient of
     JObj p \<Rightarrow>
       (let state = lower (strip (py_str render (por (dget p (lit ''employment_status'')) (por (dget p (lit ''status'')) (JStr []))))) in
        if state \<in> set inactive_person_states then lit ''proactive_recipient_staff_'' @ state else [])
   | _ \<Rightarrow> [])"

definition lifecycle_denial :: "(json \<Rightarrow> pystr) \<Rightarrow> authority_docs \<Rightarrow> pystr \<Rightarrow> pystr \<Rightarrow> py_exn + pystr" where
  "lifecycle_denial render D tenant recipient = sbind (read_doc (ad_governance D)) (\<lambda>g.
     let denial = governance_denial render tenant recipient (as_dict g) in
     if denial \<noteq> [] then Inr denial
     else sbind (read_doc (ad_staff D)) (\<lambda>s. Inr (staff_denial render recipient (as_dict s))))"

section \<open>The decision\<close>

text \<open>The identity sets that the directory lists.\<close>

record identity_sets =
  is_allowed :: "pystr list"
  is_contacts :: "pystr list"
  is_pending :: "pystr list"
  is_rejected :: "pystr list"
  is_offboarded :: "pystr list"

definition identity_sets_of :: "(json \<Rightarrow> pystr) \<Rightarrow> (pystr, json) dict \<Rightarrow> py_exn + identity_sets" where
  "identity_sets_of render d =
     sbind (texts_of render (dget d (lit ''allowed_users''))) (\<lambda>allowed.
     sbind (texts_of render (dget d (lit ''pending_users''))) (\<lambda>pending.
     sbind (texts_of render (dget d (lit ''rejected_users''))) (\<lambda>rejected.
     Inr \<lparr>is_allowed = allowed, is_contacts = map fst (as_dict (dget d (lit ''wecom_contacts''))), is_pending = pending,
       is_rejected = rejected, is_offboarded = offboarded_user_ids render (dget d (lit ''offboarded_users''))\<rparr>)))"

definition deny :: "string \<Rightarrow> pystr \<Rightarrow> py_exn + delivery_decision" where
  "deny reason role = Inr \<lparr>dd_allowed = False, dd_reason = lit reason, dd_role = role\<rparr>"

definition decide_human :: "(json \<Rightarrow> pystr) \<Rightarrow> authority_docs \<Rightarrow> reply_destination \<Rightarrow> py_exn + delivery_decision" where
  "decide_human render D dest =
     (let tenant = strip (rd_tenant_id dest);
          human_actor = human_command_actor (rd_source_identity dest) tenant;
          actor = recipient_key human_actor; recipient = recipient_key (rd_recipient_id dest) in
      if human_actor = [] \<or> rd_channel dest \<noteq> lit ''wecom_callback'' then deny ''human_command_source_invalid'' []
      else sbind (directory_of D) (\<lambda>d. sbind (identity_sets_of render d) (\<lambda>ids.
        sbind (effective_role render d actor) (\<lambda>actor_role. sbind (effective_role render d recipient) (\<lambda>role.
        if actor \<notin> set (is_allowed ids) \<or> actor \<in> set (is_pending ids) \<or> actor \<in> set (is_rejected ids) \<or> actor \<in> set (is_offboarded ids)
        then deny ''human_command_sender_not_current_internal'' role
        else sbind (lifecycle_denial render D tenant actor) (\<lambda>actor_lifecycle.
          if actor_lifecycle \<noteq> [] then deny ''human_command_sender_inactive'' role
          else if actor_role \<notin> {lit ''boss'', lit ''manager''} then deny ''human_command_sender_role_denied'' role
          else if recipient \<notin> set (is_allowed ids) then deny ''human_command_recipient_identity_untrusted'' role
          else if recipient \<notin> set (is_contacts ids) then deny ''human_command_recipient_wecom_binding_missing'' role
          else if recipient \<in> set (is_pending ids) then deny ''human_command_recipient_pending'' role
          else if recipient \<in> set (is_rejected ids) then deny ''human_command_recipient_rejected'' role
          else if recipient \<in> set (is_offboarded ids) then deny ''human_command_recipient_offboarded'' role
          else sbind (lifecycle_denial render D tenant recipient) (\<lambda>reason.
            if reason \<noteq> [] then Inr \<lparr>dd_allowed = False, dd_reason = reason, dd_role = role\<rparr>
            else if role \<notin> {lit ''teacher'', lit ''manager''} then deny ''human_command_recipient_role_denied'' role
            else Inr \<lparr>dd_allowed = True, dd_reason = lit ''explicit_human_command_internal_recipient'', dd_role = role\<rparr>)))))))"

text \<open>The grant that the policy document states for a proactive source.\<close>

definition source_allowed :: "(json \<Rightarrow> pystr) \<Rightarrow> (pystr, json) dict \<Rightarrow> pystr \<Rightarrow> pystr \<Rightarrow> py_exn + bool" where
  "source_allowed render scope source source_kind =
     sbind (texts_of render (dget scope (lit ''source_kinds''))) (\<lambda>kinds.
     sbind (py_iter (por (dget scope (lit ''sources'')) (JList []))) (\<lambda>sources.
     Inr (if kinds \<noteq> [] then source_kind \<in> set kinds else source \<in> py_str render ` set sources)))"

definition check_recipient :: "(json \<Rightarrow> pystr) \<Rightarrow> authority_docs \<Rightarrow> pystr \<Rightarrow> pystr \<Rightarrow> py_exn + json list \<Rightarrow> py_exn + delivery_decision" where
  "check_recipient render D tenant recipient role_list =
     sbind (directory_of D) (\<lambda>d. sbind (identity_sets_of render d) (\<lambda>ids. sbind (effective_role render d recipient) (\<lambda>role. sbind role_list (\<lambda>roles.
       if recipient \<notin> set (is_allowed ids) then deny ''proactive_recipient_identity_untrusted'' role
       else if recipient \<notin> set (is_contacts ids) then deny ''proactive_recipient_wecom_binding_missing'' role
       else if recipient \<in> set (is_pending ids) then deny ''proactive_recipient_pending'' role
       else if recipient \<in> set (is_rejected ids) then deny ''proactive_recipient_rejected'' role
       else if recipient \<in> set (is_offboarded ids) then deny ''proactive_recipient_offboarded'' role
       else sbind (lifecycle_denial render D tenant recipient) (\<lambda>reason.
         if reason \<noteq> [] then Inr \<lparr>dd_allowed = False, dd_reason = reason, dd_role = role\<rparr>
         else if role \<notin> (\<lambda>x. lower (py_str render x)) ` set roles then deny ''proactive_recipient_role_denied'' role
         else Inr \<lparr>dd_allowed = True, dd_reason = lit ''institutional_proactive_authorization_active'', dd_role = role\<rparr>)))))"

definition decide_proactive :: "(json \<Rightarrow> pystr) \<Rightarrow> authority_docs \<Rightarrow> pystr \<Rightarrow> reply_destination \<Rightarrow> py_exn + delivery_decision" where
  "decide_proactive render D source_kind dest =
     (let tenant = strip (rd_tenant_id dest); recipient = recipient_key (rd_recipient_id dest) in
      sbind (read_doc (ad_authorization D)) (\<lambda>policy. let pol = as_dict policy; scope = as_dict (dget pol (lit ''scope'')) in
        if \<not> is_obj policy \<or> dget pol (lit ''state'') \<noteq> JStr (lit ''active'') then deny ''institutional_proactive_authorization_missing'' []
        else if text_of render (dget pol (lit ''tenant_id'')) \<noteq> tenant then deny ''proactive_authorization_tenant_mismatch'' []
        else if text_of render (dget scope (lit ''channel'')) \<noteq> rd_channel dest then deny ''proactive_authorization_channel_denied'' []
        else sbind (source_allowed render scope (rd_source_identity dest) source_kind) (\<lambda>ok.
          if \<not> ok then deny ''proactive_authorization_source_denied'' []
          else check_recipient render D tenant recipient (py_iter (por (dget scope (lit ''recipient_roles'')) (JList []))))))"

definition decide :: "(json \<Rightarrow> pystr) \<Rightarrow> authority_docs \<Rightarrow> reply_destination \<Rightarrow> py_exn + delivery_decision" where
  "decide render D dest = (case canonical dest of
     Inl e \<Rightarrow> Inl (Runtime e)
   | Inr _ \<Rightarrow>
     (let source = rd_source_identity dest; source_kind = source_kind_for_tenant source (strip (rd_tenant_id dest)) in
      if take (length (lit ''human_command:'')) source = lit ''human_command:'' then decide_human render D dest
      else if source_kind = []
      then Inr \<lparr>dd_allowed = True, dd_reason = lit ''non_proactive_bound_destination'', dd_role = []\<rparr>
      else decide_proactive render D source_kind dest))"

section \<open>The grant\<close>

text \<open>
  The policy document that \<open>grant_institutional_wecom_delivery\<close> persists for the owner, and the
  checks before it. The time stamp and the revision id are arguments.
\<close>

definition grant_policy :: "(json \<Rightarrow> pystr) \<Rightarrow> authority_docs \<Rightarrow> pystr \<Rightarrow> pystr \<Rightarrow> pystr \<Rightarrow> pystr \<Rightarrow> py_exn + json" where
  "grant_policy render D tenant_id authorized_by stamp revision =
     (let tenant = strip tenant_id in
      sbind (directory_of D) (\<lambda>d. sbind (texts_of render (dget d (lit ''super_users''))) (\<lambda>owners.
      sbind (texts_of render (dget d (lit ''allowed_users''))) (\<lambda>allowed.
      if tenant = [] \<or> length owners \<noteq> 1 \<or> owners ! 0 \<notin> set allowed
      then Inl (Runtime (Rejected (lit ''proactive_delivery_owner_directory_invalid'')))
      else let actor = strip (if authorized_by \<noteq> [] then authorized_by else owners ! 0) in
        if actor \<noteq> owners ! 0 then Inl (Runtime (Rejected (lit ''proactive_delivery_owner_authority_required'')))
        else Inr (JObj
          [(lit ''schema_version'', JStr (lit ''xiaoyou.proactive-delivery-authority.v1'')), (lit ''tenant_id'', JStr tenant),
           (lit ''state'', JStr (lit ''active'')), (lit ''authorized_by'', JStr actor), (lit ''authorized_at'', JStr stamp),
           (lit ''scope'', JObj
             [(lit ''channel'', JStr (lit ''wecom_callback'')),
              (lit ''recipient_roles'', JList (map JStr permitted_roles)),
              (lit ''recipient_identity'', JStr (lit ''current_trusted_wecom_directory_only'')),
              (lit ''source_kinds'', JList (map JStr permitted_source_kinds)),
              (lit ''sources'', JList [JStr (lit ''agenda:'' @ tenant)]),
              (lit ''excluded_recipient_classes'', JList (map JStr [lit ''parent'', lit ''untrusted'', lit ''pending'', lit ''rejected'', lit ''offboarded'']))]),
           (lit ''authority_boundary'', JStr (lit ''delivery_only_no_business_judgment'')),
           (lit ''revision_id'', JStr (lit ''proactive_delivery_grant_'' @ revision))])))))"

text \<open>The counts of \<open>status\<close>: the current trusted recipients of each role.\<close>

definition trusted_now :: "(json \<Rightarrow> pystr) \<Rightarrow> authority_docs \<Rightarrow> pystr \<Rightarrow> (pystr, json) dict \<Rightarrow> identity_sets \<Rightarrow> pystr \<Rightarrow> pystr \<Rightarrow> py_exn + bool" where
  "trusted_now render D tenant d ids role recipient = sbind (effective_role render d recipient) (\<lambda>r.
     if recipient \<in> set (is_pending ids) \<or> recipient \<in> set (is_rejected ids) \<or> recipient \<in> set (is_offboarded ids) then Inr False
     else sbind (lifecycle_denial render D tenant recipient) (\<lambda>reason. Inr (reason = [] \<and> r = role)))"

fun count_true :: "(pystr \<Rightarrow> py_exn + bool) \<Rightarrow> pystr list \<Rightarrow> py_exn + nat" where
  "count_true f [] = Inr 0"
| "count_true f (x # xs) = sbind (f x) (\<lambda>b. sbind (count_true f xs) (\<lambda>n. Inr (if b then Suc n else n)))"

definition role_count :: "(json \<Rightarrow> pystr) \<Rightarrow> authority_docs \<Rightarrow> pystr \<Rightarrow> pystr \<Rightarrow> py_exn + nat" where
  "role_count render D tenant_id role = sbind (directory_of D) (\<lambda>d. sbind (identity_sets_of render d) (\<lambda>ids.
     count_true (trusted_now render D (strip tenant_id) d ids role)
       (filter (\<lambda>r. r \<in> set (is_contacts ids)) (remdups (is_allowed ids)))))"

definition grant_delivery :: "(json \<Rightarrow> pystr) \<Rightarrow> pystr \<Rightarrow> pystr \<Rightarrow> pystr \<Rightarrow> pystr \<Rightarrow> (authority_docs, py_exn, json) op" where
  "grant_delivery render tenant_id authorized_by stamp revision D =
     (case grant_policy render D tenant_id authorized_by stamp revision of
        Inl e \<Rightarrow> (Inl e, D) | Inr policy \<Rightarrow> (Inr policy, D\<lparr>ad_authorization := Some policy\<rparr>))"

text \<open>\<open>upgrade_scope_to_current_runtime\<close>: a value with the flag \<open>already_applied\<close>, and the document after it.\<close>

definition upgraded_scope :: "pystr \<Rightarrow> pystr list \<Rightarrow> (pystr, json) dict \<Rightarrow> (pystr, json) dict" where
  "upgraded_scope tenant sources scope =
     AList.update (lit ''sources'') (JList (map JStr (sort (remdups (filter (\<lambda>s. s \<noteq> []) sources @ [lit ''agenda:'' @ tenant])))))
       (AList.update (lit ''source_kinds'') (JList (map JStr permitted_source_kinds)) scope)"

definition upgrade_scope :: "(json \<Rightarrow> pystr) \<Rightarrow> pystr \<Rightarrow> pystr \<Rightarrow> (authority_docs, py_exn, bool) op" where
  "upgrade_scope render tenant_id stamp D =
     (let tenant = strip tenant_id in
      case read_doc (ad_authorization D) of Inl e \<Rightarrow> (Inl e, D)
      | Inr policy \<Rightarrow>
        (let pol = as_dict policy; scope_value = por (dget pol (lit ''scope'')) (JObj []); scope = as_dict scope_value in
         if \<not> is_obj policy \<or> dget pol (lit ''state'') \<noteq> JStr (lit ''active'')
         then (Inl (Runtime (Rejected (lit ''institutional_proactive_authorization_missing''))), D)
         else if tenant = [] \<or> text_of render (dget pol (lit ''tenant_id'')) \<noteq> tenant
         then (Inl (Runtime (Rejected (lit ''proactive_authorization_tenant_mismatch''))), D)
         else if \<not> is_obj scope_value then (Inl (Py_error (lit ''TypeError'')), D)
         else case (py_iter (por (dget scope (lit ''source_kinds'')) (JList [])), py_iter (por (dget scope (lit ''sources'')) (JList []))) of
           (Inl e, _) \<Rightarrow> (Inl e, D)
         | (Inr kinds, sources) \<Rightarrow>
             if sort (map (py_str render) kinds) = permitted_source_kinds then (Inr True, D)
             else case sources of Inl e \<Rightarrow> (Inl e, D)
               | Inr xs \<Rightarrow> (Inr False, D\<lparr>ad_authorization := Some (JObj
                   (AList.update (lit ''runtime_scope_upgraded_at'') (JStr stamp) (AList.update (lit ''runtime_scope_revision'') (JStr (lit ''2''))
                     (AList.update (lit ''scope'') (JObj (upgraded_scope tenant (map (py_str render) xs) scope)) pol))))\<rparr>)))"

section \<open>Who may be reached\<close>

text \<open>A current member of the staff, as the directory and the personnel documents list them.\<close>

definition current_staff :: "(json \<Rightarrow> pystr) \<Rightarrow> authority_docs \<Rightarrow> pystr \<Rightarrow> pystr \<Rightarrow> pystr \<Rightarrow> bool" where
  "current_staff render D tenant who role \<longleftrightarrow> (\<exists>d ids. directory_of D = Inr d \<and> identity_sets_of render d = Inr ids
     \<and> effective_role render d who = Inr role \<and> who \<in> set (is_allowed ids) \<and> who \<notin> set (is_pending ids)
     \<and> who \<notin> set (is_rejected ids) \<and> who \<notin> set (is_offboarded ids) \<and> lifecycle_denial render D tenant who = Inr [])"

definition has_wecom_contact :: "(json \<Rightarrow> pystr) \<Rightarrow> authority_docs \<Rightarrow> pystr \<Rightarrow> bool" where
  "has_wecom_contact render D who \<longleftrightarrow> (\<exists>d ids. directory_of D = Inr d \<and> identity_sets_of render d = Inr ids \<and> who \<in> set (is_contacts ids))"

lemma strip_id:
  assumes "s \<noteq> []" "\<not> is_space (hd s)" "\<not> is_space (last s)"
  shows "strip s = s"
  using assms by (simp add: strip_def dropWhile_id hd_rev)

lemma not_blank_strip: "\<not> blank s \<Longrightarrow> strip s \<noteq> []"
  by (simp add: blank_def)

lemma strip_prefix:
  assumes "p \<noteq> []" "\<not> is_space (hd p)" "strip s = s" "s \<noteq> []"
  shows "strip (p @ s) = p @ s"
  using assms hd_strip [of s] by (intro strip_id) simp_all

lemma not_space_colon [simp]: "\<not> is_space colon"
  by (simp add: colon_def is_space_def)

lemma source_kind_agenda:
  assumes "kind \<in> set permitted_source_kinds" "strip tenant = tenant" "tenant \<noteq> []"
  shows "source_kind_for_tenant (kind @ colon # tenant) tenant = kind"
proof -
  have k: "colon \<notin> set kind" "kind \<noteq> []" "\<not> is_space (hd kind)"
    using assms(1) by (auto simp: permitted_source_kinds_def lit_def colon_def is_space_def)
  have "strip ((kind @ [colon]) @ tenant) = (kind @ [colon]) @ tenant"
    using assms k by (intro strip_prefix) simp_all
  then have "strip (kind @ colon # tenant) = kind @ colon # tenant" by simp
  then show ?thesis using assms by (simp add: source_kind_for_tenant_def split_once_append k)
qed

lemma source_kind_other_tenant:
  assumes "kind \<in> set permitted_source_kinds" "strip other = other" "other \<noteq> []" "other \<noteq> strip tenant"
  shows "source_kind_for_tenant (kind @ colon # other) tenant = []"
proof -
  have k: "colon \<notin> set kind" "kind \<noteq> []" "\<not> is_space (hd kind)"
    using assms(1) by (auto simp: permitted_source_kinds_def lit_def colon_def is_space_def)
  have "strip ((kind @ [colon]) @ other) = (kind @ [colon]) @ other"
    using assms k by (intro strip_prefix) simp_all
  then have "strip (kind @ colon # other) = kind @ colon # other" by simp
  then show ?thesis using assms by (simp add: source_kind_for_tenant_def Let_def split_once_append k)
qed

lemma proactive_not_human:
  assumes "kind \<in> set permitted_source_kinds"
  shows "take (length (lit ''human_command:'')) (kind @ rest) \<noteq> lit ''human_command:''"
  using assms by (auto simp: permitted_source_kinds_def lit_def)

lemma decide_proactive_eq:
  assumes "canonical dest = Inr c" "kind \<in> set permitted_source_kinds" "strip (rd_tenant_id dest) = rd_tenant_id dest"
    "rd_source_identity dest = kind @ colon # rd_tenant_id dest"
  shows "decide render D dest = decide_proactive render D kind dest"
proof -
  have "rd_tenant_id dest \<noteq> []" using assms(1) by (auto simp: canonical_def blank_def split: if_splits)
  then have sk: "source_kind_for_tenant (kind @ colon # rd_tenant_id dest) (rd_tenant_id dest) = kind"
    using source_kind_agenda [OF assms(2,3)] by simp
  have "kind \<noteq> []" using assms(2) by (auto simp: permitted_source_kinds_def)
  then show ?thesis
    unfolding decide_def assms(1) sum.case assms(4) assms(3) Let_def sk using proactive_not_human [OF assms(2)] by simp
qed

text \<open>What the policy document of a grant says.\<close>

lemma granted_policy:
  assumes "grant_policy render D tenant_id by_whom stamp revision = Inr policy"
  obtains scope where "is_obj policy" "dget (as_dict policy) (lit ''state'') = JStr (lit ''active'')"
    "dget (as_dict policy) (lit ''tenant_id'') = JStr (strip tenant_id)" "dget (as_dict policy) (lit ''scope'') = JObj scope"
    "dget scope (lit ''channel'') = JStr (lit ''wecom_callback'')" "dget scope (lit ''recipient_roles'') = JList (map JStr permitted_roles)"
    "dget scope (lit ''source_kinds'') = JList (map JStr permitted_source_kinds)"
    "dget scope (lit ''sources'') = JList [JStr (lit ''agenda:'' @ strip tenant_id)]" "strip tenant_id \<noteq> []"
  using assms by (auto simp: grant_policy_def Let_def sbind_eq_Inr dget_def split: if_splits)

lemma text_of_JStr [simp]: "text_of render (JStr s) = s"
  by (simp add: text_of_def por_def)

lemma permitted_kind_texts: "filter (\<lambda>s. s \<noteq> []) (map (strip \<circ> py_str render) (map JStr permitted_source_kinds)) = permitted_source_kinds"
  by (simp add: permitted_source_kinds_def) (simp add: strip_def lit_def is_space_def)

lemma lower_permitted_roles: "(\<lambda>x. lower (py_str render x)) ` set (map JStr permitted_roles) = set permitted_roles"
  by (simp add: permitted_roles_def lower_def lit_def)

text \<open>The checks of the recipient, and when they pass.\<close>

lemma check_recipient_allowed:
  "(\<exists>d. check_recipient render D tenant who (Inr roles) = Inr d \<and> dd_allowed d) \<longleftrightarrow>
    (\<exists>role\<in>(\<lambda>x. lower (py_str render x)) ` set roles. current_staff render D tenant who role) \<and> has_wecom_contact render D who"
proof (cases "directory_of D")
  case (Inr d)
  show ?thesis
  proof (cases "identity_sets_of render d")
    case ids: (Inr ids)
    show ?thesis
    proof (cases "effective_role render d who")
      case role: (Inr role)
      have "current_staff render D tenant who r \<longleftrightarrow> r = role \<and> who \<in> set (is_allowed ids) \<and> who \<notin> set (is_pending ids)
          \<and> who \<notin> set (is_rejected ids) \<and> who \<notin> set (is_offboarded ids) \<and> lifecycle_denial render D tenant who = Inr []" for r
        using Inr ids role by (auto simp: current_staff_def)
      moreover have "has_wecom_contact render D who \<longleftrightarrow> who \<in> set (is_contacts ids)"
        using Inr ids by (simp add: has_wecom_contact_def)
      ultimately show ?thesis
        using Inr ids role by (cases "lifecycle_denial render D tenant who") (simp_all add: check_recipient_def deny_def)
    qed (use Inr ids in \<open>simp add: check_recipient_def current_staff_def\<close>)
  qed (use Inr in \<open>simp add: check_recipient_def current_staff_def\<close>)
qed (simp add: check_recipient_def current_staff_def)

lemma decide_after_grant:
  assumes g: "grant_policy render D (rd_tenant_id dest) by_whom stamp revision = Inr policy"
    and dest: "strip (rd_tenant_id dest) = rd_tenant_id dest" "rd_channel dest = lit ''wecom_callback''" "kind \<in> set permitted_source_kinds"
    and D': "D' = D\<lparr>ad_authorization := Some policy\<rparr>" and who: "who = recipient_key (rd_recipient_id dest)"
  shows "(\<exists>d. decide_proactive render D' kind dest = Inr d \<and> dd_allowed d) \<longleftrightarrow>
    (\<exists>role\<in>set permitted_roles. current_staff render D' (rd_tenant_id dest) who role) \<and> has_wecom_contact render D' who"
proof -
  obtain scope where s: "is_obj policy" "dget (as_dict policy) (lit ''state'') = JStr (lit ''active'')"
    "dget (as_dict policy) (lit ''tenant_id'') = JStr (rd_tenant_id dest)" "dget (as_dict policy) (lit ''scope'') = JObj scope"
    "dget scope (lit ''channel'') = JStr (lit ''wecom_callback'')" "dget scope (lit ''recipient_roles'') = JList (map JStr permitted_roles)"
    "dget scope (lit ''source_kinds'') = JList (map JStr permitted_source_kinds)"
    "dget scope (lit ''sources'') = JList [JStr (lit ''agenda:'' @ rd_tenant_id dest)]"
    using granted_policy [OF g] dest(1) by metis
  have doc: "read_doc (ad_authorization D') = Inr policy" by (simp add: D' read_doc_def)
  have "permitted_source_kinds \<noteq> []" "permitted_roles \<noteq> []" by (simp_all add: permitted_source_kinds_def permitted_roles_def)
  then have src: "source_allowed render scope (rd_source_identity dest) kind = Inr True"
    and roles: "py_iter (por (JList (map JStr permitted_roles)) (JList [])) = Inr (map JStr permitted_roles)"
    using permitted_kind_texts [of render] dest(3) by (simp_all add: source_allowed_def texts_of_def s por_def)
  have body: "decide_proactive render D' kind dest = check_recipient render D' (rd_tenant_id dest) who (Inr (map JStr permitted_roles))"
    unfolding decide_proactive_def Let_def doc sbind_Inr s as_dict.simps text_of_JStr dest(1,2) src roles who [symmetric]
    by (simp add: s(1))
  show ?thesis unfolding body check_recipient_allowed lower_permitted_roles ..
qed

section \<open>A sample workspace\<close>

definition sample_docs :: authority_docs where
  "sample_docs = \<lparr>ad_authorization = Some (JObj []),
     ad_directory = Some (JObj [(lit ''super_users'', JList [JStr (lit ''b'')]), (lit ''allowed_users'', JList [JStr (lit ''b''), JStr (lit ''t'')]),
       (lit ''wecom_contacts'', JObj [(lit ''t'', JObj [])]), (lit ''user_roles'', JObj [(lit ''t'', JStr (lit ''teacher''))])]),
     ad_governance = Some (JObj []), ad_staff = Some (JObj [])\<rparr>"

definition sample_recipient :: "string \<Rightarrow> string \<Rightarrow> reply_destination" where
  "sample_recipient who source = \<lparr>rd_tenant_id = lit ''x'', rd_channel = lit ''wecom_callback'', rd_recipient_id = lit who,
     rd_source_identity = lit source, rd_device_id = []\<rparr>"

lemma lit_Cons: "lit (c # cs) = of_char c # lit cs"
  by (simp add: lit_def)

lemma sample_strip: "strip (lit [c]) = (if is_space (of_char c) then [] else lit [c])"
  by (simp add: strip_def lit_def)

lemma sample_staff: "current_staff (\<lambda>_. []) (sample_docs\<lparr>ad_authorization := a\<rparr>) (lit ''x'') (lit ''t'') (lit ''teacher'')"
  "has_wecom_contact (\<lambda>_. []) (sample_docs\<lparr>ad_authorization := a\<rparr>) (lit ''t'')"
proof -
  have t: "strip (lit ''teacher'') = lit ''teacher''" "lower (lit ''teacher'') = lit ''teacher''"
    by (simp_all add: strip_def lower_def lit_def is_space_def)
  show "current_staff (\<lambda>_. []) (sample_docs\<lparr>ad_authorization := a\<rparr>) (lit ''x'') (lit ''t'') (lit ''teacher'')"
    "has_wecom_contact (\<lambda>_. []) (sample_docs\<lparr>ad_authorization := a\<rparr>) (lit ''t'')"
    by (simp_all add: current_staff_def has_wecom_contact_def sample_docs_def directory_of_def identity_sets_of_def texts_of_def por_def dget_def
        effective_role_def lifecycle_denial_def read_doc_def governance_denial_def staff_denial_def sample_strip is_space_def t)
qed

lemma sample_grant: "\<exists>policy. grant_delivery (\<lambda>_. []) (lit ''x'') [] (lit ''now'') (lit ''r'') sample_docs
    = (Inr policy, sample_docs\<lparr>ad_authorization := Some policy\<rparr>)"
  by (simp add: grant_delivery_def grant_policy_def sample_docs_def directory_of_def texts_of_def por_def dget_def sample_strip is_space_def Let_def)

section \<open>Properties\<close>



text \<open>
  A proactive source of another tenant is not checked at all. A destination whose source
  identity has the shape of a proactive source, but names another tenant than the destination, is
  allowed as an ordinary direct reply, without a grant and whatever the directory says of the
  recipient.
\<close>

theorem foreign_proactive_source_is_unchecked:
  assumes "canonical dest = Inr c" "kind \<in> set permitted_source_kinds" "strip other = other" "other \<noteq> []" "other \<noteq> strip (rd_tenant_id dest)"
    and "rd_source_identity dest = kind @ colon # other"
  shows "decide render D dest = Inr \<lparr>dd_allowed = True, dd_reason = lit ''non_proactive_bound_destination'', dd_role = []\<rparr>"
  using source_kind_other_tenant [of kind other "strip (rd_tenant_id dest)"] proactive_not_human [OF assms(2)] assms
  by (simp add: decide_def)

lemma foreign_proactive_source_is_unchecked_witness:
  "decide (\<lambda>_. []) sample_docs (sample_recipient ''stranger'' ''agenda:y'')
    = Inr \<lparr>dd_allowed = True, dd_reason = lit ''non_proactive_bound_destination'', dd_role = []\<rparr>"
proof -
  let ?d = "sample_recipient ''stranger'' ''agenda:y''"
  obtain c where c: "canonical ?d = Inr c" by (simp add: canonical_def sample_recipient_def blank_lit is_space_def)
  have "lit ''agenda'' \<in> set permitted_source_kinds" "strip (lit ''y'') = lit ''y''" "lit ''y'' \<noteq> []" "lit ''y'' \<noteq> strip (rd_tenant_id ?d)"
    "rd_source_identity ?d = lit ''agenda'' @ colon # lit ''y''"
    by (simp_all add: sample_recipient_def sample_strip is_space_def permitted_source_kinds_def) (simp add: lit_def colon_def)
  from foreign_proactive_source_is_unchecked [OF c this] show ?thesis .
qed

end
