(* ===== verification/Channels.thy ===== *)
theory Channels
  imports DeliveryAuthority ReplyOutbox "HOL-Library.Sublist"
begin

text \<open>
  \<^verbatim>\<open>runtime/plugins/tuoguan_core/work_runtime_channels.py\<close>: the outcome of a channel delivery, the port
  that adapts a public platform adapter, and the dispatcher that sends the next ready reply of the
  outbox and records the outcome. What a port does with a request is a parameter \<open>x\<close> of its
  \<open>send_reply\<close>; \<open>others\<close> is what happens to the outbox while the dispatcher awaits the port.
\<close>

section \<open>Outcomes\<close>

record channel_outcome =
  co_disposition :: pystr
  co_channel_message_id :: pystr
  co_error :: pystr
  co_trace_ref :: pystr

definition delivery_delivered :: pystr where "delivery_delivered = lit ''delivered''"
definition delivery_failed :: pystr where "delivery_failed = lit ''failed''"
definition delivery_unknown :: pystr where "delivery_unknown = lit ''unknown''"

lemmas delivery_names = delivery_delivered_def delivery_failed_def delivery_unknown_def

definition validate_outcome :: "channel_outcome \<Rightarrow> wr_error option" where
  "validate_outcome o' =
     (if co_disposition o' \<notin> {delivery_delivered, delivery_failed, delivery_unknown}
      then Some (Rejected (lit ''channel_delivery_disposition_invalid''))
      else if co_disposition o' = delivery_delivered \<and> blank (co_trace_ref o')
      then Some (Rejected (lit ''delivered_channel_outcome_requires_trace''))
      else if co_disposition o' = delivery_unknown \<and> (blank (co_error o') \<or> blank (co_trace_ref o'))
      then Some (Rejected (lit ''unknown_channel_outcome_requires_error_and_trace''))
      else None)"

definition trace_ref :: "(pystr \<Rightarrow> pystr) \<Rightarrow> pystr \<Rightarrow> pystr \<Rightarrow> pystr \<Rightarrow> pystr \<Rightarrow> pystr" where
  "trace_ref H channel delivery stage detail = lit ''channel_delivery:'' @ take 28 (H (us_join [channel, delivery, stage, take 240 detail]))"

lemma trace_ref_nonblank [simp]: "\<not> blank (trace_ref H channel delivery stage detail)"
  by (simp add: trace_ref_def blank_def strip_eq_Nil lit_def) (simp add: is_space_def)

definition preflight_markers :: "pystr list" where
  "preflight_markers = [lit ''not connected'', lit ''not_connected'', lit ''required'', lit ''scope_unresolved'', lit ''uncorrelated'',
     lit ''destination_mismatch'', lit ''channel_unregistered'']"

definition failure_is_known_not_delivered :: "pystr \<Rightarrow> bool" where
  "failure_is_known_not_delivered error \<longleftrightarrow> (\<exists>marker\<in>set preflight_markers. sublist marker (lower (strip error)))"

section \<open>The adapter port\<close>

text \<open>The attributes of the object that an adapter's \<open>send\<close> returns; a missing attribute is \<open>None\<close>.\<close>

record adapter_result =
  ar_success :: "json option"
  ar_ok :: "json option"
  ar_message_id :: "json option"
  ar_error :: "json option"

datatype adapter_answer = Adapter_raised pystr | Adapter_returned adapter_result

definition attr_or :: "json option \<Rightarrow> json \<Rightarrow> json" where
  "attr_or a d = (case a of None \<Rightarrow> d | Some v \<Rightarrow> v)"

definition preflight :: "pystr \<Rightarrow> reply_destination \<Rightarrow> pystr \<Rightarrow> pystr \<Rightarrow> wr_error option" where
  "preflight channel dest text delivery =
     (if rd_channel dest \<noteq> channel then Some (Rejected (lit ''reply_destination_channel_mismatch''))
      else case canonical dest of Inl e \<Rightarrow> Some e
      | Inr _ \<Rightarrow> if blank text \<or> blank delivery then Some (Rejected (lit ''reply_delivery_required_fields_missing'')) else None)"

definition adapter_success :: "adapter_result \<Rightarrow> bool" where
  "adapter_success r = truthy (attr_or (ar_success r) (attr_or (ar_ok r) (JBool False)))"

definition adapter_error :: "(json \<Rightarrow> pystr) \<Rightarrow> adapter_result \<Rightarrow> pystr" where
  "adapter_error render r = py_str render (por (attr_or (ar_error r) (JStr [])) (JStr (lit ''channel_send_failed'')))"

definition adapter_outcome :: "(json \<Rightarrow> pystr) \<Rightarrow> (pystr \<Rightarrow> pystr) \<Rightarrow> pystr \<Rightarrow> pystr \<Rightarrow> adapter_answer \<Rightarrow> channel_outcome" where
  "adapter_outcome render H channel delivery answer = (case answer of
     Adapter_raised name \<Rightarrow>
       (let error = lit ''adapter_exception:'' @ name in
        \<lparr>co_disposition = delivery_unknown, co_channel_message_id = [], co_error = error,
         co_trace_ref = trace_ref H channel delivery (lit ''exception'') error\<rparr>)
   | Adapter_returned r \<Rightarrow>
       (let message_id = text_of render (attr_or (ar_message_id r) (JStr [])) in
        if adapter_success r
        then \<lparr>co_disposition = delivery_delivered, co_channel_message_id = message_id, co_error = [],
              co_trace_ref = trace_ref H channel delivery (lit ''accepted'') message_id\<rparr>
        else let error = adapter_error render r;
                 disposition = (if failure_is_known_not_delivered error then delivery_failed else delivery_unknown)
             in \<lparr>co_disposition = disposition, co_channel_message_id = message_id, co_error = error,
                 co_trace_ref = trace_ref H channel delivery disposition error\<rparr>))"

definition adapter_send :: "(json \<Rightarrow> pystr) \<Rightarrow> (pystr \<Rightarrow> pystr) \<Rightarrow> pystr \<Rightarrow> adapter_answer \<Rightarrow> reply_destination \<Rightarrow> pystr \<Rightarrow> pystr
    \<Rightarrow> py_exn + channel_outcome" where
  "adapter_send render H channel answer dest text delivery = (case preflight channel dest text delivery of
     Some e \<Rightarrow> Inl (Runtime e) | None \<Rightarrow> Inr (adapter_outcome render H channel delivery answer))"

section \<open>The dispatcher\<close>

record 'x reply_port =
  po_channel :: pystr
  po_send :: "'x \<Rightarrow> reply_destination \<Rightarrow> pystr \<Rightarrow> pystr \<Rightarrow> py_exn + channel_outcome"

definition dispatcher :: "(pystr, 'x reply_port) dict \<Rightarrow> py_exn + (pystr, 'x reply_port) dict" where
  "dispatcher ports = (if \<exists>cp\<in>set ports. fst cp = [] \<or> po_channel (snd cp) \<noteq> fst cp
     then Inl (Runtime (Value_error (lit ''trusted_reply_port_channel_mismatch''))) else Inr ports)"

record channel_result =
  cr_operation_id :: pystr
  cr_delivery_id :: pystr
  cr_channel :: pystr
  cr_disposition :: pystr
  cr_delivery_state :: delivery_state
  cr_channel_message_id :: pystr
  cr_trace_ref :: pystr

definition result_of :: "reply_job \<Rightarrow> pystr \<Rightarrow> pystr \<Rightarrow> pystr \<Rightarrow> reply_job \<Rightarrow> channel_result" where
  "result_of j disposition message_id trace completed =
     \<lparr>cr_operation_id = jb_operation_id j, cr_delivery_id = jb_delivery_id j, cr_channel = rd_channel (jb_destination j),
      cr_disposition = disposition, cr_delivery_state = jb_delivery_state completed, cr_channel_message_id = message_id, cr_trace_ref = trace\<rparr>"

definition recorded :: "(reply_job \<Rightarrow> channel_result) \<Rightarrow> (wr_error + reply_job) \<times> outbox \<Rightarrow> (py_exn + channel_result option) \<times> outbox" where
  "recorded f r = (case r of (Inl e, ob) \<Rightarrow> (Inl (Runtime e), ob) | (Inr completed, ob) \<Rightarrow> (Inr (Some (f completed)), ob))"

definition recipient_rejected :: pystr where
  "recipient_rejected = lit ''wecom_send_recipient_rejected:''"

definition settle_outcome :: "pystr \<Rightarrow> timestamp \<Rightarrow> reply_job \<Rightarrow> channel_outcome \<Rightarrow> (outbox, wr_error, reply_job) op" where
  "settle_outcome w now j o' =
     (if co_disposition o' = delivery_unknown
      then complete_delivery_unknown j w (co_error o') (co_trace_ref o') (co_channel_message_id o') now
      else if co_disposition o' = delivery_failed \<and> prefix recipient_rejected (co_error o')
      then complete_delivery_blocked j w (co_error o') now
      else complete_delivery j w (co_disposition o' = delivery_delivered) (co_error o') (co_channel_message_id o') (co_trace_ref o') now)"

definition deliver_job :: "(pystr, 'x reply_port) dict \<Rightarrow> pystr \<Rightarrow> timestamp \<Rightarrow> 'x \<Rightarrow> (outbox \<Rightarrow> outbox) \<Rightarrow> reply_job
    \<Rightarrow> (outbox, py_exn, channel_result option) op" where
  "deliver_job ports w now x others j ob = (case map_of ports (rd_channel (jb_destination j)) of
     None \<Rightarrow> recorded (result_of j delivery_failed [] []) (complete_delivery_blocked j w (lit ''channel_unregistered'') now ob)
   | Some port \<Rightarrow>
       (let refused = recorded (result_of j delivery_failed [] [])
              (complete_delivery j w False (lit ''destination_mismatch'') [] [] now (others ob))
        in case po_send port x (jb_destination j) (jb_reply_text j) (jb_delivery_id j) of
             Inr o' \<Rightarrow> (case validate_outcome o' of
               None \<Rightarrow> recorded (result_of j (co_disposition o') (co_channel_message_id o') (co_trace_ref o')) (settle_outcome w now j o' (others ob))
             | Some _ \<Rightarrow> refused)
           | Inl (Runtime (Rejected _)) \<Rightarrow> refused
           | Inl e \<Rightarrow> (Inl e, others ob)))"

definition deliver_next :: "rat \<Rightarrow> (pystr, 'x reply_port) dict \<Rightarrow> pystr \<Rightarrow> timestamp \<Rightarrow> 'x \<Rightarrow> (outbox \<Rightarrow> outbox)
    \<Rightarrow> (outbox, py_exn, channel_result option) op" where
  "deliver_next lease_seconds ports w now x others ob = (case claim_delivery lease_seconds w now ob of
     (Inl e, ob1) \<Rightarrow> (Inl (Runtime e), ob1)
   | (Inr None, ob1) \<Rightarrow> (Inr None, ob1)
   | (Inr (Some j), ob1) \<Rightarrow> deliver_job ports w now x others j ob1)"

section \<open>What the dispatcher does to the outbox\<close>

text \<open>The completion that ends a delivery: none when the port raises an exception of its own.\<close>

definition settlement :: "pystr \<Rightarrow> timestamp \<Rightarrow> reply_job \<Rightarrow> channel_outcome \<Rightarrow> outbox_cmd" where
  "settlement w now j o' =
     (if co_disposition o' = delivery_unknown
      then Complete_unknown j w (co_error o') (co_trace_ref o') (co_channel_message_id o') now
      else if co_disposition o' = delivery_failed \<and> prefix recipient_rejected (co_error o')
      then Complete_blocked j w (co_error o') now
      else Complete_delivery j w (co_disposition o' = delivery_delivered) (co_error o') (co_channel_message_id o') (co_trace_ref o') now)"

definition completion :: "(pystr, 'x reply_port) dict \<Rightarrow> pystr \<Rightarrow> timestamp \<Rightarrow> 'x \<Rightarrow> reply_job \<Rightarrow> outbox_cmd option" where
  "completion ports w now x j = (case map_of ports (rd_channel (jb_destination j)) of
     None \<Rightarrow> Some (Complete_blocked j w (lit ''channel_unregistered'') now)
   | Some port \<Rightarrow>
       (let refused = Some (Complete_delivery j w False (lit ''destination_mismatch'') [] [] now) in
        case po_send port x (jb_destination j) (jb_reply_text j) (jb_delivery_id j) of
          Inr o' \<Rightarrow> (case validate_outcome o' of None \<Rightarrow> Some (settlement w now j o') | Some _ \<Rightarrow> refused)
        | Inl (Runtime (Rejected _)) \<Rightarrow> refused
        | Inl e \<Rightarrow> None))"

definition awaits :: "(pystr, 'x reply_port) dict \<Rightarrow> reply_job \<Rightarrow> bool" where
  "awaits ports j \<longleftrightarrow> map_of ports (rd_channel (jb_destination j)) \<noteq> None"

lemma snd_recorded [simp]: "snd (recorded f r) = snd r"
  by (cases r) (simp add: recorded_def split: sum.split)

lemma snd_settle: "snd (settle_outcome w now j o' ob) = outbox_step E (settlement w now j o') ob"
  by (simp add: settle_outcome_def settlement_def)

lemma snd_deliver_job:
  "snd (deliver_job ports w now x others j ob) =
     (let ob' = (if awaits ports j then others ob else ob) in
      case completion ports w now x j of None \<Rightarrow> ob' | Some c \<Rightarrow> outbox_step E c ob')"
  by (simp add: deliver_job_def completion_def awaits_def snd_settle [of _ _ _ _ _ E] Let_def
      split: option.split sum.split py_exn.split wr_error.split)

lemma completion_shape:
  assumes "completion ports w now x j = Some c"
  shows "(\<exists>d e m tr. c = Complete_delivery j w d e m tr now) \<or> (\<exists>e. c = Complete_blocked j w e now)
    \<or> (\<exists>e tr m. c = Complete_unknown j w e tr m now)"
  using assms by (auto simp: completion_def settlement_def Let_def split: option.splits sum.splits py_exn.splits wr_error.splits if_splits)

subsection \<open>Written replies\<close>

text \<open>
  A generated reply, and a reply of which a generated job is in a worker's hands, has a text: no
  operation ever empties it.
\<close>

definition text_ok :: "reply_job list \<Rightarrow> reply_row \<Rightarrow> bool" where
  "text_ok issued r \<longleftrightarrow> (rj_generation_state r = Generated
      \<or> (\<exists>j\<in>set issued. jb_reply_id j = rj_reply_id r \<and> jb_generation_state j = Generated)) \<longrightarrow> \<not> blank (rj_reply_text r)"

lemma text_kept: "job_step L c r r' \<Longrightarrow> \<not> blank (rj_reply_text r) \<Longrightarrow> \<not> blank (rj_reply_text r')"
  by (erule job_stepE)
    (auto simp: set_text_def expire_def lease_def finish_row_def release_def unpark_def suppress_def reconcile_def retry_generation_def
      coalesce_def blank_def elim!: finish_of.elims split: if_splits)

lemma text_ok_step:
  assumes "job_step L c r r'" "text_ok issued r" "genuine issued c"
  shows "text_ok issued r'"
proof (cases "blank (rj_reply_text r)")
  case True
  then have no: "rj_generation_state r \<noteq> Generated" "\<forall>j\<in>set issued. jb_reply_id j = rj_reply_id r \<longrightarrow> jb_generation_state j \<noteq> Generated"
    using assms(2) by (auto simp: text_ok_def)
  have id: "rj_reply_id r' = rj_reply_id r" using job_step_identity [OF assms(1)] by (simp add: job_identity_def)
  have "rj_generation_state r' = Generated \<Longrightarrow> \<not> blank (rj_reply_text r')"
    using assms(1)
  proof (cases rule: job_step.cases)
    case (js_finish j w a now)
    then have "jb_reply_id j = rj_reply_id r" by (simp add: held_by_def)
    then show "rj_generation_state r' = Generated \<Longrightarrow> \<not> blank (rj_reply_text r')"
      using js_finish(1,2) no assms(3) by (cases c) (auto simp: finish_row_def coalesce_def split: if_splits)
  qed (use no in \<open>auto simp: set_text_def expire_def lease_def release_def unpark_def parked_def suppress_def suppressible_def reconcile_def
      quarantined_def retry_generation_def blank_def split: if_splits\<close>)
  then show ?thesis using no id by (auto simp: text_ok_def)
qed (use text_kept assms(1) in \<open>auto simp: text_ok_def\<close>)

lemma claimed_row:
  assumes "outbox_inv ob" "claim_job L g w now ob = (Inr (Some j), ob')"
  obtains x where "x \<in> set (ob_jobs (snd (recover_jobs now ob)))" "claimable g x" "j = job (lease w (now + L) now x)"
    "lease w (now + L) now x \<in> set (ob_jobs ob')" "outbox_inv ob'"
proof (rule claim_job_cases [OF assms(1), of L g w now])
  let ?ob1 = "snd (recover_jobs now ob)"
  fix x assume x: "x \<in> set (ob_jobs ?ob1)" "claimable g x"
    and c: "claim_job L g w now ob = (Inr (Some (job (lease w (now + L) now x))),
         ?ob1\<lparr>ob_jobs := update_where (\<lambda>y. rj_reply_id y = rj_reply_id x) (lease w (now + L) now) (ob_jobs ?ob1)\<rparr>)"
  have "outbox_inv ob'" using claim_job_kept [OF assms(1), of L g w now] assms(2) by (simp add: kept_def)
  moreover have "lease w (now + L) now x \<in> set (ob_jobs ob')" using assms(2) c x(1) by (auto simp: set_update_where)
  ultimately show thesis using that [OF x] c assms(2) by simp
qed (use assms in simp_all)

definition written_inv :: "outbox \<times> reply_job list \<Rightarrow> bool" where
  "written_inv s \<longleftrightarrow> desk_inv s \<and> (\<forall>r\<in>set (ob_jobs (fst s)). text_ok (snd s) r)"

lemma written_step:
  assumes "written_inv s"
  shows "written_inv (desk_step E c s)"
proof (cases s)
  case (Pair ob issued)
  have desk: "desk_inv (ob, issued)" and ok: "\<forall>r\<in>set (ob_jobs ob). text_ok issued r"
    using assms by (simp_all add: written_inv_def Pair)
  then have inv: "outbox_inv ob" and ids: "\<forall>j\<in>set issued. jb_reply_id j \<in> rj_reply_id ` set (ob_jobs ob)" by (simp_all add: desk_inv_def)
  show ?thesis
  proof (cases "genuine issued c")
    case True
    let ?ob' = "outbox_step E c ob"
    have k: "kept (oe_lease E) c ob ?ob'" using inv by (rule outbox_step_kept)
    have rows: "text_ok issued r'" if r': "r' \<in> set (ob_jobs ?ob')" for r'
    proof -
      have "(\<exists>r\<in>set (ob_jobs ob). job_step (oe_lease E) c r r') \<or> (fresh_job r' \<and> rj_reply_id r' \<notin> rj_reply_id ` set (ob_jobs ob))"
        using k r' by (simp add: kept_def moves_def)
      then show ?thesis
      proof
        assume "\<exists>r\<in>set (ob_jobs ob). job_step (oe_lease E) c r r'"
        then show ?thesis using text_ok_step ok True by blast
      next
        assume f: "fresh_job r' \<and> rj_reply_id r' \<notin> rj_reply_id ` set (ob_jobs ob)"
        then have "\<forall>j\<in>set issued. jb_reply_id j \<noteq> rj_reply_id r'" using ids by metis
        then show ?thesis using f by (auto simp: text_ok_def fresh_job_def blank_def split: if_splits)
      qed
    qed
    have new: "\<not> blank (rj_reply_text r')"
      if j: "j \<in> set (claimed_job E c ob)" and r': "r' \<in> set (ob_jobs ?ob')" "jb_reply_id j = rj_reply_id r'" "jb_generation_state j = Generated" for j r'
      using j
    proof (rule claimed_jobD)
      fix g w now assume c: "claim_job (oe_lease E) g w now ob = (Inr (Some j), ?ob')"
      obtain x where x: "j = job (lease w (now + oe_lease E) now x)" "lease w (now + oe_lease E) now x \<in> set (ob_jobs ?ob')" "outbox_inv ?ob'"
        using claimed_row [OF inv c] by metis
      have u: "unique_key rj_reply_id (ob_jobs ?ob')" using x(3) by (simp add: outbox_inv_def jobs_inv_def)
      have "lease w (now + oe_lease E) now x = r'" using unique_keyD [OF u x(2) r'(1)] r'(2) x(1) by (simp add: job_def)
      then have "rj_generation_state r' = Generated" using r'(3) x(1) by (simp add: job_def)
      then show "\<not> blank (rj_reply_text r')" using rows [OF r'(1)] by (simp add: text_ok_def)
    qed
    have "text_ok (claimed_job E c ob @ issued) r'" if "r' \<in> set (ob_jobs ?ob')" for r'
      using rows [OF that] new [OF _ that] by (auto simp: text_ok_def)
    moreover have "desk_inv (desk_step E c (ob, issued))" using desk by (rule desk_step_inv)
    ultimately show ?thesis using True by (simp add: written_inv_def Pair)
  qed (use assms Pair in simp)
qed

interpretation written: invariant_machine "desk_step E" written_inv for E
  by unfold_locales (rule written_step)

lemma new_desk_written: "written_inv (new_outbox, [])"
  by (simp add: written_inv_def desk_inv_def new_outbox_inv) (simp add: new_outbox_def)

section \<open>A run of the dispatcher\<close>

text \<open>
  Other operations on the outbox, and deliveries by workers, in any order. \<open>Deliver w now x cs\<close> is
  one call of \<open>deliver_next\<close>, during which the operations \<open>cs\<close> happen. The list \<open>taken\<close> collects the
  replies that the remote side may have accepted.
\<close>

datatype 'x dispatch_cmd = Run outbox_cmd | Deliver pystr timestamp 'x "outbox_cmd list"

type_synonym dispatch_state = "outbox \<times> reply_job list \<times> pystr list"

fun dispatch_step :: "outbox_env \<Rightarrow> (pystr, 'x reply_port) dict \<Rightarrow> ('x \<Rightarrow> reply_job \<Rightarrow> bool) \<Rightarrow> 'x dispatch_cmd \<Rightarrow> dispatch_state \<Rightarrow> dispatch_state" where
  "dispatch_step E ports reached (Run c) (ob, issued, taken) = (let s = desk_step E c (ob, issued) in (fst s, snd s, taken))"
| "dispatch_step E ports reached (Deliver w now x cs) (ob, issued, taken) = (case claim_delivery (oe_lease E) w now ob of
     (Inr (Some j), ob1) \<Rightarrow>
       (let others = (\<lambda>o'. fst (fold (desk_step E) cs (o', j # issued))) in
        (snd (deliver_next (oe_lease E) ports w now x others ob),
         if awaits ports j then snd (fold (desk_step E) cs (ob1, j # issued)) else j # issued,
         if reached x j then jb_reply_id j # taken else taken))
   | (_, ob1) \<Rightarrow> (ob1, issued, taken))"

fun reopens :: "outbox_cmd \<Rightarrow> bool" where
  "reopens (Reconcile rid d ref now) \<longleftrightarrow> \<not> d"
| "reopens _ \<longleftrightarrow> False"

text \<open>
  The premise of a step: nobody reconciles a reply as not delivered; while a worker sends, the
  others respect its lease; and the remote side answers as documented.
\<close>

fun timely :: "outbox_env \<Rightarrow> ('x \<Rightarrow> bool) \<Rightarrow> 'x dispatch_cmd \<Rightarrow> dispatch_state \<Rightarrow> bool" where
  "timely E documented (Run c) s \<longleftrightarrow> \<not> reopens c"
| "timely E documented (Deliver w now x cs) (ob, issued, taken) \<longleftrightarrow> documented x \<and> (\<forall>c\<in>set cs. \<not> reopens c)
     \<and> (case fst (claim_delivery (oe_lease E) w now ob) of
          Inr (Some j) \<Rightarrow> \<forall>c\<in>set cs. within_delivery w (now + oe_lease E) (jb_reply_id j) c | _ \<Rightarrow> True)"

fun timely_run :: "outbox_env \<Rightarrow> (pystr, 'x reply_port) dict \<Rightarrow> ('x \<Rightarrow> reply_job \<Rightarrow> bool) \<Rightarrow> ('x \<Rightarrow> bool) \<Rightarrow> 'x dispatch_cmd list \<Rightarrow> dispatch_state \<Rightarrow> bool" where
  "timely_run E ports reached documented [] s \<longleftrightarrow> True"
| "timely_run E ports reached documented (d # ds) s \<longleftrightarrow>
     timely E documented d s \<and> timely_run E ports reached documented ds (dispatch_step E ports reached d s)"

subsection \<open>Settled replies stay settled\<close>

definition settled :: "reply_row \<Rightarrow> bool" where
  "settled r \<longleftrightarrow> committed r \<and> rj_delivery_state r \<in> {Sent, Unknown}"

lemma settled_step: "job_step L c r r' \<Longrightarrow> settled r \<Longrightarrow> \<not> reopens c \<Longrightarrow> settled r'"
  by (erule job_stepE) (auto simp: settled_def committed_def expired_def claimable_def held_by_def releasable_def parked_def suppressible_def
      quarantined_def failed_generation_def reconcile_def split: if_splits)

definition log_ok :: "outbox \<Rightarrow> pystr list \<Rightarrow> bool" where
  "log_ok ob taken \<longleftrightarrow> distinct taken \<and> (\<forall>rid\<in>set taken. \<exists>r\<in>set (ob_jobs ob). rj_reply_id r = rid \<and> settled r)"

lemma log_ok_outbox_step:
  assumes "outbox_inv ob" "\<not> reopens c" "log_ok ob taken"
  shows "log_ok (outbox_step E c ob) taken"
proof -
  have m: "moves (oe_lease E) c (ob_jobs ob) (ob_jobs (outbox_step E c ob))"
    using outbox_step_kept [OF assms(1)] by (simp add: kept_def)
  have "\<exists>r'\<in>set (ob_jobs (outbox_step E c ob)). rj_reply_id r' = rid \<and> settled r'" if rid: "rid \<in> set taken" for rid
  proof -
    obtain r where r: "r \<in> set (ob_jobs ob)" "rj_reply_id r = rid" "settled r" using assms(3) rid by (auto simp: log_ok_def)
    obtain r' where r': "r' \<in> set (ob_jobs (outbox_step E c ob))" "job_step (oe_lease E) c r r'" using m r(1) unfolding moves_def by blast
    then have "rj_reply_id r' = rid" using job_step_identity [OF r'(2)] r(2) by (simp add: job_identity_def)
    then show ?thesis using settled_step [OF r'(2) r(3) assms(2)] r'(1) by blast
  qed
  then show ?thesis using assms(3) by (simp add: log_ok_def)
qed

lemma log_ok_desk_run:
  assumes "written_inv (ob, issued)" "\<forall>c\<in>set cs. \<not> reopens c" "log_ok ob taken"
  shows "log_ok (fst (fold (desk_step E) cs (ob, issued))) taken"
  using assms
proof (induction cs arbitrary: ob issued)
  case (Cons c cs)
  obtain ob1 issued1 where s: "desk_step E c (ob, issued) = (ob1, issued1)" by fastforce
  have "written_inv (ob1, issued1)" using written_step [OF Cons.prems(1), of E c] by (simp only: s)
  moreover have "outbox_inv ob" using Cons.prems(1) by (simp add: written_inv_def desk_inv_def)
  then have "log_ok ob1 taken" using log_ok_outbox_step [of ob c taken E] Cons.prems s by (auto split: if_splits)
  ultimately show ?case using Cons.IH Cons.prems(2) by (simp only: fold.simps o_apply s) auto
qed simp

lemma desk_cmd_inv:
  assumes "written_inv (ob, issued)" "log_ok ob taken" "\<not> reopens c"
  shows "written_inv (desk_step E c (ob, issued)) \<and> log_ok (fst (desk_step E c (ob, issued))) taken"
  using written_step [OF assms(1), of E c] log_ok_desk_run [OF assms(1) _ assms(2), of "[c]" E] assms(3) by simp

text \<open>A completion by the worker that holds the row of its job.\<close>

lemma finish_hit:
  assumes "outbox_inv ob" "r \<in> set (ob_jobs ob)" "rj_delivery_state r = In_lease" "rj_lease_owner r = Some w"
    "finish_of c = Some (j, w, a, now)" "jb_reply_id j = rj_reply_id r"
  shows "finish_row a now r \<in> set (ob_jobs (outbox_step E c ob))"
proof -
  have "snd (finish j w a now ob) = ob\<lparr>ob_jobs := update_where (held_by (jb_reply_id j) w) (finish_row a now) (ob_jobs ob)\<rparr>"
    unfolding finish_def assms(6)
    by (rule update_one_hit [OF assms(1,2)]) (simp_all add: held_by_def assms(3,4) finish_row_def)
  moreover have "held_by (jb_reply_id j) w r" using assms by (simp add: held_by_def)
  ultimately show ?thesis unfolding step_finish [OF assms(5)] using assms(2) by (auto simp: set_update_where)
qed

lemma issued_grows: "j \<in> set issued \<Longrightarrow> j \<in> set (snd (fold (desk_step E) cs (ob, issued)))"
proof (induction cs arbitrary: ob issued)
  case (Cons c cs)
  obtain ob1 issued1 where s: "desk_step E c (ob, issued) = (ob1, issued1)" by fastforce
  then have "j \<in> set issued1" using Cons.prems by (auto split: if_splits)
  then show ?case using Cons.IH by (simp only: fold.simps o_apply s)
qed simp

text \<open>A delivery as a run of the desk: the claim, what the others do, the completion.\<close>

definition during :: "outbox_env \<Rightarrow> (pystr, 'x reply_port) dict \<Rightarrow> reply_job \<Rightarrow> outbox_cmd list \<Rightarrow> outbox \<times> reply_job list \<Rightarrow> outbox \<times> reply_job list" where
  "during E ports j cs s = (if awaits ports j then fold (desk_step E) cs s else s)"

definition finishing :: "outbox_env \<Rightarrow> outbox_cmd option \<Rightarrow> outbox \<Rightarrow> outbox" where
  "finishing E c ob = (case c of None \<Rightarrow> ob | Some c \<Rightarrow> outbox_step E c ob)"

lemma deliver_run:
  assumes "claim_delivery (oe_lease E) w now ob = (Inr (Some j), ob1)"
  shows "dispatch_step E ports reached (Deliver w now x cs) (ob, issued, taken) =
    (finishing E (completion ports w now x j) (fst (during E ports j cs (ob1, j # issued))),
     snd (during E ports j cs (ob1, j # issued)), if reached x j then jb_reply_id j # taken else taken)"
proof -
  have "snd (deliver_next (oe_lease E) ports w now x (\<lambda>o'. fst (fold (desk_step E) cs (o', j # issued))) ob)
      = finishing E (completion ports w now x j) (fst (during E ports j cs (ob1, j # issued)))"
    by (simp add: deliver_next_def assms snd_deliver_job [of _ _ _ _ _ _ _ E] Let_def during_def finishing_def split: option.split)
  then show ?thesis by (simp add: assms during_def)
qed

definition delivering :: "outbox_env \<Rightarrow> outbox \<Rightarrow> reply_job list \<Rightarrow> pystr \<Rightarrow> timestamp \<Rightarrow> reply_job \<Rightarrow> outbox \<Rightarrow> bool" where
  "delivering E ob issued w now j ob1 \<longleftrightarrow> written_inv (ob, issued) \<and> claim_delivery (oe_lease E) w now ob = (Inr (Some j), ob1)"

lemma deliveringD:
  assumes "delivering E ob issued w now j ob1"
  shows "written_inv (ob, issued)" "outbox_inv ob" "claim_delivery (oe_lease E) w now ob = (Inr (Some j), ob1)"
  using assms by (simp_all add: delivering_def written_inv_def desk_inv_def)

lemma claim_written:
  assumes d: "delivering E ob issued w now j ob1"
  shows "written_inv (ob1, j # issued)"
proof -
  have "desk_step E (Claim_job False w now) (ob, issued) = (ob1, j # issued)" by (simp add: deliveringD(3) [OF d] claimed_job_def)
  then show ?thesis using written_step [OF deliveringD(1) [OF d], of E "Claim_job False w now"] by simp
qed

lemma during_written:
  assumes "delivering E ob issued w now j ob1"
  shows "written_inv (during E ports j cs (ob1, j # issued))"
  using written.run_inv [OF claim_written [OF assms], of E cs] claim_written [OF assms] unfolding during_def by simp

lemma claimed_generated:
  assumes d: "delivering E ob issued w now j ob1"
  shows "jb_generation_state j = Generated"
proof -
  from claimed_row [OF deliveringD(2,3) [OF d]] obtain x where "claimable False x" "j = job (lease w (now + oe_lease E) now x)" by metis
  then show ?thesis by (simp add: claimable_def job_def lease_def)
qed

lemma completion_desk:
  assumes "delivering E ob issued w now j ob1" "completion ports w now x j = Some c"
  shows "desk_step E c (during E ports j cs (ob1, j # issued))
    = (outbox_step E c (fst (during E ports j cs (ob1, j # issued))), snd (during E ports j cs (ob1, j # issued)))"
proof -
  obtain ob2 issued2 where s: "during E ports j cs (ob1, j # issued) = (ob2, issued2)" by (cases "during E ports j cs (ob1, j # issued)")
  have "j \<in> set (snd (during E ports j cs (ob1, j # issued)))" by (simp add: during_def issued_grows)
  then have j: "j \<in> set issued2" "jb_generation_state j = Generated" using s claimed_generated [OF assms(1)] by simp_all
  have "genuine issued2 c" "claimed_job E c ob2 = []"
    using completion_shape [OF assms(2)] j by (auto simp: claimed_job_def)
  then show ?thesis by (simp add: s)
qed

lemma delivery_written:
  assumes d: "delivering E ob issued w now j ob1"
  shows "written_inv (finishing E (completion ports w now x j) (fst (during E ports j cs (ob1, j # issued))),
    snd (during E ports j cs (ob1, j # issued)))"
proof (cases "completion ports w now x j")
  case None
  then show ?thesis using during_written [OF d, of ports cs] by (simp add: finishing_def)
next
  case (Some c)
  show ?thesis
    using written_step [OF during_written [OF d, of ports cs], of E c] unfolding completion_desk [OF d Some] finishing_def Some option.case .
qed

text \<open>The claimed row, in the worker's hands until the completion.\<close>

lemma claimed_held:
  assumes d: "delivering E ob issued w now j ob1"
  obtains r where "r \<in> set (ob_jobs ob1)" "j = job r" "committed r" "rj_delivery_state r = In_lease" "rj_lease_owner r = Some w"
    "rj_lease_until r = Some (now + oe_lease E)"
proof -
  from claimed_row [OF deliveringD(2,3) [OF d]] obtain x where x: "x \<in> set (ob_jobs (snd (recover_jobs now ob)))" "claimable False x"
    "j = job (lease w (now + oe_lease E) now x)" "lease w (now + oe_lease E) now x \<in> set (ob_jobs ob1)" by metis
  have "desk_inv (ob1, j # issued)" "\<forall>r\<in>set (ob_jobs ob1). text_ok (j # issued) r" using claim_written [OF d] by (simp_all add: written_inv_def)
  then have ok: "held_ok (j # issued) (lease w (now + oe_lease E) now x)" "text_ok (j # issued) (lease w (now + oe_lease E) now x)"
    using x(4) by (simp_all add: desk_inv_def)
  have "\<not> rj_delivery_hold x" using ok(1) x(2,3) by (auto simp: held_ok_def job_def lease_def claimable_def)
  moreover have "\<not> blank (rj_reply_text x)" using ok(2) x(2) by (auto simp: text_ok_def lease_def claimable_def)
  ultimately show thesis using x(2) by (intro that [OF x(4,3)]) (auto simp: committed_def lease_def claimable_def)
qed

lemma claimed_not_taken:
  assumes d: "delivering E ob issued w now j ob1" and "log_ok ob taken"
  shows "jb_reply_id j \<notin> set taken"
proof
  assume "jb_reply_id j \<in> set taken"
  then obtain r where r: "r \<in> set (ob_jobs ob)" "rj_reply_id r = jb_reply_id j" "settled r" using assms(2) by (auto simp: log_ok_def)
  from claim_other_row [OF deliveringD(2,3) [OF d] r(1)] r(2,3) show False by (auto simp: settled_def expired_def claimable_def)
qed

lemma lease_survives:
  assumes d: "delivering E ob issued w now j ob1"
    and r: "r \<in> set (ob_jobs ob1)" "committed r" "rj_delivery_state r = In_lease" "rj_lease_owner r = Some w" "rj_lease_until r = Some t"
    and cs: "\<forall>c\<in>set cs. within_delivery w t (rj_reply_id r) c"
  shows "r \<in> set (ob_jobs (fst (during E ports j cs (ob1, j # issued))))"
proof -
  have "r \<in> set (ob_jobs (fst (fold (desk_step E) cs s)))" if "written_inv s" "r \<in> set (ob_jobs (fst s))" for s
    using that cs
  proof (induction cs arbitrary: s)
    case (Cons c cs)
    obtain o' i' where s: "s = (o', i')" by fastforce
    have "outbox_inv o'" "r \<in> set (ob_jobs o')" using Cons.prems(1,2) by (simp_all add: s written_inv_def desk_inv_def)
    moreover have "job_step (oe_lease E) c r r' \<Longrightarrow> r' = r" for r'
      using leased_stays r(2-5) Cons.prems(3) by simp
    ultimately have "r \<in> set (ob_jobs (outbox_step E c o'))" by (rule row_stays)
    then have "r \<in> set (ob_jobs (fst (desk_step E c s)))" using Cons.prems(2) by (simp add: s)
    then show ?case using Cons.IH [OF written_step [OF Cons.prems(1)]] Cons.prems(3) by simp
  qed simp
  then show ?thesis using claim_written [OF d] r(1) by (simp add: during_def)
qed

section \<open>Ports that settle what they send\<close>

text \<open>
  The contract of the registered ports: whenever the remote side may have accepted a message, the
  port says so, as delivered with a trace or as unknown with an error and a trace.
\<close>

locale settling_ports =
  fixes ports :: "(pystr, 'x reply_port) dict" and reached :: "'x \<Rightarrow> reply_job \<Rightarrow> bool" and documented :: "'x \<Rightarrow> bool"
  assumes reached_settles: "documented x \<Longrightarrow> reached x j \<Longrightarrow> \<exists>port o'. map_of ports (rd_channel (jb_destination j)) = Some port
    \<and> po_send port x (jb_destination j) (jb_reply_text j) (jb_delivery_id j) = Inr o' \<and> validate_outcome o' = None
    \<and> co_disposition o' \<in> {delivery_delivered, delivery_unknown}"
begin

lemma reached_completion:
  assumes "documented x" "reached x j"
  obtains c a where "completion ports w now x j = Some c" "finish_of c = Some (j, w, a, now)" "fa_state a = Generated"
    "fa_delivery_state a \<in> {Sent, Unknown}" "fa_reply_text a = None"
proof -
  obtain port o' where p: "map_of ports (rd_channel (jb_destination j)) = Some port"
    "po_send port x (jb_destination j) (jb_reply_text j) (jb_delivery_id j) = Inr o'" "validate_outcome o' = None"
    "co_disposition o' \<in> {delivery_delivered, delivery_unknown}"
    using reached_settles [OF assms] by blast
  have c: "completion ports w now x j = Some (settlement w now j o')" by (simp add: completion_def p)
  show thesis
  proof (cases "co_disposition o' = delivery_unknown")
    case True
    then have "\<not> blank (co_error o')" "\<not> blank (co_trace_ref o')" using p(3) by (auto simp: validate_outcome_def delivery_names split: if_splits)
    then show thesis using that [OF c] True by (simp add: settlement_def)
  next
    case False
    then have "co_disposition o' = delivery_delivered" "delivery_delivered \<noteq> delivery_failed" "delivery_delivered \<noteq> delivery_unknown"
      using p(4) by (simp_all add: delivery_names)
    then show thesis using that [OF c] by (simp add: settlement_def)
  qed
qed

lemma reached_delivery:
  assumes d: "delivering E ob issued w now j ob1" and x: "documented x" "reached x j"
    and cs: "\<forall>c\<in>set cs. within_delivery w (now + oe_lease E) (jb_reply_id j) c"
  shows "\<exists>r\<in>set (ob_jobs (finishing E (completion ports w now x j) (fst (during E ports j cs (ob1, j # issued))))).
    rj_reply_id r = jb_reply_id j \<and> settled r"
proof -
  obtain c a where c: "completion ports w now x j = Some c" "finish_of c = Some (j, w, a, now)" "fa_state a = Generated"
    "fa_delivery_state a \<in> {Sent, Unknown}" "fa_reply_text a = None"
    by (rule reached_completion [OF x, where w = w and now = now])
  obtain r where r: "r \<in> set (ob_jobs ob1)" "j = job r" "committed r" "rj_delivery_state r = In_lease" "rj_lease_owner r = Some w"
    "rj_lease_until r = Some (now + oe_lease E)" by (rule claimed_held [OF d])
  have id: "jb_reply_id j = rj_reply_id r" using r(2) by (simp add: job_def)
  let ?mid = "fst (during E ports j cs (ob1, j # issued))"
  have "r \<in> set (ob_jobs ?mid)" using lease_survives [OF d r(1,3,4,5,6)] cs id by simp
  moreover have "outbox_inv ?mid" using during_written [OF d, of ports cs] by (simp add: written_inv_def desk_inv_def)
  ultimately have "finish_row a now r \<in> set (ob_jobs (outbox_step E c ?mid))" using finish_hit r(4,5) c(2) id by blast
  moreover have "settled (finish_row a now r)" using r(3) c(3,4,5) by (simp add: settled_def committed_def finish_row_def coalesce_def)
  moreover have "rj_reply_id (finish_row a now r) = jb_reply_id j" using id by (simp add: finish_row_def)
  ultimately show ?thesis by (auto simp: finishing_def c(1))
qed

lemma delivery_inv:
  assumes d: "delivering E ob issued w now j ob1" and t: "timely E documented (Deliver w now x cs) (ob, issued, taken)" and taken: "log_ok ob taken"
  shows "log_ok (finishing E (completion ports w now x j) (fst (during E ports j cs (ob1, j # issued)))) (if reached x j then jb_reply_id j # taken else taken)"
proof -
  let ?mid = "fst (during E ports j cs (ob1, j # issued))" and ?fin = "finishing E (completion ports w now x j)"
  have time: "documented x" "\<forall>c\<in>set cs. \<not> reopens c" "\<forall>c\<in>set cs. within_delivery w (now + oe_lease E) (jb_reply_id j) c"
    using t deliveringD(3) [OF d] by simp_all
  have "ob1 = outbox_step E (Claim_job False w now) ob" using deliveringD(3) [OF d] by simp
  then have "log_ok ob1 taken" using log_ok_outbox_step [OF deliveringD(2) [OF d], of "Claim_job False w now" taken E] taken by simp
  then have mid: "log_ok ?mid taken" using log_ok_desk_run [OF claim_written [OF d] time(2)] by (simp add: during_def)
  have "outbox_inv ?mid" using during_written [OF d, of ports cs] by (simp add: written_inv_def desk_inv_def)
  then have fin: "log_ok (?fin ?mid) taken"
  proof (cases "completion ports w now x j")
    case (Some c)
    then have "\<not> reopens c" using completion_shape [OF Some] by auto
    then show ?thesis using log_ok_outbox_step [OF \<open>outbox_inv ?mid\<close> _ mid] Some by (simp add: finishing_def)
  qed (use mid in \<open>simp add: finishing_def\<close>)
  show ?thesis
  proof (cases "reached x j")
    case True
    from reached_delivery [OF d time(1) True time(3)] claimed_not_taken [OF d taken] fin True show ?thesis by (simp add: log_ok_def)
  qed (use fin in simp)
qed

lemma dispatch_inv:
  assumes t: "timely E documented d (ob, issued, taken)" and w: "written_inv (ob, issued)" and l: "log_ok ob taken"
    and s: "dispatch_step E ports reached d (ob, issued, taken) = (ob', issued', taken')"
  shows "written_inv (ob', issued') \<and> log_ok ob' taken'"
proof (cases d)
  case (Run c)
  then have "(ob', issued') = desk_step E c (ob, issued)" "taken' = taken" "\<not> reopens c"
    using s t by (auto simp: Let_def simp del: desk_step.simps)
  then show ?thesis using desk_cmd_inv [OF w l, of c E] by (metis fst_conv)
next
  case (Deliver w' now x cs)
  show ?thesis
  proof (cases "\<exists>j. fst (claim_delivery (oe_lease E) w' now ob) = Inr (Some j)")
    case False
    then have "(ob', issued') = desk_step E (Claim_job False w' now) (ob, issued)" "taken' = taken"
      using s Deliver by (auto simp: claimed_job_def split: prod.splits sum.splits option.splits)
    then show ?thesis using desk_cmd_inv [OF w l, of "Claim_job False w' now" E] by (metis fst_conv reopens.simps(4))
  next
    case True
    then obtain j ob1 where cl: "claim_delivery (oe_lease E) w' now ob = (Inr (Some j), ob1)" by (metis prod.collapse)
    have dl: "delivering E ob issued w' now j ob1" using w cl by (simp add: delivering_def)
    from s [unfolded Deliver deliver_run [OF cl]] show ?thesis
      using delivery_written [OF dl, of ports x cs] delivery_inv [OF dl t [unfolded Deliver] l] by auto
  qed
qed

lemma run_taken_once:
  assumes "timely_run E ports reached documented ds (ob, issued, taken)" "written_inv (ob, issued)" "log_ok ob taken"
    "fold (dispatch_step E ports reached) ds (ob, issued, taken) = (ob', issued', taken')"
  shows "written_inv (ob', issued') \<and> log_ok ob' taken'"
  using assms
proof (induction ds arbitrary: ob issued taken)
  case (Cons d ds)
  obtain ob1 i1 t1 where s: "dispatch_step E ports reached d (ob, issued, taken) = (ob1, i1, t1)" by (metis prod_cases3)
  from Cons.prems(1) s have "timely E documented d (ob, issued, taken)" "timely_run E ports reached documented ds (ob1, i1, t1)"
    by simp_all
  then show ?case using Cons.IH dispatch_inv [OF _ Cons.prems(2,3) s] Cons.prems(4) s by simp
qed simp

end

end
