(* ===== verification/WecomPort.thy ===== *)
theory WecomPort
  imports Channels
begin

text \<open>
  \<^verbatim>\<open>runtime/plugins/tuoguan_core/wecom_outbox_port.py\<close>: the port that sends a reply through the WeCom
  API. An HTTP request either raises an exception or yields the JSON value of its body. The access
  token cache is passed as state, and the POST requests that were issued are returned.
\<close>

section \<open>Python's int\<close>

text \<open>\<open>int(s)\<close>: white space around, a sign, ASCII digits with single underscores between them.\<close>

fun int_digits :: "nat \<Rightarrow> bool \<Rightarrow> pystr \<Rightarrow> nat option" where
  "int_digits acc after_digit [] = (if after_digit then Some acc else None)"
| "int_digits acc after_digit (c # cs) =
     (if 48 \<le> c \<and> c \<le> 57 then int_digits (10 * acc + (c - 48)) True cs
      else if c = 95 \<and> after_digit then int_digits acc False cs else None)"

definition int_of_str :: "pystr \<Rightarrow> int option" where
  "int_of_str s = (case strip s of
     [] \<Rightarrow> None
   | c # cs \<Rightarrow> if c = 45 then map_option (\<lambda>n. - int n) (int_digits 0 False cs)
       else if c = 43 then map_option int (int_digits 0 False cs)
       else map_option int (int_digits 0 False (c # cs)))"

text \<open>\<open>int(v)\<close> of a JSON value: \<open>None\<close> is a \<open>ValueError\<close> or a \<open>TypeError\<close>.\<close>

fun py_int :: "json \<Rightarrow> int option" where
  "py_int (JInt i) = Some i"
| "py_int (JBool b) = Some (if b then 1 else 0)"
| "py_int (JFloat x) = Some (if x < 0 then - \<lfloor>- x\<rfloor> else \<lfloor>x\<rfloor>)"
| "py_int (JStr s) = int_of_str s"
| "py_int _ = None"

section \<open>The port\<close>

record wecom_cfg =
  wc_render :: "json \<Rightarrow> pystr"
  wc_sha :: "pystr \<Rightarrow> pystr"
  wc_agent_id :: pystr

datatype http_answer = Http_raised pystr | Http_json json

record token_cache =
  tc_access_token :: pystr
  tc_expires_at :: timestamp

text \<open>What the port meets during one call.\<close>

record wecom_remote =
  wr_authority :: "authority_docs option"
  wr_cache :: token_cache
  wr_checked_at :: timestamp
  wr_stored_at :: timestamp
  wr_token_answer :: http_answer
  wr_send_answer :: http_answer

definition wecom_channel :: pystr where
  "wecom_channel = lit ''wecom_callback''"

definition token :: "wecom_cfg \<Rightarrow> wecom_remote \<Rightarrow> (py_exn + pystr \<times> pystr) \<times> token_cache" where
  "token C x = (let cache = wr_cache x in
     if tc_access_token cache \<noteq> [] \<and> wr_checked_at x + 60 < tc_expires_at cache then (Inr (tc_access_token cache, []), cache)
     else case wr_token_answer x of
       Http_raised name \<Rightarrow> (Inr ([], lit ''token_transport:'' @ name), cache)
     | Http_json payload \<Rightarrow> (let p = as_dict payload in
         if \<not> is_obj payload then (Inr ([], lit ''token_response_unparseable''), cache)
         else case py_int (por (dget p (lit ''errcode'')) (JInt 0)) of
           None \<Rightarrow> (Inl (Py_error (lit ''ValueError'')), cache)
         | Some code \<Rightarrow>
           if code \<noteq> 0 then (Inr ([], lit ''token_rejected:'' @ py_str (wc_render C) (dget p (lit ''errcode''))), cache)
           else let tok = strip (text_of (wc_render C) (dget p (lit ''access_token''))) in
             if tok = [] then (Inr ([], lit ''token_missing''), cache)
             else case py_int (por (dget p (lit ''expires_in'')) (JInt 7200)) of
               None \<Rightarrow> (Inl (Py_error (lit ''ValueError'')), cache\<lparr>tc_access_token := tok\<rparr>)
             | Some seconds \<Rightarrow> (Inr (tok, []), \<lparr>tc_access_token = tok, tc_expires_at = wr_stored_at x + of_int (max 60 seconds)\<rparr>)))"

record http_post =
  hp_token :: pystr
  hp_touser :: pystr
  hp_agentid :: int
  hp_content :: pystr

definition port_outcome :: "wecom_cfg \<Rightarrow> pystr \<Rightarrow> pystr \<Rightarrow> pystr \<Rightarrow> pystr \<Rightarrow> channel_outcome" where
  "port_outcome C delivery disposition error detail =
     \<lparr>co_disposition = disposition, co_channel_message_id = [], co_error = error,
      co_trace_ref = trace_ref (wc_sha C) wecom_channel delivery disposition detail\<rparr>"

definition proactive_kinds :: "pystr list" where
  "proactive_kinds = [lit ''agenda'', lit ''task_delivery'', lit ''relationship_touch'', lit ''human_command'']"

text \<open>The checks before any request: an exception, an outcome, or nothing.\<close>

definition send_gate :: "wecom_cfg \<Rightarrow> wecom_remote \<Rightarrow> reply_destination \<Rightarrow> pystr \<Rightarrow> pystr \<Rightarrow> py_exn + channel_outcome option" where
  "send_gate C x dest text delivery = (case preflight wecom_channel dest text delivery of
     Some e \<Rightarrow> Inl (Runtime e)
   | None \<Rightarrow> (case wr_authority x of
       Some docs \<Rightarrow> sbind (decide (wc_render C) docs dest) (\<lambda>d.
         Inr (if dd_allowed d then None
           else Some (port_outcome C delivery delivery_failed (lit ''wecom_'' @ dd_reason d) (dd_reason d))))
     | None \<Rightarrow> Inr (if fst (split_once colon (rd_source_identity dest)) \<in> set proactive_kinds
         then Some (port_outcome C delivery delivery_failed (lit ''wecom_proactive_authority_unavailable'') (lit ''proactive_authority_unavailable''))
         else None)))"

definition token_failure :: "wecom_cfg \<Rightarrow> pystr \<Rightarrow> pystr \<Rightarrow> channel_outcome" where
  "token_failure C delivery error =
     port_outcome C delivery (if prefix (lit ''token_transport:'') error then delivery_unknown else delivery_failed) (lit ''wecom_'' @ error) error"

definition send_failed :: "wecom_cfg \<Rightarrow> pystr \<Rightarrow> pystr \<Rightarrow> channel_outcome" where
  "send_failed C delivery name =
     (let error = lit ''wecom_send_transport:'' @ name in port_outcome C delivery delivery_unknown error error)"

definition rejection :: "int \<Rightarrow> pystr" where
  "rejection code = (if code = 81013 then lit ''wecom_send_recipient_rejected:'' else lit ''wecom_send_rejected:'') @ decimal code"

definition send_outcome :: "wecom_cfg \<Rightarrow> pystr \<Rightarrow> http_answer \<Rightarrow> py_exn + channel_outcome" where
  "send_outcome C delivery answer = (case answer of
     Http_raised name \<Rightarrow> Inr (send_failed C delivery name)
   | Http_json payload \<Rightarrow>
     (let p = as_dict payload in
      if \<not> is_obj payload
      then Inr (port_outcome C delivery delivery_unknown (lit ''wecom_send_response_unparseable'') (lit ''response_unparseable''))
      else case py_int (por (dget p (lit ''errcode'')) (JInt 0)) of
        None \<Rightarrow> Inl (Py_error (lit ''ValueError''))
      | Some code \<Rightarrow>
        if code \<noteq> 0 then Inr (port_outcome C delivery delivery_failed (rejection code) (rejection code))
        else let message_id = text_of (wc_render C) (dget p (lit ''msgid'')) in
          Inr \<lparr>co_disposition = delivery_delivered, co_channel_message_id = message_id, co_error = [],
            co_trace_ref = trace_ref (wc_sha C) wecom_channel delivery (lit ''accepted'') (take 16 (wc_sha C message_id))\<rparr>))"

definition post_for :: "pystr \<Rightarrow> int \<Rightarrow> reply_destination \<Rightarrow> pystr \<Rightarrow> http_post" where
  "post_for tok agentid dest text =
     (let recipient = rd_recipient_id dest in
      \<lparr>hp_token = tok, hp_touser = (if colon \<in> set recipient then snd (split_once colon recipient) else recipient),
       hp_agentid = agentid, hp_content = take 2048 text\<rparr>)"

definition wecom_send :: "wecom_cfg \<Rightarrow> wecom_remote \<Rightarrow> reply_destination \<Rightarrow> pystr \<Rightarrow> pystr
    \<Rightarrow> (py_exn + channel_outcome) \<times> token_cache \<times> http_post list" where
  "wecom_send C x dest text delivery = (case send_gate C x dest text delivery of
     Inl e \<Rightarrow> (Inl e, wr_cache x, [])
   | Inr (Some o') \<Rightarrow> (Inr o', wr_cache x, [])
   | Inr None \<Rightarrow> (case token C x of
       (Inl e, cache) \<Rightarrow> (Inl e, cache, [])
     | (Inr (tok, error), cache) \<Rightarrow>
       if error \<noteq> [] then (Inr (token_failure C delivery error), cache, [])
       else case int_of_str (wc_agent_id C) of
         None \<Rightarrow> (Inr (send_failed C delivery (lit ''ValueError'')), cache, [])
       | Some agentid \<Rightarrow> (send_outcome C delivery (wr_send_answer x), cache, [post_for tok agentid dest text])))"

section \<open>The registered ports\<close>

text \<open>What the remote side does during one delivery, whichever channel it uses.\<close>

record remote =
  rm_adapter :: adapter_answer
  rm_wecom :: wecom_remote

definition robot_channel :: pystr where
  "robot_channel = lit ''robot_poc''"

definition direct_ports :: "wecom_cfg \<Rightarrow> (pystr, remote reply_port) dict" where
  "direct_ports C =
     [(robot_channel, \<lparr>po_channel = robot_channel, po_send = (\<lambda>x. adapter_send (wc_render C) (wc_sha C) robot_channel (rm_adapter x))\<rparr>),
      (wecom_channel, \<lparr>po_channel = wecom_channel, po_send = (\<lambda>x dest text delivery. fst (wecom_send C (rm_wecom x) dest text delivery))\<rparr>)]"

text \<open>
  The remote side may have accepted the message: the adapter was called and did not report a local
  preflight rejection, or the POST was issued and WeCom did not answer with an error code.
\<close>

definition wecom_rejected :: "http_answer \<Rightarrow> bool" where
  "wecom_rejected answer = (case answer of Http_raised _ \<Rightarrow> False
     | Http_json p \<Rightarrow> (case p of JObj kvs \<Rightarrow> (case py_int (por (dget kvs (lit ''errcode'')) (JInt 0)) of Some code \<Rightarrow> code \<noteq> 0 | None \<Rightarrow> False)
        | _ \<Rightarrow> False))"

definition may_have_accepted :: "wecom_cfg \<Rightarrow> remote \<Rightarrow> reply_job \<Rightarrow> bool" where
  "may_have_accepted C x j =
     (let ch = rd_channel (jb_destination j) in
      if ch = robot_channel
      then preflight robot_channel (jb_destination j) (jb_reply_text j) (jb_delivery_id j) = None
        \<and> co_disposition (adapter_outcome (wc_render C) (wc_sha C) robot_channel (jb_delivery_id j) (rm_adapter x)) \<noteq> delivery_failed
      else if ch = wecom_channel
      then snd (snd (wecom_send C (rm_wecom x) (jb_destination j) (jb_reply_text j) (jb_delivery_id j))) \<noteq> []
        \<and> \<not> wecom_rejected (wr_send_answer (rm_wecom x))
      else False)"

text \<open>
  The documented behaviour of the remote side: an adapter that reports a failure names it, and the
  error code of a WeCom answer is a number.
\<close>

definition documented :: "wecom_cfg \<Rightarrow> remote \<Rightarrow> bool" where
  "documented C x \<longleftrightarrow>
     (case rm_adapter x of Adapter_returned r \<Rightarrow> adapter_success r \<or> \<not> blank (adapter_error (wc_render C) r) | Adapter_raised _ \<Rightarrow> True)
     \<and> (case wr_send_answer (rm_wecom x) of Http_json (JObj kvs) \<Rightarrow> py_int (por (dget kvs (lit ''errcode'')) (JInt 0)) \<noteq> None | _ \<Rightarrow> True)"

lemma blank_lit_append [simp]: "\<not> blank (lit s) \<Longrightarrow> \<not> blank (lit s @ t)"
  by (simp add: blank_def strip_eq_Nil) blast

lemma disposition_distinct [simp]: "delivery_delivered \<noteq> delivery_failed" "delivery_unknown \<noteq> delivery_failed" "delivery_delivered \<noteq> delivery_unknown"
  "delivery_failed \<noteq> delivery_delivered" "delivery_failed \<noteq> delivery_unknown" "delivery_unknown \<noteq> delivery_delivered"
  by (simp_all add: delivery_names)

lemma adapter_settles:
  assumes "case answer of Adapter_returned r \<Rightarrow> adapter_success r \<or> \<not> blank (adapter_error render r) | Adapter_raised _ \<Rightarrow> True"
    and "co_disposition (adapter_outcome render H ch delivery answer) \<noteq> delivery_failed"
  shows "validate_outcome (adapter_outcome render H ch delivery answer) = None
    \<and> co_disposition (adapter_outcome render H ch delivery answer) \<in> {delivery_delivered, delivery_unknown}"
proof -
  have b: "\<not> blank (lit ''adapter_exception:'')" by (simp add: blank_lit is_space_def)
  show ?thesis using assms b
    by (cases answer) (auto simp: adapter_outcome_def validate_outcome_def Let_def split: if_splits)
qed

lemma send_settles:
  assumes "\<not> wecom_rejected answer" "case answer of Http_json (JObj kvs) \<Rightarrow> py_int (por (dget kvs (lit ''errcode'')) (JInt 0)) \<noteq> None | _ \<Rightarrow> True"
  shows "\<exists>o'. send_outcome C delivery answer = Inr o' \<and> validate_outcome o' = None \<and> co_disposition o' \<in> {delivery_delivered, delivery_unknown}"
proof -
  have b: "\<not> blank (lit ''wecom_send_transport:'')" "\<not> blank (lit ''wecom_send_response_unparseable'')" by (simp_all add: blank_lit is_space_def)
  show ?thesis
  proof (cases answer)
    case (Http_raised name)
    then show ?thesis using b by (simp add: send_outcome_def send_failed_def port_outcome_def validate_outcome_def Let_def)
  next
    case (Http_json p)
    show ?thesis
    proof (cases p)
      case (JObj kvs)
      then have "py_int (por (dget kvs (lit ''errcode'')) (JInt 0)) = Some 0"
        using assms Http_json by (auto simp: wecom_rejected_def)
      then show ?thesis by (simp add: Http_json JObj send_outcome_def validate_outcome_def Let_def)
    qed (use Http_json b in \<open>simp_all add: send_outcome_def port_outcome_def validate_outcome_def Let_def\<close>)
  qed
qed

lemma wecom_post_outcome:
  assumes "snd (snd (wecom_send C x dest text delivery)) \<noteq> []"
  shows "fst (wecom_send C x dest text delivery) = send_outcome C delivery (wr_send_answer x)"
  using assms by (auto simp: wecom_send_def split: sum.splits option.splits prod.splits if_splits)

interpretation direct: settling_ports "direct_ports C" "may_have_accepted C" "documented C" for C
proof
  fix x j assume d: "documented C x" and r: "may_have_accepted C x j"
  have ch: "robot_channel \<noteq> wecom_channel" by (simp add: robot_channel_def wecom_channel_def)
  consider "rd_channel (jb_destination j) = robot_channel" | "rd_channel (jb_destination j) = wecom_channel"
    using r by (auto simp: may_have_accepted_def Let_def split: if_splits)
  then show "\<exists>port o'. map_of (direct_ports C) (rd_channel (jb_destination j)) = Some port
    \<and> po_send port x (jb_destination j) (jb_reply_text j) (jb_delivery_id j) = Inr o' \<and> validate_outcome o' = None
    \<and> co_disposition o' \<in> {delivery_delivered, delivery_unknown}"
  proof cases
    case 1
    then have p: "preflight robot_channel (jb_destination j) (jb_reply_text j) (jb_delivery_id j) = None"
      "co_disposition (adapter_outcome (wc_render C) (wc_sha C) robot_channel (jb_delivery_id j) (rm_adapter x)) \<noteq> delivery_failed"
      using r by (simp_all add: may_have_accepted_def)
    then show ?thesis using 1 adapter_settles [OF _ p(2)] d by (simp add: direct_ports_def adapter_send_def documented_def)
  next
    case 2
    then have p: "snd (snd (wecom_send C (rm_wecom x) (jb_destination j) (jb_reply_text j) (jb_delivery_id j))) \<noteq> []"
      "\<not> wecom_rejected (wr_send_answer (rm_wecom x))"
      using r ch by (simp_all add: may_have_accepted_def)
    then show ?thesis using 2 ch send_settles [OF p(2)] d by (simp add: direct_ports_def wecom_post_outcome [OF p(1)] documented_def)
  qed
qed

section \<open>A sample run\<close>

definition sample_wecom_cfg :: wecom_cfg where
  "sample_wecom_cfg = \<lparr>wc_render = (\<lambda>_. []), wc_sha = (\<lambda>s. s), wc_agent_id = lit ''7''\<rparr>"

definition sample_wecom :: wecom_remote where
  "sample_wecom = \<lparr>wr_authority = Some sample_docs, wr_cache = \<lparr>tc_access_token = lit ''tok'', tc_expires_at = 500\<rparr>, wr_checked_at = 10,
     wr_stored_at = 10, wr_token_answer = Http_json JNull, wr_send_answer = Http_json (JObj [(lit ''errcode'', JInt 0)])\<rparr>"

definition sample_remote :: "bool \<Rightarrow> remote" where
  "sample_remote success = \<lparr>rm_adapter = Adapter_returned \<lparr>ar_success = Some (JBool success), ar_ok = None, ar_message_id = None,
       ar_error = Some (JStr (lit '' ''))\<rparr>, rm_wecom = sample_wecom\<rparr>"

lemma sample_leased_job: "rd_channel (jb_destination (job sample_leased)) = robot_channel" "jb_reply_id (job sample_leased) = lit ''reply_op''"
  "preflight robot_channel (jb_destination (job sample_leased)) (jb_reply_text (job sample_leased)) (jb_delivery_id (job sample_leased)) = None"
proof -
  have d: "jb_destination (job sample_leased) = sample_destination" "jb_reply_text (job sample_leased) = lit ''ok''"
    by (simp_all add: job_def sample_leased_def lease_def)
  have c: "rd_channel sample_destination = robot_channel" by (simp add: sample_destination_def sample_binding_def robot_channel_def)
  have "\<not> blank (jb_delivery_id (job sample_leased))"
    by (simp add: job_def sample_leased_def lease_def sample_job_def new_job_def delivery_id_def blank_lit is_space_def)
  then show "preflight robot_channel (jb_destination (job sample_leased)) (jb_reply_text (job sample_leased)) (jb_delivery_id (job sample_leased)) = None"
    unfolding d by (simp add: preflight_def c sample_reply_canonical blank_lit is_space_def)
  show "rd_channel (jb_destination (job sample_leased)) = robot_channel" by (simp only: d c)
  show "jb_reply_id (job sample_leased) = lit ''reply_op''" by (simp add: job_def sample_leased_def lease_def)
qed

definition sample_dispatch :: "remote dispatch_cmd list" where
  "sample_dispatch = [Run (Observe (sample_observation False) (Some sample_business) 5), Deliver (lit ''w1'') 10 (sample_remote True) []]"

lemma sample_observed_step: "dispatch_step sample_outbox_env ports reached (Run (Observe (sample_observation False) (Some sample_business) 5)) (new_outbox, [], [])
    = (sample_observed False, [], [])"
  by (simp add: sample_observe sample_outbox_env_def claimed_job_def)

lemma sample_accepted: "may_have_accepted sample_wecom_cfg (sample_remote True) (job sample_leased)"
  using sample_leased_job by (simp add: may_have_accepted_def sample_remote_def adapter_outcome_def adapter_success_def attr_or_def Let_def)

lemma sample_dispatch_run:
  "\<exists>ob issued. fold (dispatch_step sample_outbox_env (direct_ports sample_wecom_cfg) (may_have_accepted sample_wecom_cfg)) sample_dispatch (new_outbox, [], [])
     = (ob, issued, [lit ''reply_op''])"
  unfolding sample_dispatch_def fold.simps o_apply id_apply sample_observed_step
  using sample_accepted by (simp add: sample_reply_claim sample_leased_job)

lemma sample_dispatch_timely: "timely_run sample_outbox_env (direct_ports sample_wecom_cfg) (may_have_accepted sample_wecom_cfg)
    (documented sample_wecom_cfg) sample_dispatch (new_outbox, [], [])"
proof -
  have "documented sample_wecom_cfg (sample_remote True)"
    by (simp add: documented_def sample_remote_def adapter_success_def attr_or_def sample_wecom_def por_def dget_def)
  then show ?thesis unfolding sample_dispatch_def timely_run.simps sample_observed_step by (simp split: sum.split option.split)
qed

section \<open>Properties\<close>



text \<open>
  Every message posted to WeCom is authorised and goes where the reply is bound. A call posts at
  most one message, to the user of the bound recipient and with the first 2048 characters of the
  stored text, and only when the proactive authority allowed this destination or, where no authority
  is configured, when the source of the reply is not a proactive one.
\<close>

theorem wecom_post_is_authorised:
  assumes "wecom_send C x dest text delivery = (result, cache, posts)" "posts \<noteq> []"
  shows "\<exists>post. posts = [post] \<and> hp_content post = take 2048 text
    \<and> (colon \<notin> set (rd_recipient_id dest) \<longrightarrow> hp_touser post = rd_recipient_id dest)
    \<and> (\<forall>scope user. colon \<notin> set scope \<and> rd_recipient_id dest = scope @ colon # user \<longrightarrow> hp_touser post = user)
    \<and> rd_channel dest = wecom_channel \<and> \<not> blank text
    \<and> (case wr_authority x of
         Some docs \<Rightarrow> (\<exists>d. decide (wc_render C) docs dest = Inr d \<and> dd_allowed d)
       | None \<Rightarrow> fst (split_once colon (rd_source_identity dest)) \<notin> set proactive_kinds)"
proof -
  have gate: "send_gate C x dest text delivery = Inr None"
    using assms by (auto simp: wecom_send_def split: sum.splits option.splits)
  obtain tok agentid where "posts = [post_for tok agentid dest text]"
    using assms by (auto simp: wecom_send_def split: sum.splits option.splits prod.splits if_splits)
  moreover have "hp_content (post_for tok agentid dest text) = take 2048 text"
    "hp_touser (post_for tok agentid dest text) = (if colon \<in> set (rd_recipient_id dest) then snd (split_once colon (rd_recipient_id dest)) else rd_recipient_id dest)"
    by (simp_all add: post_for_def Let_def)
  moreover have "rd_channel dest = wecom_channel \<and> \<not> blank text"
    using gate by (auto simp: send_gate_def preflight_def split: option.splits sum.splits if_splits)
  moreover have "case wr_authority x of
         Some docs \<Rightarrow> (\<exists>d. decide (wc_render C) docs dest = Inr d \<and> dd_allowed d)
       | None \<Rightarrow> fst (split_once colon (rd_source_identity dest)) \<notin> set proactive_kinds"
    using gate by (auto simp: send_gate_def sbind_eq_Inr split: option.splits if_splits)
  ultimately show ?thesis by (auto simp: split_once_append)
qed

lemma wecom_post_is_authorised_witness:
  "\<exists>post d. snd (snd (wecom_send sample_wecom_cfg sample_wecom (sample_recipient ''corp:u1'' ''wecom'') (lit ''ok'') (lit ''d1''))) = [post]
     \<and> hp_touser post = lit ''u1'' \<and> decide (\<lambda>_. []) sample_docs (sample_recipient ''corp:u1'' ''wecom'') = Inr d \<and> dd_allowed d"
proof -
  let ?d = "sample_recipient ''corp:u1'' ''wecom''"
  have dest: "rd_recipient_id ?d = lit ''corp'' @ colon # lit ''u1''" "rd_source_identity ?d = lit ''wecom''" "rd_channel ?d = wecom_channel"
    by (simp_all add: sample_recipient_def wecom_channel_def) (simp add: lit_def colon_def)
  obtain c where c: "canonical ?d = Inr c" by (simp add: canonical_def sample_recipient_def blank_lit is_space_def)
  have "source_kind_for_tenant (lit ''wecom'') t = []" for t
    by (simp add: source_kind_for_tenant_def Let_def strip_def) (simp add: lit_def colon_def is_space_def)
  then have dec: "decide (\<lambda>_. []) sample_docs ?d = Inr \<lparr>dd_allowed = True, dd_reason = lit ''non_proactive_bound_destination'', dd_role = []\<rparr>"
    by (simp add: decide_def c dest) (simp add: lit_def)
  have gate: "send_gate sample_wecom_cfg sample_wecom ?d (lit ''ok'') (lit ''d1'') = Inr None"
    by (simp add: send_gate_def preflight_def dest c blank_lit is_space_def sample_wecom_def sample_wecom_cfg_def dec)
  have tok: "token sample_wecom_cfg sample_wecom = (Inr (lit ''tok'', []), wr_cache sample_wecom)" by (simp add: token_def sample_wecom_def)
  have "int_of_str (lit ''7'') = Some 7" by (simp add: int_of_str_def strip_def lit_def is_space_def)
  then have ne: "snd (snd (wecom_send sample_wecom_cfg sample_wecom ?d (lit ''ok'') (lit ''d1''))) \<noteq> []"
    by (simp add: wecom_send_def gate tok) (simp add: sample_wecom_cfg_def)
  obtain result cache posts where eq: "wecom_send sample_wecom_cfg sample_wecom ?d (lit ''ok'') (lit ''d1'') = (result, cache, posts)"
    by (rule prod_cases3)
  from ne have "posts \<noteq> []" by (simp add: eq)
  from wecom_post_is_authorised [OF eq this] obtain post where post: "posts = [post]"
    "\<forall>scope user. colon \<notin> set scope \<and> rd_recipient_id ?d = scope @ colon # user \<longrightarrow> hp_touser post = user" by blast
  have "colon \<notin> set (lit ''corp'')" by (simp add: lit_def colon_def)
  then have "hp_touser post = lit ''u1''" using post(2) dest(1) by blast
  then show ?thesis using post(1) by (simp add: eq dec)
qed

text \<open>
  An adapter failure without a name is retried. When the adapter of a direct channel reports a
  failure whose error is white space only, which does not prove that nothing was shown, the outcome
  is refused by the validation and the dispatcher records the reply as not sent: it is ready again
  and the next claim may send it a second time.
\<close>

theorem unnamed_adapter_failure_is_retried:
  assumes "fold (outbox_step E) before new_outbox = ob" "claim_delivery (oe_lease E) w now ob = (Inr (Some j), ob1)"
    and "rd_channel (jb_destination j) = robot_channel"
    and "preflight robot_channel (jb_destination j) (jb_reply_text j) (jb_delivery_id j) = None"
    and "rm_adapter x = Adapter_returned r" "\<not> adapter_success r" "blank (adapter_error (wc_render C) r)"
  shows "\<exists>row\<in>set (ob_jobs (snd (deliver_next (oe_lease E) (direct_ports C) w now x id ob))).
    rj_reply_id row = jb_reply_id j \<and> claimable False row"
proof -
  have inv: "outbox_inv ob" using outbox_reachable_inv assms(1) by blast
  obtain row where row: "claimable False row" "j = job (lease w (now + oe_lease E) now row)" "lease w (now + oe_lease E) now row \<in> set (ob_jobs ob1)"
    "outbox_inv ob1" using claimed_row [OF inv assms(2)] by metis
  let ?held = "lease w (now + oe_lease E) now row"
  let ?o = "adapter_outcome (wc_render C) (wc_sha C) robot_channel (jb_delivery_id j) (rm_adapter x)"
  let ?c = "Complete_delivery j w False (lit ''destination_mismatch'') [] [] now"
  have "\<not> failure_is_known_not_delivered (adapter_error (wc_render C) r)"
    using assms(7) by (simp add: failure_is_known_not_delivered_def blank_def lower_def preflight_markers_def)
  then have "validate_outcome ?o \<noteq> None"
    using assms(6,7) by (simp add: assms(5) adapter_outcome_def validate_outcome_def Let_def)
  then have c: "completion (direct_ports C) w now x j = Some ?c"
    using assms(3,4) by (auto simp: completion_def direct_ports_def adapter_send_def Let_def split: option.split)
  have "awaits (direct_ports C) j" using assms(3) by (simp add: awaits_def direct_ports_def)
  then have s: "snd (deliver_next (oe_lease E) (direct_ports C) w now x id ob) = outbox_step E ?c ob1"
    by (simp add: deliver_next_def assms(2) snd_deliver_job [of _ _ _ _ _ _ _ E] c)
  obtain a where a: "finish_of ?c = Some (j, w, a, now)" "fa_delivery_state a = Ready" "fa_state a = Generated" by simp
  have "finish_row a now ?held \<in> set (ob_jobs (outbox_step E ?c ob1))"
    by (rule finish_hit [OF row(4,3) _ _ a(1)]) (simp_all add: row(2) job_def lease_def)
  moreover have "rj_reply_id (finish_row a now ?held) = jb_reply_id j" "claimable False (finish_row a now ?held)"
    by (simp_all add: finish_row_def row(2) job_def lease_def claimable_def a)
  ultimately show ?thesis unfolding s by blast
qed

lemma unnamed_adapter_failure_is_retried_witness:
  "\<exists>row\<in>set (ob_jobs (snd (deliver_next 30 (direct_ports sample_wecom_cfg) (lit ''w1'') 10 (sample_remote False) id (sample_observed False)))).
    rj_reply_id row = lit ''reply_op'' \<and> claimable False row"
proof -
  have ob: "fold (outbox_step sample_outbox_env) [Observe (sample_observation False) (Some sample_business) 5] new_outbox = sample_observed False"
    unfolding fold.simps o_apply id_apply by (rule sample_step1)
  have cl: "claim_delivery (oe_lease sample_outbox_env) (lit ''w1'') 10 (sample_observed False) = (Inr (Some (job sample_leased)), sample_with sample_leased)"
    by (simp add: sample_reply_claim)
  let ?r = "\<lparr>ar_success = Some (JBool False), ar_ok = None, ar_message_id = None, ar_error = Some (JStr (lit '' ''))\<rparr>"
  have r: "rm_adapter (sample_remote False) = Adapter_returned ?r" "\<not> adapter_success ?r" "blank (adapter_error (wc_render sample_wecom_cfg) ?r)"
    by (simp_all add: sample_remote_def adapter_success_def adapter_error_def attr_or_def por_def blank_lit is_space_def)
  from unnamed_adapter_failure_is_retried [OF ob cl sample_leased_job(1,3) r] show ?thesis by (simp add: sample_leased_job)
qed

end
