(* ===== verification/WecomCrypto.thy ===== *)
theory WecomCrypto
  imports Prelude
begin

text \<open>
  \<^verbatim>\<open>runtime/plugins/platforms/wecom/wecom_crypto.py\<close>: the envelope of WeCom callbacks. Bytes are words
  of eight bits. AES-CBC with the fixed key and initial vector, and SHA-1, are parameters: a cipher
  is a pair of partial functions on bytes, undefined where the library raises. The standard library's
  UTF-8 and base64 codecs and the big-endian length are written out.
\<close>

type_synonym byte = "8 word"

definition byte_of :: "nat \<Rightarrow> byte" where
  "byte_of n = of_nat n"

lemma unat_byte [simp]: "n < 256 \<Longrightarrow> unat (byte_of n) = n"
  by (simp add: byte_of_def unat_of_nat)

lemma byte_of_unat [simp]: "byte_of (unat b) = b"
  by (simp add: byte_of_def)

lemma byte_lt: "unat (b :: byte) < 256"
  using unsigned_less [of b, where 'a = nat] by simp

section \<open>UTF-8\<close>

definition surrogate :: "nat \<Rightarrow> bool" where
  "surrogate c \<longleftrightarrow> 0xD800 \<le> c \<and> c \<le> 0xDFFF"

definition code_point :: "nat \<Rightarrow> bool" where
  "code_point c \<longleftrightarrow> c < 0x110000 \<and> \<not> surrogate c"

definition utf8_char :: "nat \<Rightarrow> byte list" where
  "utf8_char c = map byte_of
     (if c < 0x80 then [c]
      else if c < 0x800 then [0xC0 + c div 64, 0x80 + c mod 64]
      else if c < 0x10000 then [0xE0 + c div 4096, 0x80 + c div 64 mod 64, 0x80 + c mod 64]
      else [0xF0 + c div 262144, 0x80 + c div 4096 mod 64, 0x80 + c div 64 mod 64, 0x80 + c mod 64])"

text \<open>\<open>s.encode("utf-8")\<close>: \<open>None\<close> is a \<open>UnicodeEncodeError\<close>.\<close>

definition utf8_encode :: "pystr \<Rightarrow> byte list option" where
  "utf8_encode s = (if \<forall>c\<in>set s. code_point c then Some (concat (map utf8_char s)) else None)"

definition continuation :: "byte \<Rightarrow> bool" where
  "continuation b \<longleftrightarrow> 0x80 \<le> unat b \<and> unat b < 0xC0"

text \<open>One character of \<open>bs.decode("utf-8")\<close>, and the bytes left.\<close>

definition utf8_next :: "byte list \<Rightarrow> (nat \<times> byte list) option" where
  "utf8_next bs = (case bs of
     [] \<Rightarrow> None
   | b # bs1 \<Rightarrow> (let n = unat b in
       if n < 0x80 then Some (n, bs1)
       else case bs1 of [] \<Rightarrow> None | b1 # bs2 \<Rightarrow>
         if \<not> continuation b1 then None
         else let m = unat b1 - 0x80 in
           if 0xC2 \<le> n \<and> n < 0xE0 then Some ((n - 0xC0) * 64 + m, bs2)
           else case bs2 of [] \<Rightarrow> None | b2 # bs3 \<Rightarrow>
             if \<not> continuation b2 then None
             else let k = unat b2 - 0x80; c3 = (n - 0xE0) * 4096 + m * 64 + k in
               if 0xE0 \<le> n \<and> n < 0xF0 then (if 0x800 \<le> c3 \<and> \<not> surrogate c3 then Some (c3, bs3) else None)
               else case bs3 of [] \<Rightarrow> None | b3 # bs4 \<Rightarrow>
                 let c4 = (n - 0xF0) * 262144 + m * 4096 + k * 64 + (unat b3 - 0x80) in
                 if 0xF0 \<le> n \<and> continuation b3 \<and> 0x10000 \<le> c4 \<and> c4 < 0x110000 then Some (c4, bs4) else None))"

lemma utf8_next_shorter: "utf8_next bs = Some (c, rest) \<Longrightarrow> length rest < length bs"
  by (auto simp: utf8_next_def Let_def split: list.splits if_splits)

function utf8_decode :: "byte list \<Rightarrow> pystr option" where
  "utf8_decode bs = (if bs = [] then Some []
     else case utf8_next bs of None \<Rightarrow> None | Some (c, rest) \<Rightarrow> map_option (Cons c) (utf8_decode rest))"
  by auto
termination by (relation "measure length") (auto dest: utf8_next_shorter)

declare utf8_decode.simps [simp del]

lemma utf8_next_char:
  assumes "code_point c"
  shows "utf8_next (utf8_char c @ rest) = Some (c, rest)"
proof -
  consider "c < 0x80" | "0x80 \<le> c" "c < 0x800" | "0x800 \<le> c" "c < 0x10000" | "0x10000 \<le> c" "c < 0x110000"
    using assms unfolding code_point_def by linarith
  then show ?thesis
  proof cases
    case 1
    then show ?thesis by (simp add: utf8_char_def utf8_next_def)
  next
    case 2
    define q r where "q = c div 64" and "r = c mod 64"
    have "2 \<le> q" "q < 32" "r < 64" "q * 64 + r = c" using 2 by (auto simp: q_def r_def)
    moreover have "utf8_char c = [byte_of (0xC0 + q), byte_of (0x80 + r)]" using 2 by (simp add: utf8_char_def q_def r_def)
    ultimately show ?thesis by (simp add: utf8_next_def continuation_def Let_def)
  next
    case 3
    then have b: "c div 4096 < 16" by auto
    have p: "c div 64 mod 64 < 64" "c mod 64 < 64" by simp_all
    have "c div 64 = c div 4096 * 64 + c div 64 mod 64" using div_mult_mod_eq [of "c div 64" 64] by (simp add: div_mult2_eq [symmetric])
    moreover have "c = c div 64 * 64 + c mod 64" by simp
    ultimately have e: "c div 4096 * 4096 + c div 64 mod 64 * 64 + c mod 64 = c" by linarith
    have s: "\<not> surrogate c" using assms by (simp add: code_point_def)
    show ?thesis using 3 b p s e by (simp add: utf8_char_def utf8_next_def continuation_def Let_def)
  next
    case 4
    then have b: "c div 262144 < 5" by auto
    have p: "c div 4096 mod 64 < 64" "c div 64 mod 64 < 64" "c mod 64 < 64" by simp_all
    have "c div 4096 = c div 262144 * 64 + c div 4096 mod 64" using div_mult_mod_eq [of "c div 4096" 64] by (simp add: div_mult2_eq [symmetric])
    moreover have "c div 64 = c div 4096 * 64 + c div 64 mod 64" using div_mult_mod_eq [of "c div 64" 64] by (simp add: div_mult2_eq [symmetric])
    moreover have "c = c div 64 * 64 + c mod 64" by simp
    ultimately have e: "c div 262144 * 262144 + c div 4096 mod 64 * 4096 + c div 64 mod 64 * 64 + c mod 64 = c" by linarith
    show ?thesis using 4 b p e by (simp add: utf8_char_def utf8_next_def continuation_def Let_def)
  qed
qed

lemma utf8_char_ne: "utf8_char c \<noteq> []"
  by (simp add: utf8_char_def)

lemma utf8_roundtrip:
  assumes "utf8_encode s = Some bs"
  shows "utf8_decode bs = Some s"
proof -
  have "utf8_decode (concat (map utf8_char s)) = Some s" if "\<forall>c\<in>set s. code_point c"
    using that
  proof (induction s)
    case Nil
    then show ?case by (simp add: utf8_decode.simps)
  next
    case (Cons c s)
    then show ?case using utf8_char_ne [of c] by (subst utf8_decode.simps) (simp add: utf8_next_char)
  qed
  then show ?thesis using assms by (auto simp: utf8_encode_def split: if_splits)
qed

section \<open>Base64\<close>

definition b64_alphabet :: pystr where
  "b64_alphabet = lit ''ABCDEFGHIJKLMNOPQRSTUVWXYZabcdefghijklmnopqrstuvwxyz0123456789+/''"

definition b64_char :: "nat \<Rightarrow> nat" where
  "b64_char v = (if v < 26 then 65 + v else if v < 52 then 97 + (v - 26) else if v < 62 then 48 + (v - 52) else if v = 62 then 43 else 47)"

definition b64_value :: "nat \<Rightarrow> nat option" where
  "b64_value c = (if 65 \<le> c \<and> c \<le> 90 then Some (c - 65) else if 97 \<le> c \<and> c \<le> 122 then Some (c - 97 + 26)
     else if 48 \<le> c \<and> c \<le> 57 then Some (c - 48 + 52) else if c = 43 then Some 62 else if c = 47 then Some 63 else None)"

lemma b64_value_char [simp]: "v < 64 \<Longrightarrow> b64_value (b64_char v) = Some v"
  by (auto simp: b64_char_def b64_value_def)

lemma b64_char_not_pad [simp]: "v < 64 \<Longrightarrow> b64_char v \<noteq> 61"
  by (auto simp: b64_char_def)

lemma b64_char_ascii: "v < 64 \<Longrightarrow> b64_char v < 128"
  by (auto simp: b64_char_def)

text \<open>\<open>base64.b64encode(bs).decode("utf-8")\<close>.\<close>

fun b64_encode :: "byte list \<Rightarrow> pystr" where
  "b64_encode [] = []"
| "b64_encode [a] = [b64_char (unat a div 4), b64_char (unat a mod 4 * 16), 61, 61]"
| "b64_encode [a, b] = [b64_char (unat a div 4), b64_char (unat a mod 4 * 16 + unat b div 16), b64_char (unat b mod 16 * 4), 61]"
| "b64_encode (a # b # c # bs) =
     [b64_char (unat a div 4), b64_char (unat a mod 4 * 16 + unat b div 16), b64_char (unat b mod 16 * 4 + unat c div 64), b64_char (unat c mod 64)]
     @ b64_encode bs"

text \<open>
  The scanner behind \<open>base64.b64decode(s)\<close>: it skips characters outside the alphabet, and a padding
  that completes a quad ends the input. \<open>q\<close> is the position in the quad, \<open>left\<close> the bits kept from
  the character before, \<open>pads\<close> the padding seen.
\<close>

fun b64_scan :: "nat \<Rightarrow> nat \<Rightarrow> nat \<Rightarrow> pystr \<Rightarrow> byte list option" where
  "b64_scan q left pads [] = (if q = 0 then Some [] else None)"
| "b64_scan q left pads (c # cs) =
     (if c = 61 then
        if 2 \<le> q \<and> 4 \<le> q + (pads + 1) then Some [] else b64_scan q left (if 2 \<le> q then pads + 1 else pads) cs
      else case b64_value c of
        None \<Rightarrow> b64_scan q left pads cs
      | Some v \<Rightarrow>
          if q = 0 then b64_scan 1 v 0 cs
          else if q = 1 then map_option (Cons (byte_of (left * 4 + v div 16))) (b64_scan 2 (v mod 16) 0 cs)
          else if q = 2 then map_option (Cons (byte_of (left * 16 + v div 4))) (b64_scan 3 (v mod 4) 0 cs)
          else map_option (Cons (byte_of (left * 64 + v))) (b64_scan 0 0 0 cs))"

definition b64_decode :: "pystr \<Rightarrow> byte list option" where
  "b64_decode s = (if \<exists>c\<in>set s. 128 \<le> c then None else b64_scan 0 0 0 s)"

lemma b64_parts: "unat (a :: byte) div 4 < 64" "unat (a :: byte) mod 4 * 16 < 64" "unat (a :: byte) mod 4 * 16 + unat (b :: byte) div 16 < 64"
  "unat (b :: byte) mod 16 * 4 < 64" "unat (b :: byte) mod 16 * 4 + unat (c :: byte) div 64 < 64" "unat (c :: byte) mod 64 < 64"
  using byte_lt [of a] byte_lt [of b] byte_lt [of c] by auto

lemma b64_join:
  "unat (b :: byte) div 16 div 16 = 0" "unat (b :: byte) div 16 mod 16 = unat b div 16"
  "unat (c :: byte) div 64 div 4 = 0" "unat (c :: byte) div 64 mod 4 = unat c div 64"
proof -
  have lt: "unat b div 16 < 16" "unat c div 64 < 4" using byte_lt [of b] byte_lt [of c] by auto
  show "unat b div 16 div 16 = 0" "unat b div 16 mod 16 = unat b div 16" "unat c div 64 div 4 = 0" "unat c div 64 mod 4 = unat c div 64"
    using lt by (simp_all add: div_less)
qed

lemma b64_scan_encode: "b64_scan 0 0 0 (b64_encode bs) = Some bs"
proof (induction bs rule: b64_encode.induct)
  case 1
  then show ?case by simp
next
  case (2 a)
  then show ?case by (simp add: b64_parts b64_join)
next
  case (3 a b)
  then show ?case by (simp add: b64_parts b64_join)
next
  case (4 a b c bs)
  then show ?case by (simp add: b64_parts b64_join)
qed

lemma b64_encode_ascii: "\<forall>c\<in>set (b64_encode bs). c < 128"
  by (induction bs rule: b64_encode.induct) (use b64_parts b64_char_ascii in auto)

lemma b64_roundtrip: "b64_decode (b64_encode bs) = Some bs"
  using b64_encode_ascii [of bs] b64_scan_encode [of bs] by (auto simp: b64_decode_def not_less [symmetric])

section \<open>The envelope\<close>

datatype crypto_exn = Signature_error pystr | Decrypt_error pystr | Encrypt_error pystr | Argument_error pystr | Unicode_error

definition block_size :: nat where
  "block_size = 32"

definition pkcs7_encode :: "byte list \<Rightarrow> byte list" where
  "pkcs7_encode text =
     (let amount = block_size - length text mod block_size; pad = (if amount = 0 then block_size else amount)
      in text @ replicate pad (byte_of pad))"

definition pkcs7_decode :: "byte list \<Rightarrow> crypto_exn + byte list" where
  "pkcs7_decode decrypted =
     (if decrypted = [] then Inl (Decrypt_error (lit ''empty decrypted payload''))
      else let pad = unat (last decrypted); keep = length decrypted - pad in
        if pad < 1 \<or> block_size < pad then Inl (Decrypt_error (lit ''invalid PKCS7 padding''))
        else if drop keep decrypted \<noteq> replicate pad (byte_of pad) then Inl (Decrypt_error (lit ''malformed PKCS7 padding''))
        else Inr (take keep decrypted))"

text \<open>\<open>struct.pack("I", socket.htonl(n))\<close> and its inverse: four bytes, the highest first.\<close>

definition be32 :: "nat \<Rightarrow> byte list option" where
  "be32 n = (if n < 2 ^ 32 then Some (map byte_of [n div 2 ^ 24, n div 2 ^ 16 mod 256, n div 2 ^ 8 mod 256, n mod 256]) else None)"

definition from_be32 :: "byte list \<Rightarrow> nat option" where
  "from_be32 bs = (if length bs = 4 then Some (foldl (\<lambda>n b. n * 256 + unat b) 0 bs) else None)"

record crypto_lib =
  cl_sha1 :: "byte list \<Rightarrow> pystr"
  cl_enc :: "byte list \<Rightarrow> byte list \<Rightarrow> byte list \<Rightarrow> byte list option"
  cl_dec :: "byte list \<Rightarrow> byte list \<Rightarrow> byte list \<Rightarrow> byte list option"

record crypt =
  cr_token :: pystr
  cr_receive_id :: pystr
  cr_key :: "byte list"
  cr_iv :: "byte list"

definition new_crypt :: "pystr \<Rightarrow> pystr \<Rightarrow> pystr \<Rightarrow> crypto_exn + crypt" where
  "new_crypt tok encoding_aes_key receive_id =
     (if tok = [] then Inl (Argument_error (lit ''token is required''))
      else if encoding_aes_key = [] then Inl (Argument_error (lit ''encoding_aes_key is required''))
      else if length encoding_aes_key \<noteq> 43 then Inl (Argument_error (lit ''encoding_aes_key must be 43 chars''))
      else if receive_id = [] then Inl (Argument_error (lit ''receive_id is required''))
      else case b64_decode (encoding_aes_key @ [61]) of
        None \<Rightarrow> Inl (Argument_error (lit ''binascii.Error''))
      | Some key \<Rightarrow> Inr \<lparr>cr_token = tok, cr_receive_id = receive_id, cr_key = key, cr_iv = take 16 key\<rparr>)"

definition sha1_signature :: "crypto_lib \<Rightarrow> pystr \<Rightarrow> pystr \<Rightarrow> pystr \<Rightarrow> pystr \<Rightarrow> crypto_exn + pystr" where
  "sha1_signature L tok stamp nonce encrypted =
     (case utf8_encode (concat (sort [tok, stamp, nonce, encrypted])) of None \<Rightarrow> Inl Unicode_error | Some bs \<Rightarrow> Inr (cl_sha1 L bs))"

definition encrypt_failed :: crypto_exn where "encrypt_failed = Encrypt_error (lit ''encrypt failed'')"
definition decrypt_failed :: crypto_exn where "decrypt_failed = Decrypt_error (lit ''decrypt failed'')"

text \<open>\<open>_encrypt_bytes\<close>; \<open>random_prefix\<close> is \<open>os.urandom(16)\<close>.\<close>

definition encrypt_bytes :: "crypto_lib \<Rightarrow> crypt \<Rightarrow> byte list \<Rightarrow> byte list \<Rightarrow> crypto_exn + pystr" where
  "encrypt_bytes L C random_prefix raw = (case be32 (length raw) of
     None \<Rightarrow> Inl encrypt_failed
   | Some msg_len \<Rightarrow> (case utf8_encode (cr_receive_id C) of
       None \<Rightarrow> Inl encrypt_failed
     | Some rid \<Rightarrow> (case cl_enc L (cr_key C) (cr_iv C) (pkcs7_encode (random_prefix @ msg_len @ raw @ rid)) of
         None \<Rightarrow> Inl encrypt_failed
       | Some encrypted \<Rightarrow> Inr (b64_encode encrypted))))"

record envelope =
  en_encrypt :: pystr
  en_signature :: pystr
  en_timestamp :: pystr
  en_nonce :: pystr

text \<open>\<open>encrypt\<close>: the fresh nonce and the clock's time stamp replace an argument that is missing or empty.\<close>

definition given :: "pystr option \<Rightarrow> pystr \<Rightarrow> pystr" where
  "given a fresh = (case a of Some s \<Rightarrow> if s = [] then fresh else s | None \<Rightarrow> fresh)"

definition encrypt :: "crypto_lib \<Rightarrow> crypt \<Rightarrow> byte list \<Rightarrow> pystr \<Rightarrow> pystr \<Rightarrow> pystr \<Rightarrow> pystr option \<Rightarrow> pystr option \<Rightarrow> crypto_exn + envelope" where
  "encrypt L C random_prefix fresh_nonce clock plaintext nonce stamp =
     (let n = given nonce fresh_nonce; ts = given stamp clock in
      case utf8_encode plaintext of None \<Rightarrow> Inl Unicode_error
      | Some raw \<Rightarrow> (case encrypt_bytes L C random_prefix raw of Inl e \<Rightarrow> Inl e
        | Inr enc \<Rightarrow> (case sha1_signature L (cr_token C) ts n enc of Inl e \<Rightarrow> Inl e
          | Inr sig \<Rightarrow> Inr \<lparr>en_encrypt = enc, en_signature = sig, en_timestamp = ts, en_nonce = n\<rparr>)))"

text \<open>The body of the \<open>try\<close> block of \<open>decrypt\<close> after the cipher: the message, if it is for this receiver.\<close>

definition open_payload :: "crypt \<Rightarrow> byte list \<Rightarrow> crypto_exn + byte list" where
  "open_payload C padded = (case pkcs7_decode padded of
     Inl e \<Rightarrow> Inl e
   | Inr plain \<Rightarrow> (let content = drop 16 plain in
       case from_be32 (take 4 content) of
         None \<Rightarrow> Inl decrypt_failed
       | Some xml_length \<Rightarrow> (case utf8_decode (drop (4 + xml_length) content) of
           None \<Rightarrow> Inl decrypt_failed
         | Some rid \<Rightarrow> if rid \<noteq> cr_receive_id C then Inl (Decrypt_error (lit ''receive_id mismatch''))
             else Inr (take xml_length (drop 4 content)))))"

definition decrypt :: "crypto_lib \<Rightarrow> crypt \<Rightarrow> pystr \<Rightarrow> pystr \<Rightarrow> pystr \<Rightarrow> pystr \<Rightarrow> crypto_exn + byte list" where
  "decrypt L C msg_signature stamp nonce encrypted = (case sha1_signature L (cr_token C) stamp nonce encrypted of
     Inl e \<Rightarrow> Inl e
   | Inr expected \<Rightarrow>
       if expected \<noteq> msg_signature then Inl (Signature_error (lit ''signature mismatch''))
       else case b64_decode encrypted of
         None \<Rightarrow> Inl (Decrypt_error (lit ''invalid base64 payload''))
       | Some cipher_text \<Rightarrow> (case cl_dec L (cr_key C) (cr_iv C) cipher_text of
           None \<Rightarrow> Inl decrypt_failed
         | Some padded \<Rightarrow> open_payload C padded))"

definition verify_url :: "crypto_lib \<Rightarrow> crypt \<Rightarrow> pystr \<Rightarrow> pystr \<Rightarrow> pystr \<Rightarrow> pystr \<Rightarrow> crypto_exn + pystr" where
  "verify_url L C msg_signature stamp nonce echostr = (case decrypt L C msg_signature stamp nonce echostr of
     Inl e \<Rightarrow> Inl e
   | Inr bs \<Rightarrow> (case utf8_decode bs of None \<Rightarrow> Inl Unicode_error | Some s \<Rightarrow> Inr s))"

section \<open>Round trips of the parts\<close>

lemma pkcs7_roundtrip: "pkcs7_decode (pkcs7_encode text) = Inr text"
proof -
  define pad where "pad = block_size - length text mod block_size"
  have pad: "1 \<le> pad" "pad \<le> 32" using mod_less_divisor [of block_size "length text"] by (auto simp: pad_def block_size_def)
  then have e: "pkcs7_encode text = text @ replicate pad (byte_of pad)" by (simp add: pkcs7_encode_def Let_def flip: pad_def)
  have "last (pkcs7_encode text) = byte_of pad" using pad by (simp add: e)
  moreover have "length (pkcs7_encode text) - pad = length text" using pad by (simp add: e)
  ultimately show ?thesis using pad by (simp add: pkcs7_decode_def e block_size_def)
qed

lemma pkcs7_blocks: "length (pkcs7_encode text) mod block_size = 0"
proof -
  have "length (pkcs7_encode text) = length text + (block_size - length text mod block_size)"
    using mod_less_divisor [of block_size "length text"] by (auto simp: pkcs7_encode_def Let_def block_size_def)
  also have "\<dots> = length text div block_size * block_size + block_size"
    unfolding block_size_def by presburger
  finally show ?thesis by simp
qed

lemma be32_roundtrip:
  assumes "be32 n = Some bs"
  shows "length bs = 4 \<and> from_be32 bs = Some n"
proof -
  have n: "n < 2 ^ 32" and bs: "bs = map byte_of [n div 2 ^ 24, n div 2 ^ 16 mod 256, n div 2 ^ 8 mod 256, n mod 256]"
    using assms by (auto simp: be32_def split: if_splits)
  have "n div 2 ^ 24 < 256" using n by auto
  moreover have "n div 65536 = n div 16777216 * 256 + n div 65536 mod 256" using div_mult_mod_eq [of "n div 65536" 256] by (simp add: div_mult2_eq [symmetric])
  moreover have "n div 256 = n div 65536 * 256 + n div 256 mod 256" using div_mult_mod_eq [of "n div 256" 256] by (simp add: div_mult2_eq [symmetric])
  moreover have "n = n div 256 * 256 + n mod 256" by simp
  ultimately show ?thesis by (simp add: bs from_be32_def)
qed

lemma open_payload_pkcs7:
  assumes "length random_prefix = 16" "be32 (length raw) = Some msg_len" "utf8_encode r = Some rid"
  shows "open_payload C (pkcs7_encode (random_prefix @ msg_len @ raw @ rid)) =
    (if r \<noteq> cr_receive_id C then Inl (Decrypt_error (lit ''receive_id mismatch'')) else Inr raw)"
  using be32_roundtrip [OF assms(2)] utf8_roundtrip [OF assms(3)] assms(1) by (simp add: open_payload_def pkcs7_roundtrip)

lemma encryptD:
  assumes "encrypt L C random_prefix fresh_nonce clock plaintext nonce stamp = Inr env"
  obtains raw msg_len rid cipher_text where "utf8_encode plaintext = Some raw" "be32 (length raw) = Some msg_len"
    "utf8_encode (cr_receive_id C) = Some rid" "cl_enc L (cr_key C) (cr_iv C) (pkcs7_encode (random_prefix @ msg_len @ raw @ rid)) = Some cipher_text"
    "en_encrypt env = b64_encode cipher_text" "sha1_signature L (cr_token C) (en_timestamp env) (en_nonce env) (en_encrypt env) = Inr (en_signature env)"
  using assms by (auto simp: encrypt_def encrypt_bytes_def Let_def split: option.splits sum.splits)

section \<open>Properties\<close>

text \<open>
  C26: What is encrypted is read back. When the cipher's decryption undoes its encryption under the
  configured key, an envelope that was produced for any plaintext is accepted by its receiver, which
  reads exactly that plaintext, whatever the random prefix and the nonce.
\<close>

theorem encrypted_message_is_read_back:
  assumes "encrypt L C random_prefix fresh_nonce clock plaintext nonce stamp = Inr env" "length random_prefix = 16"
    and "\<forall>p c. cl_enc L (cr_key C) (cr_iv C) p = Some c \<longrightarrow> cl_dec L (cr_key C) (cr_iv C) c = Some p"
  shows "verify_url L C (en_signature env) (en_timestamp env) (en_nonce env) (en_encrypt env) = Inr plaintext"
proof (rule encryptD [OF assms(1)])
  fix raw msg_len rid cipher_text
  assume e: "utf8_encode plaintext = Some raw" "be32 (length raw) = Some msg_len" "utf8_encode (cr_receive_id C) = Some rid"
    "cl_enc L (cr_key C) (cr_iv C) (pkcs7_encode (random_prefix @ msg_len @ raw @ rid)) = Some cipher_text"
    "en_encrypt env = b64_encode cipher_text" "sha1_signature L (cr_token C) (en_timestamp env) (en_nonce env) (en_encrypt env) = Inr (en_signature env)"
  have "cl_dec L (cr_key C) (cr_iv C) cipher_text = Some (pkcs7_encode (random_prefix @ msg_len @ raw @ rid))" using e(4) assms(3) by blast
  then have "decrypt L C (en_signature env) (en_timestamp env) (en_nonce env) (en_encrypt env) = Inr raw"
    using e(6) open_payload_pkcs7 [OF assms(2) e(2,3), of C] by (simp add: decrypt_def e(5) b64_roundtrip)
  then show ?thesis using utf8_roundtrip [OF e(1)] by (simp add: verify_url_def)
qed

definition sample_lib :: crypto_lib where
  "sample_lib = \<lparr>cl_sha1 = (\<lambda>bs. map unat bs), cl_enc = (\<lambda>key iv p. Some (rev p)), cl_dec = (\<lambda>key iv c. Some (rev c))\<rparr>"

definition sample_crypt :: "string \<Rightarrow> crypt" where
  "sample_crypt receive_id = \<lparr>cr_token = lit ''k'', cr_receive_id = lit receive_id, cr_key = [], cr_iv = []\<rparr>"

lemma sample_encrypt: "\<exists>env. encrypt sample_lib (sample_crypt ''corp'') (replicate 16 0) (lit ''n'') (lit ''9'') (lit ''hi'') None None = Inr env"
proof -
  have t: "utf8_encode (lit ''hi'') = Some (concat (map utf8_char (lit ''hi'')))" "utf8_encode (lit ''corp'') = Some (concat (map utf8_char (lit ''corp'')))"
    by (simp_all add: utf8_encode_def) (simp_all add: lit_def code_point_def surrogate_def)
  have "be32 (length (concat (map utf8_char (lit ''hi'')))) \<noteq> None" by (simp add: lit_def utf8_char_def be32_def)
  then obtain x where b: "encrypt_bytes sample_lib (sample_crypt ''corp'') (replicate 16 0) (concat (map utf8_char (lit ''hi''))) = Inr (b64_encode x)"
    by (auto simp: encrypt_bytes_def sample_lib_def sample_crypt_def t)
  have "code_point c" if "c \<in> set (lit ''k'') \<union> set (lit ''9'') \<union> set (lit ''n'') \<union> set (b64_encode x)" for c
    using that b64_encode_ascii [of x] by (auto simp: lit_def code_point_def surrogate_def)
  then have "\<forall>c\<in>set (concat (sort [lit ''k'', lit ''9'', lit ''n'', b64_encode x])). code_point c" unfolding set_concat set_sort by auto
  then obtain sig where "sha1_signature sample_lib (lit ''k'') (lit ''9'') (lit ''n'') (b64_encode x) = Inr sig"
    unfolding sha1_signature_def utf8_encode_def by (auto simp del: sort_key_simps)
  then show ?thesis by (simp add: encrypt_def given_def t b) (simp add: sample_crypt_def)
qed

lemma encrypted_message_is_read_back_witness:
  "\<exists>env. encrypt sample_lib (sample_crypt ''corp'') (replicate 16 0) (lit ''n'') (lit ''9'') (lit ''hi'') None None = Inr env
    \<and> verify_url sample_lib (sample_crypt ''corp'') (en_signature env) (en_timestamp env) (en_nonce env) (en_encrypt env) = Inr (lit ''hi'')"
proof -
  obtain env where e: "encrypt sample_lib (sample_crypt ''corp'') (replicate 16 0) (lit ''n'') (lit ''9'') (lit ''hi'') None None = Inr env"
    using sample_encrypt by blast
  have "\<forall>p c. cl_enc sample_lib (cr_key (sample_crypt ''corp'')) (cr_iv (sample_crypt ''corp'')) p = Some c
      \<longrightarrow> cl_dec sample_lib (cr_key (sample_crypt ''corp'')) (cr_iv (sample_crypt ''corp'')) c = Some p" by (auto simp: sample_lib_def)
  from encrypted_message_is_read_back [OF e _ this] e show ?thesis by auto
qed

text \<open>
  A message for another receiver, or with another signature, is refused. An envelope produced for
  one receive id is rejected by an endpoint that shares token and key but has another receive id, and
  any signature other than the computed one is rejected before the payload is looked at.
\<close>

theorem foreign_envelope_is_refused:
  assumes "encrypt L C random_prefix fresh_nonce clock plaintext nonce stamp = Inr env" "length random_prefix = 16"
    and "\<forall>p c. cl_enc L (cr_key C) (cr_iv C) p = Some c \<longrightarrow> cl_dec L (cr_key C) (cr_iv C) c = Some p"
    and "cr_token C' = cr_token C" "cr_key C' = cr_key C" "cr_iv C' = cr_iv C"
  shows "(cr_receive_id C' \<noteq> cr_receive_id C \<longrightarrow>
       decrypt L C' (en_signature env) (en_timestamp env) (en_nonce env) (en_encrypt env) = Inl (Decrypt_error (lit ''receive_id mismatch'')))
    \<and> (sig \<noteq> en_signature env \<longrightarrow> decrypt L C' sig (en_timestamp env) (en_nonce env) (en_encrypt env) = Inl (Signature_error (lit ''signature mismatch'')))"
proof (rule encryptD [OF assms(1)])
  fix raw msg_len rid cipher_text
  assume e: "utf8_encode plaintext = Some raw" "be32 (length raw) = Some msg_len" "utf8_encode (cr_receive_id C) = Some rid"
    "cl_enc L (cr_key C) (cr_iv C) (pkcs7_encode (random_prefix @ msg_len @ raw @ rid)) = Some cipher_text"
    "en_encrypt env = b64_encode cipher_text" "sha1_signature L (cr_token C) (en_timestamp env) (en_nonce env) (en_encrypt env) = Inr (en_signature env)"
  have "cl_dec L (cr_key C') (cr_iv C') cipher_text = Some (pkcs7_encode (random_prefix @ msg_len @ raw @ rid))" using e(4) assms(3,5,6) by simp
  then show ?thesis
    using e(6) open_payload_pkcs7 [OF assms(2) e(2,3), of C'] assms(4) by (auto simp: decrypt_def e(5) b64_roundtrip)
qed

lemma foreign_envelope_is_refused_witness:
  "\<exists>env. encrypt sample_lib (sample_crypt ''corp'') (replicate 16 0) (lit ''n'') (lit ''9'') (lit ''hi'') None None = Inr env
    \<and> decrypt sample_lib (sample_crypt ''other'') (en_signature env) (en_timestamp env) (en_nonce env) (en_encrypt env)
      = Inl (Decrypt_error (lit ''receive_id mismatch''))"
proof -
  obtain env where e: "encrypt sample_lib (sample_crypt ''corp'') (replicate 16 0) (lit ''n'') (lit ''9'') (lit ''hi'') None None = Inr env"
    using sample_encrypt by blast
  have c: "\<forall>p c. cl_enc sample_lib (cr_key (sample_crypt ''corp'')) (cr_iv (sample_crypt ''corp'')) p = Some c
      \<longrightarrow> cl_dec sample_lib (cr_key (sample_crypt ''corp'')) (cr_iv (sample_crypt ''corp'')) c = Some p" by (auto simp: sample_lib_def)
  have o: "cr_token (sample_crypt ''other'') = cr_token (sample_crypt ''corp'')" "cr_key (sample_crypt ''other'') = cr_key (sample_crypt ''corp'')"
    "cr_iv (sample_crypt ''other'') = cr_iv (sample_crypt ''corp'')" "cr_receive_id (sample_crypt ''other'') \<noteq> cr_receive_id (sample_crypt ''corp'')"
    by (simp_all add: sample_crypt_def)
  from foreign_envelope_is_refused [OF e _ c o(1-3), of undefined] o(4) e show ?thesis by auto
qed

end
