(* ===== verification/DirectReply.thy ===== *)
theory DirectReply
  imports Channels
begin

text \<open>
  \<^verbatim>\<open>runtime/plugins/tuoguan_core/direct_reply_recovery.py\<close>: the manager that ties trusted turns to the
  reply outbox. Its own database holds the turns and the links of agenda tickets to turns; every call
  on the outbox is a transaction of its own. A column that holds the JSON text of a value is that
  value; \<open>H\<close> is \<open>sha256(...).hexdigest()\<close>, \<open>render\<close> is \<open>str\<close> and \<open>loads\<close> is \<open>json.loads\<close>.
\<close>

section \<open>Control markers\<close>

definition control_prefix :: pystr where
  "control_prefix = lit ''xiaoyou-reply-outbox:''"

definition legacy_control_prefix :: pystr where
  "legacy_control_prefix = 0x2063 # control_prefix"

definition reply_reference :: "pystr \<Rightarrow> bool" where
  "reply_reference s \<longleftrightarrow> take 6 s = lit ''reply_'' \<and> length s = 38
     \<and> (\<forall>c\<in>set (drop 6 s). (48 \<le> c \<and> c \<le> 57) \<or> (97 \<le> c \<and> c \<le> 102))"

definition control_marker :: "pystr \<Rightarrow> wr_error + pystr" where
  "control_marker rid = (let value = strip rid in
     if \<not> reply_reference value then Inl (Rejected (lit ''direct_reply_control_reference_invalid''))
     else Inr (control_prefix @ value))"

definition parse_control_marker :: "pystr \<Rightarrow> pystr option" where
  "parse_control_marker value = (let text = strip value in
     case List.find (\<lambda>p. take (length p) text = p) [control_prefix, legacy_control_prefix] of
       None \<Rightarrow> None
     | Some p \<Rightarrow> (let rid = strip (drop (length p) text) in if reply_reference rid then Some rid else None))"

section \<open>Trusted turns\<close>

text \<open>The attributes that the manager reads of the runtime contract's turn; a missing one is empty.\<close>

record trusted_turn =
  tt_platform :: pystr
  tt_tenant_id :: pystr
  tt_canonical_user_id :: pystr
  tt_chat_id :: pystr
  tt_continuity_key :: pystr
  tt_message_id :: pystr
  tt_turn_id :: pystr

definition direct_channels :: "pystr list" where
  "direct_channels = [lit ''robot_poc'', lit ''wecom_callback'']"

definition turn_channel :: "trusted_turn \<Rightarrow> wr_error + pystr" where
  "turn_channel t = (let channel = lower (strip (tt_platform t)) in
     if channel \<notin> set direct_channels then Inl (Rejected (lit ''direct_reply_channel_not_trusted'')) else Inr channel)"

definition turn_partition :: "(pystr \<Rightarrow> pystr) \<Rightarrow> trusted_turn \<Rightarrow> wr_error + trusted_partition" where
  "turn_partition H t = sbind (turn_channel t) (\<lambda>channel.
     let tenant = strip (tt_tenant_id t); actor = strip (tt_canonical_user_id t); chat = strip (tt_chat_id t);
         continuity = strip (tt_continuity_key t);
         principal_kind = (if channel = lit ''robot_poc'' then lit ''device'' else lit ''actor'') in
     if tenant = [] \<or> actor = [] \<or> chat = [] then Inl (Rejected (lit ''direct_reply_trusted_turn_fields_missing''))
     else Inr \<lparr>tq_partition_id = lit ''direct_'' @ take 32 (H (us_join [tenant, actor, principal_kind, if continuity \<noteq> [] then continuity else chat, channel])),
       tq_tenant_id = tenant, tq_canonical_actor_id = actor, tq_principal_kind = principal_kind, tq_trusted_session_id = chat,
       tq_continuity_id = nonempty continuity, tq_source_identity = channel @ lit '':'' @ actor\<rparr>)"

definition turn_destination :: "trusted_turn \<Rightarrow> wr_error + reply_destination" where
  "turn_destination t = sbind (turn_channel t) (\<lambda>channel.
     let tenant = strip (tt_tenant_id t); actor = strip (tt_canonical_user_id t); chat = strip (tt_chat_id t) in
     if tenant = [] \<or> actor = [] \<or> chat = [] then Inl (Rejected (lit ''direct_reply_destination_fields_missing''))
     else Inr \<lparr>rd_tenant_id = tenant, rd_channel = channel,
       rd_recipient_id = (if channel = lit ''wecom_callback'' then actor else chat), rd_source_identity = channel @ lit '':'' @ actor,
       rd_device_id = (if channel = lit ''robot_poc'' \<and> colon \<in> set chat then fst (split_once colon chat) else [])\<rparr>)"

section \<open>The manager\<close>

record turn_row =
  tn_direct_turn_id :: pystr
  tn_agent_session_id :: pystr
  tn_agent_turn_id :: pystr
  tn_channel :: pystr
  tn_tenant_id :: pystr
  tn_actor_id :: pystr
  tn_operation_hint :: pystr
  tn_partition :: trusted_partition
  tn_destination :: reply_destination
  tn_original_text :: pystr
  tn_original_turn_id :: pystr
  tn_receipt :: "json option"
  tn_operation_id :: pystr
  tn_user_message :: pystr
  tn_reply_id :: pystr
  tn_recovery_session_id :: pystr
  tn_recovery_state :: pystr
  tn_tool_attempted :: bool
  tn_created_at :: timestamp
  tn_updated_at :: timestamp

record ticket_link =
  tl_ticket_id :: pystr
  tl_direct_turn_id :: pystr
  tl_created_at :: timestamp
  tl_updated_at :: timestamp

record manager =
  mg_turns :: "turn_row list"
  mg_links :: "ticket_link list"
  mg_outbox :: outbox

definition new_turn :: "pystr \<Rightarrow> pystr \<Rightarrow> pystr \<Rightarrow> pystr \<Rightarrow> trusted_partition \<Rightarrow> reply_destination \<Rightarrow> pystr \<Rightarrow> pystr \<Rightarrow> pystr \<Rightarrow> timestamp \<Rightarrow> turn_row" where
  "new_turn did session turn channel p d actor hint text now =
     \<lparr>tn_direct_turn_id = did, tn_agent_session_id = session, tn_agent_turn_id = turn, tn_channel = channel,
      tn_tenant_id = tq_tenant_id p, tn_actor_id = actor, tn_operation_hint = hint, tn_partition = p,
      tn_destination = d, tn_original_text = text, tn_original_turn_id = turn, tn_receipt = None, tn_operation_id = [],
      tn_user_message = [], tn_reply_id = [], tn_recovery_session_id = [], tn_recovery_state = [], tn_tool_attempted = False,
      tn_created_at = now, tn_updated_at = now\<rparr>"

definition insert_turn :: "turn_row \<Rightarrow> turn_row list \<Rightarrow> turn_row list option" where
  "insert_turn t ts = (if (tn_agent_session_id t, tn_agent_turn_id t) \<in> (\<lambda>x. (tn_agent_session_id x, tn_agent_turn_id x)) ` set ts
     then None else insert_row tn_direct_turn_id t ts)"

text \<open>The row of a turn: the stored one when it states the same scope, else a new one.\<close>

definition same_scope :: "bool \<Rightarrow> turn_row \<Rightarrow> turn_row \<Rightarrow> bool" where
  "same_scope with_hint a b \<longleftrightarrow> tn_channel a = tn_channel b \<and> tn_tenant_id a = tn_tenant_id b \<and> tn_actor_id a = tn_actor_id b
     \<and> tn_partition a = tn_partition b \<and> tn_destination a = tn_destination b \<and> tn_original_text a = tn_original_text b
     \<and> tn_original_turn_id a = tn_original_turn_id b \<and> (with_hint \<longrightarrow> tn_operation_hint a = tn_operation_hint b)"

definition capture_row :: "bool \<Rightarrow> pystr \<Rightarrow> turn_row \<Rightarrow> turn_row list \<Rightarrow> wr_error + turn_row list" where
  "capture_row with_hint conflict t ts = (case List.find (\<lambda>x. tn_direct_turn_id x = tn_direct_turn_id t) ts of
     Some x \<Rightarrow> if same_scope with_hint x t then Inr ts else Inl (Rejected conflict)
   | None \<Rightarrow> (case insert_turn t ts of None \<Rightarrow> Inl Integrity_error | Some ts' \<Rightarrow> Inr ts'))"

definition capture_direct_turn :: "(pystr \<Rightarrow> pystr) \<Rightarrow> pystr \<Rightarrow> pystr \<Rightarrow> trusted_turn \<Rightarrow> timestamp \<Rightarrow> (manager, wr_error, unit) op" where
  "capture_direct_turn H agent_session_id raw_text t now m =
     (let platform = lower (tt_platform t); session = strip agent_session_id; text = strip raw_text;
          hint = strip (tt_message_id t); turn = strip (if tt_turn_id t \<noteq> [] then tt_turn_id t else hint) in
      if platform \<notin> set direct_channels then (Inr (), m)
      else if session = [] \<or> text = [] then (Inl (Rejected (lit ''direct_reply_capture_fields_missing'')), m)
      else case sbind (turn_partition H t) (\<lambda>p. sbind (turn_destination t) (\<lambda>d. Inr (p, d))) of
        Inl e \<Rightarrow> (Inl e, m)
      | Inr (p, d) \<Rightarrow>
        if turn = [] then (Inl (Rejected (lit ''direct_reply_turn_id_missing'')), m)
        else case capture_row False (lit ''direct_reply_turn_scope_conflict'')
            (new_turn (H (us_join [session, turn])) session turn platform p d (tq_canonical_actor_id p) hint text now) (mg_turns m) of
          Inl e \<Rightarrow> (Inl e, m)
        | Inr ts \<Rightarrow> (Inr (), m\<lparr>mg_turns := ts\<rparr>))"

definition link_ticket :: "pystr \<Rightarrow> pystr \<Rightarrow> timestamp \<Rightarrow> ticket_link list \<Rightarrow> wr_error + ticket_link list" where
  "link_ticket ticket did now ls = (case List.find (\<lambda>l. tl_ticket_id l = ticket) ls of
     Some l \<Rightarrow> if tl_direct_turn_id l \<noteq> did then Inl (Rejected (lit ''agenda_reply_ticket_turn_conflict''))
       else Inr (update_where (\<lambda>x. tl_ticket_id x = ticket) (\<lambda>x. x\<lparr>tl_updated_at := now\<rparr>) ls)
   | None \<Rightarrow> if did \<in> tl_direct_turn_id ` set ls then Inl Integrity_error
       else Inr (ls @ [\<lparr>tl_ticket_id = ticket, tl_direct_turn_id = did, tl_created_at = now, tl_updated_at = now\<rparr>]))"

record agenda_capture =
  ac_ticket_id :: pystr
  ac_agent_session_id :: pystr
  ac_agent_turn_id :: pystr
  ac_tenant_id :: pystr
  ac_service_identity :: pystr
  ac_partition :: trusted_partition
  ac_destination :: reply_destination
  ac_raw_text :: pystr
  ac_operation_hint :: pystr

definition capture_agenda_turn :: "(pystr \<Rightarrow> pystr) \<Rightarrow> agenda_capture \<Rightarrow> timestamp \<Rightarrow> (manager, wr_error, unit) op" where
  "capture_agenda_turn H a now m =
     (let ticket = strip (ac_ticket_id a); session = strip (ac_agent_session_id a); turn = strip (ac_agent_turn_id a);
          tenant = strip (ac_tenant_id a); actor = strip (ac_service_identity a); text = strip (ac_raw_text a);
          operation = strip (ac_operation_hint a); p = ac_partition a; d = ac_destination a; did = H (us_join [session, turn]) in
      if [] \<in> set [ticket, session, turn, tenant, actor, text, operation] then (Inl (Rejected (lit ''agenda_reply_capture_fields_missing'')), m)
      else if actor \<noteq> lit ''service:agenda:'' @ tenant then (Inl (Rejected (lit ''agenda_reply_service_identity_invalid'')), m)
      else if tq_tenant_id p \<noteq> tenant \<or> tq_canonical_actor_id p \<noteq> actor \<or> tq_principal_kind p \<noteq> lit ''service''
        \<or> tq_source_identity p \<noteq> lit ''agenda:'' @ tenant then (Inl (Rejected (lit ''agenda_reply_partition_invalid'')), m)
      else if rd_tenant_id d \<noteq> tenant \<or> rd_channel d \<noteq> lit ''wecom_callback'' then (Inl (Rejected (lit ''agenda_reply_destination_invalid'')), m)
      else case sbind (capture_row True (lit ''agenda_reply_turn_scope_conflict'')
              (new_turn did session turn (lit ''agenda_service_work'') p d actor operation text now) (mg_turns m))
            (\<lambda>ts. sbind (link_ticket ticket did now (mg_links m)) (\<lambda>ls. Inr (ts, ls))) of
        Inl e \<Rightarrow> (Inl e, m)
      | Inr (ts, ls) \<Rightarrow> (Inr (), m\<lparr>mg_turns := ts, mg_links := ls\<rparr>))"

section \<open>Receipts\<close>

record receipt_event =
  re_session_id :: pystr
  re_turn_id :: pystr
  re_result_ok :: "bool option"
  re_result_writeback_verified :: bool
  re_execution_receipt :: "(pystr, json) dict"

definition receipt_operation :: "(json \<Rightarrow> pystr) \<Rightarrow> (pystr, json) dict \<Rightarrow> pystr" where
  "receipt_operation render r = strip (py_str render (por (dget r (lit ''operation_id'')) (por (dget r (lit ''id'')) (JStr []))))"

definition receives :: "receipt_event \<Rightarrow> pystr \<Rightarrow> turn_row \<Rightarrow> bool" where
  "receives e operation t \<longleftrightarrow> tn_agent_session_id t = re_session_id e \<and> tn_agent_turn_id t = re_turn_id e
     \<and> tn_tenant_id t \<noteq> [] \<and> tn_operation_id t \<in> {[], operation}"

definition observe_verified_receipt :: "(json \<Rightarrow> pystr) \<Rightarrow> receipt_event \<Rightarrow> timestamp \<Rightarrow> (manager, wr_error, unit) op" where
  "observe_verified_receipt render e now m =
     (let receipt = re_execution_receipt e; operation = receipt_operation render receipt in
      if re_result_ok e \<noteq> Some True \<or> \<not> re_result_writeback_verified e then (Inr (), m)
      else if text_of render (dget receipt (lit ''status'')) \<noteq> lit ''completed'' \<or> operation = [] then (Inr (), m)
      else if (\<exists>t\<in>set (mg_turns m). receives e operation t) \<and> (\<exists>t\<in>set (mg_turns m). \<not> receives e operation t \<and> tn_operation_id t = operation)
      then (Inl Integrity_error, m)
      else (Inr (), m\<lparr>mg_turns := update_where (receives e operation)
        (\<lambda>t. t\<lparr>tn_receipt := Some (sort_keys (JObj receipt)), tn_operation_id := operation, tn_updated_at := now\<rparr>) (mg_turns m)\<rparr>))"

definition row_for_turn :: "pystr \<Rightarrow> pystr \<Rightarrow> turn_row list \<Rightarrow> turn_row option" where
  "row_for_turn session turn ts = List.find (\<lambda>t. tn_agent_session_id t = session \<and> tn_agent_turn_id t = turn) ts"

definition row_for_turn_aliases :: "pystr \<Rightarrow> pystr \<Rightarrow> pystr \<Rightarrow> turn_row list \<Rightarrow> turn_row option" where
  "row_for_turn_aliases agent_session_id agent_turn_id trusted_turn_id ts =
     (let session = strip agent_session_id; aliases = filter (\<lambda>v. v \<noteq> []) [strip agent_turn_id, strip trusted_turn_id] in
      if session = [] \<or> aliases = [] then None
      else case filter (\<lambda>t. tn_agent_session_id t = session \<and> tn_agent_turn_id t \<in> set aliases) ts of [t] \<Rightarrow> Some t | _ \<Rightarrow> None)"

definition turn_fact :: "(json \<Rightarrow> pystr) \<Rightarrow> (pystr \<Rightarrow> pystr) \<Rightarrow> turn_row \<Rightarrow> verified_business_fact option" where
  "turn_fact render H t = (case tn_receipt t of
     Some (JObj receipt) \<Rightarrow>
       if tn_operation_id t = [] \<or> text_of render (dget receipt (lit ''status'')) \<noteq> lit ''completed'' then None
       else Some \<lparr>bf_operation_id = tn_operation_id t, bf_tenant_id = tn_tenant_id t, bf_receipt = receipt, bf_writeback_verified = True,
         bf_original_request_ref = lit ''direct-reply:'' @ take 24 (H (tn_direct_turn_id t)), bf_original_turn_id = tn_original_turn_id t\<rparr>
   | _ \<Rightarrow> None)"

section \<open>Staging replies\<close>

definition set_reply_id :: "pystr \<Rightarrow> pystr \<Rightarrow> timestamp \<Rightarrow> turn_row list \<Rightarrow> turn_row list" where
  "set_reply_id did rid now ts = update_where (\<lambda>t. tn_direct_turn_id t = did) (\<lambda>t. t\<lparr>tn_reply_id := rid, tn_updated_at := now\<rparr>) ts"

text \<open>The result of an outbox call for the turn \<open>t\<close>; a returned job is noted in the turn's row.\<close>

definition staged :: "turn_row \<Rightarrow> timestamp \<Rightarrow> manager \<Rightarrow> (wr_error + reply_job option) \<times> outbox \<Rightarrow> (wr_error + reply_job option) \<times> manager" where
  "staged t now m r = (case r of
     (Inr (Some j), ob) \<Rightarrow> (Inr (Some j), m\<lparr>mg_outbox := ob, mg_turns := set_reply_id (tn_direct_turn_id t) (jb_reply_id j) now (mg_turns m)\<rparr>)
   | (x, ob) \<Rightarrow> (x, m\<lparr>mg_outbox := ob\<rparr>))"

definition observation_for :: "turn_row \<Rightarrow> pystr \<Rightarrow> pystr \<Rightarrow> bool option \<Rightarrow> pystr \<Rightarrow> pystr \<Rightarrow> bool \<Rightarrow> terminal_observation" where
  "observation_for t attempt state succeeded trace text hold =
     \<lparr>to_partition = tn_partition t, to_destination = tn_destination t, to_agent_attempt_id = attempt, to_terminal_state = state,
      to_provider_succeeded = succeeded, to_raw_trace_ref = trace, to_final_reply_text = text, to_delivery_hold = hold\<rparr>"

definition or_else :: "pystr \<Rightarrow> pystr \<Rightarrow> pystr" where
  "or_else a b = (if a = [] then b else a)"

record staged_terminal =
  sg_terminal_state :: pystr
  sg_provider_succeeded :: "bool option"
  sg_final_reply_text :: pystr
  sg_raw_trace_ref :: pystr

definition stage_terminal :: "(json \<Rightarrow> pystr) \<Rightarrow> (pystr \<Rightarrow> pystr) \<Rightarrow> pystr \<Rightarrow> pystr \<Rightarrow> staged_terminal \<Rightarrow> timestamp \<Rightarrow> (manager, wr_error, reply_job option) op" where
  "stage_terminal render H session turn s now m =
     (if session = [] \<or> turn = [] then (Inr None, m)
      else case row_for_turn session turn (mg_turns m) of None \<Rightarrow> (Inr None, m)
      | Some t \<Rightarrow> (case turn_fact render H t of None \<Rightarrow> (Inr None, m)
        | Some bf \<Rightarrow> (let attempt = lit ''direct-terminal:'' @ tn_direct_turn_id t in
            staged t now m (observe_agent_terminal render H
              (observation_for t attempt (sg_terminal_state s) (sg_provider_succeeded s) (or_else (sg_raw_trace_ref s) attempt) (sg_final_reply_text s) True)
              (Some bf) now (mg_outbox m)))))"

text \<open>\<open>json.loads(result)\<close> of a text, \<open>dict(result or {})\<close> of a value.\<close>

definition tool_result :: "(pystr \<Rightarrow> json option) \<Rightarrow> json \<Rightarrow> (pystr, json) dict option" where
  "tool_result loads v = (case (case v of JStr s \<Rightarrow> loads s | JObj kvs \<Rightarrow> Some (JObj kvs) | _ \<Rightarrow> if truthy v then None else Some (JObj [])) of
     Some (JObj kvs) \<Rightarrow> Some kvs | _ \<Rightarrow> None)"

definition artifact_of :: "(json \<Rightarrow> pystr) \<Rightarrow> (pystr, json) dict \<Rightarrow> wr_error + pystr option" where
  "artifact_of render parsed =
     (let data = as_dict (dget parsed (lit ''data'')); artifact = as_dict (dget data (lit ''delivery_artifact''));
          text = strip (text_of render (dget artifact (lit ''text''))) in
      if dget parsed (lit ''ok'') \<noteq> JBool True \<or> text_of render (dget artifact (lit ''version'')) \<noteq> lit ''xiaoyou.delivery-artifact.v1''
        \<or> text_of render (dget artifact (lit ''kind'')) \<noteq> lit ''reply_text'' then Inr None
      else if text = [] \<or> text \<noteq> strip (text_of render (dget data (lit ''rendered_text'')))
      then Inl (Rejected (lit ''tool_delivery_artifact_text_mismatch'')) else Inr (Some text))"

definition artifact_operation :: "(pystr \<Rightarrow> pystr) \<Rightarrow> turn_row \<Rightarrow> pystr \<Rightarrow> pystr \<Rightarrow> pystr" where
  "artifact_operation H t name text = lit ''tool-delivery-artifact:'' @ tn_direct_turn_id t @ lit '':'' @ name @ lit '':'' @ take 32 (H text)"

definition stage_tool_delivery_artifact :: "(json \<Rightarrow> pystr) \<Rightarrow> (pystr \<Rightarrow> pystr) \<Rightarrow> (pystr \<Rightarrow> json option) \<Rightarrow> pystr \<Rightarrow> pystr \<Rightarrow> pystr \<Rightarrow> pystr \<Rightarrow> json
    \<Rightarrow> timestamp \<Rightarrow> (manager, wr_error, reply_job option) op" where
  "stage_tool_delivery_artifact render H loads agent_session_id agent_turn_id trusted_turn_id tool_name result now m =
     (let session = strip agent_session_id; turn = strip agent_turn_id; trusted = strip trusted_turn_id; name = strip tool_name in
      if session = [] \<or> (turn = [] \<and> trusted = []) \<or> name = [] then (Inr None, m)
      else case row_for_turn_aliases session turn trusted (mg_turns m) of None \<Rightarrow> (Inr None, m)
      | Some t \<Rightarrow> (case tool_result loads result of None \<Rightarrow> (Inr None, m)
        | Some parsed \<Rightarrow> (case artifact_of render parsed of
            Inl e \<Rightarrow> (Inl e, m) | Inr None \<Rightarrow> (Inr None, m)
          | Inr (Some text) \<Rightarrow> staged t now m (observe_agent_notice H (artifact_operation H t name text)
              (observation_for t (lit ''direct-tool-artifact:'' @ tn_direct_turn_id t @ lit '':'' @ name) (lit ''completed'') (Some True)
                (lit ''public-post-tool-artifact:'' @ session @ lit '':'' @ name) text True) now (mg_outbox m)))))"

definition tool_delivery_artifact_handoff :: "pystr \<Rightarrow> pystr \<Rightarrow> pystr \<Rightarrow> manager \<Rightarrow> reply_job option" where
  "tool_delivery_artifact_handoff session turn trusted m = (case row_for_turn_aliases session turn trusted (mg_turns m) of
     None \<Rightarrow> None
   | Some t \<Rightarrow> (case get_by_reply_id (tn_reply_id t) (mg_outbox m) of None \<Rightarrow> None
     | Some j \<Rightarrow> if jb_delivery_hold j \<and> prefix (lit ''tool-delivery-artifact:'') (jb_operation_id j) then Some j else None))"

definition prepare_agenda_user_message :: "pystr \<Rightarrow> pystr \<Rightarrow> pystr \<Rightarrow> pystr \<Rightarrow> timestamp \<Rightarrow> (manager, wr_error, pystr) op" where
  "prepare_agenda_user_message agent_session_id agent_turn_id trusted_turn_id text now m =
     (let session = strip agent_session_id; turn = strip agent_turn_id; trusted = strip trusted_turn_id; message = strip text in
      if session = [] \<or> (turn = [] \<and> trusted = []) then (Inl (Rejected (lit ''agenda_user_message_turn_missing'')), m)
      else if message = [] then (Inl (Rejected (lit ''agenda_user_message_empty'')), m)
      else case row_for_turn_aliases session turn trusted (mg_turns m) of
        None \<Rightarrow> (Inl (Rejected (lit ''agenda_user_message_untrusted_turn'')), m)
      | Some t \<Rightarrow>
        if tn_channel t \<noteq> lit ''agenda_service_work'' then (Inl (Rejected (lit ''agenda_user_message_untrusted_turn'')), m)
        else let existing = strip (tn_user_message t) in
          if existing \<noteq> [] \<and> existing \<noteq> message then (Inl (Rejected (lit ''agenda_user_message_already_prepared'')), m)
          else if existing \<noteq> [] then (Inr message, m)
          else let mine = (\<lambda>x. tn_direct_turn_id x = tn_direct_turn_id t \<and> tn_user_message x = []) in
            if rowcount mine (mg_turns m) \<noteq> 1 then (Inl (Rejected (lit ''agenda_user_message_write_conflict'')), m)
            else (Inr message, m\<lparr>mg_turns := update_where mine (\<lambda>x. x\<lparr>tn_user_message := message, tn_updated_at := now\<rparr>) (mg_turns m)\<rparr>))"

text \<open>Notices that are not bound to a turn.\<close>

definition service_notice :: "trusted_partition \<Rightarrow> reply_destination \<Rightarrow> pystr \<Rightarrow> pystr \<Rightarrow> pystr \<Rightarrow> terminal_observation" where
  "service_notice p d attempt trace text =
     \<lparr>to_partition = p, to_destination = d, to_agent_attempt_id = attempt, to_terminal_state = lit ''completed'', to_provider_succeeded = None,
      to_raw_trace_ref = trace, to_final_reply_text = text, to_delivery_hold = False\<rparr>"

definition service_destination :: "pystr \<Rightarrow> pystr \<Rightarrow> pystr \<Rightarrow> reply_destination" where
  "service_destination tenant recipient source =
     \<lparr>rd_tenant_id = tenant, rd_channel = lit ''wecom_callback'', rd_recipient_id = recipient, rd_source_identity = source, rd_device_id = []\<rparr>"

definition on_outbox :: "manager \<Rightarrow> ('e + 'a) \<times> outbox \<Rightarrow> ('e + 'a) \<times> manager" where
  "on_outbox m r = (fst r, m\<lparr>mg_outbox := snd r\<rparr>)"

record human_notice =
  hn_tenant_id :: pystr
  hn_actor_id :: pystr
  hn_actor_role :: pystr
  hn_recipient_id :: pystr
  hn_notice_id :: pystr
  hn_notice_text :: pystr
  hn_trace_ref :: pystr

definition stage_human_command_notice :: "(pystr \<Rightarrow> pystr) \<Rightarrow> human_notice \<Rightarrow> timestamp \<Rightarrow> (manager, wr_error, reply_job) op" where
  "stage_human_command_notice H n now m =
     (let tenant = strip (hn_tenant_id n); actor = strip (hn_actor_id n); role = lower (strip (hn_actor_role n));
          recipient = strip (hn_recipient_id n); key = strip (hn_notice_id n); text = strip (hn_notice_text n); trace = strip (hn_trace_ref n);
          source = human_prefix tenant @ actor; material = us_join [tenant, actor, recipient, key];
          p = \<lparr>tq_partition_id = lit ''human_command_'' @ take 32 (H material), tq_tenant_id = tenant, tq_canonical_actor_id = actor,
            tq_principal_kind = lit ''human'', tq_trusted_session_id = lit ''human_command:'' @ key, tq_continuity_id = None, tq_source_identity = source\<rparr> in
      if role \<notin> {lit ''boss'', lit ''manager''} then (Inl (Rejected (lit ''human_command_sender_role_denied'')), m)
      else if [] \<in> set [tenant, actor, recipient, key, text, trace]
      then (Inl (Rejected (lit ''human_command_notice_required_fields_missing'')), m)
      else case observe_agent_notice H (lit ''human-command-notice:'' @ tenant @ lit '':'' @ key)
          (service_notice p (service_destination tenant recipient source) (lit ''human-command:'' @ take 32 (H material)) trace text) now (mg_outbox m) of
        (Inl e, ob) \<Rightarrow> (Inl e, m\<lparr>mg_outbox := ob\<rparr>)
      | (Inr None, ob) \<Rightarrow> (Inl (Rejected (lit ''human_command_notice_not_staged'')), m\<lparr>mg_outbox := ob\<rparr>)
      | (Inr (Some j), ob) \<Rightarrow> (Inr j, m\<lparr>mg_outbox := ob\<rparr>))"

record proactive_notice =
  pn_tenant_id :: pystr
  pn_recipient_id :: pystr
  pn_source_kind :: pystr
  pn_notice_id :: pystr
  pn_notice_text :: pystr
  pn_trace_ref :: pystr

definition proactive_notice_kinds :: "pystr list" where
  "proactive_notice_kinds = [lit ''task_delivery'', lit ''relationship_touch'']"

definition stage_proactive_notice :: "(pystr \<Rightarrow> pystr) \<Rightarrow> proactive_notice \<Rightarrow> timestamp \<Rightarrow> (manager, wr_error, reply_job option) op" where
  "stage_proactive_notice H n now m =
     (let tenant = strip (pn_tenant_id n); recipient = strip (pn_recipient_id n); kind = strip (pn_source_kind n);
          key = strip (pn_notice_id n); text = strip (pn_notice_text n); source = kind @ lit '':'' @ tenant;
          material = us_join [tenant, kind, recipient, key];
          p = \<lparr>tq_partition_id = lit ''proactive_'' @ take 32 (H material), tq_tenant_id = tenant,
            tq_canonical_actor_id = lit ''service:'' @ kind @ lit '':'' @ tenant, tq_principal_kind = lit ''service'',
            tq_trusted_session_id = kind @ lit '':'' @ key, tq_continuity_id = None, tq_source_identity = source\<rparr> in
      if kind \<notin> set proactive_notice_kinds then (Inl (Rejected (lit ''proactive_notice_source_kind_denied'')), m)
      else if [] \<in> set [tenant, recipient, key, text, strip (pn_trace_ref n)]
      then (Inl (Rejected (lit ''proactive_notice_required_fields_missing'')), m)
      else on_outbox m (observe_agent_notice H (lit ''proactive-notice:'' @ kind @ lit '':'' @ tenant @ lit '':'' @ key)
          (service_notice p (service_destination tenant recipient source) (lit ''proactive-notice:'' @ take 32 (H material)) (pn_trace_ref n) text)
          now (mg_outbox m)))"

text \<open>\<open>stage_agenda_ticket_terminal\<close>: the raw terminal text of the service turn is not an argument of any outbox call.\<close>

definition row_for_ticket :: "pystr \<Rightarrow> manager \<Rightarrow> turn_row option" where
  "row_for_ticket ticket m = (case List.find (\<lambda>l. tl_ticket_id l = ticket) (mg_links m) of None \<Rightarrow> None
     | Some l \<Rightarrow> List.find (\<lambda>t. tn_direct_turn_id t = tl_direct_turn_id l) (mg_turns m))"

definition release_held :: "timestamp \<Rightarrow> (wr_error + reply_job option) \<times> outbox \<Rightarrow> (wr_error + reply_job option) \<times> outbox" where
  "release_held now r = (case r of
     (Inr (Some j), ob) \<Rightarrow>
       (if jb_delivery_hold j
        then (case release_delivery_hold (jb_reply_id j) (jb_operation_id j) (jb_destination j) now ob of
          (Inl e, ob') \<Rightarrow> (Inl e, ob') | (Inr j', ob') \<Rightarrow> (Inr (Some j'), ob'))
        else (Inr (Some j), ob))
   | other \<Rightarrow> other)"

definition stage_agenda_ticket_terminal :: "(json \<Rightarrow> pystr) \<Rightarrow> (pystr \<Rightarrow> pystr) \<Rightarrow> pystr \<Rightarrow> staged_terminal \<Rightarrow> timestamp \<Rightarrow> (manager, wr_error, reply_job option) op" where
  "stage_agenda_ticket_terminal render H ticket_id s now m =
     (let ticket = strip ticket_id in
      if ticket = [] then (Inr None, m)
      else case row_for_ticket ticket m of None \<Rightarrow> (Inr None, m)
      | Some t \<Rightarrow>
        (let attempt = lit ''agenda-terminal:'' @ tn_direct_turn_id t; message = strip (tn_user_message t);
             seen = observation_for t attempt (sg_terminal_state s) (sg_provider_succeeded s) (or_else (sg_raw_trace_ref s) attempt) message
         in case turn_fact render H t of
           Some bf \<Rightarrow> staged t now m (release_held now (observe_agent_terminal render H (seen True) (Some bf) now (mg_outbox m)))
         | None \<Rightarrow> if message \<noteq> [] then staged t now m (observe_agent_notice H (lit ''agenda-notice:'' @ ticket) (seen False) now (mg_outbox m))
             else (Inr None, m)))"

section \<open>Handoff\<close>

text \<open>A job that is not held any more is returned as it is; a held one is released.\<close>

definition release_job :: "reply_job \<Rightarrow> timestamp \<Rightarrow> (manager, wr_error, reply_job) op" where
  "release_job j now m = (if \<not> jb_delivery_hold j then (Inr j, m)
     else on_outbox m (release_delivery_hold (jb_reply_id j) (jb_operation_id j) (jb_destination j) now (mg_outbox m)))"

definition addressed :: "reply_job \<Rightarrow> pystr \<Rightarrow> pystr \<Rightarrow> bool" where
  "addressed j channel chat_id \<longleftrightarrow> rd_channel (jb_destination j) = channel \<and> rd_recipient_id (jb_destination j) = chat_id"

definition release_handoff :: "pystr \<Rightarrow> pystr \<Rightarrow> pystr \<Rightarrow> timestamp \<Rightarrow> (manager, wr_error, reply_job) op" where
  "release_handoff rid channel chat_id now m = (case get_by_reply_id rid (mg_outbox m) of
     Some j \<Rightarrow> if addressed j channel chat_id then release_job j now m else (Inl (Rejected (lit ''direct_reply_handoff_mismatch'')), m)
   | None \<Rightarrow> (Inl (Rejected (lit ''direct_reply_handoff_mismatch'')), m))"

definition release_wecom_callback_handoff :: "pystr \<Rightarrow> timestamp \<Rightarrow> (manager, wr_error, reply_job) op" where
  "release_wecom_callback_handoff rid now m = (case get_by_reply_id rid (mg_outbox m) of
     None \<Rightarrow> (Inl (Rejected (lit ''direct_reply_handoff_unknown'')), m)
   | Some j \<Rightarrow>
     (let d = jb_destination j in
      if rd_channel d \<noteq> lit ''wecom_callback'' \<or> rd_recipient_id d = [] \<or> \<not> prefix (lit ''wecom_callback:'') (rd_source_identity d)
      then (Inl (Rejected (lit ''direct_reply_wecom_handoff_mismatch'')), m) else release_job j now m))"

definition release_pending_operation :: "pystr \<Rightarrow> pystr \<Rightarrow> pystr \<Rightarrow> timestamp \<Rightarrow> (manager, wr_error, reply_job option) op" where
  "release_pending_operation operation channel chat_id now m = (case get_job operation (mg_outbox m) of
     None \<Rightarrow> (Inr None, m)
   | Some j \<Rightarrow>
     if \<not> addressed j channel chat_id then (Inr None, m)
     else if \<not> jb_delivery_hold j then (Inr (Some j), m)
     else (case release_handoff (jb_reply_id j) channel chat_id now m of (Inl e, m') \<Rightarrow> (Inl e, m') | (Inr j', m') \<Rightarrow> (Inr (Some j'), m')))"

definition release_robot_handoff :: "pystr \<Rightarrow> pystr \<Rightarrow> pystr \<Rightarrow> timestamp \<Rightarrow> (manager, wr_error, reply_job) op" where
  "release_robot_handoff rid operation chat_id now m = (case get_by_reply_id rid (mg_outbox m) of
     Some j \<Rightarrow> if jb_operation_id j = operation then release_handoff rid (lit ''robot_poc'') chat_id now m
       else (Inl (Rejected (lit ''direct_reply_robot_handoff_mismatch'')), m)
   | None \<Rightarrow> (Inl (Rejected (lit ''direct_reply_robot_handoff_mismatch'')), m))"

section \<open>Reply-only recovery\<close>

definition failed_terminal :: hermes_terminal where
  "failed_terminal = \<lparr>ht_terminal_state = lit ''failed'', ht_reply_text = [], ht_selected_tools = []\<rparr>"

definition recovery_session :: "pystr \<Rightarrow> pystr" where
  "recovery_session rid = lit ''reply-recovery:'' @ rid"

text \<open>
  \<open>claim_recovery\<close>: the leased job, the recovery session, and what its prompt is rendered from. The
  session is unique as long as the reply id is, which the unique index checks.
\<close>

definition claim_recovery :: "rat \<Rightarrow> pystr \<Rightarrow> timestamp \<Rightarrow> timestamp \<Rightarrow> (manager, wr_error, (reply_job \<times> pystr \<times> reply_recovery \<times> pystr) option) op" where
  "claim_recovery L w now later m = (case claim_generation L w now (mg_outbox m) of
     (Inl e, ob) \<Rightarrow> (Inl e, m\<lparr>mg_outbox := ob\<rparr>)
   | (Inr None, ob) \<Rightarrow> (Inr None, m\<lparr>mg_outbox := ob\<rparr>)
   | (Inr (Some j), ob) \<Rightarrow> (case List.find (\<lambda>t. tn_reply_id t = jb_reply_id j) (mg_turns m) of
       None \<Rightarrow> (case complete_generation j w failed_terminal later ob of
           (Inl e, ob') \<Rightarrow> (Inl e, m\<lparr>mg_outbox := ob'\<rparr>) | (Inr _, ob') \<Rightarrow> (Inr None, m\<lparr>mg_outbox := ob'\<rparr>))
     | Some t \<Rightarrow> (case reply_recovery_request j ob of
           Inl e \<Rightarrow> (Inl e, m\<lparr>mg_outbox := ob\<rparr>)
         | Inr request \<Rightarrow>
           (let session = recovery_session (jb_reply_id j); mine = (\<lambda>x. tn_reply_id x = jb_reply_id j) in
            if rowcount mine (mg_turns m) \<noteq> 1 \<or> (\<exists>x\<in>set (mg_turns m). \<not> mine x \<and> tn_recovery_session_id x = session)
            then (Inl Integrity_error, m\<lparr>mg_outbox := ob\<rparr>)
            else (Inr (Some (j, session, request, tn_original_text t)),
              m\<lparr>mg_outbox := ob, mg_turns := update_where mine (\<lambda>x. x\<lparr>tn_recovery_session_id := session, tn_recovery_state := lit ''leased'',
                tn_tool_attempted := False, tn_updated_at := later\<rparr>) (mg_turns m)\<rparr>)))))"

definition recovery_sender :: pystr where
  "recovery_sender = lit ''reply-recovery-service''"

definition row_for_recovery :: "pystr \<Rightarrow> turn_row list \<Rightarrow> turn_row option" where
  "row_for_recovery session ts = List.find (\<lambda>t. tn_recovery_session_id t = session) ts"

definition recovery_prompt :: "pystr \<Rightarrow> pystr \<Rightarrow> manager \<Rightarrow> wr_error + (reply_recovery \<times> pystr) option" where
  "recovery_prompt session sender m =
     (if sender \<noteq> recovery_sender then Inr None
      else case List.find (\<lambda>t. tn_recovery_session_id t = session \<and> tn_recovery_state t = lit ''leased'') (mg_turns m) of
        None \<Rightarrow> Inr None
      | Some t \<Rightarrow> (case get_by_reply_id (tn_reply_id t) (mg_outbox m) of None \<Rightarrow> Inr None
        | Some j \<Rightarrow> sbind (reply_recovery_request j (mg_outbox m)) (\<lambda>r. Inr (Some (r, tn_original_text t)))))"

definition is_recovery_session :: "pystr \<Rightarrow> manager \<Rightarrow> bool" where
  "is_recovery_session session m \<longleftrightarrow> (\<exists>t\<in>set (mg_turns m). tn_recovery_session_id t = session \<and> tn_recovery_state t = lit ''leased'')"

definition note_tool_attempt :: "pystr \<Rightarrow> timestamp \<Rightarrow> manager \<Rightarrow> manager" where
  "note_tool_attempt session now m = m\<lparr>mg_turns := update_where (\<lambda>t. tn_recovery_session_id t = session)
     (\<lambda>t. t\<lparr>tn_tool_attempted := True, tn_updated_at := now\<rparr>) (mg_turns m)\<rparr>"

definition set_recovery_state :: "pystr \<Rightarrow> string \<Rightarrow> timestamp \<Rightarrow> manager \<Rightarrow> manager" where
  "set_recovery_state session state now m = m\<lparr>mg_turns := update_where (\<lambda>t. tn_recovery_session_id t = session)
     (\<lambda>t. t\<lparr>tn_recovery_state := lit state, tn_updated_at := now\<rparr>) (mg_turns m)\<rparr>"

definition finish_recovery :: "pystr \<Rightarrow> pystr \<Rightarrow> pystr \<Rightarrow> timestamp \<Rightarrow> timestamp \<Rightarrow> (manager, wr_error, reply_job) op" where
  "finish_recovery session text w now later m = (case row_for_recovery session (mg_turns m) of
     None \<Rightarrow> (Inl (Rejected (lit ''reply_recovery_session_unknown'')), m)
   | Some t \<Rightarrow> (case get_by_reply_id (tn_reply_id t) (mg_outbox m) of
       None \<Rightarrow> (Inl (Rejected (lit ''reply_recovery_job_unknown'')), m)
     | Some j \<Rightarrow> (case complete_generation j w
           \<lparr>ht_terminal_state = lit ''completed'', ht_reply_text = text,
            ht_selected_tools = (if tn_tool_attempted t then [lit ''blocked_tool_attempt''] else [])\<rparr> now (mg_outbox m) of
         (Inl e, ob) \<Rightarrow> (Inl e, m\<lparr>mg_outbox := ob\<rparr>)
       | (Inr completed, ob) \<Rightarrow> (Inr completed, set_recovery_state session ''generated'' later (m\<lparr>mg_outbox := ob\<rparr>)))))"

definition fail_recovery :: "pystr \<Rightarrow> pystr \<Rightarrow> timestamp \<Rightarrow> timestamp \<Rightarrow> (manager, wr_error, unit) op" where
  "fail_recovery session w now later m = (case row_for_recovery session (mg_turns m) of
     None \<Rightarrow> (Inr (), m)
   | Some t \<Rightarrow> (case get_by_reply_id (tn_reply_id t) (mg_outbox m) of
       None \<Rightarrow> (Inr (), set_recovery_state session ''generation_failed'' later m)
     | Some j \<Rightarrow> (case complete_generation j w failed_terminal now (mg_outbox m) of
         (Inl e, ob) \<Rightarrow> (Inl e, m\<lparr>mg_outbox := ob\<rparr>)
       | (Inr _, ob) \<Rightarrow> (Inr (), set_recovery_state session ''generation_failed'' later (m\<lparr>mg_outbox := ob\<rparr>)))))"

section \<open>Delivery\<close>

text \<open>\<open>register_delivery_port\<close>: the port table, and the parked replies of the channel made ready.\<close>

definition register_delivery_port :: "'x reply_port \<Rightarrow> timestamp \<Rightarrow> (manager \<times> (pystr, 'x reply_port) dict, wr_error, nat) op" where
  "register_delivery_port port now s = (case s of (m, ports) \<Rightarrow>
     (let channel = po_channel port in
      if channel \<notin> set direct_channels then (Inl (Rejected (lit ''direct_reply_channel_not_supported'')), s)
      else case requeue_blocked_channel channel now (mg_outbox m) of
        (r, ob) \<Rightarrow> (r, (m\<lparr>mg_outbox := ob\<rparr>, AList.update channel port ports))))"

definition manager_deliver_next :: "rat \<Rightarrow> (pystr, 'x reply_port) dict \<Rightarrow> pystr \<Rightarrow> timestamp \<Rightarrow> 'x \<Rightarrow> (outbox \<Rightarrow> outbox)
    \<Rightarrow> (manager, py_exn, channel_result option) op" where
  "manager_deliver_next L ports w now x others m = (case dispatcher ports of
     Inl e \<Rightarrow> (Inl e, m) | Inr table \<Rightarrow> on_outbox m (deliver_next L table w now x others (mg_outbox m)))"

definition verify_delivery :: "pystr \<Rightarrow> pystr \<Rightarrow> pystr \<Rightarrow> pystr \<Rightarrow> manager \<Rightarrow> wr_error + reply_job" where
  "verify_delivery did channel chat_id text m = (case get_by_delivery_id did (mg_outbox m) of
     None \<Rightarrow> Inl (Rejected (lit ''reply_delivery_destination_mismatch''))
   | Some j \<Rightarrow>
     if \<not> addressed j channel chat_id then Inl (Rejected (lit ''reply_delivery_destination_mismatch''))
     else if jb_generation_state j \<noteq> Generated \<or> blank (jb_reply_text j) \<or> jb_reply_text j \<noteq> text
     then Inl (Rejected (lit ''reply_delivery_truth_mismatch'')) else Inr j)"

section \<open>The manager as a machine\<close>

datatype bridge_cmd =
    Capture_turn pystr pystr trusted_turn timestamp
  | Capture_agenda agenda_capture timestamp
  | Receipt receipt_event timestamp
  | Stage_terminal pystr pystr staged_terminal timestamp
  | Stage_artifact pystr pystr pystr pystr json timestamp
  | Prepare_message pystr pystr pystr pystr timestamp
  | Human_notice human_notice timestamp
  | Proactive_notice proactive_notice timestamp
  | Ticket_terminal pystr staged_terminal timestamp
  | Handoff pystr pystr pystr timestamp
  | Wecom_handoff pystr timestamp
  | Pending_handoff pystr pystr pystr timestamp
  | Robot_handoff pystr pystr pystr timestamp
  | Claim_recovery pystr timestamp timestamp
  | Note_tool pystr timestamp
  | Finish_recovery pystr pystr pystr timestamp timestamp
  | Fail_recovery pystr pystr timestamp timestamp
  | Outbox_cmd outbox_cmd

fun bridge_step :: "outbox_env \<Rightarrow> (pystr \<Rightarrow> json option) \<Rightarrow> bridge_cmd \<Rightarrow> manager \<Rightarrow> manager" where
  "bridge_step E loads (Capture_turn s x t now) m = snd (capture_direct_turn (oe_sha E) s x t now m)"
| "bridge_step E loads (Capture_agenda a now) m = snd (capture_agenda_turn (oe_sha E) a now m)"
| "bridge_step E loads (Receipt e now) m = snd (observe_verified_receipt (oe_render E) e now m)"
| "bridge_step E loads (Stage_terminal s t x now) m = snd (stage_terminal (oe_render E) (oe_sha E) s t x now m)"
| "bridge_step E loads (Stage_artifact s t u n r now) m = snd (stage_tool_delivery_artifact (oe_render E) (oe_sha E) loads s t u n r now m)"
| "bridge_step E loads (Prepare_message s t u x now) m = snd (prepare_agenda_user_message s t u x now m)"
| "bridge_step E loads (Human_notice n now) m = snd (stage_human_command_notice (oe_sha E) n now m)"
| "bridge_step E loads (Proactive_notice n now) m = snd (stage_proactive_notice (oe_sha E) n now m)"
| "bridge_step E loads (Ticket_terminal k x now) m = snd (stage_agenda_ticket_terminal (oe_render E) (oe_sha E) k x now m)"
| "bridge_step E loads (Handoff r c k now) m = snd (release_handoff r c k now m)"
| "bridge_step E loads (Wecom_handoff r now) m = snd (release_wecom_callback_handoff r now m)"
| "bridge_step E loads (Pending_handoff op' c k now) m = snd (release_pending_operation op' c k now m)"
| "bridge_step E loads (Robot_handoff r op' k now) m = snd (release_robot_handoff r op' k now m)"
| "bridge_step E loads (Claim_recovery w now later) m = snd (claim_recovery (oe_lease E) w now later m)"
| "bridge_step E loads (Note_tool s now) m = note_tool_attempt s now m"
| "bridge_step E loads (Finish_recovery s x w now later) m = snd (finish_recovery s x w now later m)"
| "bridge_step E loads (Fail_recovery s w now later) m = snd (fail_recovery s w now later m)"
| "bridge_step E loads (Outbox_cmd c) m = m\<lparr>mg_outbox := outbox_step E c (mg_outbox m)\<rparr>"

definition new_manager :: manager where
  "new_manager = \<lparr>mg_turns = [], mg_links = [], mg_outbox = new_outbox\<rparr>"

text \<open>What the columns of a turn that state its scope are, and how a turn may evolve.\<close>

definition turn_scope :: "turn_row \<Rightarrow> pystr \<times> pystr \<times> pystr \<times> pystr \<times> pystr \<times> pystr \<times> trusted_partition \<times> reply_destination \<times> pystr \<times> pystr" where
  "turn_scope t = (tn_direct_turn_id t, tn_agent_session_id t, tn_agent_turn_id t, tn_channel t, tn_tenant_id t, tn_actor_id t,
     tn_partition t, tn_destination t, tn_original_text t, tn_original_turn_id t)"

definition turn_le :: "turn_row \<Rightarrow> turn_row \<Rightarrow> bool" where
  "turn_le t t' \<longleftrightarrow> turn_scope t' = turn_scope t \<and> (tn_operation_id t \<noteq> [] \<longrightarrow> tn_operation_id t' = tn_operation_id t)
     \<and> (tn_user_message t \<noteq> [] \<longrightarrow> tn_user_message t' = tn_user_message t)"

lemma turn_le_refl [simp]: "turn_le t t"
  by (simp add: turn_le_def)

lemma turn_le_trans: "turn_le a b \<Longrightarrow> turn_le b c \<Longrightarrow> turn_le a c"
  by (auto simp: turn_le_def)

definition job_for :: "outbox \<Rightarrow> pystr \<Rightarrow> reply_destination \<Rightarrow> bool" where
  "job_for ob rid d \<longleftrightarrow> (\<exists>r\<in>set (ob_jobs ob). rj_reply_id r = rid \<and> rj_destination r = d)"

text \<open>
  An edit of a turn's row keeps its reply, and only a claim of a recovery starts a new session or
  takes a noted tool attempt back.
\<close>

definition turn_edit :: "bool \<Rightarrow> turn_row \<Rightarrow> turn_row \<Rightarrow> bool" where
  "turn_edit claim t t' \<longleftrightarrow> turn_le t t' \<and> tn_reply_id t' = tn_reply_id t
     \<and> (claim \<or> tn_recovery_session_id t' = tn_recovery_session_id t \<and> (tn_tool_attempted t \<longrightarrow> tn_tool_attempted t'))"

text \<open>The elementary changes that every operation of the manager is made of.\<close>

inductive micro :: "outbox_env \<Rightarrow> bool \<Rightarrow> manager \<Rightarrow> manager \<Rightarrow> bool" for E b where
  micro_outbox: "micro E b m (m\<lparr>mg_outbox := outbox_step E c (mg_outbox m)\<rparr>)"
| micro_turn: "insert_turn t (mg_turns m) = Some ts \<Longrightarrow> tn_reply_id t = [] \<Longrightarrow> tn_recovery_session_id t = [] \<Longrightarrow> micro E b m (m\<lparr>mg_turns := ts\<rparr>)"
| micro_edit: "(\<And>t. t \<in> set (mg_turns m) \<Longrightarrow> P t \<Longrightarrow> turn_edit b t (f t)) \<Longrightarrow>
    micro E b m (m\<lparr>mg_turns := update_where P f (mg_turns m)\<rparr>)"
| micro_reply: "t \<in> set (mg_turns m) \<Longrightarrow> job_for (mg_outbox m) rid (tn_destination t) \<Longrightarrow>
    micro E b m (m\<lparr>mg_turns := set_reply_id (tn_direct_turn_id t) rid now (mg_turns m)\<rparr>)"
| micro_links: "micro E b m (m\<lparr>mg_links := ls\<rparr>)"

abbreviation micros :: "outbox_env \<Rightarrow> bool \<Rightarrow> manager \<Rightarrow> manager \<Rightarrow> bool" where
  "micros E b \<equiv> (micro E b)\<^sup>*\<^sup>*"

definition bridge_inv :: "manager \<Rightarrow> bool" where
  "bridge_inv m \<longleftrightarrow> outbox_inv (mg_outbox m) \<and> unique_key tn_direct_turn_id (mg_turns m)
     \<and> unique_key (\<lambda>t. (tn_agent_session_id t, tn_agent_turn_id t)) (mg_turns m)
     \<and> (\<forall>t\<in>set (mg_turns m). tn_reply_id t \<noteq> [] \<longrightarrow> job_for (mg_outbox m) (tn_reply_id t) (tn_destination t))"

lemma job_for_step:
  assumes "outbox_inv ob" "job_for ob rid d"
  shows "job_for (outbox_step E c ob) rid d"
proof -
  obtain r where r: "r \<in> set (ob_jobs ob)" "rj_reply_id r = rid" "rj_destination r = d" using assms(2) by (auto simp: job_for_def)
  have "moves (oe_lease E) c (ob_jobs ob) (ob_jobs (outbox_step E c ob))" using outbox_step_kept [OF assms(1)] by (simp add: kept_def)
  then obtain r' where r': "r' \<in> set (ob_jobs (outbox_step E c ob))" "job_step (oe_lease E) c r r'" using r(1) unfolding moves_def by blast
  then have "job_identity r' = job_identity r" by (intro job_step_identity)
  then show ?thesis using r r'(1) by (auto simp: job_for_def job_identity_def)
qed

lemma turn_scope_keys: "turn_le t t' \<Longrightarrow> tn_direct_turn_id t' = tn_direct_turn_id t \<and> tn_destination t' = tn_destination t
    \<and> tn_agent_session_id t' = tn_agent_session_id t \<and> tn_agent_turn_id t' = tn_agent_turn_id t"
  by (simp add: turn_edit_def turn_le_def turn_scope_def)

lemma unique_map_key: "(\<And>x. x \<in> set xs \<Longrightarrow> key (g x) = key x) \<Longrightarrow> unique_key key (map g xs) = unique_key key xs"
  by (simp add: unique_key_def cong: map_cong)

lemma update_where_member: "r \<in> set rs \<Longrightarrow> (if P r then f r else r) \<in> set (update_where P f rs)"
  by (simp add: update_where_def del: if_image_distrib)

lemma micro_inv:
  assumes "micro E b m m'" "bridge_inv m"
  shows "bridge_inv m'"
  using assms
proof (induction rule: micro.induct)
  case (micro_outbox m c)
  then show ?case using job_for_step outbox_step_kept [of "mg_outbox m" E c] by (auto simp: bridge_inv_def kept_def)
next
  case (micro_turn t m ts)
  then show ?case by (auto simp: bridge_inv_def insert_turn_def insert_row_def unique_key_def split: if_splits)
next
  case (micro_edit m P f)
  let ?g = "\<lambda>t. if P t then f t else t"
  have g: "turn_le t (?g t) \<and> tn_reply_id (?g t) = tn_reply_id t" if "t \<in> set (mg_turns m)" for t
    using micro_edit.hyps [OF that] by (simp add: turn_edit_def)
  have "unique_key tn_direct_turn_id (map ?g (mg_turns m))" "unique_key (\<lambda>t. (tn_agent_session_id t, tn_agent_turn_id t)) (map ?g (mg_turns m))"
    using micro_edit.prems turn_scope_keys [OF conjunct1 [OF g]] by (subst unique_map_key; simp add: bridge_inv_def)+
  moreover have "tn_reply_id (?g t) \<noteq> [] \<longrightarrow> job_for (mg_outbox m) (tn_reply_id (?g t)) (tn_destination (?g t))" if "t \<in> set (mg_turns m)" for t
    using micro_edit.prems that turn_scope_keys [OF conjunct1 [OF g [OF that]]] g [OF that] unfolding bridge_inv_def by metis
  moreover have "update_where P f (mg_turns m) = map ?g (mg_turns m)" by (rule update_where_def)
  ultimately show ?case using micro_edit.prems by (auto simp: bridge_inv_def simp del: if_image_distrib)
next
  case (micro_reply t m rid now)
  have one: "tn_destination x = tn_destination t" if "x \<in> set (mg_turns m)" "tn_direct_turn_id x = tn_direct_turn_id t" for x
    using micro_reply.prems unique_keyD [OF _ that(1) micro_reply.hyps(1)] that(2) by (auto simp: bridge_inv_def)
  have "\<forall>x\<in>set (set_reply_id (tn_direct_turn_id t) rid now (mg_turns m)).
      tn_reply_id x \<noteq> [] \<longrightarrow> job_for (mg_outbox m) (tn_reply_id x) (tn_destination x)"
    unfolding set_reply_id_def ball_update_where
  proof
    fix x assume x: "x \<in> set (mg_turns m)"
    then show "if tn_direct_turn_id x = tn_direct_turn_id t
      then tn_reply_id (x\<lparr>tn_reply_id := rid, tn_updated_at := now\<rparr>) \<noteq> [] \<longrightarrow>
        job_for (mg_outbox m) (tn_reply_id (x\<lparr>tn_reply_id := rid, tn_updated_at := now\<rparr>)) (tn_destination (x\<lparr>tn_reply_id := rid, tn_updated_at := now\<rparr>))
      else tn_reply_id x \<noteq> [] \<longrightarrow> job_for (mg_outbox m) (tn_reply_id x) (tn_destination x)"
      using one [OF x] micro_reply.hyps(2) micro_reply.prems by (simp add: bridge_inv_def)
  qed
  then show ?case using micro_reply.prems
    by (simp add: bridge_inv_def) (simp add: set_reply_id_def unique_key_update_where)
next
  case (micro_links m ls)
  then show ?case by (simp add: bridge_inv_def)
qed

lemma micros_inv: "micros E b m m' \<Longrightarrow> bridge_inv m \<Longrightarrow> bridge_inv m'"
  by (induction rule: rtranclp_induct) (auto intro: micro_inv)

lemma micro_turn_le:
  assumes "micro E b m m'" "t \<in> set (mg_turns m)"
  shows "\<exists>t'\<in>set (mg_turns m'). turn_le t t'"
  using assms
proof (induction rule: micro.induct)
  case (micro_turn x m ts)
  then show ?case using turn_le_refl by (force simp: insert_turn_def insert_row_def split: if_splits)
next
  case (micro_edit m P f)
  then have "turn_le t (if P t then f t else t)" by (simp add: turn_edit_def)
  then show ?case using update_where_member [OF micro_edit.prems] by auto
next
  case (micro_reply x m rid now)
  have "turn_le t (if tn_direct_turn_id t = tn_direct_turn_id x then t\<lparr>tn_reply_id := rid, tn_updated_at := now\<rparr> else t)"
    by (simp add: turn_edit_def turn_le_def turn_scope_def)
  moreover have "(if tn_direct_turn_id t = tn_direct_turn_id x then t\<lparr>tn_reply_id := rid, tn_updated_at := now\<rparr> else t)
      \<in> set (set_reply_id (tn_direct_turn_id x) rid now (mg_turns m))"
    unfolding set_reply_id_def by (rule update_where_member) (rule micro_reply.prems)
  ultimately show ?case by (intro bexI) simp_all
qed (auto intro!: bexI [of _ t])

lemma micros_turn_le: "micros E b m m' \<Longrightarrow> t \<in> set (mg_turns m) \<Longrightarrow> \<exists>t'\<in>set (mg_turns m'). turn_le t t'"
  by (induction rule: rtranclp_induct) (use turn_le_refl micro_turn_le turn_le_trans in meson)+

text \<open>A job that an observation of a turn returns is addressed to the turn's destination.\<close>

lemma find_job_for: "List.find P (ob_jobs ob) = Some r \<Longrightarrow> rj_destination r = d \<Longrightarrow> job_for ob (jb_reply_id (job r)) d"
  by (auto simp: job_for_def job_def dest: find_SomeD)

lemma insert_job_find: "insert_job r rs = Some rs' \<Longrightarrow> List.find (\<lambda>x. rj_operation_id x = rj_operation_id r) rs = None \<Longrightarrow>
    List.find (\<lambda>x. rj_operation_id x = rj_operation_id r) rs' = Some r"
  by (auto simp: insert_job_def insert_row_def find_append split: if_splits)

lemma find_update_where:
  "(\<And>r. P (f r) = P r) \<Longrightarrow> List.find P (update_where Q f rs) = map_option (\<lambda>r. if Q r then f r else r) (List.find P rs)"
  by (induction rs) (auto simp: update_where_def)

lemma job_of_truth_destination:
  assumes "job_of_truth H t b now rs = Inr rs'" "List.find (\<lambda>r. rj_operation_id r = bf_operation_id b) rs' = Some r"
  shows "rj_destination r = to_destination t"
proof (cases "List.find (\<lambda>r. rj_operation_id r = bf_operation_id b) rs")
  case None
  then show ?thesis using assms
    by (auto simp: job_of_truth_def Let_def new_job_def dest!: insert_job_find split: sum.splits option.splits)
next
  case (Some r0)
  then show ?thesis using assms
    by (auto simp: job_of_truth_def Let_def set_text_def find_update_where split: sum.splits if_splits)
qed

lemma observed_job_for:
  assumes "observe_agent_terminal render H t business now ob = (Inr (Some j), ob')"
  shows "job_for ob' (jb_reply_id j) (to_destination t)"
proof -
  have "observe_terminal_body H t business now ob = Inr (Some j, ob')"
    using assms by (auto simp: observe_agent_terminal_def transaction_ok split: if_splits option.splits)
  then obtain b rs r where "job_of_truth H t b now (ob_jobs ob) = Inr rs" "rs = ob_jobs ob'"
      "find_job (bf_operation_id b) ob' = Some r" "j = job r"
    by (auto simp: observe_terminal_body_def Let_def split: option.splits sum.splits)
  then show ?thesis using job_of_truth_destination find_job_for unfolding find_job_def by blast
qed

lemma noticed_job_for:
  assumes "observe_agent_notice H n t now ob = (Inr (Some j), ob')"
  shows "job_for ob' (jb_reply_id j) (to_destination t)"
proof -
  have b: "observe_notice_body H (strip n) t now ob = Inr (Some j, ob')"
    using assms by (auto simp: observe_agent_notice_def transaction_ok Let_def split: if_splits)
  show ?thesis
  proof (cases "find_job (strip n) ob")
    case None
    then show ?thesis using b
      by (auto simp: observe_notice_body_def Let_def find_job_def new_job_def dest!: insert_job_find split: sum.splits option.splits if_splits
          intro!: find_job_for)
  next
    case (Some r)
    then show ?thesis using b
      by (auto simp: observe_notice_body_def Let_def find_job_def split: sum.splits if_splits intro!: find_job_for)
  qed
qed

text \<open>Every operation of the manager is a sequence of elementary changes.\<close>

lemma micros_outbox: "micros E b m (m\<lparr>mg_outbox := outbox_step E c (mg_outbox m)\<rparr>)"
  by (intro r_into_rtranclp micro_outbox)

lemma staged_micros:
  assumes "micros E b m (m\<lparr>mg_outbox := snd r\<rparr>)" "t \<in> set (mg_turns m)"
    "\<And>j ob. r = (Inr (Some j), ob) \<Longrightarrow> job_for ob (jb_reply_id j) (tn_destination t)"
  shows "micros E b m (snd (staged t now m r))"
proof -
  obtain ob where "r = (fst r, ob)" by (cases r) simp
  then consider j where "r = (Inr (Some j), ob)" | "snd (staged t now m r) = m\<lparr>mg_outbox := snd r\<rparr>"
    by (cases "fst r"; cases "projr (fst r)") (auto simp: staged_def)
  then show ?thesis
  proof cases
    case 1
    have "micro E b (m\<lparr>mg_outbox := ob\<rparr>)
        ((m\<lparr>mg_outbox := ob\<rparr>)\<lparr>mg_turns := set_reply_id (tn_direct_turn_id t) (jb_reply_id j) now (mg_turns (m\<lparr>mg_outbox := ob\<rparr>))\<rparr>)"
      using assms(2) assms(3) [OF 1] by (intro micro_reply) simp_all
    then show ?thesis using assms(1) 1 by (simp add: staged_def rtranclp.rtrancl_into_rtrancl)
  next
    case 2
    then show ?thesis using assms(1) by simp
  qed
qed

lemma releases_micros:
  "micros E b m (snd (release_job j now m))"
  "micros E b m (snd (release_handoff rid ch chat now m))"
  "micros E b m (snd (release_wecom_callback_handoff rid now m))"
  "micros E b m (snd (release_robot_handoff rid operation chat now m))"
proof -
  have r: "micros E b m (snd (release_job j now m))" for j
    using micros_outbox [of E b m "Release_hold (jb_reply_id j) (jb_operation_id j) (jb_destination j) now"]
    by (simp add: release_job_def on_outbox_def)
  then show h: "micros E b m (snd (release_handoff rid ch chat now m))" for rid ch chat
    by (simp add: release_handoff_def split: option.split)
  show "micros E b m (snd (release_job j now m))" by (rule r)
  show "micros E b m (snd (release_wecom_callback_handoff rid now m))"
    using r by (simp add: release_wecom_callback_handoff_def Let_def split: option.split)
  show "micros E b m (snd (release_robot_handoff rid operation chat now m))"
    using h by (simp add: release_robot_handoff_def split: option.split)
qed

lemma pending_micros: "micros E b m (snd (release_pending_operation operation ch chat now m))"
  using releases_micros(2) [of E b m _ ch chat now]
  by (auto simp: release_pending_operation_def split: option.split sum.split prod.split) (metis snd_conv)+

lemma edit_micros:
  "(\<And>t. t \<in> set (mg_turns m) \<Longrightarrow> P t \<Longrightarrow> turn_edit b t (f t)) \<Longrightarrow>
    micros E b m (m\<lparr>mg_turns := update_where P f (mg_turns m)\<rparr>)"
  by (intro r_into_rtranclp micro_edit)

lemma set_recovery_state_micros: "micros E b m (set_recovery_state session state now m)"
  unfolding set_recovery_state_def by (rule edit_micros) (simp add: turn_edit_def turn_le_def turn_scope_def)

lemma note_tool_micros: "micros E b m (note_tool_attempt session now m)"
  unfolding note_tool_attempt_def by (rule edit_micros) (simp add: turn_edit_def turn_le_def turn_scope_def)

lemma receipt_micros: "micros E b m (snd (observe_verified_receipt render e now m))"
proof -
  have "micros E b m (m\<lparr>mg_turns := update_where (receives e operation) (\<lambda>t. t\<lparr>tn_receipt := Some v, tn_operation_id := operation, tn_updated_at := now\<rparr>)
      (mg_turns m)\<rparr>)" for operation v
    by (rule edit_micros) (auto simp: turn_edit_def turn_le_def turn_scope_def receives_def)
  then show ?thesis by (simp add: observe_verified_receipt_def Let_def)
qed

lemma prepare_micros: "micros E b m (snd (prepare_agenda_user_message session turn trusted x now m))"
proof -
  have "micros E b m (m\<lparr>mg_turns := update_where (\<lambda>x. tn_direct_turn_id x = did \<and> tn_user_message x = [])
      (\<lambda>x. x\<lparr>tn_user_message := msg, tn_updated_at := now\<rparr>) (mg_turns m)\<rparr>)" for did msg
    by (rule edit_micros) (auto simp: turn_edit_def turn_le_def turn_scope_def)
  then show ?thesis by (simp add: prepare_agenda_user_message_def Let_def split: option.split)
qed

lemma capture_row_micros:
  assumes "capture_row hint conflict t (mg_turns m) = Inr ts" "tn_reply_id t = []" "tn_recovery_session_id t = []"
  shows "micros E b m (m\<lparr>mg_turns := ts\<rparr>)"
proof -
  consider "ts = mg_turns m" | "insert_turn t (mg_turns m) = Some ts"
    using assms(1) by (auto simp: capture_row_def split: option.splits if_splits)
  then show ?thesis
    by cases (auto intro: r_into_rtranclp micro_turn assms(2,3))
qed

lemma capture_direct_micros: "micros E b m (snd (capture_direct_turn H session text t now m))"
  by (auto simp: capture_direct_turn_def Let_def new_turn_def intro!: capture_row_micros split: sum.splits)

lemma capture_agenda_micros: "micros E b m (snd (capture_agenda_turn H a now m))"
proof -
  have l: "micros E b m (m\<lparr>mg_turns := ts, mg_links := ls\<rparr>)"
    if "capture_row hint conflict t (mg_turns m) = Inr ts" "tn_reply_id t = []" "tn_recovery_session_id t = []" for hint conflict t ts ls
    using capture_row_micros [OF that] micro_links [of E b "m\<lparr>mg_turns := ts\<rparr>" ls] by (auto intro: rtranclp.rtrancl_into_rtrancl)
  show ?thesis
    by (auto simp: capture_agenda_turn_def Let_def sbind_def new_turn_def intro!: l split: sum.splits)
qed

lemma stage_terminal_micros: "micros E b m (snd (stage_terminal (oe_render E) (oe_sha E) session turn x now m))"
proof -
  have "micros E b m (snd (staged t now m (observe_agent_terminal (oe_render E) (oe_sha E) (observation_for t a st su tr tx h) business now (mg_outbox m))))"
    if "t \<in> set (mg_turns m)" for t a st su tr tx h business
    using observed_job_for micros_outbox [of E b m "Observe (observation_for t a st su tr tx h) business now"]
    by (intro staged_micros that) (fastforce simp: observation_for_def)+
  then show ?thesis
    by (auto simp: stage_terminal_def row_for_turn_def Let_def dest: find_SomeD split: option.splits)
qed

lemma notice_micros:
  assumes "t \<in> set (mg_turns m)" "to_destination x = tn_destination t"
  shows "micros E b m (snd (staged t now m (observe_agent_notice (oe_sha E) n x now (mg_outbox m))))"
  using noticed_job_for [of "oe_sha E" n x now "mg_outbox m"] micros_outbox [of E b m "Notice n x now"] assms
  by (intro staged_micros) simp_all

lemma row_for_turn_aliases_in: "row_for_turn_aliases session turn trusted ts = Some t \<Longrightarrow> t \<in> set ts"
  by (auto simp: row_for_turn_aliases_def Let_def filter_eq_Cons_iff split: if_splits list.splits)

lemma artifact_micros: "micros E b m (snd (stage_tool_delivery_artifact (oe_render E) (oe_sha E) loads session turn trusted name v now m))"
  by (auto simp: stage_tool_delivery_artifact_def Let_def observation_for_def dest!: row_for_turn_aliases_in intro!: notice_micros
      split: option.splits sum.splits)

lemma human_notice_micros: "micros E b m (snd (stage_human_command_notice (oe_sha E) n now m))"
proof -
  have "micros E b m (m\<lparr>mg_outbox := ob\<rparr>)" if "observe_agent_notice (oe_sha E) k x now (mg_outbox m) = (r, ob)" for k x r ob
    using micros_outbox [of E b m "Notice k x now"] that by simp
  then show ?thesis
    by (auto simp: stage_human_command_notice_def Let_def split: prod.splits sum.splits option.splits)
qed

lemma proactive_notice_micros: "micros E b m (snd (stage_proactive_notice (oe_sha E) n now m))"
  using micros_outbox [of E b m "Notice k x now" for k x]
  by (auto simp: stage_proactive_notice_def Let_def on_outbox_def)

lemma update_one_job:
  "update_one P f rid err ob = (Inr j, ob') \<Longrightarrow> jb_reply_id j = rid \<and> ob' = ob\<lparr>ob_jobs := update_where P f (ob_jobs ob)\<rparr>"
  by (auto simp: update_one_def Let_def job_def dest: find_SomeD split: if_splits option.splits)

lemma release_keeps_job:
  assumes "release_delivery_hold rid operation dest now ob = (Inr j, ob')" "job_for ob rid d"
  shows "job_for ob' (jb_reply_id j) d"
proof -
  have u: "jb_reply_id j = rid" "ob' = ob\<lparr>ob_jobs := update_where (releasable rid operation dest) (release now) (ob_jobs ob)\<rparr>"
    using assms(1) by (auto simp: release_delivery_hold_def dest!: update_one_job split: sum.splits)
  show ?thesis using assms(2) unfolding u job_for_def by (auto simp: bex_update_where release_def)
qed

lemma release_held_job:
  assumes "\<And>j ob. r = (Inr (Some j), ob) \<Longrightarrow> job_for ob (jb_reply_id j) d" "release_held now r = (Inr (Some j'), ob')"
  shows "job_for ob' (jb_reply_id j') d"
proof -
  obtain j ob where r: "r = (Inr (Some j), ob)"
    using assms(2) by (cases r; cases "fst r"; cases "projr (fst r)") (auto simp: release_held_def)
  show ?thesis using assms(1) [OF r] assms(2) release_keeps_job unfolding r release_held_def
    by (auto split: if_splits sum.splits prod.splits)
qed

lemma snd_release_held: "snd (release_held now (Inr (Some j), ob)) =
    (if jb_delivery_hold j then snd (release_delivery_hold (jb_reply_id j) (jb_operation_id j) (jb_destination j) now ob) else ob)"
  by (auto simp: release_held_def split: sum.splits prod.splits)

lemma release_held_micros:
  assumes "micros E b m (m\<lparr>mg_outbox := snd r\<rparr>)"
  shows "micros E b m (m\<lparr>mg_outbox := snd (release_held now r)\<rparr>)"
proof -
  consider "snd (release_held now r) = snd r"
    | j :: reply_job where "snd (release_held now r) = snd (release_delivery_hold (jb_reply_id j) (jb_operation_id j) (jb_destination j) now (snd r))"
  proof (cases "\<exists>j ob. r = (Inr (Some j), ob)")
    case True
    then obtain j ob where "r = (Inr (Some j), ob)" by blast
    then show thesis using that(1) that(2) [of j] snd_release_held [of now j ob] by (cases "jb_delivery_hold j") simp_all
  next
    case False
    then show thesis using that(1) by (cases r; cases "fst r"; cases "projr (fst r)") (auto simp: release_held_def)
  qed
  then show ?thesis
  proof cases
    case 1
    then show ?thesis using assms by simp
  next
    case 2
    then show ?thesis
      using micro_outbox [of E b "m\<lparr>mg_outbox := snd r\<rparr>" "Release_hold (jb_reply_id j) (jb_operation_id j) (jb_destination j) now"] assms
      by (simp add: rtranclp.rtrancl_into_rtrancl)
  qed
qed

lemma ticket_micros: "micros E b m (snd (stage_agenda_ticket_terminal (oe_render E) (oe_sha E) ticket x now m))"
proof -
  have "micros E b m (snd (staged t now m (release_held now
      (observe_agent_terminal (oe_render E) (oe_sha E) (observation_for t a st su tr tx h) business now (mg_outbox m)))))"
    if "t \<in> set (mg_turns m)" for t a st su tr tx h business
  proof (rule staged_micros [OF _ that])
    show "micros E b m (m\<lparr>mg_outbox := snd (release_held now
        (observe_agent_terminal (oe_render E) (oe_sha E) (observation_for t a st su tr tx h) business now (mg_outbox m)))\<rparr>)"
      using micros_outbox [of E b m "Observe (observation_for t a st su tr tx h) business now"] by (intro release_held_micros) simp
  next
    fix j ob
    assume "release_held now (observe_agent_terminal (oe_render E) (oe_sha E) (observation_for t a st su tr tx h) business now (mg_outbox m)) = (Inr (Some j), ob)"
    then show "job_for ob (jb_reply_id j) (tn_destination t)"
      by (rule release_held_job [rotated]) (use observed_job_for in \<open>fastforce simp: observation_for_def\<close>)
  qed
  moreover have "t \<in> set (mg_turns m)" if "row_for_ticket k m = Some t" for k t
    using that by (auto simp: row_for_ticket_def dest: find_SomeD split: option.splits)
  ultimately show ?thesis
    by (auto simp: stage_agenda_ticket_terminal_def Let_def observation_for_def intro!: notice_micros split: option.splits)
qed

lemma micros_then: "micros E b x y \<Longrightarrow> micros E b y z \<Longrightarrow> micros E b x z"
  by (rule rtranclp_trans)

lemma finish_recovery_micros: "micros E b m (snd (finish_recovery session text w now later m))"
proof -
  have g: "micros E b m (m\<lparr>mg_outbox := ob\<rparr>)" if "complete_generation j w t now (mg_outbox m) = (r, ob)" for j t r ob
    using micros_outbox [of E b m "Complete_generation j w t now"] that by simp
  then show ?thesis
    by (auto simp: finish_recovery_def intro: micros_then [OF g set_recovery_state_micros] split: option.splits prod.splits sum.splits)
qed

lemma fail_recovery_micros: "micros E b m (snd (fail_recovery session w now later m))"
proof -
  have g: "micros E b m (m\<lparr>mg_outbox := ob\<rparr>)" if "complete_generation j w t now (mg_outbox m) = (r, ob)" for j t r ob
    using micros_outbox [of E b m "Complete_generation j w t now"] that by simp
  then show ?thesis
    by (auto simp: fail_recovery_def intro: set_recovery_state_micros micros_then [OF g set_recovery_state_micros]
        split: option.splits prod.splits sum.splits)
qed

lemma claim_recovery_micros: "micros E True m (snd (claim_recovery (oe_lease E) w now later m))"
proof -
  have c: "micros E True m (m\<lparr>mg_outbox := ob\<rparr>)" if "claim_generation (oe_lease E) w now (mg_outbox m) = (r, ob)" for r ob
    using micros_outbox [of E True m "Claim_job True w now"] that by simp
  have g: "micros E True m (m\<lparr>mg_outbox := ob'\<rparr>)"
    if "claim_generation (oe_lease E) w now (mg_outbox m) = (r, ob)" "complete_generation j w t later ob = (r', ob')" for j t r r' ob ob'
    using micros_then [OF c [OF that(1)] micros_outbox [of E True _ "Complete_generation j w t later"]] that(2) by simp
  have e: "micros E True m (m\<lparr>mg_outbox := ob, mg_turns := update_where P (\<lambda>x. x\<lparr>tn_recovery_session_id := s, tn_recovery_state := st,
      tn_tool_attempted := False, tn_updated_at := later\<rparr>) (mg_turns m)\<rparr>)"
    if "claim_generation (oe_lease E) w now (mg_outbox m) = (r, ob)" for r ob P s st
  proof -
    have "micros E True (m\<lparr>mg_outbox := ob\<rparr>) ((m\<lparr>mg_outbox := ob\<rparr>)\<lparr>mg_turns := update_where P (\<lambda>x. x\<lparr>tn_recovery_session_id := s,
        tn_recovery_state := st, tn_tool_attempted := False, tn_updated_at := later\<rparr>) (mg_turns (m\<lparr>mg_outbox := ob\<rparr>))\<rparr>)"
      by (rule edit_micros) (simp add: turn_edit_def turn_le_def turn_scope_def)
    then show ?thesis using micros_then [OF c [OF that]] by simp
  qed
  show ?thesis
    by (auto simp: claim_recovery_def Let_def intro: c g e split: option.splits prod.splits sum.splits)
qed

lemmas operation_micros = capture_direct_micros capture_agenda_micros receipt_micros stage_terminal_micros artifact_micros prepare_micros
  human_notice_micros proactive_notice_micros ticket_micros releases_micros pending_micros claim_recovery_micros note_tool_micros
  finish_recovery_micros fail_recovery_micros micros_outbox

fun claims :: "bridge_cmd \<Rightarrow> bool" where
  "claims (Claim_recovery w now later) = True"
| "claims c = False"

lemma bridge_step_micros: "micros E (claims c) m (bridge_step E loads c m)"
  by (cases c) (simp_all add: operation_micros)

interpretation bridge: invariant_machine "bridge_step E loads" bridge_inv for E loads
  by unfold_locales (rule micros_inv [OF bridge_step_micros])

interpretation turn: final_machine "bridge_step E loads" bridge_inv "\<lambda>t m. \<exists>t'\<in>set (mg_turns m). turn_le t t'" "\<lambda>_ _. True" for E loads
  by unfold_locales (use micros_turn_le [OF bridge_step_micros] turn_le_trans in meson)

lemma new_manager_inv: "bridge_inv new_manager"
  by (simp add: new_manager_def bridge_inv_def new_outbox_inv)

text \<open>A noted tool attempt stays noted until the next claim.\<close>

definition tool_noted :: "pystr \<Rightarrow> manager \<Rightarrow> bool" where
  "tool_noted session m \<longleftrightarrow> (\<forall>t\<in>set (mg_turns m). tn_recovery_session_id t = session \<longrightarrow> tn_tool_attempted t)"

lemma micro_tool_noted:
  assumes "micro E False m m'" "tool_noted session m" "session \<noteq> []"
  shows "tool_noted session m'"
  using assms
proof (induction rule: micro.induct)
  case (micro_turn t m ts)
  then show ?case by (auto simp: tool_noted_def insert_turn_def insert_row_def split: if_splits)
next
  case (micro_edit m P f)
  then show ?case by (auto simp: tool_noted_def ball_update_where turn_edit_def)
qed (auto simp: tool_noted_def set_reply_id_def ball_update_where)

lemma step_tool_noted:
  assumes "\<not> claims c" "tool_noted session m" "session \<noteq> []"
  shows "tool_noted session (bridge_step E loads c m)"
proof -
  have "micros E False m (bridge_step E loads c m)" using bridge_step_micros [of E c m loads] assms(1) by simp
  then show ?thesis
    by (induction rule: rtranclp_induct) (use assms(2,3) micro_tool_noted in auto)
qed

interpretation noted: final_machine "bridge_step E loads" "\<lambda>_. True" tool_noted "\<lambda>session c. session \<noteq> [] \<and> \<not> claims c" for E loads
  by unfold_locales (use step_tool_noted in auto)

lemma note_tool_noted: "tool_noted session (note_tool_attempt session now m)"
  by (simp add: tool_noted_def note_tool_attempt_def ball_update_where)

lemma noted_recovery_fails:
  assumes "tool_noted session m"
  shows "\<exists>e. finish_recovery session text w now later m = (Inl e, m)"
proof (cases "row_for_recovery session (mg_turns m)")
  case (Some t)
  then have "tn_tool_attempted t" using assms by (auto simp: tool_noted_def row_for_recovery_def dest: find_SomeD)
  then show ?thesis using Some by (auto simp: finish_recovery_def complete_generation_def split: option.split)
qed (simp add: finish_recovery_def)

definition reachable_manager :: "outbox_env \<Rightarrow> (pystr \<Rightarrow> json option) \<Rightarrow> bridge_cmd list \<Rightarrow> manager" where
  "reachable_manager E loads cs = fold (bridge_step E loads) cs new_manager"

lemma reachable_manager_inv: "bridge_inv (reachable_manager E loads cs)"
  unfolding reachable_manager_def by (rule bridge.run_inv [OF new_manager_inv])

section \<open>A sample run\<close>

definition sample_turn :: trusted_turn where
  "sample_turn = \<lparr>tt_platform = lit ''robot_poc'', tt_tenant_id = lit ''t1'', tt_canonical_user_id = lit ''u1'', tt_chat_id = lit ''c1'',
     tt_continuity_key = [], tt_message_id = lit ''m1'', tt_turn_id = lit ''m1''\<rparr>"

definition sample_scope :: trusted_partition where
  "sample_scope = \<lparr>tq_partition_id = lit ''direct_'' @ take 32 (us_join [lit ''t1'', lit ''u1'', lit ''device'', lit ''c1'', lit ''robot_poc'']),
     tq_tenant_id = lit ''t1'', tq_canonical_actor_id = lit ''u1'', tq_principal_kind = lit ''device'', tq_trusted_session_id = lit ''c1'',
     tq_continuity_id = None, tq_source_identity = lit ''robot_poc:u1''\<rparr>"

definition sample_address :: reply_destination where
  "sample_address = \<lparr>rd_tenant_id = lit ''t1'', rd_channel = lit ''robot_poc'', rd_recipient_id = lit ''c1'',
     rd_source_identity = lit ''robot_poc:u1'', rd_device_id = []\<rparr>"

definition sample_turn_row :: turn_row where
  "sample_turn_row = new_turn (us_join [lit ''s1'', lit ''m1'']) (lit ''s1'') (lit ''m1'') (lit ''robot_poc'') sample_scope sample_address
     (lit ''u1'') (lit ''m1'') (lit ''hi'') 1"

definition sample_result :: json where
  "sample_result = JObj [(lit ''ok'', JBool True), (lit ''data'', JObj [(lit ''rendered_text'', JStr (lit ''ok'')),
     (lit ''delivery_artifact'', JObj [(lit ''version'', JStr (lit ''xiaoyou.delivery-artifact.v1'')), (lit ''kind'', JStr (lit ''reply_text'')),
       (lit ''text'', JStr (lit ''ok''))])])]"

definition sample_cmds :: "bridge_cmd list" where
  "sample_cmds = [Capture_turn (lit ''s1'') (lit ''hi'') sample_turn 1, Stage_artifact (lit ''s1'') (lit ''m1'') [] (lit ''tool'') sample_result 2]"

lemma sample_words: "strip (lit ''s1'') = lit ''s1''" "strip (lit ''m1'') = lit ''m1''" "strip (lit ''hi'') = lit ''hi''" "strip (lit ''t1'') = lit ''t1''"
  "strip (lit ''u1'') = lit ''u1''" "strip (lit ''c1'') = lit ''c1''" "strip (lit ''tool'') = lit ''tool''" "strip (lit ''robot_poc'') = lit ''robot_poc''"
  "lower (lit ''robot_poc'') = lit ''robot_poc''"
  by (simp_all add: strip_def lower_def lit_def is_space_def)

lemma sample_capture: "capture_direct_turn (\<lambda>s. s) (lit ''s1'') (lit ''hi'') sample_turn 1 new_manager = (Inr (), new_manager\<lparr>mg_turns := [sample_turn_row]\<rparr>)"
proof -
  have p: "turn_partition (\<lambda>s. s) sample_turn = Inr sample_scope"
    by (simp add: turn_partition_def turn_channel_def sample_turn_def sample_words direct_channels_def sample_scope_def Let_def nonempty_def
        lit_append [symmetric])
  have d: "turn_destination sample_turn = Inr sample_address"
    by (simp add: turn_destination_def turn_channel_def sample_turn_def sample_words direct_channels_def sample_address_def Let_def
        lit_append [symmetric]) (simp add: lit_def colon_def)
  show ?thesis
    by (simp add: capture_direct_turn_def p d Let_def)
      (simp add: sample_turn_def sample_words direct_channels_def capture_row_def insert_turn_def insert_row_def new_manager_def sample_turn_row_def
        sample_scope_def)
qed

lemma sample_artifact: "artifact_of render (case sample_result of JObj kvs \<Rightarrow> kvs | _ \<Rightarrow> []) = Inr (Some (lit ''ok''))"
  by (simp add: artifact_of_def sample_result_def dget_def Let_def)

lemma sample_address_canonical: "\<exists>canon. canonical sample_address = Inr canon"
  by (simp add: canonical_def sample_address_def blank_lit is_space_def)

lemma sample_notice:
  assumes "strip operation = operation" "operation \<noteq> []" "\<not> blank a" "\<not> blank tr"
  shows "\<exists>j ob. observe_agent_notice (\<lambda>s. s) operation (observation_for sample_turn_row a (lit ''completed'') su tr (lit ''ok'') True) now new_outbox
    = (Inr (Some j), ob) \<and> jb_reply_id j \<noteq> []"
proof -
  obtain canon where c: "canonical sample_address = Inr canon" using sample_address_canonical by blast
  have r: "tn_destination sample_turn_row = sample_address" "tn_partition sample_turn_row = sample_scope"
    "rd_tenant_id sample_address = tq_tenant_id sample_scope"
    by (simp_all add: sample_turn_row_def new_turn_def sample_address_def sample_scope_def)
  have k: "\<not> blank (lit ''completed'')" by (simp add: blank_lit is_space_def)
  show ?thesis
    by (simp add: observe_agent_notice_def assms k observation_for_def r Let_def observe_notice_body_def c find_job_def new_outbox_def
        insert_job_def insert_row_def transaction_def) (simp add: job_def new_job_def reply_id_def)
qed

lemma sample_bound: "\<exists>t\<in>set (mg_turns (reachable_manager sample_outbox_env (\<lambda>_. None) sample_cmds)). tn_reply_id t \<noteq> []"
proof -
  let ?op = "artifact_operation (\<lambda>s. s) sample_turn_row (lit ''tool'') (lit ''ok'')"
  let ?x = "observation_for sample_turn_row (lit ''direct-tool-artifact:'' @ tn_direct_turn_id sample_turn_row @ lit '':'' @ lit ''tool'') (lit ''completed'') (Some True)
    (lit ''public-post-tool-artifact:'' @ lit ''s1'' @ lit '':'' @ lit ''tool'') (lit ''ok'') True"
  have ne: "?op \<noteq> []" by (simp add: artifact_operation_def)
  then have op: "strip ?op = ?op" by (rule strip_id) (simp_all add: artifact_operation_def lit_def is_space_def)
  have nb: "\<not> blank (lit ''direct-tool-artifact:'' @ x)" "\<not> blank (lit ''public-post-tool-artifact:'' @ x)" for x
    by (simp_all add: blank_def strip_eq_Nil lit_def is_space_def)
  obtain j ob where n: "observe_agent_notice (\<lambda>s. s) ?op ?x 2 new_outbox = (Inr (Some j), ob)" "jb_reply_id j \<noteq> []"
    using sample_notice [OF op ne nb] by blast
  have row: "row_for_turn_aliases (lit ''s1'') (lit ''m1'') [] [sample_turn_row] = Some sample_turn_row"
    by (simp add: row_for_turn_aliases_def sample_words sample_turn_row_def new_turn_def Let_def)
  obtain kvs where kvs: "sample_result = JObj kvs" by (simp add: sample_result_def)
  have art: "artifact_of render kvs = Inr (Some (lit ''ok''))" for render using sample_artifact [of render] by (simp add: kvs)
  have "snd (stage_tool_delivery_artifact (\<lambda>_. []) (\<lambda>s. s) (\<lambda>_. None) (lit ''s1'') (lit ''m1'') [] (lit ''tool'') (JObj kvs) 2
      (new_manager\<lparr>mg_turns := [sample_turn_row]\<rparr>))
    = new_manager\<lparr>mg_turns := set_reply_id (tn_direct_turn_id sample_turn_row) (jb_reply_id j) 2 [sample_turn_row], mg_outbox := ob\<rparr>"
    by (simp add: stage_tool_delivery_artifact_def sample_words row tool_result_def art Let_def new_manager_def n(1) staged_def)
  then have "mg_turns (reachable_manager sample_outbox_env (\<lambda>_. None) sample_cmds) = set_reply_id (tn_direct_turn_id sample_turn_row) (jb_reply_id j) 2 [sample_turn_row]"
    by (simp add: reachable_manager_def sample_cmds_def sample_outbox_env_def sample_capture kvs)
  then show ?thesis using n(2) by (simp add: set_reply_id_def update_where_def)
qed

section \<open>Properties\<close>

text \<open>
  C5: the scope of a captured turn is final. Whatever operations follow, the turn stays in the table
  with the channel, tenant, actor, partition, destination and request text it was captured with; a
  verified operation bound to it and a prepared user message are never replaced.
\<close>

theorem captured_turn_is_final:
  assumes "t \<in> set (mg_turns (reachable_manager E loads cs))"
  shows "\<exists>t'\<in>set (mg_turns (fold (bridge_step E loads) later (reachable_manager E loads cs))).
    turn_scope t' = turn_scope t \<and> (tn_operation_id t \<noteq> [] \<longrightarrow> tn_operation_id t' = tn_operation_id t)
    \<and> (tn_user_message t \<noteq> [] \<longrightarrow> tn_user_message t' = tn_user_message t)"
proof -
  have "\<exists>t'\<in>set (mg_turns (fold (bridge_step E loads) later (reachable_manager E loads cs))). turn_le t t'"
    by (rule turn.run_final [OF reachable_manager_inv]) (use assms turn_le_refl in blast)+
  then show ?thesis unfolding turn_le_def .
qed

theorem captured_turn_is_final_witness:
  "\<exists>t'\<in>set (mg_turns (fold (bridge_step sample_outbox_env (\<lambda>_. None)) [Note_tool (lit ''s1'') 5]
      (reachable_manager sample_outbox_env (\<lambda>_. None) [Capture_turn (lit ''s1'') (lit ''hi'') sample_turn 1]))).
    turn_scope t' = turn_scope sample_turn_row"
proof -
  have "sample_turn_row \<in> set (mg_turns (reachable_manager sample_outbox_env (\<lambda>_. None) [Capture_turn (lit ''s1'') (lit ''hi'') sample_turn 1]))"
    by (simp add: reachable_manager_def sample_outbox_env_def sample_capture)
  from captured_turn_is_final [OF this, of "[Note_tool (lit ''s1'') 5]"] show ?thesis by blast
qed

text \<open>
  C6: the reply of a turn goes where the turn came from. In every reachable state the reply bound to a
  captured turn is a job of the outbox, and the job that is looked up for it, released or recovered
  is addressed to the destination the turn was captured with.
\<close>

theorem reply_goes_to_captured_destination:
  assumes "t \<in> set (mg_turns (reachable_manager E loads cs))" "tn_reply_id t \<noteq> []"
  shows "\<exists>j. get_by_reply_id (tn_reply_id t) (mg_outbox (reachable_manager E loads cs)) = Some j
    \<and> jb_reply_id j = tn_reply_id t \<and> jb_destination j = tn_destination t"
proof -
  let ?ob = "mg_outbox (reachable_manager E loads cs)"
  have inv: "bridge_inv (reachable_manager E loads cs)" by (rule reachable_manager_inv)
  then obtain r where r: "r \<in> set (ob_jobs ?ob)" "rj_reply_id r = tn_reply_id t" "rj_destination r = tn_destination t"
    using assms unfolding bridge_inv_def job_for_def by blast
  have "unique_key rj_reply_id (ob_jobs ?ob)" using inv by (simp add: bridge_inv_def outbox_inv_def jobs_inv_def)
  then have "List.find (\<lambda>x. rj_reply_id x = rj_reply_id r) (ob_jobs ?ob) = Some r" using r(1) by (rule find_unique_key)
  then show ?thesis using r by (simp add: get_by_reply_id_def job_def)
qed

theorem reply_goes_to_captured_destination_witness:
  "\<exists>t\<in>set (mg_turns (reachable_manager sample_outbox_env (\<lambda>_. None) sample_cmds)).
    \<exists>j. get_by_reply_id (tn_reply_id t) (mg_outbox (reachable_manager sample_outbox_env (\<lambda>_. None) sample_cmds)) = Some j
      \<and> jb_destination j = tn_destination t"
  using sample_bound reply_goes_to_captured_destination by blast

text \<open>
  a recovery writes no text once it has tried a tool. After a tool attempt was noted for a
  recovery session, and whatever happens short of a new claim, finishing that recovery is refused and
  leaves the turns and the outbox as they are.
\<close>

theorem tool_attempt_blocks_recovery:
  assumes "session \<noteq> []" "\<forall>c\<in>set cs. \<not> claims c"
  shows "\<exists>e. finish_recovery session text w now later (fold (bridge_step E loads) cs (note_tool_attempt session seen m))
    = (Inl e, fold (bridge_step E loads) cs (note_tool_attempt session seen m))"
  by (intro noted_recovery_fails noted.run_final) (use assms note_tool_noted in auto)

theorem tool_attempt_blocks_recovery_witness:
  "\<exists>e. finish_recovery (lit ''s'') (lit ''ok'') (lit ''w'') 9 9 (fold (bridge_step sample_outbox_env (\<lambda>_. None)) [Outbox_cmd (Recover_jobs 3)]
      (note_tool_attempt (lit ''s'') 2 (new_manager\<lparr>mg_turns := [sample_turn_row\<lparr>tn_recovery_session_id := lit ''s''\<rparr>]\<rparr>)))
    = (Inl e, fold (bridge_step sample_outbox_env (\<lambda>_. None)) [Outbox_cmd (Recover_jobs 3)]
      (note_tool_attempt (lit ''s'') 2 (new_manager\<lparr>mg_turns := [sample_turn_row\<lparr>tn_recovery_session_id := lit ''s''\<rparr>]\<rparr>)))"
  by (rule tool_attempt_blocks_recovery) simp_all

end
