(* ===== verification/AgendaFacts.thy ===== *)
theory AgendaFacts
  imports WorkInbox DeliveryAuthority
begin

text \<open>
  The scanner of \<^verbatim>\<open>runtime/plugins/tuoguan_core/agenda_runtime.py\<close>: which work items, tasks and governance
  facts of the workspace become attested work facts, and where their replies go. What the scan reads
  from the workspace is a record; \<open>str\<close>, SHA-256, \<open>json.dumps\<close> and \<open>datetime.fromisoformat\<close> are
  functions of an environment. The random id and the clock of an audit row are left out.
\<close>

section \<open>Environment and tables\<close>

record agenda_env =
  ae_render :: "json \<Rightarrow> pystr"
  ae_sha :: "pystr \<Rightarrow> pystr"
  ae_dumps :: "json \<Rightarrow> pystr"
  ae_iso :: "pystr \<Rightarrow> timestamp option"
  ae_tenant :: pystr
  ae_cfg :: inbox_cfg

record payload_row =
  pl_payload_ref :: pystr
  pl_tenant_id :: pystr
  pl_work_item_id :: pystr
  pl_source_version :: pystr
  pl_payload :: json
  pl_observed_at :: timestamp

record audit_row =
  au_event_type :: pystr
  au_ticket_id :: pystr
  au_work_id :: pystr
  au_detail :: json

record agenda =
  as_payloads :: "payload_row list"
  as_audit :: "audit_row list"
  as_authority :: authority
  as_inbox :: inbox

record workspace =
  ws_items :: "json list"
  ws_tasks :: "json list"
  ws_governance :: "(pystr, json) dict list"
  ws_recipient :: "(pystr, json) dict \<Rightarrow> pystr"
  ws_directory :: "json option"

definition service_actor :: "agenda_env \<Rightarrow> pystr" where
  "service_actor E = lit ''service:agenda:'' @ ae_tenant E"

definition agenda_source :: "agenda_env \<Rightarrow> pystr" where
  "agenda_source E = lit ''agenda:'' @ ae_tenant E"

section \<open>Wake reasons\<close>

definition utc_suffix :: "pystr \<Rightarrow> pystr" where
  "utc_suffix s = concat (map (\<lambda>c. if c = of_char CHR ''Z'' then lit ''+00:00'' else [c]) s)"

definition parse_time :: "agenda_env \<Rightarrow> json \<Rightarrow> timestamp option" where
  "parse_time E v = (let text = strip (text_of (ae_render E) v) in if text = [] then None else ae_iso E (utc_suffix text))"

definition passed :: "agenda_env \<Rightarrow> timestamp \<Rightarrow> json \<Rightarrow> bool" where
  "passed E now v = (case parse_time E v of None \<Rightarrow> False | Some t \<Rightarrow> t \<le> now)"

definition waiting_keys :: "pystr list" where
  "waiting_keys = [lit ''next_attention_at'', lit ''next_check_at'', lit ''deadline_at'']"

definition candidate_reason :: "agenda_env \<Rightarrow> timestamp \<Rightarrow> (pystr, json) dict \<Rightarrow> pystr option" where
  "candidate_reason E now item =
     (let status = strip (text_of (ae_render E) (dget item (lit ''status''))) in
      if status \<notin> set [lit ''active'', lit ''waiting'', lit ''blocked''] then None
      else if passed E now (dget item (lit ''next_attention_at'')) then Some (lit ''attention_due'')
      else if status = lit ''waiting'' \<and> passed E now (dget item (lit ''next_contact_after'')) then Some (lit ''waiting_recheck_due'')
      else case dget item (lit ''current_waiting'') of
        JObj waiting \<Rightarrow> if list_ex (\<lambda>k. passed E now (dget waiting k)) waiting_keys then Some (lit ''waiting_state_due'') else None
      | _ \<Rightarrow> None)"

definition closed_task_states :: "pystr list" where
  "closed_task_states = [lit ''completed'', lit ''closed'', lit ''cancelled'', lit ''superseded'', lit ''archived'']"

definition state_of :: "agenda_env \<Rightarrow> json \<Rightarrow> pystr" where
  "state_of E v = text_of (ae_render E) (dget (as_dict v) (lit ''state''))"

definition task_candidate_reason :: "agenda_env \<Rightarrow> timestamp \<Rightarrow> (pystr, json) dict \<Rightarrow> pystr option" where
  "task_candidate_reason E now task =
     (let status = lower (strip (py_str (ae_render E) (por (dget task (lit ''status'')) (JStr (lit ''pending'')))));
          followup = dget task (lit ''agenda_followup'');
          later = (if state_of E followup = lit ''scheduled'' then parse_time E (dget (as_dict followup) (lit ''next_attention_at'')) else None) in
      if status \<in> set closed_task_states then None
      else if strip (text_of (ae_render E) (dget task (lit ''assignee_userid''))) = [] then None
      else if state_of E (dget task (lit ''agenda_continuation'')) = lit ''required'' then Some (lit ''task_continuation_required'')
      else case later of
        Some t \<Rightarrow> if t \<le> now then Some (lit ''task_followup_due'') else None
      | None \<Rightarrow> if passed E now (dget task (lit ''due_at'')) then Some (lit ''task_due'') else Some (lit ''task_open_unobserved''))"

section \<open>Fingerprints\<close>

definition str_at :: "agenda_env \<Rightarrow> (pystr, json) dict \<Rightarrow> string \<Rightarrow> json" where
  "str_at E d k = JStr (text_of (ae_render E) (dget d (lit k)))"

definition fingerprint :: "agenda_env \<Rightarrow> string \<Rightarrow> (pystr, json) dict \<Rightarrow> pystr" where
  "fingerprint E label material = lit label @ take 24 (ae_sha E (ae_dumps E (JObj material)))"

definition source_version :: "agenda_env \<Rightarrow> (pystr, json) dict \<Rightarrow> pystr \<Rightarrow> pystr" where
  "source_version E item reason =
     (let waiting = as_dict (dget item (lit ''current_waiting'')) in
      fingerprint E ''state_''
        [(lit ''work_item_id'', str_at E item ''work_item_id''), (lit ''status'', str_at E item ''status''),
         (lit ''updated_at'', str_at E item ''updated_at''), (lit ''next_attention_at'', str_at E item ''next_attention_at''),
         (lit ''next_contact_after'', str_at E item ''next_contact_after''),
         (lit ''waiting_times'', JObj [(lit ''next_attention_at'', str_at E waiting ''next_attention_at''),
            (lit ''next_check_at'', str_at E waiting ''next_check_at''), (lit ''deadline_at'', str_at E waiting ''deadline_at'')]),
         (lit ''reason'', JStr reason)])"

definition task_source_version :: "agenda_env \<Rightarrow> (pystr, json) dict \<Rightarrow> pystr \<Rightarrow> pystr" where
  "task_source_version E task reason =
     (let followup = as_dict (dget task (lit ''agenda_followup'')); continuation = as_dict (dget task (lit ''agenda_continuation'')) in
      fingerprint E ''task_''
        [(lit ''agenda_contract_version'', JStr (lit ''8'')), (lit ''task_id'', str_at E task ''id''), (lit ''status'', str_at E task ''status''),
         (lit ''assignee_userid'', str_at E task ''assignee_userid''), (lit ''due_at'', str_at E task ''due_at''),
         (lit ''created_at'', str_at E task ''created_at''), (lit ''agenda_followup_state'', str_at E followup ''state''),
         (lit ''agenda_followup_at'', str_at E followup ''next_attention_at''), (lit ''agenda_followup_operation'', str_at E followup ''operation_id''),
         (lit ''agenda_followup_ticket'', str_at E followup ''ticket_id''), (lit ''agenda_continuation_state'', str_at E continuation ''state''),
         (lit ''agenda_continuation_ticket'', str_at E continuation ''ticket_id''),
         (lit ''agenda_continuation_required_at'', str_at E continuation ''required_at''), (lit ''reason'', JStr reason)])"

definition governance_event_id :: "agenda_env \<Rightarrow> (pystr, json) dict \<Rightarrow> pystr" where
  "governance_event_id E f =
     (case List.find (\<lambda>s. s \<noteq> []) (map (\<lambda>k. strip (text_of (ae_render E) (dget f k))) [lit ''claim_id'', lit ''handover_id'', lit ''attention_id'']) of
        None \<Rightarrow> []
      | Some v \<Rightarrow> (let target = strip (text_of (ae_render E) (dget f (lit ''target_relation_id''))) in
          v @ (if target = [] then [] else lit '':'' @ target)))"

definition governance_source_version :: "agenda_env \<Rightarrow> (pystr, json) dict \<Rightarrow> pystr" where
  "governance_source_version E f =
     fingerprint E ''governance_''
       [(lit ''agenda_contract_version'', JStr (lit ''1'')), (lit ''kind'', str_at E f ''kind''), (lit ''claim_id'', str_at E f ''claim_id''),
        (lit ''handover_id'', str_at E f ''handover_id''), (lit ''attention_id'', str_at E f ''attention_id''),
        (lit ''target_relation_id'', str_at E f ''target_relation_id''), (lit ''state'', str_at E f ''state''),
        (lit ''updated_at'', str_at E f ''updated_at''), (lit ''source_version'', str_at E f ''source_version'')]"

section \<open>Destinations\<close>

definition agenda_rejected :: "string \<Rightarrow> py_exn" where
  "agenda_rejected code = Runtime (Rejected (lit code))"

definition whitelist :: "workspace \<Rightarrow> string \<Rightarrow> py_exn + (pystr, json) dict" where
  "whitelist W code = sbind (read_doc (ws_directory W)) (\<lambda>v. case v of JObj d \<Rightarrow> Inr d | _ \<Rightarrow> Inl (agenda_rejected code))"

definition wecom_destination :: "agenda_env \<Rightarrow> pystr \<Rightarrow> reply_destination" where
  "wecom_destination E recipient =
     \<lparr>rd_tenant_id = ae_tenant E, rd_channel = lit ''wecom_callback'', rd_recipient_id = recipient,
      rd_source_identity = agenda_source E, rd_device_id = []\<rparr>"

definition boss_destination :: "agenda_env \<Rightarrow> workspace \<Rightarrow> py_exn + reply_destination" where
  "boss_destination E W = sbind (whitelist W ''agenda_owner_directory_invalid'') (\<lambda>d.
     sbind (texts_of (ae_render E) (dget d (lit ''super_users''))) (\<lambda>owners.
     sbind (texts_of (ae_render E) (dget d (lit ''allowed_users''))) (\<lambda>allowed.
       case owners of [owner] \<Rightarrow> if owner \<in> set allowed then Inr (wecom_destination E owner)
           else Inl (agenda_rejected ''agenda_owner_destination_not_unique'')
       | _ \<Rightarrow> Inl (agenda_rejected ''agenda_owner_destination_not_unique''))))"

fun offboarded_keys :: "(json \<Rightarrow> pystr) \<Rightarrow> json \<Rightarrow> pystr list" where
  "offboarded_keys render (JStr s) = [strip s]"
| "offboarded_keys render (JObj row) =
     map (\<lambda>k. strip (text_of render (dget row k))) [lit ''user_id'', lit ''userid'', lit ''canonical_user_id'', lit ''id'']"
| "offboarded_keys render _ = []"

definition offboarded_of :: "(json \<Rightarrow> pystr) \<Rightarrow> (pystr, json) dict \<Rightarrow> py_exn + pystr list" where
  "offboarded_of render d = sbind (py_iter (por (dget d (lit ''offboarded_users'')) (JList []))) (\<lambda>rows.
     Inr (concat (map (offboarded_keys render) rows)))"

text \<open>The conditions on a recipient, with the documents read in the order of the code.\<close>

definition current_contact :: "agenda_env \<Rightarrow> pystr \<Rightarrow> (pystr, json) dict \<Rightarrow> py_exn + bool" where
  "current_contact E who d =
     (let texts = (\<lambda>k. texts_of (ae_render E) (dget d (lit k))); contacts = as_dict (dget d (lit ''wecom_contacts''));
          roles = as_dict (dget d (lit ''user_roles'')) in
      sbind (texts ''allowed_users'') (\<lambda>allowed. sbind (texts ''pending_users'') (\<lambda>pending. sbind (texts ''rejected_users'') (\<lambda>rejected.
      sbind (offboarded_of (ae_render E) d) (\<lambda>offboarded. sbind (texts ''super_users'') (\<lambda>owners.
        let role = (if who \<in> set owners then lit ''boss'' else lower (strip (text_of (ae_render E) (dget roles who)))) in
        Inr (who \<noteq> [] \<and> who \<in> set allowed \<and> who \<in> set (map fst contacts) \<and> who \<notin> set pending \<and> who \<notin> set rejected
             \<and> who \<notin> set offboarded \<and> role \<in> set permitted_roles)))))))"

definition trusted_task_destination :: "agenda_env \<Rightarrow> workspace \<Rightarrow> pystr \<Rightarrow> py_exn + reply_destination" where
  "trusted_task_destination E W recipient_id =
     (let who = strip recipient_id in
      sbind (whitelist W ''agenda_recipient_directory_invalid'') (\<lambda>d. sbind (current_contact E who d) (\<lambda>current.
        if current then Inr (wecom_destination E who) else Inl (agenda_rejected ''agenda_task_recipient_not_current_trusted_contact''))))"

definition payload_of :: "agenda_env \<Rightarrow> pystr \<Rightarrow> payload_row list \<Rightarrow> py_exn + (pystr, json) dict" where
  "payload_of E ref rows = (case List.find (\<lambda>p. pl_payload_ref p = ref \<and> pl_tenant_id p = ae_tenant E) rows of
     None \<Rightarrow> Inl (agenda_rejected ''agenda_payload_reference_missing'')
   | Some p \<Rightarrow> (case pl_payload p of JObj d \<Rightarrow> Inr d | _ \<Rightarrow> Inl (agenda_rejected ''agenda_payload_invalid'')))"

definition destination_for :: "agenda_env \<Rightarrow> workspace \<Rightarrow> pystr \<Rightarrow> payload_row list \<Rightarrow> py_exn + reply_destination" where
  "destination_for E W ref rows = sbind (payload_of E ref rows) (\<lambda>d.
     let kind = text_of (ae_render E) (dget d (lit ''source_kind'')); recipient = strip (text_of (ae_render E) (dget d (lit ''recipient_user_id''))) in
     if kind = lit ''workspace_task'' then trusted_task_destination E W (text_of (ae_render E) (dget d (lit ''assignee_userid'')))
     else if kind = lit ''personnel_service_governance'' \<and> recipient \<noteq> [] then trusted_task_destination E W recipient
     else boss_destination E W)"

section \<open>Candidates\<close>

text \<open>One iteration of the three loops of \<open>scan_workspace\<close>, up to the point where they do the same.\<close>

record candidate =
  cd_kind :: pystr
  cd_event :: pystr
  cd_version :: pystr
  cd_payload_ref :: pystr
  cd_trace :: pystr
  cd_correlation :: pystr
  cd_payload :: "(pystr, json) dict"
  cd_skips :: bool
  cd_refused_event :: pystr
  cd_admitted_event :: pystr
  cd_admitted_detail :: "(pystr, json) dict"

definition trace_id :: "agenda_env \<Rightarrow> string \<Rightarrow> pystr \<Rightarrow> pystr \<Rightarrow> pystr" where
  "trace_id E label event version = lit label @ take 24 (ae_sha E (event @ version))"

definition item_candidate :: "agenda_env \<Rightarrow> timestamp \<Rightarrow> json \<Rightarrow> py_exn + candidate option" where
  "item_candidate E now raw = (case raw of JObj item \<Rightarrow>
     (case candidate_reason E now item of None \<Rightarrow> Inr None | Some reason \<Rightarrow>
       (let item_id = strip (text_of (ae_render E) (dget item (lit ''work_item_id''))); version = source_version E item reason in
        if item_id = [] then Inr None
        else Inr (Some \<lparr>cd_kind = lit ''workspace_work_item'', cd_event = item_id, cd_version = version,
          cd_payload_ref = lit ''agenda-work:'' @ item_id @ lit '':'' @ version,
          cd_trace = trace_id E ''agenda-scan:'' item_id version, cd_correlation = lit ''agenda-work-item:'' @ item_id,
          cd_payload = [(lit ''work_item_id'', JStr item_id), (lit ''status'', str_at E item ''status''), (lit ''wake_reason'', JStr reason),
            (lit ''next_attention_at'', str_at E item ''next_attention_at''), (lit ''next_contact_after'', str_at E item ''next_contact_after''),
            (lit ''source_version'', JStr version)],
          cd_skips = False, cd_refused_event = [], cd_admitted_event = lit ''work_fact_admitted'',
          cd_admitted_detail = [(lit ''reason'', JStr reason), (lit ''item_id'', JStr item_id)]\<rparr>)))
   | _ \<Rightarrow> Inr None)"

definition is_object :: "json \<Rightarrow> bool" where
  "is_object v = (case v of JObj d \<Rightarrow> True | _ \<Rightarrow> False)"

definition last_of :: "nat \<Rightarrow> 'a list \<Rightarrow> 'a list" where
  "last_of n xs = drop (length xs - n) xs"

definition task_payload :: "agenda_env \<Rightarrow> (pystr, json) dict \<Rightarrow> pystr \<Rightarrow> pystr \<Rightarrow> pystr \<Rightarrow> json list \<Rightarrow> (pystr, json) dict" where
  "task_payload E task task_id reason version contacts =
     [(lit ''source_kind'', JStr (lit ''workspace_task'')), (lit ''task_id'', JStr task_id),
      (lit ''title'', JStr (text_of (ae_render E) (por (dget task (lit ''title'')) (dget task (lit ''task_name''))))),
      (lit ''status'', JStr (py_str (ae_render E) (por (dget task (lit ''status'')) (JStr (lit ''pending''))))),
      (lit ''level'', str_at E task ''level''), (lit ''due_at'', str_at E task ''due_at''), (lit ''created_at'', str_at E task ''created_at''),
      (lit ''assignee_userid'', str_at E task ''assignee_userid''), (lit ''created_by'', str_at E task ''created_by''),
      (lit ''wake_reason'', JStr reason), (lit ''source_version'', JStr version),
      (lit ''agenda_followup'', JObj (as_dict (dget task (lit ''agenda_followup'')))),
      (lit ''agenda_continuation'', JObj (as_dict (dget task (lit ''agenda_continuation'')))),
      (lit ''agenda_contact_history'', JList (last_of 12 (filter is_object contacts)))]"

definition task_candidate :: "agenda_env \<Rightarrow> timestamp \<Rightarrow> json \<Rightarrow> py_exn + candidate option" where
  "task_candidate E now raw = (case raw of JObj task \<Rightarrow>
     (let task_id = strip (text_of (ae_render E) (dget task (lit ''id''))) in
      case task_candidate_reason E now task of None \<Rightarrow> Inr None | Some reason \<Rightarrow>
        if task_id = [] then Inr None
        else (let version = task_source_version E task reason in
          sbind (py_iter (por (dget task (lit ''agenda_contact_history'')) (JList []))) (\<lambda>contacts.
            Inr (Some \<lparr>cd_kind = lit ''workspace_task'', cd_event = task_id, cd_version = version,
              cd_payload_ref = lit ''agenda-task:'' @ task_id @ lit '':'' @ version,
              cd_trace = trace_id E ''agenda-task-scan:'' task_id version, cd_correlation = lit ''agenda-task:'' @ task_id,
              cd_payload = task_payload E task task_id reason version contacts, cd_skips = True,
              cd_refused_event = lit ''workspace_task_not_admitted'', cd_admitted_event = lit ''workspace_task_fact_admitted'',
              cd_admitted_detail = [(lit ''reason'', JStr reason), (lit ''task_id'', JStr task_id)]\<rparr>))))
   | _ \<Rightarrow> Inr None)"

definition governance_candidate :: "agenda_env \<Rightarrow> workspace \<Rightarrow> (pystr, json) dict \<Rightarrow> candidate option" where
  "governance_candidate E W f =
     (let event = governance_event_id E f; version = governance_source_version E f in
      if event = [] then None
      else Some \<lparr>cd_kind = lit ''personnel_service_governance'', cd_event = event, cd_version = version,
        cd_payload_ref = lit ''agenda-governance:'' @ event @ lit '':'' @ version,
        cd_trace = trace_id E ''agenda-governance-scan:'' event version, cd_correlation = lit ''agenda-governance:'' @ event,
        cd_payload = [(lit ''source_kind'', JStr (lit ''personnel_service_governance'')), (lit ''governance_fact_id'', JStr event),
          (lit ''kind'', str_at E f ''kind''), (lit ''claim_id'', str_at E f ''claim_id''), (lit ''handover_id'', str_at E f ''handover_id''),
          (lit ''attention_id'', str_at E f ''attention_id''), (lit ''target_relation_id'', str_at E f ''target_relation_id''),
          (lit ''state'', str_at E f ''state''), (lit ''recipient_user_id'', JStr (ws_recipient W f)), (lit ''source_version'', JStr version)],
        cd_skips = True, cd_refused_event = lit ''governance_fact_not_admitted'', cd_admitted_event = lit ''governance_fact_admitted'',
        cd_admitted_detail = [(lit ''kind'', str_at E f ''kind''), (lit ''fact_id'', JStr event)]\<rparr>)"

text \<open>The candidates of a scan, in the order of the loops; the work of a loop ends where reading a row fails.\<close>

definition candidates :: "agenda_env \<Rightarrow> workspace \<Rightarrow> timestamp \<Rightarrow> (py_exn + candidate option) list" where
  "candidates E W now = map (item_candidate E now) (ws_items W) @ map (task_candidate E now) (ws_tasks W)
     @ map (\<lambda>f. Inr (governance_candidate E W f)) (ws_governance W)"

section \<open>Admission\<close>

definition fact_of :: "agenda_env \<Rightarrow> timestamp \<Rightarrow> candidate \<Rightarrow> work_fact" where
  "fact_of E now c =
     \<lparr>wf_tenant_id = ae_tenant E, wf_source_kind = cd_kind c, wf_source_event_id = cd_event c, wf_source_version = cd_version c,
      wf_created_at = now, wf_payload_ref = cd_payload_ref c, wf_trusted_actor_ref = service_actor E, wf_trace_id = cd_trace c,
      wf_correlation_id = cd_correlation c, wf_source_attested = True\<rparr>"

definition work_session :: "agenda_env \<Rightarrow> work_fact \<Rightarrow> pystr" where
  "work_session E f = lit ''agenda-work:'' @ ae_tenant E @ lit '':'' @ wf_source_event_id f @ lit '':'' @ wf_source_version f"

definition agenda_binding :: "agenda_env \<Rightarrow> work_fact \<Rightarrow> reply_destination \<Rightarrow> trusted_work_binding" where
  "agenda_binding E f d =
     \<lparr>tb_work_id = work_id (ae_sha E) f, tb_tenant_id = ae_tenant E, tb_source_kind = wf_source_kind f,
      tb_source_event_id = wf_source_event_id f, tb_source_version = wf_source_version f, tb_payload_ref = wf_payload_ref f,
      tb_trusted_actor_ref = wf_trusted_actor_ref f, tb_source_identity = agenda_source E,
      tb_principal = \<lparr>tp_canonical_actor_id = service_actor E, tp_role = lit ''agenda_service'', tp_kind = lit ''service'', tp_active = True\<rparr>,
      tb_authenticated_session_id = work_session E f, tb_continuity_id = Some (work_session E f),
      tb_destination = d, tb_status = lit ''active''\<rparr>"

definition store_payload :: "agenda_env \<Rightarrow> timestamp \<Rightarrow> candidate \<Rightarrow> payload_row list \<Rightarrow> payload_row list" where
  "store_payload E now c rows = (case insert_row pl_payload_ref
       \<lparr>pl_payload_ref = cd_payload_ref c, pl_tenant_id = ae_tenant E, pl_work_item_id = cd_event c, pl_source_version = cd_version c,
        pl_payload = sort_keys (JObj (cd_payload c)), pl_observed_at = now\<rparr> rows of None \<Rightarrow> rows | Some rows' \<Rightarrow> rows')"

definition audit :: "pystr \<Rightarrow> pystr \<Rightarrow> pystr \<Rightarrow> (pystr, json) dict \<Rightarrow> agenda \<Rightarrow> agenda" where
  "audit event ticket wid detail s = s\<lparr>as_audit := as_audit s @ [\<lparr>au_event_type = event, au_ticket_id = ticket, au_work_id = wid, au_detail = JObj detail\<rparr>]\<rparr>"

definition attest_candidate :: "agenda_env \<Rightarrow> workspace \<Rightarrow> timestamp \<Rightarrow> work_fact \<Rightarrow> (agenda, py_exn, unit) op" where
  "attest_candidate E W clock f s = (case destination_for E W (wf_payload_ref f) (as_payloads s) of
     Inl e \<Rightarrow> (Inl e, s)
   | Inr d \<Rightarrow> (case attest (ae_sha E) clock f (agenda_binding E f d) (as_authority s) of
       (Inl e, au) \<Rightarrow> (Inl (Runtime e), s\<lparr>as_authority := au\<rparr>)
     | (Inr _, au) \<Rightarrow> (Inr (), s\<lparr>as_authority := au\<rparr>)))"

definition ingest_candidate :: "agenda_env \<Rightarrow> pystr \<Rightarrow> timestamp \<Rightarrow> timestamp \<Rightarrow> candidate \<Rightarrow> (agenda, py_exn, bool) op" where
  "ingest_candidate E uuid clock now c s =
     (case ingest (ae_sha E) (ae_cfg E) uuid clock now (fact_of E now c) (as_authority s, as_inbox s) of
        (Inl e, (au, ib)) \<Rightarrow> (Inl (Runtime e), s\<lparr>as_authority := au, as_inbox := ib\<rparr>)
      | (Inr (duplicate, wid, _), (au, ib)) \<Rightarrow> (let s' = s\<lparr>as_authority := au, as_inbox := ib\<rparr> in
          (Inr duplicate, if duplicate then s' else audit (cd_admitted_event c) [] wid (cd_admitted_detail c) s')))"

text \<open>\<open>except WorkRuntimeRejected\<close>.\<close>

definition is_rejected :: "py_exn \<Rightarrow> bool" where
  "is_rejected e = (case e of Runtime (Rejected _) \<Rightarrow> True | _ \<Rightarrow> False)"

record scan_counts =
  sc_observed :: nat
  sc_admitted :: nat
  sc_duplicates :: nat

definition admit :: "agenda_env \<Rightarrow> workspace \<Rightarrow> pystr \<Rightarrow> timestamp \<Rightarrow> timestamp \<Rightarrow> candidate \<Rightarrow> scan_counts \<Rightarrow> (agenda, py_exn, scan_counts) op" where
  "admit E W uuid clock now c k s =
     (let k1 = k\<lparr>sc_observed := sc_observed k + 1\<rparr>; s1 = s\<lparr>as_payloads := store_payload E now c (as_payloads s)\<rparr> in
      case attest_candidate E W clock (fact_of E now c) s1 of
        (Inl e, s2) \<Rightarrow> if cd_skips c \<and> is_rejected e
          then (Inr k1, audit (cd_refused_event c) [] (cd_event c) [(lit ''reason'', JStr (lit ''WorkRuntimeRejected''))] s2)
          else (Inl e, s2)
      | (Inr _, s2) \<Rightarrow> (case ingest_candidate E uuid clock now c s2 of
          (Inl e, s3) \<Rightarrow> (Inl e, s3)
        | (Inr duplicate, s3) \<Rightarrow>
            (Inr (if duplicate then k1\<lparr>sc_duplicates := sc_duplicates k + 1\<rparr> else k1\<lparr>sc_admitted := sc_admitted k + 1\<rparr>), s3)))"

fun scan_rows :: "agenda_env \<Rightarrow> workspace \<Rightarrow> (nat \<Rightarrow> pystr) \<Rightarrow> timestamp \<Rightarrow> timestamp \<Rightarrow> (py_exn + candidate option) list \<Rightarrow> scan_counts
    \<Rightarrow> (agenda, py_exn, scan_counts) op" where
  "scan_rows E W uuids clock now [] k s = (Inr k, s)"
| "scan_rows E W uuids clock now (Inl e # cs) k s = (Inl e, s)"
| "scan_rows E W uuids clock now (Inr None # cs) k s = scan_rows E W uuids clock now cs k s"
| "scan_rows E W uuids clock now (Inr (Some c) # cs) k s =
     (case admit E W (uuids (sc_observed k)) clock now c k s of
        (Inl e, s') \<Rightarrow> (Inl e, s') | (Inr k', s') \<Rightarrow> scan_rows E W uuids clock now cs k' s')"

definition scan_workspace :: "agenda_env \<Rightarrow> workspace \<Rightarrow> (nat \<Rightarrow> pystr) \<Rightarrow> timestamp \<Rightarrow> timestamp \<Rightarrow> (agenda, py_exn, scan_counts) op" where
  "scan_workspace E W uuids clock now = scan_rows E W uuids clock now (candidates E W now) \<lparr>sc_observed = 0, sc_admitted = 0, sc_duplicates = 0\<rparr>"

section \<open>A scan is a run of the registry and the inbox\<close>

definition asys :: "agenda \<Rightarrow> authority \<times> inbox" where
  "asys s = (as_authority s, as_inbox s)"

abbreviation agenda_step :: "agenda_env \<Rightarrow> inbox_cmd \<Rightarrow> authority \<times> inbox \<Rightarrow> authority \<times> inbox" where
  "agenda_step E \<equiv> inbox_step (ae_sha E) (ae_cfg E)"

text \<open>Rows are only added to the payloads, under new references.\<close>

definition payload_row_of :: "pystr \<Rightarrow> pystr \<Rightarrow> payload_row list \<Rightarrow> payload_row option" where
  "payload_row_of tenant ref rows = List.find (\<lambda>p. pl_payload_ref p = ref \<and> pl_tenant_id p = tenant) rows"

definition grows :: "payload_row list \<Rightarrow> payload_row list \<Rightarrow> bool" where
  "grows rows rows' \<longleftrightarrow> (\<forall>ref\<in>pl_payload_ref ` set rows. ref \<in> pl_payload_ref ` set rows'
     \<and> (\<forall>tenant. payload_row_of tenant ref rows' = payload_row_of tenant ref rows))"

lemma grows_refl [simp]: "grows rows rows"
  by (simp add: grows_def)

lemma grows_trans: "grows a b \<Longrightarrow> grows b c \<Longrightarrow> grows a c"
  unfolding grows_def by metis

definition runs :: "agenda_env \<Rightarrow> agenda \<Rightarrow> agenda \<Rightarrow> bool" where
  "runs E s s' \<longleftrightarrow> (\<exists>cmds. asys s' = fold (agenda_step E) cmds (asys s)) \<and> grows (as_payloads s) (as_payloads s')"

lemma runs_refl: "asys s' = asys s \<Longrightarrow> as_payloads s' = as_payloads s \<Longrightarrow> runs E s s'"
  unfolding runs_def by (rule conjI exI [of _ "[]"] | simp)+

lemma runs_trans: "runs E a b \<Longrightarrow> runs E b c \<Longrightarrow> runs E a c"
  unfolding runs_def by (metis comp_apply fold_append grows_trans)

lemma runs_step: "asys s' = agenda_step E c (asys s) \<Longrightarrow> as_payloads s' = as_payloads s \<Longrightarrow> runs E s s'"
  unfolding runs_def by (rule conjI exI [of _ "[c]"] | simp)+

lemma asys_simps [simp]:
  "asys (s\<lparr>as_payloads := p\<rparr>) = asys s" "asys (audit e t w d s) = asys s" "as_payloads (audit e t w d s) = as_payloads s"
  "as_inbox (audit e t w d s) = as_inbox s" "as_authority (audit e t w d s) = as_authority s"
  by (simp_all add: asys_def audit_def)

lemma store_payload_grows: "grows rows (store_payload E now c rows)"
  by (auto simp: store_payload_def insert_row_def grows_def payload_row_of_def find_append split: option.split)

lemma store_payload_ref: "cd_payload_ref c \<in> pl_payload_ref ` set (store_payload E now c rows)"
  by (auto simp: store_payload_def insert_row_def)

lemma attest_candidate_runs: "runs E s (snd (attest_candidate E W clock f s))"
proof (cases "destination_for E W (wf_payload_ref f) (as_payloads s)")
  case (Inl e)
  then show ?thesis by (simp add: attest_candidate_def runs_refl)
next
  case (Inr d)
  have "snd (attest_candidate E W clock f s) = s\<lparr>as_authority := snd (attest (ae_sha E) clock f (agenda_binding E f d) (as_authority s))\<rparr>"
    by (simp add: attest_candidate_def Inr case_prod_unfold split: sum.split)
  then show ?thesis
    by (intro runs_step [of _ E "Authority (Attest f (agenda_binding E f d) clock)"]) (simp_all add: asys_def)
qed

lemma ingest_candidate_asys:
  "asys (snd (ingest_candidate E uuid clock now c s)) = agenda_step E (Ingest uuid clock now (fact_of E now c)) (asys s)"
  "as_payloads (snd (ingest_candidate E uuid clock now c s)) = as_payloads s"
  by (auto simp: ingest_candidate_def asys_def audit_def Let_def split: sum.split prod.split)

lemma admit_runs: "runs E s (snd (admit E W uuid clock now c k s))"
proof -
  let ?s1 = "s\<lparr>as_payloads := store_payload E now c (as_payloads s)\<rparr>"
  let ?s2 = "snd (attest_candidate E W clock (fact_of E now c) ?s1)"
  let ?s3 = "snd (ingest_candidate E uuid clock now c ?s2)"
  have 1: "runs E s ?s1" unfolding runs_def by (rule conjI exI [of _ "[]"] | simp add: store_payload_grows)+
  have 2: "runs E s ?s2" using 1 attest_candidate_runs by (rule runs_trans)
  have 3: "runs E s ?s3" using 2 runs_step [OF ingest_candidate_asys] by (rule runs_trans)
  have 4: "runs E ?s2 (audit e t w d ?s2)" for e t w d by (rule runs_refl) simp_all
  show ?thesis using 2 3 runs_trans [OF 2 4]
    by (simp add: admit_def Let_def case_prod_unfold split: sum.split)
qed

lemma scan_rows_runs: "runs E s (snd (scan_rows E W uuids clock now cs k s))"
proof (induction cs arbitrary: k s)
  case Nil
  then show ?case by (simp add: runs_refl)
next
  case (Cons a cs)
  show ?case
  proof (cases a)
    case (Inl e)
    then show ?thesis by (simp add: runs_refl)
  next
    case (Inr o')
    show ?thesis
    proof (cases o')
      case None
      then show ?thesis using Cons.IH Inr by simp
    next
      case (Some c)
      have r: "runs E s (snd (admit E W (uuids (sc_observed k)) clock now c k s))" by (rule admit_runs)
      show ?thesis
        using r runs_trans [OF r Cons.IH] by (simp add: Inr Some case_prod_unfold split: sum.split)
    qed
  qed
qed

text \<open>
  What a scan leaves behind for a candidate that it could handle: its payload is stored, and the fact
  is either refused in the same way from now on or bound and in the inbox.
\<close>

definition base_fact :: "agenda_env \<Rightarrow> candidate \<Rightarrow> work_fact" where
  "base_fact E c = fact_of E 0 c"

definition binding_of :: "agenda_env \<Rightarrow> candidate \<Rightarrow> reply_destination \<Rightarrow> trusted_work_binding" where
  "binding_of E c d = agenda_binding E (base_fact E c) d"

definition candidate_id :: "agenda_env \<Rightarrow> candidate \<Rightarrow> pystr" where
  "candidate_id E c = work_id (ae_sha E) (base_fact E c)"

definition handled :: "agenda_env \<Rightarrow> workspace \<Rightarrow> candidate \<Rightarrow> agenda \<Rightarrow> bool" where
  "handled E W c s \<longleftrightarrow> cd_payload_ref c \<in> pl_payload_ref ` set (as_payloads s) \<and>
     (case destination_for E W (cd_payload_ref c) (as_payloads s) of
        Inl e \<Rightarrow> cd_skips c \<and> is_rejected e
      | Inr d \<Rightarrow> (case check_binding (ae_sha E) (base_fact E c) (binding_of E c d) of
          Some e \<Rightarrow> cd_skips c \<and> is_rejected (Runtime e)
        | None \<Rightarrow> (bound (as_authority s) (candidate_id E c) = Some (binding_of E c d) \<and> candidate_id E c \<in> work_ids (as_inbox s))
            \<or> (cd_skips c \<and> (\<exists>b. bound (as_authority s) (candidate_id E c) = Some b \<and> b \<noteq> binding_of E c d))))"

lemma work_id_clock: "work_id H (fact_of E now c) = work_id H (base_fact E c)"
  by (simp add: work_id_def base_fact_def fact_of_def)

lemma binding_clock: "agenda_binding E (fact_of E now c) d = binding_of E c d"
  by (simp add: binding_of_def agenda_binding_def work_session_def work_id_def base_fact_def fact_of_def)

lemma check_clock: "check_binding H (fact_of E now c) b = check_binding H (base_fact E c) b"
  by (simp add: check_binding_def validate_fact_def comparisons_def work_id_def base_fact_def fact_of_def)

lemmas clock_free = work_id_clock binding_clock check_clock

lemma destination_for_grows:
  assumes "grows rows rows'" "ref \<in> pl_payload_ref ` set rows"
  shows "destination_for E W ref rows' = destination_for E W ref rows"
proof -
  have "payload_row_of (ae_tenant E) ref rows' = payload_row_of (ae_tenant E) ref rows" using assms unfolding grows_def by blast
  then show ?thesis by (simp add: destination_for_def payload_of_def payload_row_of_def)
qed

lemma runs_inv: "runs E s s' \<Longrightarrow> system_inv (asys s) \<Longrightarrow> system_inv (asys s')"
  unfolding runs_def by (metis inbox.run_inv)

lemma runs_bound:
  assumes "runs E s s'" "system_inv (asys s)" "au_durable (as_authority s)" "bound (as_authority s) wid = Some b"
  shows "au_durable (as_authority s') \<and> bound (as_authority s') wid = Some b"
proof -
  have "au_durable (fst (fold (agenda_step E) cmds x)) \<and> bound (fst (fold (agenda_step E) cmds x)) wid = Some b"
    if "system_inv x" "au_durable (fst x)" "bound (fst x) wid = Some b" for cmds x
    using that by (induction cmds arbitrary: x) (simp_all add: step_bound inbox_step_inv)
  then show ?thesis using assms unfolding runs_def asys_def by (metis fst_conv)
qed

lemma runs_work_ids:
  assumes "runs E s s'" "system_inv (asys s)"
  shows "work_ids (as_inbox s) \<subseteq> work_ids (as_inbox s')"
proof -
  have "work_ids (snd x) \<subseteq> work_ids (snd (fold (agenda_step E) cmds x))" if "system_inv x" for cmds x
    using that by (induction cmds arbitrary: x) (simp_all, use step_work_ids inbox_step_inv in blast)
  then show ?thesis using assms unfolding runs_def asys_def by (metis snd_conv)
qed

lemma runs_handled:
  assumes "runs E s s'" "system_inv (asys s)" "au_durable (as_authority s)" "handled E W c s"
  shows "handled E W c s'"
proof -
  have g: "grows (as_payloads s) (as_payloads s')" using assms(1) by (simp add: runs_def)
  have r: "cd_payload_ref c \<in> pl_payload_ref ` set (as_payloads s)" using assms(4) by (simp add: handled_def)
  have d: "destination_for E W (cd_payload_ref c) (as_payloads s') = destination_for E W (cd_payload_ref c) (as_payloads s)"
    using g r by (rule destination_for_grows)
  have b: "bound (as_authority s) (candidate_id E c) = Some b \<Longrightarrow> bound (as_authority s') (candidate_id E c) = Some b" for b
    using runs_bound [OF assms(1-3)] by blast
  have w: "work_ids (as_inbox s) \<subseteq> work_ids (as_inbox s')" using assms(1,2) by (rule runs_work_ids)
  have "cd_payload_ref c \<in> pl_payload_ref ` set (as_payloads s')" using g r unfolding grows_def by blast
  then show ?thesis using assms(4) b w unfolding handled_def d by (auto split: sum.splits option.splits)
qed

text \<open>What \<open>attest_candidate\<close> answers, in terms of the registry before.\<close>

lemma attest_candidate_ok:
  assumes "authority_inv (as_authority s)" "fst (attest_candidate E W clock (fact_of E now c) s) = Inr ()"
  shows "\<exists>d. destination_for E W (cd_payload_ref c) (as_payloads s) = Inr d
    \<and> check_binding (ae_sha E) (base_fact E c) (binding_of E c d) = None
    \<and> bound (as_authority (snd (attest_candidate E W clock (fact_of E now c) s))) (candidate_id E c) = Some (binding_of E c d)"
proof -
  have ref: "wf_payload_ref (fact_of E now c) = cd_payload_ref c" by (simp add: fact_of_def)
  obtain d where d: "destination_for E W (cd_payload_ref c) (as_payloads s) = Inr d"
    using assms(2) by (cases "destination_for E W (cd_payload_ref c) (as_payloads s)") (simp_all add: attest_candidate_def ref)
  let ?a = "attest (ae_sha E) clock (fact_of E now c) (binding_of E c d) (as_authority s)"
  have e: "attest_candidate E W clock (fact_of E now c) s
      = (case ?a of (Inl e, au) \<Rightarrow> (Inl (Runtime e), s\<lparr>as_authority := au\<rparr>) | (Inr _, au) \<Rightarrow> (Inr (), s\<lparr>as_authority := au\<rparr>))"
    by (simp add: attest_candidate_def ref d binding_clock)
  have ok: "fst ?a = Inr ()" using assms(2) unfolding e by (auto simp: case_prod_unfold split: sum.splits)
  then have "snd (attest_candidate E W clock (fact_of E now c) s) = s\<lparr>as_authority := snd ?a\<rparr>"
    unfolding e by (simp add: case_prod_unfold)
  moreover have "bound (snd ?a) (candidate_id E c) = Some (binding_of E c d)"
    using attest_bound [OF assms(1)] ok by (simp add: candidate_id_def work_id_clock)
  ultimately show ?thesis using d ok assms(1) by (simp add: attest_ok_iff clock_free)
qed

lemma attest_candidate_refused:
  assumes "authority_inv (as_authority s)" "fst (attest_candidate E W clock (fact_of E now c) s) = Inl e"
    "cd_skips c" "is_rejected e" "cd_payload_ref c \<in> pl_payload_ref ` set (as_payloads s)"
  shows "handled E W c s"
proof -
  have ref: "wf_payload_ref (fact_of E now c) = cd_payload_ref c" by (simp add: fact_of_def)
  show ?thesis
  proof (cases "destination_for E W (cd_payload_ref c) (as_payloads s)")
    case (Inl e')
    then show ?thesis using assms by (simp add: handled_def attest_candidate_def ref)
  next
    case (Inr d)
    let ?a = "attest (ae_sha E) clock (fact_of E now c) (binding_of E c d) (as_authority s)"
    have a: "fst ?a = Inl (case e of Runtime x \<Rightarrow> x)" "e = Runtime (case e of Runtime x \<Rightarrow> x)"
      using assms(2) by (auto simp: attest_candidate_def ref Inr binding_clock case_prod_unfold split: sum.splits)
    show ?thesis
    proof (rule attest_cases [OF assms(1), of "ae_sha E" "fact_of E now c" "binding_of E c d" clock])
      fix x assume "check_binding (ae_sha E) (fact_of E now c) (binding_of E c d) = Some x" "?a = (Inl x, as_authority s)"
      then show ?thesis using a assms(3-5) by (simp add: handled_def Inr check_clock)
    next
      fix b' assume "check_binding (ae_sha E) (fact_of E now c) (binding_of E c d) = None"
        "bound (as_authority s) (work_id (ae_sha E) (fact_of E now c)) = Some b'" "b' \<noteq> binding_of E c d"
      then show ?thesis using assms(3,5) by (auto simp: handled_def Inr check_clock work_id_clock candidate_id_def)
    next
      assume "fst ?a = Inr ()"
      then show ?thesis using a(1) by simp
    qed
  qed
qed

lemma candidate_id_clock: "work_id (ae_sha E) (fact_of E now c) = candidate_id E c"
  by (simp add: candidate_id_def work_id_clock)

lemma ingest_candidate_known:
  assumes "system_inv (asys s)" "fst (ingest_candidate E uuid clock now c s) = Inr dup"
  shows "candidate_id E c \<in> work_ids (as_inbox (snd (ingest_candidate E uuid clock now c s)))"
proof -
  let ?g = "ingest (ae_sha E) (ae_cfg E) uuid clock now (fact_of E now c) (as_authority s, as_inbox s)"
  obtain r where r: "fst ?g = Inr r" using assms(2) by (cases "fst ?g") (auto simp: ingest_candidate_def case_prod_unfold)
  have "work_id (ae_sha E) (fact_of E now c) \<in> work_ids (snd (snd ?g))"
    using ingest_accepted [of "(as_authority s, as_inbox s)" "ae_sha E" "ae_cfg E" uuid clock now "fact_of E now c"
        "fst r" "fst (snd r)" "snd (snd r)" "snd ?g"] assms(1) r by (auto simp: system_inv_def asys_def prod_eq_iff)
  moreover have "as_inbox (snd (ingest_candidate E uuid clock now c s)) = snd (snd ?g)"
    using ingest_candidate_asys(1) [of E uuid clock now c s] by (simp add: asys_def prod_eq_iff)
  ultimately show ?thesis by (simp add: candidate_id_clock)
qed

lemma admit_handles:
  assumes inv: "system_inv (asys s)" "au_durable (as_authority s)" and ok: "fst (admit E W uuid clock now c k s) = Inr k'"
  shows "handled E W c (snd (admit E W uuid clock now c k s))"
proof -
  let ?s1 = "s\<lparr>as_payloads := store_payload E now c (as_payloads s)\<rparr>"
  let ?a = "attest_candidate E W clock (fact_of E now c) ?s1"
  have i1: "system_inv (asys ?s1)" "au_durable (as_authority ?s1)" "authority_inv (as_authority ?s1)"
    using inv by (simp_all add: system_inv_def asys_def)
  have ref: "cd_payload_ref c \<in> pl_payload_ref ` set (as_payloads ?s1)" using store_payload_ref by simp
  have r12: "runs E ?s1 (snd ?a)" by (rule attest_candidate_runs)
  have i2: "system_inv (asys (snd ?a))" using r12 i1(1) by (rule runs_inv)
  show ?thesis
  proof (cases "fst ?a")
    case (Inl e)
    have e: "cd_skips c" "is_rejected e"
      using ok Inl by (auto simp: admit_def Let_def case_prod_unfold split: if_splits)
    have "snd (admit E W uuid clock now c k s) = audit (cd_refused_event c) [] (cd_event c) [(lit ''reason'', JStr (lit ''WorkRuntimeRejected''))] (snd ?a)"
      using Inl e by (simp add: admit_def Let_def case_prod_unfold)
    then have "runs E ?s1 (snd (admit E W uuid clock now c k s))" using runs_trans [OF r12 runs_refl] by simp
    then show ?thesis by (rule runs_handled [OF _ i1(1,2) attest_candidate_refused [OF i1(3) Inl e ref]])
  next
    case (Inr u)
    then obtain d where d: "destination_for E W (cd_payload_ref c) (as_payloads ?s1) = Inr d"
        "check_binding (ae_sha E) (base_fact E c) (binding_of E c d) = None"
        "bound (as_authority (snd ?a)) (candidate_id E c) = Some (binding_of E c d)"
      using attest_candidate_ok [OF i1(3), of E W clock now c] by auto
    let ?i = "ingest_candidate E uuid clock now c (snd ?a)"
    have s3: "snd (admit E W uuid clock now c k s) = snd ?i"
      using Inr by (simp add: admit_def Let_def case_prod_unfold split: sum.split)
    have r23: "runs E (snd ?a) (snd ?i)" using ingest_candidate_asys by (rule runs_step)
    obtain dup where dup: "fst ?i = Inr dup"
      using ok Inr by (cases "fst ?i") (auto simp: admit_def Let_def case_prod_unfold)
    have du: "au_durable (as_authority (snd ?a))"
      using i1(2) by (auto simp: attest_candidate_def case_prod_unfold split: sum.split)
    have b: "bound (as_authority (snd ?i)) (candidate_id E c) = Some (binding_of E c d)"
      using runs_bound [OF r23 i2 du d(3)] by simp
    have g: "grows (as_payloads ?s1) (as_payloads (snd ?i))" using runs_trans [OF r12 r23] by (simp add: runs_def)
    have ref3: "cd_payload_ref c \<in> pl_payload_ref ` set (as_payloads (snd ?i))" using g ref unfolding grows_def by blast
    show ?thesis unfolding s3 handled_def destination_for_grows [OF g ref]
      using ref3 d(1,2) b ingest_candidate_known [OF i2 dup] by simp
  qed
qed

text \<open>Admitting a handled candidate again changes neither the inbox nor the payloads.\<close>

lemma attest_again:
  assumes au: "authority_inv (as_authority s)" and h: "handled E W c s"
  shows "(\<exists>e. fst (attest_candidate E W clock (fact_of E now c) s) = Inl e \<and> cd_skips c \<and> is_rejected e)
    \<or> (\<exists>d. fst (attest_candidate E W clock (fact_of E now c) s) = Inr () \<and> check_binding (ae_sha E) (base_fact E c) (binding_of E c d) = None
        \<and> bound (as_authority (snd (attest_candidate E W clock (fact_of E now c) s))) (candidate_id E c) = Some (binding_of E c d)
        \<and> candidate_id E c \<in> work_ids (as_inbox s))"
proof -
  have ref: "wf_payload_ref (fact_of E now c) = cd_payload_ref c" by (simp add: fact_of_def)
  show ?thesis
  proof (cases "destination_for E W (cd_payload_ref c) (as_payloads s)")
    case (Inl e)
    then show ?thesis using h by (simp add: handled_def attest_candidate_def ref)
  next
    case (Inr d)
    let ?a = "attest (ae_sha E) clock (fact_of E now c) (binding_of E c d) (as_authority s)"
    have e: "fst (attest_candidate E W clock (fact_of E now c) s) = (case fst ?a of Inl e \<Rightarrow> Inl (Runtime e) | Inr _ \<Rightarrow> Inr ())"
      "as_authority (snd (attest_candidate E W clock (fact_of E now c) s)) = snd ?a"
      by (simp_all add: attest_candidate_def ref Inr binding_clock case_prod_unfold split: sum.split)
    show ?thesis
    proof (rule attest_cases [OF au, of "ae_sha E" "fact_of E now c" "binding_of E c d" clock])
      fix x assume x: "check_binding (ae_sha E) (fact_of E now c) (binding_of E c d) = Some x" "?a = (Inl x, as_authority s)"
      then have "cd_skips c \<and> is_rejected (Runtime x)" using h by (simp add: handled_def Inr check_clock)
      then show ?thesis unfolding e x(2) by simp
    next
      fix b' assume b: "check_binding (ae_sha E) (fact_of E now c) (binding_of E c d) = None"
        "bound (as_authority s) (work_id (ae_sha E) (fact_of E now c)) = Some b'" "b' \<noteq> binding_of E c d" "fst ?a = Inl binding_conflict"
      then have "cd_skips c" using h by (auto simp: handled_def Inr check_clock candidate_id_clock)
      then show ?thesis unfolding e b(4) by (simp add: is_rejected_def binding_conflict_def)
    next
      assume b: "check_binding (ae_sha E) (fact_of E now c) (binding_of E c d) = None"
        "bound (as_authority s) (work_id (ae_sha E) (fact_of E now c)) \<in> {None, Some (binding_of E c d)}" "fst ?a = Inr ()"
        "\<forall>x. bound (snd ?a) x = (if x = work_id (ae_sha E) (fact_of E now c) then Some (binding_of E c d) else bound (as_authority s) x)"
      have "candidate_id E c \<in> work_ids (as_inbox s)"
        using h b(1,2) by (auto simp: handled_def Inr check_clock candidate_id_clock)
      then show ?thesis using b unfolding e by (intro disjI2 exI [of _ d]) (simp add: check_clock candidate_id_clock)
    qed
  qed
qed

lemma admit_again:
  assumes inv: "system_inv (asys s)" and h: "handled E W c s"
  shows "\<exists>k' s'. admit E W uuid clock now c k s = (Inr k', s') \<and> sc_admitted k' = sc_admitted k
    \<and> as_inbox s' = as_inbox s \<and> as_payloads s' = as_payloads s"
proof -
  let ?a = "attest_candidate E W clock (fact_of E now c) s"
  have au: "authority_inv (as_authority s)" using inv by (simp add: system_inv_def asys_def)
  have s1: "s\<lparr>as_payloads := store_payload E now c (as_payloads s)\<rparr> = s"
    using h by (simp add: handled_def store_payload_def insert_row_def)
  have same: "as_inbox (snd ?a) = as_inbox s" "as_payloads (snd ?a) = as_payloads s"
    by (auto simp: attest_candidate_def case_prod_unfold split: sum.split)
  from attest_again [OF au h, of clock now] show ?thesis
  proof (elim disjE exE conjE)
    fix e assume "fst ?a = Inl e" "cd_skips c" "is_rejected e"
    then show ?thesis using same by (auto simp: admit_def s1 case_prod_unfold Let_def)
  next
    fix d assume d: "fst ?a = Inr ()" "check_binding (ae_sha E) (base_fact E c) (binding_of E c d) = None"
      "bound (as_authority (snd ?a)) (candidate_id E c) = Some (binding_of E c d)" "candidate_id E c \<in> work_ids (as_inbox s)"
    have "system_inv (asys (snd ?a))" using attest_candidate_runs inv by (rule runs_inv)
    then obtain q au' where "ingest (ae_sha E) (ae_cfg E) uuid clock now (fact_of E now c) (as_authority (snd ?a), as_inbox s)
        = (Inr (True, q), (au', as_inbox s))"
      using ingest_known_fact [of "(as_authority (snd ?a), as_inbox s)" "ae_sha E" "fact_of E now c" "binding_of E c d" "ae_cfg E" uuid clock now] d
      by (auto simp: system_inv_def asys_def check_clock candidate_id_clock)
    then have "ingest_candidate E uuid clock now c (snd ?a) = (Inr True, (snd ?a)\<lparr>as_authority := au', as_inbox := as_inbox s\<rparr>)"
      by (simp add: ingest_candidate_def same case_prod_unfold)
    then show ?thesis using d(1) same by (simp add: admit_def s1 case_prod_unfold Let_def)
  qed
qed

text \<open>The candidates of a list that a scan looked at.\<close>

lemma runs_durable:
  assumes "runs E s s'" "system_inv (asys s)"
  shows "au_durable (as_authority s') = au_durable (as_authority s)"
proof -
  have "au_durable (fst (fold (agenda_step E) cmds x)) = au_durable (fst x)" if "system_inv x" for cmds x
    using that by (induction cmds arbitrary: x) (simp_all add: step_durable inbox_step_inv)
  then show ?thesis using assms unfolding runs_def asys_def by (metis fst_conv)
qed

lemma scan_rows_handles:
  assumes "system_inv (asys s)" "au_durable (as_authority s)" "fst (scan_rows E W uuids clock now cs k s) = Inr k'" "Inr (Some c) \<in> set cs"
  shows "handled E W c (snd (scan_rows E W uuids clock now cs k s))"
  using assms
proof (induction cs arbitrary: k s)
  case (Cons a cs)
  obtain o' where a: "a = Inr o'" using Cons.prems(3) by (cases a) simp_all
  show ?case
  proof (cases o')
    case None
    then show ?thesis using Cons by (simp add: a)
  next
    case (Some x)
    let ?m = "admit E W (uuids (sc_observed k)) clock now x k s"
    obtain k1 where k1: "fst ?m = Inr k1" using Cons.prems(3) by (cases "fst ?m") (simp_all add: a Some case_prod_unfold)
    then have e: "scan_rows E W uuids clock now (a # cs) k s = scan_rows E W uuids clock now cs k1 (snd ?m)"
      by (simp add: a Some case_prod_unfold)
    have r: "runs E s (snd ?m)" by (rule admit_runs)
    have i: "system_inv (asys (snd ?m))" "au_durable (as_authority (snd ?m))"
      using runs_inv [OF r] runs_durable [OF r] Cons.prems(1,2) by simp_all
    show ?thesis
    proof (cases "c = x")
      case True
      have "handled E W c (snd ?m)" unfolding True by (rule admit_handles [OF Cons.prems(1,2) k1])
      then show ?thesis unfolding e by (rule runs_handled [OF scan_rows_runs i])
    next
      case False
      then show ?thesis using Cons.IH [OF i] Cons.prems(3,4) unfolding e by (simp add: a Some)
    qed
  qed
qed simp

lemma scan_rows_again:
  assumes "system_inv (asys s)" "au_durable (as_authority s)" "\<forall>c. Inr (Some c) \<in> set cs \<longrightarrow> handled E W c s" "\<forall>e. Inl e \<notin> set cs"
  shows "\<exists>k' s'. scan_rows E W uuids clock now cs k s = (Inr k', s') \<and> sc_admitted k' = sc_admitted k
    \<and> as_inbox s' = as_inbox s \<and> as_payloads s' = as_payloads s"
  using assms
proof (induction cs arbitrary: k s)
  case (Cons a cs)
  obtain o' where a: "a = Inr o'" using Cons.prems(4) by (cases a) auto
  show ?case
  proof (cases o')
    case None
    then show ?thesis using Cons by (simp add: a)
  next
    case (Some x)
    obtain k1 s1 where m: "admit E W (uuids (sc_observed k)) clock now x k s = (Inr k1, s1)" "sc_admitted k1 = sc_admitted k"
        "as_inbox s1 = as_inbox s" "as_payloads s1 = as_payloads s"
      using admit_again [OF Cons.prems(1)] Cons.prems(3) a Some by (metis list.set_intros(1))
    have r: "runs E s s1" using admit_runs [of E s W "uuids (sc_observed k)" clock now x k] by (simp add: m(1))
    have i: "system_inv (asys s1)" "au_durable (as_authority s1)"
      using runs_inv [OF r] runs_durable [OF r] Cons.prems(1,2) by simp_all
    have "\<forall>c. Inr (Some c) \<in> set cs \<longrightarrow> handled E W c s1"
      using runs_handled [OF r Cons.prems(1,2)] Cons.prems(3) by simp
    then show ?thesis using Cons.IH [OF i, of k1] Cons.prems(4) m by (simp add: a Some)
  qed
qed simp

lemma scan_rows_no_error: "fst (scan_rows E W uuids clock now cs k s) = Inr k' \<Longrightarrow> Inl e \<notin> set cs"
proof (induction cs arbitrary: k s)
  case (Cons a cs)
  show ?case
  proof (cases a)
    case (Inr o')
    then show ?thesis using Cons
      by (cases o') (auto simp: case_prod_unfold split: sum.splits)
  qed (use Cons in simp)
qed simp

text \<open>A scan raises when it meets a work item whose destination changed.\<close>

lemma admit_changed_destination:
  assumes inv: "system_inv (asys s)" and h: "handled E W c s" "\<not> cd_skips c"
    and d: "destination_for E W (cd_payload_ref c) (as_payloads s) \<noteq> destination_for E W' (cd_payload_ref c) (as_payloads s)"
  shows "\<exists>e. fst (admit E W' uuid clock now c k s) = Inl e"
proof -
  let ?a = "attest_candidate E W' clock (fact_of E now c) s"
  have au: "authority_inv (as_authority s)" using inv by (simp add: system_inv_def asys_def)
  have s1: "s\<lparr>as_payloads := store_payload E now c (as_payloads s)\<rparr> = s"
    using h(1) by (simp add: handled_def store_payload_def insert_row_def)
  obtain d0 where d0: "destination_for E W (cd_payload_ref c) (as_payloads s) = Inr d0"
      "bound (as_authority s) (candidate_id E c) = Some (binding_of E c d0)"
    using h by (auto simp: handled_def split: sum.splits option.splits)
  have "fst ?a \<noteq> Inr ()"
  proof
    assume ok: "fst ?a = Inr ()"
    then obtain d1 where d1: "destination_for E W' (cd_payload_ref c) (as_payloads s) = Inr d1"
      by (auto simp: attest_candidate_def fact_of_def split: sum.splits)
    then have "fst (attest (ae_sha E) clock (fact_of E now c) (binding_of E c d1) (as_authority s)) = Inr ()"
      using ok by (auto simp: attest_candidate_def fact_of_def binding_clock [unfolded fact_of_def] case_prod_unfold split: sum.splits)
    then have "binding_of E c d1 = binding_of E c d0" using attest_ok_iff [OF au] d0(2) by (simp add: candidate_id_clock)
    then have "d1 = d0" by (simp add: binding_of_def agenda_binding_def)
    then show False using d d0(1) d1 by simp
  qed
  then obtain e where "fst ?a = Inl e" by (cases "fst ?a") auto
  then show ?thesis using h(2) by (simp add: admit_def s1 Let_def case_prod_unfold)
qed

lemma scan_rows_changed_destination:
  assumes "system_inv (asys s)" "au_durable (as_authority s)" "Inr (Some c) \<in> set cs" "handled E W c s" "\<not> cd_skips c"
    "destination_for E W (cd_payload_ref c) (as_payloads s) \<noteq> destination_for E W' (cd_payload_ref c) (as_payloads s)"
  shows "\<exists>e. fst (scan_rows E W' uuids clock now cs k s) = Inl e"
  using assms
proof (induction cs arbitrary: k s)
  case (Cons a cs)
  show ?case
  proof (cases a)
    case (Inr o')
    show ?thesis
    proof (cases o')
      case None
      then show ?thesis using Cons Inr by simp
    next
      case (Some x)
      let ?m = "admit E W' (uuids (sc_observed k)) clock now x k s"
      have r: "runs E s (snd ?m)" by (rule admit_runs)
      have i: "system_inv (asys (snd ?m))" "au_durable (as_authority (snd ?m))" "handled E W c (snd ?m)"
        using runs_inv [OF r] runs_durable [OF r] runs_handled [OF r Cons.prems(1,2,4)] Cons.prems(1,2) by simp_all
      have g: "grows (as_payloads s) (as_payloads (snd ?m))" using r by (simp add: runs_def)
      have ref: "cd_payload_ref c \<in> pl_payload_ref ` set (as_payloads s)" using Cons.prems(4) by (simp add: handled_def)
      note dest = destination_for_grows [OF g ref]
      show ?thesis
      proof (cases "fst ?m")
        case (Inl e)
        then show ?thesis by (simp add: Inr Some case_prod_unfold)
      next
        case m: (Inr k1)
        have "c \<noteq> x"
          using admit_changed_destination [OF Cons.prems(1,4,5,6), of "uuids (sc_observed k)" clock now k] m by auto
        then have "Inr (Some c) \<in> set cs" using Cons.prems(3) by (simp add: Inr Some)
        then show ?thesis using Cons.IH [OF i(1,2) _ i(3) Cons.prems(5), of k1] Cons.prems(6)
          by (simp add: dest Inr Some m case_prod_unfold)
      qed
    qed
  qed simp
qed simp

section \<open>A sample scan\<close>

definition sample_agenda_env :: agenda_env where
  "sample_agenda_env = \<lparr>ae_render = (\<lambda>_. []), ae_sha = (\<lambda>s. s), ae_dumps = (\<lambda>_. lit ''d''), ae_iso = (\<lambda>_. Some 0), ae_tenant = lit ''t'', ae_cfg = sample_cfg\<rparr>"

lemma sample_env_columns: "ae_sha sample_agenda_env = (\<lambda>s. s)" "ae_cfg sample_agenda_env = sample_cfg" "ae_tenant sample_agenda_env = lit ''t''"
  by (simp_all add: sample_agenda_env_def)

definition sample_workspace :: "string \<Rightarrow> workspace" where
  "sample_workspace owner = \<lparr>ws_items = [JObj [(lit ''work_item_id'', JStr (lit ''w'')), (lit ''status'', JStr (lit ''active'')), (lit ''next_attention_at'', JStr (lit ''x''))]],
     ws_tasks = [], ws_governance = [], ws_recipient = (\<lambda>_. []),
     ws_directory = Some (JObj [(lit ''super_users'', JList [JStr (lit owner)]), (lit ''allowed_users'', JList [JStr (lit owner)])])\<rparr>"

definition new_agenda :: agenda where
  "new_agenda = \<lparr>as_payloads = [], as_audit = [], as_authority = fst new_system, as_inbox = snd new_system\<rparr>"

definition sample_candidate :: candidate where
  "sample_candidate = (case item_candidate sample_agenda_env 1 (hd (ws_items (sample_workspace ''a''))) of Inr (Some c) \<Rightarrow> c)"

lemma sample_item: "candidates sample_agenda_env (sample_workspace owner) 1 = [Inr (Some sample_candidate)]"
proof -
  have "strip (lit ''w'') = lit ''w''" "strip (lit ''active'') = lit ''active''" "strip (lit ''x'') = lit ''x''"
    by (simp_all add: strip_def lit_def is_space_def)
  then show ?thesis
    by (simp add: sample_candidate_def candidates_def sample_workspace_def item_candidate_def candidate_reason_def passed_def parse_time_def
        text_of_def por_def dget_def sample_agenda_env_def Let_def)
qed

lemma sample_columns: "cd_skips sample_candidate = False" "cd_kind sample_candidate = lit ''workspace_work_item''" "cd_event sample_candidate = lit ''w''"
  "\<not> blank (cd_version sample_candidate)" "\<not> blank (cd_payload_ref sample_candidate)" "\<not> blank (cd_trace sample_candidate)"
  "\<not> blank (cd_correlation sample_candidate)" "lit ''source_kind'' \<notin> fst ` set (cd_payload sample_candidate)"
proof -
  have w: "strip (lit ''w'') = lit ''w''" "strip (lit ''active'') = lit ''active''" "strip (lit ''x'') = lit ''x''"
    by (simp_all add: strip_def lit_def is_space_def)
  obtain v where v: "\<not> blank v" "sample_candidate = \<lparr>cd_kind = lit ''workspace_work_item'', cd_event = lit ''w'', cd_version = v,
      cd_payload_ref = lit ''agenda-work:'' @ lit ''w'' @ lit '':'' @ v, cd_trace = trace_id sample_agenda_env ''agenda-scan:'' (lit ''w'') v,
      cd_correlation = lit ''agenda-work-item:'' @ lit ''w'',
      cd_payload = [(lit ''work_item_id'', JStr (lit ''w'')), (lit ''status'', JStr (lit ''active'')), (lit ''wake_reason'', JStr (lit ''attention_due'')),
        (lit ''next_attention_at'', JStr (lit ''x'')), (lit ''next_contact_after'', JStr []), (lit ''source_version'', JStr v)],
      cd_skips = False, cd_refused_event = [], cd_admitted_event = lit ''work_fact_admitted'',
      cd_admitted_detail = [(lit ''reason'', JStr (lit ''attention_due'')), (lit ''item_id'', JStr (lit ''w''))]\<rparr>"
    by (simp add: w sample_candidate_def sample_workspace_def item_candidate_def candidate_reason_def passed_def parse_time_def source_version_def
        fingerprint_def str_at_def text_of_def por_def dget_def sample_agenda_env_def Let_def)
      (simp add: blank_def strip_eq_Nil lit_def is_space_def)
  show "cd_skips sample_candidate = False" "cd_kind sample_candidate = lit ''workspace_work_item''" "cd_event sample_candidate = lit ''w''"
    "\<not> blank (cd_version sample_candidate)" "lit ''source_kind'' \<notin> fst ` set (cd_payload sample_candidate)"
    by (simp_all add: v)
  show "\<not> blank (cd_payload_ref sample_candidate)" "\<not> blank (cd_trace sample_candidate)" "\<not> blank (cd_correlation sample_candidate)"
    by (simp_all add: v trace_id_def blank_def strip_eq_Nil) (simp_all add: lit_def is_space_def)
qed

lemma sample_owner: "boss_destination sample_agenda_env (sample_workspace [c]) = (if is_space (of_char c) then
     Inl (agenda_rejected ''agenda_owner_destination_not_unique'') else Inr (wecom_destination sample_agenda_env (lit [c])))"
proof -
  have "strip (lit [c]) = (if is_space (of_char c) then [] else lit [c])" by (simp add: strip_def lit_def)
  then show ?thesis
    by (simp add: boss_destination_def whitelist_def sample_workspace_def read_doc_def texts_of_def por_def dget_def sample_agenda_env_def)
qed

lemma sample_destination_for:
  assumes "cd_payload_ref sample_candidate = pl_payload_ref p" "pl_tenant_id p = lit ''t''" "pl_payload p = sort_keys (JObj (cd_payload sample_candidate))"
  shows "destination_for sample_agenda_env W (cd_payload_ref sample_candidate) [p] = boss_destination sample_agenda_env W"
proof -
  have "map_of (sort_key fst (map (map_prod id sort_keys) (cd_payload sample_candidate))) (lit ''source_kind'') = None"
    using sample_columns(8) by (simp add: map_of_eq_None_iff image_image)
  then show ?thesis using assms
    by (simp add: destination_for_def payload_of_def sample_agenda_env_def dget_def text_of_def por_def Let_def)
qed

lemma ingest_into_empty:
  assumes "authority_inv au" "check_binding H f b = None" "bound au (work_id H f) = Some b"
  shows "\<exists>s1. ingest H cfg uuid clock now f (au, snd new_system) = (Inr (False, work_id H f, partition_of H b), s1)"
proof -
  have "fst (binding_for H clock f au) = Inr b" using assms by (rule binding_for_bound)
  then have "fst (partition_for H clock f au) = Inr (partition_of H b)" by (simp add: partition_for_def case_prod_unfold)
  then show ?thesis
    by (auto simp: ingest_def case_prod_unfold transaction_def ingest_body_def new_system_def Let_def insert_row_def ensure_batch_def)
qed

lemma sample_checked_binding: "check_binding (\<lambda>s. s) (fact_of sample_agenda_env now sample_candidate)
    (agenda_binding sample_agenda_env (fact_of sample_agenda_env now sample_candidate) (wecom_destination sample_agenda_env owner)) = None"
proof -
  have "\<not> blank (lit ''service:agenda:'' @ x)" "\<not> blank (lit ''agenda-work:'' @ x)" "\<not> blank (lit ''agenda:'' @ x)" for x
    by (simp_all add: blank_def strip_eq_Nil) (simp_all add: lit_def is_space_def)
  then show ?thesis
    by (simp add: check_binding_def validate_fact_def comparisons_def fact_of_def agenda_binding_def sample_columns wecom_destination_def
        service_actor_def agenda_source_def work_session_def blank_lit is_space_def) (simp add: sample_agenda_env_def blank_lit is_space_def)
qed

lemma sample_scan: "\<exists>k s1 p. scan_workspace sample_agenda_env (sample_workspace ''a'') uuids 1 1 new_agenda = (Inr k, s1)
    \<and> as_payloads s1 = [p] \<and> pl_payload_ref p = cd_payload_ref sample_candidate \<and> pl_tenant_id p = lit ''t''
    \<and> pl_payload p = sort_keys (JObj (cd_payload sample_candidate))"
proof -
  let ?E = sample_agenda_env and ?W = "sample_workspace ''a''" and ?f = "fact_of sample_agenda_env 1 sample_candidate"
  define p where "p = \<lparr>pl_payload_ref = cd_payload_ref sample_candidate, pl_tenant_id = lit ''t'', pl_work_item_id = lit ''w'',
    pl_source_version = cd_version sample_candidate, pl_payload = sort_keys (JObj (cd_payload sample_candidate)), pl_observed_at = 1\<rparr>"
  let ?s1 = "new_agenda\<lparr>as_payloads := [p]\<rparr>" and ?d = "wecom_destination sample_agenda_env (lit ''a'')"
  have sp: "store_payload ?E 1 sample_candidate (as_payloads new_agenda) = [p]"
    by (simp add: store_payload_def new_agenda_def insert_row_def p_def sample_columns) (simp add: sample_agenda_env_def)
  have d: "destination_for ?E ?W (wf_payload_ref ?f) [p] = Inr ?d"
    using sample_destination_for [of p ?W] by (simp add: p_def fact_of_def sample_owner is_space_def)
  have au: "authority_inv (as_authority ?s1)" "bound (as_authority ?s1) x = None" for x
    using new_system_inv by (simp_all add: new_agenda_def system_inv_def new_system_def new_authority_def bound_eq)
  let ?a = "attest (\<lambda>s. s) 1 ?f (agenda_binding ?E ?f ?d) (as_authority ?s1)"
  have ok: "fst ?a = Inr ()" using au sample_checked_binding by (simp add: attest_ok_iff)
  then have b: "authority_inv (snd ?a)" "bound (snd ?a) (work_id (\<lambda>s. s) ?f) = Some (agenda_binding ?E ?f ?d)"
    using attest_inv [OF au(1)] attest_bound [OF au(1)] by simp_all
  have at: "attest_candidate ?E ?W 1 ?f ?s1 = (Inr (), ?s1\<lparr>as_authority := snd ?a\<rparr>)"
    using ok by (simp add: attest_candidate_def d case_prod_unfold sample_env_columns)
  obtain s2 where "ingest (\<lambda>s. s) sample_cfg (uuids 0) 1 1 ?f (snd ?a, snd new_system) = (Inr (False, work_id (\<lambda>s. s) ?f, partition_of (\<lambda>s. s) (agenda_binding ?E ?f ?d)), s2)"
    using ingest_into_empty [OF b(1) sample_checked_binding b(2)] by blast
  then obtain s3 where s3: "ingest_candidate ?E (uuids 0) 1 1 sample_candidate (?s1\<lparr>as_authority := snd ?a\<rparr>) = (Inr False, s3)" "as_payloads s3 = [p]"
    by (simp add: ingest_candidate_def case_prod_unfold Let_def new_agenda_def sample_env_columns)
  have "\<exists>k. scan_workspace ?E ?W uuids 1 1 new_agenda = (Inr k, s3)"
    using s3(1) by (simp add: scan_workspace_def sample_item admit_def sp at Let_def)
  moreover have "pl_payload_ref p = cd_payload_ref sample_candidate" "pl_tenant_id p = lit ''t''"
    "pl_payload p = sort_keys (JObj (cd_payload sample_candidate))" by (simp_all add: p_def)
  ultimately show ?thesis using s3(2) by blast
qed

lemma sample_start: "asys new_agenda = fold (agenda_step sample_agenda_env) [] new_system"
  by (simp add: asys_def new_agenda_def)

section \<open>Properties\<close>

lemma reachable_agenda:
  assumes "asys s = fold (agenda_step E) cmds new_system"
  shows "system_inv (asys s) \<and> au_durable (as_authority s)"
  using system_reachable_inv [of "ae_sha E" "ae_cfg E" cmds] reachable_durable [of "ae_sha E" "ae_cfg E" cmds] assms
  by (simp add: asys_def prod_eq_iff)

text \<open>What holds after a scan and any operations of the registry and the inbox.\<close>

lemma scanned:
  assumes "asys s = fold (agenda_step E) before new_system" "scan_workspace E W uuids clock now s = (Inr k, s1)"
    "asys s2 = fold (agenda_step E) between (asys s1)" "as_payloads s2 = as_payloads s1"
  shows "system_inv (asys s2) \<and> au_durable (as_authority s2) \<and> (\<forall>c. Inr (Some c) \<in> set (candidates E W now) \<longrightarrow> handled E W c s2)
    \<and> (\<forall>e. Inl e \<notin> set (candidates E W now))"
proof -
  have i0: "system_inv (asys s)" "au_durable (as_authority s)" using reachable_agenda [OF assms(1)] by simp_all
  have r: "runs E s s1" using scan_rows_runs [of E s W uuids clock now "candidates E W now"] assms(2) by (metis scan_workspace_def snd_conv)
  have i1: "system_inv (asys s1)" "au_durable (as_authority s1)" using runs_inv [OF r i0(1)] runs_durable [OF r i0(1)] i0(2) by simp_all
  have r2: "runs E s1 s2" using assms(3,4) unfolding runs_def by auto
  have "handled E W c s1" if "Inr (Some c) \<in> set (candidates E W now)" for c
    using scan_rows_handles [OF i0 _ that] assms(2) by (metis fst_conv scan_workspace_def snd_conv)
  then have "handled E W c s2" if "Inr (Some c) \<in> set (candidates E W now)" for c
    using runs_handled [OF r2 i1] that by blast
  moreover have "Inl e \<notin> set (candidates E W now)" for e
    using scan_rows_no_error assms(2) by (metis fst_conv scan_workspace_def)
  ultimately show ?thesis using runs_inv [OF r2 i1(1)] runs_durable [OF r2 i1(1)] i1(2) by simp
qed



text \<open>
  When the owner changes, the scan stops. If a work item that was admitted is still due and
  unchanged, but its destination, the one owner of the directory, is not what it was, then every
  scan raises an error instead of returning, so that nothing behind that item is admitted any more.
\<close>

theorem changed_owner_stops_scan:
  assumes "asys s = fold (agenda_step E) before new_system" "scan_workspace E W uuids clock now s = (Inr k, s1)"
    "asys s2 = fold (agenda_step E) between (asys s1)" "as_payloads s2 = as_payloads s1"
    "candidates E W' later = candidates E W now" "Inr (Some c) \<in> set (candidates E W now)" "\<not> cd_skips c"
    "destination_for E W (cd_payload_ref c) (as_payloads s2) \<noteq> destination_for E W' (cd_payload_ref c) (as_payloads s2)"
  shows "\<exists>e. fst (scan_workspace E W' uuids' clock' later s2) = Inl e"
proof -
  note h = scanned [OF assms(1-4)]
  show ?thesis unfolding scan_workspace_def assms(5)
    by (rule scan_rows_changed_destination [OF _ _ assms(6) _ assms(7,8)]) (use h assms(6) in blast)+
qed

theorem changed_owner_stops_scan_witness:
  "\<exists>s1 e. fst (scan_workspace sample_agenda_env (sample_workspace ''b'') (\<lambda>n. []) 9 1 s1) = Inl e
    \<and> snd (scan_workspace sample_agenda_env (sample_workspace ''a'') (\<lambda>n. []) 1 1 new_agenda) = s1"
proof -
  obtain k s1 p where s1: "scan_workspace sample_agenda_env (sample_workspace ''a'') (\<lambda>n. []) 1 1 new_agenda = (Inr k, s1)"
    and p: "as_payloads s1 = [p]" "cd_payload_ref sample_candidate = pl_payload_ref p" "pl_tenant_id p = lit ''t''"
      "pl_payload p = sort_keys (JObj (cd_payload sample_candidate))"
    using sample_scan by metis
  have n: "asys s1 = fold (agenda_step sample_agenda_env) [] (asys s1)" by simp
  have c: "Inr (Some sample_candidate) \<in> set (candidates sample_agenda_env (sample_workspace ''a'') 1)" by (simp add: sample_item)
  have same: "candidates sample_agenda_env (sample_workspace ''b'') 1 = candidates sample_agenda_env (sample_workspace ''a'') 1"
    by (simp add: sample_item)
  have d: "destination_for sample_agenda_env (sample_workspace ''a'') (cd_payload_ref sample_candidate) (as_payloads s1)
      \<noteq> destination_for sample_agenda_env (sample_workspace ''b'') (cd_payload_ref sample_candidate) (as_payloads s1)"
    unfolding p(1) sample_destination_for [OF p(2-4)] by (simp add: sample_owner wecom_destination_def is_space_def)
  have "\<not> cd_skips sample_candidate" by (simp add: sample_columns)
  from changed_owner_stops_scan [OF sample_start s1 n refl same c this d, of "\<lambda>n. []" 9] s1 show ?thesis by force
qed

end
