(* ===== verification/AgendaTickets.thy ===== *)
theory AgendaTickets
  imports AgendaFacts DirectReply
begin

text \<open>
  The tickets of \<^verbatim>\<open>runtime/plugins/tuoguan_core/agenda_runtime.py\<close>: a leased batch of work facts becomes an
  opaque ticket for the service adapter, its lease is renewed while it is open, and its facts are
  acknowledged once it is terminal. \<open>run_once\<close> is one cycle of the scheduler. The fixed sentences of the
  message to the model are a record of texts; the text of the current time, random identifiers and
  the local date are arguments.
\<close>

section \<open>Tables\<close>

datatype ticket_state = Issued | Dispatched | Agent_claimed | Ticket_completed | Ticket_timeout | Ticket_failed | Ticket_expired

record ticket_row =
  tk_ticket_id :: pystr
  tk_tenant_id :: pystr
  tk_service_identity :: pystr
  tk_source_identity :: pystr
  tk_session_id :: pystr
  tk_turn_id :: pystr
  tk_message_id :: pystr
  tk_model_message :: pystr
  tk_payload_sha256 :: pystr
  tk_state :: ticket_state
  tk_expires_at :: timestamp
  tk_dispatched_at :: pystr
  tk_agent_claimed_at :: pystr
  tk_agent_session_id :: pystr
  tk_agent_turn_id :: pystr
  tk_reply_text :: pystr
  tk_delivery_state :: pystr
  tk_completed_at :: pystr
  tk_updated_at :: pystr
  tk_partition :: trusted_partition
  tk_destination :: reply_destination
  tk_batch_id :: pystr
  tk_worker_id :: pystr
  tk_lease_until :: timestamp
  tk_work_ids :: "pystr list"
  tk_terminal_kind :: pystr
  tk_inbox_ack_state :: pystr

record status_row =
  st_tenant_id :: pystr
  st_started_at :: timestamp
  st_last_cycle_at :: timestamp
  st_cycle_count :: nat
  st_last_observed :: nat
  st_last_admitted :: nat
  st_last_duplicates :: nat
  st_last_issued_ticket_id :: pystr

record daily_row =
  dy_key :: "pystr \<times> pystr"
  dy_first_cycle_at :: timestamp
  dy_last_cycle_at :: timestamp
  dy_cycle_count :: nat
  dy_observed :: nat
  dy_admitted :: nat
  dy_duplicates :: nat
  dy_issued :: nat

text \<open>The database of the scheduler, the reply manager, and the memory of the service adapter.\<close>

record service =
  sv_agenda :: agenda
  sv_tickets :: "ticket_row list"
  sv_status :: "status_row list"
  sv_daily :: "daily_row list"
  sv_manager :: manager
  sv_active :: "(pystr, pystr) dict"
  sv_completed :: "(pystr, pystr) dict"

definition work_facts :: "service \<Rightarrow> fact_row list" where
  "work_facts s = ib_facts (as_inbox (sv_agenda s))"

definition set_inbox :: "inbox \<Rightarrow> service \<Rightarrow> service" where
  "set_inbox ib s = s\<lparr>sv_agenda := (sv_agenda s)\<lparr>as_inbox := ib\<rparr>\<rparr>"

definition log_event :: "string \<Rightarrow> pystr \<Rightarrow> (pystr, json) dict \<Rightarrow> service \<Rightarrow> service" where
  "log_event event ticket detail s = s\<lparr>sv_agenda := audit (lit event) ticket [] detail (sv_agenda s)\<rparr>"

definition on_tickets :: "(ticket_row list \<Rightarrow> ticket_row list) \<Rightarrow> service \<Rightarrow> service" where
  "on_tickets f s = s\<lparr>sv_tickets := f (sv_tickets s)\<rparr>"

section \<open>Issuing a ticket\<close>

record ticket_texts =
  tx_lead :: pystr
  tx_task :: pystr
  tx_governance :: pystr
  tx_item :: pystr
  tx_closing :: pystr
  tx_display :: pystr

fun ticket_payloads :: "agenda_env \<Rightarrow> payload_row list \<Rightarrow> envelope_fact list \<Rightarrow> py_exn + (pystr, json) dict list" where
  "ticket_payloads E rows [] = Inr []"
| "ticket_payloads E rows (f # fs) =
     sbind (payload_of E (ef_payload_ref f) rows) (\<lambda>d. sbind (ticket_payloads E rows fs) (\<lambda>ds. Inr (d # ds)))"

definition capability_text :: "agenda_env \<Rightarrow> ticket_texts \<Rightarrow> (pystr, json) dict list \<Rightarrow> pystr" where
  "capability_text E T ds =
     (let kinds = set (map (\<lambda>d. text_of (ae_render E) (dget d (lit ''source_kind''))) ds) in
      if kinds = set [lit ''workspace_task''] then tx_task T
      else if kinds = set [lit ''personnel_service_governance''] then tx_governance T else tx_item T)"

definition ticket_message :: "agenda_env \<Rightarrow> ticket_texts \<Rightarrow> payload_row list \<Rightarrow> envelope_fact list \<Rightarrow> py_exn + pystr" where
  "ticket_message E T rows fs = sbind (ticket_payloads E rows fs) (\<lambda>ds.
     Inr (tx_lead T @ capability_text E T ds @ tx_closing T @ ae_dumps E (JObj [(lit ''facts'', JList (map JObj ds))])))"

fun destinations_for :: "agenda_env \<Rightarrow> workspace \<Rightarrow> payload_row list \<Rightarrow> envelope_fact list \<Rightarrow> py_exn + reply_destination list" where
  "destinations_for E W rows [] = Inr []"
| "destinations_for E W rows (f # fs) =
     sbind (destination_for E W (ef_payload_ref f) rows) (\<lambda>d. sbind (destinations_for E W rows fs) (\<lambda>ds. Inr (d # ds)))"

definition worker_id :: "agenda_env \<Rightarrow> pystr" where
  "worker_id E = lit ''agenda-wake:'' @ ae_tenant E"

definition ticket_ttl :: rat where
  "ticket_ttl = 1800"

definition new_ticket :: "agenda_env \<Rightarrow> pystr \<Rightarrow> pystr \<Rightarrow> pystr \<Rightarrow> timestamp \<Rightarrow> work_envelope \<Rightarrow> reply_destination \<Rightarrow> ticket_row" where
  "new_ticket E uuid message stamp now env d =
     (let tid = lit ''agenda_ticket_'' @ uuid in
      \<lparr>tk_ticket_id = tid, tk_tenant_id = ae_tenant E, tk_service_identity = service_actor E, tk_source_identity = agenda_source E,
       tk_session_id = tq_trusted_session_id (we_partition env), tk_turn_id = lit ''agenda-turn:'' @ tid, tk_message_id = lit ''agenda-message:'' @ tid,
       tk_model_message = message, tk_payload_sha256 = ae_sha E message, tk_state = Issued, tk_expires_at = now + ticket_ttl,
       tk_dispatched_at = [], tk_agent_claimed_at = [], tk_agent_session_id = [], tk_agent_turn_id = [], tk_reply_text = [],
       tk_delivery_state = [], tk_completed_at = [], tk_updated_at = stamp, tk_partition = we_partition env, tk_destination = d,
       tk_batch_id = we_batch_id env, tk_worker_id = we_worker_id env, tk_lease_until = we_lease_until env,
       tk_work_ids = map ef_work_id (we_facts env), tk_terminal_kind = [], tk_inbox_ack_state = []\<rparr>)"

definition issue_ticket :: "agenda_env \<Rightarrow> ticket_texts \<Rightarrow> workspace \<Rightarrow> pystr \<Rightarrow> pystr \<Rightarrow> timestamp \<Rightarrow> work_envelope \<Rightarrow> (service, py_exn, pystr) op" where
  "issue_ticket E T W uuid stamp now env s =
     (let rows = as_payloads (sv_agenda s); fs = we_facts env in
      if fs = [] then (Inl (agenda_rejected ''agenda_envelope_empty''), s)
      else case sbind (ticket_message E T rows fs) (\<lambda>m. sbind (destinations_for E W rows fs) (\<lambda>ds. Inr (m, ds))) of
        Inl e \<Rightarrow> (Inl e, s)
      | Inr (message, ds) \<Rightarrow>
          if length (remdups ds) \<noteq> 1 then (Inl (agenda_rejected ''agenda_ticket_destination_partition_mismatch''), s)
          else let t = new_ticket E uuid message stamp now env (hd ds) in
            (case insert_row tk_ticket_id t (sv_tickets s) of
               None \<Rightarrow> (Inl (Runtime Integrity_error), s)
             | Some ts \<Rightarrow> (Inr (tk_ticket_id t), log_event ''ticket_issued'' (tk_ticket_id t)
                 [(lit ''batch_id'', JStr (we_batch_id env)), (lit ''fact_count'', JInt (int (length fs)))] (s\<lparr>sv_tickets := ts\<rparr>))))"

section \<open>Open and terminal tickets\<close>

definition open_ticket :: "ticket_row \<Rightarrow> bool" where
  "open_ticket t \<longleftrightarrow> tk_state t \<in> set [Issued, Dispatched, Agent_claimed]"

definition terminal_ticket :: "ticket_row \<Rightarrow> bool" where
  "terminal_ticket t \<longleftrightarrow> tk_state t \<in> set [Ticket_completed, Ticket_timeout, Ticket_failed, Ticket_expired]"

fun facts_by_id :: "fact_row list \<Rightarrow> pystr list \<Rightarrow> py_exn + envelope_fact list" where
  "facts_by_id fs [] = Inr []"
| "facts_by_id fs (w # ws) = (case List.find (\<lambda>r. f_work_id r = w) fs of
     None \<Rightarrow> Inl (agenda_rejected ''agenda_ticket_work_fact_missing'')
   | Some r \<Rightarrow> sbind (facts_by_id fs ws) (\<lambda>es. Inr (envelope_fact_of r # es)))"

definition envelope_for_ticket :: "ticket_row \<Rightarrow> fact_row list \<Rightarrow> py_exn + work_envelope" where
  "envelope_for_ticket t fs = sbind (facts_by_id fs (tk_work_ids t)) (\<lambda>es.
     Inr \<lparr>we_batch_id = tk_batch_id t, we_partition = tk_partition t, we_worker_id = tk_worker_id t,
          we_lease_until = tk_lease_until t, we_facts = es\<rparr>)"

text \<open>\<open>except (WorkLeaseLost, WorkRuntimeRejected)\<close>.\<close>

definition is_deferred :: "py_exn \<Rightarrow> bool" where
  "is_deferred e = (case e of Runtime (Rejected _) \<Rightarrow> True | Runtime (Lease_lost _) \<Rightarrow> True | _ \<Rightarrow> False)"

definition deferred :: "string \<Rightarrow> ticket_row \<Rightarrow> py_exn \<Rightarrow> (service, py_exn, nat) op" where
  "deferred event t e s = (if is_deferred e then (Inr 0, log_event event (tk_ticket_id t) [] s) else (Inl e, s))"

definition renew_ticket :: "agenda_env \<Rightarrow> pystr \<Rightarrow> timestamp \<Rightarrow> ticket_row \<Rightarrow> (service, py_exn, nat) op" where
  "renew_ticket E stamp now t s = (case envelope_for_ticket t (work_facts s) of
     Inl e \<Rightarrow> deferred ''ticket_lease_lost'' t e s
   | Inr env \<Rightarrow> (case renew_lease (ae_cfg E) env now (Some (cfg_lease (ae_cfg E))) (as_inbox (sv_agenda s)) of
       (Inl e, ib) \<Rightarrow> deferred ''ticket_lease_lost'' t (Runtime e) (set_inbox ib s)
     | (Inr env', ib) \<Rightarrow> (Inr 1, on_tickets (update_where (\<lambda>x. tk_ticket_id x = tk_ticket_id t)
         (\<lambda>x. x\<lparr>tk_lease_until := we_lease_until env', tk_updated_at := stamp\<rparr>)) (set_inbox ib s))))"

text \<open>A loop over the rows that a query returned; an exception that is not handled ends it.\<close>

fun for_rows :: "(nat \<Rightarrow> ticket_row \<Rightarrow> (service, py_exn, nat) op) \<Rightarrow> nat \<Rightarrow> ticket_row list \<Rightarrow> (service, py_exn, nat) op" where
  "for_rows body i [] s = (Inr 0, s)"
| "for_rows body i (t # ts) s = (case body i t s of
     (Inl e, s') \<Rightarrow> (Inl e, s')
   | (Inr n, s') \<Rightarrow> (case for_rows body (Suc i) ts s' of (Inl e, s'') \<Rightarrow> (Inl e, s'') | (Inr k, s'') \<Rightarrow> (Inr (n + k), s'')))"

definition renew_open_tickets :: "agenda_env \<Rightarrow> pystr \<Rightarrow> timestamp \<Rightarrow> (service, py_exn, nat) op" where
  "renew_open_tickets E stamp now s = for_rows (\<lambda>i. renew_ticket E stamp now) 0 (filter open_ticket (sv_tickets s)) s"

definition interrupted_terminal :: staged_terminal where
  "interrupted_terminal = \<lparr>sg_terminal_state = lit ''failed'', sg_provider_succeeded = None, sg_final_reply_text = [],
     sg_raw_trace_ref = lit ''agenda-runtime:orphaned-agent-ticket''\<rparr>"

definition orphan :: "timestamp \<Rightarrow> ticket_row \<Rightarrow> bool" where
  "orphan now t \<longleftrightarrow> tk_state t = Agent_claimed \<and> tk_expires_at t < now"

definition expire_orphan :: "agenda_env \<Rightarrow> pystr \<Rightarrow> timestamp \<Rightarrow> ticket_row \<Rightarrow> (service, py_exn, nat) op" where
  "expire_orphan E stamp clock t s =
     (let tid = tk_ticket_id t; mine = (\<lambda>x. tk_ticket_id x = tid \<and> tk_state x = Agent_claimed) in
      case stage_agenda_ticket_terminal (ae_render E) (ae_sha E) tid interrupted_terminal clock (sv_manager s) of
        (Inl e, m) \<Rightarrow> (Inr 0, log_event ''orphaned_ticket_reply_stage_deferred'' tid [] (s\<lparr>sv_manager := m\<rparr>))
      | (Inr _, m) \<Rightarrow>
          (let s' = on_tickets (update_where mine (\<lambda>x. x\<lparr>tk_state := Ticket_expired, tk_delivery_state := lit ''agent_interrupted'', tk_updated_at := stamp\<rparr>))
                 (s\<lparr>sv_manager := m\<rparr>) in
           if rowcount mine (sv_tickets s) > 0 then (Inr 1, log_event ''orphaned_ticket_expired'' tid [] s') else (Inr 0, s')))"

definition expire_orphaned_agent_tickets :: "agenda_env \<Rightarrow> pystr \<Rightarrow> timestamp \<Rightarrow> timestamp \<Rightarrow> (service, py_exn, nat) op" where
  "expire_orphaned_agent_tickets E stamp clock now s = for_rows (\<lambda>i. expire_orphan E stamp clock) 0 (filter (orphan now) (sv_tickets s)) s"

definition state_text :: "ticket_state \<Rightarrow> pystr" where
  "state_text st = lit (case st of Issued \<Rightarrow> ''issued'' | Dispatched \<Rightarrow> ''dispatched'' | Agent_claimed \<Rightarrow> ''agent_claimed''
     | Ticket_completed \<Rightarrow> ''completed'' | Ticket_timeout \<Rightarrow> ''timeout'' | Ticket_failed \<Rightarrow> ''failed'' | Ticket_expired \<Rightarrow> ''expired'')"

definition reconcile_ticket :: "agenda_env \<Rightarrow> (nat \<Rightarrow> pystr) \<Rightarrow> pystr \<Rightarrow> timestamp \<Rightarrow> nat \<Rightarrow> ticket_row \<Rightarrow> (service, py_exn, nat) op" where
  "reconcile_ticket E uuids stamp now i t s = (case envelope_for_ticket t (work_facts s) of
     Inl e \<Rightarrow> deferred ''ticket_reconcile_deferred'' t e s
   | Inr env \<Rightarrow> (case acknowledge (ae_cfg E) (uuids i) env (map ef_work_id (we_facts env)) now (as_inbox (sv_agenda s)) of
       (Inl e, ib) \<Rightarrow> deferred ''ticket_reconcile_deferred'' t (Runtime e) (set_inbox ib s)
     | (Inr _, ib) \<Rightarrow>
         (let kind = (if tk_state t = Ticket_completed then lit ''agent_completed'' else lit ''agent_inconclusive'') in
          (Inr 1, log_event ''ticket_reconciled'' (tk_ticket_id t) [(lit ''state'', JStr (state_text (tk_state t))), (lit ''terminal_kind'', JStr kind)]
            (on_tickets (update_where (\<lambda>x. tk_ticket_id x = tk_ticket_id t)
              (\<lambda>x. x\<lparr>tk_inbox_ack_state := lit ''acknowledged'', tk_terminal_kind := kind, tk_updated_at := stamp\<rparr>)) (set_inbox ib s))))))"

definition unsettled :: "ticket_row \<Rightarrow> bool" where
  "unsettled t \<longleftrightarrow> terminal_ticket t \<and> tk_inbox_ack_state t = []"

definition reconcile_terminal_tickets :: "agenda_env \<Rightarrow> (nat \<Rightarrow> pystr) \<Rightarrow> pystr \<Rightarrow> timestamp \<Rightarrow> (service, py_exn, nat) op" where
  "reconcile_terminal_tickets E uuids stamp now s = for_rows (reconcile_ticket E uuids stamp now) 0 (filter unsettled (sv_tickets s)) s"

section \<open>One cycle\<close>

record cycle =
  cy_now :: timestamp
  cy_clock :: timestamp
  cy_stamp :: pystr
  cy_date :: pystr
  cy_scan_ids :: "nat \<Rightarrow> pystr"
  cy_ack_ids :: "nat \<Rightarrow> pystr"
  cy_claim_ids :: "nat \<Rightarrow> pystr"
  cy_ticket_id :: pystr

definition upsert :: "('r \<Rightarrow> 'k) \<Rightarrow> 'r \<Rightarrow> ('r \<Rightarrow> 'r) \<Rightarrow> 'r list \<Rightarrow> 'r list" where
  "upsert key r f rs = (case insert_row key r rs of None \<Rightarrow> update_where (\<lambda>x. key x = key r) f rs | Some rs' \<Rightarrow> rs')"

definition record_cycle :: "agenda_env \<Rightarrow> cycle \<Rightarrow> scan_counts \<Rightarrow> pystr \<Rightarrow> service \<Rightarrow> service" where
  "record_cycle E c k issued s =
     (let one = (if issued = [] then 0 else 1) in
      s\<lparr>sv_status := upsert st_tenant_id
          \<lparr>st_tenant_id = ae_tenant E, st_started_at = cy_now c, st_last_cycle_at = cy_now c, st_cycle_count = 1,
           st_last_observed = sc_observed k, st_last_admitted = sc_admitted k, st_last_duplicates = sc_duplicates k, st_last_issued_ticket_id = issued\<rparr>
          (\<lambda>r. r\<lparr>st_last_cycle_at := cy_now c, st_cycle_count := st_cycle_count r + 1, st_last_observed := sc_observed k,
             st_last_admitted := sc_admitted k, st_last_duplicates := sc_duplicates k, st_last_issued_ticket_id := issued\<rparr>) (sv_status s),
        sv_daily := upsert dy_key
          \<lparr>dy_key = (ae_tenant E, cy_date c), dy_first_cycle_at = cy_now c, dy_last_cycle_at = cy_now c, dy_cycle_count = 1,
           dy_observed = sc_observed k, dy_admitted = sc_admitted k, dy_duplicates = sc_duplicates k, dy_issued = one\<rparr>
          (\<lambda>r. r\<lparr>dy_last_cycle_at := cy_now c, dy_cycle_count := dy_cycle_count r + 1, dy_observed := dy_observed r + sc_observed k,
             dy_admitted := dy_admitted r + sc_admitted k, dy_duplicates := dy_duplicates r + sc_duplicates k, dy_issued := dy_issued r + one\<rparr>) (sv_daily s)\<rparr>)"

definition scan_service :: "agenda_env \<Rightarrow> workspace \<Rightarrow> cycle \<Rightarrow> (service, py_exn, scan_counts) op" where
  "scan_service E W c s = (case scan_workspace E W (cy_scan_ids c) (cy_clock c) (cy_now c) (sv_agenda s) of (r, a) \<Rightarrow> (r, s\<lparr>sv_agenda := a\<rparr>))"

definition claim_and_issue :: "agenda_env \<Rightarrow> ticket_texts \<Rightarrow> workspace \<Rightarrow> cycle \<Rightarrow> (service, py_exn, pystr) op" where
  "claim_and_issue E T W c s = (case claim_work (ae_cfg E) (cy_claim_ids c) (worker_id E) (cy_now c) 20 (as_inbox (sv_agenda s)) of
     (Inl e, ib) \<Rightarrow> (Inl (Runtime e), set_inbox ib s)
   | (Inr None, ib) \<Rightarrow> (Inr [], set_inbox ib s)
   | (Inr (Some env), ib) \<Rightarrow> issue_ticket E T W (cy_ticket_id c) (cy_stamp c) (cy_now c) env (set_inbox ib s))"

text \<open>\<open>a; b\<close>: the second operation runs when the first one returned.\<close>

definition andthen :: "('s, 'e, 'a) op \<Rightarrow> ('a \<Rightarrow> ('s, 'e, 'b) op) \<Rightarrow> ('s, 'e, 'b) op" where
  "andthen f g s = (case f s of (Inl e, s') \<Rightarrow> (Inl e, s') | (Inr a, s') \<Rightarrow> g a s')"

definition run_once :: "agenda_env \<Rightarrow> ticket_texts \<Rightarrow> workspace \<Rightarrow> cycle \<Rightarrow> (service, py_exn, scan_counts \<times> nat \<times> nat \<times> nat \<times> pystr) op" where
  "run_once E T W c =
     andthen (scan_service E W c) (\<lambda>scanned.
     andthen (expire_orphaned_agent_tickets E (cy_stamp c) (cy_clock c) (cy_now c)) (\<lambda>expired.
     andthen (renew_open_tickets E (cy_stamp c) (cy_now c)) (\<lambda>renewed.
     andthen (reconcile_terminal_tickets E (cy_ack_ids c) (cy_stamp c) (cy_now c)) (\<lambda>reconciled.
     andthen (claim_and_issue E T W c) (\<lambda>issued s.
       (Inr (scanned, expired, renewed, reconciled, issued), record_cycle E c scanned issued s))))))"

section \<open>The context of a claimed ticket\<close>

definition texts_of_turn :: "ticket_texts \<Rightarrow> pystr \<Rightarrow> pystr list" where
  "texts_of_turn T raw = raw # (if take (length (tx_display T)) raw = tx_display T then [drop (length (tx_display T)) raw] else [])"

record turn_context =
  tc_tenant_id :: pystr
  tc_service_identity :: pystr
  tc_message_id :: pystr
  tc_raw_text :: pystr
  tc_agent_session_id :: pystr
  tc_agent_turn_id :: pystr

definition claimed_ticket_context :: "agenda_env \<Rightarrow> ticket_texts \<Rightarrow> turn_context \<Rightarrow> pystr \<Rightarrow> timestamp \<Rightarrow> ticket_row list \<Rightarrow> ticket_row option \<times> ticket_row list" where
  "claimed_ticket_context E T x stamp clock ts =
     (let digests = map (ae_sha E) (texts_of_turn T (tc_raw_text x)) in
      case filter (\<lambda>t. tk_state t = Agent_claimed \<and> tk_tenant_id t = tc_tenant_id x \<and> tk_service_identity t = tc_service_identity x
          \<and> tk_message_id t = tc_message_id x \<and> tk_payload_sha256 t \<in> set digests) ts of
        [t] \<Rightarrow>
          if tk_source_identity t \<noteq> lit ''agenda:'' @ tc_tenant_id x \<or> tk_expires_at t < clock
             \<or> tk_agent_session_id t \<noteq> [] \<and> tk_agent_session_id t \<noteq> tc_agent_session_id x
             \<or> tk_agent_turn_id t \<noteq> [] \<and> tk_agent_turn_id t \<noteq> tc_agent_turn_id x
          then (None, ts)
          else (Some t, update_where (\<lambda>r. tk_ticket_id r = tk_ticket_id t \<and> tk_state r = Agent_claimed)
            (\<lambda>r. r\<lparr>tk_agent_session_id := tc_agent_session_id x, tk_agent_turn_id := tc_agent_turn_id x, tk_updated_at := stamp\<rparr>) ts)
      | _ \<Rightarrow> (None, ts))"

end
