(* ===== verification/AgendaService.thy ===== *)
theory AgendaService
  imports AgendaTickets
begin

text \<open>
  \<^verbatim>\<open>runtime/plugins/agenda_service_work/adapter.py\<close>, the platform adapter that gives issued tickets to the
  agent, and \<open>claim_agenda_service_turn_for_agent\<close> of \<^verbatim>\<open>runtime/plugins/tuoguan_core/runtime_contract.py\<close>, by
  which the agent's turn takes its ticket. A call that awaits the agent is split there: what the
  await returned is an argument of the second part. Whether the plugins are loaded is a flag.
\<close>

section \<open>Taking an issued ticket\<close>

datatype ingress_error = Ingress_rejected pystr

definition ingress :: "string \<Rightarrow> ingress_error" where
  "ingress code = Ingress_rejected (lit code)"

definition requeue_unclaimed_dispatches :: "pystr \<Rightarrow> ticket_row list \<Rightarrow> ticket_row list" where
  "requeue_unclaimed_dispatches stamp = update_where (\<lambda>t. tk_state t = Dispatched \<and> tk_agent_claimed_at t = [])
     (\<lambda>t. t\<lparr>tk_state := Issued, tk_dispatched_at := [], tk_updated_at := stamp\<rparr>)"

definition row_to_ticket :: "agenda_env \<Rightarrow> ticket_row \<Rightarrow> ingress_error + unit" where
  "row_to_ticket E t =
     (if tk_service_identity t \<noteq> lit ''service:agenda:'' @ tk_tenant_id t \<or> tk_model_message t = []
      then Inl (ingress ''agenda_service_ticket_identity_invalid'')
      else if ae_sha E (tk_model_message t) \<noteq> tk_payload_sha256 t then Inl (ingress ''agenda_service_ticket_payload_invalid'')
      else Inr ())"

text \<open>The update of an expired ticket is undone by the exception that follows it.\<close>

definition claim_issued_body :: "agenda_env \<Rightarrow> pystr \<Rightarrow> pystr \<Rightarrow> timestamp \<Rightarrow> ticket_row list \<Rightarrow> ingress_error + ticket_row \<times> ticket_row list" where
  "claim_issued_body E tid stamp clock ts =
     (let mine = (\<lambda>x. tk_ticket_id x = tid \<and> tk_state x = Issued) in
      case List.find (\<lambda>x. tk_ticket_id x = tid) ts of
        None \<Rightarrow> Inl (ingress ''agenda_service_ticket_not_issued'')
      | Some t \<Rightarrow>
          if tk_state t \<noteq> Issued then Inl (ingress ''agenda_service_ticket_not_issued'')
          else if tk_expires_at t < clock then Inl (ingress ''agenda_service_ticket_expired'')
          else sbind (row_to_ticket E t) (\<lambda>_.
            if rowcount mine ts \<noteq> 1 then Inl (ingress ''agenda_service_ticket_claim_race'')
            else Inr (t, update_where mine (\<lambda>x. x\<lparr>tk_state := Dispatched, tk_dispatched_at := stamp, tk_updated_at := stamp\<rparr>) ts)))"

definition claim_issued_ticket :: "agenda_env \<Rightarrow> pystr \<Rightarrow> pystr \<Rightarrow> timestamp \<Rightarrow> (ticket_row list, ingress_error, ticket_row) op" where
  "claim_issued_ticket E tid stamp clock ts =
     (if tid = [] \<or> length tid > 160 then (Inl (ingress ''agenda_service_ticket_id_invalid''), ts)
      else transaction (claim_issued_body E tid stamp clock) ts)"

definition trusted_chat_id :: "agenda_env \<Rightarrow> pystr \<Rightarrow> pystr \<Rightarrow> pystr" where
  "trusted_chat_id E tenant session = lit ''agenda-service:'' @ tenant @ lit '':'' @ take 24 (ae_sha E (us_join [tenant, session]))"

definition next_issued_ticket_id :: "pystr \<Rightarrow> timestamp \<Rightarrow> service \<Rightarrow> pystr \<times> service" where
  "next_issued_ticket_id stamp clock s =
     (let s' = on_tickets (update_where (\<lambda>t. tk_state t = Issued \<and> tk_expires_at t < clock)
            (\<lambda>t. t\<lparr>tk_state := Ticket_expired, tk_updated_at := stamp\<rparr>)) s in
      (case List.find (\<lambda>t. tk_state t = Issued \<and> clock \<le> tk_expires_at t) (sv_tickets s') of None \<Rightarrow> [] | Some t \<Rightarrow> tk_ticket_id t, s'))"

section \<open>Submission\<close>

text \<open>\<open>submit_ticket\<close> up to the event that starts the agent's turn, and what follows its await.\<close>

definition submit_begin :: "agenda_env \<Rightarrow> bool \<Rightarrow> pystr \<Rightarrow> pystr \<Rightarrow> timestamp \<Rightarrow> (service, ingress_error, pystr \<times> ticket_row) op" where
  "submit_begin E ready tid stamp clock s =
     (if \<not> ready then (Inl (ingress ''agenda_service_toolsets_not_ready''), s)
      else case claim_issued_ticket E tid stamp clock (sv_tickets s) of
        (Inl e, ts) \<Rightarrow> (Inl e, s\<lparr>sv_tickets := ts\<rparr>)
      | (Inr t, ts) \<Rightarrow>
          (let chat = trusted_chat_id E (tk_tenant_id t) (tk_session_id t); s' = s\<lparr>sv_tickets := ts\<rparr> in
           if chat \<in> set (map fst (sv_active s)) then (Inl (ingress ''agenda_service_partition_busy''), s')
           else (Inr (chat, t), s'\<lparr>sv_active := AList.update chat (tk_ticket_id t) (sv_active s), sv_completed := AList.delete chat (sv_completed s)\<rparr>)))"

definition service_stage_terminal :: "agenda_env \<Rightarrow> bool \<Rightarrow> pystr \<Rightarrow> staged_terminal \<Rightarrow> timestamp \<Rightarrow> service \<Rightarrow> bool \<times> service" where
  "service_stage_terminal E bridge tid x clock s =
     (if \<not> bridge then (False, s)
      else case stage_agenda_ticket_terminal (ae_render E) (ae_sha E) tid x clock (sv_manager s) of
        (Inl e, m) \<Rightarrow> (False, s\<lparr>sv_manager := m\<rparr>)
      | (Inr staged_job, m) \<Rightarrow> (staged_job \<noteq> None \<or> sg_terminal_state x \<noteq> lit ''completed'' \<or> blank (sg_final_reply_text x), s\<lparr>sv_manager := m\<rparr>))"

record service_response =
  sp_state :: ticket_state
  sp_reply_text :: pystr
  sp_delivery_status :: pystr

definition write_response :: "service_response \<Rightarrow> pystr \<Rightarrow> ticket_row \<Rightarrow> ticket_row" where
  "write_response r stamp t = t\<lparr>tk_state := sp_state r, tk_reply_text := sp_reply_text r, tk_delivery_state := sp_delivery_status r,
     tk_completed_at := stamp, tk_updated_at := stamp\<rparr>"

definition complete_ticket :: "pystr \<Rightarrow> service_response \<Rightarrow> pystr \<Rightarrow> service \<Rightarrow> service" where
  "complete_ticket tid r stamp = on_tickets (update_where (\<lambda>t. tk_ticket_id t = tid) (write_response r stamp))"

definition complete_from_public_terminal :: "pystr \<Rightarrow> service_response \<Rightarrow> pystr \<Rightarrow> service \<Rightarrow> service" where
  "complete_from_public_terminal tid r stamp =
     on_tickets (update_where (\<lambda>t. tk_ticket_id t = tid \<and> tk_state t = Agent_claimed) (write_response r stamp))"

definition failed_response :: "ticket_state \<Rightarrow> string \<Rightarrow> service_response" where
  "failed_response st delivery = \<lparr>sp_state = st, sp_reply_text = [], sp_delivery_status = lit delivery\<rparr>"

definition failed_turn :: "bool option \<Rightarrow> pystr \<Rightarrow> staged_terminal" where
  "failed_turn provider trace = \<lparr>sg_terminal_state = lit ''failed'', sg_provider_succeeded = provider, sg_final_reply_text = [], sg_raw_trace_ref = trace\<rparr>"

datatype turn_outcome = Answered | Timed_out | Dispatch_failed pystr | Cancelled

definition submit_end :: "agenda_env \<Rightarrow> bool \<Rightarrow> pystr \<Rightarrow> pystr \<Rightarrow> turn_outcome \<Rightarrow> pystr \<Rightarrow> timestamp \<Rightarrow> service \<Rightarrow> service" where
  "submit_end E bridge chat tid outcome stamp clock s =
     (let over = (\<lambda>st trace. complete_ticket tid (failed_response st ''failed'') stamp
            (snd (service_stage_terminal E bridge tid (failed_turn (Some False) trace) clock s)));
          s' = (case outcome of
            Answered \<Rightarrow> s | Cancelled \<Rightarrow> s
          | Timed_out \<Rightarrow> over Ticket_timeout (lit ''agenda-service:reply-timeout'')
          | Dispatch_failed name \<Rightarrow> over Ticket_failed (lit ''agenda-service:dispatch-failed:'' @ name))
      in s'\<lparr>sv_active := AList.delete chat (sv_active s')\<rparr>)"

section \<open>The terminal of the agent's turn\<close>

definition contains :: "pystr \<Rightarrow> pystr \<Rightarrow> bool" where
  "contains part s \<longleftrightarrow> list_ex (\<lambda>k. take (length part) (drop k s) = part) [0..<length s + 1]"

definition framework_terminal_reply_unavailable :: "pystr \<Rightarrow> bool" where
  "framework_terminal_reply_unavailable v =
     (let lowered = lower (strip v) in lowered = [] \<or> list_ex (\<lambda>m. contains m lowered)
       [lit ''model returned no content after all retries'', lit ''the request failed:'',
        lit ''processing completed but no response was generated'', lit ''iteration budget exhausted''])"

record public_terminal =
  pt_chat_id :: pystr
  pt_message_id :: pystr
  pt_final_reply_text :: pystr
  pt_trace_ref :: pystr

text \<open>
  \<open>contract\<close> is what \<open>_enforce_task_continuation_contract\<close> answers for the ticket.
\<close>

definition settle_public_model_terminal :: "agenda_env \<Rightarrow> bool \<Rightarrow> bool \<Rightarrow> public_terminal \<Rightarrow> pystr \<Rightarrow> timestamp \<Rightarrow> service \<Rightarrow> bool \<times> service" where
  "settle_public_model_terminal E bridge contract x stamp clock s = (case map_of (sv_active s) (pt_chat_id x) of
     None \<Rightarrow> (map_of (sv_completed s) (pt_chat_id x) \<noteq> None, s)
   | Some tid \<Rightarrow> (case List.find (\<lambda>t. tk_ticket_id t = tid) (sv_tickets s) of None \<Rightarrow> (False, s)
     | Some t \<Rightarrow>
         if tk_state t \<noteq> Agent_claimed \<or> tk_message_id t \<noteq> pt_message_id x then (False, s)
         else (let unavailable = framework_terminal_reply_unavailable (pt_final_reply_text x);
                   text = (if unavailable then [] else pt_final_reply_text x);
                   state = (if unavailable then Ticket_failed else Ticket_completed) in
           case service_stage_terminal E bridge tid \<lparr>sg_terminal_state = state_text state, sg_provider_succeeded = Some (\<not> unavailable),
                  sg_final_reply_text = text, sg_raw_trace_ref = pt_trace_ref x\<rparr> clock s of
             (False, s') \<Rightarrow> (False, complete_from_public_terminal tid (failed_response Ticket_failed ''durable_reply_stage_failed'') stamp s')
           | (True, s') \<Rightarrow>
               if \<not> unavailable \<and> \<not> contract
               then (False, complete_from_public_terminal tid (failed_response Ticket_failed ''task_continuation_contract_failed'') stamp s')
               else (\<not> unavailable, (complete_from_public_terminal tid
                 \<lparr>sp_state = state, sp_reply_text = text,
                  sp_delivery_status = lit (if unavailable then ''agent_terminal_unavailable'' else ''service_ledger_recorded'')\<rparr> stamp s')
                 \<lparr>sv_completed := AList.update (pt_chat_id x) tid (sv_completed s')\<rparr>))))"

section \<open>Shutdown\<close>

definition interrupt_ticket :: "agenda_env \<Rightarrow> bool \<Rightarrow> pystr \<Rightarrow> timestamp \<Rightarrow> pystr \<Rightarrow> service \<Rightarrow> service" where
  "interrupt_ticket E bridge stamp clock tid s = complete_ticket tid (failed_response Ticket_failed ''agent_interrupted'') stamp
     (snd (service_stage_terminal E bridge tid (failed_turn None (lit ''agenda-service:gateway-disconnect'')) clock s))"

text \<open>
  \<open>disconnect\<close>: the drain task is cancelled first, which ends the submission that it awaits; then the
  tickets that are still active are interrupted.
\<close>

definition disconnect :: "agenda_env \<Rightarrow> bool \<Rightarrow> (pystr \<times> pystr) option \<Rightarrow> pystr \<Rightarrow> timestamp \<Rightarrow> service \<Rightarrow> service" where
  "disconnect E bridge awaited stamp clock s =
     (let s1 = (case awaited of None \<Rightarrow> s | Some (chat, tid) \<Rightarrow> submit_end E bridge chat tid Cancelled stamp clock s) in
      (fold (interrupt_ticket E bridge stamp clock) (map snd (sv_active s1)) s1)\<lparr>sv_active := [], sv_completed := []\<rparr>)"

section \<open>The agent's turn\<close>

definition service_prefix :: pystr where
  "service_prefix = lit ''service:agenda:''"

record agent_hook =
  hk_actor :: pystr
  hk_raw_text :: pystr
  hk_agent_session_id :: pystr
  hk_agent_turn_id :: pystr

definition claimable_ticket :: "agenda_env \<Rightarrow> ticket_texts \<Rightarrow> pystr \<Rightarrow> pystr \<Rightarrow> timestamp \<Rightarrow> ticket_row \<Rightarrow> bool" where
  "claimable_ticket E T actor raw clock t \<longleftrightarrow> tk_state t = Dispatched \<and> tk_service_identity t = actor
     \<and> tk_payload_sha256 t \<in> set (map (ae_sha E) (texts_of_turn T raw)) \<and> clock \<le> tk_expires_at t"

definition turn_of_ticket :: "agenda_env \<Rightarrow> pystr \<Rightarrow> pystr \<Rightarrow> pystr \<Rightarrow> ticket_row \<Rightarrow> trusted_turn option" where
  "turn_of_ticket E tenant actor turn t =
     (let p = tk_partition t; session = strip (tq_trusted_session_id p);
          continuity = strip (case tq_continuity_id p of Some c \<Rightarrow> or_else c session | None \<Rightarrow> session) in
      if session = [] \<or> tq_tenant_id p \<noteq> tenant \<or> tq_canonical_actor_id p \<noteq> actor \<or> tq_source_identity p \<noteq> lit ''agenda:'' @ tenant then None
      else Some \<lparr>tt_platform = lit ''agenda_service_work'', tt_tenant_id = tenant, tt_canonical_user_id = actor,
        tt_chat_id = trusted_chat_id E tenant session, tt_continuity_key = continuity, tt_message_id = tk_message_id t, tt_turn_id = turn\<rparr>)"

definition claim_agenda_service_turn :: "agenda_env \<Rightarrow> ticket_texts \<Rightarrow> agent_hook \<Rightarrow> pystr \<Rightarrow> timestamp \<Rightarrow> ticket_row list \<Rightarrow> trusted_turn option \<times> ticket_row list" where
  "claim_agenda_service_turn E T h stamp clock ts =
     (let actor = strip (hk_actor h); session = strip (hk_agent_session_id h); turn = strip (hk_agent_turn_id h);
          tenant = drop (length service_prefix) actor in
      if take (length service_prefix) actor \<noteq> service_prefix \<or> session = [] \<or> turn = [] \<or> tenant = [] then (None, ts)
      else case filter (claimable_ticket E T actor (hk_raw_text h) clock) ts of
        [t] \<Rightarrow> (let mine = (\<lambda>x. tk_ticket_id x = tk_ticket_id t \<and> tk_state x = Dispatched) in
          if tk_tenant_id t \<noteq> tenant \<or> tk_source_identity t \<noteq> lit ''agenda:'' @ tenant \<or> rowcount mine ts \<noteq> 1 then (None, ts)
          else (turn_of_ticket E tenant actor turn t,
            update_where mine (\<lambda>x. x\<lparr>tk_state := Agent_claimed, tk_agent_claimed_at := stamp, tk_updated_at := stamp\<rparr>) ts))
      | _ \<Rightarrow> (None, ts))"

text \<open>The hook before the model's call: the turn takes its ticket, and its scope is captured for the reply.\<close>

definition service_hook :: "agenda_env \<Rightarrow> ticket_texts \<Rightarrow> agent_hook \<Rightarrow> pystr \<Rightarrow> timestamp \<Rightarrow> service \<Rightarrow> bool \<times> service" where
  "service_hook E T h stamp clock s = (case claim_agenda_service_turn E T h stamp clock (sv_tickets s) of
     (None, ts) \<Rightarrow> (False, s\<lparr>sv_tickets := ts\<rparr>)
   | (Some turn, ts) \<Rightarrow>
       if tt_canonical_user_id turn \<noteq> hk_actor h \<or> hk_raw_text h = [] then (False, s\<lparr>sv_tickets := ts\<rparr>)
       else (case claimed_ticket_context E T \<lparr>tc_tenant_id = tt_tenant_id turn, tc_service_identity = tt_canonical_user_id turn,
               tc_message_id = tt_message_id turn, tc_raw_text = hk_raw_text h, tc_agent_session_id = hk_agent_session_id h,
               tc_agent_turn_id = hk_agent_turn_id h\<rparr> stamp clock ts of
           (None, ts') \<Rightarrow> (False, s\<lparr>sv_tickets := ts'\<rparr>)
         | (Some t, ts') \<Rightarrow> (case capture_agenda_turn (ae_sha E)
               \<lparr>ac_ticket_id = tk_ticket_id t, ac_agent_session_id = hk_agent_session_id h, ac_agent_turn_id = hk_agent_turn_id h,
                ac_tenant_id = tt_tenant_id turn, ac_service_identity = tt_canonical_user_id turn, ac_partition = tk_partition t,
                ac_destination = tk_destination t, ac_raw_text = hk_raw_text h, ac_operation_hint = tk_message_id t\<rparr> clock (sv_manager s) of
             (Inl e, m) \<Rightarrow> (False, s\<lparr>sv_tickets := ts', sv_manager := m\<rparr>)
           | (Inr _, m) \<Rightarrow> (True, s\<lparr>sv_tickets := ts', sv_manager := m\<rparr>))))"

end
