(* ===== verification/ServiceMachine.thy ===== *)
theory ServiceMachine
  imports AgendaService
begin

text \<open>
  The scheduler, the adapter and the agent's hook as one machine over the tickets, the inbox and the
  reply manager. Every operation is a sequence of elementary changes (\<open>change\<close>); the invariant and
  the monotone life of a ticket are proved for these, and hold for every order of the operations.
\<close>

section \<open>Delivered facts of the inbox\<close>

definition delivered_in :: "fact_row list \<Rightarrow> pystr set" where
  "delivered_in fs = f_work_id ` {r \<in> set fs. f_state r = Delivered}"

lemma delivered_in_update:
  "(\<And>r. P r \<Longrightarrow> f_work_id (f r) = f_work_id r \<and> (f_state (f r) = Delivered \<longrightarrow> f_state r = Delivered \<or> f_work_id r \<in> W)) \<Longrightarrow>
   delivered_in (update_where P f fs) \<subseteq> delivered_in fs \<union> W"
  by (force simp: delivered_in_def set_update_where split: if_splits)

lemma delivered_in_quiet:
  "(\<And>r. P r \<Longrightarrow> f_work_id (f r) = f_work_id r \<and> (f_state (f r) = Delivered \<longrightarrow> f_state r = Delivered)) \<Longrightarrow>
   delivered_in (update_where P f fs) \<subseteq> delivered_in fs"
  using delivered_in_update [of P f "{}" fs] by simp

lemma ingest_delivered: "delivered_in (ib_facts (snd (transaction (ingest_body H cfg uuid now f q) ib))) \<subseteq> delivered_in (ib_facts ib)"
proof (cases "ingest_body H cfg uuid now f q ib")
  case (Inl e)
  then show ?thesis by (simp add: snd_transaction)
next
  case (Inr x)
  obtain d w q' ib' where x: "ingest_body H cfg uuid now f q ib = Inr ((d, w, q'), ib')"
    using Inr by (metis prod.collapse)
  then have "delivered_in (ib_facts ib') \<subseteq> delivered_in (ib_facts ib)"
  proof (cases rule: ingest_body_cases)
    case (fresh bid)
    then show ?thesis using ensure_batch_rest [OF fresh(6)] by (auto simp: delivered_in_def new_fact_def)
  qed simp
  then show ?thesis using x by (simp add: snd_transaction)
qed

lemma recover_body_delivered:
  assumes "recover_body cfg uuids now ib = Inr (counts, ib')"
  shows "delivered_in (ib_facts ib') \<subseteq> delivered_in (ib_facts ib)"
  using assms
proof (rule recover_body_cases)
  fix ib1 assume ib1: "ib1 = ib\<lparr>ib_facts := release_facts now (ib_facts ib), ib_batches := release_batches now (ib_batches ib)\<rparr>"
    "ensure_batches cfg uuids 0 now (missing ib1) ib1 = Inr ib'"
  have "ib_facts ib' = release_facts now (ib_facts ib)" using ensure_batches_rest [OF ib1(2)] by (simp add: ib1(1))
  then show ?thesis unfolding release_facts_def by (simp add: delivered_in_quiet)
qed

lemma claim_work_delivered:
  assumes "inbox_inv ib"
  shows "delivered_in (ib_facts (snd (claim_work cfg uuids worker now m ib))) \<subseteq> delivered_in (ib_facts ib)"
proof (rule claim_work_cases [of cfg uuids worker now m ib])
  fix counts ib1 assume c: "recover_body cfg uuids now ib = Inr (counts, ib1)"
    "claim_work cfg uuids worker now m ib = claim_batch cfg worker now (nat m) ib1"
  have i: "inbox_inv ib1" using c(1) assms by (rule recover_body_inv)
  have "delivered_in (ib_facts (snd (claim_batch cfg worker now (nat m) ib1))) \<subseteq> delivered_in (ib_facts ib1)"
  proof (cases "ready_batches now ib1")
    case (Cons b bs)
    then obtain fs env where "claim_batch cfg worker now (nat m) ib1 = (Inr (Some env), fs)"
      "ib_facts fs = lease_facts (f_work_id ` set (take (nat m) (ready_facts (b_partition_id b) ib1))) worker (now + cfg_lease cfg) (ib_facts ib1)"
      using claim_batch_ready [OF i Cons, of "nat m" cfg worker] unfolding Let_def by fastforce
    then show ?thesis by (simp add: lease_facts_def delivered_in_quiet)
  qed (simp add: claim_batch_none)
  then show ?thesis using c recover_body_delivered by fastforce
qed simp

lemma acknowledge_delivered:
  "delivered_in (ib_facts (snd (acknowledge cfg uuid env delivered now ib))) \<subseteq> delivered_in (ib_facts ib) \<union> set delivered"
  using snd_acknowledge [of cfg uuid env delivered now ib]
proof
  let ?ib' = "snd (acknowledge cfg uuid env delivered now ib)"
  assume "\<exists>ack. set delivered \<subseteq> set (expected env) \<and> acknowledge_body cfg uuid env delivered now ib = Inr (ack, ?ib')"
  then have f: "ib_facts ?ib' = settle_facts env delivered now (ib_facts ib)" using acknowledge_body_facts by blast
  show ?thesis unfolding f settle_facts_def
    by (rule order_trans [OF delivered_in_quiet delivered_in_update]) auto
qed auto

lemma renew_delivered:
  assumes "inbox_inv ib"
  shows "delivered_in (ib_facts (snd (renew_lease cfg env now secs ib))) \<subseteq> delivered_in (ib_facts ib)"
  using snd_renew_lease [of cfg env now secs ib]
proof
  assume "\<exists>until env'. renew_lease_body env until ib = Inr (env', snd (renew_lease cfg env now secs ib))"
  then obtain until env' where e: "renew_lease_body env until ib = Inr (env', snd (renew_lease cfg env now secs ib))" by blast
  have "unique_key b_batch_id (ib_batches ib)" using assms by (simp add: inbox_inv_def batches_inv_def)
  from renew_lease_body_cases [OF e this] have "ib_facts (snd (renew_lease cfg env now secs ib)) = renew_facts env until (ib_facts ib)"
    by auto
  then show ?thesis by (simp add: renew_facts_def delivered_in_quiet)
qed simp

section \<open>The life of a ticket\<close>

definition ticket_key :: "ticket_row \<Rightarrow> pystr \<times> pystr \<times> pystr \<times> pystr \<times> pystr \<times> trusted_partition \<times> reply_destination \<times> pystr \<times> pystr \<times> pystr list" where
  "ticket_key t = (tk_ticket_id t, tk_tenant_id t, tk_service_identity t, tk_message_id t, tk_payload_sha256 t, tk_partition t,
     tk_destination t, tk_batch_id t, tk_worker_id t, tk_work_ids t)"

text \<open>The agent had the ticket, or it is over.\<close>

definition taken :: "ticket_row \<Rightarrow> bool" where
  "taken t \<longleftrightarrow> tk_state t = Agent_claimed \<or> terminal_ticket t"

definition acknowledged :: "ticket_row \<Rightarrow> bool" where
  "acknowledged t \<longleftrightarrow> tk_inbox_ack_state t = lit ''acknowledged''"

definition ticket_le :: "ticket_row \<Rightarrow> ticket_row \<Rightarrow> bool" where
  "ticket_le t t' \<longleftrightarrow> ticket_key t' = ticket_key t \<and> (taken t \<longrightarrow> taken t') \<and> (terminal_ticket t \<longrightarrow> terminal_ticket t')
     \<and> (acknowledged t \<longrightarrow> acknowledged t')"

lemma ticket_le_refl [simp]: "ticket_le t t"
  by (simp add: ticket_le_def)

lemma ticket_le_trans: "ticket_le a b \<Longrightarrow> ticket_le b c \<Longrightarrow> ticket_le a c"
  by (simp add: ticket_le_def)

lemma ticket_le_id: "ticket_le t t' \<Longrightarrow> tk_ticket_id t' = tk_ticket_id t \<and> tk_work_ids t' = tk_work_ids t"
  by (simp add: ticket_le_def ticket_key_def)

lemmas ticket_life = ticket_le_def ticket_key_def taken_def terminal_ticket_def acknowledged_def

definition service_facts :: "service \<Rightarrow> pystr set" where
  "service_facts s = delivered_in (work_facts s)"

definition keeps_system :: "service \<Rightarrow> service \<Rightarrow> bool" where
  "keeps_system s s' \<longleftrightarrow> (system_inv (asys (sv_agenda s)) \<longrightarrow> system_inv (asys (sv_agenda s')))"

definition names_message :: "ticket_row \<Rightarrow> bool" where
  "names_message t \<longleftrightarrow> tk_message_id t = lit ''agenda-message:'' @ tk_ticket_id t"

text \<open>
  The elementary changes: one that leaves the tickets alone and delivers nothing, one of some rows
  of the tickets, a new ticket, and the acknowledgement of a terminal ticket.
\<close>

inductive change :: "service \<Rightarrow> service \<Rightarrow> bool" where
  change_quiet: "sv_tickets s' = sv_tickets s \<Longrightarrow> system_inv (asys (sv_agenda s)) \<longrightarrow> service_facts s' \<subseteq> service_facts s \<Longrightarrow> keeps_system s s' \<Longrightarrow> change s s'"
| change_edit: "(\<And>t. t \<in> set (sv_tickets s) \<Longrightarrow> P t \<Longrightarrow> ticket_le t (f t)) \<Longrightarrow> change s (on_tickets (update_where P f) s)"
| change_new: "insert_row tk_ticket_id t (sv_tickets s) = Some ts \<Longrightarrow> names_message t \<Longrightarrow> change s (s\<lparr>sv_tickets := ts\<rparr>)"
| change_settle: "t \<in> set (sv_tickets s) \<Longrightarrow> terminal_ticket t \<Longrightarrow> sv_tickets s1 = sv_tickets s \<Longrightarrow>
    service_facts s1 \<subseteq> service_facts s \<union> set (tk_work_ids t) \<Longrightarrow> keeps_system s s1 \<Longrightarrow>
    (\<And>x. ticket_le x (f x) \<and> acknowledged (f x)) \<Longrightarrow> tk_ticket_id t = tid \<Longrightarrow>
    change s (on_tickets (update_where (\<lambda>x. tk_ticket_id x = tid) f) s1)"

abbreviation changes :: "service \<Rightarrow> service \<Rightarrow> bool" where
  "changes \<equiv> change\<^sup>*\<^sup>*"

definition service_inv :: "service \<Rightarrow> bool" where
  "service_inv s \<longleftrightarrow> unique_key tk_ticket_id (sv_tickets s) \<and> (\<forall>t\<in>set (sv_tickets s). names_message t) \<and> system_inv (asys (sv_agenda s))
     \<and> (\<forall>w\<in>service_facts s. \<exists>t\<in>set (sv_tickets s). terminal_ticket t \<and> acknowledged t \<and> w \<in> set (tk_work_ids t))"

lemma on_tickets_simps [simp]:
  "sv_tickets (on_tickets f s) = f (sv_tickets s)" "sv_agenda (on_tickets f s) = sv_agenda s" "sv_manager (on_tickets f s) = sv_manager s"
  "service_facts (on_tickets f s) = service_facts s" "sv_active (on_tickets f s) = sv_active s" "sv_completed (on_tickets f s) = sv_completed s"
  "work_facts (on_tickets f s) = work_facts s"
  by (simp_all add: on_tickets_def service_facts_def work_facts_def)

text \<open>A row has a later version of itself after any change.\<close>

lemma row_itself: "t \<in> set ts \<Longrightarrow> \<exists>t'\<in>set ts. ticket_le t t'"
  using ticket_le_refl by blast

lemma update_where_le:
  assumes "\<And>t. t \<in> set ts \<Longrightarrow> P t \<Longrightarrow> ticket_le t (f t)" "t \<in> set ts"
  shows "\<exists>t'\<in>set (update_where P f ts). ticket_le t t'"
proof (rule bexI)
  show "(if P t then f t else t) \<in> set (update_where P f ts)" using assms(2) by (rule update_where_member)
  show "ticket_le t (if P t then f t else t)" using assms by simp
qed

lemma change_row:
  assumes "change s s'" "t \<in> set (sv_tickets s)"
  shows "\<exists>t'\<in>set (sv_tickets s'). ticket_le t t'"
  using assms
proof (induction rule: change.induct)
  case (change_quiet s' s)
  then show ?case by (simp add: row_itself)
next
  case (change_edit s P f)
  then show ?case using update_where_le [of "sv_tickets s" P f t] by simp
next
  case (change_new t0 s ts)
  then show ?case using row_itself [OF change_new.prems] by (auto simp: insert_row_def split: if_splits)
next
  case (change_settle t0 s s1 f tid)
  then show ?case using update_where_le [of "sv_tickets s" "\<lambda>x. tk_ticket_id x = tid" f t] by simp
qed

lemma changes_row: "changes s s' \<Longrightarrow> t \<in> set (sv_tickets s) \<Longrightarrow> \<exists>t'\<in>set (sv_tickets s'). ticket_le t t'"
  by (induction rule: rtranclp_induct) (simp add: row_itself, meson change_row ticket_le_trans)

lemma ticket_le_names: "ticket_le t t' \<Longrightarrow> names_message t \<Longrightarrow> names_message t'"
  by (simp add: ticket_le_def ticket_key_def names_message_def)

lemma names_update:
  assumes "\<And>t. t \<in> set ts \<Longrightarrow> P t \<Longrightarrow> ticket_le t (f t)" "\<forall>t\<in>set ts. names_message t"
  shows "\<forall>t\<in>set (update_where P f ts). names_message t"
  unfolding ball_update_where using assms ticket_le_names by (simp split: if_split) blast

lemma settled_row:
  assumes "terminal_ticket t \<and> acknowledged t \<and> w \<in> set (tk_work_ids t)" "ticket_le t t'"
  shows "terminal_ticket t' \<and> acknowledged t' \<and> w \<in> set (tk_work_ids t')"
  using assms ticket_le_id [OF assms(2)] by (auto simp: ticket_le_def)

lemma change_inv:
  assumes "change s s'" "service_inv s"
  shows "service_inv s'"
proof -
  have row: "\<exists>t\<in>set (sv_tickets s'). terminal_ticket t \<and> acknowledged t \<and> w \<in> set (tk_work_ids t)" if "w \<in> service_facts s" for w
    using that assms(2) change_row [OF assms(1)] settled_row unfolding service_inv_def by meson
  show ?thesis
    using assms row
  proof (induction rule: change.induct)
    case (change_quiet s' s)
    then show ?case unfolding service_inv_def keeps_system_def by (metis subsetD)
  next
    case (change_edit s P f)
    have "unique_key tk_ticket_id (update_where P f (sv_tickets s)) = unique_key tk_ticket_id (sv_tickets s)"
      unfolding update_where_def by (rule unique_map_key) (use change_edit.hyps ticket_le_id in auto)
    then show ?case using change_edit.prems names_update [of "sv_tickets s" P f] change_edit.hyps by (simp add: service_inv_def)
  next
    case (change_new t s ts)
    have "service_facts (s\<lparr>sv_tickets := ts\<rparr>) = service_facts s" by (simp add: service_facts_def work_facts_def)
    moreover have "\<forall>x\<in>set ts. names_message x"
      using change_new.hyps change_new.prems(1) by (auto simp: service_inv_def insert_row_def split: if_splits)
    ultimately show ?case using change_new unique_key_insert_row [OF change_new.hyps(1)] by (simp add: service_inv_def)
  next
    case (change_settle t s s1 f tid)
    let ?ts = "update_where (\<lambda>x. tk_ticket_id x = tid) f (sv_tickets s)"
    have "f t \<in> set ?ts" using update_where_member [OF change_settle.hyps(1), of "\<lambda>x. tk_ticket_id x = tid" f] change_settle.hyps(7) by simp
    moreover have "terminal_ticket (f t) \<and> acknowledged (f t) \<and> tk_work_ids (f t) = tk_work_ids t"
      using change_settle.hyps(2) change_settle.hyps(6) [of t] by (auto simp: ticket_le_def ticket_key_def)
    ultimately have new: "\<exists>t\<in>set ?ts. terminal_ticket t \<and> acknowledged t \<and> w \<in> set (tk_work_ids t)" if "w \<in> set (tk_work_ids t)" for w
      using that by metis
    have "unique_key tk_ticket_id ?ts = unique_key tk_ticket_id (sv_tickets s)"
      unfolding update_where_def by (rule unique_map_key) (use change_settle.hyps(6) ticket_le_id in auto)
    moreover have "\<forall>x\<in>set ?ts. names_message x"
      using names_update [of "sv_tickets s" "\<lambda>x. tk_ticket_id x = tid" f] change_settle.hyps(6) change_settle.prems(1) by (simp add: service_inv_def)
    ultimately show ?case using change_settle.prems change_settle.hyps(3-5) new
      unfolding service_inv_def keeps_system_def by (auto simp: on_tickets_simps)
  qed
qed

lemma changes_inv: "changes s s' \<Longrightarrow> service_inv s \<Longrightarrow> service_inv s'"
  by (induction rule: rtranclp_induct) (auto intro: change_inv)

section \<open>Every operation is a sequence of changes\<close>

lemma changes_change: "change s s' \<Longrightarrow> changes s s'"
  by (rule r_into_rtranclp)

lemma changes_then: "changes a b \<Longrightarrow> changes b c \<Longrightarrow> changes a c"
  by (rule rtranclp_trans)

text \<open>The parts of the state that the invariant reads.\<close>

lemma changes_same:
  "sv_tickets s' = sv_tickets s \<Longrightarrow> work_facts s' = work_facts s \<Longrightarrow> asys (sv_agenda s') = asys (sv_agenda s) \<Longrightarrow> changes s s'"
  by (intro changes_change change_quiet) (simp_all add: service_facts_def keeps_system_def)

lemma changes_manager: "changes s (s\<lparr>sv_manager := m\<rparr>)" "changes s (s\<lparr>sv_active := a, sv_completed := d\<rparr>)" "changes s (s\<lparr>sv_active := a\<rparr>)"
    "changes s (s\<lparr>sv_completed := d\<rparr>)"
  by (rule changes_same; simp add: work_facts_def)+

lemma changes_log: "changes s (log_event e tid d s)"
  by (rule changes_same) (simp_all add: work_facts_def log_event_def)

lemma changes_inbox:
  assumes "inbox_inv (as_inbox (sv_agenda s)) \<Longrightarrow> inbox_inv ib \<and> delivered_in (ib_facts ib) \<subseteq> delivered_in (work_facts s)"
  shows "changes s (set_inbox ib s)"
proof -
  have "system_inv (asys (sv_agenda s)) \<Longrightarrow> inbox_inv (as_inbox (sv_agenda s))" by (simp add: system_inv_def asys_def)
  then show ?thesis using assms
    by (intro changes_change change_quiet) (auto simp: set_inbox_def service_facts_def work_facts_def keeps_system_def system_inv_def asys_def)
qed

lemma changes_edit:
  "(\<And>t. t \<in> set (sv_tickets s) \<Longrightarrow> P t \<Longrightarrow> ticket_le t (f t)) \<Longrightarrow> changes s (on_tickets (update_where P f) s)"
  by (intro changes_change change_edit)

lemma changes_andthen:
  assumes "changes s (snd (f s))" "\<And>a s'. changes s' (snd (g a s'))"
  shows "changes s (snd (andthen f g s))"
  using assms(1) changes_then [OF assms(1) assms(2)] by (simp add: andthen_def case_prod_unfold split: sum.split)

text \<open>The scan.\<close>

lemma attest_candidate_facts: "as_inbox (snd (attest_candidate E W clock f s)) = as_inbox s"
  by (simp add: attest_candidate_def case_prod_unfold split: sum.split)

lemma ingest_candidate_delivered:
  "delivered_in (ib_facts (as_inbox (snd (ingest_candidate E uuid clock now c s)))) \<subseteq> delivered_in (ib_facts (as_inbox s))"
  using ingest_candidate_asys(1) [of E uuid clock now c s] ingest_delivered
  by (auto simp: asys_def snd_ingest split: sum.splits)

lemma admit_delivered: "delivered_in (ib_facts (as_inbox (snd (admit E W uuid clock now c k s)))) \<subseteq> delivered_in (ib_facts (as_inbox s))"
proof -
  let ?s2 = "snd (attest_candidate E W clock (fact_of E now c) (s\<lparr>as_payloads := store_payload E now c (as_payloads s)\<rparr>))"
  have a: "as_inbox ?s2 = as_inbox s" by (simp add: attest_candidate_facts)
  show ?thesis using a ingest_candidate_delivered [of E uuid clock now c ?s2]
    by (simp add: admit_def Let_def case_prod_unfold split: sum.split)
qed

lemma scan_rows_delivered:
  "delivered_in (ib_facts (as_inbox (snd (scan_rows E W uuids clock now cs k s)))) \<subseteq> delivered_in (ib_facts (as_inbox s))"
proof (induction E W uuids clock now cs k s rule: scan_rows.induct)
  case (4 E W uuids clock now c cs k s)
  have a: "delivered_in (ib_facts (as_inbox (snd (admit E W (uuids (sc_observed k)) clock now c k s)))) \<subseteq> delivered_in (ib_facts (as_inbox s))"
    by (rule admit_delivered)
  show ?case
  proof (cases "admit E W (uuids (sc_observed k)) clock now c k s")
    case (Pair r s')
    then show ?thesis using a 4 by (cases r) auto
  qed
qed simp_all

lemma scan_changes: "changes s (snd (scan_service E W c s))"
proof (intro changes_change change_quiet)
  let ?a = "snd (scan_workspace E W (cy_scan_ids c) (cy_clock c) (cy_now c) (sv_agenda s))"
  have e: "snd (scan_service E W c s) = s\<lparr>sv_agenda := ?a\<rparr>" by (simp add: scan_service_def case_prod_unfold)
  show "sv_tickets (snd (scan_service E W c s)) = sv_tickets s" by (simp add: e)
  show "system_inv (asys (sv_agenda s)) \<longrightarrow> service_facts (snd (scan_service E W c s)) \<subseteq> service_facts s"
    unfolding e service_facts_def work_facts_def scan_workspace_def by (simp add: scan_rows_delivered)
  show "keeps_system s (snd (scan_service E W c s))"
    using runs_inv [OF scan_rows_runs] unfolding e keeps_system_def scan_workspace_def by simp
qed

text \<open>The loops over tickets. Rows that a query returned have later versions in the table all along.\<close>

lemma for_rows_changes:
  assumes "\<And>i t s. t \<in> set ts \<Longrightarrow> \<exists>t'\<in>set (sv_tickets s). ticket_le t t' \<Longrightarrow> changes s (snd (body i t s))"
    "\<forall>t\<in>set ts. \<exists>t'\<in>set (sv_tickets s). ticket_le t t'"
  shows "changes s (snd (for_rows body i ts s))"
  using assms
proof (induction ts arbitrary: i s)
  case (Cons t ts)
  let ?s = "snd (body i t s)"
  have 1: "changes s ?s" using Cons.prems by simp
  have "\<forall>t\<in>set ts. \<exists>t'\<in>set (sv_tickets ?s). ticket_le t t'"
    using Cons.prems(2) changes_row [OF 1] ticket_le_trans by (meson list.set_intros(2))
  then have "changes ?s (snd (for_rows body (Suc i) ts ?s))" using Cons.prems(1) by (intro Cons.IH) simp_all
  then show ?case using 1 changes_then [OF 1] by (simp add: case_prod_unfold split: sum.split)
qed simp

lemma deferred_changes: "changes s (snd (deferred ev t e s))"
  by (simp add: deferred_def changes_log)

lemma renew_ticket_changes: "changes s (snd (renew_ticket E stamp now t s))"
proof (cases "envelope_for_ticket t (work_facts s)")
  case (Inl e)
  then show ?thesis by (simp add: renew_ticket_def deferred_changes)
next
  case (Inr env)
  let ?r = "renew_lease (ae_cfg E) env now (Some (cfg_lease (ae_cfg E))) (as_inbox (sv_agenda s))"
  have 1: "changes s (set_inbox (snd ?r) s)"
    by (rule changes_inbox) (simp add: renew_lease_inv renew_delivered work_facts_def)
  have 2: "changes (set_inbox (snd ?r) s) (on_tickets (update_where (\<lambda>x. tk_ticket_id x = tk_ticket_id t)
      (\<lambda>x. x\<lparr>tk_lease_until := until, tk_updated_at := stamp\<rparr>)) (set_inbox (snd ?r) s))" for until
    by (rule changes_edit) (simp add: ticket_life)
  show ?thesis using changes_then [OF 1 2] changes_then [OF 1 deferred_changes]
    by (simp add: renew_ticket_def Inr case_prod_unfold split: sum.split)
qed

lemma renew_open_changes: "changes s (snd (renew_open_tickets E stamp now s))"
  unfolding renew_open_tickets_def by (rule for_rows_changes) (auto simp: renew_ticket_changes intro: row_itself)

lemma expire_orphan_changes: "changes s (snd (expire_orphan E stamp clock t s))"
proof -
  let ?m = "snd (stage_agenda_ticket_terminal (ae_render E) (ae_sha E) (tk_ticket_id t) interrupted_terminal clock (sv_manager s))"
  let ?s = "s\<lparr>sv_manager := ?m\<rparr>"
  let ?s' = "on_tickets (update_where (\<lambda>x. tk_ticket_id x = tk_ticket_id t \<and> tk_state x = Agent_claimed)
      (\<lambda>x. x\<lparr>tk_state := Ticket_expired, tk_delivery_state := lit ''agent_interrupted'', tk_updated_at := stamp\<rparr>)) ?s"
  have 1: "changes s ?s" by (rule changes_manager)
  have "changes ?s ?s'" by (rule changes_edit) (simp add: ticket_life)
  with 1 have 2: "changes s ?s'" by (rule changes_then)
  show ?thesis using 2 changes_then [OF 2 changes_log] changes_then [OF 1 changes_log]
    by (simp add: expire_orphan_def Let_def case_prod_unfold split: sum.split)
qed

lemma expire_orphaned_changes: "changes s (snd (expire_orphaned_agent_tickets E stamp clock now s))"
  unfolding expire_orphaned_agent_tickets_def by (rule for_rows_changes) (auto simp: expire_orphan_changes intro: row_itself)

lemma facts_by_id_ids: "facts_by_id fs ws = Inr es \<Longrightarrow> map ef_work_id es = ws"
proof (induction ws arbitrary: es)
  case (Cons w ws)
  then obtain r es' where r: "List.find (\<lambda>r. f_work_id r = w) fs = Some r" "facts_by_id fs ws = Inr es'" "es = envelope_fact_of r # es'"
    by (auto simp: sbind_def split: option.splits sum.splits)
  show ?case using Cons.IH [OF r(2)] find_SomeD [OF r(1)] r(3) by (simp add: envelope_fact_of_def)
qed simp

lemma envelope_for_ticket_ids:
  assumes "envelope_for_ticket t fs = Inr env"
  shows "map ef_work_id (we_facts env) = tk_work_ids t \<and> we_batch_id env = tk_batch_id t \<and> we_worker_id env = tk_worker_id t
    \<and> we_partition env = tk_partition t"
  using assms facts_by_id_ids by (auto simp: envelope_for_ticket_def sbind_eq_Inr)

lemma reconcile_ticket_changes:
  assumes "terminal_ticket t" "\<exists>t'\<in>set (sv_tickets s). ticket_le t t'"
  shows "changes s (snd (reconcile_ticket E uuids stamp now i t s))"
proof (cases "envelope_for_ticket t (work_facts s)")
  case (Inl e)
  then show ?thesis by (simp add: reconcile_ticket_def deferred_changes)
next
  case (Inr env)
  let ?ib = "as_inbox (sv_agenda s)"
  let ?r = "acknowledge (ae_cfg E) (uuids i) env (map ef_work_id (we_facts env)) now ?ib"
  let ?s1 = "set_inbox (snd ?r) s"
  define kind where "kind = (if tk_state t = Ticket_completed then lit ''agent_completed'' else lit ''agent_inconclusive'')"
  let ?f = "\<lambda>x. x\<lparr>tk_inbox_ack_state := lit ''acknowledged'', tk_terminal_kind := kind, tk_updated_at := stamp\<rparr>"
  let ?s2 = "on_tickets (update_where (\<lambda>x. tk_ticket_id x = tk_ticket_id t) ?f) ?s1"
  have ids: "map ef_work_id (we_facts env) = tk_work_ids t" using envelope_for_ticket_ids [OF Inr] by simp
  obtain t' where t': "t' \<in> set (sv_tickets s)" "ticket_le t t'" using assms(2) by blast
  have k: "terminal_ticket t'" "tk_work_ids t' = tk_work_ids t" "tk_ticket_id t' = tk_ticket_id t"
    using t'(2) assms(1) ticket_le_id [OF t'(2)] by (simp_all add: ticket_le_def)
  have "change s ?s2"
  proof (rule change_settle [OF t'(1) k(1)])
    show "service_facts ?s1 \<subseteq> service_facts s \<union> set (tk_work_ids t')"
      using acknowledge_delivered [of "ae_cfg E" "uuids i" env "tk_work_ids t" now ?ib] unfolding k(2) ids
      by (simp add: service_facts_def work_facts_def set_inbox_def)
    show "keeps_system s ?s1" by (simp add: keeps_system_def set_inbox_def asys_def system_inv_def acknowledge_inv)
  qed (simp_all add: ticket_life set_inbox_def k(3))
  then have ok: "changes s (log_event ''ticket_reconciled'' tid d ?s2)" for tid d
    using changes_then [OF changes_change changes_log] by blast
  have err: "snd ?r = ?ib" if "fst ?r = Inl e" for e
    using that by (auto simp: acknowledge_def transaction_def split: sum.splits prod.splits)
  have bad: "changes s (snd (deferred ''ticket_reconcile_deferred'' t (Runtime e) ?s1))" if "fst ?r = Inl e" for e
  proof -
    have "changes s ?s1" by (rule changes_inbox) (simp add: err [OF that] work_facts_def)
    then show ?thesis using deferred_changes by (rule changes_then)
  qed
  show ?thesis
  proof (cases "fst ?r")
    case (Inl e)
    then show ?thesis using bad [OF Inl] by (simp add: reconcile_ticket_def Inr case_prod_unfold)
  next
    case (Inr a)
    then show ?thesis using ok \<open>envelope_for_ticket t (work_facts s) = Inr env\<close>
      by (simp add: reconcile_ticket_def case_prod_unfold Let_def flip: kind_def)
  qed
qed

lemma reconcile_changes: "changes s (snd (reconcile_terminal_tickets E uuids stamp now s))"
  unfolding reconcile_terminal_tickets_def
  by (rule for_rows_changes) (auto simp: unsettled_def intro: row_itself reconcile_ticket_changes)

lemma issue_ticket_changes: "changes s (snd (issue_ticket E T W uuid stamp now env s))"
proof -
  have "changes s (log_event e tid d (s\<lparr>sv_tickets := ts\<rparr>))" if "insert_row tk_ticket_id t (sv_tickets s) = Some ts" "names_message t" for e tid d t ts
    using changes_then [OF changes_change [OF change_new [OF that]] changes_log] .
  moreover have "names_message (new_ticket E uuid m stamp now env d)" for m d by (simp add: names_message_def new_ticket_def Let_def)
  ultimately show ?thesis by (simp add: issue_ticket_def Let_def split: sum.split option.split prod.split)
qed

lemma claim_and_issue_changes: "changes s (snd (claim_and_issue E T W c s))"
proof -
  let ?r = "claim_work (ae_cfg E) (cy_claim_ids c) (worker_id E) (cy_now c) 20 (as_inbox (sv_agenda s))"
  have 1: "changes s (set_inbox (snd ?r) s)"
    by (rule changes_inbox) (simp add: claim_work_inv claim_work_delivered work_facts_def)
  show ?thesis using 1 changes_then [OF 1 issue_ticket_changes]
    by (simp add: claim_and_issue_def case_prod_unfold split: sum.split option.split)
qed

lemma record_cycle_changes: "changes s (record_cycle E c k issued s)"
  by (rule changes_same) (simp_all add: record_cycle_def Let_def work_facts_def)

lemma run_once_changes: "changes s (snd (run_once E T W c s))"
  unfolding run_once_def
  by (intro changes_andthen scan_changes expire_orphaned_changes renew_open_changes reconcile_changes claim_and_issue_changes)
    (simp add: record_cycle_changes)

text \<open>The adapter and the hook.\<close>

lemma stage_changes: "changes s (snd (service_stage_terminal E bridge tid x clock s))"
  by (simp add: service_stage_terminal_def case_prod_unfold changes_manager split: sum.split)

lemma write_response_le: "terminal_ticket (write_response r stamp t) \<Longrightarrow> ticket_le t (write_response r stamp t)"
  by (auto simp: ticket_life write_response_def)

lemma terminal_response [simp]: "terminal_ticket (write_response r stamp t) \<longleftrightarrow> sp_state r \<in> {Ticket_completed, Ticket_timeout, Ticket_failed, Ticket_expired}"
  by (simp add: terminal_ticket_def write_response_def)

lemma complete_changes:
  assumes "sp_state r \<in> {Ticket_completed, Ticket_timeout, Ticket_failed, Ticket_expired}"
  shows "changes s (complete_ticket tid r stamp s)" "changes s (complete_from_public_terminal tid r stamp s)"
  unfolding complete_ticket_def complete_from_public_terminal_def
  using assms by (auto intro!: changes_edit write_response_le)

lemma next_issued_changes: "changes s (snd (next_issued_ticket_id stamp clock s))"
  unfolding next_issued_ticket_id_def Let_def snd_conv by (rule changes_edit) (simp add: ticket_life)

lemma requeue_changes: "changes s (on_tickets (requeue_unclaimed_dispatches stamp) s)"
  unfolding requeue_unclaimed_dispatches_def by (rule changes_edit) (simp add: ticket_life)

lemma claim_issued_cases:
  obtains (refused) e where "claim_issued_ticket E tid stamp clock ts = (Inl e, ts)"
  | (taken) t where "claim_issued_ticket E tid stamp clock ts = (Inr t, update_where (\<lambda>x. tk_ticket_id x = tid \<and> tk_state x = Issued)
      (\<lambda>x. x\<lparr>tk_state := Dispatched, tk_dispatched_at := stamp, tk_updated_at := stamp\<rparr>) ts)"
      "t \<in> set ts" "tk_ticket_id t = tid" "tk_state t = Issued" "clock \<le> tk_expires_at t"
proof (cases "tid = [] \<or> length tid > 160")
  case True
  then show ?thesis by (intro refused) (simp add: claim_issued_ticket_def)
next
  case False
  then have c: "claim_issued_ticket E tid stamp clock ts = transaction (claim_issued_body E tid stamp clock) ts"
    by (simp add: claim_issued_ticket_def)
  show ?thesis
  proof (cases "claim_issued_body E tid stamp clock ts")
    case (Inl e)
    then show ?thesis using c by (intro refused) (simp add: transaction_def)
  next
    case (Inr x)
    then show ?thesis using c find_SomeD [of "\<lambda>x. tk_ticket_id x = tid" ts]
      by (intro taken [of "fst x"]) (auto simp: transaction_def claim_issued_body_def Let_def sbind_eq_Inr split: option.splits if_splits)
  qed
qed

lemma claim_issued_changes: "changes s (s\<lparr>sv_tickets := snd (claim_issued_ticket E tid stamp clock (sv_tickets s))\<rparr>)"
proof (cases rule: claim_issued_cases [of E tid stamp clock "sv_tickets s"])
  case (refused e)
  then show ?thesis by (simp add: changes_same work_facts_def)
next
  case (taken t)
  have "changes s (on_tickets (update_where (\<lambda>x. tk_ticket_id x = tid \<and> tk_state x = Issued)
      (\<lambda>x. x\<lparr>tk_state := Dispatched, tk_dispatched_at := stamp, tk_updated_at := stamp\<rparr>)) s)"
    by (rule changes_edit) (simp add: ticket_life)
  then show ?thesis by (simp add: taken(1) on_tickets_def)
qed

lemma submit_begin_changes: "changes s (snd (submit_begin E ready tid stamp clock s))"
  using claim_issued_changes [of s E tid stamp clock] changes_then [OF claim_issued_changes [of s E tid stamp clock] changes_manager(2)]
  by (simp add: submit_begin_def case_prod_unfold Let_def split: sum.split)

lemma submit_end_changes: "changes s (submit_end E bridge chat tid outcome stamp clock s)"
proof -
  have over: "changes s (complete_ticket tid (failed_response st d) stamp (snd (service_stage_terminal E bridge tid x clock s)))"
    if "st \<in> {Ticket_timeout, Ticket_failed}" for st d x
    using that by (intro changes_then [OF stage_changes complete_changes(1)]) (auto simp: failed_response_def)
  show ?thesis unfolding submit_end_def Let_def
    by (rule changes_then [OF _ changes_manager(3)]) (cases outcome; simp add: over)
qed

lemma settle_public_changes: "changes s (snd (settle_public_model_terminal E bridge contract x stamp clock s))"
proof -
  have over: "changes s (complete_from_public_terminal tid r stamp (snd (service_stage_terminal E bridge tid y clock s)))"
    if "sp_state r \<in> {Ticket_completed, Ticket_failed}" for tid r y
    using that by (intro changes_then [OF stage_changes complete_changes(2)]) auto
  show ?thesis
    by (auto simp: settle_public_model_terminal_def Let_def case_prod_unfold failed_response_def
      intro!: over changes_then [OF over changes_manager(4)] split: option.split bool.split)
qed

lemma interrupt_changes: "changes s (interrupt_ticket E bridge stamp clock tid s)"
  unfolding interrupt_ticket_def
  by (intro changes_then [OF stage_changes complete_changes(1)]) (simp add: failed_response_def)

lemma fold_changes: "(\<And>x s. changes s (f x s)) \<Longrightarrow> changes s (fold f xs s)"
  by (induction xs arbitrary: s) (auto intro: changes_then)

lemma disconnect_changes: "changes s (disconnect E bridge awaited stamp clock s)"
  unfolding disconnect_def Let_def
  by (rule changes_then [OF changes_then [OF _ fold_changes [OF interrupt_changes]] changes_manager(2)])
    (simp add: submit_end_changes split: option.split)

text \<open>The hook takes one dispatched ticket, or leaves the table alone.\<close>

lemma claim_turn_cases:
  obtains (refused) "claim_agenda_service_turn E T h stamp clock ts = (None, ts)"
  | (taken) t where "filter (claimable_ticket E T (strip (hk_actor h)) (hk_raw_text h) clock) ts = [t]"
      "claim_agenda_service_turn E T h stamp clock ts = (turn_of_ticket E (drop (length service_prefix) (strip (hk_actor h))) (strip (hk_actor h)) (strip (hk_agent_turn_id h)) t,
        update_where (\<lambda>x. tk_ticket_id x = tk_ticket_id t \<and> tk_state x = Dispatched)
          (\<lambda>x. x\<lparr>tk_state := Agent_claimed, tk_agent_claimed_at := stamp, tk_updated_at := stamp\<rparr>) ts)"
proof (cases "filter (claimable_ticket E T (strip (hk_actor h)) (hk_raw_text h) clock) ts")
  case Nil
  then show ?thesis by (intro refused) (simp add: claim_agenda_service_turn_def Let_def)
next
  case (Cons t us)
  show ?thesis
  proof (cases us)
    case Nil
    then show ?thesis using Cons by (cases "snd (claim_agenda_service_turn E T h stamp clock ts) = ts \<and> fst (claim_agenda_service_turn E T h stamp clock ts) = None")
      (auto intro: refused taken simp: claim_agenda_service_turn_def Let_def split: if_splits)
  next
    case (Cons u vs)
    then show ?thesis using \<open>filter (claimable_ticket E T (strip (hk_actor h)) (hk_raw_text h) clock) ts = t # us\<close>
      by (intro refused) (simp add: claim_agenda_service_turn_def Let_def)
  qed
qed

lemma claim_turn_changes: "changes s (s\<lparr>sv_tickets := snd (claim_agenda_service_turn E T h stamp clock (sv_tickets s))\<rparr>)"
proof (cases rule: claim_turn_cases [of E T h stamp clock "sv_tickets s"])
  case refused
  then show ?thesis by simp
next
  case (taken t)
  have "changes s (on_tickets (update_where (\<lambda>x. tk_ticket_id x = tk_ticket_id t \<and> tk_state x = Dispatched)
      (\<lambda>x. x\<lparr>tk_state := Agent_claimed, tk_agent_claimed_at := stamp, tk_updated_at := stamp\<rparr>)) s)"
    by (rule changes_edit) (simp add: ticket_life)
  then show ?thesis by (simp add: taken(2) on_tickets_def)
qed

lemma ticket_context_cases:
  obtains (refused) "claimed_ticket_context E T x stamp clock ts = (None, ts)"
  | (known) t where "t \<in> set ts" "tk_state t = Agent_claimed" "tk_message_id t = tc_message_id x" "clock \<le> tk_expires_at t"
      "claimed_ticket_context E T x stamp clock ts = (Some t, update_where (\<lambda>r. tk_ticket_id r = tk_ticket_id t \<and> tk_state r = Agent_claimed)
        (\<lambda>r. r\<lparr>tk_agent_session_id := tc_agent_session_id x, tk_agent_turn_id := tc_agent_turn_id x, tk_updated_at := stamp\<rparr>) ts)"
proof -
  let ?P = "\<lambda>t. tk_state t = Agent_claimed \<and> tk_tenant_id t = tc_tenant_id x \<and> tk_service_identity t = tc_service_identity x
    \<and> tk_message_id t = tc_message_id x \<and> tk_payload_sha256 t \<in> set (map (ae_sha E) (texts_of_turn T (tc_raw_text x)))"
  consider (none) "\<And>t. filter ?P ts \<noteq> [t]" | (one) t where "filter ?P ts = [t]" by blast
  then show ?thesis
  proof cases
    case none
    then show ?thesis by (intro refused) (auto simp: claimed_ticket_context_def Let_def split: list.split)
  next
    case (one t)
    have "t \<in> set (filter ?P ts)" unfolding one by simp
    then have t: "t \<in> set ts" "?P t" by simp_all
    let ?c = "claimed_ticket_context E T x stamp clock ts"
    have c: "?c = (None, ts) \<or> clock \<le> tk_expires_at t \<and> ?c = (Some t, update_where (\<lambda>r. tk_ticket_id r = tk_ticket_id t \<and> tk_state r = Agent_claimed)
        (\<lambda>r. r\<lparr>tk_agent_session_id := tc_agent_session_id x, tk_agent_turn_id := tc_agent_turn_id x, tk_updated_at := stamp\<rparr>) ts)"
      unfolding claimed_ticket_context_def Let_def one list.case by (simp add: not_less)
    then show ?thesis using refused known [OF t(1)] t(2) by blast
  qed
qed

lemma ticket_context_changes: "changes s (s\<lparr>sv_tickets := snd (claimed_ticket_context E T x stamp clock (sv_tickets s))\<rparr>)"
proof (cases rule: ticket_context_cases [of E T x stamp clock "sv_tickets s"])
  case refused
  then show ?thesis by simp
next
  case (known t)
  have "changes s (on_tickets (update_where (\<lambda>r. tk_ticket_id r = tk_ticket_id t \<and> tk_state r = Agent_claimed)
      (\<lambda>r. r\<lparr>tk_agent_session_id := tc_agent_session_id x, tk_agent_turn_id := tc_agent_turn_id x, tk_updated_at := stamp\<rparr>)) s)"
    by (rule changes_edit) (simp add: ticket_life)
  then show ?thesis by (simp add: known(5) on_tickets_def)
qed

lemma service_hook_changes: "changes s (snd (service_hook E T h stamp clock s))"
proof -
  let ?s1 = "s\<lparr>sv_tickets := snd (claim_agenda_service_turn E T h stamp clock (sv_tickets s))\<rparr>"
  have 1: "changes s ?s1" by (rule claim_turn_changes)
  have 2: "changes s (s\<lparr>sv_tickets := snd (claimed_ticket_context E T x stamp clock (sv_tickets ?s1))\<rparr>)" for x
    using changes_then [OF 1 ticket_context_changes [of ?s1 E T x stamp clock]] by simp
  have 3: "changes s (s\<lparr>sv_tickets := snd (claimed_ticket_context E T x stamp clock (sv_tickets ?s1)), sv_manager := m\<rparr>)" for x m
    using changes_then [OF 2 changes_manager(1)] by simp
  show ?thesis using 1 2 3 by (simp add: service_hook_def case_prod_unfold split: option.split sum.split)
qed

section \<open>The machine\<close>

datatype service_cmd =
    Run_cycle workspace cycle
  | Connect pystr
  | Poll pystr timestamp
  | Submit bool pystr pystr timestamp
  | Submit_end bool pystr pystr turn_outcome pystr timestamp
  | Settle_turn bool bool public_terminal pystr timestamp
  | Disconnect bool "(pystr \<times> pystr) option" pystr timestamp
  | Hook agent_hook pystr timestamp
  | Replies bridge_cmd

fun service_step :: "agenda_env \<Rightarrow> ticket_texts \<Rightarrow> outbox_env \<Rightarrow> (pystr \<Rightarrow> json option) \<Rightarrow> service_cmd \<Rightarrow> service \<Rightarrow> service" where
  "service_step E T B loads (Run_cycle W c) s = snd (run_once E T W c s)"
| "service_step E T B loads (Connect stamp) s = on_tickets (requeue_unclaimed_dispatches stamp) s"
| "service_step E T B loads (Poll stamp clock) s = snd (next_issued_ticket_id stamp clock s)"
| "service_step E T B loads (Submit ready tid stamp clock) s = snd (submit_begin E ready tid stamp clock s)"
| "service_step E T B loads (Submit_end bridge chat tid outcome stamp clock) s = submit_end E bridge chat tid outcome stamp clock s"
| "service_step E T B loads (Settle_turn bridge contract x stamp clock) s = snd (settle_public_model_terminal E bridge contract x stamp clock s)"
| "service_step E T B loads (Disconnect bridge awaited stamp clock) s = disconnect E bridge awaited stamp clock s"
| "service_step E T B loads (Hook h stamp clock) s = snd (service_hook E T h stamp clock s)"
| "service_step E T B loads (Replies c) s = s\<lparr>sv_manager := bridge_step B loads c (sv_manager s)\<rparr>"

lemma service_step_changes: "changes s (service_step E T B loads c s)"
  by (cases c) (simp_all add: run_once_changes requeue_changes next_issued_changes submit_begin_changes submit_end_changes
      settle_public_changes disconnect_changes service_hook_changes changes_manager)

interpretation service: invariant_machine "service_step E T B loads" service_inv for E T B loads
  by unfold_locales (rule changes_inv [OF service_step_changes])

interpretation ticket: final_machine "service_step E T B loads" service_inv "\<lambda>t s. \<exists>t'\<in>set (sv_tickets s). ticket_le t t'" "\<lambda>_ _. True"
  for E T B loads
proof unfold_locales
  fix s :: service and c t assume "\<exists>t'\<in>set (sv_tickets s). ticket_le t t'"
  then show "\<exists>t'\<in>set (sv_tickets (service_step E T B loads c s)). ticket_le t t'"
    using changes_row [OF service_step_changes] ticket_le_trans by meson
qed

definition new_service :: service where
  "new_service = \<lparr>sv_agenda = new_agenda, sv_tickets = [], sv_status = [], sv_daily = [], sv_manager = new_manager, sv_active = [], sv_completed = []\<rparr>"

lemma new_service_inv: "service_inv new_service"
  using new_system_inv
  by (simp add: service_inv_def new_service_def asys_def new_agenda_def service_facts_def work_facts_def delivered_in_def new_system_def)

section \<open>Lemmas for the properties\<close>

lemma unique_ticket:
  "service_inv s \<Longrightarrow> t \<in> set (sv_tickets s) \<Longrightarrow> x \<in> set (sv_tickets s) \<Longrightarrow> tk_ticket_id x = tk_ticket_id t \<Longrightarrow> x = t"
  unfolding service_inv_def by (metis unique_keyD)

lemma taken_not_claimable: "taken t \<Longrightarrow> tk_state t \<noteq> Issued \<and> tk_state t \<noteq> Dispatched"
  by (auto simp: taken_def terminal_ticket_def)

lemma taken_stays:
  assumes "service_inv s" "t \<in> set (sv_tickets s)" "taken t" "x \<in> set (sv_tickets (fold (service_step E T B loads) cmds s))"
    "tk_ticket_id x = tk_ticket_id t"
  shows "taken x"
proof -
  let ?s' = "fold (service_step E T B loads) cmds s"
  have "\<exists>t'\<in>set (sv_tickets ?s'). ticket_le t t'"
    by (rule ticket.run_final [OF assms(1)]) (simp_all add: row_itself assms(2))
  then obtain t' where t': "t' \<in> set (sv_tickets ?s')" "ticket_le t t'" by blast
  have "service_inv ?s'" using assms(1) by (rule service.run_inv)
  then have "x = t'" using unique_ticket [OF _ t'(1) assms(4)] ticket_le_id [OF t'(2)] assms(5) by simp
  then show ?thesis using t'(2) assms(3) by (simp add: ticket_le_def)
qed

text \<open>An acknowledgement by the worker that holds the batch is accepted.\<close>

lemma acknowledge_accepted:
  assumes inv: "inbox_inv ib" and b: "b \<in> set (ib_batches ib)" "b_batch_id b = we_batch_id env" "b_status b = BatchLeased"
      "b_lease_owner b = Some (we_worker_id env)"
    and sub: "set delivered \<subseteq> set (expected env)" and fresh: "lit ''wb_'' @ take 24 uuid \<notin> batch_ids ib"
  shows "\<exists>ack ib'. acknowledge cfg uuid env delivered now ib = (Inr ack, ib') \<and> ib_facts ib' = settle_facts env delivered now (ib_facts ib)"
proof -
  let ?ib1 = "ib\<lparr>ib_facts := settle_facts env delivered now (ib_facts ib), ib_batches := complete_batch env now (ib_batches ib)\<rparr>"
  have "unique_key b_batch_id (ib_batches ib)" using inv by (simp add: inbox_inv_def batches_inv_def)
  then have f: "List.find (\<lambda>b. b_batch_id b = we_batch_id env) (ib_batches ib) = Some b"
    using find_unique_key [of b_batch_id "ib_batches ib" b] b(1,2) by simp
  have "batch_ids ?ib1 = batch_ids ib" by (simp add: batch_ids_def complete_batch_def image_update_where)
  then obtain bid ib2 where e: "ensure_batch cfg uuid (we_partition env) now True ?ib1 = Inr (bid, ib2)"
    using ensure_batch_total [of uuid ?ib1 cfg "we_partition env" now True] fresh by auto
  have "\<exists>ack ib'. acknowledge_body cfg uuid env delivered now ib = Inr (ack, ib')"
    unfolding acknowledge_body_def f option.case Let_def e by (simp add: b(3,4) str_owner_def e)
  then obtain ack ib' where a: "acknowledge_body cfg uuid env delivered now ib = Inr (ack, ib')" by blast
  from acknowledge_body_facts [OF a] a sub show ?thesis by (simp add: acknowledge_def transaction_def)
qed

lemma facts_by_id_total: "\<forall>w\<in>set ws. w \<in> f_work_id ` set fs \<Longrightarrow> \<exists>es. facts_by_id fs ws = Inr es"
proof (induction ws)
  case (Cons w ws)
  then obtain es where es: "facts_by_id fs ws = Inr es" by auto
  have "List.find (\<lambda>r. f_work_id r = w) fs \<noteq> None" using Cons.prems by (auto simp: find_None_iff)
  then show ?case using es by auto
qed simp

lemma envelope_for_ticket_total:
  assumes "\<forall>w\<in>set (tk_work_ids t). w \<in> f_work_id ` set fs"
  shows "\<exists>env. envelope_for_ticket t fs = Inr env"
  using facts_by_id_total [OF assms] by (auto simp: envelope_for_ticket_def)

definition leased_to :: "pystr \<Rightarrow> service \<Rightarrow> pystr set" where
  "leased_to w s = f_work_id ` {r \<in> set (work_facts s). f_state r = Leased \<and> f_lease_owner r = Some w}"

lemma settle_delivers:
  assumes "set ws = set (expected env)" "w \<in> set ws" "r \<in> set fs" "f_work_id r = w" "f_state r = Leased" "f_lease_owner r = Some (we_worker_id env)"
  shows "w \<in> delivered_in (settle_facts env ws now fs)"
proof -
  let ?r = "r\<lparr>f_state := Delivered, f_lease_owner := None, f_lease_until := None, f_delivered_batch_id := Some (we_batch_id env), f_delivered_at := Some now\<rparr>"
  have "?r \<in> set (settle_facts env ws now fs)"
    using assms unfolding settle_facts_eq [OF eq_refl [OF assms(1)]] by (auto intro!: image_eqI [of _ _ r])
  moreover have "f_work_id ?r = w" "f_state ?r = Delivered" using assms(4) by simp_all
  ultimately show ?thesis unfolding delivered_in_def by (metis (mono_tags, lifting) image_eqI mem_Collect_eq)
qed

text \<open>A terminal ticket whose batch is still leased is acknowledged, whatever ended it.\<close>

lemma reconcile_terminal:
  assumes inv: "service_inv s" and t: "filter unsettled (sv_tickets s) = [t]"
    and batch: "\<exists>b\<in>set (ib_batches (as_inbox (sv_agenda s))). b_batch_id b = tk_batch_id t \<and> b_status b = BatchLeased \<and> b_lease_owner b = Some (tk_worker_id t)"
    and leased: "set (tk_work_ids t) \<subseteq> leased_to (tk_worker_id t) s"
    and fresh: "lit ''wb_'' @ take 24 (uuids 0) \<notin> batch_ids (as_inbox (sv_agenda s))"
  shows "\<exists>s'. reconcile_terminal_tickets E uuids stamp now s = (Inr 1, s') \<and> set (tk_work_ids t) \<subseteq> service_facts s'
    \<and> sv_tickets s' = update_where (\<lambda>x. tk_ticket_id x = tk_ticket_id t) (\<lambda>x. x\<lparr>tk_inbox_ack_state := lit ''acknowledged'',
        tk_terminal_kind := if tk_state t = Ticket_completed then lit ''agent_completed'' else lit ''agent_inconclusive'', tk_updated_at := stamp\<rparr>) (sv_tickets s)"
proof -
  let ?ib = "as_inbox (sv_agenda s)"
  have "\<forall>w\<in>set (tk_work_ids t). w \<in> f_work_id ` set (work_facts s)" using leased by (auto simp: leased_to_def)
  then obtain env where env: "envelope_for_ticket t (work_facts s) = Inr env" using envelope_for_ticket_total by blast
  have k: "map ef_work_id (we_facts env) = tk_work_ids t" "we_batch_id env = tk_batch_id t" "we_worker_id env = tk_worker_id t"
    using envelope_for_ticket_ids [OF env] by simp_all
  have x: "set (tk_work_ids t) = set (expected env)" using k(1) by (simp add: expected_def)
  obtain b where b: "b \<in> set (ib_batches ?ib)" "b_batch_id b = tk_batch_id t" "b_status b = BatchLeased" "b_lease_owner b = Some (tk_worker_id t)"
    using batch by blast
  have "inbox_inv ?ib" using inv by (simp add: service_inv_def system_inv_def asys_def)
  then obtain ack ib' where a: "acknowledge (ae_cfg E) (uuids 0) env (tk_work_ids t) now ?ib = (Inr ack, ib')"
      "ib_facts ib' = settle_facts env (tk_work_ids t) now (ib_facts ?ib)"
    using acknowledge_accepted [of ?ib b env "tk_work_ids t" "uuids 0" "ae_cfg E" now] b k fresh x by auto
  have "w \<in> delivered_in (ib_facts ib')" if "w \<in> set (tk_work_ids t)" for w
  proof -
    have "w \<in> leased_to (tk_worker_id t) s" using leased that ..
    then obtain r where "r \<in> set (ib_facts ?ib)" "f_work_id r = w" "f_state r = Leased" "f_lease_owner r = Some (we_worker_id env)"
      by (auto simp: leased_to_def work_facts_def k(3))
    then show ?thesis unfolding a(2) by (intro settle_delivers [OF x that])
  qed
  moreover have "\<exists>d. reconcile_terminal_tickets E uuids stamp now s = (Inr 1, log_event ''ticket_reconciled'' (tk_ticket_id t) d
      (on_tickets (update_where (\<lambda>x. tk_ticket_id x = tk_ticket_id t) (\<lambda>x. x\<lparr>tk_inbox_ack_state := lit ''acknowledged'',
        tk_terminal_kind := if tk_state t = Ticket_completed then lit ''agent_completed'' else lit ''agent_inconclusive'', tk_updated_at := stamp\<rparr>))
        (set_inbox ib' s)))"
    by (cases "tk_state t = Ticket_completed"; simp add: reconcile_terminal_tickets_def t reconcile_ticket_def env k a(1) Let_def; rule exI; rule refl)
  ultimately show ?thesis
    by (auto simp: log_event_def set_inbox_def service_facts_def work_facts_def audit_def)
qed

lemma find_ticket:
  "service_inv s \<Longrightarrow> t \<in> set (sv_tickets s) \<Longrightarrow> List.find (\<lambda>x. tk_ticket_id x = tk_ticket_id t) (sv_tickets s) = Some t"
  unfolding service_inv_def by (blast intro: find_unique_key)

lemma claimed_turn_ticket:
  assumes "claim_agenda_service_turn E T h stamp clock ts = (Some turn, ts')"
  obtains t where "filter (claimable_ticket E T (strip (hk_actor h)) (hk_raw_text h) clock) ts = [t]" "tt_message_id turn = tk_message_id t"
    "ts' = update_where (\<lambda>x. tk_ticket_id x = tk_ticket_id t \<and> tk_state x = Dispatched)
      (\<lambda>x. x\<lparr>tk_state := Agent_claimed, tk_agent_claimed_at := stamp, tk_updated_at := stamp\<rparr>) ts"
  using assms by (cases rule: claim_turn_cases [of E T h stamp clock ts]) (auto simp: turn_of_ticket_def Let_def split: if_splits)

text \<open>What a capture leaves in the manager.\<close>

lemma capture_agenda_row:
  assumes "capture_agenda_turn H a now m = (Inr u, m')"
  shows "\<exists>r\<in>set (mg_turns m'). tn_direct_turn_id r = H (us_join [strip (ac_agent_session_id a), strip (ac_agent_turn_id a)])
    \<and> tn_destination r = ac_destination a \<and> tn_partition r = ac_partition a"
proof -
  define did where "did = H (us_join [strip (ac_agent_session_id a), strip (ac_agent_turn_id a)])"
  let ?t = "new_turn did (strip (ac_agent_session_id a)) (strip (ac_agent_turn_id a)) (lit ''agenda_service_work'') (ac_partition a)
    (ac_destination a) (strip (ac_service_identity a)) (strip (ac_operation_hint a)) (strip (ac_raw_text a)) now"
  have t: "tn_direct_turn_id ?t = did" "tn_destination ?t = ac_destination a" "tn_partition ?t = ac_partition a" by (simp_all add: new_turn_def)
  obtain ts ls where c: "capture_row True (lit ''agenda_reply_turn_scope_conflict'') ?t (mg_turns m) = Inr ts" "m' = m\<lparr>mg_turns := ts, mg_links := ls\<rparr>"
    using assms by (auto simp: capture_agenda_turn_def Let_def did_def sbind_eq_Inr split: if_splits sum.splits)
  from c(1) show ?thesis
  proof (cases "List.find (\<lambda>x. tn_direct_turn_id x = did) (mg_turns m)")
    case None
    then have "?t \<in> set ts" using c(1) by (auto simp: capture_row_def t insert_turn_def insert_row_def split: option.splits if_splits)
    then show ?thesis using t c(2) unfolding did_def by auto
  next
    case (Some r)
    then have "same_scope True r ?t \<and> ts = mg_turns m" using c(1) by (auto simp: capture_row_def t split: if_splits)
    then show ?thesis using find_SomeD [OF Some] t c(2) unfolding did_def [symmetric] by (auto simp: same_scope_def)
  qed
qed

lemma message_names_ticket:
  assumes "service_inv s" "t \<in> set (sv_tickets s)" "x \<in> set (sv_tickets s)" "tk_message_id x = tk_message_id t"
  shows "x = t"
proof -
  have "names_message x" "names_message t" using assms(1-3) by (simp_all add: service_inv_def)
  then have "tk_ticket_id x = tk_ticket_id t" using assms(4) by (simp add: names_message_def)
  then show ?thesis by (rule unique_ticket [OF assms(1-3)])
qed

lemma filter_single: "distinct xs \<Longrightarrow> x \<in> set xs \<Longrightarrow> filter (\<lambda>y. y = x) xs = [x]"
  by (induction xs) (auto simp: filter_empty_conv)

lemma stage_tickets [simp]: "sv_tickets (snd (service_stage_terminal E bridge tid x clock s)) = sv_tickets s"
    "sv_active (snd (service_stage_terminal E bridge tid x clock s)) = sv_active s"
  by (simp_all add: service_stage_terminal_def case_prod_unfold split: sum.split)

lemma settled_completes:
  assumes "settle_public_model_terminal E bridge contract x stamp clock s = (True, s')" "map_of (sv_active s) (pt_chat_id x) = Some tid"
  shows "\<exists>t\<in>set (sv_tickets s). tk_ticket_id t = tid \<and> tk_state t = Agent_claimed \<and> tk_message_id t = pt_message_id x"
    and "sv_tickets s' = update_where (\<lambda>t. tk_ticket_id t = tid \<and> tk_state t = Agent_claimed)
      (write_response \<lparr>sp_state = Ticket_completed, sp_reply_text = pt_final_reply_text x, sp_delivery_status = lit ''service_ledger_recorded''\<rparr> stamp) (sv_tickets s)"
proof -
  obtain t where t: "List.find (\<lambda>t. tk_ticket_id t = tid) (sv_tickets s) = Some t"
    using assms by (cases "List.find (\<lambda>t. tk_ticket_id t = tid) (sv_tickets s)") (simp_all add: settle_public_model_terminal_def)
  have c: "tk_state t = Agent_claimed" "tk_message_id t = pt_message_id x"
    using assms(1) by (simp_all add: settle_public_model_terminal_def assms(2) t split: if_splits)
  then show "\<exists>t\<in>set (sv_tickets s). tk_ticket_id t = tid \<and> tk_state t = Agent_claimed \<and> tk_message_id t = pt_message_id x"
    using find_SomeD [OF t] by blast
  show "sv_tickets s' = update_where (\<lambda>t. tk_ticket_id t = tid \<and> tk_state t = Agent_claimed)
      (write_response \<lparr>sp_state = Ticket_completed, sp_reply_text = pt_final_reply_text x, sp_delivery_status = lit ''service_ledger_recorded''\<rparr> stamp) (sv_tickets s)"
    using assms(1) by (auto simp: settle_public_model_terminal_def assms(2) t c Let_def case_prod_unfold complete_from_public_terminal_def split: bool.splits if_splits)
qed

section \<open>A sample state\<close>

definition sample_texts :: ticket_texts where
  "sample_texts = \<lparr>tx_lead = lit ''lead'', tx_task = [], tx_governance = [], tx_item = [], tx_closing = [], tx_display = lit ''['' \<rparr>"

definition sample_leased :: "authority \<times> inbox" where
  "sample_leased = fold (inbox_step (\<lambda>s. s) sample_cfg) [Authority (Attest sample_fact (sample_binding (\<lambda>s. s) (lit ''s1'')) 5), Ingest (lit ''u1'') 5 5 sample_fact,
     Claim (\<lambda>n. digits n) (lit ''w1'') 10 10] new_system"

definition sample_ticket :: "ticket_state \<Rightarrow> ticket_row" where
  "sample_ticket st = (new_ticket sample_agenda_env (lit ''k'') (lit ''m'') (lit ''d'') 10 sample_env sample_address)\<lparr>tk_state := st\<rparr>"

definition sample_service :: "ticket_state \<Rightarrow> service" where
  "sample_service st = new_service\<lparr>sv_agenda := new_agenda\<lparr>as_authority := fst sample_leased, as_inbox := snd sample_leased\<rparr>,
     sv_tickets := [sample_ticket st], sv_active := [(lit ''c'', tk_ticket_id (sample_ticket st))]\<rparr>"

lemma sample_leased: "snd sample_leased = sample_inbox
       (sample_row\<lparr>f_state := Leased, f_lease_owner := Some (lit ''w1''), f_lease_until := Some 40\<rparr>)
       (sample_batch\<lparr>b_status := BatchLeased, b_lease_owner := Some (lit ''w1''), b_lease_until := Some 40\<rparr>)"
  using sample_attest by (simp add: sample_leased_def sample_ingest sample_claim)

lemma sample_ticket_columns:
  "tk_state (sample_ticket st) = st" "tk_work_ids (sample_ticket st) = [f_work_id sample_row]" "tk_worker_id (sample_ticket st) = lit ''w1''"
  "tk_batch_id (sample_ticket st) = b_batch_id sample_batch" "tk_expires_at (sample_ticket st) = 1810" "tk_inbox_ack_state (sample_ticket st) = []"
  "tk_agent_claimed_at (sample_ticket st) = []" "tk_message_id (sample_ticket st) = lit ''agenda-message:agenda_ticket_k''"
  "tk_ticket_id (sample_ticket st) = lit ''agenda_ticket_k''" "tk_partition (sample_ticket st) = sample_partition"
  "tk_tenant_id (sample_ticket st) = lit ''t''" "tk_service_identity (sample_ticket st) = lit ''service:agenda:t''"
  "tk_source_identity (sample_ticket st) = lit ''agenda:t''" "tk_payload_sha256 (sample_ticket st) = lit ''m''"
  by (simp_all add: sample_ticket_def new_ticket_def Let_def sample_env_def envelope_fact_of_def ticket_ttl_def lit_def service_actor_def
      agenda_source_def sample_env_columns)

lemma sample_service_columns:
  "sv_tickets (sample_service st) = [sample_ticket st]" "as_inbox (sv_agenda (sample_service st)) = snd sample_leased"
  "sv_active (sample_service st) = [(lit ''c'', tk_ticket_id (sample_ticket st))]" "sv_manager (sample_service st) = new_manager"
  by (simp_all add: sample_service_def new_service_def)

lemma sample_service_inv: "service_inv (sample_service st)"
proof -
  have "system_inv sample_leased" unfolding sample_leased_def by (rule system_reachable_inv)
  moreover have "asys (sv_agenda (sample_service st)) = sample_leased" by (simp add: sample_service_def asys_def)
  moreover have "service_facts (sample_service st) = {}"
    by (simp add: service_facts_def work_facts_def sample_service_columns sample_leased sample_inbox_def delivered_in_def)
  moreover have "names_message (sample_ticket st)" by (simp add: names_message_def sample_ticket_columns flip: lit_append)
  ultimately show ?thesis by (simp add: service_inv_def sample_service_columns unique_key_def)
qed

section \<open>Properties\<close>

text \<open>
  C7: A ticket that an agent's turn has claimed, or that is over, is never handed out again. After any
  later sequence of cycles, polls, reconnections, submissions, timeouts, hooks and shutdowns no row of
  it is issued or dispatched, submitting it is refused without any effect, and no turn of an agent
  gets it.
\<close>

theorem taken_ticket_is_never_redispatched:
  assumes "service_inv s" "t \<in> set (sv_tickets s)" "tk_state t = Agent_claimed \<or> terminal_ticket t"
  shows "let s' = fold (service_step E T B loads) cmds s in
    (\<forall>x\<in>set (sv_tickets s'). tk_ticket_id x = tk_ticket_id t \<longrightarrow> tk_state x \<noteq> Issued \<and> tk_state x \<noteq> Dispatched)
    \<and> (\<exists>e. submit_begin E ready (tk_ticket_id t) stamp clock s' = (Inl e, s'))
    \<and> (\<forall>turn. fst (claim_agenda_service_turn E T h stamp clock (sv_tickets s')) = Some turn \<longrightarrow> tt_message_id turn \<noteq> tk_message_id t)"
proof -
  let ?s' = "fold (service_step E T B loads) cmds s"
  have t: "taken t" using assms(3) by (simp add: taken_def)
  have inv: "service_inv ?s'" using assms(1) by (rule service.run_inv)
  have gone: "tk_state x \<noteq> Issued \<and> tk_state x \<noteq> Dispatched" if "x \<in> set (sv_tickets ?s')" "tk_ticket_id x = tk_ticket_id t" for x
    using taken_stays [OF assms(1,2) t that] by (rule taken_not_claimable)
  have sub: "\<exists>e. submit_begin E ready (tk_ticket_id t) stamp clock ?s' = (Inl e, ?s')"
    by (cases rule: claim_issued_cases [of E "tk_ticket_id t" stamp clock "sv_tickets ?s'"]) (use gone in \<open>auto simp: submit_begin_def\<close>)
  have "tt_message_id turn \<noteq> tk_message_id t" if hook: "fst (claim_agenda_service_turn E T h stamp clock (sv_tickets ?s')) = Some turn" for turn
  proof
    assume m: "tt_message_id turn = tk_message_id t"
    obtain x where "filter (claimable_ticket E T (strip (hk_actor h)) (hk_raw_text h) clock) (sv_tickets ?s') = [x]"
        and xm: "tt_message_id turn = tk_message_id x"
      using hook by (metis claimed_turn_ticket prod.collapse)
    then have "x \<in> set (filter (claimable_ticket E T (strip (hk_actor h)) (hk_raw_text h) clock) (sv_tickets ?s'))" by simp
    then have x: "x \<in> set (sv_tickets ?s')" "tk_state x = Dispatched" by (simp_all add: claimable_ticket_def)
    have "names_message x" "names_message t" using inv x(1) assms(1,2) by (simp_all add: service_inv_def)
    then have "tk_ticket_id x = tk_ticket_id t" using m xm by (simp add: names_message_def)
    then show False using gone [OF x(1)] x(2) by simp
  qed
  then show ?thesis using gone sub by (simp add: Let_def)
qed

lemma taken_ticket_is_never_redispatched_witness:
  "\<exists>e. submit_begin sample_agenda_env True (lit ''agenda_ticket_k'') [] 20
      (fold (service_step sample_agenda_env sample_texts sample_outbox_env (\<lambda>_. None)) [Connect [], Poll [] 5000] (sample_service Agent_claimed))
    = (Inl e, fold (service_step sample_agenda_env sample_texts sample_outbox_env (\<lambda>_. None)) [Connect [], Poll [] 5000] (sample_service Agent_claimed))"
proof -
  have "sample_ticket Agent_claimed \<in> set (sv_tickets (sample_service Agent_claimed))" by (simp add: sample_service_columns)
  from taken_ticket_is_never_redispatched [OF sample_service_inv this, of sample_agenda_env sample_texts sample_outbox_env "\<lambda>_. None" "[Connect [], Poll [] 5000]" True "[]" 20]
  show ?thesis unfolding Let_def sample_ticket_columns by blast
qed


text \<open>
  A ticket that no agent ever saw consumes its work. When an issued ticket passes its expiry
  before the adapter could submit it, the adapter's poll marks it expired, and the next cycle
  acknowledges every fact of its batch as delivered.
\<close>

theorem unclaimed_ticket_consumes_its_work:
  assumes "service_inv s" "t \<in> set (sv_tickets s)" "tk_state t = Issued" "tk_expires_at t < clock" "tk_inbox_ack_state t = []"
    "\<forall>x\<in>set (sv_tickets s). x \<noteq> t \<longrightarrow> \<not> unsettled x \<and> \<not> (tk_state x = Issued \<and> tk_expires_at x < clock)"
    "\<exists>b\<in>set (ib_batches (as_inbox (sv_agenda s))). b_batch_id b = tk_batch_id t \<and> b_status b = BatchLeased \<and> b_lease_owner b = Some (tk_worker_id t)"
    "set (tk_work_ids t) \<subseteq> leased_to (tk_worker_id t) s"
    "lit ''wb_'' @ take 24 (uuids 0) \<notin> batch_ids (as_inbox (sv_agenda s))"
  shows "\<exists>s'. reconcile_terminal_tickets E uuids stamp now (snd (next_issued_ticket_id stamp clock s)) = (Inr 1, s')
    \<and> set (tk_work_ids t) \<subseteq> f_work_id ` {r \<in> set (work_facts s'). f_state r = Delivered}
    \<and> (\<exists>x\<in>set (sv_tickets s'). tk_ticket_id x = tk_ticket_id t \<and> tk_state x = Ticket_expired \<and> tk_agent_claimed_at x = tk_agent_claimed_at t)"
proof -
  let ?P = "\<lambda>t. tk_state t = Issued \<and> tk_expires_at t < clock" and ?f = "\<lambda>t. t\<lparr>tk_state := Ticket_expired, tk_updated_at := stamp\<rparr>"
  let ?s1 = "snd (next_issued_ticket_id stamp clock s)"
  have s1: "sv_tickets ?s1 = update_where ?P ?f (sv_tickets s)" "sv_agenda ?s1 = sv_agenda s" by (simp_all add: next_issued_ticket_id_def Let_def)
  have inv: "service_inv ?s1" using next_issued_changes assms(1) by (rule changes_inv)
  let ?g = "\<lambda>x. if ?P x then ?f x else x"
  have d: "distinct (sv_tickets s)" using assms(1) by (auto simp: service_inv_def unique_key_def distinct_map)
  have g: "unsettled (?g x) \<longleftrightarrow> x = t" if "x \<in> set (sv_tickets s)" for x
    using assms(3-6) that by (auto simp: unsettled_def terminal_ticket_def)
  have "filter unsettled (sv_tickets ?s1) = map ?g (filter (\<lambda>x. unsettled (?g x)) (sv_tickets s))"
    unfolding s1(1) update_where_def filter_map o_def ..
  also have "filter (\<lambda>x. unsettled (?g x)) (sv_tickets s) = filter (\<lambda>x. x = t) (sv_tickets s)"
    using g by (intro filter_cong) simp_all
  also have "\<dots> = [t]" using d assms(2) by (rule filter_single)
  finally have one: "filter unsettled (sv_tickets ?s1) = [?f t]" using assms(3,4) by simp
  have "leased_to w ?s1 = leased_to w s" for w by (simp add: leased_to_def work_facts_def s1(2))
  then obtain s' where s': "reconcile_terminal_tickets E uuids stamp now ?s1 = (Inr 1, s')" "set (tk_work_ids t) \<subseteq> service_facts s'"
      "sv_tickets s' = update_where (\<lambda>x. tk_ticket_id x = tk_ticket_id t) (\<lambda>x. x\<lparr>tk_inbox_ack_state := lit ''acknowledged'',
        tk_terminal_kind := lit ''agent_inconclusive'', tk_updated_at := stamp\<rparr>) (sv_tickets ?s1)"
    using reconcile_terminal [OF inv one, of uuids E stamp now] assms(7-9) by (auto simp: s1(2))
  have "?f t \<in> set (filter unsettled (sv_tickets ?s1))" unfolding one by simp
  then have "?f t \<in> set (sv_tickets ?s1)" by simp
  then have "\<exists>x\<in>set (sv_tickets s'). tk_ticket_id x = tk_ticket_id t \<and> tk_state x = Ticket_expired \<and> tk_agent_claimed_at x = tk_agent_claimed_at t"
    unfolding s'(3) bex_update_where by (intro bexI [of _ "?f t"]) simp_all
  then show ?thesis using s'(1,2) unfolding service_facts_def delivered_in_def by blast
qed

lemma unclaimed_ticket_consumes_its_work_witness:
  "\<exists>s'. reconcile_terminal_tickets sample_agenda_env digits [] 20 (snd (next_issued_ticket_id [] 2000 (sample_service Issued))) = (Inr 1, s')
    \<and> f_work_id sample_row \<in> f_work_id ` {r \<in> set (work_facts s'). f_state r = Delivered}"
proof -
  let ?t = "sample_ticket Issued" and ?s = "sample_service Issued"
  have "\<exists>b\<in>set (ib_batches (as_inbox (sv_agenda ?s))). b_batch_id b = tk_batch_id ?t \<and> b_status b = BatchLeased \<and> b_lease_owner b = Some (tk_worker_id ?t)"
    by (simp add: sample_service_columns sample_leased sample_inbox_def sample_ticket_columns)
  moreover have "set (tk_work_ids ?t) \<subseteq> leased_to (tk_worker_id ?t) ?s"
    by (auto simp: sample_service_columns sample_leased sample_inbox_def sample_ticket_columns leased_to_def work_facts_def)
  moreover have "lit ''wb_'' @ take 24 (digits 0) \<notin> batch_ids (as_inbox (sv_agenda ?s))"
    by (simp add: sample_service_columns sample_leased sample_inbox_def batch_ids_def sample_batch_def new_batch_def digits.simps lit_def)
  ultimately show ?thesis
    using unclaimed_ticket_consumes_its_work [OF sample_service_inv, of ?t Issued 2000 digits sample_agenda_env "[]" 20]
    by (auto simp: sample_service_columns sample_ticket_columns)
qed


lemma sample_hook_strips: "strip (lit ''service:agenda:t'') = lit ''service:agenda:t''" "strip (lit ''s'') = lit ''s''" "strip (lit ''u'') = lit ''u''"
    "strip (lit ''w'') = lit ''w''" "strip (lit ''t'') = lit ''t''" "strip (lit ''m'') = lit ''m''"
    "strip (lit ''agenda_ticket_k'') = lit ''agenda_ticket_k''" "strip (lit ''agenda-message:agenda_ticket_k'') = lit ''agenda-message:agenda_ticket_k''"
    "drop (length service_prefix) (lit ''service:agenda:t'') = lit ''t''" "take (length service_prefix) (lit ''service:agenda:t'') = service_prefix"
    "\<not> length (lit ''service:agenda:t'') \<le> length service_prefix"
  by (simp_all add: strip_def lit_def is_space_def service_prefix_def)

text \<open>A claimed ticket whose turn has prepared a message, and its settlement.\<close>

definition sample_linked :: manager where
  "sample_linked = new_manager\<lparr>mg_turns := [sample_turn_row\<lparr>tn_user_message := lit ''ok''\<rparr>],
     mg_links := [\<lparr>tl_ticket_id = lit ''agenda_ticket_k'', tl_direct_turn_id = tn_direct_turn_id sample_turn_row, tl_created_at = 1, tl_updated_at = 1\<rparr>]\<rparr>"

lemma sample_open_notice:
  assumes "strip operation = operation" "operation \<noteq> []" "\<not> blank a" "\<not> blank tr"
  shows "\<exists>j ob. observe_agent_notice (\<lambda>s. s) operation (observation_for (sample_turn_row\<lparr>tn_user_message := lit ''ok''\<rparr>) a (lit ''completed'') su tr (lit ''ok'') False) now new_outbox
    = (Inr (Some j), ob)"
proof -
  obtain canon where c: "canonical sample_address = Inr canon" using sample_address_canonical by blast
  have r: "tn_destination sample_turn_row = sample_address" "tn_partition sample_turn_row = sample_scope"
    "rd_tenant_id sample_address = tq_tenant_id sample_scope"
    by (simp_all add: sample_turn_row_def new_turn_def sample_address_def sample_scope_def)
  have k: "\<not> blank (lit ''completed'')" by (simp add: blank_lit is_space_def)
  show ?thesis
    by (simp add: observe_agent_notice_def assms k observation_for_def r Let_def observe_notice_body_def c find_job_def new_outbox_def
        insert_job_def insert_row_def transaction_def)
qed

lemma settle_sample:
  assumes "sv_tickets s = [t]" "tk_state t = Agent_claimed" "tk_ticket_id t = lit ''agenda_ticket_k''" "tk_message_id t = lit ''agenda-message:agenda_ticket_k''"
    "sv_active s = [(lit ''c'', lit ''agenda_ticket_k'')]" "sv_manager s = sample_linked" "ae_sha E = (\<lambda>s. s)"
  shows "\<exists>s1. settle_public_model_terminal E True True \<lparr>pt_chat_id = lit ''c'', pt_message_id = lit ''agenda-message:agenda_ticket_k'',
    pt_final_reply_text = lit ''ok'', pt_trace_ref = lit ''tr''\<rparr> [] 20 s = (True, s1)"
proof -
  let ?row = "sample_turn_row\<lparr>tn_user_message := lit ''ok''\<rparr>"
  have ok: "strip (lit ''ok'') = lit ''ok''" "\<not> framework_terminal_reply_unavailable (lit ''ok'')"
    by (simp_all add: framework_terminal_reply_unavailable_def contains_def strip_def lower_def lit_def is_space_def upt_rec)
  have cols: "tn_receipt ?row = None" "tn_user_message ?row = lit ''ok''" by (simp_all add: sample_turn_row_def new_turn_def)
  have op: "strip (lit ''agenda-notice:agenda_ticket_k'') = lit ''agenda-notice:agenda_ticket_k''" by (simp add: strip_def lit_def is_space_def)
  have nb: "\<not> blank (lit ''agenda-terminal:'' @ x)" "\<not> blank (lit ''tr'')" for x
    by (simp_all add: blank_def strip_eq_Nil lit_def is_space_def)
  obtain j ob where n: "observe_agent_notice (\<lambda>s. s) (lit ''agenda-notice:agenda_ticket_k'')
      (observation_for ?row (lit ''agenda-terminal:'' @ tn_direct_turn_id ?row) (lit ''completed'') (Some True) (lit ''tr'') (lit ''ok'') False) 20 new_outbox = (Inr (Some j), ob)"
    using sample_open_notice [OF op _ nb, of "tn_direct_turn_id ?row" "Some True" 20] by auto
  have "row_for_ticket (lit ''agenda_ticket_k'') sample_linked = Some ?row"
    by (simp add: row_for_ticket_def sample_linked_def new_manager_def)
  then have "\<exists>m. stage_agenda_ticket_terminal render (\<lambda>s. s) (lit ''agenda_ticket_k'') \<lparr>sg_terminal_state = lit ''completed'', sg_provider_succeeded = Some True,
      sg_final_reply_text = lit ''ok'', sg_raw_trace_ref = lit ''tr''\<rparr> 20 sample_linked = (Inr (Some j), m)" for render
    using n by (simp add: stage_agenda_ticket_terminal_def sample_hook_strips turn_fact_def cols ok Let_def or_else_def staged_def
        sample_linked_def new_manager_def flip: lit_append)
  then obtain m where m: "stage_agenda_ticket_terminal (ae_render E) (\<lambda>s. s) (lit ''agenda_ticket_k'') \<lparr>sg_terminal_state = lit ''completed'', sg_provider_succeeded = Some True,
      sg_final_reply_text = lit ''ok'', sg_raw_trace_ref = lit ''tr''\<rparr> 20 sample_linked = (Inr (Some j), m)" by blast
  show ?thesis
    by (simp add: settle_public_model_terminal_def assms ok Let_def service_stage_terminal_def state_text_def m)
qed

lemma sample_settle: "\<exists>s1. settle_public_model_terminal sample_agenda_env True True \<lparr>pt_chat_id = lit ''c'', pt_message_id = lit ''agenda-message:agenda_ticket_k'',
    pt_final_reply_text = lit ''ok'', pt_trace_ref = lit ''tr''\<rparr> [] 20 ((sample_service Agent_claimed)\<lparr>sv_manager := sample_linked\<rparr>) = (True, s1)"
  by (rule settle_sample [of _ "sample_ticket Agent_claimed"]) (simp_all add: sample_service_columns sample_ticket_columns sample_env_columns)

definition sample_hook :: agent_hook where
  "sample_hook = \<lparr>hk_actor = lit ''service:agenda:t'', hk_raw_text = lit ''m'', hk_agent_session_id = lit ''s'', hk_agent_turn_id = lit ''u''\<rparr>"

definition sample_dispatched :: ticket_row where
  "sample_dispatched = (sample_ticket Dispatched)\<lparr>tk_partition := \<lparr>tq_partition_id = lit ''p'', tq_tenant_id = lit ''t'',
     tq_canonical_actor_id = lit ''service:agenda:t'', tq_principal_kind = lit ''service'', tq_trusted_session_id = lit ''w'',
     tq_continuity_id = None, tq_source_identity = lit ''agenda:t''\<rparr>, tk_destination := wecom_destination sample_agenda_env (lit ''a'')\<rparr>"

lemma sample_dispatched_service: "service_inv ((sample_service Dispatched)\<lparr>sv_tickets := [sample_dispatched]\<rparr>)"
  using sample_service_inv [of Dispatched]
  by (simp add: service_inv_def sample_service_columns unique_key_def names_message_def sample_dispatched_def service_facts_def work_facts_def sample_ticket_columns)
    (simp add: sample_leased sample_inbox_def delivered_in_def)

lemma sample_hook_claims: "\<exists>s'. service_hook sample_agenda_env sample_texts sample_hook [] 20 ((sample_service Dispatched)\<lparr>sv_tickets := [sample_dispatched]\<rparr>) = (True, s')"
proof -
  let ?t = "sample_dispatched" and ?E = sample_agenda_env
  let ?c = "?t\<lparr>tk_state := Agent_claimed, tk_agent_claimed_at := [], tk_updated_at := []\<rparr>"
  have cols: "tk_state ?t = Dispatched" "tk_service_identity ?t = lit ''service:agenda:t''" "tk_payload_sha256 ?t = lit ''m''" "tk_expires_at ?t = 1810"
      "tk_tenant_id ?t = lit ''t''" "tk_source_identity ?t = lit ''agenda:t''" "tk_ticket_id ?t = lit ''agenda_ticket_k''"
      "tk_message_id ?t = lit ''agenda-message:agenda_ticket_k''" "tk_agent_session_id ?t = []" "tk_agent_turn_id ?t = []"
    by (simp_all add: sample_dispatched_def sample_ticket_columns) (simp_all add: sample_ticket_def new_ticket_def Let_def)
  have scope: "tq_tenant_id (tk_partition ?t) = lit ''t''" "tq_canonical_actor_id (tk_partition ?t) = lit ''service:agenda:t''"
      "tq_principal_kind (tk_partition ?t) = lit ''service''" "tq_source_identity (tk_partition ?t) = lit ''agenda:t''"
      "rd_tenant_id (tk_destination ?t) = lit ''t''" "rd_channel (tk_destination ?t) = lit ''wecom_callback''"
    by (simp_all add: sample_dispatched_def wecom_destination_def sample_env_columns)
  have raw: "map (ae_sha ?E) (texts_of_turn sample_texts (lit ''m'')) = [lit ''m'']"
    by (simp add: texts_of_turn_def sample_texts_def sample_env_columns lit_def)
  have turn: "turn_of_ticket ?E (lit ''t'') (lit ''service:agenda:t'') (lit ''u'') ?t = Some \<lparr>tt_platform = lit ''agenda_service_work'', tt_tenant_id = lit ''t'',
      tt_canonical_user_id = lit ''service:agenda:t'', tt_chat_id = trusted_chat_id ?E (lit ''t'') (lit ''w''), tt_continuity_key = lit ''w'',
      tt_message_id = lit ''agenda-message:agenda_ticket_k'', tt_turn_id = lit ''u''\<rparr>"
    by (simp add: turn_of_ticket_def Let_def cols sample_hook_strips) (simp add: sample_dispatched_def sample_hook_strips flip: lit_append)
  have claim: "claim_agenda_service_turn ?E sample_texts sample_hook [] 20 [?t] = (turn_of_ticket ?E (lit ''t'') (lit ''service:agenda:t'') (lit ''u'') ?t, [?c])"
    by (simp add: claim_agenda_service_turn_def sample_hook_def Let_def sample_hook_strips claimable_ticket_def cols raw rowcount_def update_where_def flip: lit_append)
  show ?thesis
    by (simp add: service_hook_def sample_service_columns claim turn)
      (simp add: sample_hook_def claimed_ticket_context_def Let_def raw cols sample_hook_strips capture_agenda_turn_def update_where_def
        scope sample_service_columns new_manager_def capture_row_def insert_turn_def insert_row_def link_ticket_def flip: lit_append)
qed


text \<open>
  A shutdown does not settle the turn it interrupts. The adapter's disconnect means to end the
  ticket of every turn that is still active as failed, and does so for a turn that it does not await;
  but it first cancels the task that awaits the turn, whose clean-up forgets the turn, so that the
  claimed ticket and the reply of the turn stay as they were.
\<close>

theorem shutdown_leaves_claimed_ticket:
  assumes "sv_active s = [(chat, tid)]"
  shows "sv_tickets (disconnect E bridge (Some (chat, tid)) stamp clock s) = sv_tickets s
    \<and> sv_manager (disconnect E bridge (Some (chat, tid)) stamp clock s) = sv_manager s
    \<and> (\<forall>t\<in>set (sv_tickets (disconnect E bridge None stamp clock s)). tk_ticket_id t = tid \<longrightarrow> tk_state t = Ticket_failed)"
  using assms
  by (simp add: disconnect_def submit_end_def Let_def interrupt_ticket_def complete_ticket_def ball_update_where write_response_def failed_response_def)

lemma shutdown_leaves_claimed_ticket_witness:
  "sv_tickets (disconnect sample_agenda_env True (Some (lit ''c'', lit ''agenda_ticket_k'')) [] 20 (sample_service Agent_claimed)) = [sample_ticket Agent_claimed]"
  using shutdown_leaves_claimed_ticket [of "sample_service Agent_claimed" "lit ''c''" "lit ''agenda_ticket_k''" sample_agenda_env True "[]" 20]
  by (simp add: sample_service_columns sample_ticket_columns)

text \<open>
  A late timeout overwrites a completed turn. When the agent's final reply has been settled, its
  ticket is completed and holds the reply; if the wait of the submission times out before it is woken,
  the unguarded update of the adapter turns the ticket into a timeout and erases the reply text.
\<close>

theorem late_timeout_overwrites_completion:
  assumes "settle_public_model_terminal E bridge contract x stamp clock s = (True, s1)" "map_of (sv_active s) (pt_chat_id x) = Some tid"
  shows "(\<exists>t\<in>set (sv_tickets s1). tk_ticket_id t = tid \<and> tk_state t = Ticket_completed \<and> tk_reply_text t = pt_final_reply_text x)
    \<and> (\<forall>t\<in>set (sv_tickets (submit_end E bridge' chat tid Timed_out stamp' clock' s1)). tk_ticket_id t = tid \<longrightarrow>
        tk_state t = Ticket_timeout \<and> tk_reply_text t = [])"
proof
  obtain t where t: "t \<in> set (sv_tickets s)" "tk_ticket_id t = tid" "tk_state t = Agent_claimed"
    using settled_completes(1) [OF assms] by blast
  show "\<exists>t\<in>set (sv_tickets s1). tk_ticket_id t = tid \<and> tk_state t = Ticket_completed \<and> tk_reply_text t = pt_final_reply_text x"
    unfolding settled_completes(2) [OF assms] bex_update_where using t by (intro bexI [of _ t]) (simp_all add: write_response_def)
  show "\<forall>t\<in>set (sv_tickets (submit_end E bridge' chat tid Timed_out stamp' clock' s1)). tk_ticket_id t = tid \<longrightarrow>
        tk_state t = Ticket_timeout \<and> tk_reply_text t = []"
    by (simp add: submit_end_def Let_def complete_ticket_def ball_update_where write_response_def failed_response_def)
qed

lemma late_timeout_overwrites_completion_witness:
  "\<exists>s1. settle_public_model_terminal sample_agenda_env True True \<lparr>pt_chat_id = lit ''c'', pt_message_id = lit ''agenda-message:agenda_ticket_k'',
        pt_final_reply_text = lit ''ok'', pt_trace_ref = lit ''tr''\<rparr> [] 20 ((sample_service Agent_claimed)\<lparr>sv_manager := sample_linked\<rparr>) = (True, s1)
    \<and> (\<forall>t\<in>set (sv_tickets (submit_end sample_agenda_env True (lit ''c'') (lit ''agenda_ticket_k'') Timed_out [] 20 s1)).
        tk_ticket_id t = lit ''agenda_ticket_k'' \<longrightarrow> tk_state t = Ticket_timeout \<and> tk_reply_text t = [])"
proof -
  let ?x = "\<lparr>pt_chat_id = lit ''c'', pt_message_id = lit ''agenda-message:agenda_ticket_k'', pt_final_reply_text = lit ''ok'', pt_trace_ref = lit ''tr''\<rparr>"
  let ?s = "(sample_service Agent_claimed)\<lparr>sv_manager := sample_linked\<rparr>"
  obtain s1 where s1: "settle_public_model_terminal sample_agenda_env True True ?x [] 20 ?s = (True, s1)" using sample_settle by blast
  have "map_of (sv_active ?s) (pt_chat_id ?x) = Some (lit ''agenda_ticket_k'')" by (simp add: sample_service_columns sample_ticket_columns)
  from late_timeout_overwrites_completion [OF s1 this, of True "lit ''c''" "[]" 20] s1 show ?thesis by blast
qed

end
