(* ===== verification/TurnRegistry.thy ===== *)
theory TurnRegistry
  imports AgendaService
begin

text \<open>
  \<^verbatim>\<open>runtime/plugins/tuoguan_core/runtime_contract.py\<close>: the registry of trusted turns, from which every tool
  takes tenant, actor and role. Turns are kept by session and turn id; a robot turn that its device
  adapter has verified waits as a one-shot ingress until the agent's hook claims it. The process-wide
  dictionaries and the context variable are one record; the clock is an argument, and so is the
  identity directory. An exception leaves the state as it was when it was raised.
\<close>

section \<open>State\<close>

record user_identity =
  ui_platform :: pystr
  ui_platform_user_id :: pystr
  ui_canonical_user_id :: pystr
  ui_person_name :: pystr
  ui_role :: pystr
  ui_approval_state :: pystr

record turn_record =
  tr_platform :: pystr
  tr_tenant_id :: pystr
  tr_identity :: user_identity
  tr_chat_id :: pystr
  tr_session_id :: pystr
  tr_turn_id :: pystr
  tr_message_id :: pystr
  tr_issued_at :: timestamp
  tr_source :: pystr
  tr_continuity_key :: pystr
  tr_host_transforms :: bool

type_synonym ingress_key = "pystr \<times> pystr \<times> pystr"

record registry =
  rg_sessions :: "(pystr, (pystr, turn_record) dict) dict"
  rg_pending :: "(ingress_key, turn_record list) dict"
  rg_active :: "turn_record option"

datatype registry_error = Name_error

record registry_env =
  re_sha :: "pystr \<Rightarrow> pystr"
  re_tenant :: pystr
  re_resolve :: "pystr \<Rightarrow> pystr \<Rightarrow> pystr \<Rightarrow> pystr \<Rightarrow> user_identity"

definition actor_of :: "turn_record \<Rightarrow> pystr" where
  "actor_of r = ui_canonical_user_id (tr_identity r)"

definition turn_principal :: "turn_record \<Rightarrow> pystr \<times> pystr \<times> pystr" where
  "turn_principal r = (actor_of r, tr_tenant_id r, tr_platform r)"

definition turn_ttl :: rat where
  "turn_ttl = 1200"

definition trusted_channels :: "pystr list" where
  "trusted_channels = [lit ''wecom_callback'', lit ''robot_poc'', lit ''feishu'', lit ''agenda_service_work'']"

definition normalise_platform :: "pystr \<Rightarrow> pystr" where
  "normalise_platform v = lower (strip v)"

definition normalise_actor :: "pystr \<Rightarrow> pystr" where
  "normalise_actor v = (let actor = strip v in if colon \<in> set actor then strip (snd (split_once colon actor)) else actor)"

definition trusted_continuity_key :: "registry_env \<Rightarrow> pystr \<Rightarrow> pystr \<Rightarrow> pystr \<Rightarrow> pystr \<Rightarrow> pystr" where
  "trusted_continuity_key V platform tenant actor chat =
     lit ''xyc1_'' @ re_sha V (us_join [lit ''xiaoyou-continuity-v1'', platform, tenant, actor, chat])"

definition turns_of :: "pystr \<Rightarrow> registry \<Rightarrow> (pystr, turn_record) dict" where
  "turns_of session st = (case map_of (rg_sessions st) session of None \<Rightarrow> [] | Some ts \<Rightarrow> ts)"

definition bound_turn :: "pystr \<Rightarrow> pystr \<Rightarrow> registry \<Rightarrow> turn_record option" where
  "bound_turn session turn st = map_of (turns_of session st) turn"

section \<open>Expiry\<close>

definition fresh_turn :: "timestamp \<Rightarrow> turn_record \<Rightarrow> bool" where
  "fresh_turn now r \<longleftrightarrow> now - tr_issued_at r \<le> turn_ttl"

text \<open>
  \<open>_purge_expired_locked\<close>. The loop over the stale keys reads a name that the function does not define,
  as soon as it meets an entry that has rows; only entries before that one have been removed then.
\<close>

definition purge_sessions :: "timestamp \<Rightarrow> (pystr, (pystr, turn_record) dict) dict \<Rightarrow> (pystr, (pystr, turn_record) dict) dict" where
  "purge_sessions now ss = filter (\<lambda>(s, ts). ts \<noteq> []) (map (\<lambda>(s, ts). (s, filter (\<lambda>(t, r). fresh_turn now r) ts)) ss)"

definition keep_fresh :: "timestamp \<Rightarrow> (ingress_key, turn_record list) dict \<Rightarrow> (ingress_key, turn_record list) dict" where
  "keep_fresh now ps = map (\<lambda>(k, rows). (k, if list_ex (fresh_turn now) rows then filter (fresh_turn now) rows else rows)) ps"

definition stale_ingress :: "timestamp \<Rightarrow> (ingress_key, turn_record list) dict \<Rightarrow> bool" where
  "stale_ingress now ps \<longleftrightarrow> list_ex (\<lambda>(k, rows). \<not> list_ex (fresh_turn now) rows) ps"

definition purge_expired :: "timestamp \<Rightarrow> (registry, registry_error, unit) op" where
  "purge_expired now st =
     (let ps = keep_fresh now (rg_pending st); st1 = st\<lparr>rg_sessions := purge_sessions now (rg_sessions st), rg_pending := ps\<rparr> in
      if \<not> stale_ingress now (rg_pending st) then (Inr (), st1)
      else case dropWhile (\<lambda>(k, rows). rows = []) ps of
        [] \<Rightarrow> (Inr (), st1\<lparr>rg_pending := []\<rparr>)
      | rest \<Rightarrow> (Inl Name_error, st1\<lparr>rg_pending := rest\<rparr>))"

section \<open>Binding\<close>

text \<open>\<open>turns[turn] = existing or record\<close>, unless another principal holds the turn.\<close>

definition install :: "pystr \<Rightarrow> pystr \<Rightarrow> turn_record \<Rightarrow> registry \<Rightarrow> turn_record option \<times> registry" where
  "install session turn r st =
     (let ts = turns_of session st in
      case map_of ts turn of
        Some x \<Rightarrow> if turn_principal x \<noteq> turn_principal r then (None, st) else (Some x, st\<lparr>rg_active := Some x\<rparr>)
      | None \<Rightarrow> (Some r, st\<lparr>rg_sessions := AList.update session (AList.update turn r ts) (rg_sessions st), rg_active := Some r\<rparr>))"

definition enter_turn :: "pystr \<Rightarrow> pystr \<Rightarrow> turn_record \<Rightarrow> timestamp \<Rightarrow> (registry, registry_error, turn_record option) op" where
  "enter_turn session turn r now st = (case purge_expired now st of
     (Inl e, st1) \<Rightarrow> (Inl e, st1)
   | (Inr _, st1) \<Rightarrow> (case install session turn r st1 of (x, st2) \<Rightarrow> (Inr x, st2)))"

record bind_args =
  ba_platform :: pystr
  ba_actor_user_id :: pystr
  ba_session_id :: pystr
  ba_turn_id :: pystr
  ba_message_id :: pystr
  ba_chat_id :: pystr
  ba_user_name :: pystr
  ba_tenant_id :: pystr
  ba_source :: pystr
  ba_host_transforms :: bool

definition record_of :: "registry_env \<Rightarrow> bind_args \<Rightarrow> timestamp \<Rightarrow> turn_record option" where
  "record_of V b now =
     (let platform = normalise_platform (ba_platform b); actor = normalise_actor (ba_actor_user_id b); session = strip (ba_session_id b);
          turn = or_else (strip (ba_turn_id b)) (strip (ba_message_id b)); message = or_else (strip (ba_message_id b)) turn;
          chat = or_else (strip (ba_chat_id b)) session; tenant = or_else (strip (or_else (ba_tenant_id b) (re_tenant V))) (re_tenant V) in
      if platform \<notin> set trusted_channels \<or> actor = [] \<or> session = [] \<or> turn = [] then None
      else (let who = re_resolve V (if platform = lit ''robot_poc'' then lit ''wecom_callback'' else platform) actor (ba_user_name b) chat in
        Some \<lparr>tr_platform = platform, tr_tenant_id = tenant, tr_identity = who, tr_chat_id = chat, tr_session_id = session, tr_turn_id = turn,
          tr_message_id = message, tr_issued_at = now, tr_source = or_else (ba_source b) (lit ''public_lifecycle_hook''),
          tr_continuity_key = trusted_continuity_key V platform tenant (ui_canonical_user_id who) chat, tr_host_transforms = ba_host_transforms b\<rparr>))"

definition bind_trusted_turn :: "registry_env \<Rightarrow> bind_args \<Rightarrow> timestamp \<Rightarrow> (registry, registry_error, turn_record option) op" where
  "bind_trusted_turn V b now st = (case record_of V b now of
     None \<Rightarrow> (Inr None, st)
   | Some r \<Rightarrow> enter_turn (tr_session_id r) (tr_turn_id r) r now st)"

definition robot_args :: "bind_args \<Rightarrow> bind_args" where
  "robot_args b = b\<lparr>ba_platform := lit ''robot_poc'', ba_user_name := [], ba_source := lit ''robot_device_registry''\<rparr>"

definition pending_of :: "ingress_key \<Rightarrow> registry \<Rightarrow> turn_record list" where
  "pending_of k st = (case map_of (rg_pending st) k of None \<Rightarrow> [] | Some rows \<Rightarrow> rows)"

definition add_ingress :: "turn_record \<Rightarrow> turn_record list \<Rightarrow> turn_record list" where
  "add_ingress r rows = (if list_ex (\<lambda>x. tr_message_id x = tr_message_id r) rows then rows else rows @ [r])"

definition bind_robot_device_turn :: "registry_env \<Rightarrow> bind_args \<Rightarrow> pystr \<Rightarrow> timestamp \<Rightarrow> (registry, registry_error, turn_record option) op" where
  "bind_robot_device_turn V b text now st = (case bind_trusted_turn V (robot_args b) now st of
     (Inl e, st1) \<Rightarrow> (Inl e, st1)
   | (Inr None, st1) \<Rightarrow> (Inr None, st1)
   | (Inr (Some r), st1) \<Rightarrow> (case purge_expired (tr_issued_at r) st1 of
       (Inl e, st2) \<Rightarrow> (Inl e, st2)
     | (Inr _, st2) \<Rightarrow>
         (let k = (tr_platform r, actor_of r, re_sha V text) in
          (Inr (Some r), st2\<lparr>rg_pending := AList.update k (add_ingress r (pending_of k st2)) (rg_pending st2)\<rparr>))))"

section \<open>Claiming a robot ingress\<close>

definition same_ingress :: "turn_record \<Rightarrow> turn_record \<Rightarrow> bool" where
  "same_ingress a b \<longleftrightarrow> tr_message_id a = tr_message_id b \<and> tr_session_id a = tr_session_id b \<and> tr_turn_id a = tr_turn_id b"

definition consume_ingress :: "turn_record \<Rightarrow> (ingress_key, turn_record list) dict \<Rightarrow> (ingress_key, turn_record list) dict" where
  "consume_ingress r ps = filter (\<lambda>(k, rows). rows \<noteq> []) (map (\<lambda>(k, rows). (k, filter (\<lambda>x. \<not> same_ingress x r) rows)) ps)"

definition pop_turn :: "pystr \<Rightarrow> pystr \<Rightarrow> (pystr, (pystr, turn_record) dict) dict \<Rightarrow> (pystr, (pystr, turn_record) dict) dict" where
  "pop_turn session turn ss = (case map_of ss session of
     None \<Rightarrow> ss
   | Some ts \<Rightarrow> (let ts' = AList.delete turn ts in if ts' = [] then AList.delete session ss else AList.update session ts' ss))"

definition transformed_ingress :: "pystr \<Rightarrow> (ingress_key, turn_record list) dict \<Rightarrow> turn_record list" where
  "transformed_ingress actor ps = filter tr_host_transforms
     (concat (map (\<lambda>((platform, who, _), rows). if platform = lit ''robot_poc'' \<and> who = actor then rows else []) ps))"

definition ingress_candidates :: "registry_env \<Rightarrow> pystr \<Rightarrow> pystr \<Rightarrow> registry \<Rightarrow> turn_record list" where
  "ingress_candidates V actor text st =
     (let exact = pending_of (lit ''robot_poc'', actor, re_sha V text) st; transformed = transformed_ingress actor (rg_pending st) in
      if length exact = 1 then exact else if length transformed = 1 then transformed else [])"

definition claim_robot_turn :: "registry_env \<Rightarrow> pystr \<Rightarrow> pystr \<Rightarrow> pystr \<Rightarrow> pystr \<Rightarrow> timestamp \<Rightarrow> (registry, registry_error, turn_record option) op" where
  "claim_robot_turn V actor_user_id text agent_session_id agent_turn_id now st =
     (let actor = normalise_actor actor_user_id; session = strip agent_session_id; turn = strip agent_turn_id in
      if actor = [] \<or> session = [] \<or> turn = [] then (Inr None, st)
      else case purge_expired now st of
        (Inl e, st1) \<Rightarrow> (Inl e, st1)
      | (Inr _, st1) \<Rightarrow> (case ingress_candidates V actor text st1 of
          [i] \<Rightarrow>
            (let st2 = st1\<lparr>rg_pending := consume_ingress i (rg_pending st1), rg_sessions := pop_turn (tr_session_id i) (tr_turn_id i) (rg_sessions st1)\<rparr>;
                 r = i\<lparr>tr_session_id := session, tr_turn_id := turn, tr_issued_at := now, tr_source := lit ''robot_device_registry_public_hook_bridge''\<rparr> in
             case install session turn r st2 of (x, st3) \<Rightarrow> (Inr x, st3))
        | _ \<Rightarrow> (Inr None, st1)))"

section \<open>The turn of a service ticket\<close>

text \<open>The end of \<open>claim_agenda_service_turn_for_agent\<close>, after its ticket has been claimed.\<close>

definition service_record :: "trusted_turn \<Rightarrow> pystr \<Rightarrow> pystr \<Rightarrow> pystr \<Rightarrow> timestamp \<Rightarrow> turn_record" where
  "service_record t name session turn now =
     \<lparr>tr_platform = tt_platform t, tr_tenant_id = tt_tenant_id t,
      tr_identity = \<lparr>ui_platform = lit ''agenda_service_work'', ui_platform_user_id = tt_canonical_user_id t, ui_canonical_user_id = tt_canonical_user_id t,
        ui_person_name = name, ui_role = lit ''agenda_service'', ui_approval_state = lit ''approved''\<rparr>,
      tr_chat_id = tt_chat_id t, tr_session_id = session, tr_turn_id = turn, tr_message_id = tt_message_id t, tr_issued_at = now,
      tr_source = lit ''agenda_service_work_ticket_public_hook_bridge'', tr_continuity_key = tt_continuity_key t, tr_host_transforms = False\<rparr>"

definition register_service_turn :: "pystr \<Rightarrow> trusted_turn \<Rightarrow> pystr \<Rightarrow> pystr \<Rightarrow> timestamp \<Rightarrow> (registry, registry_error, turn_record option) op" where
  "register_service_turn name t agent_session_id agent_turn_id now st =
     (let session = strip agent_session_id; turn = strip agent_turn_id in enter_turn session turn (service_record t name session turn now) now st)"

section \<open>Activation and retirement\<close>

definition activate_trusted_turn :: "pystr \<Rightarrow> pystr \<Rightarrow> timestamp \<Rightarrow> (registry, registry_error, turn_record option) op" where
  "activate_trusted_turn session_id turn_id now st =
     (let session = strip session_id; turn = strip turn_id in
      if session = [] then (Inr None, st)
      else case purge_expired now st of
        (Inl e, st1) \<Rightarrow> (Inl e, st1)
      | (Inr _, st1) \<Rightarrow>
          (let ts = turns_of session st1; exact = (if turn = [] then None else map_of ts turn);
               selected = (case exact of Some r \<Rightarrow> Some r | None \<Rightarrow> (case ts of [(_, r)] \<Rightarrow> Some r | _ \<Rightarrow> None)) in
           (Inr selected, if selected = None then st1 else st1\<lparr>rg_active := selected\<rparr>)))"

definition clear_trusted_turn :: "pystr \<Rightarrow> pystr \<Rightarrow> registry \<Rightarrow> registry" where
  "clear_trusted_turn session_id turn_id st =
     (let st1 = (case rg_active st of Some r \<Rightarrow> if session_id = [] \<or> tr_session_id r = session_id then st\<lparr>rg_active := None\<rparr> else st | None \<Rightarrow> st);
          session = strip session_id; turn = strip turn_id; ts = turns_of session st1 in
      if session = [] \<or> ts = [] then st1
      else if turn \<noteq> [] then st1\<lparr>rg_sessions := pop_turn session turn (rg_sessions st1)\<rparr>
      else if length ts = 1 then st1\<lparr>rg_sessions := AList.delete session (rg_sessions st1)\<rparr> else st1)"

definition clear_all_trusted_turns :: "registry \<Rightarrow> registry" where
  "clear_all_trusted_turns st = \<lparr>rg_sessions = [], rg_pending = [], rg_active = None\<rparr>"

definition new_registry :: registry where
  "new_registry = \<lparr>rg_sessions = [], rg_pending = [], rg_active = None\<rparr>"

datatype registry_cmd =
    Bind bind_args timestamp
  | Bind_robot bind_args pystr timestamp
  | Claim_robot pystr pystr pystr pystr timestamp
  | Register_service pystr trusted_turn pystr pystr timestamp
  | Activate pystr pystr timestamp
  | Clear pystr pystr

fun registry_step :: "registry_env \<Rightarrow> registry_cmd \<Rightarrow> registry \<Rightarrow> registry" where
  "registry_step V (Bind b now) st = snd (bind_trusted_turn V b now st)"
| "registry_step V (Bind_robot b text now) st = snd (bind_robot_device_turn V b text now st)"
| "registry_step V (Claim_robot who text session turn now) st = snd (claim_robot_turn V who text session turn now st)"
| "registry_step V (Register_service name t session turn now) st = snd (register_service_turn name t session turn now st)"
| "registry_step V (Activate session turn now) st = snd (activate_trusted_turn session turn now st)"
| "registry_step V (Clear session turn) st = clear_trusted_turn session turn st"


section \<open>Well-formedness\<close>

definition sessions_ok :: "(pystr, (pystr, turn_record) dict) dict \<Rightarrow> bool" where
  "sessions_ok ss \<longleftrightarrow> distinct (map fst ss) \<and> (\<forall>(s, ts)\<in>set ss. ts \<noteq> [] \<and> distinct (map fst ts))"

definition pending_ok :: "(ingress_key, turn_record list) dict \<Rightarrow> bool" where
  "pending_ok ps \<longleftrightarrow> distinct (map fst ps) \<and>
     (\<forall>(k, rows)\<in>set ps. rows \<noteq> [] \<and> fst k = lit ''robot_poc'' \<and> (\<forall>r\<in>set rows. tr_platform r = fst k \<and> actor_of r = fst (snd k)))"

definition registry_inv :: "registry \<Rightarrow> bool" where
  "registry_inv st \<longleftrightarrow> sessions_ok (rg_sessions st) \<and> pending_ok (rg_pending st)"

definition pending_rows :: "registry \<Rightarrow> turn_record set" where
  "pending_rows st = (\<Union>(k, rows)\<in>set (rg_pending st). set rows)"

lemma map_of_filter_val:
  "distinct (map fst xs) \<Longrightarrow> map_of (filter (\<lambda>(k, v). P v) xs) k = (case map_of xs k of None \<Rightarrow> None | Some v \<Rightarrow> if P v then Some v else None)"
  by (induction xs) (auto split: option.splits simp: map_of_eq_None_iff image_iff)

lemma map_of_mapped: "map_of (map (\<lambda>(k, v). (k, f v)) xs) k = map_option f (map_of xs k)"
  by (induction xs) auto

lemma map_fst_mapped: "map fst (map (\<lambda>(k, v). (k, f v)) xs) = map fst xs"
  by (induction xs) auto

lemma map_fst_comp: "map (fst \<circ> (\<lambda>(k, v). (k, f v))) xs = map fst xs"
  by (induction xs) auto

lemma distinct_filter_fst: "distinct (map fst xs) \<Longrightarrow> distinct (map fst (filter P xs))"
  by (simp add: distinct_map_filter)

lemma turns_of_simps [simp]:
  "turns_of s (st\<lparr>rg_pending := x\<rparr>) = turns_of s st" "turns_of s (st\<lparr>rg_active := a\<rparr>) = turns_of s st"
  by (simp_all add: turns_of_def)

lemma bound_turn_simps [simp]:
  "bound_turn s t (st\<lparr>rg_pending := x\<rparr>) = bound_turn s t st" "bound_turn s t (st\<lparr>rg_active := a\<rparr>) = bound_turn s t st"
  by (simp_all add: bound_turn_def)

lemma sessions_okD: "sessions_ok (rg_sessions st) \<Longrightarrow> distinct (map fst (turns_of s st))"
  by (fastforce simp: sessions_ok_def turns_of_def split: option.splits dest: map_of_SomeD)

lemma sessions_ok_purge: "sessions_ok ss \<Longrightarrow> sessions_ok (purge_sessions now ss)"
  unfolding sessions_ok_def purge_sessions_def
  by (auto simp: map_fst_comp intro!: distinct_filter_fst)

lemma bound_purge_sessions:
  assumes "sessions_ok (rg_sessions st)"
  shows "bound_turn s t (st\<lparr>rg_sessions := purge_sessions now (rg_sessions st)\<rparr>) =
    (case bound_turn s t st of Some r \<Rightarrow> if fresh_turn now r then Some r else None | None \<Rightarrow> None)"
proof -
  let ?f = "\<lambda>ts. filter (\<lambda>(t, r). fresh_turn now r) ts"
  have d: "distinct (map fst (map (\<lambda>(s, ts). (s, ?f ts)) (rg_sessions st)))"
    using assms by (simp only: map_fst_mapped sessions_ok_def)
  have m: "map_of (purge_sessions now (rg_sessions st)) s =
      (case map_of (rg_sessions st) s of None \<Rightarrow> None | Some ts \<Rightarrow> if ?f ts \<noteq> [] then Some (?f ts) else None)"
    unfolding purge_sessions_def map_of_filter_val [OF d] map_of_mapped by (simp split: option.split)
  have "turns_of s (st\<lparr>rg_sessions := purge_sessions now (rg_sessions st)\<rparr>) = ?f (turns_of s st)"
    by (auto simp: turns_of_def m split: option.split)
  then show ?thesis using map_of_filter_val [OF sessions_okD [OF assms], of "fresh_turn now" s t] by (simp add: bound_turn_def)
qed

lemma sessions_ok_pop: "sessions_ok ss \<Longrightarrow> sessions_ok (pop_turn s t ss)"
proof -
  assume ok: "sessions_ok ss"
  show ?thesis
  proof (cases "map_of ss s")
    case (Some ts)
    then have "distinct (map fst (AList.delete t ts))" using ok
      by (fastforce simp: sessions_ok_def dest: map_of_SomeD intro: distinct_delete)
    moreover have "set (AList.delete s ss) \<subseteq> set ss" by (auto simp: AList.delete_eq)
    moreover have "set (AList.update s v ss) \<subseteq> insert (s, v) (set ss)" for v
      by (induction ss) auto
    ultimately show ?thesis using ok Some
      by (fastforce simp: pop_turn_def sessions_ok_def Let_def intro: distinct_update distinct_delete)
  qed (use ok in \<open>simp add: pop_turn_def\<close>)
qed

lemma bound_pop:
  "bound_turn s t (st\<lparr>rg_sessions := pop_turn s0 t0 (rg_sessions st)\<rparr>) = (if s = s0 \<and> t = t0 then None else bound_turn s t st)"
  by (auto simp: bound_turn_def turns_of_def pop_turn_def Let_def AList.update_conv' AList.delete_conv' split: option.splits)
    (metis AList.map_of_delete map_of.simps(1))+

lemma install_cases:
  assumes "install session turn r st = (x, st')"
  obtains (Refused) q where "x = None" "st' = st" "bound_turn session turn st = Some q" "turn_principal q \<noteq> turn_principal r"
  | (Kept) q where "x = Some q" "st' = st\<lparr>rg_active := Some q\<rparr>" "bound_turn session turn st = Some q" "turn_principal q = turn_principal r"
  | (Installed) "x = Some r" "bound_turn session turn st = None" "bound_turn session turn st' = Some r"
      "rg_pending st' = rg_pending st" "\<And>s t. (s, t) \<noteq> (session, turn) \<Longrightarrow> bound_turn s t st' = bound_turn s t st"
      "rg_sessions st' = AList.update session (AList.update turn r (turns_of session st)) (rg_sessions st)"
  using assms
  by (fastforce simp: install_def Let_def bound_turn_def turns_of_def AList.update_conv' split: option.splits if_splits)


section \<open>What the operations keep\<close>

lemma pending_okI:
  assumes "pending_ok ps" "distinct (map fst qs)"
    "\<And>k rows. (k, rows) \<in> set qs \<Longrightarrow> rows \<noteq> [] \<and> (\<exists>rows'. (k, rows') \<in> set ps \<and> set rows \<subseteq> set rows')"
  shows "pending_ok qs"
  using assms unfolding pending_ok_def by fast

lemma pending_ok_keep_fresh: "pending_ok ps \<Longrightarrow> pending_ok (keep_fresh now ps)"
  by (rule pending_okI)
    (force simp: keep_fresh_def pending_ok_def map_fst_comp filter_empty_conv list_ex_iff split: if_splits)+

lemma distinct_fst_dropWhile: "distinct (map fst ps) \<Longrightarrow> distinct (map fst (dropWhile P ps))"
  by (metis distinct_append map_append takeWhile_dropWhile_id)

lemma pending_ok_dropWhile: "pending_ok ps \<Longrightarrow> pending_ok (dropWhile P ps)"
  by (rule pending_okI) (auto simp: pending_ok_def intro!: distinct_fst_dropWhile dest: set_dropWhileD)

lemma pending_ok_consume: "pending_ok ps \<Longrightarrow> pending_ok (consume_ingress i ps)"
  by (rule pending_okI) (auto simp: consume_ingress_def pending_ok_def map_fst_comp intro!: distinct_filter_fst)


lemma purge_expired_shape:
  assumes "purge_expired now st = (res, st1)"
  shows "\<exists>Q. st1 = st\<lparr>rg_sessions := purge_sessions now (rg_sessions st), rg_pending := Q\<rparr> \<and>
    (Q = keep_fresh now (rg_pending st) \<or> Q = [] \<or> Q = dropWhile (\<lambda>(k, rows). rows = []) (keep_fresh now (rg_pending st)))"
proof (cases "stale_ingress now (rg_pending st)")
  case True
  then show ?thesis using assms
    by (cases "dropWhile (\<lambda>(k, rows). rows = []) (keep_fresh now (rg_pending st))") (auto simp: purge_expired_def Let_def)
qed (use assms in \<open>auto simp: purge_expired_def Let_def\<close>)

lemma purge_expired_frame:
  assumes "purge_expired now st = (res, st1)" "registry_inv st"
  shows "registry_inv st1" "rg_sessions st1 = purge_sessions now (rg_sessions st)" "rg_active st1 = rg_active st"
    "pending_rows st1 \<subseteq> pending_rows st"
proof -
  let ?ps = "keep_fresh now (rg_pending st)"
  define P where "P = (\<lambda>(k :: ingress_key, rows :: turn_record list). rows = [])"
  have P: "rg_pending st1 = ?ps \<or> rg_pending st1 = [] \<or> rg_pending st1 = dropWhile P ?ps"
    and s: "rg_sessions st1 = purge_sessions now (rg_sessions st)" and a: "rg_active st1 = rg_active st"
    using purge_expired_shape [OF assms(1)] by (auto simp: P_def)
  have ok: "pending_ok ?ps" using assms(2) by (simp add: registry_inv_def pending_ok_keep_fresh)
  have "pending_ok (rg_pending st1)" using P ok by (auto simp: pending_ok_dropWhile) (simp add: pending_ok_def)
  then show "registry_inv st1" using s assms(2) by (simp add: registry_inv_def sessions_ok_purge)
  show "rg_sessions st1 = purge_sessions now (rg_sessions st)" "rg_active st1 = rg_active st" by fact+
  have "(\<Union>(k, rows)\<in>set ?ps. set rows) \<subseteq> pending_rows st"
    by (auto simp: pending_rows_def keep_fresh_def split: if_splits)
  then show "pending_rows st1 \<subseteq> pending_rows st"
    using P by (fastforce simp: pending_rows_def dest: set_dropWhileD)
qed

lemma bound_purged:
  assumes "purge_expired now st = (res, st1)" "registry_inv st"
  shows "bound_turn s t st1 = (case bound_turn s t st of Some r \<Rightarrow> if fresh_turn now r then Some r else None | None \<Rightarrow> None)"
proof -
  have "bound_turn s t st1 = bound_turn s t (st\<lparr>rg_sessions := purge_sessions now (rg_sessions st)\<rparr>)"
    using purge_expired_frame(2) [OF assms] by (simp add: bound_turn_def turns_of_def)
  then show ?thesis using assms(2) by (simp only: bound_purge_sessions registry_inv_def)
qed

lemma set_alist_update: "set (AList.update k v xs) \<subseteq> insert (k, v) (set xs)"
  by (induction xs) auto

lemma alist_update_ne [simp]: "AList.update k v xs \<noteq> []"
  by (cases xs) auto

lemma sessions_ok_update:
  assumes "sessions_ok ss" "ts \<noteq> []" "distinct (map fst ts)"
  shows "sessions_ok (AList.update s ts ss)"
proof -
  have "case p of (s, ts) \<Rightarrow> ts \<noteq> [] \<and> distinct (map fst ts)" if "p \<in> set (AList.update s ts ss)" for p
    using that set_alist_update [of s ts ss] assms by (auto simp: sessions_ok_def)
  then show ?thesis using assms(1) by (auto simp: sessions_ok_def intro: distinct_update)
qed

lemma install_frame:
  assumes "install session turn r st = (x, st')" "registry_inv st"
  shows "registry_inv st'" "rg_pending st' = rg_pending st"
proof -
  have "registry_inv st' \<and> rg_pending st' = rg_pending st" using assms(1)
  proof (cases rule: install_cases)
    case Installed
    have "sessions_ok (rg_sessions st')"
      unfolding Installed(6) using assms(2) sessions_okD [of st session]
      by (intro sessions_ok_update distinct_update) (simp_all add: registry_inv_def)
    then show ?thesis using Installed assms(2) by (simp add: registry_inv_def)
  qed (use assms(2) in \<open>simp_all add: registry_inv_def\<close>)
  then show "registry_inv st'" "rg_pending st' = rg_pending st" by simp_all
qed

lemma install_bound:
  assumes "install session turn r st = (x, st')" "bound_turn s t st = Some q"
  shows "bound_turn s t st' = Some q"
  using assms by (cases rule: install_cases) (auto, metis option.distinct(1) prod.inject)


lemma install_new:
  assumes "install session turn r st = (x, st')" "bound_turn s t st = None"
  shows "bound_turn s t st' = None \<or> (\<exists>x. bound_turn s t st' = Some x \<and> turn_principal x = turn_principal r)"
  using assms(1)
proof (cases rule: install_cases)
  case Installed
  then show ?thesis using assms(2) by (cases "(s, t) = (session, turn)") simp_all
qed (use assms(2) in simp_all)

definition keeps :: "timestamp \<Rightarrow> registry \<Rightarrow> registry \<Rightarrow> bool" where
  "keeps now st st' \<longleftrightarrow> registry_inv st' \<and> pending_rows st' \<subseteq> pending_rows st \<and>
     (\<forall>s t q. bound_turn s t st = Some q \<longrightarrow> fresh_turn now q \<longrightarrow> bound_turn s t st' = Some q)"

lemma keeps_refl: "registry_inv st \<Longrightarrow> keeps now st st"
  by (simp add: keeps_def)

lemma keeps_trans: "keeps now st1 st2 \<Longrightarrow> keeps now st2 st3 \<Longrightarrow> keeps now st1 st3"
  by (auto simp: keeps_def)

lemma purge_keeps: "purge_expired now st = (res, st1) \<Longrightarrow> registry_inv st \<Longrightarrow> keeps now st st1"
  by (simp add: keeps_def purge_expired_frame bound_purged)

lemma install_keeps: "install session turn r st = (x, st') \<Longrightarrow> registry_inv st \<Longrightarrow> keeps now st st'"
  by (simp add: keeps_def install_frame install_bound pending_rows_def)

lemma keeps_activate: "keeps now st st1 \<Longrightarrow> keeps now st (st1\<lparr>rg_active := a\<rparr>)"
  by (simp add: keeps_def registry_inv_def pending_rows_def)

lemma enter_keeps:
  assumes "enter_turn session turn r now st = (res, st')" "registry_inv st"
  shows "keeps now st st'"
proof -
  obtain res1 st1 where p: "purge_expired now st = (res1, st1)" by fastforce
  have k: "keeps now st st1" by (rule purge_keeps [OF p assms(2)])
  show ?thesis
  proof (cases res1)
    case (Inl e)
    then show ?thesis using assms(1) p k by (simp add: enter_turn_def)
  next
    case (Inr u)
    obtain x st2 where i: "install session turn r st1 = (x, st2)" by fastforce
    then show ?thesis using assms(1) p Inr keeps_trans [OF k install_keeps [OF i]] k by (simp add: enter_turn_def keeps_def)
  qed
qed

lemma enter_result:
  assumes "enter_turn session turn r now st = (Inr (Some x), st')"
  shows "turn_principal x = turn_principal r"
proof -
  obtain u st1 where "purge_expired now st = (Inr u, st1)" "install session turn r st1 = (Some x, st')"
    using assms by (auto simp: enter_turn_def split: prod.splits sum.splits)
  from this(2) show ?thesis by (cases rule: install_cases) auto
qed

lemma bind_keeps: "bind_trusted_turn V b now st = (res, st') \<Longrightarrow> registry_inv st \<Longrightarrow> keeps now st st'"
  by (auto simp: bind_trusted_turn_def keeps_refl intro: enter_keeps split: option.splits)

lemma register_keeps: "register_service_turn name u s t now st = (res, st') \<Longrightarrow> registry_inv st \<Longrightarrow> keeps now st st'"
  by (auto simp: register_service_turn_def Let_def intro: enter_keeps)

lemma activate_keeps: "activate_trusted_turn s t now st = (res, st') \<Longrightarrow> registry_inv st \<Longrightarrow> keeps now st st'"
  by (auto simp: activate_trusted_turn_def Let_def keeps_refl split: prod.splits sum.splits if_splits
      intro: purge_keeps keeps_activate)

lemma bind_result:
  assumes "bind_trusted_turn V b now st = (Inr (Some x), st')"
  obtains r where "record_of V b now = Some r" "turn_principal x = turn_principal r"
  using assms by (auto simp: bind_trusted_turn_def dest: enter_result split: option.splits)

lemma robot_platform: "normalise_platform (lit ''robot_poc'') = lit ''robot_poc''"
  by (simp add: normalise_platform_def lower_def strip_def is_space_def lit_def)

lemma robot_record_platform: "record_of V (robot_args b) now = Some r \<Longrightarrow> tr_platform r = lit ''robot_poc''"
  by (auto simp: record_of_def robot_args_def Let_def robot_platform split: if_splits)


lemma pending_of_subset: "set (pending_of k st) \<subseteq> pending_rows st"
  by (cases "map_of (rg_pending st) k") (auto simp: pending_of_def pending_rows_def dest!: map_of_SomeD)

lemma pending_of_ok:
  "pending_ok (rg_pending st) \<Longrightarrow> x \<in> set (pending_of k st) \<Longrightarrow> tr_platform x = fst k \<and> actor_of x = fst (snd k) \<and> fst k = lit ''robot_poc''"
  by (cases "map_of (rg_pending st) k") (fastforce simp: pending_ok_def pending_of_def dest!: map_of_SomeD)+

lemma pending_ok_update:
  assumes "pending_ok ps" "rows \<noteq> []" "fst k = lit ''robot_poc''" "\<forall>x\<in>set rows. tr_platform x = fst k \<and> actor_of x = fst (snd k)"
  shows "pending_ok (AList.update k rows ps)"
proof -
  have "case p of (k, rows) \<Rightarrow> rows \<noteq> [] \<and> fst k = lit ''robot_poc'' \<and> (\<forall>r\<in>set rows. tr_platform r = fst k \<and> actor_of r = fst (snd k))"
    if "p \<in> set (AList.update k rows ps)" for p
  proof -
    from that have "p = (k, rows) \<or> p \<in> set ps" using set_alist_update by fast
    then show ?thesis using assms by (auto simp: pending_ok_def)
  qed
  then show ?thesis using assms(1) unfolding pending_ok_def by (simp add: distinct_update)
qed

lemma pending_ok_add:
  assumes "pending_ok (rg_pending st)" "tr_platform r = lit ''robot_poc''" "k = (tr_platform r, actor_of r, h)"
  shows "pending_ok (AList.update k (add_ingress r (pending_of k st)) (rg_pending st))"
  using assms pending_of_ok [OF assms(1)] by (intro pending_ok_update) (auto simp: add_ingress_def)

lemma robot_bind_shape:
  assumes "bind_robot_device_turn V b text now st = (res, st')" "registry_inv st"
  shows "registry_inv st' \<and> (\<exists>st1. keeps now st st1 \<and> (\<forall>s t. bound_turn s t st' = None \<or> bound_turn s t st' = bound_turn s t st1))"
proof -
  obtain res1 st1 where b: "bind_trusted_turn V (robot_args b) now st = (res1, st1)" by fastforce
  have k: "keeps now st st1" by (rule bind_keeps [OF b assms(2)])
  show ?thesis
  proof (cases "\<exists>r. res1 = Inr (Some r)")
    case False
    then have "st' = st1" using assms(1) b by (auto simp: bind_robot_device_turn_def split: sum.splits option.splits)
    then show ?thesis using k by (auto simp: keeps_def)
  next
    case True
    then obtain r where r: "res1 = Inr (Some r)" by blast
    obtain res2 st2 where p: "purge_expired (tr_issued_at r) st1 = (res2, st2)" by fastforce
    have inv: "registry_inv st1" using k by (simp add: keeps_def)
    have b2: "bound_turn s t st2 = None \<or> bound_turn s t st2 = bound_turn s t st1" for s t
      by (simp add: bound_purged [OF p inv] split: option.split)
    have inv2: "registry_inv st2" by (rule purge_expired_frame(1) [OF p inv])
    show ?thesis
    proof (cases res2)
      case (Inl e)
      then have "st' = st2" using assms(1) b r p by (simp add: bind_robot_device_turn_def)
      then show ?thesis using inv2 b2 k by blast
    next
      case (Inr u)
      have "tr_platform r = lit ''robot_poc''"
        using b unfolding r by (elim bind_result) (auto simp: turn_principal_def dest: robot_record_platform)
      then have "registry_inv st'" using assms(1) b r p Inr inv2
        by (auto simp: bind_robot_device_turn_def Let_def registry_inv_def intro!: pending_ok_add)
      moreover have "bound_turn s t st' = bound_turn s t st2" for s t
        using assms(1) b r p Inr by (auto simp: bind_robot_device_turn_def Let_def)
      ultimately show ?thesis using b2 k by metis
    qed
  qed
qed

lemma candidates_pending: "i \<in> set (ingress_candidates V actor text st) \<Longrightarrow> i \<in> pending_rows st"
  using pending_of_subset [of "(lit ''robot_poc'', actor, re_sha V text)" st]
  by (auto simp: ingress_candidates_def Let_def transformed_ingress_def pending_rows_def split: if_splits)

lemma candidates_actor:
  assumes "registry_inv st" "i \<in> set (ingress_candidates V actor text st)"
  shows "actor_of i = actor \<and> tr_platform i = lit ''robot_poc''"
proof -
  have "(i \<in> set (pending_of (lit ''robot_poc'', actor, re_sha V text) st)) \<or> i \<in> set (transformed_ingress actor (rg_pending st))"
    using assms(2) by (auto simp: ingress_candidates_def Let_def split: if_splits)
  then show ?thesis
  proof
    assume "i \<in> set (pending_of (lit ''robot_poc'', actor, re_sha V text) st)"
    then show ?thesis using assms(1) pending_of_ok [of st i] by (simp add: registry_inv_def)
  next
    assume "i \<in> set (transformed_ingress actor (rg_pending st))"
    then show ?thesis using assms(1)
      by (fastforce simp: registry_inv_def pending_ok_def transformed_ingress_def split: if_splits)
  qed
qed

lemma set_consume: "set (consume_ingress i ps) = {p \<in> (\<lambda>(k, rows). (k, filter (\<lambda>x. \<not> same_ingress x i) rows)) ` set ps. snd p \<noteq> []}"
  by (simp add: consume_ingress_def case_prod_unfold)

lemma consume_rows: "x \<in> (\<Union>(k, rows)\<in>set (consume_ingress i ps). set rows) \<longleftrightarrow> x \<in> (\<Union>(k, rows)\<in>set ps. set rows) \<and> \<not> same_ingress x i"
proof
  assume "x \<in> (\<Union>(k, rows)\<in>set ps. set rows) \<and> \<not> same_ingress x i"
  then obtain k rows where "(k, rows) \<in> set ps" "x \<in> set rows" "\<not> same_ingress x i" by auto
  then have "(k, filter (\<lambda>x. \<not> same_ingress x i) rows) \<in> set (consume_ingress i ps)" "x \<in> set (filter (\<lambda>x. \<not> same_ingress x i) rows)"
    unfolding set_consume by (force simp: filter_empty_conv)+
  then show "x \<in> (\<Union>(k, rows)\<in>set (consume_ingress i ps). set rows)" by blast
qed (force simp: set_consume)

lemma claim_robot_shape:
  assumes "claim_robot_turn V who text s0 t0 now st = (res, st')" "registry_inv st"
  obtains (Unclaimed) "keeps now st st'" "\<And>x. res \<noteq> Inr (Some x)"
  | (Claimed) i where "i \<in> pending_rows st" "actor_of i = normalise_actor who" "tr_platform i = lit ''robot_poc''"
      "registry_inv st'" "pending_rows st' \<subseteq> {x \<in> pending_rows st. \<not> same_ingress x i}"
      "\<And>x. res = Inr (Some x) \<Longrightarrow> turn_principal x = turn_principal i"
      "\<And>s t q. bound_turn s t st = Some q \<Longrightarrow> fresh_turn now q \<Longrightarrow>
        (s, t) = (tr_session_id i, tr_turn_id i) \<and> (bound_turn s t st' = None \<or> (\<exists>x. bound_turn s t st' = Some x \<and> turn_principal x = turn_principal i))
        \<or> bound_turn s t st' = Some q"
proof (cases "normalise_actor who = [] \<or> strip s0 = [] \<or> strip t0 = []")
  case True
  then have "st' = st" "res = Inr None" using assms(1) by (auto simp: claim_robot_turn_def Let_def)
  with assms(2) that(1) keeps_refl show thesis by auto
next
  case args: False
  obtain res1 st1 where p: "purge_expired now st = (res1, st1)" by fastforce
  have k: "keeps now st st1" by (rule purge_keeps [OF p assms(2)])
  have inv1: "registry_inv st1" using k by (simp add: keeps_def)
  let ?c = "ingress_candidates V (normalise_actor who) text st1"
  show thesis
  proof (cases "\<exists>u i. res1 = Inr u \<and> ?c = [i]")
    case False
    then have "st' = st1 \<and> (\<forall>x. res \<noteq> Inr (Some x))" using assms(1) args p
      by (auto simp: claim_robot_turn_def Let_def split: sum.splits list.splits)
    with k that(1) show thesis by auto
  next
    case True
    then obtain i where i: "?c = [i]" and u: "res1 = Inr ()" by auto
    define st2 where "st2 = st1\<lparr>rg_pending := consume_ingress i (rg_pending st1), rg_sessions := pop_turn (tr_session_id i) (tr_turn_id i) (rg_sessions st1)\<rparr>"
    define r where "r = i\<lparr>tr_session_id := strip s0, tr_turn_id := strip t0, tr_issued_at := now, tr_source := lit ''robot_device_registry_public_hook_bridge''\<rparr>"
    obtain x where ins: "install (strip s0) (strip t0) r st2 = (x, st')" and res: "res = Inr x"
      using assms(1) args p u i by (auto simp: claim_robot_turn_def Let_def st2_def r_def split: prod.splits)
    have inv2: "registry_inv st2" using inv1 by (simp add: st2_def registry_inv_def pending_ok_consume sessions_ok_pop)
    have same: "turn_principal r = turn_principal i" by (simp add: r_def turn_principal_def actor_of_def)
    have pend: "i \<in> pending_rows st" using candidates_pending [of i V "normalise_actor who" "text" st1] i k by (auto simp: keeps_def)
    have who: "actor_of i = normalise_actor who" "tr_platform i = lit ''robot_poc''"
      using candidates_actor [OF inv1, of i V "normalise_actor who" "text"] i by simp_all
    have rows: "pending_rows st' \<subseteq> {x \<in> pending_rows st. \<not> same_ingress x i}"
    proof
      fix x assume "x \<in> pending_rows st'"
      then have "x \<in> (\<Union>(k, rows)\<in>set (consume_ingress i (rg_pending st1)). set rows)"
        using install_frame(2) [OF ins inv2] by (simp add: pending_rows_def st2_def)
      then have "x \<in> pending_rows st1 \<and> \<not> same_ingress x i" unfolding consume_rows pending_rows_def .
      then show "x \<in> {x \<in> pending_rows st. \<not> same_ingress x i}" using k by (auto simp: keeps_def)
    qed
    have b2: "bound_turn s t st2 = (if s = tr_session_id i \<and> t = tr_turn_id i then None else bound_turn s t st1)" for s t
      unfolding st2_def using bound_pop [where st = "st1\<lparr>rg_pending := consume_ingress i (rg_pending st1)\<rparr>"] by simp
    have b: "(s, t) = (tr_session_id i, tr_turn_id i) \<and> (bound_turn s t st' = None \<or> (\<exists>x. bound_turn s t st' = Some x \<and> turn_principal x = turn_principal i))
        \<or> bound_turn s t st' = Some q" if q: "bound_turn s t st = Some q" "fresh_turn now q" for s t q
    proof (cases "(s, t) = (tr_session_id i, tr_turn_id i)")
      case True
      then have "bound_turn s t st2 = None" by (simp add: b2)
      with install_new [OF ins] True same show ?thesis by simp
    next
      case False
      then have "bound_turn s t st2 = Some q" using q k by (auto simp: b2 keeps_def)
      with ins show ?thesis using install_bound by simp
    qed
    have "turn_principal y = turn_principal i" if "res = Inr (Some y)" for y
      using ins that res same by (cases rule: install_cases) auto
    then show thesis using that(2) pend who install_frame(1) [OF ins inv2] rows b by blast
  qed
qed


lemma clear_shape:
  assumes "registry_inv st"
  shows "registry_inv (clear_trusted_turn s0 t0 st) \<and> rg_pending (clear_trusted_turn s0 t0 st) = rg_pending st \<and>
    (bound_turn s t (clear_trusted_turn s0 t0 st) = None \<or> bound_turn s t (clear_trusted_turn s0 t0 st) = bound_turn s t st)"
proof -
  define st1 where "st1 = (case rg_active st of Some r \<Rightarrow> if s0 = [] \<or> tr_session_id r = s0 then st\<lparr>rg_active := None\<rparr> else st | None \<Rightarrow> st)"
  have st1: "rg_sessions st1 = rg_sessions st" "rg_pending st1 = rg_pending st" by (auto simp: st1_def split: option.split)
  have b1: "bound_turn s t st1 = bound_turn s t st" by (simp add: bound_turn_def turns_of_def st1)
  have del: "sessions_ok (AList.delete (strip s0) (rg_sessions st1))"
    using assms by (auto simp: st1 registry_inv_def sessions_ok_def AList.delete_eq intro: distinct_filter_fst)
  have pop: "sessions_ok (pop_turn (strip s0) (strip t0) (rg_sessions st1))"
    using assms by (simp add: st1 registry_inv_def sessions_ok_pop)
  have bdel: "bound_turn s t (st1\<lparr>rg_sessions := AList.delete (strip s0) (rg_sessions st1)\<rparr>) \<in> {None, bound_turn s t st1}"
    by (cases "s = strip s0") (simp_all add: bound_turn_def turns_of_def AList.delete_conv')
  have bpop: "bound_turn s t (st1\<lparr>rg_sessions := pop_turn (strip s0) (strip t0) (rg_sessions st1)\<rparr>) \<in> {None, bound_turn s t st1}"
    by (simp add: bound_pop)
  have "clear_trusted_turn s0 t0 st \<in> {st1, st1\<lparr>rg_sessions := pop_turn (strip s0) (strip t0) (rg_sessions st1)\<rparr>,
      st1\<lparr>rg_sessions := AList.delete (strip s0) (rg_sessions st1)\<rparr>}"
    unfolding clear_trusted_turn_def Let_def st1_def [symmetric] by simp
  then consider "clear_trusted_turn s0 t0 st = st1"
    | "clear_trusted_turn s0 t0 st = st1\<lparr>rg_sessions := pop_turn (strip s0) (strip t0) (rg_sessions st1)\<rparr>"
    | "clear_trusted_turn s0 t0 st = st1\<lparr>rg_sessions := AList.delete (strip s0) (rg_sessions st1)\<rparr>"
    by blast
  then show ?thesis
    by cases (use assms st1 b1 del pop bdel bpop in \<open>auto simp: registry_inv_def\<close>)
qed

section \<open>Every command\<close>

primrec registry_clock :: "registry_cmd \<Rightarrow> timestamp option" where
  "registry_clock (Bind b now) = Some now"
| "registry_clock (Bind_robot b content now) = Some now"
| "registry_clock (Claim_robot who content s t now) = Some now"
| "registry_clock (Register_service name u s t now) = Some now"
| "registry_clock (Activate s t now) = Some now"
| "registry_clock (Clear s t) = None"

lemma step_registry_inv: "registry_inv st \<Longrightarrow> registry_inv (registry_step V c st)"
proof (cases c)
  case (Bind b now)
  then show "registry_inv st \<Longrightarrow> ?thesis" using bind_keeps [of V b now st] by (cases "bind_trusted_turn V b now st") (simp add: keeps_def)
next
  case (Bind_robot b content now)
  then show "registry_inv st \<Longrightarrow> ?thesis"
    using robot_bind_shape [of V b content now st] by (cases "bind_robot_device_turn V b content now st") simp
next
  case (Claim_robot who content s t now)
  assume inv: "registry_inv st"
  obtain res st' where c: "claim_robot_turn V who content s t now st = (res, st')" by fastforce
  then have "registry_inv st'" by (rule claim_robot_shape [OF _ inv]) (simp_all add: keeps_def)
  with c Claim_robot show ?thesis by simp
next
  case (Register_service name u s t now)
  then show "registry_inv st \<Longrightarrow> ?thesis"
    using register_keeps [of name u s t now st] by (cases "register_service_turn name u s t now st") (simp add: keeps_def)
next
  case (Activate s t now)
  then show "registry_inv st \<Longrightarrow> ?thesis"
    using activate_keeps [of s t now st] by (cases "activate_trusted_turn s t now st") (simp add: keeps_def)
next
  case (Clear s t)
  then show "registry_inv st \<Longrightarrow> ?thesis" by (simp add: clear_shape)
qed

interpretation rg: invariant_machine "registry_step V" registry_inv for V
  by unfold_locales (rule step_registry_inv)


section \<open>An authenticated turn keeps its principal\<close>

lemma registry_step_bound:
  assumes "registry_inv st" "bound_turn s t st = Some r" "\<And>now. registry_clock c = Some now \<Longrightarrow> fresh_turn now r"
    "\<And>i. i \<in> pending_rows st \<Longrightarrow> (tr_session_id i, tr_turn_id i) = (s, t) \<Longrightarrow> turn_principal i = turn_principal r"
  shows "bound_turn s t (registry_step V c st) = None \<or> (\<exists>x. bound_turn s t (registry_step V c st) = Some x \<and> turn_principal x = turn_principal r)"
proof (cases c)
  case (Bind b now)
  then show ?thesis using bind_keeps [of V b now st] assms(1-3) by (cases "bind_trusted_turn V b now st") (simp add: keeps_def)
next
  case (Bind_robot b content now)
  obtain res st' where b: "bind_robot_device_turn V b content now st = (res, st')" by fastforce
  then obtain st1 where "keeps now st st1" "bound_turn s t st' = None \<or> bound_turn s t st' = bound_turn s t st1"
    using robot_bind_shape [OF b assms(1)] by blast
  then show ?thesis using b assms(2,3) Bind_robot by (auto simp: keeps_def)
next
  case (Claim_robot who content s0 t0 now)
  obtain res st' where b: "claim_robot_turn V who content s0 t0 now st = (res, st')" by fastforce
  then show ?thesis
  proof (rule claim_robot_shape [OF _ assms(1)])
    assume "keeps now st st'"
    then show ?thesis using b assms(2,3) Claim_robot by (auto simp: keeps_def)
  next
    fix i assume i: "i \<in> pending_rows st"
      and B: "\<And>s t q. bound_turn s t st = Some q \<Longrightarrow> fresh_turn now q \<Longrightarrow>
        (s, t) = (tr_session_id i, tr_turn_id i) \<and> (bound_turn s t st' = None \<or> (\<exists>x. bound_turn s t st' = Some x \<and> turn_principal x = turn_principal i))
        \<or> bound_turn s t st' = Some q"
    have "fresh_turn now r" using assms(3) Claim_robot by simp
    from B [OF assms(2) this] show ?thesis using assms(4) [OF i] b Claim_robot by auto
  qed
next
  case (Register_service name u s0 t0 now)
  then show ?thesis using register_keeps [of name u s0 t0 now st] assms(1-3) by (cases "register_service_turn name u s0 t0 now st") (simp add: keeps_def)
next
  case (Activate s0 t0 now)
  then show ?thesis using activate_keeps [of s0 t0 now st] assms(1-3) by (cases "activate_trusted_turn s0 t0 now st") (simp add: keeps_def)
next
  case (Clear s0 t0)
  then show ?thesis using clear_shape [OF assms(1), of s0 t0 s t] assms(2) by auto
qed


definition demo_env :: registry_env where
  "demo_env = \<lparr>re_sha = id, re_tenant = [116],
     re_resolve = (\<lambda>platform actor user chat. \<lparr>ui_platform = platform, ui_platform_user_id = actor, ui_canonical_user_id = actor,
       ui_person_name = user, ui_role = [], ui_approval_state = []\<rparr>)\<rparr>"

definition demo_bind :: "pystr \<Rightarrow> bind_args" where
  "demo_bind actor = \<lparr>ba_platform = lit ''feishu'', ba_actor_user_id = actor, ba_session_id = [115], ba_turn_id = [49], ba_message_id = [109],
     ba_chat_id = [], ba_user_name = [], ba_tenant_id = [], ba_source = [], ba_host_transforms = False\<rparr>"

lemma demo_registry_inv: "registry_inv new_registry"
  by (simp add: registry_inv_def new_registry_def sessions_ok_def pending_ok_def)

definition demo_record :: "nat \<Rightarrow> timestamp \<Rightarrow> turn_record" where
  "demo_record a now = the (record_of demo_env (demo_bind [a]) now)"

lemma strip_solid: "\<not> is_space a \<Longrightarrow> strip [a] = [a]"
  by (simp add: strip_def)

lemma feishu_platform: "normalise_platform (lit ''feishu'') = lit ''feishu''"
  by (simp add: normalise_platform_def lower_def strip_def is_space_def lit_def)

lemma demo_strip: "strip [115] = [115]" "strip [49] = [49]" "strip [109] = [109]" "strip [116] = [116]"
  by (simp_all add: strip_def is_space_def)

lemma demo_record:
  assumes "\<not> is_space a" "a \<noteq> 58"
  shows "record_of demo_env (demo_bind [a]) now = Some (demo_record a now)" "turn_principal (demo_record a now) = ([a], [116], lit ''feishu'')"
    "tr_issued_at (demo_record a now) = now \<and> tr_session_id (demo_record a now) = [115] \<and> tr_turn_id (demo_record a now) = [49]"
  using assms
  by (simp_all add: demo_record_def record_of_def demo_bind_def demo_env_def feishu_platform normalise_actor_def strip_solid demo_strip
      trusted_channels_def or_else_def turn_principal_def actor_of_def colon_def Let_def)

lemma demo_spaces: "\<not> is_space 97" "\<not> is_space 98"
  by (simp_all add: is_space_def)

lemmas enter_simps = enter_turn_def install_def purge_expired_def purge_sessions_def keep_fresh_def stale_ingress_def turns_of_def

lemma demo_first:
  "registry_step demo_env (Bind (demo_bind [97]) now) new_registry = \<lparr>rg_sessions = [([115], [([49], demo_record 97 now)])], rg_pending = [], rg_active = Some (demo_record 97 now)\<rparr>"
  by (simp add: bind_trusted_turn_def demo_record demo_spaces enter_simps new_registry_def Let_def)



definition demo_robot :: turn_record where
  "demo_robot = the (record_of demo_env (robot_args (demo_bind [97])) 0)"

lemma demo_robot:
  "record_of demo_env (robot_args (demo_bind [97])) 0 = Some demo_robot" "turn_principal demo_robot = ([97], [116], lit ''robot_poc'')"
  "tr_issued_at demo_robot = 0" "tr_session_id demo_robot = [115]" "tr_turn_id demo_robot = [49]" "\<not> tr_host_transforms demo_robot"
  by (simp_all add: demo_robot_def robot_args_def record_of_def demo_bind_def demo_env_def robot_platform normalise_actor_def strip_solid
      demo_spaces demo_strip trusted_channels_def or_else_def turn_principal_def actor_of_def colon_def Let_def)

lemma demo_robot_fields: "actor_of demo_robot = [97]" "tr_platform demo_robot = lit ''robot_poc''"
  using demo_robot(2) by (simp_all add: turn_principal_def)

definition demo_pending :: registry where
  "demo_pending = \<lparr>rg_sessions = [([115], [([49], demo_robot)])], rg_pending = [((lit ''robot_poc'', [97], [42]), [demo_robot])], rg_active = Some demo_robot\<rparr>"

lemma demo_pending: "registry_step demo_env (Bind_robot (demo_bind [97]) [42] 0) new_registry = demo_pending"
  by (simp add: bind_robot_device_turn_def bind_trusted_turn_def demo_robot demo_robot_fields enter_simps new_registry_def demo_pending_def
      fresh_turn_def turn_ttl_def add_ingress_def pending_of_def Let_def) (simp add: demo_env_def)

lemma demo_pending_inv: "registry_inv demo_pending"
  unfolding demo_pending [symmetric] by (rule step_registry_inv [OF demo_registry_inv])

section \<open>A robot ingress is claimed once\<close>

fun binds_robot :: "registry_cmd \<Rightarrow> bool" where
  "binds_robot (Bind_robot b content now) = True"
| "binds_robot _ = False"

lemma step_pending:
  assumes "registry_inv st" "\<not> binds_robot c"
  shows "pending_rows (registry_step V c st) \<subseteq> pending_rows st"
proof (cases c)
  case (Claim_robot who content s t now)
  obtain res st' where c: "claim_robot_turn V who content s t now st = (res, st')" by fastforce
  then have "pending_rows st' \<subseteq> pending_rows st" by (rule claim_robot_shape [OF _ assms(1)]) (auto simp: keeps_def)
  with c Claim_robot show ?thesis by simp
next
  case (Bind b now)
  then show ?thesis using bind_keeps [OF prod.collapse [symmetric] assms(1)] by (simp add: keeps_def)
next
  case (Register_service name u s t now)
  then show ?thesis using register_keeps [OF prod.collapse [symmetric] assms(1)] by (simp add: keeps_def)
next
  case (Activate s t now)
  then show ?thesis using activate_keeps [OF prod.collapse [symmetric] assms(1)] by (simp add: keeps_def)
next
  case (Clear s t)
  then show ?thesis using clear_shape [OF assms(1)] by (simp add: pending_rows_def)
qed (use assms(2) in simp)

lemma run_pending:
  "registry_inv st \<Longrightarrow> \<forall>c\<in>set cs. \<not> binds_robot c \<Longrightarrow> pending_rows (fold (registry_step V) cs st) \<subseteq> pending_rows st"
proof (induction cs arbitrary: st)
  case (Cons c cs)
  then show ?case using step_pending [of st c V] step_registry_inv [of st V c] by (auto dest: subsetD)
qed simp

text \<open>
  A robot ingress is claimed for its own actor and at most once: the turn that an agent gets has
  the principal of an ingress that the device adapter bound for the sender of the message, and that
  ingress is gone from the pending table after every later run of commands in which the adapter binds
  no robot turn, so that no later model call can replay it.
\<close>

theorem claimed_ingress_is_consumed:
  assumes "registry_inv st" "claim_robot_turn V who content s t now st = (Inr (Some x), st')" "\<forall>c\<in>set cs. \<not> binds_robot c"
  shows "\<exists>i\<in>pending_rows st. turn_principal x = turn_principal i \<and> actor_of x = normalise_actor who \<and> tr_platform x = lit ''robot_poc'' \<and>
    (\<forall>j\<in>pending_rows (fold (registry_step V) cs st'). \<not> same_ingress j i)"
  using assms(2)
proof (rule claim_robot_shape [OF _ assms(1)])
  fix i assume i: "i \<in> pending_rows st" "actor_of i = normalise_actor who" "tr_platform i = lit ''robot_poc''"
    and inv: "registry_inv st'" and gone: "pending_rows st' \<subseteq> {x \<in> pending_rows st. \<not> same_ingress x i}"
    and x: "\<And>y. (Inr (Some x) :: registry_error + turn_record option) = Inr (Some y) \<Longrightarrow> turn_principal y = turn_principal i"
  have "\<forall>j\<in>pending_rows (fold (registry_step V) cs st'). \<not> same_ingress j i"
    using run_pending [OF inv assms(3)] gone by blast
  moreover have "turn_principal x = turn_principal i" by (rule x) simp
  ultimately show ?thesis using i by (intro bexI [of _ i]) (simp_all add: turn_principal_def)
qed auto

definition demo_claim :: "(registry_error + turn_record option) \<times> registry" where
  "demo_claim = claim_robot_turn demo_env [97] [42] [120] [50] 5 demo_pending"

lemma demo_claim: "claim_robot_turn demo_env [97] [42] [120] [50] 5 demo_pending =
  (Inr (Some (demo_robot\<lparr>tr_session_id := [120], tr_turn_id := [50], tr_issued_at := 5, tr_source := lit ''robot_device_registry_public_hook_bridge''\<rparr>)),
   snd demo_claim)"
  by (simp add: demo_claim_def claim_robot_turn_def Let_def normalise_actor_def strip_def is_space_def colon_def demo_pending_def enter_simps
      fresh_turn_def turn_ttl_def demo_robot ingress_candidates_def pending_of_def pop_turn_def consume_ingress_def same_ingress_def demo_env_def
      split del: if_split)

theorem claimed_ingress_is_consumed_witness:
  "\<exists>i\<in>pending_rows demo_pending. actor_of i = [97] \<and> (\<forall>j\<in>pending_rows (fold (registry_step demo_env) [Clear [120] [50]] (snd demo_claim)). \<not> same_ingress j i)"
proof -
  have "normalise_actor [97] = [97]" by (simp add: normalise_actor_def strip_def is_space_def colon_def)
  then show ?thesis
    using claimed_ingress_is_consumed [OF demo_pending_inv demo_claim, of "[Clear [120] [50]]"] by (auto simp: turn_principal_def)
qed

section \<open>An expired ingress\<close>

lemma fresh_antimono: "now \<le> now' \<Longrightarrow> fresh_turn now' r \<Longrightarrow> fresh_turn now r"
  by (simp add: fresh_turn_def)

definition stuck :: "timestamp \<Rightarrow> registry \<Rightarrow> bool" where
  "stuck now st \<longleftrightarrow> registry_inv st \<and> stale_ingress now (rg_pending st)"

lemma stuck_purge:
  assumes "stuck now st" "now \<le> now'"
  shows "\<exists>st1. purge_expired now' st = (Inl Name_error, st1) \<and> stuck now st1"
proof -
  let ?ps = "keep_fresh now' (rg_pending st)"
  obtain k rows where k: "(k, rows) \<in> set (rg_pending st)" "\<not> list_ex (fresh_turn now) rows"
    using assms(1) by (auto simp: stuck_def stale_ingress_def list_ex_iff)
  then have k': "\<not> list_ex (fresh_turn now') rows" using assms(2) by (auto simp: list_ex_iff dest: fresh_antimono)
  have ok: "pending_ok ?ps" using assms(1) by (simp add: stuck_def registry_inv_def pending_ok_keep_fresh)
  have mem: "(k, rows) \<in> set ?ps" using k(1) k' by (force simp: keep_fresh_def)
  have drop: "dropWhile (\<lambda>(k, rows). rows = []) ?ps = ?ps"
    using ok by (cases ?ps) (auto simp: pending_ok_def)
  obtain p ps where ps: "?ps = p # ps" using mem by (cases ?ps) auto
  have "stale_ingress now' (rg_pending st)" using k(1) k' by (auto simp: stale_ingress_def list_ex_iff)
  then have e: "purge_expired now' st = (Inl Name_error, st\<lparr>rg_sessions := purge_sessions now' (rg_sessions st), rg_pending := ?ps\<rparr>)"
    using drop by (simp add: purge_expired_def Let_def ps)
  have "stale_ingress now ?ps" using mem k(2) by (auto simp: stale_ingress_def list_ex_iff)
  then show ?thesis using e purge_expired_frame(1) [OF e] assms(1) by (simp add: stuck_def)
qed

lemma stuck_enter:
  assumes "stuck now st" "now \<le> now'"
  shows "\<exists>st1. enter_turn s t r now' st = (Inl Name_error, st1) \<and> stuck now st1"
  using stuck_purge [OF assms] by (auto simp: enter_turn_def)

lemma stuck_bind:
  assumes "stuck now st" "now \<le> now'"
  shows "stuck now (snd (bind_trusted_turn V b now' st))"
    "record_of V b now' \<noteq> None \<Longrightarrow> fst (bind_trusted_turn V b now' st) = Inl Name_error"
    "\<nexists>r. fst (bind_trusted_turn V b now' st) = Inr (Some r)"
proof -
  have "bind_trusted_turn V b now' st = (Inr None, st) \<and> record_of V b now' = None \<or>
      (\<exists>st1. bind_trusted_turn V b now' st = (Inl Name_error, st1) \<and> stuck now st1)"
    by (cases "record_of V b now'") (simp_all add: bind_trusted_turn_def stuck_enter [OF assms])
  then show "stuck now (snd (bind_trusted_turn V b now' st))"
    "record_of V b now' \<noteq> None \<Longrightarrow> fst (bind_trusted_turn V b now' st) = Inl Name_error"
    "\<nexists>r. fst (bind_trusted_turn V b now' st) = Inr (Some r)"
    using assms(1) by auto
qed

lemma stuck_claim:
  assumes "stuck now st" "now \<le> now'"
  shows "stuck now (snd (claim_robot_turn V who content s t now' st))"
  using stuck_purge [OF assms] assms(1) by (auto simp: claim_robot_turn_def Let_def)

lemma stuck_activate:
  assumes "stuck now st" "now \<le> now'"
  shows "stuck now (snd (activate_trusted_turn s t now' st))"
    "strip s \<noteq> [] \<Longrightarrow> fst (activate_trusted_turn s t now' st) = Inl Name_error"
  using stuck_purge [OF assms] assms(1) by (auto simp: activate_trusted_turn_def Let_def)

lemma stuck_step:
  assumes "stuck now st" "\<And>now'. registry_clock c = Some now' \<Longrightarrow> now \<le> now'"
  shows "stuck now (registry_step V c st)"
proof (cases c)
  case (Bind b now')
  then show ?thesis using stuck_bind(1) assms by simp
next
  case (Bind_robot b content now')
  then have le: "now \<le> now'" using assms(2) by simp
  have "snd (bind_robot_device_turn V b content now' st) = snd (bind_trusted_turn V (robot_args b) now' st)"
    using stuck_bind(3) [OF assms(1) le, of V "robot_args b"]
    by (auto simp: bind_robot_device_turn_def split: prod.splits sum.splits option.splits)
  then show ?thesis using Bind_robot stuck_bind(1) [OF assms(1) le] by simp
next
  case (Claim_robot who content s t now')
  then show ?thesis using stuck_claim assms by simp
next
  case (Register_service name u s t now')
  then have "now \<le> now'" using assms(2) by simp
  then obtain st1 where "enter_turn (strip s) (strip t) (service_record u name (strip s) (strip t) now') now' st = (Inl Name_error, st1)" "stuck now st1"
    using stuck_enter [OF assms(1)] by blast
  then show ?thesis using Register_service by (simp add: register_service_turn_def Let_def)
next
  case (Activate s t now')
  then show ?thesis using stuck_activate(1) assms by simp
next
  case (Clear s t)
  then show ?thesis using clear_shape [of st s t] assms(1) by (simp add: stuck_def)
qed

lemma stuck_run:
  "stuck now st \<Longrightarrow> \<forall>c\<in>set cs. \<forall>now'. registry_clock c = Some now' \<longrightarrow> now \<le> now' \<Longrightarrow> stuck now (fold (registry_step V) cs st)"
  by (induction cs arbitrary: st) (auto simp: stuck_step)

text \<open>
  C32: One robot ingress that nobody claims within its twenty minutes stops the registry for good.
  From the moment it has expired, whatever commands follow, binding a turn of any channel with
  valid arguments and activating a turn of any session end in the \<open>NameError\<close> of the expiry loop, and
  the ingress is never removed: only a restart of the process, or the reset that normal message
  handling never calls, ends this.
\<close>

theorem stale_ingress_blocks_every_turn:
  assumes "registry_inv st" "stale_ingress now (rg_pending st)"
    "\<forall>c\<in>set cs. \<forall>now'. registry_clock c = Some now' \<longrightarrow> now \<le> now'" "now \<le> later"
    "record_of V b later \<noteq> None" "strip session \<noteq> []"
  shows "fst (bind_trusted_turn V b later (fold (registry_step V) cs st)) = Inl Name_error \<and>
    fst (activate_trusted_turn session turn later (fold (registry_step V) cs st)) = Inl Name_error"
proof -
  have "stuck now st" using assms(1,2) by (simp add: stuck_def)
  then have "stuck now (fold (registry_step V) cs st)" using stuck_run assms(3) by blast
  then show ?thesis using stuck_bind(2) stuck_activate(2) assms(4-6) by blast
qed


theorem stale_ingress_blocks_every_turn_witness:
  "fst (bind_trusted_turn demo_env (demo_bind [98]) 1300 (fold (registry_step demo_env) [Activate [115] [] 1250] demo_pending)) = Inl Name_error"
proof -
  have "stale_ingress 1201 (rg_pending demo_pending)"
    by (simp add: stale_ingress_def demo_pending_def fresh_turn_def turn_ttl_def demo_robot)
  moreover have "record_of demo_env (demo_bind [98]) 1300 \<noteq> None" by (simp add: demo_record demo_spaces)
  ultimately show ?thesis
    using stale_ingress_blocks_every_turn [OF demo_pending_inv, of 1201 "[Activate [115] [] 1250]" 1300 demo_env "demo_bind [98]" "[115]"]
    by (simp add: demo_strip del: fold_simps)
qed

end
