(* ===== verification/JsonText.thy ===== *)
theory JsonText
  imports Prelude
begin

text \<open>
  The text of a JSON value as Python's \<open>json\<close> writes and reads it, for the ledgers of
  \<^verbatim>\<open>runtime/plugins/tuoguan_core/store.py\<close>: \<open>json.dumps\<close> with \<open>ensure_ascii=False\<close> and the compact separators,
  \<open>json.loads\<close>, and \<open>str.splitlines\<close>. A number is scanned as the longest run of number characters,
  which gives the same texts as the scanner of Python, because no value may be followed by such a
  character. How floats are printed and read is an argument; \<open>NaN\<close>, the infinities and the limit on the depth
  of recursion are not modelled.
\<close>

section \<open>Printing\<close>

record float_io =
  fl_repr :: "rat \<Rightarrow> pystr"
  fl_read :: "pystr \<Rightarrow> rat option"

definition hex_digit :: "nat \<Rightarrow> nat" where
  "hex_digit d = (if d < 10 then 48 + d else 87 + d)"

definition json_escape :: "nat \<Rightarrow> pystr" where
  "json_escape c = (if c = 34 then [92, 34] else if c = 92 then [92, 92] else if c = 10 then [92, 110] else if c = 13 then [92, 114]
     else if c = 9 then [92, 116] else if c = 12 then [92, 102] else if c = 8 then [92, 98]
     else if c < 32 then [92, 117, 48, 48, hex_digit (c div 16), hex_digit (c mod 16)] else [c])"

definition json_string :: "pystr \<Rightarrow> pystr" where
  "json_string s = 34 # concat (map json_escape s) @ [34]"

fun commas :: "pystr list \<Rightarrow> pystr" where
  "commas [] = []"
| "commas [x] = x"
| "commas (x # y # zs) = x @ 44 # commas (y # zs)"

primrec json_text :: "float_io \<Rightarrow> json \<Rightarrow> pystr" where
  "json_text F JNull = lit ''null''"
| "json_text F (JBool b) = lit (if b then ''true'' else ''false'')"
| "json_text F (JInt i) = decimal i"
| "json_text F (JFloat x) = fl_repr F x"
| "json_text F (JStr s) = json_string s"
| "json_text F (JList xs) = 91 # commas (map (json_text F) xs) @ [93]"
| "json_text F (JObj kvs) = 123 # commas (map (\<lambda>(k, t). json_string k @ 58 # t) (map (map_prod id (json_text F)) kvs)) @ [125]"

section \<open>Reading\<close>

definition skip_ws :: "pystr \<Rightarrow> pystr" where
  "skip_ws s = dropWhile (\<lambda>c. c \<in> set [32, 9, 10, 13]) s"

definition hex_value :: "nat \<Rightarrow> nat option" where
  "hex_value c = (if 48 \<le> c \<and> c \<le> 57 then Some (c - 48) else if 97 \<le> c \<and> c \<le> 102 then Some (c - 87)
     else if 65 \<le> c \<and> c \<le> 70 then Some (c - 55) else None)"

definition hex4 :: "pystr \<Rightarrow> nat option" where
  "hex4 ds = (case map hex_value ds of
     [Some a, Some b, Some c, Some d] \<Rightarrow> Some (4096 * a + 256 * b + 16 * c + d) | _ \<Rightarrow> None)"

definition simple_escape :: "nat \<Rightarrow> nat option" where
  "simple_escape c = map_of [(34, 34), (92, 92), (47, 47), (98, 8), (102, 12), (110, 10), (114, 13), (116, 9)] c"

text \<open>The escape after \<open>\u\<close>: four digits, and a second escape when they are the two halves of one code point.\<close>

definition low_half :: "pystr \<Rightarrow> nat option" where
  "low_half q = (if take 2 q = [92, 117] then hex4 (take 4 (drop 2 q)) else None)"

definition unicode_escape :: "pystr \<Rightarrow> (nat \<times> pystr) option" where
  "unicode_escape s = (case hex4 (take 4 s) of None \<Rightarrow> None
   | Some u \<Rightarrow> (case low_half (drop 4 s) of
       Some w \<Rightarrow> if 55296 \<le> u \<and> u \<le> 56319 \<and> 56320 \<le> w \<and> w \<le> 57343
         then Some (65536 + (u - 55296) * 1024 + (w - 56320), drop 10 s) else Some (u, drop 4 s)
     | None \<Rightarrow> Some (u, drop 4 s)))"

lemma hex4_length: "hex4 ds = Some u \<Longrightarrow> length ds = 4"
  by (auto simp: hex4_def split: list.splits option.splits)

lemma unicode_escape_length: "unicode_escape s = Some (c, r) \<Longrightarrow> length r < length s"
  by (auto simp: unicode_escape_def dest!: hex4_length split: option.splits if_splits)

function scan_string :: "pystr \<Rightarrow> (pystr \<times> pystr) option" where
  "scan_string s = (case s of
     [] \<Rightarrow> None
   | c # r \<Rightarrow>
       if c = 34 then Some ([], r)
       else if c = 92 then (case r of
           [] \<Rightarrow> None
         | e # r1 \<Rightarrow>
             if e = 117 then (case unicode_escape r1 of None \<Rightarrow> None
               | Some (u, r2) \<Rightarrow> (case scan_string r2 of None \<Rightarrow> None | Some (x, r3) \<Rightarrow> Some (u # x, r3)))
             else (case simple_escape e of None \<Rightarrow> None
               | Some u \<Rightarrow> (case scan_string r1 of None \<Rightarrow> None | Some (x, r3) \<Rightarrow> Some (u # x, r3))))
       else if c < 32 then None
       else (case scan_string r of None \<Rightarrow> None | Some (x, r1) \<Rightarrow> Some (c # x, r1)))"
  by pat_completeness auto

termination
  by (relation "measure length") (auto dest: unicode_escape_length)

declare scan_string.simps [simp del]

definition digit_char :: "nat \<Rightarrow> bool" where
  "digit_char c \<longleftrightarrow> 48 \<le> c \<and> c \<le> 57"

definition number_char :: "nat \<Rightarrow> bool" where
  "number_char c \<longleftrightarrow> digit_char c \<or> c \<in> set [43, 45, 46, 69, 101]"

definition read_nat :: "pystr \<Rightarrow> nat option" where
  "read_nat ds = (if ds \<noteq> [] \<and> list_all digit_char ds \<and> (hd ds \<noteq> 48 \<or> length ds = 1) then Some (foldl (\<lambda>n c. 10 * n + (c - 48)) 0 ds) else None)"

definition read_int :: "pystr \<Rightarrow> int option" where
  "read_int s = (case s of [] \<Rightarrow> None | c # ds \<Rightarrow> if c = 45 then map_option (\<lambda>n. - int n) (read_nat ds) else map_option int (read_nat s))"

definition read_number :: "float_io \<Rightarrow> pystr \<Rightarrow> json option" where
  "read_number F s = (if s = [] then None else case read_int s of Some i \<Rightarrow> Some (JInt i) | None \<Rightarrow> map_option JFloat (fl_read F s))"

definition parse_scalar :: "float_io \<Rightarrow> pystr \<Rightarrow> (json \<times> pystr) option" where
  "parse_scalar F s =
     (if take 4 s = lit ''null'' then Some (JNull, drop 4 s)
      else if take 4 s = lit ''true'' then Some (JBool True, drop 4 s)
      else if take 5 s = lit ''false'' then Some (JBool False, drop 5 s)
      else map_option (\<lambda>v. (v, dropWhile number_char s)) (read_number F (takeWhile number_char s)))"

definition dict_of :: "(pystr \<times> json) list \<Rightarrow> (pystr, json) dict" where
  "dict_of kvs = foldl (\<lambda>d (k, v). AList.update k v d) [] kvs"

lemma length_skip_ws: "length (skip_ws s) \<le> length s"
  by (simp add: skip_ws_def length_dropWhile_le)

lemma skip_ws_less: "length s < n \<Longrightarrow> length (skip_ws s) < n" "length s \<le> n \<Longrightarrow> 2 * length (skip_ws s) < Suc (2 * n)"
  "length s < Suc n \<Longrightarrow> 2 * length (skip_ws s) < Suc (Suc (Suc (2 * n)))" "length s < Suc n \<Longrightarrow> 2 * length (skip_ws s) < Suc (Suc (2 * n))"
  using length_skip_ws [of s] by linarith+

text \<open>The three parsers return the value and the text after it; the checks on lengths only serve termination.\<close>

function parse_value :: "float_io \<Rightarrow> pystr \<Rightarrow> (json \<times> pystr) option"
  and parse_elems :: "float_io \<Rightarrow> pystr \<Rightarrow> (json list \<times> pystr) option"
  and parse_members :: "float_io \<Rightarrow> pystr \<Rightarrow> ((pystr \<times> json) list \<times> pystr) option" where
  "parse_value F s = (case s of
     [] \<Rightarrow> None
   | c # r \<Rightarrow>
       if c = 34 then map_option (\<lambda>(x, r). (JStr x, r)) (scan_string r)
       else if c = 91 then (if take 1 (skip_ws r) = [93] then Some (JList [], drop 1 (skip_ws r))
         else map_option (\<lambda>(xs, r). (JList xs, r)) (parse_elems F (skip_ws r)))
       else if c = 123 then (if take 1 (skip_ws r) = [125] then Some (JObj [], drop 1 (skip_ws r))
         else map_option (\<lambda>(kvs, r). (JObj (dict_of kvs), r)) (parse_members F (skip_ws r)))
       else parse_scalar F s)"
| "parse_elems F s = (case parse_value F s of
     None \<Rightarrow> None
   | Some (v, r) \<Rightarrow> (case skip_ws r of
       [] \<Rightarrow> None
     | c # r1 \<Rightarrow>
         if c = 93 then Some ([v], r1)
         else if c = 44 \<and> length r1 < length s then map_option (\<lambda>(vs, r). (v # vs, r)) (parse_elems F (skip_ws r1))
         else None))"
| "parse_members F s = (case s of
     [] \<Rightarrow> None
   | q # r \<Rightarrow> if q \<noteq> 34 then None else (case scan_string r of
       None \<Rightarrow> None
     | Some (k, r1) \<Rightarrow> (case skip_ws r1 of
         [] \<Rightarrow> None
       | c # r2 \<Rightarrow>
           if c \<noteq> 58 \<or> \<not> length r2 < length s then None
           else (case parse_value F (skip_ws r2) of
             None \<Rightarrow> None
           | Some (v, r3) \<Rightarrow> (case skip_ws r3 of
               [] \<Rightarrow> None
             | d # r4 \<Rightarrow>
                 if d = 125 then Some ([(k, v)], r4)
                 else if d = 44 \<and> length r4 < length s then map_option (\<lambda>(kvs, r). ((k, v) # kvs, r)) (parse_members F (skip_ws r4))
                 else None)))))"
  by pat_completeness auto

termination
  by (relation "measure (\<lambda>x. case x of Inl (F, s) \<Rightarrow> 2 * length s | Inr (Inl (F, s)) \<Rightarrow> 2 * length s + 1 | Inr (Inr (F, s)) \<Rightarrow> 2 * length s + 1)")
    (simp_all add: skip_ws_less)

declare parse_value.simps [simp del] parse_elems.simps [simp del] parse_members.simps [simp del]

text \<open>\<open>json.loads\<close>: \<open>None\<close> is a \<open>JSONDecodeError\<close>.\<close>

definition json_loads :: "float_io \<Rightarrow> pystr \<Rightarrow> json option" where
  "json_loads F s = (case parse_value F (skip_ws s) of Some (v, r) \<Rightarrow> if skip_ws r = [] then Some v else None | None \<Rightarrow> None)"


section \<open>What is printed is read back\<close>

lemma hex_value_digit: "d < 16 \<Longrightarrow> hex_value (hex_digit d) = Some d"
  by (auto simp: hex_value_def hex_digit_def)

lemma unicode_escape_control:
  assumes "c < 32"
  shows "unicode_escape (48 # 48 # hex_digit (c div 16) # hex_digit (c mod 16) # r) = Some (c, r)"
proof -
  have "hex_value 48 = Some 0" by (simp add: hex_value_def)
  moreover have "hex_value (hex_digit (c div 16)) = Some (c div 16)" "hex_value (hex_digit (c mod 16)) = Some (c mod 16)"
    using assms by (simp_all add: hex_value_digit)
  ultimately have "hex4 [48, 48, hex_digit (c div 16), hex_digit (c mod 16)] = Some c"
    by (simp add: hex4_def)
  with assms show ?thesis by (simp add: unicode_escape_def split: option.split)
qed

lemma scan_plain: "c \<noteq> 34 \<Longrightarrow> c \<noteq> 92 \<Longrightarrow> \<not> c < 32 \<Longrightarrow>
  scan_string (c # r) = (case scan_string r of None \<Rightarrow> None | Some (x, r1) \<Rightarrow> Some (c # x, r1))"
  by (subst scan_string.simps) simp

lemma scan_simple: "simple_escape e = Some u \<Longrightarrow> e \<noteq> 117 \<Longrightarrow>
  scan_string (92 # e # r) = (case scan_string r of None \<Rightarrow> None | Some (x, r1) \<Rightarrow> Some (u # x, r1))"
  by (subst scan_string.simps) simp

lemma scan_unicode: "unicode_escape r = Some (u, r1) \<Longrightarrow>
  scan_string (92 # 117 # r) = (case scan_string r1 of None \<Rightarrow> None | Some (x, r2) \<Rightarrow> Some (u # x, r2))"
  by (subst scan_string.simps) simp

lemma scan_escape: "scan_string (json_escape c @ r) = (case scan_string r of None \<Rightarrow> None | Some (x, r1) \<Rightarrow> Some (c # x, r1))"
proof -
  consider "c \<in> {34, 92, 10, 13, 9, 12, 8}" | "c \<notin> {34, 92, 10, 13, 9, 12, 8}" "c < 32" | "c \<noteq> 34" "c \<noteq> 92" "\<not> c < 32" by auto
  then show ?thesis
  proof cases
    case 1
    then show ?thesis by (auto simp: json_escape_def scan_simple simple_escape_def)
  next
    case 2
    then show ?thesis by (simp add: json_escape_def scan_unicode unicode_escape_control)
  next
    case 3
    then show ?thesis by (simp add: json_escape_def scan_plain)
  qed
qed

lemma scan_json_string: "scan_string (concat (map json_escape s) @ 34 # r) = Some (s, r)"
proof (induction s)
  case Nil
  then show ?case by (subst scan_string.simps) simp
qed (simp add: scan_escape)

lemma digits_facts: "digits n \<noteq> [] \<and> list_all digit_char (digits n) \<and> (hd (digits n) \<noteq> 48 \<or> length (digits n) = 1) \<and>
  foldl (\<lambda>n c. 10 * n + (c - 48)) 0 (digits n) = n \<and> (n \<noteq> 0 \<longrightarrow> hd (digits n) \<noteq> 48)"
proof (induction n rule: digits.induct)
  case (1 n)
  show ?case
  proof (cases "n < 10")
    case True
    then show ?thesis by (simp add: digits.simps [of n] digit_char_def)
  next
    case False
    then show ?thesis using 1 by (auto simp: digits.simps [of n] digit_char_def)
  qed
qed

lemma read_nat_digits: "read_nat (digits n) = Some n"
  using digits_facts [of n] by (simp add: read_nat_def)

lemma digits_Cons: "\<exists>c ds. digits n = c # ds \<and> digit_char c \<and> list_all digit_char ds"
  using digits_facts [of n] by (cases "digits n") auto

lemma read_int_decimal: "read_int (decimal i) = Some i"
proof (cases "i < 0")
  case True
  then show ?thesis by (simp add: decimal_def read_int_def read_nat_digits)
next
  case False
  obtain c ds where c: "digits (nat i) = c # ds" "digit_char c" using digits_Cons by blast
  then have "c \<noteq> 45" by (auto simp: digit_char_def)
  then show ?thesis using False c(1) read_nat_digits [of "nat i"] by (simp add: decimal_def read_int_def)
qed

lemma decimal_chars: "decimal i \<noteq> [] \<and> list_all number_char (decimal i)"
proof -
  have "list_all number_char (digits n) \<and> digits n \<noteq> []" for n
    using digits_facts [of n] by (auto simp: number_char_def list_all_iff)
  then show ?thesis by (auto simp: decimal_def) (simp add: number_char_def)
qed

text \<open>Floats whose text is a number that is not an integer and reads back; dictionaries with distinct keys.\<close>

definition prints_float :: "float_io \<Rightarrow> rat \<Rightarrow> bool" where
  "prints_float F x \<longleftrightarrow> fl_repr F x \<noteq> [] \<and> list_all number_char (fl_repr F x) \<and> read_int (fl_repr F x) = None \<and> fl_read F (fl_repr F x) = Some x"

primrec printable :: "float_io \<Rightarrow> json \<Rightarrow> bool" where
  "printable F JNull = True"
| "printable F (JBool b) = True"
| "printable F (JInt i) = True"
| "printable F (JFloat x) = prints_float F x"
| "printable F (JStr s) = True"
| "printable F (JList xs) = list_all id (map (printable F) xs)"
| "printable F (JObj kvs) = (distinct (map fst kvs) \<and> list_all snd (map (map_prod id (printable F)) kvs))"

definition ends_number :: "pystr \<Rightarrow> bool" where
  "ends_number r \<longleftrightarrow> r = [] \<or> \<not> number_char (hd r)"

lemma takeWhile_number: "list_all number_char s \<Longrightarrow> ends_number r \<Longrightarrow> takeWhile number_char (s @ r) = s \<and> dropWhile number_char (s @ r) = r"
  by (induction s) (auto simp: ends_number_def intro: takeWhile_eq_Nil_iff [THEN iffD2] dropWhile_id)

lemma number_char_facts: "number_char c \<Longrightarrow> c \<noteq> 34 \<and> c \<noteq> 91 \<and> c \<noteq> 123 \<and> c \<notin> {32, 9, 10, 13} \<and> c \<noteq> 93 \<and> c \<noteq> 125 \<and> c \<noteq> 110 \<and> c \<noteq> 116 \<and> c \<noteq> 102"
  by (auto simp: number_char_def digit_char_def)

lemma parse_number:
  assumes "s \<noteq> []" "list_all number_char s" "ends_number r" "read_number F s = Some v"
  shows "parse_value F (s @ r) = Some (v, r)"
proof -
  obtain c s' where s: "s = c # s'" using assms(1) by (cases s) auto
  then have c: "number_char c" using assms(2) by simp
  have "parse_scalar F (s @ r) = Some (v, r)"
    using number_char_facts [OF c] takeWhile_number [OF assms(2,3)] assms(4) by (simp add: s parse_scalar_def lit_def)
  then show ?thesis using number_char_facts [OF c] by (subst parse_value.simps) (simp add: s)
qed


lemma skip_ws_solid [simp]: "c \<notin> {32, 9, 10, 13} \<Longrightarrow> skip_ws (c # r) = c # r"
  by (simp add: skip_ws_def)

lemma json_text_head:
  assumes "printable F v"
  shows "\<exists>c s. json_text F v = c # s \<and> c \<notin> {32, 9, 10, 13} \<and> c \<noteq> 93 \<and> c \<noteq> 125"
proof (cases v)
  case (JInt i)
  then show ?thesis using decimal_chars [of i] by (cases "decimal i") (auto dest: number_char_facts)
next
  case (JFloat x)
  then show ?thesis using assms by (cases "fl_repr F x") (auto simp: prints_float_def dest: number_char_facts)
qed (auto simp: lit_def json_string_def)

definition round_trips :: "float_io \<Rightarrow> json \<Rightarrow> bool" where
  "round_trips F v \<longleftrightarrow> (\<forall>r. ends_number r \<longrightarrow> parse_value F (json_text F v @ r) = Some (v, r))"

lemma ends_number_simps [simp]: "ends_number (44 # r)" "ends_number (93 # r)" "ends_number (125 # r)" "ends_number []"
  by (simp_all add: ends_number_def number_char_def digit_char_def)

lemma parse_elems_text:
  assumes "vs \<noteq> []" "\<forall>v\<in>set vs. printable F v \<and> round_trips F v"
  shows "parse_elems F (commas (map (json_text F) vs) @ 93 # r) = Some (vs, r)"
  using assms
proof (induction vs rule: induct_list012)
  case (2 v)
  then have "parse_value F (json_text F v @ 93 # r) = Some (v, 93 # r)" by (simp add: round_trips_def)
  then show ?case by (subst parse_elems.simps) simp
next
  case (3 v w vs)
  let ?rest = "commas (map (json_text F) (w # vs)) @ 93 # r"
  have "parse_value F (json_text F v @ 44 # ?rest) = Some (v, 44 # ?rest)" using 3 by (simp add: round_trips_def)
  moreover obtain c s where "json_text F w = c # s" "c \<notin> {32, 9, 10, 13}" using json_text_head [of F w] 3 by auto
  then have "skip_ws ?rest = ?rest" by (cases vs) simp_all
  ultimately show ?case using 3 by (subst parse_elems.simps) simp
qed simp

definition member_text :: "float_io \<Rightarrow> pystr \<times> json \<Rightarrow> pystr" where
  "member_text F kv = json_string (fst kv) @ 58 # json_text F (snd kv)"

lemma json_text_obj: "json_text F (JObj kvs) = 123 # commas (map (member_text F) kvs) @ [125]"
  by (simp add: member_text_def [abs_def] case_prod_unfold comp_def)

lemma parse_members_text:
  assumes "kvs \<noteq> []" "\<forall>kv\<in>set kvs. printable F (snd kv) \<and> round_trips F (snd kv)"
  shows "parse_members F (commas (map (member_text F) kvs) @ 125 # r) = Some (kvs, r)"
proof -
  have member: "parse_members F (member_text F kv @ d # r1) =
      (if d = 125 then Some ([kv], r1) else map_option (\<lambda>(kvs, r). (kv # kvs, r)) (parse_members F (skip_ws r1)))"
    if kv: "printable F (snd kv)" "round_trips F (snd kv)" and d: "d = 125 \<or> d = 44" for kv d r1
  proof -
    have v: "parse_value F (json_text F (snd kv) @ d # r1) = Some (snd kv, d # r1)" using kv(2) d by (auto simp: round_trips_def)
    obtain c s where c: "json_text F (snd kv) = c # s" "c \<notin> {32, 9, 10, 13}" using json_text_head [OF kv(1)] by auto
    then have ws: "skip_ws (json_text F (snd kv) @ d # r1) = json_text F (snd kv) @ d # r1" by simp
    have scan: "scan_string (concat (map json_escape (fst kv)) @ 34 # 58 # json_text F (snd kv) @ d # r1) = Some (fst kv, 58 # json_text F (snd kv) @ d # r1)"
      by (rule scan_json_string)
    have d': "skip_ws (d # r1) = d # r1" using d by auto
    show ?thesis using v d d' unfolding member_text_def json_string_def
      by (subst parse_members.simps) (auto simp: scan ws)
  qed
  from assms show ?thesis
  proof (induction kvs rule: induct_list012)
    case (2 kv)
    then show ?case using member [of kv 125 r] by simp
  next
    case (3 kv kw kvs)
    let ?rest = "commas (map (member_text F) (kw # kvs)) @ 125 # r"
    have "\<exists>s. ?rest = 34 # s" by (cases kvs) (simp_all add: member_text_def json_string_def)
    then have "skip_ws ?rest = ?rest" by auto
    then show ?case using member [of kv 44 ?rest] 3 by simp
  qed simp
qed

lemma update_new: "k \<notin> fst ` set xs \<Longrightarrow> AList.update k v xs = xs @ [(k, v)]"
  by (induction xs) auto

lemma dict_of_distinct: "distinct (map fst kvs) \<Longrightarrow> dict_of kvs = kvs"
proof (induction kvs rule: rev_induct)
  case (snoc kv kvs)
  then show ?case by (cases kv) (simp add: dict_of_def update_new)
qed (simp add: dict_of_def)

lemma json_round_trips: "printable F v \<Longrightarrow> round_trips F v"
proof (induction v)
  case (JBool b)
  show ?case by (simp add: round_trips_def parse_value.simps parse_scalar_def lit_def)
next
  case (JInt i)
  then show ?case using decimal_chars [of i]
    by (simp add: round_trips_def parse_number read_number_def read_int_decimal)
next
  case (JFloat x)
  then show ?case by (simp add: round_trips_def parse_number read_number_def prints_float_def)
next
  case (JStr s)
  show ?case by (simp add: round_trips_def parse_value.simps json_string_def scan_json_string)
next
  case (JList xs)
  then have ok: "\<forall>v\<in>set xs. printable F v \<and> round_trips F v" by (simp add: list_all_iff)
  show ?case
  proof (cases xs)
    case Nil
    then show ?thesis by (simp add: round_trips_def parse_value.simps)
  next
    case (Cons v vs)
    obtain c s where c: "json_text F v = c # s" "c \<notin> {32, 9, 10, 13}" "c \<noteq> 93" using json_text_head [of F v] ok Cons by auto
    have "parse_value F (91 # commas (map (json_text F) xs) @ 93 # r) = Some (JList xs, r)" for r
    proof -
      have "skip_ws (commas (map (json_text F) xs) @ 93 # r) = commas (map (json_text F) xs) @ 93 # r"
        "take 1 (commas (map (json_text F) xs) @ 93 # r) \<noteq> [93]"
        using c Cons by (cases vs; simp)+
      then show ?thesis using parse_elems_text [OF _ ok, of r] Cons by (subst parse_value.simps) simp
    qed
    then show ?thesis by (simp add: round_trips_def)
  qed
next
  case (JObj kvs)
  then have ok: "\<forall>kv\<in>set kvs. printable F (snd kv) \<and> round_trips F (snd kv)" and d: "distinct (map fst kvs)"
    by (force simp: list_all_iff snds.simps)+
  show ?case
  proof (cases kvs)
    case Nil
    then show ?thesis by (simp add: round_trips_def parse_value.simps)
  next
    case (Cons kv kws)
    have "parse_value F (123 # commas (map (member_text F) kvs) @ 125 # r) = Some (JObj kvs, r)" for r
    proof -
      have "\<exists>s. commas (map (member_text F) kvs) @ 125 # r = 34 # s"
        using Cons by (cases kws) (simp_all add: member_text_def json_string_def)
      then show ?thesis using parse_members_text [OF _ ok, of r] Cons d
        by (subst parse_value.simps) (auto simp: dict_of_distinct)
    qed
    then show ?thesis by (simp add: round_trips_def json_text_obj del: json_text.simps)
  qed
qed (simp add: round_trips_def parse_value.simps parse_scalar_def lit_def)

theorem json_loads_text:
  assumes "printable F v"
  shows "json_loads F (json_text F v) = Some v"
proof -
  have "parse_value F (json_text F v @ []) = Some (v, [])"
    using json_round_trips [OF assms] unfolding round_trips_def by (rule allE [of _ "[]"]) simp
  moreover have "skip_ws (json_text F v) = json_text F v" using json_text_head [OF assms] by auto
  ultimately show ?thesis by (simp add: json_loads_def) (simp add: skip_ws_def)
qed


section \<open>Text after a complete value\<close>

lemma skip_ws_extend: "skip_ws s = c # r \<Longrightarrow> skip_ws (s @ t) = c # r @ t"
  by (induction s) (auto simp: skip_ws_def split: if_splits)

lemma low_half_extend:
  assumes "low_half q \<noteq> None \<or> scan_string q \<noteq> None"
  shows "low_half (q @ t) = low_half q"
proof (cases "low_half q")
  case (Some w)
  then have "take 2 q = [92, 117]" "length (take 4 (drop 2 q)) = 4" by (auto simp: low_half_def dest: hex4_length split: if_splits)
  then have "6 \<le> length q" by simp
  then show ?thesis by (simp add: low_half_def)
next
  case None
  have "low_half (q @ t) = None"
  proof (rule ccontr)
    assume a: "low_half (q @ t) \<noteq> None"
    then have two: "take 2 (q @ t) = [92, 117]" by (auto simp: low_half_def split: if_splits)
    from assms None have scan: "scan_string q \<noteq> None" by simp
    then have "q \<noteq> []" "q \<noteq> [92]" by (auto simp: scan_string.simps [of "[]"] scan_string.simps [of "[92]"])
    then obtain q2 where q: "q = 92 # 117 # q2" using two
      by (cases q; cases "tl q") (auto simp: take_Cons')
    then have "hex4 (take 4 q2) = None" using None by (simp add: low_half_def)
    then have "scan_string q = None" unfolding q by (subst scan_string.simps) (simp add: unicode_escape_def)
    with scan show False by simp
  qed
  with None show ?thesis by simp
qed

lemma unicode_escape_extend:
  assumes "unicode_escape s = Some (u, r)" "scan_string r \<noteq> None"
  shows "unicode_escape (s @ t) = Some (u, r @ t)"
proof -
  obtain w where w: "hex4 (take 4 s) = Some w" using assms(1) by (auto simp: unicode_escape_def split: option.splits)
  then have len: "4 \<le> length s" using hex4_length [OF w] by simp
  have "low_half (drop 4 s) \<noteq> None \<or> scan_string (drop 4 s) \<noteq> None"
    using assms w by (auto simp: unicode_escape_def split: option.splits)
  then have l: "low_half (drop 4 s @ t) = low_half (drop 4 s)" by (rule low_half_extend)
  have ten: "10 \<le> length s" if "low_half (drop 4 s) = Some z" for z
    using that by (auto simp: low_half_def dest!: hex4_length split: if_splits)
  show ?thesis using assms(1) w len l by (auto simp: unicode_escape_def dest: ten split: option.splits if_splits)
qed

lemma scan_Nil: "scan_string [] = None"
  by (simp add: scan_string.simps)

lemma scan_Cons: "scan_string (c # r) =
  (if c = 34 then Some ([], r)
   else if c = 92 then (case r of
       [] \<Rightarrow> None
     | e # r1 \<Rightarrow>
         if e = 117 then (case unicode_escape r1 of None \<Rightarrow> None
           | Some (u, r2) \<Rightarrow> (case scan_string r2 of None \<Rightarrow> None | Some (x, r3) \<Rightarrow> Some (u # x, r3)))
         else (case simple_escape e of None \<Rightarrow> None
           | Some u \<Rightarrow> (case scan_string r1 of None \<Rightarrow> None | Some (x, r3) \<Rightarrow> Some (u # x, r3))))
   else if c < 32 then None
   else (case scan_string r of None \<Rightarrow> None | Some (x, r1) \<Rightarrow> Some (c # x, r1)))"
  by (subst scan_string.simps) simp

lemma scan_string_extend: "scan_string s = Some (x, r) \<Longrightarrow> scan_string (s @ t) = Some (x, r @ t)"
proof (induction s arbitrary: x r rule: scan_string.induct)
  case (1 s)
  show ?case
  proof (cases s)
    case (Cons c s1)
    consider "c = 34" | "c = 92" | "c \<noteq> 34" "c \<noteq> 92" by blast
    then show ?thesis
    proof cases
      case 1
      then show ?thesis using "1.prems" Cons by (simp add: scan_Cons)
    next
      case 2
      then obtain e s2 where s1: "s1 = e # s2" using "1.prems" Cons by (cases s1) (auto simp: scan_Cons scan_Nil)
      show ?thesis
      proof (cases "e = 117")
        case True
        obtain u s3 x3 r3 where u: "unicode_escape s2 = Some (u, s3)" "scan_string s3 = Some (x3, r3)" "x = u # x3" "r = r3"
          using "1.prems" Cons s1 2 True by (auto simp: scan_Cons scan_Nil split: option.splits)
        have "scan_string (s3 @ t) = Some (x3, r3 @ t)" using "1.IH"(1) u Cons s1 2 True by simp
        then show ?thesis using unicode_escape_extend [OF u(1), of t] u Cons s1 2 True
          by (simp add: scan_Cons scan_Nil)
      next
        case False
        obtain u x3 where u: "simple_escape e = Some u" "scan_string s2 = Some (x3, r)" "x = u # x3"
          using "1.prems" Cons s1 2 False by (auto simp: scan_Cons scan_Nil split: option.splits)
        have "scan_string (s2 @ t) = Some (x3, r @ t)" using "1.IH"(2) u Cons s1 2 False by simp
        then show ?thesis using u Cons s1 2 False by (simp add: scan_Cons scan_Nil)
      qed
    next
      case 3
      then obtain x3 where x: "scan_string s1 = Some (x3, r)" "x = c # x3" "\<not> c < 32"
        using "1.prems" Cons by (auto simp: scan_Cons scan_Nil split: option.splits if_splits)
      have "scan_string (s1 @ t) = Some (x3, r @ t)" using "1.IH"(3) x Cons 3 by simp
      then show ?thesis using x Cons 3 by (simp add: scan_Cons scan_Nil)
    qed
  qed (use 1 in \<open>simp add: scan_Cons scan_Nil\<close>)
qed


definition self_delimiting :: "json \<Rightarrow> bool" where
  "self_delimiting v \<longleftrightarrow> (case v of JStr _ \<Rightarrow> True | JList _ \<Rightarrow> True | JObj _ \<Rightarrow> True | _ \<Rightarrow> False)"

lemma take_prefix: "take n s = w \<Longrightarrow> length w = n \<Longrightarrow> take n (s @ t) = w \<and> drop n (s @ t) = drop n s @ t"
  by (cases "n \<le> length s") (auto simp: min_def)

lemma parse_scalar_extend:
  assumes "parse_scalar F s = Some (v, r)" "r \<noteq> []"
  shows "parse_scalar F (s @ t) = Some (v, r @ t)"
proof -
  have lens: "length (lit ''null'') = 4" "length (lit ''true'') = 4" "length (lit ''false'') = 5" by (simp_all add: lit_def)
  consider "take 4 s = lit ''null''" | "take 4 s = lit ''true''" | "take 5 s = lit ''false''"
    | "read_number F (takeWhile number_char s) = Some v" "r = dropWhile number_char s"
    using assms(1) by (auto simp: parse_scalar_def split: if_splits)
  then show ?thesis
  proof cases
    case 4
    then obtain c s' where s: "s = c # s'" "number_char c" by (cases s) (auto simp: read_number_def split: if_splits)
    have "takeWhile number_char (s @ t) = takeWhile number_char s \<and> dropWhile number_char (s @ t) = dropWhile number_char s @ t"
      using 4(2) assms(2) by (metis dropWhile_append1 dropWhile_eq_Nil_conv takeWhile_append1)
    then show ?thesis using 4 number_char_facts [OF s(2)] s(1) by (simp add: parse_scalar_def lit_def)
  qed (use assms(1) take_prefix [OF _ lens(1), of s t] take_prefix [OF _ lens(2), of s t] take_prefix [OF _ lens(3), of s t]
      in \<open>auto simp: parse_scalar_def\<close>)
qed

lemma parse_Nil: "parse_value F [] = None"
  by (simp add: parse_value.simps)

lemma parse_Cons: "parse_value F (c # r) =
  (if c = 34 then map_option (\<lambda>(x, r). (JStr x, r)) (scan_string r)
   else if c = 91 then (if take 1 (skip_ws r) = [93] then Some (JList [], drop 1 (skip_ws r))
     else map_option (\<lambda>(xs, r). (JList xs, r)) (parse_elems F (skip_ws r)))
   else if c = 123 then (if take 1 (skip_ws r) = [125] then Some (JObj [], drop 1 (skip_ws r))
     else map_option (\<lambda>(kvs, r). (JObj (dict_of kvs), r)) (parse_members F (skip_ws r)))
   else parse_scalar F (c # r))"
  by (subst parse_value.simps) simp

lemma members_Nil: "parse_members F [] = None"
  by (simp add: parse_members.simps)

lemma members_Cons: "parse_members F (q # r) = (if q \<noteq> 34 then None else (case scan_string r of
       None \<Rightarrow> None
     | Some (k, r1) \<Rightarrow> (case skip_ws r1 of
         [] \<Rightarrow> None
       | c # r2 \<Rightarrow>
           if c \<noteq> 58 \<or> \<not> length r2 < Suc (length r) then None
           else (case parse_value F (skip_ws r2) of
             None \<Rightarrow> None
           | Some (v, r3) \<Rightarrow> (case skip_ws r3 of
               [] \<Rightarrow> None
             | d # r4 \<Rightarrow>
                 if d = 125 then Some ([(k, v)], r4)
                 else if d = 44 \<and> length r4 < Suc (length r) then map_option (\<lambda>(kvs, r). ((k, v) # kvs, r)) (parse_members F (skip_ws r4))
                 else None)))))"
  by (subst parse_members.simps) (simp only: list.case list.size add_0 add_Suc_right add_0_right)

lemma parse_extend:
  "parse_value F s = Some (v, r) \<Longrightarrow> r \<noteq> [] \<or> self_delimiting v \<Longrightarrow> parse_value F (s @ t) = Some (v, r @ t)"
  "parse_elems F s = Some (vs, r) \<Longrightarrow> parse_elems F (s @ t) = Some (vs, r @ t)"
  "parse_members F s = Some (kvs, r) \<Longrightarrow> parse_members F (s @ t) = Some (kvs, r @ t)"
proof (induction F s and F s and F s arbitrary: v r and vs r and kvs r rule: parse_value_parse_elems_parse_members.induct)
  case (1 F s)
  then obtain c s1 where s: "s = c # s1" by (cases s) (auto simp: parse_value.simps)
  consider "c = 34" | "c = 91" | "c = 123" | "c \<noteq> 34" "c \<noteq> 91" "c \<noteq> 123" by blast
  then show ?case
  proof cases
    case c: 1
    then show ?thesis using "1.prems"(1) by (auto simp: s parse_Cons dest: scan_string_extend)
  next
    case c: 2
    obtain d s2 where d: "skip_ws s1 = d # s2" using "1.prems"(1) c
      by (cases "skip_ws s1") (auto simp: s parse_Cons parse_elems.simps [of F "[]"] parse_Nil)
    note d' = skip_ws_extend [OF d, of t]
    show ?thesis
    proof (cases "d = 93")
      case False
      then show ?thesis using "1.prems"(1) "1.IH"(1) [OF s] c d d' by (auto simp: s parse_Cons)
    qed (use "1.prems"(1) c d d' in \<open>auto simp: s parse_Cons\<close>)
  next
    case c: 3
    obtain d s2 where d: "skip_ws s1 = d # s2" using "1.prems"(1) c
      by (cases "skip_ws s1") (auto simp: s parse_Cons members_Nil)
    note d' = skip_ws_extend [OF d, of t]
    show ?thesis
    proof (cases "d = 125")
      case False
      then show ?thesis using "1.prems"(1) "1.IH"(2) [OF s] c d d' by (auto simp: s parse_Cons)
    qed (use "1.prems"(1) c d d' in \<open>auto simp: s parse_Cons\<close>)
  next
    case c: 4
    have "parse_scalar F s = Some (v, r)" using "1.prems"(1) c by (simp add: s parse_Cons)
    moreover from this have "\<not> self_delimiting v"
      by (auto simp: parse_scalar_def read_number_def self_delimiting_def split: if_splits option.splits)
    ultimately have "parse_scalar F (s @ t) = Some (v, r @ t)" using "1.prems"(2) parse_scalar_extend by blast
    then show ?thesis using c by (simp add: s parse_Cons)
  qed
next
  case (2 F s)
  obtain v r1 c r2 where v: "parse_value F s = Some (v, r1)" and ws: "skip_ws r1 = c # r2"
    using "2.prems" by (auto simp: parse_elems.simps [of F s] split: option.splits list.splits)
  have "r1 \<noteq> []" using ws by (auto simp: skip_ws_def)
  then have v': "parse_value F (s @ t) = Some (v, r1 @ t)" using "2.IH"(1) v by blast
  have ws': "skip_ws (r1 @ t) = c # r2 @ t" by (rule skip_ws_extend [OF ws])
  show ?case
  proof (cases "c = 93")
    case True
    then show ?thesis using "2.prems" v ws v' ws' by (simp add: parse_elems.simps [of F s] parse_elems.simps [of F "s @ t"])
  next
    case False
    then obtain us where e: "c = 44" "length r2 < length s" "parse_elems F (skip_ws r2) = Some (us, r)" "vs = v # us"
      using "2.prems" v ws by (auto simp: parse_elems.simps [of F s] split: if_splits)
    obtain d r3 where d: "skip_ws r2 = d # r3" using e(3)
      by (cases "skip_ws r2") (auto simp: parse_elems.simps [of F "[]"] parse_Nil)
    have "parse_elems F (skip_ws r2 @ t) = Some (us, r @ t)" using "2.IH"(2) [OF v] ws e by simp
    then show ?thesis using v' ws' e skip_ws_extend [OF d, of t] d by (simp add: parse_elems.simps [of F "s @ t"])
  qed
next
  case (3 F s)
  obtain q s1 k r1 c r2 v r3 d r4 where s: "s = q # s1" "q = 34" and k: "scan_string s1 = Some (k, r1)"
    and c: "skip_ws r1 = c # r2" "c = 58" "length r2 < length s" and v: "parse_value F (skip_ws r2) = Some (v, r3)" and d: "skip_ws r3 = d # r4"
    using "3.prems" by (cases s) (auto simp: members_Cons members_Nil split: option.splits list.splits if_splits)
  obtain e r5 where e: "skip_ws r2 = e # r5" using v by (cases "skip_ws r2") (auto simp: parse_Nil)
  have "r3 \<noteq> []" using d by (auto simp: skip_ws_def)
  then have "parse_value F (skip_ws r2 @ t) = Some (v, r3 @ t)" using "3.IH"(1) s k c v by simp
  then have v': "parse_value F (skip_ws (r2 @ t)) = Some (v, r3 @ t)"
    using skip_ws_extend [OF e, of t] e by simp
  note ext = scan_string_extend [OF k, of t] skip_ws_extend [OF c(1), of t] skip_ws_extend [OF d, of t]
  show ?case
  proof (cases "d = 125")
    case True
    then show ?thesis using "3.prems" s k c v v' d ext by (simp add: members_Cons)
  next
    case False
    then obtain us where u: "d = 44" "length r4 < length s" "parse_members F (skip_ws r4) = Some (us, r)" "kvs = (k, v) # us"
      using "3.prems" s k c v d by (auto simp: members_Cons split: if_splits)
    obtain g r6 where g: "skip_ws r4 = g # r6" using u(3) by (cases "skip_ws r4") (auto simp: members_Nil)
    have "parse_members F (skip_ws r4 @ t) = Some (us, r @ t)" using "3.IH"(2) s k c v d u by simp
    then show ?thesis using s k c v v' d ext u skip_ws_extend [OF g, of t] g by (simp add: members_Cons)
  qed
qed

text \<open>A ledger line that has been cut is not JSON: no proper prefix of the text of an object can be read.\<close>

lemma cut_object_unreadable:
  assumes "printable F (JObj kvs)" "json_text F (JObj kvs) = p @ q" "q \<noteq> []"
  shows "json_loads F p = None"
proof (cases p)
  case Nil
  then show ?thesis by (simp add: json_loads_def skip_ws_def parse_Nil)
next
  case (Cons c p')
  then have c: "p = 123 # p'" using assms(2) by simp
  have "json_loads F p \<noteq> Some w" for w
  proof
    assume "json_loads F p = Some w"
    then obtain r where w: "parse_value F p = Some (w, r)" by (auto simp: json_loads_def c split: option.splits if_splits)
    then have "self_delimiting w" by (auto simp: c parse_Cons self_delimiting_def split: if_splits)
    then have "parse_value F (p @ q) = Some (w, r @ q)" using parse_extend(1) [OF w] by simp
    moreover have "parse_value F (json_text F (JObj kvs) @ []) = Some (JObj kvs, [])"
      using json_round_trips [OF assms(1)] unfolding round_trips_def by (rule allE [of _ "[]"]) simp
    ultimately show False using assms(2,3) by simp
  qed
  then show ?thesis by (cases "json_loads F p") auto
qed

end
