(* ===== verification/DataStore.thy ===== *)
theory DataStore
  imports JsonText TurnRegistry
begin

text \<open>
  \<^verbatim>\<open>runtime/plugins/tuoguan_core/store.py\<close> and \<^verbatim>\<open>runtime/plugins/tuoguan_core/write_guard.py\<close>: the data directory of the
  institution. A JSON document is its value, or \<open>None\<close> when the file cannot be read; a ledger of JSON
  lines is its text. The context variable of the write guard is part of the state. Locks, backups,
  ownership and file modes are left out; random ids, the local time and the inspected call stack
  of an audit row are arguments.
\<close>

section \<open>The data directory\<close>

record write_authorization =
  wa_source :: pystr
  wa_operation_id :: pystr
  wa_ledger_id :: pystr
  wa_audit_id :: pystr
  wa_allowed_files :: "pystr list"

record data_dir =
  dd_docs :: "(pystr, json option) dict"
  dd_ledgers :: "(pystr, pystr) dict"
  dd_active :: "write_authorization option"

datatype store_error = Store_error string | Attribute_error

text \<open>What the host supplies: the printer of floats, \<open>str\<close>, and the parts of an audit row.\<close>

record host =
  ho_floats :: float_io
  ho_render :: "json \<Rightarrow> pystr"
  ho_tenant :: pystr
  ho_uuid :: pystr
  ho_now :: pystr
  ho_stamp :: pystr
  ho_caller :: pystr

definition ledger_of :: "pystr \<Rightarrow> data_dir \<Rightarrow> pystr" where
  "ledger_of name dd = (case map_of (dd_ledgers dd) name of None \<Rightarrow> [] | Some s \<Rightarrow> s)"

definition append_ledger :: "pystr \<Rightarrow> pystr \<Rightarrow> data_dir \<Rightarrow> data_dir" where
  "append_ledger name s dd = dd\<lparr>dd_ledgers := AList.update name (ledger_of name dd @ s) (dd_ledgers dd)\<rparr>"

section \<open>The write guard\<close>

definition protected_business_files :: "pystr list" where
  "protected_business_files = map lit [
    ''tasks.json'', ''records.json'', ''students.json'', ''summer_enrollments.json'', ''trial_leads.json'', ''task_closure_events.json'',
    ''notification_outbox.json'', ''notification_deliveries.json'', ''dashboard_cache.json'', ''point_events.json'', ''summer_points.json'',
    ''core_workflow_contexts.json'', ''safety_test_events.json'', ''goal_operator_goals.json'', ''goal_operator_events.jsonl'',
    ''institution_operating_model.json'', ''youyi_operating_model.json'', ''operational_facts.json'', ''operational_fact_candidates.jsonl'',
    ''person_workstyle_events.jsonl'', ''institution_onboarding_state.json'', ''service_relations.json'', ''service_relation_candidates.jsonl'',
    ''information_requests.jsonl'', ''profile_candidates.jsonl'', ''profile_candidate_corrections.jsonl'', ''goal_evidence.jsonl'',
    ''performance_evidence_candidates.jsonl'', ''performance_evidence_responses.jsonl'', ''value_ledger.jsonl'', ''gray_observations.jsonl'',
    ''gray_rollout_decisions.jsonl'', ''gray_optimization_decisions.jsonl'', ''hermes_work_items.jsonl'', ''wakeup_requests.jsonl'',
    ''business_events.jsonl'', ''action_executions.jsonl'', ''daily_report_runs.jsonl'', ''institution_understanding_state.json'',
    ''hermes_employee_scorecard.jsonl'', ''industry_learning_candidates.jsonl'', ''institution_fact_gap_events.jsonl'',
    ''value_progress_ledger.jsonl'', ''agent_delegations.jsonl'', ''agent_delegation_results.jsonl'', ''attention_threads.jsonl'',
    ''external_research_runs.jsonl'', ''external_research_corrections.jsonl'', ''market_research_candidates.jsonl'', ''competitor_profiles.jsonl'',
    ''social_market_research_config.json'', ''social_market_research_runs.jsonl'', ''social_market_research_candidates.jsonl'',
    ''project_opportunity_events.jsonl'', ''weekly_market_report_runs.jsonl'', ''relationship_touch_candidates.jsonl'',
    ''relationship_touch_policy.json'', ''proactive_authorizations.jsonl'', ''proactive_delivery_authorization_v1.json'',
    ''proactive_delivery_authorization_audit_v1.jsonl'', ''personnel_service_governance_v1.json'', ''governance_claims_v1.json'',
    ''goal_actions.jsonl'', ''staff_voice_signals.jsonl'', ''self_evolution_events.jsonl'', ''turn_traces.jsonl'', ''runtime_status_events.jsonl'',
    ''tool_operations.json'', ''teacher_coaching_events.jsonl'', ''task_unified_state_repair_events.jsonl'', ''staff_offboarding_events.jsonl'',
    ''supervision_runs.jsonl'', ''supervision_findings.jsonl'', ''supervision_repairs.jsonl'']"

definition guard_file :: pystr where
  "guard_file = lit ''write_guard_config.json''"

definition audit_file :: pystr where
  "audit_file = lit ''business_action_audit.jsonl''"

definition guard_config :: "data_dir \<Rightarrow> (pystr, json) dict" where
  "guard_config dd = (case map_of (dd_docs dd) guard_file of Some (Some v) \<Rightarrow> as_dict v | _ \<Rightarrow> [])"

definition guard_enabled :: "data_dir \<Rightarrow> bool" where
  "guard_enabled dd \<longleftrightarrow> dget (guard_config dd) (lit ''enabled'') = JBool True"

definition append_audit_row :: "host \<Rightarrow> (pystr, json) dict \<Rightarrow> data_dir \<Rightarrow> data_dir" where
  "append_audit_row H row = append_ledger audit_file (json_text (ho_floats H) (JObj row) @ [10])"

definition critical_row :: "host \<Rightarrow> (pystr, json) dict \<Rightarrow> (pystr, json) dict" where
  "critical_row H payload = [(lit ''audit_event_id'', JStr (lit ''audit_critical_'' @ ho_uuid H)), (lit ''tenant_id'', JStr (ho_tenant H)),
     (lit ''channel'', JStr (lit ''wecom_callback'')), (lit ''event'', JStr (lit ''unauthorized_write_blocked'')),
     (lit ''action'', JStr (lit ''business_write_guard'')), (lit ''result'', JStr (lit ''critical'')), (lit ''created_at'', JStr (ho_now H))] @ payload"

definition authorization_json :: "write_authorization option \<Rightarrow> json" where
  "authorization_json w = (case w of None \<Rightarrow> JNull
   | Some a \<Rightarrow> JObj [(lit ''source'', JStr (wa_source a)), (lit ''operation_id'', JStr (wa_operation_id a)), (lit ''ledger_id'', JStr (wa_ledger_id a)),
       (lit ''audit_id'', JStr (wa_audit_id a)), (lit ''allowed_files'', JList (map JStr (wa_allowed_files a)))])"

definition covers :: "pystr \<Rightarrow> write_authorization option \<Rightarrow> bool" where
  "covers name w \<longleftrightarrow> (case w of None \<Rightarrow> False
   | Some a \<Rightarrow> wa_operation_id a \<noteq> [] \<and> wa_ledger_id a \<noteq> [] \<and> wa_audit_id a \<noteq> [] \<and> (wa_allowed_files a = [] \<or> name \<in> set (wa_allowed_files a)))"

definition assert_business_write_allowed :: "host \<Rightarrow> pystr \<Rightarrow> (data_dir, store_error, unit) op" where
  "assert_business_write_allowed H name dd =
     (if name \<notin> set protected_business_files \<or> \<not> guard_enabled dd \<or> covers name (dd_active dd) then (Inr (), dd)
      else (Inl (Store_error ''unauthorized_write''), append_audit_row H (critical_row H
        [(lit ''file'', JStr name), (lit ''reason'', JStr (lit ''missing_active_runtime_write_authorization'')), (lit ''caller'', JStr (ho_caller H)),
         (lit ''active_context'', authorization_json (dd_active dd))]) dd))"

text \<open>
  The two context managers: the authorization holds while the body runs and the former one is back
  afterwards, also when the body raises.
\<close>

definition authorized_business_write :: "write_authorization \<Rightarrow> (data_dir, 'e, 'a) op \<Rightarrow> (data_dir, 'e, 'a) op" where
  "authorized_business_write a body dd =
     (let (res, dd') = body (dd\<lparr>dd_active := Some (a\<lparr>wa_allowed_files := sort (wa_allowed_files a)\<rparr>)\<rparr>) in (res, dd'\<lparr>dd_active := dd_active dd\<rparr>))"

definition prepare_system_write :: "host \<Rightarrow> pystr \<Rightarrow> pystr list \<Rightarrow> data_dir \<Rightarrow> write_authorization \<times> data_dir" where
  "prepare_system_write H job_name files dd =
     (let audit_id = lit ''audit_system_write_'' @ ho_uuid H; ledger_id = lit ''system_job:'' @ job_name @ lit '':'' @ ho_stamp H in
      (\<lparr>wa_source = lit ''system_job'', wa_operation_id = lit ''system:'' @ job_name @ lit '':'' @ ho_stamp H, wa_ledger_id = ledger_id, wa_audit_id = audit_id,
         wa_allowed_files = files\<rparr>,
       append_audit_row H [(lit ''audit_event_id'', JStr audit_id), (lit ''ledger_id'', JStr ledger_id), (lit ''tenant_id'', JStr (ho_tenant H)),
         (lit ''channel'', JStr (lit ''system_job'')), (lit ''event'', JStr (lit ''system_write_authorized'')), (lit ''action'', JStr job_name),
         (lit ''result'', JStr (lit ''authorized'')), (lit ''allowed_files'', JList (map JStr (sort files))), (lit ''created_at'', JStr (ho_now H))] dd))"

definition authorized_system_write :: "host \<Rightarrow> pystr \<Rightarrow> pystr list \<Rightarrow> (data_dir, 'e, 'a) op \<Rightarrow> (data_dir, 'e, 'a) op" where
  "authorized_system_write H job_name files body dd =
     (let (a, dd1) = prepare_system_write H job_name files dd in authorized_business_write a body dd1)"

section \<open>JSON documents\<close>

definition valid_name :: "pystr \<Rightarrow> bool" where
  "valid_name name \<longleftrightarrow> name \<noteq> [] \<and> name \<noteq> lit ''.'' \<and> 47 \<notin> set name"

definition encodable :: "pystr \<Rightarrow> bool" where
  "encodable s \<longleftrightarrow> list_all (\<lambda>c. c < 55296 \<or> 57343 < c) s"

definition read_json :: "pystr \<Rightarrow> json \<Rightarrow> data_dir \<Rightarrow> store_error + json" where
  "read_json name fallback dd =
     (if \<not> valid_name name then Inl (Store_error ''invalid_name'')
      else case map_of (dd_docs dd) name of None \<Rightarrow> Inr fallback | Some None \<Rightarrow> Inl (Store_error ''unreadable'') | Some (Some v) \<Rightarrow> Inr v)"

definition put_doc :: "host \<Rightarrow> pystr \<Rightarrow> json \<Rightarrow> (data_dir, store_error, json) op" where
  "put_doc H name v dd = (if encodable (json_text (ho_floats H) v) then (Inr v, dd\<lparr>dd_docs := AList.update name (Some v) (dd_docs dd)\<rparr>)
     else (Inl (Store_error ''not_encodable''), dd))"

definition write_json :: "host \<Rightarrow> pystr \<Rightarrow> json \<Rightarrow> (data_dir, store_error, unit) op" where
  "write_json H name v dd =
     (if \<not> valid_name name then (Inl (Store_error ''invalid_name''), dd)
      else case assert_business_write_allowed H name dd of
        (Inl e, dd1) \<Rightarrow> (Inl e, dd1)
      | (Inr _, dd1) \<Rightarrow> (case put_doc H name v dd1 of (Inl e, dd2) \<Rightarrow> (Inl e, dd2) | (Inr _, dd2) \<Rightarrow> (Inr (), dd2)))"

text \<open>An updater returns the new value, or \<open>None\<close> for \<open>JSON_NO_CHANGE\<close>.\<close>

definition update_json :: "host \<Rightarrow> pystr \<Rightarrow> json \<Rightarrow> (json \<Rightarrow> store_error + json option) \<Rightarrow> (data_dir, store_error, json) op" where
  "update_json H name fallback updater dd =
     (if \<not> valid_name name then (Inl (Store_error ''invalid_name''), dd)
      else case assert_business_write_allowed H name dd of
        (Inl e, dd1) \<Rightarrow> (Inl e, dd1)
      | (Inr _, dd1) \<Rightarrow> (case read_json name fallback dd1 of
          Inl e \<Rightarrow> (Inl e, dd1)
        | Inr current \<Rightarrow> (case updater current of
            Inl e \<Rightarrow> (Inl e, dd1)
          | Inr None \<Rightarrow> (Inr current, dd1)
          | Inr (Some v) \<Rightarrow> put_doc H name v dd1)))"

section \<open>The task list\<close>

definition tasks_file :: pystr where
  "tasks_file = lit ''tasks.json''"

definition as_list :: "json \<Rightarrow> json list option" where
  "as_list v = (case v of JList xs \<Rightarrow> Some xs | _ \<Rightarrow> None)"

definition load_tasks :: "data_dir \<Rightarrow> store_error + json list" where
  "load_tasks dd = sbind (read_json tasks_file (JList []) dd) (\<lambda>container. case container of
     JList xs \<Rightarrow> Inr xs
   | _ \<Rightarrow> (case as_list (dget (as_dict container) (lit ''tasks'')) of Some xs \<Rightarrow> Inr xs | None \<Rightarrow> Inl (Store_error ''not_a_task_list'')))"

text \<open>The container keeps its shape; \<open>save_tasks\<close> replaces its list, \<open>update_tasks\<close> changes it.\<close>

definition in_container :: "(json list \<Rightarrow> json list) \<Rightarrow> json \<Rightarrow> store_error + json option" where
  "in_container f existing = (case as_list (dget (as_dict existing) (lit ''tasks'')) of
     Some xs \<Rightarrow> Inr (Some (JObj (AList.update (lit ''tasks'') (JList (f xs)) (as_dict existing))))
   | None \<Rightarrow> (case existing of JList xs \<Rightarrow> Inr (Some (JList (f xs))) | _ \<Rightarrow> Inl (Store_error ''not_a_task_list'')))"

definition save_tasks :: "host \<Rightarrow> json list \<Rightarrow> (data_dir, store_error, unit) op" where
  "save_tasks H ts dd = (case update_json H tasks_file (JList []) (in_container (\<lambda>_. ts)) dd of (Inl e, dd1) \<Rightarrow> (Inl e, dd1) | (Inr _, dd1) \<Rightarrow> (Inr (), dd1))"

definition update_tasks :: "host \<Rightarrow> (json list \<Rightarrow> json list) \<Rightarrow> (data_dir, store_error, json list) op" where
  "update_tasks H f dd = (case update_json H tasks_file (JList []) (in_container f) dd of
     (Inl e, dd1) \<Rightarrow> (Inl e, dd1)
   | (Inr v, dd1) \<Rightarrow> (Inr (case v of JList xs \<Rightarrow> xs | _ \<Rightarrow> (case as_list (dget (as_dict v) (lit ''tasks'')) of Some xs \<Rightarrow> xs | None \<Rightarrow> [])), dd1))"

definition row_id :: "host \<Rightarrow> json \<Rightarrow> pystr" where
  "row_id H row = text_of (ho_render H) (dget (as_dict row) (lit ''id''))"

definition is_task :: "host \<Rightarrow> pystr \<Rightarrow> json \<Rightarrow> bool" where
  "is_task H wanted row \<longleftrightarrow> is_object row \<and> row_id H row = wanted"

fun mutate_first :: "(json \<Rightarrow> bool) \<Rightarrow> ((pystr, json) dict \<Rightarrow> (pystr, json) dict) \<Rightarrow> json list \<Rightarrow> json list" where
  "mutate_first P f [] = []"
| "mutate_first P f (row # rows) = (if P row then JObj (f (as_dict row)) # rows else row # mutate_first P f rows)"

fun reread :: "host \<Rightarrow> pystr \<Rightarrow> json list \<Rightarrow> store_error + (pystr, json) dict option" where
  "reread H wanted [] = Inr None"
| "reread H wanted (row # rows) = (if \<not> is_object row then Inl Attribute_error else if row_id H row = wanted then Inr (Some (as_dict row)) else reread H wanted rows)"

definition update_task :: "host \<Rightarrow> pystr \<Rightarrow> ((pystr, json) dict \<Rightarrow> (pystr, json) dict) \<Rightarrow> (data_dir, store_error, (pystr, json) dict option) op" where
  "update_task H task_id updater dd =
     (let wanted = strip task_id in
      if wanted = [] then (Inl (Store_error ''task_id_required''), dd)
      else case update_tasks H (mutate_first (is_task H wanted) updater) dd of
        (Inl e, dd1) \<Rightarrow> (Inl e, dd1)
      | (Inr _, dd1) \<Rightarrow>
          (case load_tasks dd of Inl e \<Rightarrow> (Inl e, dd1)
           | Inr before \<Rightarrow>
             if \<not> list_ex (is_task H wanted) before then (Inr None, dd1)
             else (sbind (load_tasks dd1) (reread H wanted), dd1)))"

section \<open>Appending tasks\<close>

definition prepared_tasks :: "json list \<Rightarrow> json list" where
  "prepared_tasks ts = filter is_object ts"

fun append_missing :: "host \<Rightarrow> json list \<Rightarrow> json list \<Rightarrow> json list" where
  "append_missing H [] current = current"
| "append_missing H (t # ts) current =
     append_missing H ts (if row_id H t \<in> set (map (row_id H) (filter is_object current)) then current else current @ [t])"

definition append_tasks_verified :: "host \<Rightarrow> json list \<Rightarrow> (data_dir, store_error, json list) op" where
  "append_tasks_verified H ts dd =
     (let rows = prepared_tasks ts; ids = map (\<lambda>t. strip (row_id H t)) rows in
      if rows = [] then (Inr [], dd)
      else if [] \<in> set ids then (Inl (Store_error ''task_id_required''), dd)
      else if \<not> distinct ids then (Inl (Store_error ''duplicate_task_ids''), dd)
      else case update_tasks H (append_missing H rows) dd of
        (Inl e, dd1) \<Rightarrow> (Inl e, dd1)
      | (Inr persisted, dd1) \<Rightarrow>
          (let verified = concat (map (\<lambda>i. case List.find (is_task H i) (rev persisted) of Some t \<Rightarrow> [t] | None \<Rightarrow> []) ids) in
           if length verified \<noteq> length ids then (Inl (Store_error ''writeback_verification_failed''), dd1) else (Inr verified, dd1)))"


section \<open>Ledgers of JSON lines\<close>

definition line_break :: "nat \<Rightarrow> bool" where
  "line_break c \<longleftrightarrow> c \<in> set [10, 11, 12, 13, 28, 29, 30, 133, 8232, 8233]"

text \<open>\<open>str.splitlines\<close>; a carriage return and a following newline are one break.\<close>

definition after_break :: "pystr \<Rightarrow> pystr" where
  "after_break s = (if take 2 s = [13, 10] then drop 2 s else drop 1 s)"

lemma length_after_break: "s \<noteq> [] \<Longrightarrow> length (after_break (dropWhile P s)) < length s"
  using length_dropWhile_le [of P s] by (cases s) (auto simp: after_break_def)

function splitlines :: "pystr \<Rightarrow> pystr list" where
  "splitlines s = (if s = [] then [] else takeWhile (\<lambda>c. \<not> line_break c) s # splitlines (after_break (dropWhile (\<lambda>c. \<not> line_break c) s)))"
  by pat_completeness auto

termination
  by (relation "measure length") (simp_all add: length_after_break)

declare splitlines.simps [simp del]

text \<open>\<open>utf-8-sig\<close>: a byte order mark at the start is dropped.\<close>

definition read_text :: "pystr \<Rightarrow> pystr" where
  "read_text s = (if take 1 s = [65279] then drop 1 s else s)"

definition ledger_lines :: "pystr \<Rightarrow> pystr list" where
  "ledger_lines s = filter (\<lambda>line. \<not> blank line) (splitlines (read_text s))"

text \<open>Python's \<open>==\<close> on JSON values: numbers by value, dictionaries without regard to order.\<close>

definition as_number :: "json \<Rightarrow> rat option" where
  "as_number v = (case v of JInt i \<Rightarrow> Some (of_int i) | JFloat x \<Rightarrow> Some x | JBool b \<Rightarrow> Some (if b then 1 else 0) | _ \<Rightarrow> None)"

function (sequential) py_eq :: "json \<Rightarrow> json \<Rightarrow> bool" where
  "py_eq (JList xs) (JList ys) = (length xs = length ys \<and> list_all (\<lambda>(x, y). py_eq x y) (zip xs ys))"
| "py_eq (JObj a) (JObj b) = (length a = length b \<and> list_all (\<lambda>(k, x). case map_of b k of None \<Rightarrow> False | Some y \<Rightarrow> py_eq x y) a)"
| "py_eq (JStr s) (JStr t) = (s = t)"
| "py_eq JNull JNull = True"
| "py_eq v w = (case (as_number v, as_number w) of (Some x, Some y) \<Rightarrow> x = y | _ \<Rightarrow> False)"
  by pat_completeness auto

termination
proof (relation "measure (\<lambda>(v, w). size v)"; clarsimp)
  fix xs ys :: "json list" and x y
  assume "(x, y) \<in> set (zip xs ys)"
  then have "x \<in> set xs" by (rule set_zip_leftD)
  then show "size x < Suc (size_list size xs)" using size_list_estimation' [of x xs "size x" size] by simp
next
  fix a :: "(pystr \<times> json) list" and k x
  assume "(k, x) \<in> set a"
  then show "size x < Suc (size_list (size_prod (\<lambda>_. 0) size) a)"
    using size_list_estimation' [of "(k, x)" a "size x" "size_prod (\<lambda>_. 0) size"] by simp
qed

definition append_jsonl_verified :: "host \<Rightarrow> pystr \<Rightarrow> (pystr, json) dict \<Rightarrow> (data_dir, store_error, bool) op" where
  "append_jsonl_verified H name row dd =
     (let serialized = json_text (ho_floats H) (JObj row) in
      if \<not> valid_name name then (Inl (Store_error ''invalid_name''), dd)
      else case assert_business_write_allowed H name dd of
        (Inl e, dd1) \<Rightarrow> (Inl e, dd1)
      | (Inr _, dd1) \<Rightarrow>
          if \<not> encodable serialized then (Inl (Store_error ''not_encodable''), append_ledger name [] dd1)
          else (let dd2 = append_ledger name (serialized @ [10]) dd1;
                    recent = rev (take 200 (rev (splitlines (read_text (ledger_of name dd2))))) in
            if list_ex (\<lambda>line. \<not> blank line \<and> (case json_loads (ho_floats H) line of None \<Rightarrow> False | Some v \<Rightarrow> py_eq v (JObj row))) recent
            then (Inr True, dd2) else (Inl (Store_error ''writeback_verification_failed''), dd2)))"

fun read_rows :: "float_io \<Rightarrow> pystr list \<Rightarrow> store_error + (pystr, json) dict list" where
  "read_rows F [] = Inr []"
| "read_rows F (line # lines) = (case json_loads F line of
     Some (JObj row) \<Rightarrow> sbind (read_rows F lines) (\<lambda>rows. Inr (row # rows))
   | _ \<Rightarrow> Inl (Store_error ''invalid_line''))"

definition ledger_rows :: "host \<Rightarrow> pystr \<Rightarrow> data_dir \<Rightarrow> store_error + (pystr, json) dict list" where
  "ledger_rows H name dd = read_rows (ho_floats H) (ledger_lines (ledger_of name dd))"

definition rows_text :: "float_io \<Rightarrow> (pystr, json) dict list \<Rightarrow> pystr" where
  "rows_text F rows = concat (map (\<lambda>row. json_text F (JObj row) @ [10]) rows)"

text \<open>An updater of rows returns the new rows, or \<open>None\<close> for \<open>JSON_NO_CHANGE\<close>.\<close>

definition update_jsonl_verified :: "host \<Rightarrow> pystr \<Rightarrow> ((pystr, json) dict list \<Rightarrow> (pystr, json) dict list option) \<Rightarrow> (data_dir, store_error, (pystr, json) dict list) op" where
  "update_jsonl_verified H name updater dd =
     (if \<not> valid_name name then (Inl (Store_error ''invalid_name''), dd)
      else case assert_business_write_allowed H name dd of
        (Inl e, dd1) \<Rightarrow> (Inl e, dd1)
      | (Inr _, dd1) \<Rightarrow> (case ledger_rows H name dd1 of
          Inl e \<Rightarrow> (Inl e, dd1)
        | Inr rows \<Rightarrow> (case updater rows of
            None \<Rightarrow> (Inr rows, dd1)
          | Some output \<Rightarrow>
              if \<not> encodable (rows_text (ho_floats H) output) then (Inl (Store_error ''not_encodable''), dd1)
              else (let dd2 = dd1\<lparr>dd_ledgers := AList.update name (rows_text (ho_floats H) output) (dd_ledgers dd1)\<rparr> in
                case ledger_rows H name dd2 of
                  Inl e \<Rightarrow> (Inl e, dd2)
                | Inr verified \<Rightarrow>
                    if \<not> py_eq (JList (map JObj verified)) (JList (map JObj output)) then (Inl (Store_error ''writeback_verification_failed''), dd2)
                    else (Inr verified, dd2)))))"

end
