(* ===== verification/StoreFacts.thy ===== *)
theory StoreFacts
  imports DataStore
begin

text \<open>
  What the data directory promises: a ledger row is read back unless its text contains a line
  separator, the write guard keeps protected files, and an update of a task touches one task.
\<close>

section \<open>Lines\<close>

definition well_ended :: "pystr \<Rightarrow> bool" where
  "well_ended t \<longleftrightarrow> t = [] \<or> last t = 10"

lemma line_break_10 [simp]: "line_break 10"
  by (simp add: line_break_def)

lemma splitlines_Nil [simp]: "splitlines [] = []"
  by (simp add: splitlines.simps)

lemma splitlines_line: "\<forall>c\<in>set l. \<not> line_break c \<Longrightarrow> l \<noteq> [] \<Longrightarrow> line_break b \<Longrightarrow> splitlines (l @ b # r) = l # splitlines (after_break (b # r))"
  by (subst splitlines.simps) (simp add: takeWhile_append dropWhile_append)

lemma splitlines_append: "well_ended t \<Longrightarrow> splitlines (t @ s) = splitlines t @ splitlines s"
proof (induction t rule: splitlines.induct)
  case (1 t)
  show ?case
  proof (cases "t = []")
    case False
    define q where "q = dropWhile (\<lambda>c. \<not> line_break c) t"
    have last: "last t = 10" using 1(2) False by (simp add: well_ended_def)
    then have mem: "10 \<in> set t" using False last_in_set by metis
    then have "q \<noteq> []" unfolding q_def dropWhile_eq_Nil_conv using line_break_10 by blast
    moreover have "takeWhile (\<lambda>c. \<not> line_break c) t @ q = t" by (simp add: q_def)
    then have "q \<noteq> [] \<Longrightarrow> last q = last t" by (metis last_appendR)
    ultimately have q: "q \<noteq> []" "last q = 10" using last by simp_all
    have ts: "dropWhile (\<lambda>c. \<not> line_break c) (t @ s) = q @ s"
      "takeWhile (\<lambda>c. \<not> line_break c) (t @ s) = takeWhile (\<lambda>c. \<not> line_break c) t"
      unfolding q_def using mem line_break_10 by (blast intro: dropWhile_append1 takeWhile_append1)+
    have a: "after_break (q @ s) = after_break q @ s" "well_ended (after_break q)"
      using q by (cases q; cases "tl q"; auto simp: after_break_def well_ended_def split: if_splits)+
    have "splitlines (t @ s) = takeWhile (\<lambda>c. \<not> line_break c) t # splitlines (after_break q @ s)"
      using False a(1) by (subst splitlines.simps) (simp add: ts)
    also have "\<dots> = splitlines t @ splitlines s"
      using "1.IH" False a(2) unfolding q_def [symmetric] by (simp add: splitlines.simps [of t] q_def)
    finally show ?thesis .
  qed simp
qed

lemma read_text_append: "well_ended t \<Longrightarrow> take 1 s \<noteq> [65279] \<Longrightarrow> read_text (t @ s) = read_text t @ s \<and> well_ended (read_text t)"
  by (cases t) (auto simp: read_text_def well_ended_def split: if_splits)

lemma json_text_object: "\<exists>s. json_text F (JObj row) = 123 # s"
  by simp

lemma object_not_blank: "\<not> blank (123 # s)"
  by (simp add: blank_def strip_eq_Nil is_space_def)

definition one_line :: "pystr \<Rightarrow> bool" where
  "one_line s \<longleftrightarrow> list_all (\<lambda>c. \<not> line_break c) s"

lemma splitlines_one: "one_line l \<Longrightarrow> l \<noteq> [] \<Longrightarrow> splitlines (l @ [10]) = [l]"
  using splitlines_line [of l 10 "[]"] by (simp add: one_line_def list_all_iff after_break_def)

lemma py_eq_refl: "printable F v \<Longrightarrow> py_eq v v"
proof (induction v)
  case (JList xs)
  then show ?case by (auto simp: list_all_iff zip_same_conv_map)
next
  case (JObj kvs)
  then have "py_eq x x" if "(k, x) \<in> set kvs" for k x using that by (force simp: list_all_iff snds.simps)
  moreover have "map_of kvs k = Some x" if "(k, x) \<in> set kvs" for k x using JObj.prems that by simp
  ultimately show ?case by (auto simp: list_all_iff)
qed (simp_all add: as_number_def)

lemma read_rows_append: "read_rows F (xs @ ys) = sbind (read_rows F xs) (\<lambda>a. sbind (read_rows F ys) (\<lambda>b. Inr (a @ b)))"
  by (induction xs) (auto simp: sbind_def split: option.splits json.splits sum.splits)


section \<open>Appending to a ledger\<close>

lemma ledger_of_append: "ledger_of n (append_ledger name s dd) = (if n = name then ledger_of name dd @ s else ledger_of n dd)"
  by (simp add: ledger_of_def append_ledger_def update_conv')

lemma append_ledger_frame [simp]: "dd_docs (append_ledger name s dd) = dd_docs dd" "dd_active (append_ledger name s dd) = dd_active dd"
  by (simp_all add: append_ledger_def)

lemma assert_cases:
  obtains (Allowed) "assert_business_write_allowed H name dd = (Inr (), dd)"
  | (Refused) s where "assert_business_write_allowed H name dd = (Inl (Store_error ''unauthorized_write''), append_ledger audit_file s dd)"
  by (cases "name \<notin> set protected_business_files \<or> \<not> guard_enabled dd \<or> covers name (dd_active dd)")
    (auto simp: assert_business_write_allowed_def append_audit_row_def)

definition row_text :: "host \<Rightarrow> (pystr, json) dict \<Rightarrow> pystr" where
  "row_text H row = json_text (ho_floats H) (JObj row)"

lemma row_text_Cons: "\<exists>s. row_text H row = 123 # s"
  by (simp add: row_text_def)

lemma row_text_start: "take 1 (row_text H row @ s) \<noteq> [65279]"
  using row_text_Cons [of H row] by auto

lemma lines_after_append:
  assumes "well_ended L" "one_line (row_text H row)"
  shows "splitlines (read_text (L @ row_text H row @ [10])) = splitlines (read_text L) @ [row_text H row]"
proof -
  have "row_text H row \<noteq> []" using row_text_Cons [of H row] by auto
  then show ?thesis
    using read_text_append [OF assms(1) row_text_start] splitlines_append [of "read_text L"] splitlines_one [OF assms(2)] by simp
qed

lemma append_succeeds:
  assumes "valid_name name" "fst (assert_business_write_allowed H name dd) = Inr ()" "printable (ho_floats H) (JObj row)"
    "encodable (row_text H row)" "one_line (row_text H row)" "well_ended (ledger_of name dd)"
  shows "append_jsonl_verified H name row dd = (Inr True, append_ledger name (row_text H row @ [10]) dd)"
proof -
  let ?t = "row_text H row"
  let ?dd = "append_ledger name (?t @ [10]) dd"
  have a: "assert_business_write_allowed H name dd = (Inr (), dd)" using assms(2) by (cases rule: assert_cases [of H name dd]) auto
  have L: "splitlines (read_text (ledger_of name ?dd)) = splitlines (read_text (ledger_of name dd)) @ [?t]"
    using lines_after_append [OF assms(6,5)] by (simp add: ledger_of_append)
  have load: "json_loads (ho_floats H) ?t = Some (JObj row)" unfolding row_text_def by (rule json_loads_text [OF assms(3)])
  have solid: "\<not> blank ?t" using row_text_Cons [of H row] object_not_blank by auto
  have "?t \<in> set (rev (take 200 (rev (splitlines (read_text (ledger_of name ?dd))))))" by (simp add: L take_Cons')
  then show ?thesis
    using assms(1,4) a load solid py_eq_refl [OF assms(3)]
    unfolding append_jsonl_verified_def Let_def row_text_def [symmetric] by (force simp: list_ex_iff)
qed

text \<open>
  A row that is appended to a ledger is read back: when the write is allowed, the row is
  printable, no character of its text separates lines and the ledger ends with a newline, then
  \<open>append_jsonl_verified\<close> reports success and the ledger holds its former rows followed by the row.
\<close>

theorem appended_row_is_read_back:
  assumes "valid_name name" "fst (assert_business_write_allowed H name dd) = Inr ()" "printable (ho_floats H) (JObj row)"
    "encodable (row_text H row)" "one_line (row_text H row)" "well_ended (ledger_of name dd)"
  shows "fst (append_jsonl_verified H name row dd) = Inr True \<and>
    ledger_rows H name (snd (append_jsonl_verified H name row dd)) = sbind (ledger_rows H name dd) (\<lambda>rows. Inr (rows @ [row]))"
proof -
  let ?t = "row_text H row"
  let ?dd = "append_ledger name (?t @ [10]) dd"
  have L: "splitlines (read_text (ledger_of name ?dd)) = splitlines (read_text (ledger_of name dd)) @ [?t]"
    using lines_after_append [OF assms(6,5)] by (simp add: ledger_of_append)
  have load: "json_loads (ho_floats H) ?t = Some (JObj row)" unfolding row_text_def by (rule json_loads_text [OF assms(3)])
  have solid: "\<not> blank ?t" using row_text_Cons [of H row] object_not_blank by auto
  have e: "append_jsonl_verified H name row dd = (Inr True, ?dd)" by (rule append_succeeds [OF assms])
  have "ledger_rows H name ?dd = sbind (ledger_rows H name dd) (\<lambda>rows. Inr (rows @ [row]))"
    by (simp add: ledger_rows_def ledger_lines_def L solid read_rows_append load)
  with e show ?thesis by simp
qed

section \<open>A line separator in a row\<close>

lemma append_grows: "\<exists>m. ledger_of n (snd (append_jsonl_verified H name row dd)) = ledger_of n dd @ m"
proof (cases "valid_name name")
  case True
  show ?thesis
  proof (cases rule: assert_cases [of H name dd])
    case Allowed
    then show ?thesis using True by (simp add: append_jsonl_verified_def Let_def ledger_of_append)
  next
    case (Refused s)
    then show ?thesis using True by (simp add: append_jsonl_verified_def Let_def ledger_of_append)
  qed
qed (simp add: append_jsonl_verified_def Let_def)

lemma appends_grow: "\<exists>m. ledger_of n (fold (\<lambda>(H, name, row) dd. snd (append_jsonl_verified H name row dd)) rs dd) = ledger_of n dd @ m"
proof (induction rs arbitrary: dd)
  case (Cons r rs)
  obtain H name row where r: "r = (H, name, row)" by (cases r) auto
  from Cons [of "snd (append_jsonl_verified H name row dd)"] append_grows [of n H name row dd] show ?case by (auto simp: r)
qed simp

lemma read_rows_bad: "l \<in> set ls \<Longrightarrow> json_loads F l = None \<Longrightarrow> \<exists>e. read_rows F ls = Inl e"
  by (induction ls) (auto simp: sbind_def split: option.splits json.splits sum.splits)

lemma broken_row_unreadable:
  assumes "well_ended L" "printable (ho_floats H) (JObj row)" "\<not> one_line (row_text H row)"
  shows "\<exists>e. read_rows (ho_floats H) (ledger_lines (L @ row_text H row @ m)) = Inl e"
proof -
  let ?t = "row_text H row"
  define a where "a = takeWhile (\<lambda>c. \<not> line_break c) ?t"
  obtain b c where bc: "dropWhile (\<lambda>c. \<not> line_break c) ?t = b # c"
    using assms(3) by (cases "dropWhile (\<lambda>c. \<not> line_break c) ?t") (auto simp: one_line_def list_all_iff dropWhile_eq_Nil_conv)
  have t: "?t = a @ b # c" unfolding a_def bc [symmetric] by simp
  have b: "line_break b" using hd_dropWhile [of "\<lambda>c. \<not> line_break c" ?t] bc by simp
  obtain s where s: "?t = 123 # s" using row_text_Cons [of H row] by blast
  then obtain a' where a': "a = 123 # a'" using a_def by (simp add: line_break_def)
  have nb: "\<forall>c\<in>set a. \<not> line_break c" unfolding a_def by (auto dest: set_takeWhileD)
  have "splitlines (read_text (L @ ?t @ m)) = splitlines (read_text L) @ a # splitlines (after_break (b # c @ m))"
    using read_text_append [OF assms(1) row_text_start [of H row m]] splitlines_append [of "read_text L" "?t @ m"]
      splitlines_line [OF nb _ b, of "c @ m"] a' by (simp add: t)
  then have "a \<in> set (ledger_lines (L @ ?t @ m))" using object_not_blank a' by (simp add: ledger_lines_def)
  moreover have "json_loads (ho_floats H) a = None"
    using cut_object_unreadable [OF assms(2), of a "b # c"] t by (simp add: row_text_def)
  ultimately show ?thesis by (rule read_rows_bad)
qed

text \<open>
  A row whose text contains a line separator other than the newline, as a message with U+2028,
  U+2029 or U+0085 does, makes its ledger unusable. The row is written, and from then on, whatever is
  appended, every \<open>update_jsonl_verified\<close> of this ledger fails.
\<close>

theorem separator_in_row_breaks_ledger:
  assumes "valid_name name" "fst (assert_business_write_allowed H name dd) = Inr ()" "printable (ho_floats H) (JObj row)"
    "encodable (row_text H row)" "\<not> one_line (row_text H row)" "well_ended (ledger_of name dd)" "ho_floats H' = ho_floats H"
    "dd' = fold (\<lambda>(H, name, row) dd. snd (append_jsonl_verified H name row dd)) rs (snd (append_jsonl_verified H name row dd))"
  shows "\<exists>e. fst (update_jsonl_verified H' name updater dd') = Inl e"
proof -
  have a: "assert_business_write_allowed H name dd = (Inr (), dd)" using assms(2) by (cases rule: assert_cases [of H name dd]) auto
  have w: "ledger_of name (snd (append_jsonl_verified H name row dd)) = ledger_of name dd @ row_text H row @ [10]"
  proof -
    have "snd (append_jsonl_verified H name row dd) = append_ledger name (row_text H row @ [10]) dd"
      using assms(1,4) unfolding append_jsonl_verified_def Let_def row_text_def [symmetric] a prod.case sum.case by simp
    then show ?thesis by (simp add: ledger_of_append)
  qed
  obtain m where "ledger_of name dd' = ledger_of name (snd (append_jsonl_verified H name row dd)) @ m"
    using appends_grow unfolding assms(8) by blast
  then have m: "ledger_of name dd' = ledger_of name dd @ row_text H row @ ([10] @ m)" by (simp only: w append_assoc)
  have "\<exists>e. ledger_rows H' name dd' = Inl e"
    unfolding ledger_rows_def m assms(7) by (rule broken_row_unreadable [OF assms(6,3,5)])
  then show ?thesis using assms(1) by (cases rule: assert_cases [of H' name dd']) (auto simp: update_jsonl_verified_def)
qed


section \<open>What an operation touches\<close>

definition touches :: "host \<Rightarrow> pystr \<Rightarrow> data_dir \<Rightarrow> data_dir \<Rightarrow> bool" where
  "touches H name dd dd' \<longleftrightarrow> dd_active dd' = dd_active dd \<and>
     (\<forall>k. k \<noteq> name \<or> fst (assert_business_write_allowed H name dd) \<noteq> Inr () \<longrightarrow>
       map_of (dd_docs dd') k = map_of (dd_docs dd) k \<and> (k \<noteq> audit_file \<longrightarrow> ledger_of k dd' = ledger_of k dd))"

lemma touches_refl [simp]: "touches H name dd dd"
  by (simp add: touches_def)

lemma touches_doc: "fst (assert_business_write_allowed H name dd) = Inr () \<Longrightarrow> touches H name dd (dd\<lparr>dd_docs := AList.update name v (dd_docs dd)\<rparr>)"
  by (auto simp: touches_def update_conv' ledger_of_def)

lemma touches_audit: "touches H name dd (append_ledger audit_file s dd)"
  by (simp add: touches_def ledger_of_append)

lemma touches_ledger: "fst (assert_business_write_allowed H name dd) = Inr () \<Longrightarrow> touches H name dd (dd\<lparr>dd_ledgers := AList.update name s (dd_ledgers dd)\<rparr>)"
  by (simp add: touches_def ledger_of_def update_conv')

lemma guarded_op:
  assumes "op = (if \<not> valid_name name then (Inl e0, dd) else case assert_business_write_allowed H name dd of (Inl e, dd1) \<Rightarrow> (Inl e, dd1) | (Inr _, dd1) \<Rightarrow> body dd1)"
    "fst (assert_business_write_allowed H name dd) = Inr () \<Longrightarrow> touches H name dd (snd (body dd))"
  shows "touches H name dd (snd op)"
  by (cases rule: assert_cases [of H name dd]) (use assms in \<open>auto simp: touches_audit\<close>)

lemma put_doc_touches: "fst (assert_business_write_allowed H name dd) = Inr () \<Longrightarrow> touches H name dd (snd (put_doc H name v dd))"
  by (simp add: put_doc_def touches_doc)

lemma write_json_touches: "touches H name dd (snd (write_json H name v dd))"
  by (rule guarded_op [OF write_json_def]) (auto dest: put_doc_touches [of H name dd v] split: prod.split sum.split)

lemma update_json_touches: "touches H name dd (snd (update_json H name fallback f dd))"
  by (rule guarded_op [OF update_json_def]) (auto simp: put_doc_touches split: sum.split option.split)

lemma append_row_touches: "touches H name dd (snd (append_jsonl_verified H name row dd))"
  by (rule guarded_op [OF append_jsonl_verified_def [unfolded Let_def]]) (simp add: touches_ledger append_ledger_def)

lemma update_rows_touches: "touches H name dd (snd (update_jsonl_verified H name f dd))"
  by (rule guarded_op [OF update_jsonl_verified_def]) (auto simp: touches_ledger Let_def split: sum.split option.split)

lemma update_tasks_touches: "touches H tasks_file dd (snd (update_tasks H f dd))"
  using update_json_touches [of H tasks_file dd "JList []" "in_container f"] by (auto simp: update_tasks_def split: prod.split sum.split)

lemma save_tasks_touches: "touches H tasks_file dd (snd (save_tasks H ts dd))"
  using update_json_touches [of H tasks_file dd "JList []" "in_container (\<lambda>_. ts)"] by (auto simp: save_tasks_def split: prod.split sum.split)

lemma update_task_touches: "touches H tasks_file dd (snd (update_task H tid f dd))"
  using update_tasks_touches [of H dd "mutate_first (is_task H (strip tid)) f"]
  by (auto simp: update_task_def Let_def split: prod.split sum.split)

lemma append_tasks_touches: "touches H tasks_file dd (snd (append_tasks_verified H ts dd))"
  using update_tasks_touches [of H dd "append_missing H (prepared_tasks ts)"]
  by (auto simp: append_tasks_verified_def Let_def split: prod.split sum.split)

section \<open>Runs of commands under the guard\<close>

datatype store_cmd =
    Write host pystr json
  | Update host pystr json "json \<Rightarrow> store_error + json option"
  | Save_all host "json list"
  | Change_tasks host "json list \<Rightarrow> json list"
  | Change_task host pystr "(pystr, json) dict \<Rightarrow> (pystr, json) dict"
  | Append_tasks host "json list"
  | Append_row host pystr "(pystr, json) dict"
  | Update_rows host pystr "(pystr, json) dict list \<Rightarrow> (pystr, json) dict list option"
  | Authorized write_authorization "store_cmd list"
  | System_job host pystr "pystr list" "store_cmd list"

fun store_step :: "store_cmd \<Rightarrow> data_dir \<Rightarrow> data_dir" and store_run :: "store_cmd list \<Rightarrow> data_dir \<Rightarrow> data_dir" where
  "store_step (Write H name v) dd = snd (write_json H name v dd)"
| "store_step (Update H name fallback f) dd = snd (update_json H name fallback f dd)"
| "store_step (Save_all H ts) dd = snd (save_tasks H ts dd)"
| "store_step (Change_tasks H f) dd = snd (update_tasks H f dd)"
| "store_step (Change_task H tid f) dd = snd (update_task H tid f dd)"
| "store_step (Append_tasks H ts) dd = snd (append_tasks_verified H ts dd)"
| "store_step (Append_row H name row) dd = snd (append_jsonl_verified H name row dd)"
| "store_step (Update_rows H name f) dd = snd (update_jsonl_verified H name f dd)"
| "store_step (Authorized a cs) dd = snd (authorized_business_write a (\<lambda>d. (Inr () :: store_error + unit, store_run cs d)) dd)"
| "store_step (System_job H job_name files cs) dd = snd (authorized_system_write H job_name files (\<lambda>d. (Inr () :: store_error + unit, store_run cs d)) dd)"
| "store_run [] dd = dd"
| "store_run (c # cs) dd = store_run cs (store_step c dd)"


text \<open>The documents and ledgers that a command names, and the authorizations that it opens.\<close>

fun names_of :: "store_cmd \<Rightarrow> pystr list" where
  "names_of (Write H name v) = [name]"
| "names_of (Update H name fallback f) = [name]"
| "names_of (Append_row H name row) = [name]"
| "names_of (Update_rows H name f) = [name]"
| "names_of (Authorized a cs) = concat (map names_of cs)"
| "names_of (System_job H job_name files cs) = concat (map names_of cs)"
| "names_of _ = [tasks_file]"

fun grants :: "pystr \<Rightarrow> store_cmd \<Rightarrow> bool" where
  "grants n (Authorized a cs) \<longleftrightarrow> covers n (Some a) \<or> list_ex (grants n) cs"
| "grants n (System_job H job_name files cs) \<longleftrightarrow> files = [] \<or> n \<in> set files \<or> list_ex (grants n) cs"
| "grants n _ \<longleftrightarrow> False"

definition keeps_file :: "pystr \<Rightarrow> data_dir \<Rightarrow> data_dir \<Rightarrow> bool" where
  "keeps_file n dd dd' \<longleftrightarrow> dd_active dd' = dd_active dd \<and> map_of (dd_docs dd') n = map_of (dd_docs dd) n \<and> ledger_of n dd' = ledger_of n dd \<and>
     map_of (dd_docs dd') guard_file = map_of (dd_docs dd) guard_file"

lemma keeps_file_refl: "keeps_file n dd dd"
  by (simp add: keeps_file_def)

lemma keeps_file_trans: "keeps_file n dd dd1 \<Longrightarrow> keeps_file n dd1 dd2 \<Longrightarrow> keeps_file n dd dd2"
  by (simp add: keeps_file_def)

definition guarded :: "pystr \<Rightarrow> data_dir \<Rightarrow> bool" where
  "guarded n dd \<longleftrightarrow> n \<in> set protected_business_files \<and> guard_enabled dd \<and> \<not> covers n (dd_active dd)"

lemma guard_enabled_cong: "map_of (dd_docs dd') guard_file = map_of (dd_docs dd) guard_file \<Longrightarrow> guard_enabled dd' = guard_enabled dd"
  by (simp add: guard_enabled_def guard_config_def)

lemma guarded_keeps: "guarded n dd \<Longrightarrow> keeps_file n dd dd' \<Longrightarrow> guarded n dd'"
  using guard_enabled_cong [of dd' dd] by (simp add: guarded_def keeps_file_def)

lemma lit_in_map: "lit x \<in> set (map lit xs) \<longleftrightarrow> x \<in> set xs"
  by (induction xs) auto

lemma audit_unprotected: "audit_file \<notin> set protected_business_files" "guard_file \<notin> set protected_business_files"
  unfolding audit_file_def guard_file_def protected_business_files_def lit_in_map by simp_all

lemma guarded_touches:
  assumes "guarded n dd" "touches H name dd dd'" "name \<noteq> guard_file"
  shows "keeps_file n dd dd'"
proof -
  have "n \<noteq> audit_file" using assms(1) audit_unprotected by (auto simp: guarded_def)
  moreover have "n \<noteq> name \<or> fst (assert_business_write_allowed H name dd) \<noteq> Inr ()"
    using assms(1) by (auto simp: guarded_def assert_business_write_allowed_def)
  ultimately show ?thesis using assms(2,3) by (auto simp: touches_def keeps_file_def)
qed

lemma covers_sort: "covers n (Some (a\<lparr>wa_allowed_files := sort (wa_allowed_files a)\<rparr>)) = covers n (Some a)"
  by (simp add: covers_def) (metis set_empty set_sort)

lemma authorized_keeps:
  assumes "guarded n dd" "\<not> covers n (Some a)" "\<And>d. guarded n d \<Longrightarrow> keeps_file n d (f d)"
  shows "keeps_file n dd (snd (authorized_business_write a (\<lambda>d. (Inr () :: store_error + unit, f d)) dd))"
proof -
  let ?d = "dd\<lparr>dd_active := Some (a\<lparr>wa_allowed_files := sort (wa_allowed_files a)\<rparr>)\<rparr>"
  have "guarded n ?d" using assms(1,2) by (simp add: guarded_def covers_sort guard_enabled_def guard_config_def)
  from assms(3) [OF this] show ?thesis by (simp add: keeps_file_def authorized_business_write_def ledger_of_def)
qed

lemma run_guarded:
  "guarded n dd \<Longrightarrow> guard_file \<notin> set (names_of c) \<Longrightarrow> \<not> grants n c \<Longrightarrow> keeps_file n dd (store_step c dd)"
  "guarded n dd \<Longrightarrow> \<forall>c\<in>set cs. guard_file \<notin> set (names_of c) \<and> \<not> grants n c \<Longrightarrow> keeps_file n dd (store_run cs dd)"
proof (induction c dd and cs dd rule: store_step_store_run.induct)
  case (9 a cs dd)
  then show ?case by (auto intro!: authorized_keeps simp: list_ex_iff)
next
  case (10 H job_name files cs dd)
  obtain a dd1 where p: "prepare_system_write H job_name files dd = (a, dd1)" by fastforce
  then have a: "wa_allowed_files a = files" and dd1: "keeps_file n dd dd1"
    using 10 audit_unprotected by (auto simp: prepare_system_write_def Let_def keeps_file_def append_audit_row_def ledger_of_append guarded_def)
  have "keeps_file n dd1 (snd (authorized_business_write a (\<lambda>d. (Inr () :: store_error + unit, store_run cs d)) dd1))"
    using 10 guarded_keeps [OF _ dd1] a by (intro authorized_keeps) (auto simp: covers_def list_ex_iff)
  then show ?case using keeps_file_trans [OF dd1] by (simp add: authorized_system_write_def p)
next
  case (12 c cs dd)
  then show ?case using guarded_keeps keeps_file_trans by (metis list.set_intros store_run.simps(2))
qed (auto simp: keeps_file_refl tasks_file_def guard_file_def
    intro: guarded_touches write_json_touches update_json_touches append_row_touches update_rows_touches
      update_tasks_touches save_tasks_touches update_task_touches append_tasks_touches)


text \<open>
  C33: While the write guard is on, a protected file changes only under an authorization that covers
  it. After any run of store operations, scheduler jobs and authorized blocks, nested to any depth,
  none of which opens an authorization for the file or names the guard's own configuration, the
  document and the ledger of that name are what they were.
\<close>

theorem protected_file_needs_authorization:
  assumes "n \<in> set protected_business_files" "guard_enabled dd" "\<not> covers n (dd_active dd)"
    "\<forall>c\<in>set cs. guard_file \<notin> set (names_of c) \<and> \<not> grants n c"
  shows "map_of (dd_docs (store_run cs dd)) n = map_of (dd_docs dd) n \<and> ledger_of n (store_run cs dd) = ledger_of n dd"
proof -
  have "guarded n dd" using assms(1-3) by (simp add: guarded_def)
  from run_guarded(2) [OF this assms(4)] show ?thesis by (simp add: keeps_file_def)
qed

section \<open>One task\<close>

lemma mutate_first_split:
  assumes "list_ex P rows"
  shows "\<exists>pre t post. rows = pre @ t # post \<and> (\<forall>x\<in>set pre. \<not> P x) \<and> P t \<and> mutate_first P f rows = pre @ JObj (f (as_dict t)) # post"
  using assms
proof (induction rows)
  case (Cons r rows)
  show ?case
  proof (cases "P r")
    case True
    then show ?thesis by (intro exI [of _ "[]"]) simp
  next
    case False
    then obtain pre t post where "rows = pre @ t # post \<and> (\<forall>x\<in>set pre. \<not> P x) \<and> P t \<and> mutate_first P f rows = pre @ JObj (f (as_dict t)) # post"
      using Cons by auto
    then show ?thesis using False by (rule_tac x = "r # pre" in exI, rule_tac x = t in exI, rule_tac x = post in exI) simp
  qed
qed simp

lemma tasks_file_valid [simp]: "valid_name tasks_file"
  by (simp add: valid_name_def tasks_file_def lit_def)

lemma put_doc_ok: "put_doc H name v dd = (Inr w, dd') \<Longrightarrow> w = v \<and> dd' = dd\<lparr>dd_docs := AList.update name (Some v) (dd_docs dd)\<rparr>"
  by (auto simp: put_doc_def split: if_splits)

lemma update_tasks_ok:
  assumes "update_tasks H f dd = (Inr xs, dd')" "load_tasks dd = Inr ts"
  shows "load_tasks dd' = Inr (f ts)"
proof -
  obtain c where c: "read_json tasks_file (JList []) dd = Inr c"
    using assms(2) by (auto simp: load_tasks_def sbind_def split: sum.splits)
  obtain v where v: "in_container f c = Inr (Some v)" and p: "put_doc H tasks_file v dd = (Inr v, dd')"
    using assms(1) c by (cases rule: assert_cases [of H tasks_file dd])
      (auto simp: update_tasks_def update_json_def in_container_def dest: put_doc_ok split: prod.splits sum.splits option.splits json.splits)
  have r: "read_json tasks_file (JList []) dd' = Inr v" using put_doc_ok [OF p] by (simp add: read_json_def update_conv')
  show ?thesis
  proof (cases "as_list (dget (as_dict c) (lit ''tasks''))")
    case None
    then show ?thesis using v c assms(2) r by (auto simp: in_container_def load_tasks_def split: json.splits)
  next
    case (Some ys)
    then have "c = JObj (as_dict c)" by (cases c) (auto simp: as_list_def dget_def split: json.splits)
    then have "ts = ys" using c assms(2) Some by (cases c) (auto simp: load_tasks_def)
    then show ?thesis using v r Some by (auto simp: in_container_def load_tasks_def dget_def update_conv' as_list_def)
  qed
qed

lemma reread_found: "\<forall>x\<in>set pre. \<not> is_task H w x \<Longrightarrow> reread H w (pre @ JObj t # post) = Inr r \<Longrightarrow> row_id H (JObj t) = w \<Longrightarrow> r = Some t"
  by (induction pre) (auto simp: is_object_def is_task_def split: if_splits)

lemma update_task_shape:
  assumes "update_task H tid f dd = (Inr r, dd')" "load_tasks dd = Inr ts" "list_ex (is_task H (strip tid)) ts"
    "\<forall>t. row_id H (JObj (f t)) = row_id H (JObj t)"
  shows "\<exists>pre t post. ts = pre @ JObj t # post \<and> (\<forall>x\<in>set pre. \<not> is_task H (strip tid) x) \<and> row_id H (JObj t) = strip tid \<and>
    r = Some (f t) \<and> load_tasks dd' = Inr (pre @ JObj (f t) # post)"
proof -
  let ?P = "is_task H (strip tid)"
  have ne: "strip tid \<noteq> []" using assms(1) by (auto simp: update_task_def Let_def)
  obtain xs where u: "update_tasks H (mutate_first ?P f) dd = (Inr xs, dd')" and rr: "sbind (load_tasks dd') (reread H (strip tid)) = Inr r"
    using assms(1-3) ne by (auto simp: update_task_def Let_def split: prod.splits sum.splits if_splits)
  obtain pre v post where s: "ts = pre @ v # post" "\<forall>x\<in>set pre. \<not> ?P x" "?P v" "mutate_first ?P f ts = pre @ JObj (f (as_dict v)) # post"
    using mutate_first_split [OF assms(3), of f] by blast
  then have v: "v = JObj (as_dict v)" by (cases v) (auto simp: is_task_def is_object_def)
  have l: "load_tasks dd' = Inr (pre @ JObj (f (as_dict v)) # post)" using update_tasks_ok [OF u assms(2)] s(4) by simp
  have id: "row_id H (JObj (as_dict v)) = strip tid" using s(3) v by (simp add: is_task_def)
  have "reread H (strip tid) (pre @ JObj (f (as_dict v)) # post) = Inr r" using rr l by simp
  then have "r = Some (f (as_dict v))" using reread_found [OF s(2)] assms(4) id by simp
  then show ?thesis using s v l id by metis
qed

lemma find_task: "\<forall>x\<in>set pre. \<not> P x \<Longrightarrow> P v \<Longrightarrow> List.find P (pre @ v # post) = Some v"
  by (induction pre) auto

lemma find_update_task:
  assumes "update_task H w f dd = (Inr r, dd')" "load_tasks dd = Inr ts" "List.find (is_task H w) ts = Some (JObj c)" "strip w = w"
    "\<forall>t. row_id H (JObj (f t)) = row_id H (JObj t)"
  shows "r = Some (f c) \<and> (\<exists>ts'. load_tasks dd' = Inr ts' \<and> List.find (is_task H w) ts' = Some (JObj (f c)))"
proof -
  have "list_ex (is_task H (strip w)) ts" using find_SomeD [OF assms(3)] assms(4) by (auto simp: list_ex_iff)
  from update_task_shape [OF assms(1,2) this assms(5)] obtain pre t post where
    s: "ts = pre @ JObj t # post" "\<forall>x\<in>set pre. \<not> is_task H w x" "row_id H (JObj t) = w" "r = Some (f t)" "load_tasks dd' = Inr (pre @ JObj (f t) # post)"
    unfolding assms(4) by blast
  have "is_task H w (JObj t)" "is_task H w (JObj (f t))" using s(3) assms(5) by (simp_all add: is_task_def is_object_def)
  then have "c = t" "List.find (is_task H w) (pre @ JObj (f t) # post) = Some (JObj (f t))"
    using assms(3) s(1) find_task [OF s(2)] by simp_all
  with s show ?thesis by simp
qed

text \<open>
  A successful update of a task changes the first task with that id and nothing else of the list:
  every other entry keeps its content and its place, and the task that is returned is the one that
  was stored. The updater keeps the id.
\<close>

theorem update_task_changes_one_task:
  assumes "update_task H tid f dd = (Inr (Some row), dd')" "load_tasks dd = Inr ts" "\<forall>t. row_id H (JObj (f t)) = row_id H (JObj t)"
  shows "\<exists>pre t post. ts = pre @ JObj t # post \<and> (\<forall>x\<in>set pre. \<not> is_task H (strip tid) x) \<and> row_id H (JObj t) = strip tid \<and>
    row = f t \<and> load_tasks dd' = Inr (pre @ JObj (f t) # post)"
proof -
  have "list_ex (is_task H (strip tid)) ts"
    using assms(1,2) by (auto simp: update_task_def Let_def split: prod.splits sum.splits if_splits)
  from update_task_shape [OF assms(1,2) this assms(3)] show ?thesis by simp
qed

section \<open>Texts that can be encoded\<close>

lemma encodable_simps [simp]: "encodable []" "encodable (c # s) \<longleftrightarrow> (c < 55296 \<or> 57343 < c) \<and> encodable s" "encodable (s @ t) \<longleftrightarrow> encodable s \<and> encodable t"
  by (simp_all add: encodable_def)

lemma encodable_lit [simp]: "encodable (lit x)"
proof -
  have "(of_char c :: nat) < 55296" for c by (rule less_trans [OF nat_of_char_less_256]) simp
  then show ?thesis by (simp add: lit_def encodable_def list_all_iff)
qed

lemma encodable_commas [simp]: "encodable (commas xs) \<longleftrightarrow> list_all encodable xs"
  by (induction xs rule: commas.induct) simp_all

lemma encodable_json_string [simp]: "encodable (json_string s) \<longleftrightarrow> encodable s"
proof -
  have hex: "hex_digit n < 55296 \<or> 57343 < hex_digit n" if "n < 16" for n using that by (auto simp: hex_digit_def)
  have "encodable (json_escape c) \<longleftrightarrow> c < 55296 \<or> 57343 < c" for c by (auto simp: json_escape_def hex)
  then have "encodable (concat (map json_escape s)) \<longleftrightarrow> encodable s" by (induction s) simp_all
  then show ?thesis by (simp add: json_string_def)
qed

section \<open>Guarded updates\<close>

lemma read_json_active [simp]: "read_json n f (dd\<lparr>dd_active := a\<rparr>) = read_json n f dd"
  by (simp add: read_json_def)

lemma update_json_cases:
  assumes "update_json H n f upd dd = (r, dd')"
  obtains (failed) e where "r = Inl e" "dd_docs dd' = dd_docs dd" "dd_active dd' = dd_active dd"
    | (kept) c where "r = Inr c" "read_json n f dd = Inr c" "upd c = Inr None" "dd_docs dd' = dd_docs dd" "dd_active dd' = dd_active dd"
    | (written) c v where "r = Inr v" "read_json n f dd = Inr c" "upd c = Inr (Some v)"
        "dd_docs dd' = AList.update n (Some v) (dd_docs dd)" "dd_active dd' = dd_active dd"
proof (cases rule: assert_cases [of H n dd])
  case Allowed
  show thesis
  proof (cases "read_json n f dd")
    case (Inl e)
    then have "(\<exists>e. r = Inl e) \<and> dd_docs dd' = dd_docs dd \<and> dd_active dd' = dd_active dd"
      using assms [symmetric] Allowed Inl by (cases "valid_name n") (simp_all add: update_json_def)
    then show ?thesis using that(1) by blast
  next
    case (Inr c)
    let ?bad = "(\<exists>e. r = Inl e) \<and> dd_docs dd' = dd_docs dd \<and> dd_active dd' = dd_active dd"
    let ?kept = "r = Inr c \<and> upd c = Inr None \<and> dd_docs dd' = dd_docs dd \<and> dd_active dd' = dd_active dd"
    let ?put = "\<exists>v. r = Inr v \<and> upd c = Inr (Some v) \<and> dd_docs dd' = AList.update n (Some v) (dd_docs dd) \<and> dd_active dd' = dd_active dd"
    have "?bad \<or> ?kept \<or> ?put"
    proof (cases "valid_name n")
      case False
      then show ?thesis using assms by (simp add: update_json_def) blast
    next
      case True
      then have "(case upd c of Inl e \<Rightarrow> (Inl e, dd) | Inr None \<Rightarrow> (Inr c, dd) | Inr (Some v) \<Rightarrow> put_doc H n v dd) = (r, dd')"
        using assms Allowed Inr by (simp add: update_json_def)
      then show ?thesis
        by (cases "upd c"; cases "projr (upd c)") (auto simp: put_doc_def split: if_splits)
    qed
    then show ?thesis using that Inr by blast
  qed
next
  case (Refused s)
  then show thesis using assms that(1) by (auto simp: update_json_def split: if_splits)
qed

lemma authorized_update_cases:
  assumes "authorized_business_write a (update_json H n f upd) dd = (r, dd')"
  obtains (failed) e where "r = Inl e" "dd_docs dd' = dd_docs dd" "dd_active dd' = dd_active dd"
    | (kept) c where "r = Inr c" "read_json n f dd = Inr c" "upd c = Inr None" "dd_docs dd' = dd_docs dd" "dd_active dd' = dd_active dd"
    | (written) c v where "r = Inr v" "read_json n f dd = Inr c" "upd c = Inr (Some v)"
        "dd_docs dd' = AList.update n (Some v) (dd_docs dd)" "dd_active dd' = dd_active dd"
proof -
  let ?d = "dd\<lparr>dd_active := Some (a\<lparr>wa_allowed_files := sort (wa_allowed_files a)\<rparr>)\<rparr>"
  obtain r' d where u: "update_json H n f upd ?d = (r', d)" by fastforce
  then have e: "r = r'" "dd' = d\<lparr>dd_active := dd_active dd\<rparr>"
    using assms by (simp_all add: authorized_business_write_def)
  show thesis
    using u by (cases rule: update_json_cases) (use e that in auto)
qed

section \<open>Sample runs\<close>

definition sample_host :: host where
  "sample_host = \<lparr>ho_floats = \<lparr>fl_repr = (\<lambda>_. []), fl_read = (\<lambda>_. None)\<rparr>, ho_render = (\<lambda>_. []), ho_tenant = [116], ho_uuid = [117], ho_now = [110],
     ho_stamp = [115], ho_caller = []\<rparr>"

definition sample_task :: "pystr \<Rightarrow> (pystr, json) dict" where
  "sample_task status = [(lit ''id'', JStr [49]), (lit ''status'', JStr status)]"

definition other_task :: json where
  "other_task = JObj [(lit ''id'', JStr [48])]"

definition sample_dir :: "bool \<Rightarrow> data_dir" where
  "sample_dir guard = \<lparr>dd_docs = [(guard_file, Some (JObj [(lit ''enabled'', JBool guard)])), (tasks_file, Some (JList [other_task, JObj (sample_task [111])]))],
     dd_ledgers = [], dd_active = None\<rparr>"

lemma sample_guard: "guard_enabled (sample_dir b) = b"
  by (simp add: guard_enabled_def guard_config_def sample_dir_def dget_def)

lemma sample_ledger: "ledger_of n (sample_dir b) = []"
  by (simp add: ledger_of_def sample_dir_def)

lemma sample_allowed: "assert_business_write_allowed H n (sample_dir False) = (Inr (), sample_dir False)"
  by (simp add: assert_business_write_allowed_def sample_guard)

lemma appended_row_is_read_back_witness:
  "ledger_rows sample_host [120] (snd (append_jsonl_verified sample_host [120] [([97], JStr [10, 34])] (sample_dir False))) = Inr [[([97], JStr [10, 34])]]"
proof -
  have "ledger_rows sample_host [120] (sample_dir False) = Inr []"
    by (simp add: ledger_rows_def ledger_lines_def sample_ledger read_text_def)
  then show ?thesis
    using appended_row_is_read_back [of "[120]" sample_host "sample_dir False" "[([97], JStr [10, 34])]"]
    by (simp add: valid_name_def sample_allowed row_text_def json_string_def json_escape_def encodable_def one_line_def line_break_def
        well_ended_def sample_ledger sbind_def lit_def)
qed

lemma separator_in_row_breaks_ledger_witness:
  "\<exists>e. fst (update_jsonl_verified sample_host [120] Some (snd (append_jsonl_verified sample_host [120] [([97], JStr [8232])] (sample_dir False)))) = Inl e"
  by (rule separator_in_row_breaks_ledger [where rs = "[]" and dd = "sample_dir False" and row = "[([97], JStr [8232])]"])
    (simp_all add: valid_name_def sample_allowed row_text_def json_string_def json_escape_def encodable_def one_line_def line_break_def
        well_ended_def sample_ledger lit_def)

lemma tasks_file_protected: "tasks_file \<in> set protected_business_files"
  unfolding tasks_file_def protected_business_files_def lit_in_map by simp

lemma protected_file_needs_authorization_witness:
  "map_of (dd_docs (store_run [Write sample_host tasks_file JNull, System_job sample_host [106] [[120]] [Append_tasks sample_host [JObj (sample_task [])]]]
     (sample_dir True))) tasks_file = Some (Some (JList [other_task, JObj (sample_task [111])]))"
proof -
  have ne: "guard_file \<noteq> tasks_file" "tasks_file \<noteq> [120]" by (simp_all add: guard_file_def tasks_file_def) (simp add: lit_def)
  then have d: "map_of (dd_docs (sample_dir True)) tasks_file = Some (Some (JList [other_task, JObj (sample_task [111])]))" by (simp add: sample_dir_def)
  have "map_of (dd_docs (store_run [Write sample_host tasks_file JNull, System_job sample_host [106] [[120]] [Append_tasks sample_host [JObj (sample_task [])]]]
     (sample_dir True))) tasks_file = map_of (dd_docs (sample_dir True)) tasks_file"
    by (rule conjunct1 [OF protected_file_needs_authorization])
      (use ne in \<open>simp_all add: tasks_file_protected sample_guard\<close>, simp add: sample_dir_def covers_def)
  with d show ?thesis by simp
qed

lemma sample_load: "load_tasks (sample_dir b) = Inr [other_task, JObj (sample_task [111])]"
  by (simp add: load_tasks_def read_json_def sample_dir_def guard_file_def tasks_file_def) (simp add: lit_def valid_name_def)

definition sample_dir2 :: data_dir where
  "sample_dir2 = (sample_dir False)\<lparr>dd_docs := AList.update tasks_file (Some (JList [other_task, JObj (sample_task [100])])) (dd_docs (sample_dir False))\<rparr>"

lemma sample_row_id: "row_id sample_host (JObj (sample_task s)) = [49]"
  by (simp add: row_id_def sample_task_def dget_def text_of_def por_def)

lemma other_id: "row_id sample_host other_task = [48]"
  by (simp add: row_id_def other_task_def dget_def text_of_def por_def)

lemma task_strip: "strip [49] = [49]"
  by (simp add: strip_def is_space_def)

lemma sample_update: "AList.update (lit ''status'') (JStr s) (sample_task u) = sample_task s"
  by (simp add: sample_task_def)

lemma sample_update_task: "\<exists>dd'. update_task sample_host [49] (AList.update (lit ''status'') (JStr [100])) (sample_dir False) = (Inr (Some (sample_task [100])), dd')"
proof -
  let ?f = "mutate_first (is_task sample_host [49]) (AList.update (lit ''status'') (JStr [100]))"
  have f: "?f [other_task, JObj (sample_task [111])] = [other_task, JObj (sample_task [100])]"
    by (simp add: is_task_def is_object_def sample_row_id sample_update other_id)
  have r: "read_json tasks_file (JList []) (sample_dir False) = Inr (JList [other_task, JObj (sample_task [111])])"
    by (simp add: read_json_def sample_dir_def) (simp add: guard_file_def tasks_file_def)
  have enc: "encodable (json_text (ho_floats sample_host) (JList [other_task, JObj (sample_task [100])]))"
    by (simp add: sample_task_def other_task_def lit_def json_string_def json_escape_def encodable_def)
  have u: "update_tasks sample_host ?f (sample_dir False) = (Inr [other_task, JObj (sample_task [100])], sample_dir2)"
    using enc by (simp add: update_tasks_def update_json_def sample_allowed r in_container_def as_list_def dget_def f put_doc_def sample_dir2_def
        del: mutate_first.simps json_text.simps)
  have "load_tasks sample_dir2 = Inr [other_task, JObj (sample_task [100])]"
    by (simp add: load_tasks_def read_json_def sample_dir2_def update_conv')
  moreover have "reread sample_host [49] [other_task, JObj (sample_task [100])] = Inr (Some (sample_task [100]))"
    using other_id by (simp add: is_object_def sample_row_id) (simp add: other_task_def)
  ultimately show ?thesis
    by (simp add: update_task_def task_strip u sample_load is_task_def is_object_def sample_row_id)
qed

lemma update_task_changes_one_task_witness:
  "\<exists>pre t post. [other_task, JObj (sample_task [111])] = pre @ JObj t # post \<and> load_tasks (snd (update_task sample_host [49] (AList.update (lit ''status'') (JStr [100])) (sample_dir False))) =
     Inr (pre @ JObj (AList.update (lit ''status'') (JStr [100]) t) # post)"
proof -
  obtain dd' where u: "update_task sample_host [49] (AList.update (lit ''status'') (JStr [100])) (sample_dir False) = (Inr (Some (sample_task [100])), dd')"
    using sample_update_task by blast
  have "\<forall>t. row_id sample_host (JObj (AList.update (lit ''status'') (JStr [100]) t)) = row_id sample_host (JObj t)"
    by (simp add: row_id_def dget_def update_conv')
  from update_task_changes_one_task [OF u sample_load this] show ?thesis unfolding u snd_conv by blast
qed

end
