(* ===== verification/TaskTypes.thy ===== *)
theory TaskTypes
  imports StoreFacts
begin

text \<open>
  The type of the task list: a list of objects whose ids are pairwise different. Which operations of
  the store keep it, and that every run of them does, in authorized blocks and scheduler jobs too.
\<close>

definition typed_tasks :: "host \<Rightarrow> json list \<Rightarrow> bool" where
  "typed_tasks H ts \<longleftrightarrow> list_all is_object ts \<and> distinct (map (row_id H) ts)"

definition tasks_typed :: "host \<Rightarrow> data_dir \<Rightarrow> bool" where
  "tasks_typed H dd \<longleftrightarrow> (case load_tasks dd of Inr ts \<Rightarrow> typed_tasks H ts | Inl _ \<Rightarrow> False)"

text \<open>Commands that keep ids: no raw write of the list, and updaters of one task that keep its id.\<close>

fun keeps_ids :: "host \<Rightarrow> store_cmd \<Rightarrow> bool" where
  "keeps_ids H (Save_all H' ts) \<longleftrightarrow> typed_tasks H ts"
| "keeps_ids H (Change_tasks H' f) \<longleftrightarrow> (\<forall>ts. typed_tasks H ts \<longrightarrow> typed_tasks H (f ts))"
| "keeps_ids H (Change_task H' tid f) \<longleftrightarrow> (\<forall>t. row_id H (JObj (f t)) = row_id H (JObj t))"
| "keeps_ids H (Append_tasks H' ts) \<longleftrightarrow> ho_render H' = ho_render H"
| "keeps_ids H (Authorized a cs) \<longleftrightarrow> list_all (keeps_ids H) cs"
| "keeps_ids H (System_job H' job_name files cs) \<longleftrightarrow> list_all (keeps_ids H) cs"
| "keeps_ids H (Write H' name v) \<longleftrightarrow> name \<noteq> tasks_file"
| "keeps_ids H (Update H' name fallback f) \<longleftrightarrow> name \<noteq> tasks_file"
| "keeps_ids H (Append_row H' name row) \<longleftrightarrow> True"
| "keeps_ids H (Update_rows H' name f) \<longleftrightarrow> True"

section \<open>List operations\<close>

lemma typed_mutate:
  assumes "typed_tasks H ts" "\<forall>t. row_id H (JObj (f t)) = row_id H (JObj t)"
  shows "typed_tasks H (mutate_first P f ts)"
proof -
  have "map (row_id H) (mutate_first P f ts) = map (row_id H) ts \<and> list_all is_object (mutate_first P f ts)" if "list_all is_object ts"
    using that
  proof (induction ts)
    case (Cons t ts)
    then obtain d where "t = JObj d" by (cases t) (auto simp: is_object_def)
    with Cons assms(2) show ?case by (auto simp: is_object_def)
  qed simp
  with assms(1) show ?thesis unfolding typed_tasks_def by metis
qed

lemma row_id_render: "ho_render H' = ho_render H \<Longrightarrow> row_id H' = row_id H"
  by (rule ext) (simp add: row_id_def)

lemma typed_append:
  assumes "typed_tasks H ts" "list_all is_object new" "ho_render H' = ho_render H"
  shows "typed_tasks H (append_missing H' new ts)"
  using assms(1,2)
proof (induction new arbitrary: ts)
  case (Cons t new)
  have "filter is_object ts = ts" using Cons.prems(1) by (simp add: typed_tasks_def list_all_iff)
  then have "typed_tasks H (if row_id H' t \<in> set (map (row_id H') (filter is_object ts)) then ts else ts @ [t])"
    using Cons.prems by (auto simp: typed_tasks_def row_id_render [OF assms(3)])
  with Cons show ?case by simp
qed simp

section \<open>Operations\<close>

lemma load_docs: "map_of (dd_docs dd') tasks_file = map_of (dd_docs dd) tasks_file \<Longrightarrow> load_tasks dd' = load_tasks dd"
  by (simp add: load_tasks_def read_json_def)

lemma load_touches: "touches H name dd dd' \<Longrightarrow> name \<noteq> tasks_file \<Longrightarrow> load_tasks dd' = load_tasks dd"
  by (rule load_docs) (simp add: touches_def)

lemma failed_update_keeps_docs: "update_json H name fallback f dd = (Inl e, dd') \<Longrightarrow> dd_docs dd' = dd_docs dd"
  by (cases rule: assert_cases [of H name dd])
    (auto simp: update_json_def put_doc_def split: if_splits sum.splits option.splits)

lemma update_tasks_load:
  assumes "load_tasks dd = Inr ts"
  shows "load_tasks (snd (update_tasks H f dd)) \<in> {Inr ts, Inr (f ts)}"
proof (cases "update_tasks H f dd")
  case (Pair r dd')
  show ?thesis
  proof (cases r)
    case (Inl e)
    then have "update_json H tasks_file (JList []) (in_container f) dd = (Inl e, dd')"
      using Pair by (auto simp: update_tasks_def split: prod.splits sum.splits)
    then show ?thesis using assms Pair load_docs failed_update_keeps_docs by (metis insertI1 snd_conv)
  next
    case (Inr xs)
    then show ?thesis using update_tasks_ok [OF _ assms, of H f xs dd'] Pair by simp
  qed
qed

lemma save_is_update: "snd (save_tasks H ts dd) = snd (update_tasks H (\<lambda>_. ts) dd)"
  by (simp add: save_tasks_def update_tasks_def split: prod.split sum.split)

lemma update_task_is_update:
  "snd (update_task H tid f dd) = (if strip tid = [] then dd else snd (update_tasks H (mutate_first (is_task H (strip tid)) f) dd))"
  by (simp add: update_task_def Let_def split: prod.split sum.split)

lemma append_is_update:
  "snd (append_tasks_verified H ts dd) \<in> {dd, snd (update_tasks H (append_missing H (prepared_tasks ts)) dd)}"
  by (simp add: append_tasks_verified_def Let_def split: prod.split sum.split)

lemma tasks_typed_update:
  assumes "tasks_typed H dd" "\<And>ts. typed_tasks H ts \<Longrightarrow> typed_tasks H (f ts)"
  shows "tasks_typed H (snd (update_tasks H' f dd))"
proof -
  obtain ts where ts: "load_tasks dd = Inr ts" "typed_tasks H ts"
    using assms(1) by (auto simp: tasks_typed_def split: sum.splits)
  from update_tasks_load [OF ts(1), of H' f] ts(2) assms(2) show ?thesis by (auto simp: tasks_typed_def)
qed

lemma ledger_keeps_docs: "dd_docs (snd (append_jsonl_verified H name row dd)) = dd_docs dd" "dd_docs (snd (update_jsonl_verified H name g dd)) = dd_docs dd"
  by (cases rule: assert_cases [of H name dd],
      simp_all add: append_jsonl_verified_def update_jsonl_verified_def Let_def append_ledger_def split: sum.split option.split)+

lemma ledger_keeps_tasks: "load_tasks (snd (append_jsonl_verified H name row dd)) = load_tasks dd" "load_tasks (snd (update_jsonl_verified H name g dd)) = load_tasks dd"
  by (simp_all only: load_tasks_def read_json_def ledger_keeps_docs)

lemma authorized_typed:
  assumes "tasks_typed H dd" "\<And>d. tasks_typed H d \<Longrightarrow> tasks_typed H (f d)"
  shows "tasks_typed H (snd (authorized_business_write a (\<lambda>d. (Inr () :: store_error + unit, f d)) dd))"
proof -
  let ?d = "dd\<lparr>dd_active := Some (a\<lparr>wa_allowed_files := sort (wa_allowed_files a)\<rparr>)\<rparr>"
  have "tasks_typed H ?d" using assms(1) by (simp add: tasks_typed_def load_tasks_def read_json_def)
  from assms(2) [OF this] show ?thesis
    by (simp add: authorized_business_write_def tasks_typed_def load_tasks_def read_json_def)
qed

section \<open>Runs\<close>

lemma run_typed:
  "tasks_typed H dd \<Longrightarrow> keeps_ids H c \<Longrightarrow> tasks_typed H (store_step c dd)"
  "tasks_typed H dd \<Longrightarrow> list_all (keeps_ids H) cs \<Longrightarrow> tasks_typed H (store_run cs dd)"
proof (induction c dd and cs dd rule: store_step_store_run.induct)
  case (1 H' name v dd)
  then show ?case using load_touches [OF write_json_touches] by (simp add: tasks_typed_def)
next
  case (2 H' name fallback f dd)
  then show ?case using load_touches [OF update_json_touches] by (simp add: tasks_typed_def)
next
  case (3 H' ts dd)
  then show ?case by (simp add: save_is_update tasks_typed_update)
next
  case (4 H' f dd)
  then show ?case by (simp add: tasks_typed_update)
next
  case (5 H' tid f dd)
  then show ?case by (auto simp: update_task_is_update intro!: tasks_typed_update typed_mutate)
next
  case (6 H' ts dd)
  have "list_all is_object (prepared_tasks ts)" by (auto simp: prepared_tasks_def list_all_iff)
  then have "tasks_typed H (snd (update_tasks H' (append_missing H' (prepared_tasks ts)) dd))"
    using 6 by (intro tasks_typed_update typed_append) simp_all
  then show ?case using append_is_update [of H' ts dd] 6(1) by auto
next
  case (7 H' name row dd)
  then show ?case by (simp add: tasks_typed_def ledger_keeps_tasks)
next
  case (8 H' name f dd)
  then show ?case by (simp add: tasks_typed_def ledger_keeps_tasks)
next
  case (9 a cs dd)
  then show ?case by (auto intro!: authorized_typed)
next
  case (10 H' job_name files cs dd)
  obtain a dd1 where p: "prepare_system_write H' job_name files dd = (a, dd1)" by fastforce
  then have "dd_docs dd1 = dd_docs dd" by (auto simp: prepare_system_write_def Let_def append_audit_row_def)
  then have "tasks_typed H dd1" using 10(2) by (simp add: tasks_typed_def load_tasks_def read_json_def)
  then show ?case using 10(1,3) by (auto simp: authorized_system_write_def p intro!: authorized_typed)
qed simp_all

text \<open>
  C34: The task list keeps its type. After any run of store operations, nested in authorized blocks and
  scheduler jobs to any depth, that write the list only as a well-formed list, by updates of tasks
  that keep their ids and by verified appends, the list can be read, every entry is an object and no
  id occurs twice.
\<close>

theorem task_list_keeps_type:
  assumes "tasks_typed H dd" "list_all (keeps_ids H) cs"
  shows "\<exists>ts. load_tasks (store_run cs dd) = Inr ts \<and> list_all is_object ts \<and> distinct (map (row_id H) ts)"
  using run_typed(2) [OF assms] by (auto simp: tasks_typed_def typed_tasks_def split: sum.splits)

lemma task_list_keeps_type_witness:
  "\<exists>ts. load_tasks (store_run [Append_tasks sample_host [JObj (sample_task [111]), JNull], System_job sample_host [106] [[120]]
      [Change_task sample_host [49] (AList.update (lit ''status'') JNull)]] (sample_dir False)) = Inr ts \<and>
    list_all is_object ts \<and> distinct (map (row_id sample_host) ts)"
proof (rule task_list_keeps_type)
  show "tasks_typed sample_host (sample_dir False)"
    by (simp add: tasks_typed_def sample_load typed_tasks_def sample_row_id other_id) (simp add: other_task_def is_object_def)
  have "row_id sample_host (JObj (AList.update (lit ''status'') JNull t)) = row_id sample_host (JObj t)" for t
    by (simp add: row_id_def dget_def update_conv')
  then show "list_all (keeps_ids sample_host) [Append_tasks sample_host [JObj (sample_task [111]), JNull], System_job sample_host [106] [[120]]
      [Change_task sample_host [49] (AList.update (lit ''status'') JNull)]]" by simp
qed

end
