(* ===== verification/TaskLifecycle.thy ===== *)
theory TaskLifecycle
  imports StoreFacts
begin

text \<open>
  \<^verbatim>\<open>runtime/plugins/tuoguan_core/agenda_task_lifecycle.py\<close>: what an agenda turn may do with the one task of its
  ticket, and the check at the end of the turn that an open task has a next review. It reads the
  scheduler's database (\<open>service\<close>) and writes the task list of the data directory; the trusted turn is
  the active turn of the registry. \<open>task_is_closed\<close> of \<^verbatim>\<open>runtime/plugins/tuoguan_core/tasks.py\<close> is compared with it.
  Parsing and printing of times and the staff directory are arguments; a database that cannot be
  read and the audit of the tool call are left out.
\<close>

section \<open>Bindings\<close>

datatype lifecycle_error = Lifecycle_error string | Task_store store_error

record lifecycle_env =
  lc_agenda :: agenda_env
  lc_host :: host
  lc_aware :: "pystr \<Rightarrow> timestamp option"
  lc_utc :: "timestamp \<Rightarrow> pystr"
  lc_staff :: "pystr \<Rightarrow> json list option"

record task_binding =
  tb_ticket_id :: pystr
  tb_tenant_id :: pystr
  tb_task_id :: pystr
  tb_recipient_id :: pystr
  tb_message_id :: pystr

definition str_of :: "lifecycle_env \<Rightarrow> json \<Rightarrow> pystr" where
  "str_of V v = text_of (ae_render (lc_agenda V)) v"

definition text_at :: "lifecycle_env \<Rightarrow> (pystr, json) dict \<Rightarrow> string \<Rightarrow> pystr" where
  "text_at V d k = str_of V (dget d (lit k))"

definition aware_time :: "lifecycle_env \<Rightarrow> json \<Rightarrow> timestamp option" where
  "aware_time V v = (let text = strip (str_of V v) in if text = [] then None else lc_aware V (utc_suffix text))"

definition lifecycle_closed_states :: "pystr list" where
  "lifecycle_closed_states = [lit ''completed'', lit ''closed'', lit ''cancelled'', lit ''superseded'', lit ''archived'']"

definition status_of :: "lifecycle_env \<Rightarrow> (pystr, json) dict \<Rightarrow> pystr" where
  "status_of V task = lower (strip (py_str (ae_render (lc_agenda V)) (por (dget task (lit ''status'')) (JStr (lit ''pending'')))))"

text \<open>The one attested task of a ticket: its work fact, and the payload of the fact.\<close>

definition ticket_payload :: "ticket_row \<Rightarrow> service \<Rightarrow> string + json" where
  "ticket_payload t s = (case tk_work_ids t of
     [w] \<Rightarrow> (case List.find (\<lambda>f. f_work_id f = w \<and> f_tenant_id f = tk_tenant_id t) (work_facts s) of
       None \<Rightarrow> Inl ''agenda_task_source_not_attested''
     | Some f \<Rightarrow>
         if f_source_kind f \<noteq> lit ''workspace_task'' then Inl ''agenda_task_source_not_attested''
         else (case List.find (\<lambda>p. pl_payload_ref p = f_payload_ref f \<and> pl_tenant_id p = tk_tenant_id t) (as_payloads (sv_agenda s)) of
           None \<Rightarrow> Inl ''agenda_task_payload_missing'' | Some p \<Rightarrow> Inr (pl_payload p)))
   | _ \<Rightarrow> Inl ''agenda_task_ticket_ambiguous'')"

definition binding_of_ticket :: "lifecycle_env \<Rightarrow> pystr \<Rightarrow> ticket_row \<Rightarrow> json \<Rightarrow> string + task_binding" where
  "binding_of_ticket V tenant t payload =
     (let task_id = strip (text_at V (as_dict payload) ''task_id''); recipient = strip (rd_recipient_id (tk_destination t)) in
      if task_id = [] \<or> recipient = [] then Inl ''agenda_task_binding_incomplete''
      else Inr \<lparr>tb_ticket_id = tk_ticket_id t, tb_tenant_id = tenant, tb_task_id = task_id, tb_recipient_id = recipient, tb_message_id = tk_message_id t\<rparr>)"

definition ticket_task_binding :: "lifecycle_env \<Rightarrow> pystr \<Rightarrow> service \<Rightarrow> task_binding option" where
  "ticket_task_binding V ticket_id s =
     (if strip ticket_id = [] then None
      else case List.find (\<lambda>t. tk_ticket_id t = ticket_id) (sv_tickets s) of
        None \<Rightarrow> None
      | Some t \<Rightarrow> (case sbind (ticket_payload t s) (binding_of_ticket V (strip (tk_tenant_id t)) t) of
          Inl _ \<Rightarrow> None
        | Inr b \<Rightarrow> if tb_tenant_id b = [] then None else Some b))"

definition current_task_binding :: "lifecycle_env \<Rightarrow> turn_record option \<Rightarrow> pystr \<Rightarrow> service \<Rightarrow> string + task_binding" where
  "current_task_binding V trusted who s = (case trusted of
     None \<Rightarrow> Inl ''agenda_task_turn_untrusted''
   | Some turn \<Rightarrow>
       (let tenant = strip (tr_tenant_id turn); actor = strip who in
        if tr_platform turn \<noteq> lit ''agenda_service_work'' then Inl ''agenda_task_turn_untrusted''
        else if tenant = [] \<or> actor = [] then Inl ''agenda_task_identity_missing''
        else case List.find (\<lambda>t. tk_tenant_id t = tenant \<and> tk_service_identity t = actor \<and> tk_agent_session_id t = tr_session_id turn
               \<and> tk_agent_turn_id t = tr_turn_id turn \<and> tk_state t = Agent_claimed) (sv_tickets s) of
          None \<Rightarrow> Inl ''agenda_task_ticket_missing''
        | Some t \<Rightarrow> sbind (ticket_payload t s) (binding_of_ticket V tenant t)))"

section \<open>The contract at the end of a turn\<close>

definition task_row :: "lifecycle_env \<Rightarrow> pystr \<Rightarrow> data_dir \<Rightarrow> store_error + (pystr, json) dict option" where
  "task_row V task_id dd = sbind (load_tasks dd) (\<lambda>ts. Inr (map_option as_dict (List.find (is_task (lc_host V) task_id) ts)))"

definition still_bound :: "lifecycle_env \<Rightarrow> task_binding \<Rightarrow> (pystr, json) dict \<Rightarrow> bool" where
  "still_bound V b row \<longleftrightarrow> text_at V row ''tenant_id'' = tb_tenant_id b \<and> text_at V row ''assignee_userid'' = tb_recipient_id b"

definition live_task_for_binding :: "lifecycle_env \<Rightarrow> task_binding \<Rightarrow> data_dir \<Rightarrow> store_error + (pystr, json) dict option" where
  "live_task_for_binding V b dd = sbind (task_row V (tb_task_id b) dd) (\<lambda>r. Inr (case r of
     Some row \<Rightarrow> if still_bound V b row then Some row else None | None \<Rightarrow> None))"

datatype contract_status = Not_a_task | Binding_lost task_binding | Task_terminal task_binding
  | Attention_scheduled task_binding timestamp | Attention_missing task_binding

definition future_attention :: "lifecycle_env \<Rightarrow> task_binding \<Rightarrow> timestamp \<Rightarrow> (pystr, json) dict \<Rightarrow> timestamp option" where
  "future_attention V b now row =
     (let followup = as_dict (dget row (lit ''agenda_followup'')) in
      case aware_time V (dget followup (lit ''next_attention_at'')) of
        Some t \<Rightarrow> if text_at V followup ''state'' = lit ''scheduled'' \<and> text_at V followup ''ticket_id'' = tb_ticket_id b \<and> now < t then Some t else None
      | None \<Rightarrow> None)"

definition task_attention_contract_status :: "lifecycle_env \<Rightarrow> pystr \<Rightarrow> timestamp \<Rightarrow> service \<Rightarrow> data_dir \<Rightarrow> store_error + contract_status" where
  "task_attention_contract_status V ticket_id now s dd = (case ticket_task_binding V ticket_id s of
     None \<Rightarrow> Inr Not_a_task
   | Some b \<Rightarrow> sbind (live_task_for_binding V b dd) (\<lambda>r. Inr (case r of
       None \<Rightarrow> Binding_lost b
     | Some row \<Rightarrow>
         if status_of V row \<in> set lifecycle_closed_states then Task_terminal b
         else case future_attention V b now row of Some t \<Rightarrow> Attention_scheduled b t | None \<Rightarrow> Attention_missing b)))"

definition satisfied :: "contract_status \<Rightarrow> bool" where
  "satisfied c \<longleftrightarrow> (case c of Not_a_task \<Rightarrow> True | Task_terminal _ \<Rightarrow> True | Attention_scheduled _ _ \<Rightarrow> True | _ \<Rightarrow> False)"

definition dict_rows :: "json \<Rightarrow> json list" where
  "dict_rows v = (case v of JList xs \<Rightarrow> filter is_object xs | _ \<Rightarrow> [])"

definition put :: "string \<Rightarrow> json \<Rightarrow> (pystr, json) dict \<Rightarrow> (pystr, json) dict" where
  "put k v = AList.update (lit k) v"

definition required_by :: "lifecycle_env \<Rightarrow> task_binding \<Rightarrow> (pystr, json) dict \<Rightarrow> bool" where
  "required_by V b row \<longleftrightarrow> (let c = as_dict (dget row (lit ''agenda_continuation'')) in
     text_at V c ''state'' = lit ''required'' \<and> text_at V c ''ticket_id'' = tb_ticket_id b)"

definition staged_contact :: "task_binding \<Rightarrow> pystr \<Rightarrow> json" where
  "staged_contact b at_time = JObj [(lit ''schema_version'', JStr (lit ''xiaoyou.agenda-contact.v1'')), (lit ''ticket_id'', JStr (tb_ticket_id b)),
     (lit ''recipient_id'', JStr (tb_recipient_id b)), (lit ''state'', JStr (lit ''durable_reply_staged'')), (lit ''recorded_at'', JStr at_time)]"

definition contacts_with :: "lifecycle_env \<Rightarrow> task_binding \<Rightarrow> bool \<Rightarrow> pystr \<Rightarrow> (pystr, json) dict \<Rightarrow> json list" where
  "contacts_with V b was_staged at_time row =
     (let rows = dict_rows (dget row (lit ''agenda_contact_history'')) in
      last_of 100 (if was_staged \<and> \<not> list_ex (\<lambda>c. text_at V (as_dict c) ''ticket_id'' = tb_ticket_id b) rows then rows @ [staged_contact b at_time] else rows))"

definition continuation_row :: "lifecycle_env \<Rightarrow> task_binding \<Rightarrow> bool \<Rightarrow> pystr \<Rightarrow> (pystr, json) dict \<Rightarrow> (pystr, json) dict" where
  "continuation_row V b was_staged at_time row =
     (let contacts = JList (contacts_with V b was_staged at_time row) in
      if required_by V b row then put ''agenda_contact_history'' contacts row
      else put ''updated_at'' (JStr at_time) (put ''agenda_contact_history'' contacts (put ''agenda_continuation''
        (JObj [(lit ''schema_version'', JStr (lit ''xiaoyou.agenda-task-continuation.v1'')), (lit ''state'', JStr (lit ''required'')),
           (lit ''ticket_id'', JStr (tb_ticket_id b)), (lit ''required_at'', JStr at_time), (lit ''reason'', JStr (lit ''future_attention_missing''))]) row)))"

definition record_task_continuation_required :: "lifecycle_env \<Rightarrow> pystr \<Rightarrow> bool \<Rightarrow> timestamp \<Rightarrow> service \<Rightarrow> (data_dir, store_error, bool) op" where
  "record_task_continuation_required V ticket_id was_staged now s dd = (case task_attention_contract_status V ticket_id now s dd of
     Inl e \<Rightarrow> (Inl e, dd)
   | Inr (Attention_missing b) \<Rightarrow> (case update_task (lc_host V) (tb_task_id b) (continuation_row V b was_staged (lc_utc V now)) dd of
       (Inl e, dd1) \<Rightarrow> (Inl e, dd1)
     | (Inr r, dd1) \<Rightarrow> (Inr (case r of Some row \<Rightarrow> required_by V b row | None \<Rightarrow> False), dd1))
   | Inr _ \<Rightarrow> (Inr False, dd))"

text \<open>\<open>_enforce_task_continuation_contract\<close> of the service adapter: an exception counts as a failure.\<close>

definition enforce_contract :: "lifecycle_env \<Rightarrow> pystr \<Rightarrow> timestamp \<Rightarrow> service \<Rightarrow> data_dir \<Rightarrow> bool \<times> data_dir" where
  "enforce_contract V ticket_id now s dd = (case task_attention_contract_status V ticket_id now s dd of
     Inl _ \<Rightarrow> (False, dd)
   | Inr c \<Rightarrow> if satisfied c then (True, dd)
       else (case record_task_continuation_required V ticket_id True now s dd of (Inr True, dd1) \<Rightarrow> (True, dd1) | (_, dd1) \<Rightarrow> (False, dd1)))"


section \<open>Scheduling the next review\<close>

definition min_recheck_delay :: rat where
  "min_recheck_delay = 15 * 60"

definition max_recheck_delay :: rat where
  "max_recheck_delay = 31 * 24 * 60 * 60"

definition satisfied_continuations :: "lifecycle_env \<Rightarrow> task_binding \<Rightarrow> pystr \<Rightarrow> (pystr, json) dict \<Rightarrow> json list" where
  "satisfied_continuations V b scheduled_at row =
     (let history = dict_rows (dget row (lit ''agenda_continuation_history'')); prior = as_dict (dget row (lit ''agenda_continuation'')) in
      last_of 100 (if text_at V prior ''state'' = lit ''required''
        then history @ [JObj (put ''satisfied_by_ticket_id'' (JStr (tb_ticket_id b)) (put ''satisfied_at'' (JStr scheduled_at) (put ''state'' (JStr (lit ''satisfied'')) prior)))]
        else history))"

definition recheck_row :: "lifecycle_env \<Rightarrow> task_binding \<Rightarrow> pystr \<Rightarrow> pystr \<Rightarrow> pystr \<Rightarrow> pystr \<Rightarrow> (pystr, json) dict \<Rightarrow> (pystr, json) dict" where
  "recheck_row V b operation_id scheduled_at attention_at actor row =
     (let entry = [(lit ''operation_id'', JStr operation_id), (lit ''ticket_id'', JStr (tb_ticket_id b)), (lit ''scheduled_at'', JStr scheduled_at),
            (lit ''next_attention_at'', JStr attention_at), (lit ''actor'', JStr actor)];
          version = (lit ''schema_version'', JStr (lit ''xiaoyou.agenda-task-followup.v1''));
          history = dict_rows (dget row (lit ''agenda_followup_history'')) in
      put ''updated_at'' (JStr scheduled_at) (put ''agenda_continuation_history'' (JList (satisfied_continuations V b scheduled_at row))
        (put ''agenda_continuation'' (JObj []) (put ''agenda_followup_history'' (JList (last_of 100 (history @ [JObj (version # entry)])))
          (put ''agenda_followup'' (JObj (version # (lit ''state'', JStr (lit ''scheduled'')) # entry)) row)))))"

record recheck_result =
  rr_ok :: bool
  rr_next_attention_at :: pystr
  rr_already_applied :: bool

definition check_task :: "lifecycle_env \<Rightarrow> task_binding \<Rightarrow> (pystr, json) dict \<Rightarrow> string option" where
  "check_task V b row =
     (if text_at V row ''tenant_id'' \<noteq> tb_tenant_id b then Some ''agenda_task_cross_tenant''
      else if text_at V row ''assignee_userid'' \<noteq> tb_recipient_id b then Some ''agenda_task_recipient_binding_changed''
      else if status_of V row \<in> set lifecycle_closed_states then Some ''agenda_task_already_terminal'' else None)"

definition schedule_current_task_recheck :: "lifecycle_env \<Rightarrow> turn_record option \<Rightarrow> pystr \<Rightarrow> pystr \<Rightarrow> pystr \<Rightarrow> pystr \<Rightarrow> timestamp \<Rightarrow> service \<Rightarrow> (data_dir, lifecycle_error, recheck_result) op" where
  "schedule_current_task_recheck V trusted who task_id next_attention_at operation_id now s dd =
     (case current_task_binding V trusted who s of
       Inl e \<Rightarrow> (Inl (Lifecycle_error e), dd)
     | Inr b \<Rightarrow>
         if strip task_id \<noteq> tb_task_id b then (Inl (Lifecycle_error ''agenda_task_id_not_current_ticket''), dd)
         else (case aware_time V (JStr next_attention_at) of
           None \<Rightarrow> (Inl (Lifecycle_error ''agenda_task_recheck_time_invalid''), dd)
         | Some requested \<Rightarrow>
             if requested < now + min_recheck_delay \<or> now + max_recheck_delay < requested
             then (Inl (Lifecycle_error ''agenda_task_recheck_time_out_of_bounds''), dd)
             else (case task_row V (tb_task_id b) dd of
               Inl e \<Rightarrow> (Inl (Task_store e), dd)
             | Inr None \<Rightarrow> (Inl (Lifecycle_error ''agenda_task_not_found''), dd)
             | Inr (Some current) \<Rightarrow> (case check_task V b current of
                 Some e \<Rightarrow> (Inl (Lifecycle_error e), dd)
               | None \<Rightarrow>
                   (let attention_at = lc_utc V requested; prior = as_dict (dget current (lit ''agenda_followup'')) in
                    if text_at V prior ''operation_id'' = operation_id \<and> text_at V prior ''next_attention_at'' = attention_at
                    then (Inr \<lparr>rr_ok = True, rr_next_attention_at = attention_at, rr_already_applied = True\<rparr>, dd)
                    else (case update_task (lc_host V) (tb_task_id b) (recheck_row V b operation_id (lc_utc V now) attention_at who) dd of
                      (Inl e, dd1) \<Rightarrow> (Inl (Task_store e), dd1)
                    | (Inr r, dd1) \<Rightarrow>
                        (let followup = (case r of Some row \<Rightarrow> as_dict (dget row (lit ''agenda_followup'')) | None \<Rightarrow> []);
                             row_ok = (case r of Some row \<Rightarrow> text_at V row ''id'' = tb_task_id b | None \<Rightarrow> False) in
                         (Inr \<lparr>rr_ok = (row_ok \<and> text_at V followup ''operation_id'' = operation_id \<and> text_at V followup ''ticket_id'' = tb_ticket_id b
                              \<and> text_at V followup ''next_attention_at'' = attention_at),
                            rr_next_attention_at = attention_at, rr_already_applied = False\<rparr>, dd1))))))))"

section \<open>Contacting the responsible person\<close>

record contact_target =
  ct_binding :: task_binding
  ct_user_id :: pystr
  ct_role :: pystr
  ct_name :: pystr

definition contact_roles :: "pystr list" where
  "contact_roles = [lit ''boss'', lit ''manager'', lit ''teacher'']"

definition first_text :: "pystr list \<Rightarrow> pystr" where
  "first_text vs = (case List.find (\<lambda>v. v \<noteq> []) vs of Some v \<Rightarrow> v | None \<Rightarrow> [])"

definition current_task_contact_target :: "lifecycle_env \<Rightarrow> turn_record option \<Rightarrow> pystr \<Rightarrow> service \<Rightarrow> data_dir \<Rightarrow> lifecycle_error + contact_target" where
  "current_task_contact_target V trusted who s dd = (case current_task_binding V trusted who s of
     Inl e \<Rightarrow> Inl (Lifecycle_error e)
   | Inr b \<Rightarrow> (case task_row V (tb_task_id b) dd of
       Inl e \<Rightarrow> Inl (Task_store e)
     | Inr None \<Rightarrow> Inl (Lifecycle_error ''agenda_task_not_found'')
     | Inr (Some current) \<Rightarrow>
         (let target = strip (text_at V current ''assignee_userid'') in
          if text_at V current ''tenant_id'' \<noteq> tb_tenant_id b then Inl (Lifecycle_error ''agenda_task_cross_tenant'')
          else if status_of V current \<in> set lifecycle_closed_states then Inl (Lifecycle_error ''agenda_task_already_terminal'')
          else if target = [] \<or> target \<noteq> tb_recipient_id b then Inl (Lifecycle_error ''agenda_task_recipient_binding_changed'')
          else (case lc_staff V target of
            None \<Rightarrow> Inl (Lifecycle_error ''agenda_task_responsible_party_unavailable'')
          | Some staff \<Rightarrow> (case List.find (\<lambda>r. is_object r \<and> text_at V (as_dict r) ''user_id'' = target \<and> truthy (dget (as_dict r) (lit ''is_active_staff''))) staff of
              None \<Rightarrow> Inl (Lifecycle_error ''agenda_task_responsible_party_unavailable'')
            | Some profile \<Rightarrow>
                (let role = strip (text_at V (as_dict profile) ''role'') in
                 if role \<notin> set contact_roles then Inl (Lifecycle_error ''agenda_task_responsible_party_role_invalid'')
                 else Inr \<lparr>ct_binding = b, ct_user_id = target, ct_role = role,
                   ct_name = first_text [text_at V (as_dict profile) ''business_name'', text_at V (as_dict profile) ''staff_name'', target]\<rparr>))))))"

definition contact_actions :: "pystr list" where
  "contact_actions = [lit ''ask_task_fact'', lit ''ask_task_result'', lit ''task_companion_followup'']"

definition current_task_contact_candidate_attested :: "lifecycle_env \<Rightarrow> turn_record option \<Rightarrow> pystr \<Rightarrow> (pystr, json) dict \<Rightarrow> service \<Rightarrow> data_dir \<Rightarrow> bool" where
  "current_task_contact_candidate_attested V trusted who c s dd = (case current_task_contact_target V trusted who s dd of
     Inl _ \<Rightarrow> False
   | Inr t \<Rightarrow> text_at V c ''tenant_id'' = tb_tenant_id (ct_binding t) \<and> text_at V c ''agenda_ticket_id'' = tb_ticket_id (ct_binding t)
       \<and> text_at V c ''related_task_id'' = tb_task_id (ct_binding t) \<and> text_at V c ''target_user_id'' = ct_user_id t
       \<and> text_at V c ''target_role'' = ct_role t \<and> text_at V c ''action_type'' \<in> set contact_actions \<and> truthy (dget c (lit ''work_related'')))"

record contact_attempt =
  ca_target_user_id :: pystr
  ca_candidate_id :: pystr
  ca_delivery_state :: pystr
  ca_delivery_id :: pystr
  ca_operation_id :: pystr

definition has_operation :: "lifecycle_env \<Rightarrow> pystr \<Rightarrow> json list \<Rightarrow> bool" where
  "has_operation V operation_id rows \<longleftrightarrow> list_ex (\<lambda>c. text_at V (as_dict c) ''operation_id'' = operation_id) rows"

definition attempt_row :: "lifecycle_env \<Rightarrow> contact_target \<Rightarrow> contact_attempt \<Rightarrow> pystr \<Rightarrow> (pystr, json) dict \<Rightarrow> (pystr, json) dict" where
  "attempt_row V t a at_time row =
     (let history = dict_rows (dget row (lit ''agenda_contact_history'')) in
      if has_operation V (ca_operation_id a) history then row
      else put ''updated_at'' (JStr at_time) (put ''agenda_contact_history'' (JList (last_of 100 (history @ [JObj
        [(lit ''schema_version'', JStr (lit ''xiaoyou.agenda-contact.v2'')), (lit ''kind'', JStr (lit ''model_selected_task_party_followup'')),
         (lit ''ticket_id'', JStr (tb_ticket_id (ct_binding t))), (lit ''recipient_id'', JStr (ct_user_id t)), (lit ''candidate_id'', JStr (ca_candidate_id a)),
         (lit ''operation_id'', JStr (ca_operation_id a)), (lit ''delivery_state'', JStr (or_else (ca_delivery_state a) (lit ''not_ready''))),
         (lit ''delivery_id'', JStr (ca_delivery_id a)), (lit ''recorded_at'', JStr at_time)]]))) row))"

definition record_current_task_contact_attempt :: "lifecycle_env \<Rightarrow> turn_record option \<Rightarrow> pystr \<Rightarrow> contact_attempt \<Rightarrow> timestamp \<Rightarrow> service \<Rightarrow> (data_dir, lifecycle_error, bool) op" where
  "record_current_task_contact_attempt V trusted who a now s dd = (case current_task_contact_target V trusted who s dd of
     Inl e \<Rightarrow> (Inl e, dd)
   | Inr t \<Rightarrow>
       if ca_target_user_id a \<noteq> ct_user_id t then (Inl (Lifecycle_error ''agenda_task_contact_target_changed''), dd)
       else (case update_task (lc_host V) (tb_task_id (ct_binding t)) (attempt_row V t a (lc_utc V now)) dd of
         (Inl e, dd1) \<Rightarrow> (Inl (Task_store e), dd1)
       | (Inr r, dd1) \<Rightarrow> (Inr (case r of Some row \<Rightarrow> has_operation V (ca_operation_id a) (dict_rows (dget row (lit ''agenda_contact_history''))) | None \<Rightarrow> False), dd1)))"

section \<open>The other notion of a closed task\<close>

text \<open>\<open>CLOSED_TASK_STATUSES\<close> and \<open>task_is_closed\<close> of the task module.\<close>

definition closed_task_statuses :: "pystr list" where
  "closed_task_statuses = [lit ''completed'', lit ''cancelled'', lit ''closed'', lit ''done'', lit ''closed_by_admin'', lit ''completed_by_admin'', lit ''superseded'', lit ''expired'']"

definition task_is_closed :: "lifecycle_env \<Rightarrow> (pystr, json) dict \<Rightarrow> bool" where
  "task_is_closed V task \<longleftrightarrow> lower (strip (text_at V task ''status'')) \<in> set closed_task_statuses"

end
