(* ===== verification/LifecycleFacts.thy ===== *)
theory LifecycleFacts
  imports TaskLifecycle ServiceMachine
begin

text \<open>
  The continuation contract of agenda tasks and the scanner together: a scheduled review keeps a task
  quiet until it is due, a recorded gap wakes the agenda again, and what happens when the task list is
  guarded.
\<close>

section \<open>Fields of a task\<close>

lemma dget_put [simp]: "dget (put k v d) k' = (if lit k = k' then v else dget d k')"
  by (simp add: dget_def put_def update_conv')

lemma text_at_put [simp]: "text_at V (put k v d) k' = (if k = k' then str_of V v else text_at V d k')"
  by (simp add: text_at_def)

lemma str_of_JStr [simp]: "str_of V (JStr x) = x"
  by (simp add: str_of_def text_of_def por_def)

text \<open>The two functions \<open>str\<close> of the environment are the same.\<close>

definition coherent :: "lifecycle_env \<Rightarrow> bool" where
  "coherent V \<longleftrightarrow> ho_render (lc_host V) = ae_render (lc_agenda V)"

lemma row_id_text: "coherent V \<Longrightarrow> row_id (lc_host V) (JObj row) = text_at V row ''id''"
  by (simp add: row_id_def text_at_def str_of_def coherent_def)

lemma recheck_id: "coherent V \<Longrightarrow> row_id (lc_host V) (JObj (recheck_row V b op sa na who t)) = row_id (lc_host V) (JObj t)"
  by (simp add: row_id_text recheck_row_def Let_def)

lemma continuation_id: "coherent V \<Longrightarrow> row_id (lc_host V) (JObj (continuation_row V b k sa t)) = row_id (lc_host V) (JObj t)"
  by (simp add: row_id_text continuation_row_def Let_def)

lemma task_row_Some:
  assumes "task_row V w dd = Inr (Some row)"
  shows "\<exists>ts. load_tasks dd = Inr ts \<and> List.find (is_task (lc_host V) w) ts = Some (JObj row)"
proof -
  obtain ts v where l: "load_tasks dd = Inr ts" "List.find (is_task (lc_host V) w) ts = Some v" "row = as_dict v"
    using assms by (auto simp: task_row_def sbind_def split: sum.splits)
  from find_SomeD [OF l(2)] have "v = JObj (as_dict v)" by (cases v) (auto simp: is_task_def is_object_def)
  with l show ?thesis by metis
qed

lemma task_row_update:
  assumes "task_row V w dd = Inr (Some c)" "update_task (lc_host V) w f dd = (Inr r, dd')" "strip w = w"
    "\<And>t. row_id (lc_host V) (JObj (f t)) = row_id (lc_host V) (JObj t)"
  shows "r = Some (f c) \<and> task_row V w dd' = Inr (Some (f c))"
proof -
  obtain ts where ts: "load_tasks dd = Inr ts" "List.find (is_task (lc_host V) w) ts = Some (JObj c)"
    using task_row_Some [OF assms(1)] by blast
  from find_update_task [OF assms(2) ts assms(3)] assms(4) show ?thesis by (auto simp: task_row_def)
qed

section \<open>Bindings\<close>

lemma binding_of_ticket_fields:
  assumes "binding_of_ticket V tenant t payload = Inr b"
  shows "tb_ticket_id b = tk_ticket_id t" "tb_tenant_id b = tenant" "strip (tb_task_id b) = tb_task_id b" "tb_task_id b \<noteq> []"
    "tb_recipient_id b \<noteq> []" "strip (tb_recipient_id b) = tb_recipient_id b"
  using assms by (auto simp: binding_of_ticket_def Let_def split: if_splits)

lemma current_binding:
  assumes "current_task_binding V trusted who s = Inr b"
  shows "\<exists>t payload. t \<in> set (sv_tickets s) \<and> tk_state t = Agent_claimed \<and> strip (tk_tenant_id t) = tk_tenant_id t \<and> tk_tenant_id t \<noteq> [] \<and>
    ticket_payload t s = Inr payload \<and> binding_of_ticket V (tk_tenant_id t) t payload = Inr b"
  using assms
  by (auto simp: current_task_binding_def Let_def sbind_def split: option.splits if_splits sum.splits dest!: find_SomeD)

lemma ticket_binding_of_current:
  assumes "current_task_binding V trusted who s = Inr b" "unique_key tk_ticket_id (sv_tickets s)" "\<forall>t\<in>set (sv_tickets s). strip (tk_ticket_id t) \<noteq> []"
  shows "ticket_task_binding V (tb_ticket_id b) s = Some b"
proof -
  obtain t payload where t: "t \<in> set (sv_tickets s)" "strip (tk_tenant_id t) = tk_tenant_id t" "tk_tenant_id t \<noteq> []" "ticket_payload t s = Inr payload"
    "binding_of_ticket V (tk_tenant_id t) t payload = Inr b"
    using current_binding [OF assms(1)] by blast
  note f = binding_of_ticket_fields [OF t(5)]
  have "List.find (\<lambda>x. tk_ticket_id x = tk_ticket_id t) (sv_tickets s) = Some t" by (rule find_unique_key [OF assms(2) t(1)])
  then show ?thesis using assms(3) t f by (simp add: ticket_task_binding_def)
qed

lemma ticket_binding_fields:
  assumes "ticket_task_binding V tid s = Some b"
  shows "tb_ticket_id b = tid" "strip (tb_task_id b) = tb_task_id b" "tb_recipient_id b \<noteq> []" "strip (tb_recipient_id b) = tb_recipient_id b"
proof -
  obtain t payload where "List.find (\<lambda>t. tk_ticket_id t = tid) (sv_tickets s) = Some t" "binding_of_ticket V (strip (tk_tenant_id t)) t payload = Inr b"
    using assms by (auto simp: ticket_task_binding_def sbind_def split: if_splits option.splits sum.splits)
  then show "tb_ticket_id b = tid" "strip (tb_task_id b) = tb_task_id b" "tb_recipient_id b \<noteq> []" "strip (tb_recipient_id b) = tb_recipient_id b"
    using binding_of_ticket_fields [of V "strip (tk_tenant_id t)" t payload b] by (auto dest: find_SomeD)
qed

section \<open>A scheduled review\<close>

lemma check_task_None: "check_task V b row = None \<Longrightarrow> text_at V row ''tenant_id'' = tb_tenant_id b \<and>
    text_at V row ''assignee_userid'' = tb_recipient_id b \<and> status_of V row \<notin> set lifecycle_closed_states"
  by (simp add: check_task_def split: if_splits)

lemma closed_lists: "closed_task_states = lifecycle_closed_states"
  by (simp add: closed_task_states_def lifecycle_closed_states_def)

lemma reason_open:
  assumes "status_of V row \<notin> set lifecycle_closed_states" "strip (text_at V row ''assignee_userid'') \<noteq> []"
  shows "task_candidate_reason (lc_agenda V) now row =
    (if text_at V (as_dict (dget row (lit ''agenda_continuation''))) ''state'' = lit ''required'' then Some (lit ''task_continuation_required'')
     else case (if text_at V (as_dict (dget row (lit ''agenda_followup''))) ''state'' = lit ''scheduled''
         then parse_time (lc_agenda V) (dget (as_dict (dget row (lit ''agenda_followup''))) (lit ''next_attention_at'')) else None) of
       Some t \<Rightarrow> if t \<le> now then Some (lit ''task_followup_due'') else None
     | None \<Rightarrow> if passed (lc_agenda V) now (dget row (lit ''due_at'')) then Some (lit ''task_due'') else Some (lit ''task_open_unobserved''))"
  using assms by (simp add: task_candidate_reason_def Let_def status_of_def closed_lists text_at_def str_of_def state_of_def)

lemma status_put [simp]: "k \<noteq> ''status'' \<Longrightarrow> status_of V (put k v row) = status_of V row"
  by (simp add: status_of_def)

lemma recheck_reads:
  "dget (recheck_row V b op sa na who row) (lit ''agenda_continuation'') = JObj []"
  "text_at V (as_dict (dget (recheck_row V b op sa na who row) (lit ''agenda_followup''))) ''state'' = lit ''scheduled''"
  "text_at V (as_dict (dget (recheck_row V b op sa na who row) (lit ''agenda_followup''))) ''ticket_id'' = tb_ticket_id b"
  "dget (as_dict (dget (recheck_row V b op sa na who row) (lit ''agenda_followup''))) (lit ''next_attention_at'') = JStr na"
  "text_at V (recheck_row V b op sa na who row) ''assignee_userid'' = text_at V row ''assignee_userid''"
  "text_at V (recheck_row V b op sa na who row) ''tenant_id'' = text_at V row ''tenant_id''"
  "status_of V (recheck_row V b op sa na who row) = status_of V row"
  by (simp_all add: recheck_row_def Let_def) (simp_all add: text_at_def dget_def)

lemma schedule_written:
  assumes "schedule_current_task_recheck V trusted who task_id next_at op now s dd = (Inr res, dd')" "\<not> rr_already_applied res" "coherent V"
  shows "\<exists>b current. current_task_binding V trusted who s = Inr b \<and> check_task V b current = None \<and>
    task_row V (tb_task_id b) dd' = Inr (Some (recheck_row V b op (lc_utc V now) (rr_next_attention_at res) who current))"
proof -
  obtain b where b: "current_task_binding V trusted who s = Inr b"
    using assms(1) by (auto simp: schedule_current_task_recheck_def split: sum.splits)
  obtain t payload where t: "binding_of_ticket V (tk_tenant_id t) t payload = Inr b" using current_binding [OF b] by blast
  obtain requested where req: "aware_time V (JStr next_at) = Some requested"
    using assms(1) b by (auto simp: schedule_current_task_recheck_def split: if_splits option.splits)
  obtain current where c: "task_row V (tb_task_id b) dd = Inr (Some current)" "check_task V b current = None"
    using assms(1) b req by (auto simp: schedule_current_task_recheck_def split: if_splits sum.splits option.splits)
  obtain r where u: "update_task (lc_host V) (tb_task_id b) (recheck_row V b op (lc_utc V now) (lc_utc V requested) who) dd = (Inr r, dd')"
    and n: "rr_next_attention_at res = lc_utc V requested"
    using assms(1,2) b req c by (auto simp: schedule_current_task_recheck_def Let_def split: if_splits sum.splits prod.splits)
  from task_row_update [OF c(1) u binding_of_ticket_fields(3) [OF t] recheck_id [OF assms(3)]] b c(2) n show ?thesis
    by (intro exI [of _ b] exI [of _ current]) simp
qed



section \<open>A recorded gap\<close>

lemma contract_missing:
  assumes "task_attention_contract_status V tid now s dd = Inr (Attention_missing b)"
  shows "ticket_task_binding V tid s = Some b" "\<exists>row. task_row V (tb_task_id b) dd = Inr (Some row) \<and> still_bound V b row \<and> status_of V row \<notin> set lifecycle_closed_states"
proof -
  obtain b' where b': "ticket_task_binding V tid s = Some b'"
    using assms by (auto simp: task_attention_contract_status_def split: option.splits)
  obtain r where r: "live_task_for_binding V b' dd = Inr r"
    using assms b' by (auto simp: task_attention_contract_status_def sbind_def split: sum.splits)
  have b: "b' = b" and "\<exists>row. r = Some row \<and> status_of V row \<notin> set lifecycle_closed_states"
    using assms b' r by (auto simp: task_attention_contract_status_def split: option.splits if_splits)
  then show "ticket_task_binding V tid s = Some b" "\<exists>row. task_row V (tb_task_id b) dd = Inr (Some row) \<and> still_bound V b row \<and> status_of V row \<notin> set lifecycle_closed_states"
    using b' r by (auto simp: live_task_for_binding_def sbind_def split: sum.splits option.splits if_splits)
qed

lemma continuation_reads:
  "text_at V (continuation_row V b k sa row) ''assignee_userid'' = text_at V row ''assignee_userid''"
  "status_of V (continuation_row V b k sa row) = status_of V row"
  "text_at V (as_dict (dget (continuation_row V b k sa row) (lit ''agenda_continuation''))) ''state'' = lit ''required''"
  by (simp_all add: continuation_row_def Let_def required_by_def) (simp_all add: text_at_def dget_def)

text \<open>
  A turn that leaves its open task without a next review is not lost. When the contract at its end
  records the gap, the scanner has a reason to wake for this task at every later time, whatever its due
  date and its former review.
\<close>

theorem recorded_gap_wakes_agenda:
  assumes "task_attention_contract_status V tid now s dd = Inr (Attention_missing b)" "enforce_contract V tid now s dd = (True, dd')" "coherent V"
  shows "\<exists>row. task_row V (tb_task_id b) dd' = Inr (Some row) \<and> (\<forall>t. task_candidate_reason (lc_agenda V) t row = Some (lit ''task_continuation_required''))"
proof -
  obtain row where row: "task_row V (tb_task_id b) dd = Inr (Some row)" "still_bound V b row" "status_of V row \<notin> set lifecycle_closed_states"
    using contract_missing(2) [OF assms(1)] by blast
  note bind = ticket_binding_fields [OF contract_missing(1) [OF assms(1)]]
  obtain r where u: "update_task (lc_host V) (tb_task_id b) (continuation_row V b True (lc_utc V now)) dd = (Inr r, dd')"
    using assms(1,2) by (auto simp: enforce_contract_def record_task_continuation_required_def satisfied_def split: prod.splits sum.splits bool.splits)
  let ?row = "continuation_row V b True (lc_utc V now) row"
  have w: "task_row V (tb_task_id b) dd' = Inr (Some ?row)"
    using task_row_update [OF row(1) u bind(2) continuation_id [OF assms(3)]] by simp
  have "task_candidate_reason (lc_agenda V) t ?row = Some (lit ''task_continuation_required'')" for t
    using row(2,3) bind(3,4) by (subst reason_open) (simp_all add: continuation_reads still_bound_def)
  with w show ?thesis by blast
qed

section \<open>The contract under the write guard\<close>

text \<open>\<open>settle_public_model_terminal\<close> asks the contract when all its other checks have passed.\<close>

definition settle_turn :: "lifecycle_env \<Rightarrow> bool \<Rightarrow> public_terminal \<Rightarrow> pystr \<Rightarrow> timestamp \<Rightarrow> timestamp \<Rightarrow> service \<Rightarrow> data_dir \<Rightarrow> (bool \<times> service) \<times> data_dir" where
  "settle_turn V bridge x stamp clock now s dd =
     (let E = lc_agenda V;
          (contract, dd1) = (case map_of (sv_active s) (pt_chat_id x) of
            Some tid \<Rightarrow> if fst (settle_public_model_terminal E bridge True x stamp clock s) then enforce_contract V tid now s dd else (True, dd)
          | None \<Rightarrow> (True, dd)) in
      (settle_public_model_terminal E bridge contract x stamp clock s, dd1))"

lemma refused_update:
  assumes "guarded tasks_file dd"
  shows "\<exists>e dd1. update_task H w f dd = (Inl e, dd1) \<and> dd_docs dd1 = dd_docs dd"
proof -
  obtain z where "assert_business_write_allowed H tasks_file dd = (Inl (Store_error ''unauthorized_write''), append_ledger audit_file z dd)"
    using assms by (cases rule: assert_cases [of H tasks_file dd]) (auto simp: guarded_def assert_business_write_allowed_def)
  then show ?thesis by (simp add: update_task_def update_tasks_def update_json_def Let_def)
qed


lemma settle_refused:
  assumes "map_of (sv_active s) (pt_chat_id x) = Some tid" "fst (settle_public_model_terminal E bridge True x stamp clock s)"
  shows "fst (settle_public_model_terminal E bridge False x stamp clock s) = False \<and>
    sv_tickets (snd (settle_public_model_terminal E bridge False x stamp clock s)) =
      update_where (\<lambda>t. tk_ticket_id t = tid \<and> tk_state t = Agent_claimed)
        (write_response (failed_response Ticket_failed ''task_continuation_contract_failed'') stamp) (sv_tickets s)"
proof -
  obtain t where t: "List.find (\<lambda>t. tk_ticket_id t = tid) (sv_tickets s) = Some t" "tk_state t = Agent_claimed" "tk_message_id t = pt_message_id x"
    using assms by (auto simp: settle_public_model_terminal_def Let_def split: option.splits if_splits prod.splits bool.splits)
  have u: "\<not> framework_terminal_reply_unavailable (pt_final_reply_text x)"
    using assms t by (auto simp: settle_public_model_terminal_def Let_def split: prod.splits bool.splits)
  define y where "y = \<lparr>sg_terminal_state = state_text Ticket_completed, sg_provider_succeeded = Some True, sg_final_reply_text = pt_final_reply_text x, sg_raw_trace_ref = pt_trace_ref x\<rparr>"
  obtain s1 where s1: "service_stage_terminal E bridge tid y clock s = (True, s1)"
    using assms t u by (auto simp: settle_public_model_terminal_def Let_def y_def split: prod.splits bool.splits)
  have "sv_tickets s1 = sv_tickets s" using stage_tickets(1) [of E bridge tid y clock s] s1 by simp
  then show ?thesis using assms(1) t u s1
    by (simp add: settle_public_model_terminal_def Let_def y_def complete_from_public_terminal_def on_tickets_def)
qed

text \<open>
  Under the write guard the contract cannot record its gap. The adapter holds no write
  authorization when the turn ends; with the guard on, a turn that would have been accepted but leaves
  its task open without a next review is refused after its reply has been staged, its ticket is
  failed instead of completed, and the task list stays as it was, without the gap.
\<close>

theorem guarded_store_fails_open_task_turn:
  assumes "guard_enabled dd" "\<not> covers tasks_file (dd_active dd)" "map_of (sv_active s) (pt_chat_id x) = Some tid"
    "task_attention_contract_status V tid now s dd = Inr (Attention_missing b)"
    "fst (settle_public_model_terminal (lc_agenda V) bridge True x stamp clock s)"
    "settle_turn V bridge x stamp clock now s dd = ((accepted, s'), dd')"
  shows "\<not> accepted \<and> dd_docs dd' = dd_docs dd \<and>
    (\<forall>t\<in>set (sv_tickets s'). tk_ticket_id t = tid \<longrightarrow> tk_state t \<noteq> Agent_claimed \<and> (tk_state t = Ticket_completed \<longrightarrow> t \<in> set (sv_tickets s)))"
proof -
  have g: "guarded tasks_file dd" using assms(1,2) tasks_file_protected by (simp add: guarded_def)
  obtain e dd1 where u: "update_task (lc_host V) (tb_task_id b) (continuation_row V b True (lc_utc V now)) dd = (Inl e, dd1)" "dd_docs dd1 = dd_docs dd"
    using refused_update [OF g] by blast
  have en: "enforce_contract V tid now s dd = (False, dd1)"
    using assms(4) u(1) by (simp add: enforce_contract_def record_task_continuation_required_def satisfied_def)
  have st: "settle_turn V bridge x stamp clock now s dd = (settle_public_model_terminal (lc_agenda V) bridge False x stamp clock s, dd1)"
    using assms(3,5) en by (simp add: settle_turn_def)
  have "(settle_public_model_terminal (lc_agenda V) bridge False x stamp clock s, dd1) = ((accepted, s'), dd')"
    by (rule trans [OF st [symmetric] assms(6)])
  then have p: "settle_public_model_terminal (lc_agenda V) bridge False x stamp clock s = (accepted, s')" and d: "dd' = dd1"
    by (blast, blast)
  have refused: "accepted = False" "sv_tickets s' = update_where (\<lambda>t. tk_ticket_id t = tid \<and> tk_state t = Agent_claimed)
        (write_response (failed_response Ticket_failed ''task_continuation_contract_failed'') stamp) (sv_tickets s)"
    using settle_refused [OF assms(3,5)] unfolding p fst_conv snd_conv by blast+
  have docs: "dd_docs dd' = dd_docs dd" using u(2) d by simp
  have "tk_state t \<noteq> Agent_claimed \<and> (tk_state t = Ticket_completed \<longrightarrow> t \<in> set (sv_tickets s))"
    if in_tickets: "t \<in> set (sv_tickets s')" and id_of: "tk_ticket_id t = tid" for t
  proof -
    let ?w = "write_response (failed_response Ticket_failed ''task_continuation_contract_failed'') stamp"
    obtain r where r: "r \<in> set (sv_tickets s)" "t = (if tk_ticket_id r = tid \<and> tk_state r = Agent_claimed then ?w r else r)"
      using in_tickets unfolding refused(2) set_update_where by blast
    have written: "tk_state (?w r) = Ticket_failed" by (simp add: write_response_def failed_response_def)
    show ?thesis
    proof (cases "tk_ticket_id r = tid \<and> tk_state r = Agent_claimed")
      case True
      from trans [OF r(2) if_P [OF True]] have "t = ?w r" .
      with written show ?thesis by (simp only: ticket_state.distinct simp_thms)
    next
      case False
      from trans [OF r(2) if_not_P [OF False]] have "t = r" .
      with r(1) id_of False show ?thesis by blast
    qed
  qed
  with refused(1) docs show ?thesis by blast
qed

section \<open>Tasks that an administrator closed\<close>

text \<open>
  The task module and the agenda disagree on what a closed task is. A task that an administrator
  closed or completed, or that is done or expired, is closed for the task module; but the agenda wakes
  for it as open work, and the contract of its turn demands a next review.
\<close>

theorem admin_closed_task_is_still_woken:
  assumes "dget row (lit ''status'') = JStr status" "status \<in> set [lit ''closed_by_admin'', lit ''completed_by_admin'', lit ''done'', lit ''expired'']"
    "strip (text_at V row ''assignee_userid'') \<noteq> []" "dget row (lit ''agenda_followup'') = JNull"
    "ticket_task_binding V tid s = Some b" "task_row V (tb_task_id b) dd = Inr (Some row)" "still_bound V b row"
  shows "task_is_closed V row \<and> task_candidate_reason (lc_agenda V) now row \<noteq> None \<and>
    task_attention_contract_status V tid now s dd = Inr (Attention_missing b)"
proof -
  have st: "strip (lit x) = lit x \<and> lower (lit x) = lit x" if "x \<in> {''closed_by_admin'', ''completed_by_admin'', ''done'', ''expired''}" for x
    using that by (auto simp: strip_def lower_def is_space_def lit_def)
  obtain x where x: "status = lit x" "x \<in> {''closed_by_admin'', ''completed_by_admin'', ''done'', ''expired''}" using assms(2) by auto
  then have ne: "x \<noteq> []" by auto
  have s1: "status_of V row = status" using st [OF x(2)] assms(1) ne by (simp add: status_of_def x(1) por_def)
  have s2: "lower (strip (text_at V row ''status'')) = status" using st [OF x(2)] assms(1) by (simp add: text_at_def x(1))
  have closed: "status \<in> set closed_task_statuses" "status \<notin> set lifecycle_closed_states"
    using assms(2) by (auto simp: closed_task_statuses_def lifecycle_closed_states_def)
  have none: "text_at V (as_dict JNull) ''state'' = []" by (simp add: text_at_def dget_def str_of_def text_of_def por_def)
  have "task_candidate_reason (lc_agenda V) now row \<noteq> None"
    using closed s1 assms(3,4) none by (subst reason_open) simp_all
  moreover have "aware_time V (dget (as_dict JNull) k) = None" for k
    by (simp add: aware_time_def dget_def str_of_def text_of_def por_def)
  then have "task_attention_contract_status V tid now s dd = Inr (Attention_missing b)"
    using assms(4-7) closed(2) s1
    by (simp add: task_attention_contract_status_def live_task_for_binding_def future_attention_def Let_def)
  ultimately show ?thesis using s2 closed(1) by (simp add: task_is_closed_def)
qed

section \<open>Sample runs\<close>

lemma update_single:
  assumes "map_of (dd_docs dd) tasks_file = Some (Some (JList [JObj t]))" "assert_business_write_allowed H tasks_file dd = (Inr (), dd)"
    "strip w = w" "w \<noteq> []" "row_id H (JObj t) = w" "row_id H (JObj (f t)) = w" "encodable (json_text (ho_floats H) (JObj (f t)))"
  shows "\<exists>dd'. update_task H w f dd = (Inr (Some (f t)), dd')"
proof -
  define dd1 where "dd1 = dd\<lparr>dd_docs := AList.update tasks_file (Some (JList [JObj (f t)])) (dd_docs dd)\<rparr>"
  have v: "valid_name tasks_file" by (simp add: valid_name_def tasks_file_def) (simp add: lit_def)
  have m: "mutate_first (is_task H w) f [JObj t] = [JObj (f t)]" using assms(5) by (simp add: is_task_def is_object_def)
  have enc: "encodable (json_text (ho_floats H) (JList [JObj (f t)]))" using assms(7) by simp
  have u: "update_tasks H (mutate_first (is_task H w) f) dd = (Inr [JObj (f t)], dd1)"
    using v assms(1,2) enc by (simp add: update_tasks_def update_json_def read_json_def in_container_def as_list_def dget_def m put_doc_def dd1_def
        del: mutate_first.simps json_text.simps)
  have "load_tasks dd = Inr [JObj t]" "load_tasks dd1 = Inr [JObj (f t)]"
    using v assms(1) by (simp_all add: load_tasks_def read_json_def dd1_def update_conv')
  then show ?thesis using assms(3-6) by (simp add: update_task_def u is_task_def is_object_def)
qed

definition read_stamp :: "pystr \<Rightarrow> timestamp option" where
  "read_stamp s = (if s = lit ''T'' then Some 5000 else None)"

definition sample_lifecycle :: lifecycle_env where
  "sample_lifecycle = \<lparr>lc_agenda = sample_agenda_env\<lparr>ae_iso := read_stamp\<rparr>, lc_host = sample_host, lc_aware = read_stamp,
     lc_utc = (\<lambda>t. lit (if t = 5000 then ''T'' else ''N'')), lc_staff = (\<lambda>_. None)\<rparr>"

definition life_task :: "string \<Rightarrow> (pystr, json) dict" where
  "life_task st = [(lit ''id'', JStr (lit ''k1'')), (lit ''tenant_id'', JStr (lit ''t'')), (lit ''assignee_userid'', JStr (lit ''c1'')), (lit ''status'', JStr (lit st))]"

definition life_dir :: "bool \<Rightarrow> string \<Rightarrow> data_dir" where
  "life_dir guard st = \<lparr>dd_docs = [(guard_file, Some (JObj [(lit ''enabled'', JBool guard)])), (tasks_file, Some (JList [JObj (life_task st)]))],
     dd_ledgers = [], dd_active = None\<rparr>"

definition life_service :: service where
  "life_service = (sample_service Agent_claimed)\<lparr>
     sv_agenda := new_agenda\<lparr>as_inbox := (snd new_system)\<lparr>ib_facts := [sample_row\<lparr>f_tenant_id := lit ''t'', f_source_kind := lit ''workspace_task''\<rparr>]\<rparr>,
       as_payloads := [\<lparr>pl_payload_ref = lit ''ref'', pl_tenant_id = lit ''t'', pl_work_item_id = lit ''k1'', pl_source_version = lit ''1'',
         pl_payload = JObj [(lit ''task_id'', JStr (lit ''k1''))], pl_observed_at = 5\<rparr>]\<rparr>,
     sv_tickets := [(sample_ticket Agent_claimed)\<lparr>tk_agent_session_id := lit ''s'', tk_agent_turn_id := lit ''u''\<rparr>],
     sv_manager := sample_linked\<rparr>"

definition life_identity :: user_identity where
  "life_identity = \<lparr>ui_platform = lit ''agenda_service_work'', ui_platform_user_id = lit ''service:agenda:t'', ui_canonical_user_id = lit ''service:agenda:t'',
     ui_person_name = [], ui_role = lit ''service'', ui_approval_state = lit ''approved''\<rparr>"

definition life_turn :: turn_record where
  "life_turn = \<lparr>tr_platform = lit ''agenda_service_work'', tr_tenant_id = lit ''t'', tr_identity = life_identity, tr_chat_id = lit ''c'', tr_session_id = lit ''s'',
     tr_turn_id = lit ''u'', tr_message_id = [], tr_issued_at = 0, tr_source = [], tr_continuity_key = [], tr_host_transforms = False\<rparr>"

definition life_binding :: task_binding where
  "life_binding = \<lparr>tb_ticket_id = lit ''agenda_ticket_k'', tb_tenant_id = lit ''t'', tb_task_id = lit ''k1'', tb_recipient_id = lit ''c1'',
     tb_message_id = lit ''agenda-message:agenda_ticket_k''\<rparr>"

lemma life_fields [simp]:
  "dget (life_task st) (lit ''agenda_continuation'') = JNull" "dget (life_task st) (lit ''agenda_followup'') = JNull"
  "dget (life_task st) (lit ''id'') = JStr (lit ''k1'')" "dget (life_task st) (lit ''tenant_id'') = JStr (lit ''t'')"
  "dget (life_task st) (lit ''assignee_userid'') = JStr (lit ''c1'')" "dget (life_task st) (lit ''status'') = JStr (lit st)"
  "dget (life_task st) (lit ''agenda_contact_history'') = JNull" "dget (life_task st) (lit ''agenda_followup_history'') = JNull"
  "dget (life_task st) (lit ''agenda_continuation_history'') = JNull"
  by (simp_all add: dget_def life_task_def)

lemma life_strips: "strip (lit ''k1'') = lit ''k1''" "strip (lit ''c1'') = lit ''c1''" "strip (lit ''T'') = lit ''T''" "strip (lit ''open'') = lit ''open''"
    "lower (lit ''open'') = lit ''open''" "utc_suffix (lit ''T'') = lit ''T''"
  by (simp_all add: strip_def lit_def is_space_def lower_def utc_suffix_def)

lemma life_host [simp]: "lc_host sample_lifecycle = sample_host" "lc_agenda sample_lifecycle = sample_agenda_env\<lparr>ae_iso := read_stamp\<rparr>"
    "lc_aware sample_lifecycle = read_stamp" "lc_utc sample_lifecycle = (\<lambda>t. lit (if t = 5000 then ''T'' else ''N''))"
  by (simp_all add: sample_lifecycle_def)

lemma life_coherent: "coherent sample_lifecycle"
  by (simp add: coherent_def sample_host_def sample_agenda_env_def)

lemma life_row_id: "row_id sample_host (JObj (life_task st)) = lit ''k1''"
  by (simp add: row_id_def text_of_def por_def)

lemma life_guard: "guard_enabled (life_dir g st) = g"
  by (simp add: guard_enabled_def guard_config_def life_dir_def dget_def)

lemma life_docs: "map_of (dd_docs (life_dir g st)) tasks_file = Some (Some (JList [JObj (life_task st)]))"
  by (simp add: life_dir_def) (simp add: guard_file_def tasks_file_def)

lemma life_row: "task_row sample_lifecycle (lit ''k1'') (life_dir g st) = Inr (Some (life_task st))"
proof -
  have "valid_name tasks_file" by (simp add: valid_name_def tasks_file_def) (simp add: lit_def)
  then have "load_tasks (life_dir g st) = Inr [JObj (life_task st)]" by (simp add: load_tasks_def read_json_def life_docs)
  then show ?thesis by (simp add: task_row_def is_task_def is_object_def life_row_id)
qed

lemma life_update:
  assumes "\<And>t. row_id sample_host (JObj (f t)) = row_id sample_host (JObj t)" "encodable (json_text (ho_floats sample_host) (JObj (f (life_task st))))"
  shows "\<exists>dd'. update_task sample_host (lit ''k1'') f (life_dir False st) = (Inr (Some (f (life_task st))), dd')"
proof (rule update_single [OF life_docs])
  show "encodable (json_text (ho_floats sample_host) (JObj (f (life_task st))))" by (rule assms(2))
qed (simp_all add: assert_business_write_allowed_def life_guard life_strips assms(1) life_row_id)

lemma life_columns:
  "sv_tickets life_service = [(sample_ticket Agent_claimed)\<lparr>tk_agent_session_id := lit ''s'', tk_agent_turn_id := lit ''u''\<rparr>]"
  "work_facts life_service = [sample_row\<lparr>f_tenant_id := lit ''t'', f_source_kind := lit ''workspace_task''\<rparr>]"
  "sv_active life_service = [(lit ''c'', lit ''agenda_ticket_k'')]" "sv_manager life_service = sample_linked"
  by (simp_all add: life_service_def work_facts_def new_agenda_def new_system_def sample_service_columns sample_ticket_columns)

lemma life_payload: "ticket_payload ((sample_ticket Agent_claimed)\<lparr>tk_agent_session_id := x, tk_agent_turn_id := y\<rparr>) life_service = Inr (JObj [(lit ''task_id'', JStr (lit ''k1''))])"
  by (simp add: ticket_payload_def sample_ticket_columns life_columns) (simp add: life_service_def new_agenda_def sample_row_def new_fact_def sample_fact_def)

lemma life_bound: "binding_of_ticket sample_lifecycle (lit ''t'') ((sample_ticket Agent_claimed)\<lparr>tk_agent_session_id := x, tk_agent_turn_id := y\<rparr>)
    (JObj [(lit ''task_id'', JStr (lit ''k1''))]) = Inr life_binding"
proof -
  have "tk_destination (sample_ticket Agent_claimed) = sample_address" by (simp add: sample_ticket_def new_ticket_def Let_def)
  then show ?thesis
    by (simp add: binding_of_ticket_def text_at_def dget_def life_strips sample_address_def sample_ticket_columns life_binding_def)
qed

lemma life_current: "current_task_binding sample_lifecycle (Some life_turn) (lit ''service:agenda:t'') life_service = Inr life_binding"
  by (simp add: current_task_binding_def life_turn_def sample_hook_strips life_columns sample_ticket_columns life_payload life_bound)

lemma life_ticket: "ticket_task_binding sample_lifecycle (lit ''agenda_ticket_k'') life_service = Some life_binding"
  by (simp add: ticket_task_binding_def sample_hook_strips life_columns sample_ticket_columns life_payload life_bound) (simp add: life_binding_def)

lemma life_still_bound: "still_bound sample_lifecycle life_binding (life_task st)"
  by (simp add: still_bound_def text_at_def life_binding_def)

lemma life_open: "status_of sample_lifecycle (life_task ''open'') = lit ''open''"
  by (simp add: status_of_def life_strips por_def)

lemma life_missing: "task_attention_contract_status sample_lifecycle (lit ''agenda_ticket_k'') 3000 life_service (life_dir g ''open'') = Inr (Attention_missing life_binding)"
proof -
  have "tb_task_id life_binding = lit ''k1''" by (simp add: life_binding_def)
  moreover have "aware_time V (dget [] k) = None" for V k by (simp add: aware_time_def dget_def str_of_def text_of_def por_def)
  ultimately show ?thesis
    by (simp add: task_attention_contract_status_def life_ticket live_task_for_binding_def life_row life_still_bound life_open future_attention_def
        lifecycle_closed_states_def Let_def)
qed

lemma life_gap: "\<exists>dd'. enforce_contract sample_lifecycle (lit ''agenda_ticket_k'') 3000 life_service (life_dir False ''open'') = (True, dd')"
proof -
  let ?f = "continuation_row sample_lifecycle life_binding True (lit ''N'')"
  have ids: "row_id sample_host (JObj (?f t)) = row_id sample_host (JObj t)" for t
    using continuation_id [OF life_coherent, of life_binding True "lit ''N''" t] by simp
  have row: "?f (life_task ''open'') = life_task ''open'' @ [(lit ''agenda_continuation'', JObj [(lit ''schema_version'', JStr (lit ''xiaoyou.agenda-task-continuation.v1'')),
      (lit ''state'', JStr (lit ''required'')), (lit ''ticket_id'', JStr (lit ''agenda_ticket_k'')), (lit ''required_at'', JStr (lit ''N'')),
      (lit ''reason'', JStr (lit ''future_attention_missing''))]),
      (lit ''agenda_contact_history'', JList [staged_contact life_binding (lit ''N'')]), (lit ''updated_at'', JStr (lit ''N''))]"
    by (simp add: continuation_row_def required_by_def contacts_with_def Let_def text_at_def dict_rows_def last_of_def)
      (simp add: put_def life_task_def dget_def str_of_def text_of_def por_def life_binding_def)
  have enc: "encodable (json_text (ho_floats sample_host) (JObj (?f (life_task ''open''))))"
    unfolding row by (simp add: life_task_def staged_contact_def life_binding_def)
  obtain dd' where u: "update_task sample_host (lit ''k1'') ?f (life_dir False ''open'') = (Inr (Some (?f (life_task ''open''))), dd')"
    using life_update [OF ids enc] by blast
  have "required_by sample_lifecycle life_binding (?f (life_task ''open''))"
    unfolding row by (simp add: required_by_def Let_def text_at_def) (simp add: dget_def life_task_def life_binding_def)
  moreover have "tb_task_id life_binding = lit ''k1''" by (simp add: life_binding_def)
  ultimately show ?thesis using u
    by (simp add: enforce_contract_def life_missing satisfied_def record_task_continuation_required_def)
qed

lemma recorded_gap_wakes_agenda_witness:
  "\<exists>row dd'. enforce_contract sample_lifecycle (lit ''agenda_ticket_k'') 3000 life_service (life_dir False ''open'') = (True, dd') \<and>
    task_row sample_lifecycle (lit ''k1'') dd' = Inr (Some row) \<and>
    (\<forall>t. task_candidate_reason (lc_agenda sample_lifecycle) t row = Some (lit ''task_continuation_required''))"
proof -
  obtain dd' where e: "enforce_contract sample_lifecycle (lit ''agenda_ticket_k'') 3000 life_service (life_dir False ''open'') = (True, dd')"
    using life_gap by blast
  have "tb_task_id life_binding = lit ''k1''" by (simp add: life_binding_def)
  with recorded_gap_wakes_agenda [OF life_missing e life_coherent] e show ?thesis unfolding life_host by metis
qed

lemma guarded_store_fails_open_task_turn_witness:
  "\<exists>s' dd'. settle_turn sample_lifecycle True \<lparr>pt_chat_id = lit ''c'', pt_message_id = lit ''agenda-message:agenda_ticket_k'',
      pt_final_reply_text = lit ''ok'', pt_trace_ref = lit ''tr''\<rparr> [] 20 3000 life_service (life_dir True ''open'') = ((False, s'), dd') \<and>
    dd_docs dd' = dd_docs (life_dir True ''open'')"
proof -
  define x where "x = \<lparr>pt_chat_id = lit ''c'', pt_message_id = lit ''agenda-message:agenda_ticket_k'', pt_final_reply_text = lit ''ok'', pt_trace_ref = lit ''tr''\<rparr>"
  obtain a s' dd' where r: "settle_turn sample_lifecycle True x [] 20 3000 life_service (life_dir True ''open'') = ((a, s'), dd')" by (metis surj_pair)
  have "\<exists>s1. settle_public_model_terminal (lc_agenda sample_lifecycle) True True x [] 20 life_service = (True, s1)"
    unfolding x_def
    by (rule settle_sample [of _ "(sample_ticket Agent_claimed)\<lparr>tk_agent_session_id := lit ''s'', tk_agent_turn_id := lit ''u''\<rparr>"])
      (simp_all add: life_columns sample_ticket_columns sample_env_columns)
  then have accepted: "fst (settle_public_model_terminal (lc_agenda sample_lifecycle) True True x [] 20 life_service)" by auto
  have "\<not> a \<and> dd_docs dd' = dd_docs (life_dir True ''open'')"
    using guarded_store_fails_open_task_turn [OF _ _ _ life_missing accepted r]
    by (simp add: life_guard covers_def life_columns x_def) (simp add: life_dir_def)
  then have "a = False" and d: "dd_docs dd' = dd_docs (life_dir True ''open'')" by simp_all
  with r have "settle_turn sample_lifecycle True x [] 20 3000 life_service (life_dir True ''open'') = ((False, s'), dd')" by simp
  with d show ?thesis unfolding x_def by blast
qed


lemma admin_closed_task_is_still_woken_witness:
  "task_is_closed sample_lifecycle (life_task ''closed_by_admin'') \<and>
    task_candidate_reason (lc_agenda sample_lifecycle) 3000 (life_task ''closed_by_admin'') \<noteq> None \<and>
    task_attention_contract_status sample_lifecycle (lit ''agenda_ticket_k'') 3000 life_service (life_dir True ''closed_by_admin'') = Inr (Attention_missing life_binding)"
  by (rule admin_closed_task_is_still_woken [where status = "lit ''closed_by_admin''"])
    (simp_all add: text_at_def life_strips life_ticket life_row life_still_bound, simp_all add: life_binding_def life_row)

end
