(* ===== verification/ExecutionReceipts.thy ===== *)
theory ExecutionReceipts
  imports StoreFacts AgendaService
begin

text \<open>
  \<^verbatim>\<open>runtime/plugins/tuoguan_core/execution_receipts.py\<close>: the receipt that every business write carries. A result
  is the dictionary that a tool returned. The digest, the printer of values, the random identifier
  and the time text are arguments; a text that UTF-8 cannot encode is an exception, here \<open>None\<close>.
\<close>

section \<open>Reading a result\<close>

definition data_of :: "(pystr, json) dict \<Rightarrow> (pystr, json) dict" where
  "data_of result = as_dict (dget result (lit ''data''))"

definition present :: "json \<Rightarrow> bool" where
  "present v \<longleftrightarrow> v \<noteq> JNull \<and> v \<noteq> JStr []"

definition nested_keys :: "pystr list" where
  "nested_keys = map lit [''task'', ''goal'', ''action'', ''candidate'', ''item'', ''work_item'', ''artifact'', ''decision'', ''execution_link'',
     ''verification'', ''receipt'']"

definition first_value :: "host \<Rightarrow> (pystr, json) dict \<Rightarrow> pystr \<Rightarrow> pystr" where
  "first_value H mapping key =
     (if present (dget mapping key) then py_str (ho_render H) (dget mapping key)
      else case List.find (\<lambda>n. present (dget (as_dict (dget mapping n)) key)) nested_keys of
        Some n \<Rightarrow> py_str (ho_render H) (dget (as_dict (dget mapping n)) key)
      | None \<Rightarrow> [])"

definition object_id_keys :: "(pystr \<times> pystr) list" where
  "object_id_keys = map (\<lambda>(k, t). (lit k, lit t)) [(''task_id'', ''task''), (''goal_action_id'', ''goal_action''), (''goal_id'', ''goal''),
     (''work_item_id'', ''institution_work_item''), (''artifact_version_id'', ''institution_artifact_version''),
     (''decision_id'', ''institution_owner_decision''), (''execution_link_id'', ''institution_execution_link''),
     (''verification_id'', ''institution_verification''), (''candidate_id'', ''candidate''), (''attention_id'', ''attention_thread''),
     (''notification_id'', ''notification''), (''event_id'', ''event''), (''record_id'', ''record''), (''student_id'', ''student''),
     (''student_name'', ''student'')]"

definition nested_objects :: "(pystr \<times> pystr) list" where
  "nested_objects = map (\<lambda>(k, t). (lit k, lit t)) [(''task'', ''task''), (''goal'', ''goal''), (''action'', ''goal_action''),
     (''candidate'', ''candidate''), (''attention_thread'', ''attention_thread''), (''work_item'', ''institution_work_item''),
     (''artifact'', ''institution_artifact_version''), (''decision'', ''institution_owner_decision''),
     (''execution_link'', ''institution_execution_link''), (''verification'', ''institution_verification'')]"

definition remove_prefix :: "pystr \<Rightarrow> pystr \<Rightarrow> pystr" where
  "remove_prefix p s = (if take (length p) s = p then drop (length p) s else s)"

definition found_value :: "host \<Rightarrow> (pystr, json) dict \<Rightarrow> pystr \<Rightarrow> pystr" where
  "found_value H result key = or_else (first_value H (data_of result) key) (first_value H result key)"

definition object_identity :: "host \<Rightarrow> (pystr, json) dict \<Rightarrow> pystr \<Rightarrow> pystr \<times> pystr" where
  "object_identity H result operation =
     (case List.find (\<lambda>(k, t). found_value H result k \<noteq> []) object_id_keys of
       Some (k, t) \<Rightarrow> (t, found_value H result k)
     | None \<Rightarrow> (case List.find (\<lambda>(k, t). present (dget (as_dict (dget (data_of result) k)) (lit ''id''))) nested_objects of
         Some (k, t) \<Rightarrow> (t, py_str (ho_render H) (dget (as_dict (dget (data_of result) k)) (lit ''id'')))
       | None \<Rightarrow> (remove_prefix (lit ''update_'') (remove_prefix (lit ''submit_'') (or_else operation (lit ''business_object''))), [])))"

definition version_keys :: "pystr list" where
  "version_keys = map lit [''object_version'', ''data_version'', ''version'', ''updated_at'', ''completed_at'', ''cancelled_at'']"

definition unstable_keys :: "pystr list" where
  "unstable_keys = map lit [''rendered_text'', ''message'', ''source_text'', ''raw_text'']"

definition object_version :: "host \<Rightarrow> (pystr \<Rightarrow> pystr) \<Rightarrow> (pystr, json) dict \<Rightarrow> pystr option" where
  "object_version H sha result =
     (case List.find (\<lambda>k. found_value H result k \<noteq> []) version_keys of
       Some k \<Rightarrow> Some (found_value H result k)
     | None \<Rightarrow>
         if data_of result = [] then Some []
         else (let serialized = json_text (ho_floats H) (sort_keys (JObj (filter (\<lambda>(k, v). k \<notin> set unstable_keys) (data_of result)))) in
           if encodable serialized then Some (lit ''sha256:'' @ take 20 (sha serialized)) else None))"

definition error_layer :: "pystr \<Rightarrow> pystr" where
  "error_layer code =
     (let has = (\<lambda>ws. list_ex (\<lambda>w. contains (lit w) code) ws) in
      if take 10 code = lit ''wrong_tool'' then lit ''tool_selection''
      else if has [''permission'', ''unauthorized'', ''forbidden''] then lit ''authorization''
      else if has [''ambiguous'', ''not_found'', ''missing''] then lit ''target_resolution''
      else if has [''writeback'', ''consistency''] then lit ''writeback''
      else if has [''idempot'', ''already_in_progress''] then lit ''idempotency''
      else if has [''deliver'', ''outbox'', ''send''] then lit ''delivery''
      else if code \<noteq> [] then lit ''execution'' else [])"

section \<open>Building a receipt\<close>

record execution_receipt =
  er_receipt_id :: pystr
  er_operation_id :: pystr
  er_operation :: pystr
  er_status :: pystr
  er_object_type :: pystr
  er_object_id :: pystr
  er_object_version :: pystr
  er_idempotency_result :: pystr
  er_writeback_verified :: bool
  er_delivery_status :: pystr
  er_error_code :: pystr
  er_created_at :: pystr

definition receipt_dict :: "execution_receipt \<Rightarrow> (pystr, json) dict" where
  "receipt_dict r = [(lit ''receipt_id'', JStr (er_receipt_id r)), (lit ''operation_id'', JStr (er_operation_id r)),
     (lit ''operation'', JStr (er_operation r)), (lit ''status'', JStr (er_status r)), (lit ''object_type'', JStr (er_object_type r)),
     (lit ''object_id'', JStr (er_object_id r)), (lit ''object_version'', JStr (er_object_version r)),
     (lit ''idempotency_result'', JStr (er_idempotency_result r)), (lit ''writeback_verified'', JBool (er_writeback_verified r)),
     (lit ''delivery_status'', JStr (er_delivery_status r)), (lit ''error_layer'', JStr (error_layer (er_error_code r))),
     (lit ''error_code'', JStr (er_error_code r)), (lit ''created_at'', JStr (er_created_at r))]"

definition attach_receipt :: "(pystr, json) dict \<Rightarrow> (pystr, json) dict \<Rightarrow> (pystr, json) dict" where
  "attach_receipt receipt payload =
     (let payload1 = AList.update (lit ''execution_receipt'') (JObj receipt) payload in
      case dget payload1 (lit ''data'') of
        JObj d \<Rightarrow> AList.update (lit ''data'') (JObj (AList.update (lit ''execution_receipt'') (JObj receipt) d)) payload1
      | _ \<Rightarrow> payload1)"

definition replayed_result :: "host \<Rightarrow> (pystr, json) dict \<Rightarrow> (pystr, json) dict \<Rightarrow> (pystr, json) dict" where
  "replayed_result H prior payload =
     (let payload1 = AList.update (lit ''already_applied'') (JBool (text_of (ho_render H) (dget prior (lit ''status'')) = lit ''completed''
            \<and> truthy (dget prior (lit ''writeback_verified'')))) payload;
          payload2 = AList.update (lit ''idempotency_replay_observed'') (JBool True) payload1;
          payload3 = (case dget payload2 (lit ''data'') of
            JObj d \<Rightarrow> AList.update (lit ''data'') (JObj (AList.update (lit ''idempotency_replay_observed'') (JBool True)
              (AList.update (lit ''execution_receipt'') (JObj prior) d))) payload2
          | _ \<Rightarrow> payload2)
      in AList.update (lit ''execution_receipt'') (JObj prior) payload3)"

definition explicit_writeback :: "(pystr, json) dict \<Rightarrow> json" where
  "explicit_writeback payload = (case dget payload (lit ''writeback_verified'') of
     JNull \<Rightarrow> dget (data_of payload) (lit ''writeback_verified'') | v \<Rightarrow> v)"

definition no_write_performed :: "(pystr, json) dict \<Rightarrow> bool" where
  "no_write_performed payload \<longleftrightarrow> truthy (dget (data_of payload) (lit ''no_write_performed''))"

definition execution_status :: "host \<Rightarrow> (pystr, json) dict \<Rightarrow> pystr \<Rightarrow> pystr" where
  "execution_status H payload idempotency =
     (let action = text_of (ho_render H) (dget (data_of payload) (lit ''result_action'')) in
      if no_write_performed payload then
        (if action \<in> {lit ''clarification_needed'', lit ''wrong_tool_for_cancel_intent''} then lit ''clarification_required'' else lit ''noop'')
      else if idempotency = lit ''in_progress'' then lit ''in_progress''
      else if idempotency = lit ''replayed'' \<and> truthy (dget payload (lit ''ok'')) then lit ''completed''
      else if truthy (dget payload (lit ''ok'')) \<and> explicit_writeback payload = JBool True then lit ''completed'' else lit ''failed'')"

definition fresh_receipt :: "host \<Rightarrow> pystr \<Rightarrow> pystr \<Rightarrow> (pystr, json) dict \<Rightarrow> pystr \<Rightarrow> pystr \<Rightarrow> pystr \<Rightarrow> execution_receipt" where
  "fresh_receipt H stamp version payload operation_id operation idempotency =
     (let (kind, object_id) = object_identity H payload operation; nothing = no_write_performed payload in
      \<lparr>er_receipt_id = lit ''receipt_'' @ ho_uuid H, er_operation_id = operation_id, er_operation = operation,
       er_status = execution_status H payload idempotency, er_object_type = kind, er_object_id = (if nothing then [] else object_id),
       er_object_version = version,
       er_idempotency_result = (if nothing then lit ''not_applied'' else or_else idempotency (lit ''applied'')),
       er_writeback_verified = (\<not> nothing \<and> truthy (explicit_writeback payload)),
       er_delivery_status = py_str (ho_render H) (por (dget (data_of payload) (lit ''delivery_status'')) (por (dget payload (lit ''delivery_status'')) (JStr []))),
       er_error_code = text_of (ho_render H) (dget payload (lit ''error'')), er_created_at = stamp\<rparr>)"

definition build_execution_receipt :: "host \<Rightarrow> (pystr \<Rightarrow> pystr) \<Rightarrow> pystr \<Rightarrow> (pystr, json) dict \<Rightarrow> pystr \<Rightarrow> pystr \<Rightarrow> pystr \<Rightarrow> (pystr, json) dict option" where
  "build_execution_receipt H sha stamp payload operation_id operation idempotency =
     (case (idempotency = lit ''replayed'', dget payload (lit ''execution_receipt'')) of
       (True, JObj prior) \<Rightarrow> Some (replayed_result H prior payload)
     | _ \<Rightarrow> (case object_version H sha payload of
         None \<Rightarrow> None
       | Some version \<Rightarrow> Some (attach_receipt (receipt_dict (fresh_receipt H stamp version payload operation_id operation idempotency)) payload)))"

definition delivery_execution_receipt :: "host \<Rightarrow> pystr \<Rightarrow> (pystr, json) dict \<Rightarrow> (pystr, json) dict" where
  "delivery_execution_receipt H stamp item =
     (let text = (\<lambda>ks fallback. py_str (ho_render H) (foldr (\<lambda>k v. por (dget item (lit k)) v) ks (JStr fallback)));
          status = text [''status''] (lit ''result_unknown'') in
      receipt_dict \<lparr>er_receipt_id = lit ''receipt_'' @ ho_uuid H, er_operation_id = text [''id''] [], er_operation = lit ''send_notification'',
        er_status = status, er_object_type = lit ''notification'', er_object_id = text [''id''] [],
        er_object_version = text [''sent_at'', ''failed_at'', ''last_attempt_at''] [], er_idempotency_result = lit ''applied'',
        er_writeback_verified = True, er_delivery_status = status, er_error_code = text [''last_error'', ''suppressed_reason''] [], er_created_at = stamp\<rparr>)"

section \<open>Reading receipts back\<close>

lemma receipt_dict_reads [simp]:
  "dget (receipt_dict r) (lit ''status'') = JStr (er_status r)" "dget (receipt_dict r) (lit ''writeback_verified'') = JBool (er_writeback_verified r)"
  "dget (receipt_dict r) (lit ''operation_id'') = JStr (er_operation_id r)" "dget (receipt_dict r) (lit ''idempotency_result'') = JStr (er_idempotency_result r)"
  "dget (receipt_dict r) (lit ''error_code'') = JStr (er_error_code r)" "dget (receipt_dict r) (lit ''operation'') = JStr (er_operation r)"
  by (simp_all add: receipt_dict_def dget_def)

lemma dget_update [simp]: "dget (AList.update k v d) k' = (if k = k' then v else dget d k')"
  by (simp add: dget_def update_conv')

lemma attach_reads:
  "dget (attach_receipt r p) (lit ''execution_receipt'') = JObj r"
  "k \<notin> {''execution_receipt'', ''data''} \<Longrightarrow> dget (attach_receipt r p) (lit k) = dget p (lit k)"
  "lit k \<noteq> lit ''execution_receipt'' \<Longrightarrow> dget (data_of (attach_receipt r p)) (lit k) = dget (data_of p) (lit k)"
  by (auto simp: attach_receipt_def Let_def data_of_def split: json.split)

lemma attach_data: "is_object (dget (attach_receipt r p) (lit ''data'')) = is_object (dget p (lit ''data''))"
  by (auto simp: attach_receipt_def Let_def is_object_def split: json.split)

lemma replayed_reads:
  "dget (replayed_result H prior p) (lit ''execution_receipt'') = JObj prior"
  "k \<notin> {''execution_receipt'', ''data'', ''already_applied'', ''idempotency_replay_observed''} \<Longrightarrow> dget (replayed_result H prior p) (lit k) = dget p (lit k)"
  "dget (replayed_result H prior p) (lit ''already_applied'') = JBool (text_of (ho_render H) (dget prior (lit ''status'')) = lit ''completed''
     \<and> truthy (dget prior (lit ''writeback_verified'')))"
  by (auto simp: replayed_result_def Let_def split: json.split)

lemma build_fresh:
  assumes "build_execution_receipt H sha stamp p oid op idem = Some q" "idem \<noteq> lit ''replayed''"
  shows "\<exists>version. q = attach_receipt (receipt_dict (fresh_receipt H stamp version p oid op idem)) p"
  using assms by (auto simp: build_execution_receipt_def split: option.splits json.splits)

lemma fresh_receipt_reads:
  "er_status (fresh_receipt H stamp version p oid op idem) = execution_status H p idem"
  "er_operation_id (fresh_receipt H stamp version p oid op idem) = oid"
  "er_writeback_verified (fresh_receipt H stamp version p oid op idem) = (\<not> no_write_performed p \<and> truthy (explicit_writeback p))"
  "er_error_code (fresh_receipt H stamp version p oid op idem) = text_of (ho_render H) (dget p (lit ''error''))"
  "er_idempotency_result (fresh_receipt H stamp version p oid op idem) = (if no_write_performed p then lit ''not_applied'' else or_else idem (lit ''applied''))"
  by (simp_all add: fresh_receipt_def Let_def split: prod.split)

lemma completed_status:
  assumes "execution_status H p idem = lit ''completed''" "idem \<noteq> lit ''replayed''"
  shows "truthy (dget p (lit ''ok'')) \<and> explicit_writeback p = JBool True \<and> \<not> no_write_performed p"
  using assms by (auto simp: execution_status_def Let_def split: if_splits)

end
