(* ===== verification/AgendaPolicy.thy ===== *)
theory AgendaPolicy
  imports ExecutionReceipts TurnRegistry
begin

text \<open>
  \<^verbatim>\<open>runtime/plugins/tuoguan_core/agenda_service_policy.py\<close>: which tools and which writes a service turn may use.
  The trusted turn is the active turn of the registry; the items that the service may see, the
  sentence that goes with an error code and the time text are arguments.
\<close>

section \<open>The service identity\<close>

definition policy_prefix :: pystr where
  "policy_prefix = lit ''service:agenda:''"

definition allowed_tool_methods :: "pystr list" where
  "allowed_tool_methods = map lit [''context'', ''read_agenda_work_facts'', ''query_hermes_work_items'', ''update_hermes_work_item'',
     ''schedule_agenda_task_recheck'', ''contact_current_task_party'']"

definition allowed_update_fields :: "pystr list" where
  "allowed_update_fields = map lit [''operation_id'', ''work_item_id'', ''focus_key'', ''status'', ''focus_summary'', ''current_phase'', ''next_actions'',
     ''progress_evidence'', ''confirmed_facts'', ''completed_actions'', ''current_waiting'', ''blocked_by'', ''next_attention_at'', ''stop_reason'',
     ''update_text'', ''source_text'', ''source_message_id'']"

definition allowed_transitions :: "pystr list" where
  "allowed_transitions = map lit [''waiting'', ''blocked'', ''closed'', ''superseded'']"

definition service_write_operations :: "pystr list" where
  "service_write_operations = map lit [''update_hermes_work_item'', ''agenda_schedule_task_recheck'', ''agenda_contact_current_task_party'']"

definition is_agenda_service_identity :: "user_identity \<Rightarrow> bool" where
  "is_agenda_service_identity u \<longleftrightarrow>
     (let actor = strip (ui_canonical_user_id u); tenant = remove_prefix policy_prefix actor in
      tenant \<noteq> [] \<and> actor = policy_prefix @ tenant \<and> strip (ui_platform_user_id u) = actor \<and> strip (ui_platform u) = lit ''agenda_service_work''
      \<and> strip (ui_role u) = lit ''agenda_service'' \<and> strip (ui_approval_state u) = lit ''approved'')"

definition trusted_service_turn :: "turn_record option \<Rightarrow> user_identity \<Rightarrow> bool" where
  "trusted_service_turn turn u \<longleftrightarrow> (case turn of None \<Rightarrow> False
   | Some t \<Rightarrow> is_agenda_service_identity u \<and> tr_platform t = lit ''agenda_service_work'' \<and> actor_of t = ui_canonical_user_id u
       \<and> tr_tenant_id t = remove_prefix policy_prefix (ui_canonical_user_id u)
       \<and> tr_source t = lit ''agenda_service_work_ticket_public_hook_bridge'')"

definition agenda_shaped :: "user_identity \<Rightarrow> bool" where
  "agenda_shaped u \<longleftrightarrow> ui_platform u = lit ''agenda_service_work'' \<or> take (length policy_prefix) (ui_canonical_user_id u) = policy_prefix"

section \<open>Decisions\<close>

definition policy_audit_file :: pystr where
  "policy_audit_file = lit ''agenda_service_policy_audit.jsonl''"

definition policy_row :: "pystr \<Rightarrow> user_identity \<Rightarrow> pystr \<Rightarrow> bool \<Rightarrow> string \<Rightarrow> pystr \<Rightarrow> (pystr, json) dict" where
  "policy_row stamp u operation allowed why work_item_id =
     [(lit ''schema_version'', JInt 1), (lit ''time'', JStr stamp), (lit ''policy'', JStr (lit ''agenda_service_v1'')),
      (lit ''service_identity'', JStr (ui_canonical_user_id u)), (lit ''tenant'', JStr (remove_prefix policy_prefix (ui_canonical_user_id u))),
      (lit ''operation'', JStr operation), (lit ''work_item_id'', JStr work_item_id),
      (lit ''decision'', JStr (if allowed then lit ''allowed'' else lit ''denied'')), (lit ''reason'', JStr (lit why))]"

definition audit_policy :: "host \<Rightarrow> pystr \<Rightarrow> user_identity \<Rightarrow> pystr \<Rightarrow> bool \<Rightarrow> string \<Rightarrow> pystr \<Rightarrow> data_dir \<Rightarrow> bool \<times> data_dir" where
  "audit_policy H stamp u operation allowed why work_item_id dd =
     (case append_jsonl_verified H policy_audit_file (policy_row stamp u operation allowed why work_item_id) dd of
       (Inl _, dd1) \<Rightarrow> (False, dd1) | (Inr _, dd1) \<Rightarrow> (True, dd1))"

text \<open>A decision is the code of the denial, or \<open>None\<close>; a denial is audited, an audit failure of it changes nothing.\<close>

definition deny_with :: "host \<Rightarrow> pystr \<Rightarrow> user_identity \<Rightarrow> pystr \<Rightarrow> string \<Rightarrow> pystr \<Rightarrow> string \<Rightarrow> data_dir \<Rightarrow> pystr option \<times> data_dir" where
  "deny_with H stamp u operation why work_item_id code dd = (Some (lit code), snd (audit_policy H stamp u operation False why work_item_id dd))"

definition allow_with :: "host \<Rightarrow> pystr \<Rightarrow> user_identity \<Rightarrow> pystr \<Rightarrow> string \<Rightarrow> pystr \<Rightarrow> data_dir \<Rightarrow> pystr option \<times> data_dir" where
  "allow_with H stamp u operation why work_item_id dd =
     (case audit_policy H stamp u operation True why work_item_id dd of
       (True, dd1) \<Rightarrow> (None, dd1) | (False, dd1) \<Rightarrow> (Some (lit ''agenda_service_policy_audit_unavailable''), dd1))"

definition enforce_agenda_service_write_operation :: "host \<Rightarrow> pystr \<Rightarrow> turn_record option \<Rightarrow> user_identity \<Rightarrow> pystr \<Rightarrow> data_dir \<Rightarrow> pystr option \<times> data_dir" where
  "enforce_agenda_service_write_operation H stamp turn u operation dd =
     (if \<not> agenda_shaped u then (None, dd)
      else if \<not> is_agenda_service_identity u \<or> \<not> trusted_service_turn turn u
      then deny_with H stamp u operation ''untrusted_service_identity'' [] ''agenda_service_identity_untrusted'' dd
      else if operation \<notin> set service_write_operations
      then deny_with H stamp u operation ''write_operation_not_granted'' [] ''agenda_service_write_operation_not_granted'' dd
      else (None, dd))"

text \<open>The one item the update may touch, among the items that the service's query returned; \<open>None\<close> when the query failed.\<close>

definition visible_target :: "host \<Rightarrow> json list option \<Rightarrow> pystr \<Rightarrow> pystr \<Rightarrow> (pystr, json) dict option" where
  "visible_target H found work_item_id focus_key =
     (let items = map as_dict (filter is_object (case found of None \<Rightarrow> [] | Some xs \<Rightarrow> xs)) in
      if found = None then None
      else if work_item_id \<noteq> [] then List.find (\<lambda>i. text_of (ho_render H) (dget i (lit ''work_item_id'')) = work_item_id) items
      else if focus_key \<noteq> [] then (case items of [i] \<Rightarrow> Some i | _ \<Rightarrow> None) else None)"

definition related_staff :: "host \<Rightarrow> (pystr, json) dict \<Rightarrow> py_exn + pystr list" where
  "related_staff H item = sbind (py_iter (por (dget item (lit ''related_staff_user_ids'')) (JList []))) (\<lambda>xs. Inr (map (py_str (ho_render H)) xs))"

definition terminal_item_states :: "pystr list" where
  "terminal_item_states = [lit ''closed'', lit ''superseded'']"

definition enforce_agenda_work_item_update :: "host \<Rightarrow> pystr \<Rightarrow> turn_record option \<Rightarrow> user_identity \<Rightarrow> (pystr \<Rightarrow> json list option) \<Rightarrow> (pystr, json) dict \<Rightarrow>
    data_dir \<Rightarrow> (py_exn + pystr option) \<times> data_dir" where
  "enforce_agenda_work_item_update H stamp turn u query args dd =
     (let method = lit ''update_hermes_work_item''; text = (\<lambda>d k. text_of (ho_render H) (dget d (lit k)));
          deny = (\<lambda>why target code. case deny_with H stamp u method why target code dd of (d, dd1) \<Rightarrow> (Inr d, dd1));
          work_item_id = strip (text args ''work_item_id''); focus_key = strip (text args ''focus_key'') in
      if \<not> is_agenda_service_identity u \<or> \<not> trusted_service_turn turn u then deny ''untrusted_service_identity'' [] ''agenda_service_identity_untrusted''
      else if \<not> set (map fst args) \<subseteq> set allowed_update_fields then deny ''field_not_granted'' [] ''agenda_service_update_field_not_granted''
      else if work_item_id = [] \<and> focus_key = [] then deny ''work_item_id_missing'' [] ''agenda_service_work_item_identity_required''
      else (case visible_target H (query focus_key) work_item_id focus_key of
        None \<Rightarrow> deny ''work_item_not_entrusted'' (or_else work_item_id focus_key) ''agenda_service_work_item_not_entrusted''
      | Some item \<Rightarrow>
          (let target = or_else (text item ''work_item_id'') (or_else work_item_id focus_key);
               status = strip (text args ''status''); current = text item ''status'' in
           case related_staff H item of
             Inl e \<Rightarrow> (Inl e, dd)
           | Inr related \<Rightarrow>
               if ui_canonical_user_id u \<notin> set related then deny ''service_binding_missing'' target ''agenda_service_work_item_binding_missing''
               else if status \<noteq> [] \<and> status \<notin> set allowed_transitions then deny ''transition_not_granted'' target ''agenda_service_transition_not_granted''
               else if current \<in> set terminal_item_states \<and> status \<notin> {[], current} then deny ''terminal_reopen_denied'' target ''agenda_service_terminal_reopen_denied''
               else (case allow_with H stamp u method ''entrusted_lifecycle_update'' target dd of (d, dd1) \<Rightarrow> (Inr d, dd1)))))"

definition enforce_agenda_service_tool_call :: "host \<Rightarrow> pystr \<Rightarrow> turn_record option \<Rightarrow> user_identity \<Rightarrow> (pystr \<Rightarrow> json list option) \<Rightarrow> pystr \<Rightarrow> (pystr, json) dict \<Rightarrow>
    data_dir \<Rightarrow> (py_exn + pystr option) \<times> data_dir" where
  "enforce_agenda_service_tool_call H stamp turn u query method args dd =
     (if \<not> agenda_shaped u then (Inr None, dd)
      else if \<not> is_agenda_service_identity u \<or> \<not> trusted_service_turn turn u
      then (case deny_with H stamp u method ''untrusted_service_identity'' [] ''agenda_service_identity_untrusted'' dd of (d, dd1) \<Rightarrow> (Inr d, dd1))
      else if method \<notin> set allowed_tool_methods
      then (case deny_with H stamp u method ''tool_not_granted'' [] ''agenda_service_tool_not_granted'' dd of (d, dd1) \<Rightarrow> (Inr d, dd1))
      else if method \<noteq> lit ''update_hermes_work_item''
      then (case allow_with H stamp u method ''read_or_context_scope'' [] dd of (d, dd1) \<Rightarrow> (Inr d, dd1))
      else enforce_agenda_work_item_update H stamp turn u query args dd)"

section \<open>Passed calls\<close>

lemma deny_denies: "fst (deny_with H stamp u operation why target code dd) = Some (lit code)"
  by (simp add: deny_with_def)

lemma appended_True: "append_jsonl_verified H name row dd = (Inr r, dd') \<Longrightarrow> r = True"
  by (auto simp: append_jsonl_verified_def Let_def split: prod.splits sum.splits if_splits)

lemma policy_row_reads:
  "dget (policy_row stamp u operation allowed why target) (lit ''decision'') = JStr (if allowed then lit ''allowed'' else lit ''denied'')"
  "dget (policy_row stamp u operation allowed why target) (lit ''operation'') = JStr operation"
  by (simp_all add: policy_row_def dget_def)

lemma allow_audited:
  assumes "allow_with H stamp u operation why target dd = (None, dd')"
  shows "\<exists>row. append_jsonl_verified H policy_audit_file row dd = (Inr True, dd') \<and> dget row (lit ''decision'') = JStr (lit ''allowed'')
    \<and> dget row (lit ''operation'') = JStr operation"
proof -
  obtain r where r: "append_jsonl_verified H policy_audit_file (policy_row stamp u operation True why target) dd = (Inr r, dd')"
    using assms by (auto simp: allow_with_def audit_policy_def split: prod.splits sum.splits bool.splits)
  with appended_True [OF r] show ?thesis by (intro exI [of _ "policy_row stamp u operation True why target"]) (simp add: policy_row_reads)
qed

lemma visible_in: "visible_target H found w f = Some item \<Longrightarrow> item \<in> as_dict ` set (the found)"
proof -
  assume v: "visible_target H found w f = Some item"
  then obtain xs where xs: "found = Some xs" by (cases found) (auto simp: visible_target_def Let_def)
  define items where "items = map as_dict (filter is_object xs)"
  have "item \<in> set items"
  proof (cases "w = []")
    case False
    then have "List.find (\<lambda>i. text_of (ho_render H) (dget i (lit ''work_item_id'')) = w) items = Some item"
      using v by (simp add: visible_target_def xs items_def)
    from find_SomeD [OF this] show ?thesis by simp
  next
    case True
    then have "(case items of [i] \<Rightarrow> Some i | _ \<Rightarrow> None) = Some item"
      using v by (simp add: visible_target_def xs items_def split: if_splits)
    then show ?thesis by (auto split: list.splits)
  qed
  then have "item \<in> as_dict ` set xs" by (auto simp: items_def)
  then show ?thesis by (simp add: xs)
qed

end
