(* ===== verification/ToolOperations.thy ===== *)
theory ToolOperations
  imports AgendaPolicy
begin

text \<open>
  The write fence of \<^verbatim>\<open>runtime/plugins/tuoguan_core/tool_service.py\<close> (\<open>_operation\<close>), with the write authorization of
  \<^verbatim>\<open>runtime_foundation.py\<close>: a business write runs under an operation id, whose entry in \<open>tool_operations.json\<close>
  is claimed before and holds the result afterwards. The call is split where it runs the business
  function, so that calls may interleave. Time, random identifiers, the texts of messages and the
  parser and printer of times are arguments.
\<close>

section \<open>Inbound turns\<close>

record runtime_item =
  ri_ledger_id :: pystr
  ri_message_id :: pystr
  ri_session_id :: pystr
  ri_data_dir :: pystr
  ri_raw_text :: pystr
  ri_entered_model :: bool
  ri_completed :: bool

type_synonym pending_items = "(pystr, runtime_item) dict"

text \<open>The parts of \<open>begin_inbound\<close>, \<open>inject_model_context\<close> and \<open>_finish_runtime_turn\<close> that the authorization reads.\<close>

definition compact :: "pystr \<Rightarrow> pystr" where
  "compact s = filter (\<lambda>c. \<not> is_space c) s"

text \<open>\<open>_compact\<close> also drops the ASCII and the full-width marks at the end of a sentence.\<close>

definition sentence_marks :: "nat list" where
  "sentence_marks = [12290, 65281, 65311, 33, 63, 65307, 59]"

definition message_core :: "pystr \<Rightarrow> pystr" where
  "message_core s = rev (dropWhile (\<lambda>c. c \<in> set sentence_marks) (rev (compact s)))"

definition same_inbound :: "pystr \<Rightarrow> pystr \<Rightarrow> runtime_item \<Rightarrow> bool" where
  "same_inbound message_id data_dir i \<longleftrightarrow> \<not> ri_completed i \<and> ri_message_id i = message_id \<and> ri_data_dir i = data_dir"

definition new_inbound :: "pystr \<Rightarrow> pystr \<Rightarrow> pystr \<Rightarrow> pystr \<Rightarrow> runtime_item" where
  "new_inbound uuid message_id data_dir raw_text = \<lparr>ri_ledger_id = lit ''ledger_'' @ uuid, ri_message_id = message_id, ri_session_id = [],
     ri_data_dir = data_dir, ri_raw_text = raw_text, ri_entered_model = False, ri_completed = False\<rparr>"

definition begin_inbound :: "bool \<Rightarrow> pystr \<Rightarrow> pystr \<Rightarrow> pystr \<Rightarrow> pystr \<Rightarrow> pystr \<Rightarrow> pending_items \<Rightarrow> pending_items" where
  "begin_inbound enabled uuid message_id user_id data_dir raw_text ps =
     (if \<not> enabled then ps
      else case map_of ps user_id of
        Some i \<Rightarrow> if same_inbound message_id data_dir i then ps else AList.update user_id (new_inbound uuid message_id data_dir raw_text) ps
      | None \<Rightarrow> AList.update user_id (new_inbound uuid message_id data_dir raw_text) ps)"

definition enter_model :: "pystr \<Rightarrow> pystr \<Rightarrow> pystr \<Rightarrow> pending_items \<Rightarrow> pending_items" where
  "enter_model session_id sender_id user_message ps = (case map_of ps sender_id of
     Some i \<Rightarrow> if message_core (ri_raw_text i) \<noteq> message_core user_message then ps
       else AList.update sender_id (i\<lparr>ri_entered_model := True, ri_session_id := session_id\<rparr>) ps
   | None \<Rightarrow> ps)"

definition finish_runtime_turn :: "pystr \<Rightarrow> pystr \<Rightarrow> pending_items \<Rightarrow> pending_items" where
  "finish_runtime_turn user_id message_id ps = (case map_of ps user_id of
     Some i \<Rightarrow> if ri_message_id i = message_id then AList.delete user_id ps else ps | None \<Rightarrow> ps)"

definition supported_write_operations :: "pystr list" where
  "supported_write_operations = map lit [''record_student'', ''record_summer_lesson'', ''register_student'', ''register_summer_student'', ''create_trial_lead'',
     ''create_task'', ''cancel_task'', ''offboard_staff'', ''update_task'', ''report_safety_event'', ''change_summer_points'', ''confirm_goal'',
     ''update_goal_progress'', ''withdraw_goal'', ''submit_operational_fact'', ''confirm_operational_fact'', ''submit_person_workstyle_preference'',
     ''submit_service_relation_fact_candidate'', ''submit_profile_candidate'', ''submit_profile_candidate_correction'',
     ''submit_information_request_record'', ''submit_information_request_update'', ''advance_institution_work'', ''submit_goal_evidence'',
     ''submit_performance_evidence_candidate'', ''submit_performance_evidence_response'', ''submit_value_ledger_entry'', ''submit_gray_observation'',
     ''submit_gray_rollout_decision'', ''submit_gray_optimization_decision'', ''submit_hermes_work_item'', ''update_hermes_work_item'',
     ''submit_wakeup_request'', ''update_wakeup_request'', ''submit_due_wakeup_candidate'', ''submit_business_event'', ''submit_action_execution'',
     ''submit_institution_fact_gap'', ''submit_fact_gap_candidate'', ''submit_staff_voice_signal'', ''send_internal_message'',
     ''submit_relationship_touch_candidate'', ''submit_proactive_authorization'', ''execute_relationship_touch'', ''update_relationship_touch'',
     ''submit_goal_action'', ''update_institution_understanding'', ''submit_employee_self_review'', ''submit_industry_learning_candidate'',
     ''submit_value_progress_entry'', ''submit_agent_delegation'', ''submit_agent_delegation_result'', ''update_agent_delegation_decision'',
     ''update_attention_thread'', ''agenda_contact_current_task_party'', ''review_project_opportunity'', ''governance_claim_query_reference'',
     ''governance_claim_submit'', ''governance_claim_record'', ''governance_claim_confirm'']"

definition write_authorization_for :: "turn_record option \<Rightarrow> pystr \<Rightarrow> pystr \<Rightarrow> pending_items \<Rightarrow> runtime_item option" where
  "write_authorization_for turn user_id operation ps =
     (if operation \<notin> set supported_write_operations then None
      else case map_of ps user_id of
        None \<Rightarrow> None
      | Some i \<Rightarrow>
          (let session_user = (case turn of Some t \<Rightarrow> actor_of t | None \<Rightarrow> []); session_id = (case turn of Some t \<Rightarrow> tr_session_id t | None \<Rightarrow> []);
               same_user = (session_user \<noteq> [] \<and> session_user = user_id); same_session = (session_id \<noteq> [] \<and> session_id = ri_session_id i) in
           if ri_completed i then None
           else if \<not> ri_entered_model i \<and> \<not> (same_user \<and> (same_session \<or> ri_session_id i = [])) then None else Some i))"

section \<open>What is refused before anything is written\<close>

record tool_env =
  te_host :: host
  te_sha :: "pystr \<Rightarrow> pystr"
  te_iso :: "timestamp \<Rightarrow> pystr"
  te_parse :: "pystr \<Rightarrow> timestamp option"
  te_stamp :: pystr
  te_sentence :: "pystr \<Rightarrow> pystr"
  te_dir :: pystr

record tool_caller =
  tc_identity :: user_identity
  tc_turn :: "turn_record option"
  tc_pending :: pending_items

definition guarded_write_operations :: "pystr list" where
  "guarded_write_operations = map lit [''record_student'', ''record_summer_lesson'', ''register_student'', ''register_summer_student'', ''create_trial_lead'',
     ''create_task'', ''cancel_task'', ''offboard_staff'', ''update_task'', ''report_safety_event'', ''change_summer_points'', ''confirm_goal'',
     ''update_goal_progress'', ''withdraw_goal'', ''submit_operational_fact'', ''confirm_operational_fact'', ''submit_person_workstyle_preference'',
     ''submit_service_relation_fact_candidate'', ''submit_profile_candidate'', ''submit_profile_candidate_correction'',
     ''submit_information_request_record'', ''submit_information_request_update'', ''submit_goal_evidence'', ''submit_performance_evidence_candidate'',
     ''submit_performance_evidence_response'', ''submit_value_ledger_entry'', ''submit_gray_observation'', ''submit_gray_rollout_decision'',
     ''submit_gray_optimization_decision'', ''submit_hermes_work_item'', ''update_hermes_work_item'', ''submit_work_commitment'',
     ''update_work_commitment'', ''submit_wakeup_request'', ''update_wakeup_request'', ''submit_due_wakeup_candidate'', ''submit_business_event'',
     ''submit_action_execution'', ''submit_fact_gap_candidate'', ''submit_staff_voice_signal'', ''send_internal_message'',
     ''submit_relationship_touch_candidate'', ''submit_proactive_authorization'', ''execute_relationship_touch'', ''update_relationship_touch'',
     ''submit_goal_action'', ''update_attention_thread'', ''agenda_contact_current_task_party'', ''review_project_opportunity'',
     ''governance_claim_query_reference'', ''governance_claim_submit'', ''governance_claim_record'', ''governance_claim_confirm'',
     ''governance_claim_activate_pending_identity'']"

text \<open>
  Chinese texts are lists of code points: the ten messages that only ask to go on (``try once more'',
  ``continue'', ``good'', ``yes''), the words for ability, write, function and tool, and the words of a
  check.
\<close>

definition retry_texts :: "pystr list" where
  "retry_texts = [[20320, 20877, 35797, 19968, 19979], [20877, 35797, 19968, 19979], [35797, 19968, 19979], [32487, 32493], [32487, 32493, 21543],
     [22909, 30340], [22909], [21999], [23545], [21487, 20197]]"

definition capability_anchors :: "pystr list" where
  "capability_anchors = [[33021, 21147], [20889, 20837], [21151, 33021], [24037, 20855]]"

definition capability_check_terms :: "pystr list" where
  "capability_check_terms = [[26816, 26597], [33258, 26816], [30475, 19968, 19979], [27979, 19968, 19979], [27979, 35797], [35797, 19968, 19979],
     [27491, 24120], [33021, 29992], [21487, 29992], [24674, 22797], [19981, 33021, 29992], [33021, 19981, 33021, 29992], [21487, 19981, 21487, 29992],
     [26159, 21542], [37117, 33021], [37117, 21487, 20197]]"

definition capability_health_check :: "pystr \<Rightarrow> bool" where
  "capability_health_check compact_raw \<longleftrightarrow>
     list_ex (\<lambda>w. contains w compact_raw) capability_anchors \<and> list_ex (\<lambda>w. contains w compact_raw) capability_check_terms"

definition runtime_auth :: "tool_env \<Rightarrow> tool_caller \<Rightarrow> pystr \<Rightarrow> runtime_item option" where
  "runtime_auth E c operation = (case write_authorization_for (tc_turn c) (ui_canonical_user_id (tc_identity c)) operation (tc_pending c) of
     Some i \<Rightarrow> if ri_data_dir i \<noteq> [] \<and> ri_data_dir i \<noteq> te_dir E then None else Some i | None \<Rightarrow> None)"

definition refused_text :: "pystr option \<Rightarrow> pystr \<Rightarrow> string option" where
  "refused_text raw operation =
     (let compact_raw = (case raw of Some s \<Rightarrow> compact s | None \<Rightarrow> []) in
      if compact_raw \<in> set retry_texts \<and> operation \<in> set guarded_write_operations then Some ''ambiguous_retry_write_not_executed''
      else if capability_health_check compact_raw \<and> operation \<in> set guarded_write_operations then Some ''capability_self_check_write_not_executed''
      else None)"

section \<open>The entry of an operation\<close>

definition operations_file :: pystr where
  "operations_file = lit ''tool_operations.json''"

definition operation_key :: "tool_caller \<Rightarrow> pystr \<Rightarrow> pystr \<Rightarrow> pystr" where
  "operation_key c operation key = ui_canonical_user_id (tc_identity c) @ lit '':'' @ operation @ lit '':'' @ key"

datatype claim_state = Existing "(pystr, json) dict" | In_progress | Take

definition claim_lease :: rat where
  "claim_lease = 10 * 60"

definition claim_state_of :: "tool_env \<Rightarrow> timestamp \<Rightarrow> pystr \<Rightarrow> json \<Rightarrow> claim_state" where
  "claim_state_of E now rkey receipts = (case dget (as_dict receipts) rkey of
     JObj existing \<Rightarrow>
       (case dget existing (lit ''result'') of
          JObj result \<Rightarrow> Existing result
        | _ \<Rightarrow>
            if text_of (ho_render (te_host E)) (dget existing (lit ''status'')) = lit ''in_progress''
            then (case te_parse E (text_of (ho_render (te_host E)) (dget existing (lit ''claimed_at''))) of
                Some claimed_at \<Rightarrow> if now - claimed_at < claim_lease then In_progress else Take
              | None \<Rightarrow> Take)
            else Take)
   | _ \<Rightarrow> Take)"

definition claim_entry :: "tool_env \<Rightarrow> tool_caller \<Rightarrow> pystr \<Rightarrow> pystr \<Rightarrow> timestamp \<Rightarrow> (pystr, json) dict" where
  "claim_entry E c operation key now = [(lit ''actor'', JStr (ui_canonical_user_id (tc_identity c))), (lit ''operation'', JStr operation),
     (lit ''operation_id'', JStr key), (lit ''status'', JStr (lit ''in_progress'')), (lit ''claimed_at'', JStr (te_iso E now))]"

definition finished_entry :: "tool_env \<Rightarrow> tool_caller \<Rightarrow> pystr \<Rightarrow> pystr \<Rightarrow> timestamp \<Rightarrow> (pystr, json) dict \<Rightarrow> (pystr, json) dict" where
  "finished_entry E c operation key now result = [(lit ''actor'', JStr (ui_canonical_user_id (tc_identity c))), (lit ''operation'', JStr operation),
     (lit ''operation_id'', JStr key),
     (lit ''status'', JStr (or_else (text_of (ho_render (te_host E)) (dget (as_dict (dget result (lit ''execution_receipt''))) (lit ''status'')))
        (if truthy (dget result (lit ''ok'')) then lit ''completed'' else lit ''failed''))),
     (lit ''created_at'', JStr (te_iso E now)), (lit ''result'', JObj result)]"

definition operation_auth :: "tool_env \<Rightarrow> pystr \<Rightarrow> pystr \<Rightarrow> pystr list \<Rightarrow> write_authorization" where
  "operation_auth E key ledger_id files = \<lparr>wa_source = lit ''trusted_tool'', wa_operation_id = key, wa_ledger_id = ledger_id,
     wa_audit_id = lit ''audit_write_authorized_'' @ ho_uuid (te_host E), wa_allowed_files = files\<rparr>"

definition put_entry :: "pystr \<Rightarrow> (pystr, json) dict \<Rightarrow> json \<Rightarrow> json" where
  "put_entry rkey entry receipts = JObj (AList.update rkey (JObj entry) (as_dict receipts))"

definition operations_doc :: "data_dir \<Rightarrow> json" where
  "operations_doc dd = (case read_json operations_file (JObj []) dd of Inr v \<Rightarrow> v | Inl _ \<Rightarrow> JNull)"

definition claim_receipt :: "tool_env \<Rightarrow> tool_caller \<Rightarrow> pystr \<Rightarrow> pystr \<Rightarrow> pystr \<Rightarrow> timestamp \<Rightarrow> (data_dir, store_error, claim_state) op" where
  "claim_receipt E c operation key ledger_id now dd =
     (let rkey = operation_key c operation key in
      case authorized_business_write (operation_auth E key ledger_id [operations_file])
          (update_json (te_host E) operations_file (JObj []) (\<lambda>receipts. Inr (case claim_state_of E now rkey receipts of
             Take \<Rightarrow> Some (put_entry rkey (claim_entry E c operation key now) receipts) | _ \<Rightarrow> None))) dd of
        (Inl e, dd1) \<Rightarrow> (Inl e, dd1)
      | (Inr _, dd1) \<Rightarrow> (Inr (claim_state_of E now rkey (operations_doc dd)), dd1))"

definition finish_receipt :: "tool_env \<Rightarrow> tool_caller \<Rightarrow> pystr \<Rightarrow> pystr \<Rightarrow> pystr \<Rightarrow> timestamp \<Rightarrow> (pystr, json) dict \<Rightarrow> (data_dir, store_error, unit) op" where
  "finish_receipt E c operation key ledger_id now result dd =
     (case authorized_business_write (operation_auth E key ledger_id [operations_file])
        (update_json (te_host E) operations_file (JObj []) (\<lambda>receipts. Inr (Some (put_entry (operation_key c operation key)
           (finished_entry E c operation key now result) receipts)))) dd of
      (Inl e, dd1) \<Rightarrow> (Inl e, dd1) | (Inr _, dd1) \<Rightarrow> (Inr (), dd1))"

section \<open>The operation\<close>

datatype op_error = Op_store store_error | Op_encoding

definition error_result :: "tool_env \<Rightarrow> pystr \<Rightarrow> (pystr, json) dict" where
  "error_result E code = [(lit ''ok'', JBool False), (lit ''error'', JStr code), (lit ''message'', JStr (te_sentence E code)), (lit ''data'', JObj [])]"

definition answer :: "tool_env \<Rightarrow> (pystr, json) dict \<Rightarrow> pystr \<Rightarrow> pystr \<Rightarrow> string \<Rightarrow> op_error + (pystr, json) dict" where
  "answer E result key operation idempotency = (case build_execution_receipt (te_host E) (te_sha E) (te_stamp E) result key operation (lit idempotency) of
     None \<Rightarrow> Inl Op_encoding | Some r \<Rightarrow> Inr r)"

text \<open>A failed result of an older ledger that claims to be applied is read as unknown.\<close>

definition normalize_unverified :: "host \<Rightarrow> (pystr, json) dict \<Rightarrow> (pystr, json) dict" where
  "normalize_unverified H result = (case dget result (lit ''execution_receipt'') of
     JObj receipt \<Rightarrow>
       if py_str (ho_render H) (por (dget result (lit ''error'')) (por (dget receipt (lit ''error_code'')) (JStr []))) = lit ''system_error''
         \<and> text_of (ho_render H) (dget receipt (lit ''status'')) = lit ''failed'' \<and> \<not> truthy (dget receipt (lit ''writeback_verified''))
         \<and> text_of (ho_render H) (dget receipt (lit ''idempotency_result'')) \<in> {lit ''applied'', lit ''replayed''}
       then (let corrected = AList.update (lit ''idempotency_result'') (JStr (lit ''result_unknown'')) receipt;
                 result1 = AList.update (lit ''execution_truth_projection'') (JStr (lit ''legacy_unverified_exception_result_unknown''))
                   (AList.update (lit ''already_applied'') (JBool False) (AList.update (lit ''execution_receipt'') (JObj corrected) result)) in
             case dget result1 (lit ''data'') of
               JObj d \<Rightarrow> AList.update (lit ''data'') (JObj (AList.update (lit ''execution_receipt'') (JObj corrected) d)) result1
             | _ \<Rightarrow> result1)
       else result
   | _ \<Rightarrow> result)"

definition replay :: "tool_env \<Rightarrow> (pystr, json) dict \<Rightarrow> pystr \<Rightarrow> pystr \<Rightarrow> op_error + (pystr, json) dict" where
  "replay E stored key operation =
     (let result = normalize_unverified (te_host E) stored; prior = as_dict (dget result (lit ''execution_receipt'')) in
      answer E (AList.update (lit ''already_applied'') (JBool (text_of (ho_render (te_host E)) (dget prior (lit ''status'')) = lit ''completed''
        \<and> truthy (dget prior (lit ''writeback_verified'')))) result) key operation ''replayed'')"

datatype begun = Answered "(pystr, json) dict" | Execute pystr

definition refuse :: "tool_env \<Rightarrow> pystr \<Rightarrow> pystr \<Rightarrow> pystr \<Rightarrow> string \<Rightarrow> (data_dir, op_error, begun) op" where
  "refuse E code key operation idempotency dd =
     (case answer E (error_result E code) key operation idempotency of Inl e \<Rightarrow> (Inl e, dd) | Inr r \<Rightarrow> (Inr (Answered r), dd))"

definition record_unauthorized_tool_attempt :: "tool_env \<Rightarrow> tool_caller \<Rightarrow> pystr \<Rightarrow> pystr \<Rightarrow> data_dir \<Rightarrow> data_dir" where
  "record_unauthorized_tool_attempt E c operation key = append_audit_row (te_host E) (critical_row (te_host E)
     [(lit ''operation'', JStr operation), (lit ''operation_id'', JStr key), (lit ''actor_user_id'', JStr (ui_canonical_user_id (tc_identity c))),
      (lit ''reason'', JStr (lit ''missing_or_mismatched_active_runtime_context''))])"

definition claim_or_replay :: "tool_env \<Rightarrow> tool_caller \<Rightarrow> pystr \<Rightarrow> pystr \<Rightarrow> timestamp \<Rightarrow> (data_dir, op_error, begun) op" where
  "claim_or_replay E c key operation now dd =
     (let ledger_id = (case runtime_auth E c operation of Some i \<Rightarrow> ri_ledger_id i | None \<Rightarrow> lit ''test_or_offline_runtime'') in
      case claim_receipt E c operation key ledger_id now dd of
        (Inl e, dd1) \<Rightarrow> (Inl (Op_store e), dd1)
      | (Inr (Existing stored), dd1) \<Rightarrow> (case replay E stored key operation of Inl e \<Rightarrow> (Inl e, dd1) | Inr r \<Rightarrow> (Inr (Answered r), dd1))
      | (Inr In_progress, dd1) \<Rightarrow> refuse E (lit ''operation_already_in_progress'') key operation ''in_progress'' dd1
      | (Inr Take, dd1) \<Rightarrow> (Inr (Execute ledger_id), dd1))"

definition operation_begin :: "tool_env \<Rightarrow> tool_caller \<Rightarrow> pystr \<Rightarrow> pystr \<Rightarrow> timestamp \<Rightarrow> (data_dir, op_error, begun) op" where
  "operation_begin E c operation_id operation now dd =
     (let key = strip operation_id in
      if key = [] then refuse E (lit ''operation_id_required'') [] operation ''rejected'' dd
      else case enforce_agenda_service_write_operation (te_host E) (te_stamp E) (tc_turn c) (tc_identity c) operation dd of
        (Some code, dd1) \<Rightarrow> refuse E code key operation ''rejected'' dd1
      | (None, dd1) \<Rightarrow>
          (case refused_text (map_option ri_raw_text (runtime_auth E c operation)) operation of
             Some code \<Rightarrow> refuse E (lit code) key operation ''rejected'' dd1
           | None \<Rightarrow>
               if guard_enabled dd1 \<and> runtime_auth E c operation = None
               then refuse E (lit ''unauthorized_write_blocked'') key operation ''rejected'' (record_unauthorized_tool_attempt E c operation key dd1)
               else claim_or_replay E c key operation now dd1))"

text \<open>What the business function raised, by class name and message; a domain error keeps its code.\<close>

datatype raised = Raised string pystr

definition stable_errors :: "string list" where
  "stable_errors = [''GovernanceError'', ''ClaimError'', ''IdentityAuthorityError'', ''AgendaTaskLifecycleError'']"

definition code_char :: "nat \<Rightarrow> bool" where
  "code_char n \<longleftrightarrow> 97 \<le> n \<and> n \<le> 122 \<or> 48 \<le> n \<and> n \<le> 57 \<or> n \<in> {95, 58, 45}"

definition executed_result :: "tool_env \<Rightarrow> raised + (pystr, json) dict \<Rightarrow> (pystr, json) dict" where
  "executed_result E outcome = (case outcome of
     Inr result \<Rightarrow> result
   | Inl (Raised name text) \<Rightarrow>
       (let code = strip text; stable = (name \<in> set stable_errors \<and> code \<noteq> [] \<and> list_all code_char code) in
        AList.update (lit ''diagnostic_type'') (JStr (lit name)) (error_result E (if stable then code else lit ''system_error''))))"

definition verified_result :: "tool_env \<Rightarrow> (pystr, json) dict \<Rightarrow> (pystr, json) dict" where
  "verified_result E result =
     (let result1 = (if truthy (dget result (lit ''ok'')) \<and> \<not> no_write_performed result \<and> explicit_writeback result \<noteq> JBool True
        then AList.update (lit ''message'') (JStr (te_sentence E (lit ''writeback_consistency_failed'')))
          (AList.update (lit ''error'') (JStr (lit ''writeback_consistency_failed'')) (AList.update (lit ''ok'') (JBool False) result))
        else result) in
      if truthy (dget result1 (lit ''ok'')) then AList.update (lit ''already_applied'') (JBool False) result1 else result1)"

definition idempotency_outcome :: "host \<Rightarrow> (pystr, json) dict \<Rightarrow> string" where
  "idempotency_outcome H result =
     (if truthy (dget result (lit ''ok'')) then (if no_write_performed result then ''not_applied'' else ''applied'')
      else if text_of (ho_render H) (dget result (lit ''error'')) \<in> {lit ''system_error'', lit ''writeback_consistency_failed''}
      then ''result_unknown'' else ''not_applied'')"

definition operation_result :: "tool_env \<Rightarrow> pystr \<Rightarrow> pystr \<Rightarrow> raised + (pystr, json) dict \<Rightarrow> op_error + (pystr, json) dict" where
  "operation_result E key operation outcome =
     (let result = verified_result E (executed_result E outcome) in
      answer E result key operation (idempotency_outcome (te_host E) result))"

definition operation_end :: "tool_env \<Rightarrow> tool_caller \<Rightarrow> pystr \<Rightarrow> pystr \<Rightarrow> pystr \<Rightarrow> raised + (pystr, json) dict \<Rightarrow> timestamp \<Rightarrow> (data_dir, op_error, (pystr, json) dict) op" where
  "operation_end E c operation_id operation ledger_id outcome now dd =
     (let key = strip operation_id in
      case operation_result E key operation outcome of
        Inl e \<Rightarrow> (Inl e, dd)
      | Inr result \<Rightarrow> (case finish_receipt E c operation key ledger_id now result dd of
          (Inl e, dd1) \<Rightarrow> (Inl (Op_store e), dd1) | (Inr _, dd1) \<Rightarrow> (Inr result, dd1)))"

definition tool_operation :: "tool_env \<Rightarrow> tool_caller \<Rightarrow> pystr \<Rightarrow> pystr \<Rightarrow> (data_dir, raised, (pystr, json) dict) op \<Rightarrow> timestamp \<Rightarrow> timestamp \<Rightarrow>
    (data_dir, op_error, (pystr, json) dict) op" where
  "tool_operation E c operation_id name execute now finished dd = (case operation_begin E c operation_id name now dd of
     (Inl e, dd1) \<Rightarrow> (Inl e, dd1)
   | (Inr (Answered r), dd1) \<Rightarrow> (Inr r, dd1)
   | (Inr (Execute ledger_id), dd1) \<Rightarrow>
       (case authorized_business_write (operation_auth E (strip operation_id) ledger_id []) execute dd1 of
          (outcome, dd2) \<Rightarrow> operation_end E c operation_id name ledger_id outcome finished dd2))"

end
