(* ===== verification/ToolFacts.thy ===== *)
theory ToolFacts
  imports ToolOperations TaskTypes
begin

text \<open>
  What the write fence promises: an operation id runs at most once while its claim is held and never
  again once its result is stored, a repeated call returns the stored truth, and success needs a
  verified write.
\<close>

section \<open>Claims\<close>

definition entry_of :: "pystr \<Rightarrow> data_dir \<Rightarrow> json" where
  "entry_of rkey dd = dget (as_dict (operations_doc dd)) rkey"

lemma operations_valid [simp]: "valid_name operations_file"
  by (simp add: valid_name_def operations_file_def) (simp add: lit_def)

lemma doc_docs: "dd_docs dd' = dd_docs dd \<Longrightarrow> operations_doc dd' = operations_doc dd"
  by (simp add: operations_doc_def read_json_def)

lemma doc_written: "dd_docs dd' = AList.update operations_file (Some v) (dd_docs dd) \<Longrightarrow> operations_doc dd' = v"
  by (simp add: operations_doc_def read_json_def update_conv')

lemma claim_cases:
  assumes "claim_receipt E c op key ledger now dd = (r, dd')"
  obtains (failed) e where "r = Inl e" "operations_doc dd' = operations_doc dd" "dd_docs dd' = dd_docs dd" "dd_active dd' = dd_active dd"
    | (known) s where "r = Inr s" "s = claim_state_of E now (operation_key c op key) (operations_doc dd)" "s \<noteq> Take"
        "dd_docs dd' = dd_docs dd" "operations_doc dd' = operations_doc dd" "dd_active dd' = dd_active dd"
    | (taken) "r = Inr Take" "claim_state_of E now (operation_key c op key) (operations_doc dd) = Take"
        "operations_doc dd' = put_entry (operation_key c op key) (claim_entry E c op key now) (operations_doc dd)" "dd_active dd' = dd_active dd"
proof -
  define upd where "upd = (\<lambda>receipts. Inr (case claim_state_of E now (operation_key c op key) receipts of
             Take \<Rightarrow> Some (put_entry (operation_key c op key) (claim_entry E c op key now) receipts) | _ \<Rightarrow> None) :: store_error + json option)"
  obtain r' d where u: "authorized_business_write (operation_auth E key ledger [operations_file]) (update_json (te_host E) operations_file (JObj []) upd) dd = (r', d)"
    by fastforce
  have e: "(r, dd') = (case r' of Inl e \<Rightarrow> (Inl e, d) | Inr _ \<Rightarrow> (Inr (claim_state_of E now (operation_key c op key) (operations_doc dd)), d))"
    using assms u by (simp add: claim_receipt_def Let_def upd_def split: sum.splits)
  have doc: "read_json operations_file (JObj []) dd = Inr v \<Longrightarrow> operations_doc dd = v" for v by (simp add: operations_doc_def)
  show thesis
    using u
  proof (cases rule: authorized_update_cases)
    case (failed e')
    then have "r = Inl e'" "dd' = d" using e by simp_all
    then show ?thesis using that(1) doc_docs [OF failed(2)] failed(2,3) by simp
  next
    case (kept v)
    then have "claim_state_of E now (operation_key c op key) (operations_doc dd) \<noteq> Take" using doc by (auto simp: upd_def split: claim_state.splits)
    moreover have "r = Inr (claim_state_of E now (operation_key c op key) (operations_doc dd))" "dd' = d" using e kept(1) by simp_all
    ultimately show ?thesis using that(2) kept(4,5) doc_docs [OF kept(4)] by simp
  next
    case (written v w)
    then have "claim_state_of E now (operation_key c op key) v = Take" "w = put_entry (operation_key c op key) (claim_entry E c op key now) v"
      by (auto simp: upd_def split: claim_state.splits)
    moreover have "r = Inr (claim_state_of E now (operation_key c op key) (operations_doc dd))" "dd' = d" using e written(1) by simp_all
    ultimately show ?thesis using that(3) doc [OF written(2)] doc_written [OF written(4)] written(5) by simp
  qed
qed

lemma finish_cases:
  assumes "finish_receipt E c op key ledger now result dd = (r, dd')"
  obtains (failed) e where "r = Inl e" "operations_doc dd' = operations_doc dd" "dd_active dd' = dd_active dd"
    | (stored) "r = Inr ()" "operations_doc dd' = put_entry (operation_key c op key) (finished_entry E c op key now result) (operations_doc dd)" "dd_active dd' = dd_active dd"
proof -
  define upd where "upd = (\<lambda>receipts. Inr (Some (put_entry (operation_key c op key) (finished_entry E c op key now result) receipts)) :: store_error + json option)"
  obtain r' d where u: "authorized_business_write (operation_auth E key ledger [operations_file]) (update_json (te_host E) operations_file (JObj []) upd) dd = (r', d)"
    by fastforce
  have e: "(r, dd') = (case r' of Inl e \<Rightarrow> (Inl e, d) | Inr _ \<Rightarrow> (Inr (), d))"
    using assms u by (simp add: finish_receipt_def upd_def split: sum.splits)
  show thesis
    using u
  proof (cases rule: authorized_update_cases)
    case (failed e')
    then have "r = Inl e'" "dd' = d" using e by simp_all
    then show ?thesis using that(1) doc_docs [OF failed(2)] failed(3) by simp
  next
    case (kept v)
    then show ?thesis by (simp add: upd_def)
  next
    case (written v w)
    then have "w = put_entry (operation_key c op key) (finished_entry E c op key now result) (operations_doc dd)"
      by (auto simp: upd_def operations_doc_def)
    moreover have "r = Inr ()" "dd' = d" using e written(1) by simp_all
    ultimately show ?thesis using that(2) doc_written [OF written(4)] written(5) by simp
  qed
qed

lemma put_entry_reads: "dget (as_dict (put_entry k entry doc)) k' = (if k = k' then JObj entry else dget (as_dict doc) k')"
  by (simp add: put_entry_def)

section \<open>What an entry keeps\<close>

definition stored_result :: "pystr \<Rightarrow> data_dir \<Rightarrow> bool" where
  "stored_result rkey dd \<longleftrightarrow> (case entry_of rkey dd of JObj e \<Rightarrow> is_object (dget e (lit ''result'')) | _ \<Rightarrow> False)"

definition claimed_after :: "(pystr \<Rightarrow> timestamp option) \<Rightarrow> pystr \<Rightarrow> timestamp \<Rightarrow> data_dir \<Rightarrow> bool" where
  "claimed_after parse rkey t dd \<longleftrightarrow> stored_result rkey dd \<or> (case entry_of rkey dd of
     JObj e \<Rightarrow> dget e (lit ''status'') = JStr (lit ''in_progress'') \<and> (\<exists>s x. dget e (lit ''claimed_at'') = JStr s \<and> parse s = Some x \<and> t - 1 < x)
   | _ \<Rightarrow> False)"

lemma stored_cong: "operations_doc dd' = operations_doc dd \<Longrightarrow> stored_result k dd' = stored_result k dd"
  by (simp add: stored_result_def entry_of_def)

lemma claimed_cong: "operations_doc dd' = operations_doc dd \<Longrightarrow> claimed_after p k t dd' = claimed_after p k t dd"
  by (simp add: claimed_after_def stored_result_def entry_of_def)

lemma stored_claim_state: "stored_result k dd \<Longrightarrow> \<exists>r. claim_state_of E now k (operations_doc dd) = Existing r"
  by (auto simp: stored_result_def entry_of_def claim_state_of_def is_object_def split: json.splits)

lemma claimed_claim_state:
  assumes "claimed_after (te_parse E) k t dd" "now \<le> t + (claim_lease - 1)"
  shows "claim_state_of E now k (operations_doc dd) \<noteq> Take"
proof (cases "stored_result k dd")
  case True
  then show ?thesis using stored_claim_state by (metis claim_state.distinct(3))
next
  case False
  then obtain e s x where e: "dget (as_dict (operations_doc dd)) k = JObj e" "dget e (lit ''status'') = JStr (lit ''in_progress'')"
    "dget e (lit ''claimed_at'') = JStr s" "te_parse E s = Some x" "t - 1 < x"
    using assms(1) by (auto simp: claimed_after_def entry_of_def split: json.splits)
  have "\<not> is_object (dget e (lit ''result''))" using False e(1) by (simp add: stored_result_def entry_of_def)
  moreover have "now - x < claim_lease" using e(5) assms(2) by simp
  ultimately show ?thesis using e by (auto simp: claim_state_of_def text_of_def por_def is_object_def split: json.splits)
qed

lemma entry_put: "operations_doc dd' = put_entry k entry (operations_doc dd) \<Longrightarrow> entry_of k' dd' = (if k = k' then JObj entry else entry_of k' dd)"
  by (simp add: entry_of_def put_entry_reads)

lemma finished_reads: "dget (finished_entry E c op key now result) (lit ''result'') = JObj result"
  by (simp add: finished_entry_def dget_def)

lemma claim_entry_reads: "dget (claim_entry E c op key now) (lit ''status'') = JStr (lit ''in_progress'')"
    "dget (claim_entry E c op key now) (lit ''claimed_at'') = JStr (te_iso E now)" "dget (claim_entry E c op key now) (lit ''result'') = JNull"
  by (simp_all add: claim_entry_def dget_def)

section \<open>The machine of operations\<close>

text \<open>Calls of any callers, split where they execute, and any other operation of the store.\<close>

datatype op_event =
    Begin tool_env tool_caller pystr pystr timestamp
  | End tool_env tool_caller pystr pystr pystr "raised + (pystr, json) dict" timestamp
  | Command store_cmd

fun op_step :: "op_event \<Rightarrow> data_dir \<Rightarrow> data_dir" where
  "op_step (Begin E c oid name now) dd = snd (operation_begin E c oid name now dd)"
| "op_step (End E c oid name ledger outcome now) dd = snd (operation_end E c oid name ledger outcome now dd)"
| "op_step (Command c) dd = store_step c dd"

lemma refuse_frame: "refuse E code key name idem dd = (r, dd') \<Longrightarrow> dd' = dd \<and> (\<forall>l. r \<noteq> Inr (Execute l))"
  by (auto simp: refuse_def split: sum.splits)

lemma policy_docs: "dd_docs (snd (enforce_agenda_service_write_operation H stamp turn u name dd)) = dd_docs dd"
proof -
  have "dd_docs (snd (audit_policy H stamp u name a why w dd)) = dd_docs dd" for a why w
    using ledger_keeps_docs(1) by (simp add: audit_policy_def split: prod.split sum.split) (metis snd_conv)
  then show ?thesis by (simp add: enforce_agenda_service_write_operation_def deny_with_def)
qed

lemma operation_begin_cases:
  assumes "operation_begin E c oid name now dd = (r, dd')"
  obtains (other) "\<forall>l. r \<noteq> Inr (Execute l)" "operations_doc dd' = operations_doc dd"
    | (run) l where "r = Inr (Execute l)" "claim_state_of E now (operation_key c name (strip oid)) (operations_doc dd) = Take"
        "operations_doc dd' = put_entry (operation_key c name (strip oid)) (claim_entry E c name (strip oid) now) (operations_doc dd)"
proof -
  obtain d dd1 where p: "enforce_agenda_service_write_operation (te_host E) (te_stamp E) (tc_turn c) (tc_identity c) name dd = (d, dd1)" by fastforce
  have doc1: "operations_doc dd1 = operations_doc dd" using doc_docs policy_docs p by (metis snd_conv)
  have audit: "operations_doc (record_unauthorized_tool_attempt E c name key dd1) = operations_doc dd" for key
    using doc1 doc_docs by (simp add: record_unauthorized_tool_attempt_def append_audit_row_def operations_doc_def read_json_def)
  show thesis
  proof (cases "\<exists>l. r = Inr (Execute l)")
    case False
    have "operations_doc dd' = operations_doc dd"
    proof (cases "\<exists>ledger s dd2. claim_receipt E c name (strip oid) ledger now dd1 = (s, dd2) \<and> dd' = dd2 \<and> s \<noteq> Inr Take")
      case True
      then obtain ledger s dd2 where cl: "claim_receipt E c name (strip oid) ledger now dd1 = (s, dd2)" "dd' = dd2" "s \<noteq> Inr Take" by blast
      from cl(1) show ?thesis by (cases rule: claim_cases) (use cl doc1 in auto)
    next
      case outer: False
      define ledger where "ledger = (case runtime_auth E c name of Some i \<Rightarrow> ri_ledger_id i | None \<Rightarrow> lit ''test_or_offline_runtime'')"
      obtain s dd2 where cl: "claim_receipt E c name (strip oid) ledger now dd1 = (s, dd2)" by fastforce
      have "claim_or_replay E c (strip oid) name now dd1 = (r, dd') \<Longrightarrow> dd' = dd2 \<and> s \<noteq> Inr Take"
        using cl False unfolding claim_or_replay_def Let_def ledger_def [symmetric]
        by (auto dest!: refuse_frame split: sum.splits claim_state.splits)
      then show ?thesis using assms p outer cl doc1 audit
        by (auto simp: operation_begin_def Let_def dest!: refuse_frame split: if_splits option.splits)
    qed
    then show ?thesis using False that(1) by blast
  next
    case True
    then obtain l where r: "r = Inr (Execute l)" by blast
    define ledger where "ledger = (case runtime_auth E c name of Some i \<Rightarrow> ri_ledger_id i | None \<Rightarrow> lit ''test_or_offline_runtime'')"
    obtain s dd2 where cl: "claim_receipt E c name (strip oid) ledger now dd1 = (s, dd2)" by fastforce
    have cr: "claim_or_replay E c (strip oid) name now dd1 = (r, dd')"
      using assms p r by (auto simp: operation_begin_def Let_def dest!: refuse_frame split: if_splits option.splits)
    then have "s = Inr Take" "dd' = dd2"
      using cl r unfolding claim_or_replay_def Let_def ledger_def [symmetric]
      by (auto dest!: refuse_frame split: sum.splits claim_state.splits)
    with cl show ?thesis by (cases rule: claim_cases) (use that(2) r doc1 in auto)
  qed
qed

lemma operation_end_cases:
  assumes "operation_end E c oid name ledger outcome now dd = (r, dd')"
  obtains (failed) e where "r = Inl e" "operations_doc dd' = operations_doc dd"
    | (stored) result where "r = Inr result" "operation_result E (strip oid) name outcome = Inr result"
        "operations_doc dd' = put_entry (operation_key c name (strip oid)) (finished_entry E c name (strip oid) now result) (operations_doc dd)"
proof (cases "operation_result E (strip oid) name outcome")
  case (Inl e)
  then have "r = Inl e" "dd' = dd" if "operation_result E (strip oid) name outcome = Inl e" for e
    using assms that by (simp_all add: operation_end_def)
  then show thesis using Inl that(1) by simp
next
  case (Inr result)
  obtain s dd1 where f: "finish_receipt E c name (strip oid) ledger now result dd = (s, dd1)" by fastforce
  have r: "(r, dd') = (case s of Inl e \<Rightarrow> (Inl (Op_store e), dd1) | Inr _ \<Rightarrow> (Inr result, dd1))"
    using assms Inr f by (simp add: operation_end_def)
  from f show thesis
    by (cases rule: finish_cases) (use r Inr that in auto)
qed

lemma store_frame:
  "n \<notin> set (names_of c) \<Longrightarrow> map_of (dd_docs (store_step c dd)) n = map_of (dd_docs dd) n"
  "\<forall>c\<in>set cs. n \<notin> set (names_of c) \<Longrightarrow> map_of (dd_docs (store_run cs dd)) n = map_of (dd_docs dd) n"
proof (induction c dd and cs dd rule: store_step_store_run.induct)
  case (1 H name v dd)
  then show ?case using write_json_touches [of H name dd v] by (auto simp: touches_def)
next
  case (2 H name fallback f dd)
  then show ?case using update_json_touches [of H name dd fallback f] by (auto simp: touches_def)
next
  case (3 H ts dd)
  then show ?case using save_tasks_touches [of H dd ts] by (auto simp: touches_def)
next
  case (4 H f dd)
  then show ?case using update_tasks_touches [of H dd f] by (auto simp: touches_def)
next
  case (5 H tid f dd)
  then show ?case using update_task_touches [of H dd tid f] by (auto simp: touches_def)
next
  case (6 H ts dd)
  then show ?case using append_tasks_touches [of H dd ts] by (auto simp: touches_def)
next
  case (9 a cs dd)
  then show ?case by (simp add: authorized_business_write_def)
next
  case (10 H job_name files cs dd)
  obtain a dd1 where p: "prepare_system_write H job_name files dd = (a, dd1)" by fastforce
  then have "dd_docs dd1 = dd_docs dd" by (auto simp: prepare_system_write_def Let_def append_audit_row_def)
  with 10 p show ?case by (simp add: authorized_system_write_def authorized_business_write_def)
qed (simp_all add: ledger_keeps_docs)

text \<open>The clock of the callers: a printed time is read back as its whole second.\<close>

definition reads_seconds :: "(pystr \<Rightarrow> timestamp option) \<Rightarrow> (timestamp \<Rightarrow> pystr) \<Rightarrow> bool" where
  "reads_seconds parse printed \<longleftrightarrow> (\<forall>t. \<exists>x. parse (printed t) = Some x \<and> t - 1 < x)"

fun keeps_entries :: "(pystr \<Rightarrow> timestamp option) \<Rightarrow> timestamp \<Rightarrow> op_event \<Rightarrow> bool" where
  "keeps_entries parse t (Begin E c oid name now) \<longleftrightarrow> te_parse E = parse \<and> reads_seconds parse (te_iso E) \<and> t \<le> now"
| "keeps_entries parse t (End E c oid name ledger outcome now) \<longleftrightarrow> True"
| "keeps_entries parse t (Command c) \<longleftrightarrow> operations_file \<notin> set (names_of c)"

lemma command_doc: "operations_file \<notin> set (names_of c) \<Longrightarrow> operations_doc (store_step c dd) = operations_doc dd"
  using store_frame(1) by (simp add: operations_doc_def read_json_def)

lemma end_stores:
  assumes "operation_end E c oid name ledger outcome now dd = (r, dd')"
  shows "claimed_after parse k t dd \<Longrightarrow> claimed_after parse k t dd'" "stored_result k dd \<Longrightarrow> stored_result k dd'"
    "r = Inr result \<Longrightarrow> stored_result (operation_key c name (strip oid)) dd'"
  using assms
  by (cases rule: operation_end_cases;
      auto simp: claimed_after_def stored_result_def entry_put entry_of_def put_entry_reads finished_reads is_object_def)+

lemma begin_claims:
  assumes "operation_begin E c oid name now dd = (r, dd')"
  shows "stored_result k dd \<Longrightarrow> stored_result k dd'"
    "claimed_after parse k t dd \<Longrightarrow> te_parse E = parse \<Longrightarrow> reads_seconds parse (te_iso E) \<Longrightarrow> t \<le> now \<Longrightarrow> claimed_after parse k t dd'"
    "r = Inr (Execute l) \<Longrightarrow> te_parse E = parse \<Longrightarrow> reads_seconds parse (te_iso E) \<Longrightarrow> claimed_after parse (operation_key c name (strip oid)) now dd'"
proof -
  have own: "claimed_after parse (operation_key c name (strip oid)) u dd'"
    if "operations_doc dd' = put_entry (operation_key c name (strip oid)) (claim_entry E c name (strip oid) now) (operations_doc dd)"
      "te_parse E = parse" "reads_seconds parse (te_iso E)" "u \<le> now" for u
  proof -
    note h = that
    obtain x where "parse (te_iso E now) = Some x" "now - 1 < x" using h(3) by (auto simp: reads_seconds_def)
    with h show ?thesis by (simp add: claimed_after_def entry_put claim_entry_reads)
  qed
  show "stored_result k dd'" if "stored_result k dd"
    using assms
  proof (cases rule: operation_begin_cases)
    case other
    with that show ?thesis by (simp add: stored_cong [OF other(2)])
  next
    case (run l')
    then have "k \<noteq> operation_key c name (strip oid)" using stored_claim_state [OF that, of E now] by auto
    with that run(3) show ?thesis by (simp add: stored_result_def entry_put)
  qed
  show "claimed_after parse k t dd'" if "claimed_after parse k t dd" "te_parse E = parse" "reads_seconds parse (te_iso E)" "t \<le> now"
    using assms
  proof (cases rule: operation_begin_cases)
    case other
    with that show ?thesis by (simp add: claimed_cong [OF other(2)])
  next
    case (run l')
    then show ?thesis using own [OF run(3) that(2-4)] that(1)
      by (cases "k = operation_key c name (strip oid)") (simp_all add: claimed_after_def stored_result_def entry_put)
  qed
  show "claimed_after parse (operation_key c name (strip oid)) now dd'" if "r = Inr (Execute l)" "te_parse E = parse" "reads_seconds parse (te_iso E)"
    using assms by (cases rule: operation_begin_cases) (use that own in auto)
qed

interpretation claims: final_machine op_step "\<lambda>_. True" "\<lambda>x. claimed_after (fst (snd x)) (fst x) (snd (snd x))" "\<lambda>x. keeps_entries (fst (snd x)) (snd (snd x))"
proof unfold_locales
  fix x :: "pystr \<times> (pystr \<Rightarrow> timestamp option) \<times> timestamp" and e dd
  assume a: "keeps_entries (fst (snd x)) (snd (snd x)) e" "claimed_after (fst (snd x)) (fst x) (snd (snd x)) dd"
  show "claimed_after (fst (snd x)) (fst x) (snd (snd x)) (op_step e dd)"
  proof (cases e)
    case (Begin E c oid name now)
    obtain r dd' where b: "operation_begin E c oid name now dd = (r, dd')" by fastforce
    with a Begin begin_claims(2) [OF b] show ?thesis by auto
  next
    case (End E c oid name ledger outcome now)
    obtain r dd' where b: "operation_end E c oid name ledger outcome now dd = (r, dd')" by fastforce
    with a End end_stores(1) [OF b] show ?thesis by auto
  next
    case (Command c)
    with a show ?thesis by (simp add: claimed_cong [OF command_doc])
  qed
qed

interpretation results: final_machine op_step "\<lambda>_. True" stored_result "\<lambda>k e. case e of Command c \<Rightarrow> operations_file \<notin> set (names_of c) | _ \<Rightarrow> True"
proof unfold_locales
  fix k e dd
  assume a: "case e of Command c \<Rightarrow> operations_file \<notin> set (names_of c) | _ \<Rightarrow> True" "stored_result k dd"
  show "stored_result k (op_step e dd)"
  proof (cases e)
    case (Begin E c oid name now)
    obtain r dd' where b: "operation_begin E c oid name now dd = (r, dd')" by fastforce
    with a Begin begin_claims(1) [OF b] show ?thesis by simp
  next
    case (End E c oid name ledger outcome now)
    obtain r dd' where b: "operation_end E c oid name ledger outcome now dd = (r, dd')" by fastforce
    with a End end_stores(2) [OF b] show ?thesis by simp
  next
    case (Command c)
    with a show ?thesis by (simp add: stored_cong [OF command_doc])
  qed
qed

section \<open>Truth of results\<close>

lemma reads_after_update:
  assumes "k \<notin> {''data'', ''writeback_verified''}"
  shows "explicit_writeback (AList.update (lit k) v p) = explicit_writeback p" "no_write_performed (AList.update (lit k) v p) = no_write_performed p"
    "data_of (AList.update (lit k) v p) = data_of p"
  using assms by (auto simp: explicit_writeback_def no_write_performed_def data_of_def split: json.split)

lemma verified_reads:
  "explicit_writeback (verified_result E r) = explicit_writeback r" "no_write_performed (verified_result E r) = no_write_performed r"
  by (simp_all add: verified_result_def Let_def reads_after_update)

lemma verified_ok: "truthy (dget (verified_result E r) (lit ''ok'')) \<longleftrightarrow>
    truthy (dget r (lit ''ok'')) \<and> (no_write_performed r \<or> explicit_writeback r = JBool True)"
  by (simp add: verified_result_def Let_def)

lemma raised_not_ok: "dget (executed_result E (Inl x)) (lit ''ok'') = JBool False"
  by (cases x) (simp add: executed_result_def error_result_def Let_def dget_def)

lemma result_shape:
  assumes "operation_result E key op outcome = Inr result"
  obtains version where "result = attach_receipt (receipt_dict (fresh_receipt (te_host E) (te_stamp E) version (verified_result E (executed_result E outcome))
      key op (lit (idempotency_outcome (te_host E) (verified_result E (executed_result E outcome)))))) (verified_result E (executed_result E outcome))"
proof -
  have i: "lit (idempotency_outcome H p) \<noteq> lit ''replayed''" for H p by (simp add: idempotency_outcome_def)
  have "build_execution_receipt (te_host E) (te_sha E) (te_stamp E) (verified_result E (executed_result E outcome)) key op
      (lit (idempotency_outcome (te_host E) (verified_result E (executed_result E outcome)))) = Some result"
    using assms by (simp add: operation_result_def answer_def Let_def split: option.splits)
  from build_fresh [OF this i] that show thesis by blast
qed

lemma applied_is_completed:
  assumes "p = verified_result E r" "idem = lit (idempotency_outcome H p)"
    "er_idempotency_result (fresh_receipt H stamp version p key op idem) \<in> {lit ''applied'', lit ''replayed''}"
  shows "execution_status H p idem = lit ''completed''"
proof -
  have ok: "truthy (dget p (lit ''ok''))" "\<not> no_write_performed p"
    using assms(2,3) by (auto simp: fresh_receipt_reads idempotency_outcome_def or_else_def split: if_splits)
  then have "explicit_writeback p = JBool True" using verified_ok [of E r] verified_reads [of E r] assms(1) by simp
  moreover have "idem \<notin> {lit ''in_progress'', lit ''replayed''}" using assms(2) by (simp add: idempotency_outcome_def)
  ultimately show ?thesis using ok by (simp add: execution_status_def Let_def)
qed

lemma fresh_is_normal:
  assumes "operation_result E key op outcome = Inr result"
  shows "normalize_unverified H result = result" "\<exists>r. dget result (lit ''execution_receipt'') = JObj (receipt_dict r)"
proof -
  from result_shape [OF assms] obtain version where r: "result = attach_receipt (receipt_dict (fresh_receipt (te_host E) (te_stamp E) version
      (verified_result E (executed_result E outcome)) key op (lit (idempotency_outcome (te_host E) (verified_result E (executed_result E outcome))))))
      (verified_result E (executed_result E outcome))" .
  let ?p = "verified_result E (executed_result E outcome)"
  let ?i = "lit (idempotency_outcome (te_host E) ?p)"
  let ?n = "fresh_receipt (te_host E) (te_stamp E) version ?p key op ?i"
  have e: "dget result (lit ''execution_receipt'') = JObj (receipt_dict ?n)" using r by (simp add: attach_reads)
  then show "\<exists>r. dget result (lit ''execution_receipt'') = JObj (receipt_dict r)" by blast
  have "\<not> (er_status ?n = lit ''failed'' \<and> er_idempotency_result ?n \<in> {lit ''applied'', lit ''replayed''})"
    using applied_is_completed [OF refl refl, of "te_host E" "te_stamp E" version E "executed_result E outcome" key op] by (auto simp: fresh_receipt_reads(1))
  then show "normalize_unverified H result = result"
    using e by (auto simp: normalize_unverified_def text_of_JStr)
qed

lemma answer_truth:
  assumes "operation_result E key op outcome = Inr result"
  shows "truthy (dget result (lit ''ok'')) \<Longrightarrow> \<exists>res. outcome = Inr res \<and> truthy (dget res (lit ''ok'')) \<and>
      (no_write_performed res \<or> explicit_writeback res = JBool True)"
    "dget (as_dict (dget result (lit ''execution_receipt''))) (lit ''status'') = JStr (lit ''completed'') \<Longrightarrow>
      \<exists>res. outcome = Inr res \<and> truthy (dget res (lit ''ok'')) \<and> \<not> no_write_performed res \<and> explicit_writeback res = JBool True"
    "\<exists>r. dget result (lit ''execution_receipt'') = JObj (receipt_dict r) \<and> er_operation_id r = key"
proof -
  let ?p = "verified_result E (executed_result E outcome)"
  from result_shape [OF assms] obtain version where shape: "result = attach_receipt (receipt_dict (fresh_receipt (te_host E) (te_stamp E) version ?p
      key op (lit (idempotency_outcome (te_host E) ?p)))) ?p" .
  have ok: "dget result (lit ''ok'') = dget ?p (lit ''ok'')" using shape attach_reads(2) [of "''ok''"] by simp
  have verified: "\<exists>res. outcome = Inr res \<and> truthy (dget res (lit ''ok'')) \<and> (no_write_performed res \<or> explicit_writeback res = JBool True) \<and>
      no_write_performed res = no_write_performed ?p" if "truthy (dget ?p (lit ''ok''))"
    using that verified_ok [of E "executed_result E outcome"] verified_reads(2) [of E] raised_not_ok [of E]
    by (cases outcome) (auto simp: executed_result_def)
  then show "truthy (dget result (lit ''ok'')) \<Longrightarrow> \<exists>res. outcome = Inr res \<and> truthy (dget res (lit ''ok'')) \<and>
      (no_write_performed res \<or> explicit_writeback res = JBool True)" using ok by auto
  have "execution_status (te_host E) ?p (lit (idempotency_outcome (te_host E) ?p)) = lit ''completed'' \<Longrightarrow> truthy (dget ?p (lit ''ok'')) \<and> \<not> no_write_performed ?p"
    by (rule conjI; drule completed_status) (simp_all add: idempotency_outcome_def)
  with shape verified show "dget (as_dict (dget result (lit ''execution_receipt''))) (lit ''status'') = JStr (lit ''completed'') \<Longrightarrow>
      \<exists>res. outcome = Inr res \<and> truthy (dget res (lit ''ok'')) \<and> \<not> no_write_performed res \<and> explicit_writeback res = JBool True"
    by (auto simp: attach_reads fresh_receipt_reads)
  show "\<exists>r. dget result (lit ''execution_receipt'') = JObj (receipt_dict r) \<and> er_operation_id r = key"
    using shape by (auto simp: attach_reads fresh_receipt_reads)
qed

lemma covered_update:
  assumes "valid_name n" "n \<in> set (wa_allowed_files a)" "wa_operation_id a \<noteq> []" "wa_ledger_id a \<noteq> []" "wa_audit_id a \<noteq> []"
    "read_json n f dd = Inr c" "upd c = Inr None"
  shows "\<exists>dd'. authorized_business_write a (update_json H n f upd) dd = (Inr c, dd') \<and> dd_docs dd' = dd_docs dd"
proof -
  let ?d = "dd\<lparr>dd_active := Some (a\<lparr>wa_allowed_files := sort (wa_allowed_files a)\<rparr>)\<rparr>"
  have "assert_business_write_allowed H n ?d = (Inr (), ?d)"
    using assms(2-5) by (simp add: assert_business_write_allowed_def covers_def)
  then show ?thesis using assms(1,6,7) by (simp add: authorized_business_write_def update_json_def)
qed

section \<open>Properties\<close>

text \<open>
  C8: A claimed operation is not executed a second time while its claim is held. When a call may
  execute, then after any run of other calls, ends of calls and store operations at later times, no
  call with the same actor, operation and operation id may execute before ten minutes less one
  second have passed since the claim.
\<close>

theorem claimed_operation_runs_once:
  assumes "operation_begin E c oid name now dd = (Inr (Execute l), dd1)" "reads_seconds (te_parse E) (te_iso E)"
    "\<forall>e\<in>set es. keeps_entries (te_parse E) now e" "te_parse E' = te_parse E" "later \<le> now + (claim_lease - 1)"
    "operation_key c' name' (strip oid') = operation_key c name (strip oid)"
  shows "fst (operation_begin E' c' oid' name' later (fold op_step es dd1)) \<noteq> Inr (Execute l')"
proof
  assume x: "fst (operation_begin E' c' oid' name' later (fold op_step es dd1)) = Inr (Execute l')"
  have "claimed_after (te_parse E) (operation_key c name (strip oid)) now dd1" by (rule begin_claims(3) [OF assms(1) refl refl assms(2)])
  then have "claimed_after (te_parse E) (operation_key c name (strip oid)) now (fold op_step es dd1)"
    using claims.run_final [of es "(operation_key c name (strip oid), te_parse E, now)" dd1] assms(3) by simp
  then have "claim_state_of E' later (operation_key c' name' (strip oid')) (operations_doc (fold op_step es dd1)) \<noteq> Take"
    using claimed_claim_state [of E' "operation_key c name (strip oid)" now "fold op_step es dd1" later] assms(4-6) by simp
  moreover obtain r d where b: "operation_begin E' c' oid' name' later (fold op_step es dd1) = (r, d)" by fastforce
  ultimately show False using x by (cases rule: operation_begin_cases [OF b]) auto
qed

text \<open>
  An operation whose result was stored is never executed again: after any run of calls, ends of
  calls and store operations on other files, at whatever times, a call with the same actor, operation
  and operation id does not execute.
\<close>

theorem finished_operation_never_runs_again:
  assumes "operation_end E c oid name ledger outcome now dd = (Inr result, dd1)"
    "\<forall>e\<in>set es. case e of Command c \<Rightarrow> operations_file \<notin> set (names_of c) | _ \<Rightarrow> True"
    "operation_key c' name' (strip oid') = operation_key c name (strip oid)"
  shows "fst (operation_begin E' c' oid' name' later (fold op_step es dd1)) \<noteq> Inr (Execute l)"
proof
  assume x: "fst (operation_begin E' c' oid' name' later (fold op_step es dd1)) = Inr (Execute l)"
  have "stored_result (operation_key c name (strip oid)) dd1" by (rule end_stores(3) [OF assms(1) refl])
  then have "stored_result (operation_key c' name' (strip oid')) (fold op_step es dd1)" using results.run_final assms(2,3) by metis
  from stored_claim_state [OF this, of E' later]
  have "claim_state_of E' later (operation_key c' name' (strip oid')) (operations_doc (fold op_step es dd1)) \<noteq> Take" by auto
  moreover obtain r d where b: "operation_begin E' c' oid' name' later (fold op_step es dd1) = (r, d)" by fastforce
  ultimately show False using x by (cases rule: operation_begin_cases [OF b]) auto
qed

text \<open>
  C9: Success needs a verified write. When the fence answers a call it executed with success, or with a
  receipt that says \<open>completed\<close>, then the business function returned normally with success, and it
  reported a verified write or, with success only, that no write was made; a function that raised is
  answered with failure. The stored entry holds exactly the answer.
\<close>

theorem success_needs_a_verified_write:
  assumes "operation_end E c oid name ledger outcome now dd = (Inr result, dd')"
  shows "(truthy (dget result (lit ''ok'')) \<longrightarrow> (\<exists>res. outcome = Inr res \<and> truthy (dget res (lit ''ok'')) \<and>
      (no_write_performed res \<or> explicit_writeback res = JBool True))) \<and>
    (dget (as_dict (dget result (lit ''execution_receipt''))) (lit ''status'') = JStr (lit ''completed'') \<longrightarrow>
      (\<exists>res. outcome = Inr res \<and> truthy (dget res (lit ''ok'')) \<and> \<not> no_write_performed res \<and> explicit_writeback res = JBool True)) \<and>
    (\<exists>e. entry_of (operation_key c name (strip oid)) dd' = JObj e \<and> dget e (lit ''result'') = JObj result)"
  using assms
proof (cases rule: operation_end_cases)
  case (stored res)
  then show ?thesis using answer_truth [of E "strip oid" name outcome result] by (simp add: entry_put finished_reads)
qed simp

text \<open>
  C11: A repeated call returns the stored truth. After a call was executed and answered, the next
  admitted call with the same actor, operation and operation id is answered without running the
  business function: with the same success flag and the same receipt, with \<open>already_applied\<close> exactly
  when that receipt says completed and verified, and no file is changed.
\<close>

theorem repeated_call_returns_the_stored_truth:
  assumes "operation_end E c oid name ledger outcome now dd = (Inr result, dd1)"
    "tc_identity c' = tc_identity c" "strip oid' = strip oid" "strip oid \<noteq> []"
    "enforce_agenda_service_write_operation (te_host E') (te_stamp E') (tc_turn c') (tc_identity c') name dd1 = (None, dd1)"
    "refused_text (map_option ri_raw_text (runtime_auth E' c' name)) name = None"
    "guard_enabled dd1 \<longrightarrow> runtime_auth E' c' name \<noteq> None" "\<forall>i. runtime_auth E' c' name = Some i \<longrightarrow> ri_ledger_id i \<noteq> []"
  shows "\<exists>r dd2. tool_operation E' c' oid' name execute later finished dd1 = (Inr r, dd2) \<and> dd_docs dd2 = dd_docs dd1 \<and>
    dget r (lit ''ok'') = dget result (lit ''ok'') \<and> dget r (lit ''execution_receipt'') = dget result (lit ''execution_receipt'') \<and>
    dget r (lit ''already_applied'') = JBool (dget (as_dict (dget result (lit ''execution_receipt''))) (lit ''status'') = JStr (lit ''completed'') \<and>
      dget (as_dict (dget result (lit ''execution_receipt''))) (lit ''writeback_verified'') = JBool True)"
proof -
  from assms(1) have r: "operation_result E (strip oid) name outcome = Inr result"
    and stored: "operations_doc dd1 = put_entry (operation_key c name (strip oid)) (finished_entry E c name (strip oid) now result) (operations_doc dd)"
    by (cases rule: operation_end_cases; simp)+
  let ?key = "operation_key c' name (strip oid')"
  have key: "?key = operation_key c name (strip oid)" using assms(2,3) by (simp add: operation_key_def)
  have doc: "read_json operations_file (JObj []) dd1 = Inr (operations_doc dd1)"
    using stored by (auto simp: operations_doc_def put_entry_def split: sum.splits)
  have existing: "claim_state_of E' later ?key (operations_doc dd1) = Existing result"
    using stored key by (simp add: claim_state_of_def put_entry_reads finished_reads)
  define l where "l = (case runtime_auth E' c' name of Some i \<Rightarrow> ri_ledger_id i | None \<Rightarrow> lit ''test_or_offline_runtime'')"
  have "l \<noteq> []" using assms(8) by (auto simp: l_def split: option.split)
  define a where "a = operation_auth E' (strip oid') l [operations_file]"
  define upd where "upd = (\<lambda>receipts. Inr (case claim_state_of E' later ?key receipts of
      Take \<Rightarrow> Some (put_entry ?key (claim_entry E' c' name (strip oid') later) receipts) | _ \<Rightarrow> None) :: store_error + json option)"
  have a: "operations_file \<in> set (wa_allowed_files a)" "wa_operation_id a \<noteq> []" "wa_ledger_id a \<noteq> []" "wa_audit_id a \<noteq> []"
    using \<open>l \<noteq> []\<close> assms(3,4) by (simp_all add: a_def operation_auth_def)
  have "upd (operations_doc dd1) = Inr None" using existing by (simp add: upd_def)
  from covered_update [where upd = upd and H = "te_host E'", OF operations_valid a doc this] obtain dd2 where
    u: "authorized_business_write a (update_json (te_host E') operations_file (JObj []) upd) dd1 = (Inr (operations_doc dd1), dd2)" "dd_docs dd2 = dd_docs dd1" by blast
  then have claim: "claim_receipt E' c' name (strip oid') l later dd1 = (Inr (Existing result), dd2)" by (simp add: claim_receipt_def existing a_def upd_def)
  obtain er where er: "dget result (lit ''execution_receipt'') = JObj (receipt_dict er)" using fresh_is_normal(2) [OF r] by blast
  let ?prior = "receipt_dict er"
  let ?a = "AList.update (lit ''already_applied'') (JBool (text_of (ho_render (te_host E')) (dget ?prior (lit ''status'')) = lit ''completed''
        \<and> truthy (dget ?prior (lit ''writeback_verified'')))) result"
  have "replay E' result (strip oid') name = Inr (replayed_result (te_host E') ?prior ?a)"
    using er by (simp add: replay_def fresh_is_normal(1) [OF r] answer_def build_execution_receipt_def)
  with claim have "claim_or_replay E' c' (strip oid') name later dd1 = (Inr (Answered (replayed_result (te_host E') ?prior ?a)), dd2)"
    by (simp add: claim_or_replay_def l_def [symmetric])
  then have "operation_begin E' c' oid' name later dd1 = (Inr (Answered (replayed_result (te_host E') ?prior ?a)), dd2)"
    using assms(3-7) by (auto simp: operation_begin_def Let_def)
  then have "tool_operation E' c' oid' name execute later finished dd1 = (Inr (replayed_result (te_host E') ?prior ?a), dd2)"
    by (simp add: tool_operation_def)
  moreover have "dget (replayed_result (te_host E') ?prior ?a) (lit ''ok'') = dget result (lit ''ok'')"
    using replayed_reads(2) [of "''ok''"] by simp
  ultimately show ?thesis using u(2) er by (simp add: replayed_reads)
qed

lemma policy_verdict:
  assumes "enforce_agenda_service_write_operation H stamp turn u name dd = (None, dd')"
  shows "dd' = dd \<and> (agenda_shaped u \<longrightarrow> is_agenda_service_identity u \<and> trusted_service_turn turn u \<and> name \<in> set service_write_operations)"
  using assms by (auto simp: enforce_agenda_service_write_operation_def deny_with_def split: if_splits)

lemma auth_cases:
  assumes "runtime_auth E c name = Some i"
  shows "map_of (tc_pending c) (ui_canonical_user_id (tc_identity c)) = Some i \<and> \<not> ri_completed i \<and> name \<in> set supported_write_operations \<and>
    ri_data_dir i \<in> {[], te_dir E} \<and> (ri_entered_model i \<or> (\<exists>t. tc_turn c = Some t \<and> actor_of t = ui_canonical_user_id (tc_identity c)))"
  using assms by (auto simp: runtime_auth_def write_authorization_for_def Let_def split: option.splits if_splits)

text \<open>
  C10: A write that is executed was authorized and its claim is on file. When a call reaches the business
  function, it carries an operation id; a caller that looks like the agenda service has a trusted turn
  and a granted operation; the last message of the turn was not a bare ``go on'' or a question about
  abilities on a guarded operation; with the guard on, the caller has an unfinished inbound turn in
  this data directory, which entered the model or whose actor is the caller, and the claim is made
  under its ledger id; and the claim of exactly this call is in the operations file.
\<close>

theorem executed_write_was_authorized:
  assumes "operation_begin E c oid name now dd = (Inr (Execute l), dd')"
  shows "strip oid \<noteq> [] \<and>
    (agenda_shaped (tc_identity c) \<longrightarrow> trusted_service_turn (tc_turn c) (tc_identity c) \<and> name \<in> set service_write_operations) \<and>
    refused_text (map_option ri_raw_text (runtime_auth E c name)) name = None \<and>
    (guard_enabled dd \<longrightarrow> (\<exists>i. map_of (tc_pending c) (ui_canonical_user_id (tc_identity c)) = Some i \<and> ri_ledger_id i = l \<and> \<not> ri_completed i \<and>
      name \<in> set supported_write_operations \<and> ri_data_dir i \<in> {[], te_dir E} \<and>
      (ri_entered_model i \<or> (\<exists>t. tc_turn c = Some t \<and> actor_of t = ui_canonical_user_id (tc_identity c))))) \<and>
    entry_of (operation_key c name (strip oid)) dd' = JObj (claim_entry E c name (strip oid) now)"
proof -
  obtain d dd1 where p: "enforce_agenda_service_write_operation (te_host E) (te_stamp E) (tc_turn c) (tc_identity c) name dd = (d, dd1)" by fastforce
  have oid: "strip oid \<noteq> []" using assms by (auto simp: operation_begin_def Let_def dest!: refuse_frame split: if_splits)
  have d: "d = None" using assms p oid by (auto simp: operation_begin_def Let_def dest!: refuse_frame split: option.splits)
  note v = policy_verdict [OF p [unfolded d]]
  have raw: "refused_text (map_option ri_raw_text (runtime_auth E c name)) name = None"
    using assms p oid d by (auto simp: operation_begin_def Let_def dest!: refuse_frame split: option.splits)
  have guard: "guard_enabled dd \<longrightarrow> runtime_auth E c name \<noteq> None"
    using assms p oid d v raw by (auto simp: operation_begin_def Let_def dest!: refuse_frame split: if_splits)
  have "claim_or_replay E c (strip oid) name now dd = (Inr (Execute l), dd')"
    using assms p oid d v raw guard by (auto simp: operation_begin_def Let_def split: if_splits)
  then have l: "l = (case runtime_auth E c name of Some i \<Rightarrow> ri_ledger_id i | None \<Rightarrow> lit ''test_or_offline_runtime'')"
    by (auto simp: claim_or_replay_def Let_def dest!: refuse_frame split: prod.splits sum.splits claim_state.splits)
  have entry: "entry_of (operation_key c name (strip oid)) dd' = JObj (claim_entry E c name (strip oid) now)"
    using assms by (cases rule: operation_begin_cases) (simp_all add: entry_put)
  have "\<exists>i. runtime_auth E c name = Some i \<and> ri_ledger_id i = l" if "guard_enabled dd" using guard that l by auto
  with auth_cases oid v raw entry show ?thesis by blast
qed

definition unlisted_write_operations :: "pystr list" where
  "unlisted_write_operations = filter (\<lambda>n. n \<notin> set supported_write_operations) (guarded_write_operations @ service_write_operations)"

text \<open>
  With the guard on, the agenda service cannot schedule the recheck of its task. Its policy grants
  the operation, but the runtime's list of supported writes does not name it, so each call of a trusted
  service turn is answered \<open>unauthorized_write_blocked\<close> without running, and no file is changed. The
  same holds of the other guarded operations that the list misses, for every caller.
\<close>

theorem guarded_service_cannot_schedule_recheck:
  assumes "guard_enabled dd" "name \<in> set unlisted_write_operations" "strip oid \<noteq> []"
    "agenda_shaped (tc_identity c) \<longrightarrow> is_agenda_service_identity (tc_identity c) \<and> trusted_service_turn (tc_turn c) (tc_identity c) \<and>
       name = lit ''agenda_schedule_task_recheck''"
  shows "\<exists>r dd'. tool_operation E c oid name execute now finished dd = (Inr r, dd') \<and> dget r (lit ''ok'') = JBool False \<and>
    dget r (lit ''error'') = JStr (lit ''unauthorized_write_blocked'') \<and> dd_docs dd' = dd_docs dd"
proof -
  have listed: "name \<notin> set supported_write_operations" using assms(2) by (auto simp: unlisted_write_operations_def)
  have p: "enforce_agenda_service_write_operation (te_host E) (te_stamp E) (tc_turn c) (tc_identity c) name dd = (None, dd)"
    using assms(4) by (auto simp: enforce_agenda_service_write_operation_def service_write_operations_def)
  have none: "runtime_auth E c name = None" using listed by (simp add: runtime_auth_def write_authorization_for_def)
  have raw: "refused_text None name = None"
    by (simp add: refused_text_def retry_texts_def capability_health_check_def capability_anchors_def contains_def)
  let ?e = "error_result E (lit ''unauthorized_write_blocked'')"
  have "\<exists>version. object_version (te_host E) (te_sha E) ?e = Some version"
    by (auto simp: object_version_def data_of_def error_result_def dget_def split: option.split)
  then obtain r where r: "answer E ?e (strip oid) name ''rejected'' = Inr (attach_receipt r ?e)"
    by (auto simp: answer_def build_execution_receipt_def)
  then have "tool_operation E c oid name execute now finished dd = (Inr (attach_receipt r ?e), record_unauthorized_tool_attempt E c name (strip oid) dd)"
    using assms(1,3) p none raw by (simp add: tool_operation_def operation_begin_def refuse_def Let_def)
  moreover have "dget (attach_receipt r ?e) (lit ''ok'') = JBool False" "dget (attach_receipt r ?e) (lit ''error'') = JStr (lit ''unauthorized_write_blocked'')"
    using attach_reads(2) [of "''ok''"] attach_reads(2) [of "''error''"] by (simp_all add: error_result_def) (simp_all add: dget_def)
  ultimately show ?thesis by (simp add: record_unauthorized_tool_attempt_def append_audit_row_def)
qed

text \<open>
  C38: A service call that the policy lets pass has a trusted turn and an entry in the policy's audit.
  For an identity that looks like the agenda service, no tool passes without the active turn of a
  ticket of the same actor and tenant, only the six granted tools pass, each after an entry \<open>allowed\<close>
  in the audit ledger was verified; and an update of a work item passes only with granted fields, on
  an item that names the service among its staff, with a granted transition that does not reopen it.
\<close>

theorem passed_service_call_is_trusted_and_audited:
  assumes "enforce_agenda_service_tool_call H stamp turn u query method args dd = (Inr None, dd')" "agenda_shaped u"
  shows "trusted_service_turn turn u \<and> method \<in> set allowed_tool_methods \<and>
    (\<exists>row. append_jsonl_verified H policy_audit_file row dd = (Inr True, dd') \<and> dget row (lit ''decision'') = JStr (lit ''allowed'') \<and>
      dget row (lit ''operation'') = JStr method) \<and>
    (method = lit ''update_hermes_work_item'' \<longrightarrow> set (map fst args) \<subseteq> set allowed_update_fields \<and>
      (\<exists>item related. item \<in> as_dict ` set (the (query (strip (text_of (ho_render H) (dget args (lit ''focus_key'')))))) \<and>
        related_staff H item = Inr related \<and> ui_canonical_user_id u \<in> set related \<and>
        (let status = strip (text_of (ho_render H) (dget args (lit ''status''))); current = text_of (ho_render H) (dget item (lit ''status'')) in
         status \<in> set ([] # allowed_transitions) \<and> (current \<in> set terminal_item_states \<longrightarrow> status \<in> {[], current}))))"
proof -
  have trusted: "is_agenda_service_identity u" "trusted_service_turn turn u" "method \<in> set allowed_tool_methods"
    using assms deny_denies by (auto simp: enforce_agenda_service_tool_call_def deny_with_def split: if_splits)
  show ?thesis
  proof (cases "method = lit ''update_hermes_work_item''")
    case False
    then have "allow_with H stamp u method ''read_or_context_scope'' [] dd = (None, dd')"
      using assms trusted by (simp add: enforce_agenda_service_tool_call_def split: prod.splits)
    from allow_audited [OF this] False trusted show ?thesis by blast
  next
    case True
    then have up: "enforce_agenda_work_item_update H stamp turn u query args dd = (Inr None, dd')"
      using assms trusted by (simp add: enforce_agenda_service_tool_call_def)
    let ?fk = "strip (text_of (ho_render H) (dget args (lit ''focus_key'')))" and ?wid = "strip (text_of (ho_render H) (dget args (lit ''work_item_id'')))"
    obtain item where item: "visible_target H (query ?fk) ?wid ?fk = Some item" and fields: "set (map fst args) \<subseteq> set allowed_update_fields"
      using up by (auto simp: enforce_agenda_work_item_update_def Let_def deny_with_def split: if_splits option.splits)
    obtain related where related: "related_staff H item = Inr related"
      using up item fields trusted by (auto simp: enforce_agenda_work_item_update_def Let_def deny_with_def split: if_splits sum.splits)
    have rest: "ui_canonical_user_id u \<in> set related" "strip (text_of (ho_render H) (dget args (lit ''status''))) \<in> set ([] # allowed_transitions)"
      "text_of (ho_render H) (dget item (lit ''status'')) \<in> set terminal_item_states \<longrightarrow>
        strip (text_of (ho_render H) (dget args (lit ''status''))) \<in> {[], text_of (ho_render H) (dget item (lit ''status''))}"
      using up item fields trusted related by (auto simp: enforce_agenda_work_item_update_def Let_def deny_with_def split: if_splits)
    obtain target where "allow_with H stamp u (lit ''update_hermes_work_item'') ''entrusted_lifecycle_update'' target dd = (None, dd')"
      using up item fields trusted related rest
      by (auto simp: enforce_agenda_work_item_update_def Let_def deny_with_def split: if_splits prod.splits)
    from allow_audited [OF this] True have audit: "\<exists>row. append_jsonl_verified H policy_audit_file row dd = (Inr True, dd') \<and>
      dget row (lit ''decision'') = JStr (lit ''allowed'') \<and> dget row (lit ''operation'') = JStr method" by blast
    note in_items = visible_in [OF item]
    with trusted fields related rest audit in_items show ?thesis unfolding Let_def by blast
  qed
qed

section \<open>The end of a turn\<close>

datatype pending_event =
    Inbound bool pystr pystr pystr pystr pystr
  | Entered pystr pystr pystr
  | Finished pystr pystr

fun pending_step :: "pending_event \<Rightarrow> pending_items \<Rightarrow> pending_items" where
  "pending_step (Inbound enabled uuid message_id user_id data_dir raw_text) ps = begin_inbound enabled uuid message_id user_id data_dir raw_text ps"
| "pending_step (Entered session_id sender_id user_message) ps = enter_model session_id sender_id user_message ps"
| "pending_step (Finished user_id message_id) ps = finish_runtime_turn user_id message_id ps"

fun no_inbound_of :: "pystr \<Rightarrow> pending_event \<Rightarrow> bool" where
  "no_inbound_of u (Inbound enabled uuid message_id user_id data_dir raw_text) \<longleftrightarrow> user_id \<noteq> u"
| "no_inbound_of u _ \<longleftrightarrow> True"

interpretation idle: final_machine pending_step "\<lambda>_. True" "\<lambda>u ps. map_of ps u = None" no_inbound_of
proof unfold_locales
  fix u e and ps :: pending_items
  assume "no_inbound_of u e" "map_of ps u = None"
  then show "map_of (pending_step e ps) u = None"
    by (cases e) (auto simp: begin_inbound_def enter_model_def finish_runtime_turn_def update_conv' delete_conv' split: option.split)
qed

text \<open>
  The end of a turn ends its right to write. Once the turn of a user's pending message is finished,
  no operation of that user is authorized, whatever other turns begin, enter the model or finish and
  whoever the trusted turn is, until a new message of that user is received.
\<close>

theorem finished_turn_authorizes_no_write:
  assumes "map_of ps u = Some i" "ri_message_id i = m" "\<forall>e\<in>set es. no_inbound_of u e"
  shows "write_authorization_for turn u operation (fold pending_step es (finish_runtime_turn u m ps)) = None"
proof -
  have "map_of (finish_runtime_turn u m ps) u = None" using assms(1,2) by (simp add: finish_runtime_turn_def delete_conv')
  then have "map_of (fold pending_step es (finish_runtime_turn u m ps)) u = None" using idle.run_final assms(3) by blast
  then show ?thesis by (simp add: write_authorization_for_def)
qed

section \<open>Sample calls\<close>

definition clock_print :: "timestamp \<Rightarrow> pystr" where
  "clock_print t = [of_bool (\<lfloor>t\<rfloor> < 0), nat \<bar>\<lfloor>t\<rfloor>\<bar>]"

definition clock_read :: "pystr \<Rightarrow> timestamp option" where
  "clock_read s = (case s of [g, n] \<Rightarrow> Some (of_int (if g = 1 then - int n else int n)) | _ \<Rightarrow> None)"

lemma clock_round: "clock_read (clock_print t) = Some (of_int \<lfloor>t\<rfloor>)"
  by (simp add: clock_read_def clock_print_def)

lemma clock_seconds: "reads_seconds clock_read clock_print"
  unfolding reads_seconds_def clock_round by (intro allI exI conjI, rule refl) linarith

definition call_env :: tool_env where
  "call_env = \<lparr>te_host = sample_host, te_sha = id, te_iso = clock_print, te_parse = clock_read, te_stamp = lit ''T'', te_sentence = (\<lambda>_. lit ''m''), te_dir = lit ''d''\<rparr>"

definition staff_identity :: user_identity where
  "staff_identity = \<lparr>ui_platform = lit ''wecom'', ui_platform_user_id = lit ''w'', ui_canonical_user_id = lit ''a'', ui_person_name = [], ui_role = lit ''boss'',
     ui_approval_state = lit ''approved''\<rparr>"

definition staff_caller :: tool_caller where
  "staff_caller = \<lparr>tc_identity = staff_identity, tc_turn = None, tc_pending = [(lit ''a'', \<lparr>ri_ledger_id = lit ''l'', ri_message_id = lit ''m'', ri_session_id = lit ''s'',
     ri_data_dir = lit ''d'', ri_raw_text = lit ''hi'', ri_entered_model = True, ri_completed = False\<rparr>)]\<rparr>"

definition agenda_identity :: user_identity where
  "agenda_identity = \<lparr>ui_platform = lit ''agenda_service_work'', ui_platform_user_id = lit ''service:agenda:t'', ui_canonical_user_id = lit ''service:agenda:t'',
     ui_person_name = [], ui_role = lit ''agenda_service'', ui_approval_state = lit ''approved''\<rparr>"

definition agenda_turn :: turn_record where
  "agenda_turn = \<lparr>tr_platform = lit ''agenda_service_work'', tr_tenant_id = lit ''t'', tr_identity = agenda_identity, tr_chat_id = lit ''c'', tr_session_id = lit ''s'',
     tr_turn_id = lit ''u'', tr_message_id = [], tr_issued_at = 0, tr_source = lit ''agenda_service_work_ticket_public_hook_bridge'', tr_continuity_key = [],
     tr_host_transforms = False\<rparr>"

definition agenda_caller :: tool_caller where
  "agenda_caller = \<lparr>tc_identity = agenda_identity, tc_turn = Some agenda_turn, tc_pending = []\<rparr>"

lemma call_env_fields [simp]:
  "te_host call_env = sample_host" "te_iso call_env = clock_print" "te_parse call_env = clock_read" "te_stamp call_env = lit ''T''" "te_dir call_env = lit ''d''"
  by (simp_all add: call_env_def)

lemma agenda_trusted: "agenda_shaped agenda_identity" "is_agenda_service_identity agenda_identity" "trusted_service_turn (Some agenda_turn) agenda_identity"
proof -
  have c: "ui_canonical_user_id agenda_identity = lit ''service:agenda:t''" "ui_platform agenda_identity = lit ''agenda_service_work''"
    "ui_platform_user_id agenda_identity = lit ''service:agenda:t''" "ui_role agenda_identity = lit ''agenda_service''" "ui_approval_state agenda_identity = lit ''approved''"
    by (simp_all add: agenda_identity_def)
  have s: "strip (lit ''service:agenda:t'') = lit ''service:agenda:t''" "strip (lit ''agenda_service_work'') = lit ''agenda_service_work''"
    "strip (lit ''agenda_service'') = lit ''agenda_service''" "strip (lit ''approved'') = lit ''approved''"
    by (simp_all add: strip_def lit_def is_space_def)
  have r: "remove_prefix policy_prefix (lit ''service:agenda:t'') = lit ''t''" "policy_prefix @ lit ''t'' = lit ''service:agenda:t''"
    by (simp_all add: remove_prefix_def policy_prefix_def) (simp_all add: lit_def)
  show "agenda_shaped agenda_identity" by (simp add: agenda_shaped_def c)
  show i: "is_agenda_service_identity agenda_identity" by (simp add: is_agenda_service_identity_def c s r)
  show "trusted_service_turn (Some agenda_turn) agenda_identity"
    using i by (simp add: trusted_service_turn_def agenda_turn_def actor_of_def c r)
qed

lemma staff_not_agenda: "\<not> agenda_shaped staff_identity"
  by (simp add: agenda_shaped_def staff_identity_def policy_prefix_def) (simp add: lit_def)

lemma staff_passes: "enforce_agenda_service_write_operation H st turn staff_identity n dd = (None, dd)"
  by (simp add: enforce_agenda_service_write_operation_def staff_not_agenda)

lemma staff_auth: "\<exists>i. runtime_auth call_env staff_caller (lit ''create_task'') = Some i \<and> ri_ledger_id i = lit ''l'' \<and> ri_raw_text i = lit ''hi''"
  by (simp add: runtime_auth_def write_authorization_for_def staff_caller_def staff_identity_def supported_write_operations_def)

lemma hi_is_no_retry: "refused_text (Some (lit ''hi'')) n = None"
  by (simp add: refused_text_def compact_def lit_def is_space_def retry_texts_def capability_health_check_def capability_anchors_def contains_def)

lemma strip_o1: "strip (lit ''o1'') = lit ''o1''"
  by (simp add: strip_def lit_def is_space_def)

lemma sample_operations: "read_json operations_file (JObj []) (sample_dir g) = Inr (JObj [])"
  by (simp add: read_json_def sample_dir_def guard_file_def tasks_file_def operations_file_def [symmetric])
    (simp add: operations_file_def)

lemma sample_operation_claim: "\<exists>dd1. claim_receipt call_env staff_caller (lit ''create_task'') (lit ''o1'') (lit ''l'') 100 (sample_dir g) = (Inr Take, dd1)"
proof -
  let ?a = "operation_auth call_env (lit ''o1'') (lit ''l'') [operations_file]"
  let ?d = "sample_dir g\<lparr>dd_active := Some (?a\<lparr>wa_allowed_files := sort (wa_allowed_files ?a)\<rparr>)\<rparr>"
  have allowed: "assert_business_write_allowed sample_host operations_file ?d = (Inr (), ?d)"
    by (simp add: assert_business_write_allowed_def covers_def operation_auth_def)
  have state: "claim_state_of call_env 100 k (JObj []) = Take" for k by (simp add: claim_state_of_def dget_def)
  have doc: "operations_doc (sample_dir g) = JObj []" using sample_operations [of g] by (simp add: operations_doc_def)
  have "encodable (json_text (ho_floats sample_host) (put_entry (operation_key staff_caller (lit ''create_task'') (lit ''o1''))
      (claim_entry call_env staff_caller (lit ''create_task'') (lit ''o1'') 100) (JObj [])))"
    by (simp add: put_entry_def claim_entry_def operation_key_def staff_caller_def staff_identity_def clock_print_def)
  then show ?thesis
    by (simp add: claim_receipt_def Let_def authorized_business_write_def update_json_def allowed sample_operations state doc put_doc_def)
qed

lemma sample_begin: "\<exists>dd1. operation_begin call_env staff_caller (lit ''o1'') (lit ''create_task'') 100 (sample_dir g) = (Inr (Execute (lit ''l'')), dd1)"
proof -
  obtain i where i: "runtime_auth call_env staff_caller (lit ''create_task'') = Some i" "ri_ledger_id i = lit ''l''" "ri_raw_text i = lit ''hi''" using staff_auth by blast
  obtain dd1 where c: "claim_receipt call_env staff_caller (lit ''create_task'') (lit ''o1'') (lit ''l'') 100 (sample_dir g) = (Inr Take, dd1)" using sample_operation_claim by blast
  have "tc_identity staff_caller = staff_identity" by (simp add: staff_caller_def)
  with i c show ?thesis
    by (simp add: operation_begin_def Let_def strip_o1 staff_passes hi_is_no_retry claim_or_replay_def)
qed

definition written_result :: "(pystr, json) dict" where
  "written_result = [(lit ''ok'', JBool True), (lit ''writeback_verified'', JBool True)]"

lemma written_reads: "explicit_writeback written_result = JBool True" "no_write_performed written_result = False" "dget written_result (lit ''ok'') = JBool True"
  by (simp_all add: written_result_def explicit_writeback_def no_write_performed_def data_of_def dget_def)

definition answered_result :: "(pystr, json) dict" where
  "answered_result = AList.update (lit ''already_applied'') (JBool False) written_result"

lemma answered_absent: "k \<notin> {''ok'', ''writeback_verified'', ''already_applied''} \<Longrightarrow> dget answered_result (lit k) = JNull"
  by (auto simp: answered_result_def written_result_def dget_def)

lemma answered_found: "k \<notin> {''ok'', ''writeback_verified'', ''already_applied''} \<Longrightarrow> found_value H answered_result (lit k) = []"
proof -
  have no: "List.find (\<lambda>n. present (dget (as_dict (dget d n)) k)) ns = None" if "\<forall>n\<in>set ns. dget d n = JNull" for d k ns
    using that by (auto simp: find_None_iff present_def dget_def)
  have "\<forall>n\<in>set nested_keys. dget answered_result n = JNull" using answered_absent by (simp add: nested_keys_def)
  from no [OF this] have n: "List.find (\<lambda>n. present (dget (as_dict (dget answered_result n)) k)) nested_keys = None" for k .
  assume k: "k \<notin> {''ok'', ''writeback_verified'', ''already_applied''}"
  have "first_value H answered_result (lit k) = []" using answered_absent [OF k] n by (simp add: first_value_def present_def)
  moreover have d: "data_of answered_result = []" using answered_absent [of "''data''"] by (simp add: data_of_def)
  have "List.find (\<lambda>n. present (dget (as_dict (dget [] n)) (lit k))) nested_keys = None" by (rule no) (simp add: dget_def)
  then have "first_value H [] (lit k) = []" by (simp add: first_value_def) (simp add: present_def dget_def)
  ultimately show ?thesis by (simp add: found_value_def d or_else_def)
qed

lemma answered_identity: "object_identity H answered_result (lit ''create_task'') = (lit ''create_task'', [])"
proof -
  have "\<forall>p\<in>set object_id_keys. found_value H answered_result (fst p) = []" unfolding object_id_keys_def by (simp add: answered_found)
  then have "List.find (\<lambda>(k, t). found_value H answered_result k \<noteq> []) object_id_keys = None" by (auto simp: find_None_iff)
  moreover have "data_of answered_result = []" using answered_absent [of "''data''"] by (simp add: data_of_def)
  then have "List.find (\<lambda>(k, t). present (dget (as_dict (dget (data_of answered_result) k)) (lit ''id''))) nested_objects = None"
    by (auto simp: find_None_iff present_def dget_def)
  ultimately show ?thesis
    by (simp add: object_identity_def or_else_def remove_prefix_def) (simp add: lit_def)
qed

lemma encodable_receipt:
  assumes "\<forall>s\<in>{er_receipt_id r, er_operation_id r, er_operation r, er_status r, er_object_type r, er_object_id r, er_object_version r, er_idempotency_result r,
      er_delivery_status r, er_error_code r, er_created_at r}. encodable s"
  shows "encodable (json_text F (JObj (receipt_dict r)))"
  using assms by (simp add: receipt_dict_def error_layer_def Let_def)

definition answered_receipt :: execution_receipt where
  "answered_receipt = fresh_receipt sample_host (lit ''T'') [] answered_result (lit ''o1'') (lit ''create_task'') (lit ''applied'')"

lemma answered_receipt_encodable: "encodable (json_text F (JObj (receipt_dict answered_receipt)))"
proof (rule encodable_receipt)
  have "execution_status H p i \<in> lit ` {''clarification_required'', ''noop'', ''in_progress'', ''completed'', ''failed''}" for H p i
    by (simp add: execution_status_def Let_def)
  then have s: "encodable (execution_status H p i)" for H p i by (smt (verit) encodable_lit imageE)
  have a: "dget answered_result (lit ''data'') = JNull" "dget answered_result (lit ''error'') = JNull" "dget answered_result (lit ''delivery_status'') = JNull"
    using answered_absent by simp_all
  have n: "data_of answered_result = []" "dget [] k = JNull" for k using a(1) by (simp_all add: data_of_def dget_def)
  show "\<forall>s\<in>{er_receipt_id answered_receipt, er_operation_id answered_receipt, er_operation answered_receipt, er_status answered_receipt,
      er_object_type answered_receipt, er_object_id answered_receipt, er_object_version answered_receipt, er_idempotency_result answered_receipt,
      er_delivery_status answered_receipt, er_error_code answered_receipt, er_created_at answered_receipt}. encodable s"
    by (simp add: answered_receipt_def fresh_receipt_def answered_identity Let_def s a text_of_def por_def or_else_def n)
      (simp add: sample_host_def)
qed

lemma sample_result: "operation_result call_env (lit ''o1'') (lit ''create_task'') (Inr written_result) = Inr (attach_receipt (receipt_dict answered_receipt) answered_result)"
proof -
  have v: "verified_result call_env written_result = answered_result"
    by (simp add: verified_result_def Let_def written_reads answered_result_def)
  have ok: "dget answered_result (lit ''ok'') = JBool True" "no_write_performed answered_result = False"
    by (simp_all add: answered_result_def written_reads reads_after_update)
  have "\<forall>k\<in>set version_keys. found_value H answered_result k = []" for H unfolding version_keys_def by (simp add: answered_found)
  then have "List.find (\<lambda>k. found_value H answered_result k \<noteq> []) version_keys = None" for H by (auto simp: find_None_iff)
  then have ov: "object_version H sha answered_result = Some []" for H sha
    using answered_absent [of "''data''"] by (simp add: object_version_def data_of_def)
  show ?thesis
    by (simp add: operation_result_def executed_result_def v idempotency_outcome_def ok answer_def build_execution_receipt_def ov answered_receipt_def)
qed

definition sample_answer :: "(pystr, json) dict" where
  "sample_answer = attach_receipt (receipt_dict answered_receipt) answered_result"

lemma sample_answer_reads: "dget sample_answer (lit ''ok'') = JBool True" "dget sample_answer (lit ''execution_receipt'') = JObj (receipt_dict answered_receipt)"
    "encodable (json_text F (JObj sample_answer))"
proof -
  show "dget sample_answer (lit ''ok'') = JBool True" unfolding sample_answer_def
    using attach_reads(2) [of "''ok''"] by (simp add: answered_result_def written_reads)
  show "dget sample_answer (lit ''execution_receipt'') = JObj (receipt_dict answered_receipt)" by (simp add: sample_answer_def attach_reads)
  have eq: "sample_answer = answered_result @ [(lit ''execution_receipt'', JObj (receipt_dict answered_receipt))]"
    using answered_absent [of "''data''"] by (simp add: sample_answer_def attach_receipt_def Let_def) (simp add: answered_result_def written_result_def)
  show "encodable (json_text F (JObj sample_answer))"
    unfolding eq using answered_receipt_encodable [of F] by (simp add: answered_result_def written_result_def)
qed

lemma answered_status: "er_status answered_receipt = lit ''completed''" "er_writeback_verified answered_receipt"
proof -
  have "dget answered_result (lit ''ok'') = JBool True" "no_write_performed answered_result = False" "explicit_writeback answered_result = JBool True"
    by (simp_all add: answered_result_def written_reads reads_after_update)
  then show "er_status answered_receipt = lit ''completed''" "er_writeback_verified answered_receipt"
    by (simp_all add: answered_receipt_def fresh_receipt_reads execution_status_def Let_def)
qed

lemma sample_end: "\<exists>dd1. operation_end call_env staff_caller (lit ''o1'') (lit ''create_task'') (lit ''l'') (Inr written_result) 101 (sample_dir g) = (Inr sample_answer, dd1)
    \<and> dd_docs dd1 = AList.update operations_file (Some (put_entry (operation_key staff_caller (lit ''create_task'') (lit ''o1''))
        (finished_entry call_env staff_caller (lit ''create_task'') (lit ''o1'') 101 sample_answer) (JObj []))) (dd_docs (sample_dir g))"
proof -
  let ?a = "operation_auth call_env (lit ''o1'') (lit ''l'') [operations_file]"
  let ?d = "sample_dir g\<lparr>dd_active := Some (?a\<lparr>wa_allowed_files := sort (wa_allowed_files ?a)\<rparr>)\<rparr>"
  have allowed: "assert_business_write_allowed sample_host operations_file ?d = (Inr (), ?d)"
    by (simp add: assert_business_write_allowed_def covers_def operation_auth_def)
  have "finished_entry call_env staff_caller (lit ''create_task'') (lit ''o1'') 101 sample_answer =
      [(lit ''actor'', JStr (lit ''a'')), (lit ''operation'', JStr (lit ''create_task'')), (lit ''operation_id'', JStr (lit ''o1'')), (lit ''status'', JStr (lit ''completed'')),
       (lit ''created_at'', JStr (clock_print 101)), (lit ''result'', JObj sample_answer)]"
    by (simp add: finished_entry_def sample_answer_reads answered_status or_else_def staff_caller_def staff_identity_def)
  then have "encodable (json_text (ho_floats sample_host) (put_entry (operation_key staff_caller (lit ''create_task'') (lit ''o1''))
      (finished_entry call_env staff_caller (lit ''create_task'') (lit ''o1'') 101 sample_answer) (JObj [])))"
    using sample_answer_reads(3) [of "ho_floats sample_host"] by (simp add: put_entry_def operation_key_def staff_caller_def staff_identity_def clock_print_def)
  then show ?thesis
    by (simp add: operation_end_def Let_def strip_o1 sample_result sample_answer_def [symmetric] finish_receipt_def authorized_business_write_def update_json_def allowed
        sample_operations put_doc_def)
qed

lemma sample_key: "operation_key staff_caller (lit ''create_task'') (strip (lit ''o1'')) = operation_key staff_caller (lit ''create_task'') (lit ''o1'')"
  by (simp add: strip_o1)

lemma executed_write_was_authorized_witness:
  "\<exists>dd'. operation_begin call_env staff_caller (lit ''o1'') (lit ''create_task'') 100 (sample_dir True) = (Inr (Execute (lit ''l'')), dd') \<and>
    entry_of (operation_key staff_caller (lit ''create_task'') (lit ''o1'')) dd' = JObj (claim_entry call_env staff_caller (lit ''create_task'') (lit ''o1'') 100)"
proof -
  obtain dd' where b: "operation_begin call_env staff_caller (lit ''o1'') (lit ''create_task'') 100 (sample_dir True) = (Inr (Execute (lit ''l'')), dd')"
    using sample_begin by blast
  from executed_write_was_authorized [OF b] b show ?thesis by (simp add: strip_o1)
qed

lemma claimed_operation_runs_once_witness:
  "\<exists>dd1. operation_begin call_env staff_caller (lit ''o1'') (lit ''create_task'') 100 (sample_dir True) = (Inr (Execute (lit ''l'')), dd1) \<and>
    fst (operation_begin call_env staff_caller (lit ''o1'') (lit ''create_task'') 500
      (fold op_step [Begin call_env staff_caller (lit ''o1'') (lit ''create_task'') 200, Command (Save_all sample_host [])] dd1)) \<noteq> Inr (Execute (lit ''l''))"
proof -
  obtain dd1 where b: "operation_begin call_env staff_caller (lit ''o1'') (lit ''create_task'') 100 (sample_dir True) = (Inr (Execute (lit ''l'')), dd1)"
    using sample_begin by blast
  have "operations_file \<noteq> tasks_file" by (simp add: operations_file_def tasks_file_def)
  with b show ?thesis
    by (intro exI [of _ dd1] conjI b claimed_operation_runs_once [OF b]) (simp_all add: clock_seconds claim_lease_def)
qed

lemma finished_operation_never_runs_again_witness:
  "\<exists>dd1. operation_end call_env staff_caller (lit ''o1'') (lit ''create_task'') (lit ''l'') (Inr written_result) 101 (sample_dir True) = (Inr sample_answer, dd1) \<and>
    fst (operation_begin call_env staff_caller (lit ''o1'') (lit ''create_task'') 9000
      (fold op_step [Begin call_env staff_caller (lit ''o1'') (lit ''create_task'') 5000, Command (Save_all sample_host [])] dd1)) \<noteq> Inr (Execute (lit ''l''))"
proof -
  obtain dd1 where e: "operation_end call_env staff_caller (lit ''o1'') (lit ''create_task'') (lit ''l'') (Inr written_result) 101 (sample_dir True) = (Inr sample_answer, dd1)"
    using sample_end by blast
  have "operations_file \<noteq> tasks_file" by (simp add: operations_file_def tasks_file_def)
  then show ?thesis
    by (intro exI [of _ dd1] conjI e finished_operation_never_runs_again [OF e]) simp_all
qed

lemma success_needs_a_verified_write_witness:
  "\<exists>dd1. operation_end call_env staff_caller (lit ''o1'') (lit ''create_task'') (lit ''l'') (Inr written_result) 101 (sample_dir True) = (Inr sample_answer, dd1) \<and>
    (\<exists>e. entry_of (operation_key staff_caller (lit ''create_task'') (lit ''o1'')) dd1 = JObj e \<and> dget e (lit ''result'') = JObj sample_answer)"
proof -
  obtain dd1 where e: "operation_end call_env staff_caller (lit ''o1'') (lit ''create_task'') (lit ''l'') (Inr written_result) 101 (sample_dir True) = (Inr sample_answer, dd1)"
    using sample_end by blast
  from success_needs_a_verified_write [OF e] e show ?thesis by (simp add: strip_o1)
qed

lemma repeated_call_returns_the_stored_truth_witness:
  "\<exists>dd1 r dd2. operation_end call_env staff_caller (lit ''o1'') (lit ''create_task'') (lit ''l'') (Inr written_result) 101 (sample_dir False) = (Inr sample_answer, dd1) \<and>
    tool_operation call_env staff_caller (lit ''o1'') (lit ''create_task'') (\<lambda>d. (Inr [], d)) 200 201 dd1 = (Inr r, dd2) \<and>
    dd_docs dd2 = dd_docs dd1 \<and> dget r (lit ''already_applied'') = JBool True"
proof -
  obtain dd1 where e: "operation_end call_env staff_caller (lit ''o1'') (lit ''create_task'') (lit ''l'') (Inr written_result) 101 (sample_dir False) = (Inr sample_answer, dd1)"
    using sample_end by blast
  obtain i where i: "runtime_auth call_env staff_caller (lit ''create_task'') = Some i" "ri_ledger_id i = lit ''l''" "ri_raw_text i = lit ''hi''" using staff_auth by blast
  have "strip (lit ''o1'') \<noteq> []" "tc_identity staff_caller = staff_identity" by (simp_all add: strip_o1 staff_caller_def)
  with i have "\<exists>r dd2. tool_operation call_env staff_caller (lit ''o1'') (lit ''create_task'') (\<lambda>d. (Inr [], d)) 200 201 dd1 = (Inr r, dd2) \<and> dd_docs dd2 = dd_docs dd1 \<and>
    dget r (lit ''ok'') = dget sample_answer (lit ''ok'') \<and> dget r (lit ''execution_receipt'') = dget sample_answer (lit ''execution_receipt'') \<and>
    dget r (lit ''already_applied'') = JBool (dget (as_dict (dget sample_answer (lit ''execution_receipt''))) (lit ''status'') = JStr (lit ''completed'') \<and>
      dget (as_dict (dget sample_answer (lit ''execution_receipt''))) (lit ''writeback_verified'') = JBool True)"
    by (intro repeated_call_returns_the_stored_truth [OF e]) (simp_all add: staff_passes hi_is_no_retry)
  with e show ?thesis by (auto simp: sample_answer_reads answered_status)
qed

lemma guarded_service_cannot_schedule_recheck_witness:
  "\<exists>r dd'. tool_operation call_env agenda_caller (lit ''o1'') (lit ''agenda_schedule_task_recheck'') (\<lambda>d. (Inr written_result, d)) 100 101 (sample_dir True) = (Inr r, dd') \<and>
    dget r (lit ''error'') = JStr (lit ''unauthorized_write_blocked'') \<and> dd_docs dd' = dd_docs (sample_dir True)"
proof -
  have "lit ''agenda_schedule_task_recheck'' \<in> set unlisted_write_operations"
    unfolding unlisted_write_operations_def supported_write_operations_def service_write_operations_def by (simp add: lit_in_map)
  moreover have "tc_identity agenda_caller = agenda_identity" "tc_turn agenda_caller = Some agenda_turn" by (simp_all add: agenda_caller_def)
  ultimately show ?thesis
    using guarded_service_cannot_schedule_recheck [of "sample_dir True" "lit ''agenda_schedule_task_recheck''" "lit ''o1''" agenda_caller call_env "\<lambda>d. (Inr written_result, d)" 100 101]
    by (auto simp: sample_guard strip_o1 agenda_trusted)
qed

lemma service_row_appends:
  assumes "H = sample_host" "r = policy_row (lit ''T'') agenda_identity (lit ''context'') True ''read_or_context_scope'' []"
  shows "\<exists>dd'. append_jsonl_verified H policy_audit_file r (sample_dir False) = (Inr True, dd')"
proof -
  have "row_text H r = row_text sample_host r" using assms by simp
  have one: "one_line (row_text H r) \<and> encodable (row_text H r) \<and> printable (ho_floats H) (JObj r)"
    unfolding assms by (simp add: policy_row_def row_text_def agenda_identity_def remove_prefix_def policy_prefix_def)
      (simp add: lit_def json_string_def json_escape_def one_line_def line_break_def decimal_def digits.simps)
  have "valid_name policy_audit_file" by (simp add: valid_name_def policy_audit_file_def) (simp add: lit_def)
  then show ?thesis
    using append_succeeds [of policy_audit_file H "sample_dir False" r] one by (simp add: sample_allowed assms(1) well_ended_def sample_ledger)
qed

lemma passed_service_call_is_trusted_and_audited_witness:
  "\<exists>dd' row. enforce_agenda_service_tool_call sample_host (lit ''T'') (Some agenda_turn) agenda_identity (\<lambda>_. None) (lit ''context'') [] (sample_dir False) = (Inr None, dd') \<and>
    append_jsonl_verified sample_host policy_audit_file row (sample_dir False) = (Inr True, dd') \<and> dget row (lit ''decision'') = JStr (lit ''allowed'')"
proof -
  obtain dd' where a: "append_jsonl_verified sample_host policy_audit_file (policy_row (lit ''T'') agenda_identity (lit ''context'') True ''read_or_context_scope'' [])
      (sample_dir False) = (Inr True, dd')" using service_row_appends [OF refl refl] by blast
  have "lit ''context'' \<in> set allowed_tool_methods" "lit ''context'' \<noteq> lit ''update_hermes_work_item''" by (simp_all add: allowed_tool_methods_def)
  with a have "enforce_agenda_service_tool_call sample_host (lit ''T'') (Some agenda_turn) agenda_identity (\<lambda>_. None) (lit ''context'') [] (sample_dir False) = (Inr None, dd')"
    by (simp add: enforce_agenda_service_tool_call_def agenda_trusted allow_with_def audit_policy_def)
  with passed_service_call_is_trusted_and_audited [OF this agenda_trusted(1)] show ?thesis by blast
qed

lemma finished_turn_authorizes_no_write_witness:
  "write_authorization_for None (lit ''a'') (lit ''create_task'') (fold pending_step [Entered (lit ''s'') (lit ''a'') (lit ''hi''),
      Inbound True [] (lit ''m2'') (lit ''b'') [] []] (finish_runtime_turn (lit ''a'') (lit ''m'') (tc_pending staff_caller))) = None"
proof -
  obtain i where "map_of (tc_pending staff_caller) (lit ''a'') = Some i" "ri_message_id i = lit ''m''" by (simp add: staff_caller_def)
  then show ?thesis by (rule finished_turn_authorizes_no_write) simp
qed

end
