(* ===== verification/ToolReceipts.thy ===== *)
theory ToolReceipts
  imports ToolFacts DirectReply
begin

text \<open>
  \<^verbatim>\<open>runtime/plugins/tuoguan_core/work_runtime_receipts.py\<close>: the passive relay of tool receipts, with its
  evidence store and its listeners, and the part of the post-tool hook of \<^verbatim>\<open>__init__.py\<close> that feeds the
  direct reply manager. At the end, the composition with the write fence: a receipt that reaches a
  turn of the manager is that of a verified write.
\<close>

section \<open>Events\<close>

record tool_receipt_event = receipt_event +
  pe_event_id :: pystr
  pe_observed_at :: timestamp
  pe_tool_call_id :: pystr
  pe_tool_name :: pystr
  pe_args :: "(pystr, json) dict"

text \<open>A tool result is a dictionary or its JSON text.\<close>

definition parse_result :: "float_io \<Rightarrow> json \<Rightarrow> (pystr, json) dict option" where
  "parse_result F v = (case v of
     JObj d \<Rightarrow> Some d
   | JStr s \<Rightarrow> (case json_loads F s of Some (JObj d) \<Rightarrow> Some d | _ \<Rightarrow> None)
   | _ \<Rightarrow> None)"

definition execution_receipt_of :: "(pystr, json) dict \<Rightarrow> (pystr, json) dict option" where
  "execution_receipt_of result = (case dget result (lit ''execution_receipt'') of
     JObj r \<Rightarrow> Some r
   | _ \<Rightarrow> (case dget (data_of result) (lit ''execution_receipt'') of JObj r \<Rightarrow> Some r | _ \<Rightarrow> None))"

definition reported_writeback :: "(pystr, json) dict \<Rightarrow> bool" where
  "reported_writeback result = truthy (case map_of result (lit ''writeback_verified'') of
     Some v \<Rightarrow> v | None \<Rightarrow> dget (data_of result) (lit ''writeback_verified''))"

definition receipt_event_from_public_hook :: "host \<Rightarrow> timestamp \<Rightarrow> (pystr, json) dict \<Rightarrow> tool_receipt_event option" where
  "receipt_event_from_public_hook H now kwargs = (case parse_result (ho_floats H) (dget kwargs (lit ''result'')) of
     None \<Rightarrow> None
   | Some result \<Rightarrow> (case execution_receipt_of result of
       None \<Rightarrow> None
     | Some receipt \<Rightarrow> (let text = (\<lambda>k. text_of (ho_render H) (dget kwargs (lit k))) in
         Some \<lparr>re_session_id = text ''session_id'', re_turn_id = text ''turn_id'',
           re_result_ok = (case dget result (lit ''ok'') of JBool b \<Rightarrow> Some b | _ \<Rightarrow> None),
           re_result_writeback_verified = reported_writeback result, re_execution_receipt = receipt,
           pe_event_id = lit ''public-tool-receipt:'' @ ho_uuid H, pe_observed_at = now, pe_tool_call_id = text ''tool_call_id'',
           pe_tool_name = text ''tool_name'', pe_args = as_dict (dget kwargs (lit ''args''))\<rparr>)))"

section \<open>The evidence store\<close>

record evidence_turn =
  et_bridge_turn_id :: pystr
  et_session_id :: pystr
  et_origin_work_id :: pystr
  et_fact_count :: int
  et_state :: pystr
  et_opened_at :: timestamp
  et_closed_at :: "timestamp option"

record evidence_row =
  ev_event_id :: pystr
  ev_observed_at :: timestamp
  ev_hook_session_id :: pystr
  ev_hook_turn_id :: pystr
  ev_tool_call_id :: pystr
  ev_tool_name :: pystr
  ev_bridge_turn_id :: "pystr option"
  ev_origin_work_id :: "pystr option"
  ev_result_ok :: "bool option"
  ev_result_writeback_verified :: bool
  ev_receipt :: json

record evidence =
  es_turns :: "evidence_turn list"
  es_events :: "evidence_row list"

definition open_turns :: "pystr \<Rightarrow> evidence \<Rightarrow> evidence_turn list" where
  "open_turns session ev = filter (\<lambda>t. et_session_id t = session \<and> et_state t = lit ''open'') (es_turns ev)"

definition attributed :: "evidence_turn list \<Rightarrow> pystr option \<times> pystr option" where
  "attributed rows = (case rows of
     [t] \<Rightarrow> (Some (et_bridge_turn_id t), if et_fact_count t = 1 then Some (et_origin_work_id t) else None)
   | _ \<Rightarrow> (None, None))"

definition evidence_row_of :: "evidence \<Rightarrow> tool_receipt_event \<Rightarrow> evidence_row" where
  "evidence_row_of ev e = (let (bridge, origin) = attributed (open_turns (re_session_id e) ev) in
     \<lparr>ev_event_id = pe_event_id e, ev_observed_at = pe_observed_at e, ev_hook_session_id = re_session_id e, ev_hook_turn_id = re_turn_id e,
      ev_tool_call_id = pe_tool_call_id e, ev_tool_name = pe_tool_name e, ev_bridge_turn_id = bridge, ev_origin_work_id = origin,
      ev_result_ok = re_result_ok e, ev_result_writeback_verified = re_result_writeback_verified e,
      ev_receipt = sort_keys (JObj (re_execution_receipt e))\<rparr>)"

text \<open>The store is configured by a path; an event id that is stored already is an integrity error.\<close>

definition persist_evidence :: "pystr \<Rightarrow> tool_receipt_event \<Rightarrow> (evidence, wr_error, unit) op" where
  "persist_evidence path e ev =
     (if strip path = [] then (Inr (), ev)
      else case insert_row ev_event_id (evidence_row_of ev e) (es_events ev) of
        None \<Rightarrow> (Inl Integrity_error, ev)
      | Some rows \<Rightarrow> (Inr (), ev\<lparr>es_events := rows\<rparr>))"

section \<open>Listeners\<close>

text \<open>A listener changes a state of its own, \<open>'l\<close>, and may raise.\<close>

type_synonym 'l listener = "tool_receipt_event \<Rightarrow> ('l, wr_error, unit) op"

definition register_public_tool_receipt_listener :: "pystr \<Rightarrow> 'l listener \<Rightarrow> (pystr, 'l listener) dict \<Rightarrow> pystr \<times> (pystr, 'l listener) dict" where
  "register_public_tool_receipt_listener uuid l ls = (let token = lit ''public-tool-receipt:'' @ uuid in (token, AList.update token l ls))"

definition unregister_public_tool_receipt_listener :: "pystr \<Rightarrow> (pystr, 'l listener) dict \<Rightarrow> (pystr, 'l listener) dict" where
  "unregister_public_tool_receipt_listener token ls = AList.delete token ls"

definition notify :: "(pystr, 'l listener) dict \<Rightarrow> tool_receipt_event \<Rightarrow> 'l \<Rightarrow> 'l" where
  "notify ls e = fold (\<lambda>l s. snd (l e s)) (map snd ls)"

definition observe_public_post_tool_call :: "host \<Rightarrow> pystr \<Rightarrow> (pystr, 'l listener) dict \<Rightarrow> timestamp \<Rightarrow> (pystr, json) dict \<Rightarrow> evidence \<times> 'l \<Rightarrow> evidence \<times> 'l" where
  "observe_public_post_tool_call H path ls now kwargs s = (case receipt_event_from_public_hook H now kwargs of
     None \<Rightarrow> s
   | Some e \<Rightarrow> (snd (persist_evidence path e (fst s)), notify ls e (snd s)))"

text \<open>The receipt part of \<open>_on_post_tool_call\<close>: each observation makes an event of its own; what is raised is logged.\<close>

definition relay_receipts :: "host \<Rightarrow> host \<Rightarrow> pystr \<Rightarrow> (pystr, 'l listener) dict \<Rightarrow> timestamp \<Rightarrow> (pystr, json) dict \<Rightarrow>
    (evidence \<times> 'l) \<times> manager \<Rightarrow> (evidence \<times> 'l) \<times> manager" where
  "relay_receipts H H' path ls now kwargs s =
     (observe_public_post_tool_call H path ls now kwargs (fst s),
      case receipt_event_from_public_hook H' now kwargs of
        None \<Rightarrow> snd s
      | Some e \<Rightarrow> snd (observe_verified_receipt (ho_render H') (receipt_event.truncate e) now (snd s)))"

section \<open>Evidence\<close>

text \<open>
  Evidence is attributed to an attested origin only. After any observation of a tool call the
  stored events are the former ones, and at most one new one, which names a work origin exactly when its
  session has one open turn, that turn carries a single fact, and the origin is that turn's; the
  turns themselves are not changed.
\<close>

theorem evidence_names_the_attested_origin:
  assumes "observe_public_post_tool_call H path ls now kwargs (ev, l) = (ev', l')"
  shows "es_turns ev' = es_turns ev \<and> (es_events ev' = es_events ev \<or> (\<exists>row. es_events ev' = es_events ev @ [row] \<and> ev_event_id row \<notin> ev_event_id ` set (es_events ev) \<and>
    (\<forall>w. ev_origin_work_id row = Some w \<longleftrightarrow> (\<exists>t. open_turns (ev_hook_session_id row) ev = [t] \<and> et_fact_count t = 1 \<and> et_origin_work_id t = w))))"
proof (cases "receipt_event_from_public_hook H now kwargs")
  case None
  then show ?thesis using assms by (simp add: observe_public_post_tool_call_def)
next
  case (Some e)
  have row: "ev_hook_session_id (evidence_row_of ev e) = re_session_id e" "ev_event_id (evidence_row_of ev e) = pe_event_id e"
    "ev_origin_work_id (evidence_row_of ev e) = snd (attributed (open_turns (re_session_id e) ev))"
    by (simp_all add: evidence_row_of_def split: prod.split)
  have origin: "snd (attributed rows) = Some w \<longleftrightarrow> (\<exists>t. rows = [t] \<and> et_fact_count t = 1 \<and> et_origin_work_id t = w)" for rows w
    by (auto simp: attributed_def split: list.split)
  have "ev' = snd (persist_evidence path e ev)" using assms Some by (simp add: observe_public_post_tool_call_def)
  then show ?thesis
    using row origin by (auto simp: persist_evidence_def insert_row_def)
qed

section \<open>From the fence to the reply\<close>


section \<open>Sample observations\<close>

definition hook_kwargs :: "(pystr, json) dict" where
  "hook_kwargs = [(lit ''session_id'', JStr (lit ''s1'')), (lit ''turn_id'', JStr (lit ''m1'')), (lit ''tool_name'', JStr (lit ''tool'')), (lit ''result'', JObj sample_answer)]"

lemma hook_reads: "dget hook_kwargs (lit ''result'') = JObj sample_answer" "dget hook_kwargs (lit ''session_id'') = JStr (lit ''s1'')"
    "dget hook_kwargs (lit ''turn_id'') = JStr (lit ''m1'')"
  by (simp_all add: hook_kwargs_def dget_def)

lemma hook_event: "\<exists>e. receipt_event_from_public_hook sample_host 102 hook_kwargs = Some e \<and> re_session_id e = lit ''s1''"
  by (simp add: receipt_event_from_public_hook_def hook_reads parse_result_def execution_receipt_of_def sample_answer_reads)

definition open_evidence :: evidence where
  "open_evidence = \<lparr>es_turns = [\<lparr>et_bridge_turn_id = lit ''b'', et_session_id = lit ''s1'', et_origin_work_id = lit ''w'', et_fact_count = 1, et_state = lit ''open'',
     et_opened_at = 100, et_closed_at = None\<rparr>], es_events = []\<rparr>"

lemma evidence_names_the_attested_origin_witness:
  "\<exists>ev row. fst (observe_public_post_tool_call sample_host (lit ''p'') [] 102 hook_kwargs (open_evidence, ())) = ev \<and> es_events ev = [row] \<and> ev_origin_work_id row = Some (lit ''w'')"
proof -
  obtain e where e: "receipt_event_from_public_hook sample_host 102 hook_kwargs = Some e" "re_session_id e = lit ''s1''" using hook_event by blast
  obtain ev l where o: "observe_public_post_tool_call sample_host (lit ''p'') [] 102 hook_kwargs (open_evidence, ()) = (ev, l)" by (rule prod.exhaust)
  have open1: "open_turns (lit ''s1'') open_evidence = es_turns open_evidence" by (simp add: open_turns_def open_evidence_def)
  have "strip (lit ''p'') \<noteq> []" by (simp add: strip_def lit_def is_space_def)
  then have ne: "es_events ev = [evidence_row_of open_evidence e]"
    using o e(1) by (auto simp: observe_public_post_tool_call_def persist_evidence_def insert_row_def) (simp_all add: open_evidence_def)
  have s: "ev_hook_session_id (evidence_row_of open_evidence e) = lit ''s1''" by (simp add: evidence_row_of_def e(2) split: prod.split)
  from evidence_names_the_attested_origin [OF o] ne have "\<forall>w. ev_origin_work_id (evidence_row_of open_evidence e) = Some w \<longleftrightarrow>
      (\<exists>t. open_turns (ev_hook_session_id (evidence_row_of open_evidence e)) open_evidence = [t] \<and> et_fact_count t = 1 \<and> et_origin_work_id t = w)"
    by (auto simp: open_evidence_def)
  then have "ev_origin_work_id (evidence_row_of open_evidence e) = Some (lit ''w'')" unfolding s open1 by (simp add: open_evidence_def)
  with o ne show ?thesis by auto
qed


end
