(* ===== verification/IdentityAuthority.thy ===== *)
theory IdentityAuthority
  imports ExecutionReceipts TurnRegistry
begin

text \<open>
  \<^verbatim>\<open>runtime/plugins/tuoguan_core/personnel_identity_authority.py\<close>: the aggregate of people and employments
  that decides, once it is enforced, who a verified user id is and which role it has; its validation,
  its lookups, the entry of an unknown user id, and the migration from the old directory. \<open>str.lower\<close>
  is exact on ASCII; the digest and the printer of values are arguments.
\<close>

section \<open>Reading the aggregate\<close>

datatype id_error = Id_store store_error | Id_authority string | Id_python py_exn | Id_index

definition governance_file :: pystr where
  "governance_file = lit ''personnel_service_governance_v1.json''"

definition allowed_roles :: "pystr list" where
  "allowed_roles = map lit [''boss'', ''manager'', ''teacher'']"

definition person_states :: "pystr list" where
  "person_states = map lit [''pending'', ''active'', ''suspended'', ''left'']"

record resolution =
  rs_enforced :: bool
  rs_approval_state :: pystr
  rs_role :: pystr
  rs_display_name :: pystr
  rs_why :: string

definition object_rows :: "json \<Rightarrow> (pystr, json) dict list" where
  "object_rows v = (case v of JList xs \<Rightarrow> map as_dict (filter is_object xs) | _ \<Rightarrow> [])"

definition authority_of :: "json \<Rightarrow> (pystr, json) dict" where
  "authority_of v = as_dict (dget (as_dict v) (lit ''runtime_identity_authority''))"

definition text_in :: "host \<Rightarrow> (pystr, json) dict \<Rightarrow> string \<Rightarrow> pystr" where
  "text_in H row k = text_of (ho_render H) (dget row (lit k))"

definition authority_is_enforced :: "host \<Rightarrow> json \<Rightarrow> bool" where
  "authority_is_enforced H v \<longleftrightarrow> lower (strip (text_in H (authority_of v) ''mode'')) = lit ''enforced''"

definition authority_tenant :: "host \<Rightarrow> (pystr, json) dict \<Rightarrow> pystr" where
  "authority_tenant H doc = strip (text_in H (authority_of (JObj doc)) ''tenant_id'')"

definition active_employments :: "host \<Rightarrow> (pystr, json) dict \<Rightarrow> pystr \<Rightarrow> pystr \<Rightarrow> (pystr, json) dict list" where
  "active_employments H doc tenant user = filter (\<lambda>r. text_in H r ''tenant_id'' = tenant \<and> text_in H r ''staff_user_id'' = user
     \<and> text_in H r ''state'' = lit ''active'' \<and> text_in H r ''effective_until'' = []) (object_rows (dget doc (lit ''employments'')))"

definition people_of :: "(pystr, json) dict \<Rightarrow> (pystr, json) dict list" where
  "people_of doc = object_rows (dget doc (lit ''people''))"

definition person_id :: "host \<Rightarrow> (pystr, json) dict \<Rightarrow> pystr" where
  "person_id H p = strip (text_in H p ''staff_user_id'')"

definition person_state :: "host \<Rightarrow> (pystr, json) dict \<Rightarrow> pystr" where
  "person_state H p = lower (strip (text_in H p ''state''))"

definition employment_role :: "host \<Rightarrow> (pystr, json) dict \<Rightarrow> pystr" where
  "employment_role H e = lower (strip (text_in H e ''role''))"

section \<open>Validation\<close>

text \<open>The loop over the people: the active bosses and the user ids seen so far, or the code of the error.\<close>

fun check_people :: "host \<Rightarrow> (pystr, json) dict \<Rightarrow> pystr \<Rightarrow> (pystr, json) dict list \<Rightarrow> pystr list \<times> pystr list \<Rightarrow> string + pystr list \<times> pystr list" where
  "check_people H doc tenant [] acc = Inr acc"
| "check_people H doc tenant (p # ps) (bosses, seen) =
     (if text_in H p ''tenant_id'' \<noteq> tenant then check_people H doc tenant ps (bosses, seen)
      else if person_id H p = [] \<or> person_state H p \<notin> set person_states then Inl ''identity_authority_person_invalid''
      else if person_id H p \<in> set seen then Inl ''identity_authority_duplicate_userid''
      else if person_state H p \<noteq> lit ''active'' then check_people H doc tenant ps (bosses, seen @ [person_id H p])
      else (case active_employments H doc tenant (person_id H p) of
        [e] \<Rightarrow> if employment_role H e \<notin> set allowed_roles then Inl ''identity_authority_role_invalid''
          else check_people H doc tenant ps (if employment_role H e = lit ''boss'' then bosses @ [person_id H p] else bosses, seen @ [person_id H p])
      | _ \<Rightarrow> Inl ''identity_authority_active_employment_invalid''))"

definition access_of :: "(pystr, json) dict \<Rightarrow> string \<Rightarrow> (pystr, json) dict" where
  "access_of doc kind = as_dict (dget (as_dict (dget doc (lit ''identity_access''))) (lit kind))"

definition overlap :: "pystr list \<Rightarrow> pystr list \<Rightarrow> bool" where
  "overlap xs ys \<longleftrightarrow> list_ex (\<lambda>x. x \<in> set ys) xs"

text \<open>\<open>None\<close> is a document that may be used.\<close>

definition validate_runtime_identity_document :: "host \<Rightarrow> json \<Rightarrow> string option" where
  "validate_runtime_identity_document H v =
     (let doc = as_dict v; tenant = authority_tenant H doc;
          pending = map fst (access_of doc ''pending''); rejected = map fst (access_of doc ''rejected'') in
      if \<not> authority_is_enforced H v then None
      else if tenant = [] then Some ''identity_authority_tenant_missing''
      else (case check_people H doc tenant (people_of doc) ([], []) of
        Inl e \<Rightarrow> Some e
      | Inr (bosses, seen) \<Rightarrow>
          if length bosses \<noteq> 1 then Some ''identity_authority_requires_exactly_one_active_boss''
          else if overlap pending rejected then Some ''identity_authority_access_state_conflict''
          else if overlap pending seen \<or> overlap rejected seen then Some ''identity_authority_person_access_conflict''
          else None))"

section \<open>Resolution\<close>

definition invalid_resolution :: "string \<Rightarrow> resolution" where
  "invalid_resolution why = \<lparr>rs_enforced = True, rs_approval_state = lit ''authority_invalid'', rs_role = lit ''unknown'', rs_display_name = [], rs_why = why\<rparr>"

definition access_resolution :: "string \<Rightarrow> string \<Rightarrow> resolution" where
  "access_resolution state why = \<lparr>rs_enforced = True, rs_approval_state = lit state, rs_role = lit ''unknown'', rs_display_name = [], rs_why = why\<rparr>"

definition find_person :: "host \<Rightarrow> (pystr, json) dict \<Rightarrow> pystr \<Rightarrow> pystr \<Rightarrow> (pystr, json) dict option" where
  "find_person H doc tenant key = List.find (\<lambda>p. text_in H p ''tenant_id'' = tenant \<and> text_in H p ''staff_user_id'' = key) (people_of doc)"

definition person_resolution :: "host \<Rightarrow> (pystr, json) dict \<Rightarrow> pystr \<Rightarrow> pystr \<Rightarrow> (pystr, json) dict \<Rightarrow> id_error + resolution" where
  "person_resolution H doc tenant key p =
     (if person_state H p \<noteq> lit ''active''
      then Inr \<lparr>rs_enforced = True, rs_approval_state = person_state H p, rs_role = lit ''unknown'', rs_display_name = strip (text_in H p ''display_name''),
        rs_why = ''person_not_active''\<rparr>
      else case active_employments H doc tenant key of
        [] \<Rightarrow> Inl Id_index
      | e # _ \<Rightarrow> Inr \<lparr>rs_enforced = True, rs_approval_state = lit ''approved'', rs_role = employment_role H e,
          rs_display_name = strip (text_in H p ''display_name''), rs_why = ''authoritative_personnel_record''\<rparr>)"

definition resolve_document :: "host \<Rightarrow> pystr \<Rightarrow> pystr \<Rightarrow> json \<Rightarrow> id_error + resolution option" where
  "resolve_document H tenant_id user_id v =
     (let doc = as_dict v; tenant = authority_tenant H doc; key = strip user_id in
      if \<not> authority_is_enforced H (JObj doc) then Inr None
      else case validate_runtime_identity_document H (JObj doc) of
        Some e \<Rightarrow> Inr (Some (invalid_resolution e))
      | None \<Rightarrow>
          if strip tenant_id \<noteq> tenant then Inr (Some (invalid_resolution ''identity_authority_tenant_mismatch''))
          else (case find_person H doc tenant key of
            Some p \<Rightarrow> map_sum id Some (person_resolution H doc tenant key p)
          | None \<Rightarrow>
              if key \<in> set (map fst (access_of doc ''rejected'')) then Inr (Some (access_resolution ''rejected'' ''rejected_identity_access''))
              else if key \<in> set (map fst (access_of doc ''pending'')) then Inr (Some (access_resolution ''pending'' ''pending_identity_access''))
              else Inr (Some (access_resolution ''pending'' ''unrecognized_verified_userid''))))"

definition read_governance :: "data_dir \<Rightarrow> id_error + json" where
  "read_governance dd = map_sum Id_store id (read_json governance_file (JObj []) dd)"

definition resolve_runtime_identity :: "host \<Rightarrow> pystr \<Rightarrow> pystr \<Rightarrow> data_dir \<Rightarrow> id_error + resolution option" where
  "resolve_runtime_identity H tenant_id user_id dd = sbind (read_governance dd) (resolve_document H tenant_id user_id)"

section \<open>Unknown user ids\<close>

definition pending_row :: "host \<Rightarrow> pystr \<Rightarrow> pystr \<Rightarrow> pystr \<Rightarrow> pystr \<Rightarrow> (pystr, json) dict \<Rightarrow> (pystr, json) dict" where
  "pending_row H key platform user_name chat_id row = [(lit ''platform'', JStr (or_else platform (lit ''wecom''))), (lit ''user_id'', JStr key),
     (lit ''display_hint'', JStr (strip user_name)), (lit ''chat_scope'', JStr (strip chat_id)),
     (lit ''first_seen_at'', JStr (or_else (text_in H row ''first_seen_at'') (ho_now H))), (lit ''last_seen_at'', JStr (ho_now H))]"

definition put_pending :: "host \<Rightarrow> pystr \<Rightarrow> pystr \<Rightarrow> pystr \<Rightarrow> pystr \<Rightarrow> (pystr, json) dict \<Rightarrow> json" where
  "put_pending H key platform user_name chat_id doc =
     (let access = as_dict (dget doc (lit ''identity_access'')); pending = access_of doc ''pending'';
          pending' = AList.update key (JObj (pending_row H key platform user_name chat_id (as_dict (dget pending key)))) pending in
      JObj (AList.update (lit ''identity_access'') (JObj (AList.update (lit ''rejected'') (JObj (access_of doc ''rejected''))
        (AList.update (lit ''pending'') (JObj pending') access))) doc))"

text \<open>The update of the aggregate; an error of the authority is the cause of a store error.\<close>

definition pending_update :: "host \<Rightarrow> pystr \<Rightarrow> pystr \<Rightarrow> pystr \<Rightarrow> pystr \<Rightarrow> pystr \<Rightarrow> json \<Rightarrow> store_error + json option" where
  "pending_update H tenant_id key platform user_name chat_id raw =
     (let doc = as_dict raw in
      if \<not> authority_is_enforced H (JObj doc) then Inr (Some (JObj doc))
      else case validate_runtime_identity_document H (JObj doc) of
        Some e \<Rightarrow> Inl (Store_error e)
      | None \<Rightarrow>
          if authority_tenant H doc \<noteq> strip tenant_id then Inl (Store_error ''identity_authority_tenant_mismatch'')
          else if key \<in> set (map fst (access_of doc ''rejected'')) then Inr (Some (JObj doc))
          else Inr (Some (put_pending H key platform user_name chat_id doc)))"

definition cause_of :: "store_error \<Rightarrow> id_error" where
  "cause_of e = (case e of
     Store_error code \<Rightarrow> if take 18 code = ''identity_authority'' then Id_authority code else Id_store e
   | _ \<Rightarrow> Id_store e)"

definition record_pending_runtime_identity :: "host \<Rightarrow> pystr \<Rightarrow> pystr \<Rightarrow> pystr \<Rightarrow> pystr \<Rightarrow> pystr \<Rightarrow> (data_dir, id_error, unit) op" where
  "record_pending_runtime_identity H tenant_id user_id platform user_name chat_id dd =
     (if strip user_id = [] then (Inr (), dd)
      else case update_json H governance_file (JObj []) (pending_update H tenant_id (strip user_id) platform user_name chat_id) dd of
        (Inl e, dd1) \<Rightarrow> (Inl (cause_of e), dd1)
      | (Inr _, dd1) \<Rightarrow> (Inr (), dd1))"

section \<open>Views of the aggregate\<close>

fun snapshot_rows :: "host \<Rightarrow> pystr \<Rightarrow> data_dir \<Rightarrow> (pystr, json) dict list \<Rightarrow> (pystr, resolution) dict \<Rightarrow> id_error + (pystr, resolution) dict" where
  "snapshot_rows H tenant_id dd [] acc = Inr acc"
| "snapshot_rows H tenant_id dd (p # ps) acc =
     (if text_in H p ''tenant_id'' \<noteq> strip tenant_id \<or> person_id H p = [] then snapshot_rows H tenant_id dd ps acc
      else sbind (resolve_runtime_identity H tenant_id (person_id H p) dd) (\<lambda>r.
        snapshot_rows H tenant_id dd ps (case r of None \<Rightarrow> acc | Some x \<Rightarrow> AList.update (person_id H p) x acc)))"

definition active_identity_snapshot :: "host \<Rightarrow> pystr \<Rightarrow> data_dir \<Rightarrow> id_error + (pystr, resolution) dict option" where
  "active_identity_snapshot H tenant_id dd = sbind (read_governance dd) (\<lambda>v.
     let doc = as_dict v in
     if \<not> authority_is_enforced H (JObj doc) then Inr None
     else if validate_runtime_identity_document H (JObj doc) \<noteq> None then Inr (Some [])
     else if authority_tenant H doc \<noteq> strip tenant_id then Inr (Some [])
     else map_sum id Some (snapshot_rows H tenant_id dd (people_of doc) []))"

definition authority_owner_user_id :: "host \<Rightarrow> pystr \<Rightarrow> data_dir \<Rightarrow> id_error + pystr option" where
  "authority_owner_user_id H tenant_id dd = sbind (active_identity_snapshot H tenant_id dd) (\<lambda>s. Inr (case s of
     None \<Rightarrow> None
   | Some snapshot \<Rightarrow> (case filter (\<lambda>(u, r). rs_approval_state r = lit ''approved'' \<and> rs_role r = lit ''boss'') snapshot of
       [(u, r)] \<Rightarrow> Some u | _ \<Rightarrow> Some [])))"

end
