(* ===== verification/IdentityService.thy ===== *)
theory IdentityService
  imports IdentityAuthority
begin

text \<open>
  \<^verbatim>\<open>runtime/plugins/tuoguan_core/identity.py\<close>, the resolution of a sender to an identity, and the migration
  of the old directory in \<^verbatim>\<open>personnel_identity_authority.py\<close>. The platform is a text, the tenant of the
  installation an argument. A value that Python cannot iterate, hash or look up in is an exception.
\<close>

section \<open>The old directory\<close>

definition role_aliases :: "(pystr, pystr) dict" where
  "role_aliases = map (\<lambda>(k, v). (lit k, lit v)) [(''admin'', ''boss''), (''super_admin'', ''boss''), (''boss'', ''boss''), (''manager'', ''manager''), (''teacher'', ''teacher'')]"

definition alias_or :: "pystr \<Rightarrow> pystr \<Rightarrow> pystr" where
  "alias_or raw other = (case map_of role_aliases raw of Some r \<Rightarrow> r | None \<Rightarrow> other)"

definition texts_at :: "host \<Rightarrow> (pystr, json) dict \<Rightarrow> string \<Rightarrow> id_error + pystr list" where
  "texts_at H d key = map_sum Id_python id (texts_of (ho_render H) (dget d (lit key)))"

definition legacy_role :: "host \<Rightarrow> (pystr, json) dict \<Rightarrow> pystr \<Rightarrow> id_error + pystr" where
  "legacy_role H directory user = sbind (texts_at H directory ''super_users'') (\<lambda>super_users.
     if user \<in> set super_users then Inr (lit ''boss'')
     else (let raw = lower (strip (py_str (ho_render H) (por (dget (as_dict (dget directory (lit ''user_roles''))) user) (JStr (lit ''teacher''))))) in
       sbind (texts_at H directory ''summer_manager_ids'') (\<lambda>summer.
         if user \<in> set summer \<and> alias_or raw raw \<noteq> lit ''boss'' then Inr (lit ''manager'') else Inr (alias_or raw []))))"

text \<open>The Chinese words for having left, and for being out of use or paused, are lists of code points.\<close>

definition left_words :: "pystr list" where
  "left_words = [lit ''left'', lit ''offboarded'', lit ''terminated'', [31163, 32844]]"

definition suspended_words :: "pystr list" where
  "suspended_words = [lit ''suspended'', lit ''inactive'', [20572, 29992], [26242, 20572]]"

definition legacy_state :: "host \<Rightarrow> (pystr, json) dict \<Rightarrow> pystr" where
  "legacy_state H profile =
     (let raw = lower (strip (py_str (ho_render H) (por (dget profile (lit ''employment_status'')) (por (dget profile (lit ''status'')) (JStr (lit ''active'')))))) in
      if raw \<in> set left_words then lit ''left'' else if raw \<in> set suspended_words then lit ''suspended'' else lit ''active'')"

section \<open>The migration\<close>

definition migrated_person :: "host \<Rightarrow> (pystr \<Rightarrow> pystr) \<Rightarrow> pystr \<Rightarrow> pystr \<Rightarrow> (pystr, json) dict \<Rightarrow> (pystr, json) dict" where
  "migrated_person H sha tenant user profile = [(lit ''person_id'', JStr (lit ''person_migrated_'' @ take 20 (sha user))), (lit ''tenant_id'', JStr tenant),
     (lit ''staff_user_id'', JStr user), (lit ''display_name'', JStr (strip (py_str (ho_render H) (por (dget profile (lit ''business_name'')) (por (dget profile (lit ''name'')) (JStr [])))))),
     (lit ''state'', JStr (lit ''active'')), (lit ''created_at'', JStr (lit ''migration_pending_apply'')), (lit ''created_by'', JStr (lit ''legacy_identity_authority_migration''))]"

definition managed_campuses :: "host \<Rightarrow> pystr \<Rightarrow> (pystr, json) dict \<Rightarrow> id_error + json list" where
  "managed_campuses H role profile =
     (if role \<noteq> lit ''manager'' then Inr []
      else map_sum Id_python (\<lambda>xs. map JStr (filter (\<lambda>s. s \<noteq> []) (map (py_str (ho_render H)) xs))) (py_iter (por (dget profile (lit ''campus_ids'')) (JList []))))"

definition migrated_employment :: "host \<Rightarrow> (pystr \<Rightarrow> pystr) \<Rightarrow> pystr \<Rightarrow> pystr \<Rightarrow> pystr \<Rightarrow> json list \<Rightarrow> (pystr, json) dict \<Rightarrow> (pystr, json) dict" where
  "migrated_employment H sha tenant user role campuses profile = [(lit ''employment_id'', JStr (lit ''employment_migrated_'' @ take 20 (sha user))),
     (lit ''tenant_id'', JStr tenant), (lit ''staff_user_id'', JStr user), (lit ''role'', JStr role), (lit ''campus_id'', JStr (strip (text_in H profile ''campus_id''))),
     (lit ''managed_campus_ids'', JList campuses), (lit ''state'', JStr (lit ''active'')), (lit ''effective_from'', JStr (lit ''migration_pending_apply'')),
     (lit ''effective_until'', JStr []), (lit ''created_at'', JStr (lit ''migration_pending_apply'')), (lit ''created_by'', JStr (lit ''legacy_identity_authority_migration''))]"

record migration =
  mi_people :: "(pystr, json) dict list"
  mi_employments :: "(pystr, json) dict list"
  mi_bosses :: "pystr list"
  mi_blockers :: "pystr list"

definition utf8_error :: id_error where
  "utf8_error = Id_python (Py_error (lit ''UnicodeEncodeError''))"

text \<open>One approved user of the old directory.\<close>

definition migrate_user :: "host \<Rightarrow> (pystr \<Rightarrow> pystr) \<Rightarrow> pystr \<Rightarrow> (pystr, json) dict \<Rightarrow> (pystr, json) dict \<Rightarrow> pystr \<Rightarrow> migration \<Rightarrow> id_error + migration" where
  "migrate_user H sha tenant source profiles user mi =
     (let profile = as_dict (dget profiles user) in
      sbind (legacy_role H source user) (\<lambda>role.
        if role \<notin> set allowed_roles then Inr (mi\<lparr>mi_blockers := mi_blockers mi @ [lit ''legacy_role_unrecognized:'' @ user]\<rparr>)
        else if legacy_state H profile \<noteq> lit ''active''
        then Inr (mi\<lparr>mi_blockers := mi_blockers mi @ [lit ''legacy_approval_lifecycle_conflict:'' @ user]\<rparr>)
        else if \<not> encodable user then Inl utf8_error
        else sbind (managed_campuses H role profile) (\<lambda>campuses.
          Inr (mi\<lparr>mi_people := mi_people mi @ [migrated_person H sha tenant user profile],
            mi_employments := mi_employments mi @ [migrated_employment H sha tenant user role campuses profile],
            mi_bosses := (if role = lit ''boss'' then mi_bosses mi @ [user] else mi_bosses mi)\<rparr>))))"

fun migrate_users :: "host \<Rightarrow> (pystr \<Rightarrow> pystr) \<Rightarrow> pystr \<Rightarrow> (pystr, json) dict \<Rightarrow> (pystr, json) dict \<Rightarrow> pystr list \<Rightarrow> migration \<Rightarrow> id_error + migration" where
  "migrate_users H sha tenant source profiles [] mi = Inr mi"
| "migrate_users H sha tenant source profiles (u # us) mi = sbind (migrate_user H sha tenant source profiles u mi) (migrate_users H sha tenant source profiles us)"

definition migrated_access :: "string \<Rightarrow> pystr list \<Rightarrow> (pystr, json) dict" where
  "migrated_access origin us = fold (\<lambda>u d. AList.update u (JObj [(lit ''migrated_from'', JStr (lit origin))]) d) us []"

definition migrated_document :: "pystr \<Rightarrow> (pystr, json) dict \<Rightarrow> (pystr, json) dict \<Rightarrow> migration \<Rightarrow> (pystr, json) dict" where
  "migrated_document tenant pending rejected mi = [(lit ''schema_version'', JInt 3),
     (lit ''runtime_identity_authority'', JObj [(lit ''mode'', JStr (lit ''enforced'')), (lit ''tenant_id'', JStr tenant),
        (lit ''migration_source'', JStr (lit ''wecom_whitelist_and_staff_reviewed_snapshot'')), (lit ''activated_at'', JStr (lit ''migration_pending_apply''))]),
     (lit ''identity_access'', JObj [(lit ''pending'', JObj pending), (lit ''rejected'', JObj rejected)]),
     (lit ''people'', JList (map JObj (mi_people mi))), (lit ''employments'', JList (map JObj (mi_employments mi))),
     (lit ''students'', JList []), (lit ''service_relations'', JList []), (lit ''service_records'', JList []), (lit ''attentions'', JList []),
     (lit ''work_links'', JList []), (lit ''handovers'', JList []), (lit ''change_requests'', JList []), (lit ''operations'', JObj []), (lit ''audit'', JList [])]"

definition governance_lists :: "pystr list" where
  "governance_lists = map lit [''people'', ''employments'', ''students'', ''service_relations'', ''work_links'', ''handovers'']"

record bootstrap_report =
  br_tenant_id :: pystr
  br_approved_identity_count :: nat
  br_pending_identity_count :: nat
  br_rejected_identity_count :: nat
  br_active_boss_count :: nat
  br_blockers :: "pystr list"
  br_safe_to_apply :: bool

definition first_blockers :: "host \<Rightarrow> pystr \<Rightarrow> (pystr, json) dict \<Rightarrow> pystr list" where
  "first_blockers H tenant existing = (if tenant = [] then [lit ''tenant_id_required''] else []) @
     (if existing \<noteq> [] \<and> (authority_is_enforced H (JObj existing) \<or> list_ex (\<lambda>k. object_rows (dget existing k) \<noteq> []) governance_lists)
      then [lit ''existing_governance_requires_explicit_reconciliation''] else [])"

definition build_legacy_identity_authority_bootstrap :: "host \<Rightarrow> (pystr \<Rightarrow> pystr) \<Rightarrow> pystr \<Rightarrow> json \<Rightarrow> json \<Rightarrow> json \<Rightarrow> id_error + (pystr, json) dict \<times> bootstrap_report" where
  "build_legacy_identity_authority_bootstrap H sha tenant_id directory staff existing =
     (let tenant = strip tenant_id; source = as_dict directory in
      sbind (texts_at H source ''allowed_users'') (\<lambda>allowed. sbind (texts_at H source ''super_users'') (\<lambda>super_users.
      let approved = sort (remdups (allowed @ super_users)) in
      sbind (migrate_users H sha tenant source (as_dict staff) approved
        \<lparr>mi_people = [], mi_employments = [], mi_bosses = [], mi_blockers = first_blockers H tenant (as_dict existing)\<rparr>) (\<lambda>mi.
      sbind (texts_at H source ''pending_users'') (\<lambda>pending_users. sbind (texts_at H source ''rejected_users'') (\<lambda>rejected_users.
      let pending = migrated_access ''legacy_pending'' pending_users; rejected = migrated_access ''legacy_rejected'' rejected_users;
          blockers = mi_blockers mi @ (if length (mi_bosses mi) \<noteq> 1 then [lit ''legacy_requires_exactly_one_active_boss''] else [])
            @ (if overlap pending_users rejected_users then [lit ''legacy_pending_rejected_overlap''] else [])
            @ (if overlap (pending_users @ rejected_users) approved then [lit ''legacy_approved_access_state_overlap''] else []);
          document = migrated_document tenant pending rejected mi;
          blockers' = (if blockers \<noteq> [] then blockers
            else case validate_runtime_identity_document H (JObj document) of Some e \<Rightarrow> [lit e] | None \<Rightarrow> []) in
      Inr (document, \<lparr>br_tenant_id = tenant, br_approved_identity_count = length approved, br_pending_identity_count = length pending,
        br_rejected_identity_count = length rejected, br_active_boss_count = length (mi_bosses mi), br_blockers = blockers', br_safe_to_apply = (blockers' = [])\<rparr>)))))))"

section \<open>Resolving a sender\<close>

definition platform_key :: "pystr \<Rightarrow> pystr" where
  "platform_key platform = (if lower platform = lit ''feishu'' then lit ''feishu'' else lit ''wecom'')"

definition read_map :: "pystr \<Rightarrow> data_dir \<Rightarrow> id_error + (pystr, json) dict" where
  "read_map name dd = map_sum Id_store as_dict (read_json name (JObj []) dd)"

definition person_maps :: "data_dir \<Rightarrow> id_error + (pystr, json) dict \<times> (pystr, json) dict" where
  "person_maps dd = sbind (read_map (lit ''teacher_wecom_map.json'') dd) (\<lambda>wecom.
     sbind (read_map (lit ''teacher_feishu_map.json'') dd) (\<lambda>feishu. Inr (wecom, feishu)))"

definition person_name :: "host \<Rightarrow> pystr \<Rightarrow> pystr \<Rightarrow> data_dir \<Rightarrow> id_error + pystr" where
  "person_name H platform sender dd = sbind (person_maps dd) (\<lambda>(wecom, feishu).
     case List.find (\<lambda>(name, user). py_str (ho_render H) user = sender) (if platform = lit ''feishu'' then feishu else wecom) of
       Some (name, user) \<Rightarrow> Inr name
     | None \<Rightarrow> sbind (read_map (lit ''staff.json'') dd) (\<lambda>staff. Inr (case dget staff sender of
         JObj profile \<Rightarrow> strip (py_str (ho_render H) (por (dget profile (lit ''business_name'')) (por (dget profile (lit ''name'')) (JStr []))))
       | _ \<Rightarrow> [])))"

definition canonical_user_id :: "host \<Rightarrow> pystr \<Rightarrow> pystr \<Rightarrow> pystr \<Rightarrow> data_dir \<Rightarrow> id_error + pystr" where
  "canonical_user_id H platform sender name dd =
     (if platform \<noteq> lit ''feishu'' \<or> name = [] then Inr sender
      else sbind (person_maps dd) (\<lambda>(wecom, feishu). Inr (py_str (ho_render H) (por (dget wecom name) (JStr sender)))))"

definition application_row :: "host \<Rightarrow> pystr \<Rightarrow> pystr \<Rightarrow> pystr \<Rightarrow> pystr \<Rightarrow> pystr \<Rightarrow> (pystr, json) dict" where
  "application_row H platform sender user_name chat_id message_text = [(lit ''user_id'', JStr sender), (lit ''user_name'', JStr user_name), (lit ''chat_id'', JStr chat_id),
     (lit ''platform'', JStr platform), (lit ''last_seen'', JStr (ho_now H)), (lit ''last_message'', JStr (take 200 message_text))]"

definition is_application :: "pystr \<Rightarrow> json \<Rightarrow> bool" where
  "is_application sender v \<longleftrightarrow> is_object v \<and> dget (as_dict v) (lit ''user_id'') = JStr sender"

fun apply_first :: "(json \<Rightarrow> bool) \<Rightarrow> (json \<Rightarrow> json) \<Rightarrow> json list \<Rightarrow> json list" where
  "apply_first P f [] = []"
| "apply_first P f (x # xs) = (if P x then f x # xs else x # apply_first P f xs)"

definition applications_with :: "host \<Rightarrow> pystr \<Rightarrow> (pystr, json) dict \<Rightarrow> json list \<Rightarrow> json list" where
  "applications_with H sender payload applications =
     (if list_ex (is_application sender) applications
      then apply_first (is_application sender) (\<lambda>v. JObj (fold (\<lambda>(k, x). AList.update k x) payload (as_dict v))) applications
      else applications @ [JObj (payload @ [(lit ''first_seen'', JStr (ho_now H))])])"

definition set_default :: "string \<Rightarrow> json \<Rightarrow> (pystr, json) dict \<Rightarrow> (pystr, json) dict" where
  "set_default k v d = (if map_of d (lit k) = None then d @ [(lit k, v)] else d)"

definition list_at :: "(pystr, json) dict \<Rightarrow> string \<Rightarrow> id_error + json list" where
  "list_at d k = map_sum Id_python id (py_iter (por (dget d (lit k)) (JList [])))"

definition whitelist_file :: "pystr \<Rightarrow> pystr" where
  "whitelist_file platform = platform @ lit ''_whitelist.json''"

definition record_pending :: "host \<Rightarrow> pystr \<Rightarrow> pystr \<Rightarrow> pystr \<Rightarrow> pystr \<Rightarrow> pystr \<Rightarrow> (data_dir, id_error, unit) op" where
  "record_pending H platform sender user_name chat_id message_text dd =
     (case sbind (read_map (whitelist_file platform) dd) (\<lambda>data. sbind (list_at data ''pending_users'') (\<lambda>users.
         sbind (list_at data ''pending_applications'') (\<lambda>applications.
         let users' = (if JStr sender \<in> set users then users else users @ [JStr sender]);
             data1 = set_default ''user_roles'' (JObj []) (set_default ''rejected_users'' (JList []) (set_default ''allowed_users'' (JList [])
               (set_default ''super_users'' (JList []) data))) in
         Inr (JObj (AList.update (lit ''pending_applications'') (JList (applications_with H sender (application_row H platform sender user_name chat_id message_text) applications))
           (AList.update (lit ''pending_users'') (JList users') data1)))))) of
       Inl e \<Rightarrow> (Inl e, dd)
     | Inr v \<Rightarrow> (case write_json H (whitelist_file platform) v dd of (Inl e, dd1) \<Rightarrow> (Inl (Id_store e), dd1) | (Inr _, dd1) \<Rightarrow> (Inr (), dd1)))"

text \<open>\<open>sender in set(v or [])\<close>: an element that cannot be hashed is an exception.\<close>

definition in_set_of :: "(pystr, json) dict \<Rightarrow> string \<Rightarrow> pystr \<Rightarrow> id_error + bool" where
  "in_set_of d k sender = sbind (list_at d k) (\<lambda>xs.
     if list_ex (\<lambda>x. is_object x \<or> (case x of JList _ \<Rightarrow> True | _ \<Rightarrow> False)) xs then Inl (Id_python (Py_error (lit ''TypeError'')))
     else Inr (JStr sender \<in> set xs))"

definition raw_role :: "host \<Rightarrow> (pystr, json) dict \<Rightarrow> pystr \<Rightarrow> id_error + pystr" where
  "raw_role H data sender = (case por (dget data (lit ''user_roles'')) (JObj []) of
     JObj roles \<Rightarrow> Inr (text_of (ho_render H) (dget roles sender)) | _ \<Rightarrow> Inl (Id_python (Py_error (lit ''AttributeError''))))"

datatype directory_state = Dir_rejected | Dir_approved pystr | Dir_pending bool

definition directory_state_of :: "host \<Rightarrow> (pystr, json) dict \<Rightarrow> pystr \<Rightarrow> id_error + directory_state" where
  "directory_state_of H data sender = sbind (in_set_of data ''rejected_users'' sender) (\<lambda>rejected. sbind (in_set_of data ''pending_users'' sender) (\<lambda>pending.
     sbind (in_set_of data ''super_users'' sender) (\<lambda>super_user. sbind (in_set_of data ''allowed_users'' sender) (\<lambda>allowed.
     sbind (raw_role H data sender) (\<lambda>raw. sbind (list_at data ''summer_manager_ids'') (\<lambda>summer.
     Inr (if rejected then Dir_rejected
       else if super_user \<or> allowed then
         (let role = alias_or (or_else raw (if super_user then lit ''boss'' else lit ''teacher'')) (lit ''unknown'') in
          Dir_approved (if sender \<in> py_str (ho_render H) ` set summer \<and> role \<noteq> lit ''boss'' then lit ''manager'' else role))
       else Dir_pending pending)))))))"

definition identity_of :: "pystr \<Rightarrow> pystr \<Rightarrow> pystr \<Rightarrow> pystr \<Rightarrow> pystr \<Rightarrow> pystr \<Rightarrow> user_identity" where
  "identity_of platform sender user name role state = \<lparr>ui_platform = platform, ui_platform_user_id = sender, ui_canonical_user_id = user,
     ui_person_name = name, ui_role = role, ui_approval_state = state\<rparr>"

definition resolve_legacy :: "host \<Rightarrow> pystr \<Rightarrow> pystr \<Rightarrow> pystr \<Rightarrow> pystr \<Rightarrow> pystr \<Rightarrow> (data_dir, id_error, user_identity) op" where
  "resolve_legacy H platform sender user_name chat_id message_text dd =
     (case sbind (read_map (whitelist_file platform) dd) (\<lambda>data. directory_state_of H data sender) of
       Inl e \<Rightarrow> (Inl e, dd)
     | Inr st \<Rightarrow>
         (case (if st = Dir_pending False then record_pending H platform sender user_name chat_id message_text dd else (Inr (), dd)) of
           (Inl e, dd1) \<Rightarrow> (Inl e, dd1)
         | (Inr _, dd1) \<Rightarrow> (sbind (person_name H platform sender dd1) (\<lambda>name. sbind (canonical_user_id H platform sender name dd1) (\<lambda>user.
             Inr (identity_of platform sender user (or_else name user_name)
               (case st of Dir_approved role \<Rightarrow> role | _ \<Rightarrow> lit ''unknown'')
               (case st of Dir_rejected \<Rightarrow> lit ''rejected'' | Dir_approved _ \<Rightarrow> lit ''approved'' | Dir_pending _ \<Rightarrow> lit ''pending'')))), dd1)))"

definition unrecognized :: "resolution \<Rightarrow> bool" where
  "unrecognized r \<longleftrightarrow> rs_approval_state r = lit ''pending'' \<and> rs_why r = ''unrecognized_verified_userid''"

definition authority_identity :: "host \<Rightarrow> pystr \<Rightarrow> pystr \<Rightarrow> resolution \<Rightarrow> data_dir \<Rightarrow> id_error + user_identity" where
  "authority_identity H platform sender r dd =
     sbind (if rs_approval_state r = lit ''approved'' then (if rs_display_name r \<noteq> [] then Inr (rs_display_name r) else person_name H platform sender dd) else Inr [])
       (\<lambda>name. Inr (identity_of platform sender sender name (rs_role r) (rs_approval_state r)))"

definition resolve_enforced :: "host \<Rightarrow> pystr \<Rightarrow> pystr \<Rightarrow> pystr \<Rightarrow> pystr \<Rightarrow> pystr \<Rightarrow> resolution \<Rightarrow> (data_dir, id_error, user_identity) op" where
  "resolve_enforced H tenant platform sender user_name chat_id r dd =
     (if \<not> unrecognized r then (authority_identity H platform sender r dd, dd)
      else case record_pending_runtime_identity H tenant sender platform user_name chat_id dd of
        (Inl e, dd1) \<Rightarrow> (Inl e, dd1)
      | (Inr _, dd1) \<Rightarrow> (sbind (resolve_runtime_identity H tenant sender dd1) (\<lambda>again.
          authority_identity H platform sender (case again of Some x \<Rightarrow> x | None \<Rightarrow> r) dd1), dd1))"

definition resolve_identity :: "host \<Rightarrow> pystr \<Rightarrow> pystr \<Rightarrow> pystr \<Rightarrow> pystr \<Rightarrow> pystr \<Rightarrow> pystr \<Rightarrow> pystr \<Rightarrow> (data_dir, id_error, user_identity) op" where
  "resolve_identity H installation platform sender user_name chat_id message_text tenant_id dd =
     (let pk = platform_key platform; tenant = strip (or_else tenant_id installation) in
      case read_governance dd of
        Inl e \<Rightarrow> (Inl e, dd)
      | Inr v \<Rightarrow>
          if authority_is_enforced H v \<and> pk \<noteq> lit ''wecom''
          then (Inr (identity_of pk sender sender [] (lit ''unknown'') (lit ''unmapped_platform_identity'')), dd)
          else (case resolve_runtime_identity H tenant sender dd of
            Inl e \<Rightarrow> (Inl e, dd)
          | Inr (Some r) \<Rightarrow> resolve_enforced H tenant pk sender user_name chat_id r dd
          | Inr None \<Rightarrow> resolve_legacy H pk sender user_name chat_id message_text dd))"

end
