(* ===== verification/IdentityFacts.thy ===== *)
theory IdentityFacts
  imports IdentityService
begin

text \<open>
  What the personnel authority promises: an approved role is that of the one current employment, there
  is one boss, the old directory has no say once the authority is enforced, and where a padded user
  id, the write guard or the migration break these promises.
\<close>

section \<open>Valid documents\<close>

definition in_tenant :: "host \<Rightarrow> pystr \<Rightarrow> (pystr, json) dict \<Rightarrow> bool" where
  "in_tenant H tenant p \<longleftrightarrow> text_in H p ''tenant_id'' = tenant"

definition sound_person :: "host \<Rightarrow> (pystr, json) dict \<Rightarrow> pystr \<Rightarrow> (pystr, json) dict \<Rightarrow> bool" where
  "sound_person H doc tenant p \<longleftrightarrow> person_id H p \<noteq> [] \<and> person_state H p \<in> set person_states \<and>
     (person_state H p = lit ''active'' \<longrightarrow> (\<exists>e. active_employments H doc tenant (person_id H p) = [e] \<and> employment_role H e \<in> set allowed_roles))"

definition is_boss :: "host \<Rightarrow> (pystr, json) dict \<Rightarrow> pystr \<Rightarrow> (pystr, json) dict \<Rightarrow> bool" where
  "is_boss H doc tenant p \<longleftrightarrow> person_state H p = lit ''active'' \<and> (\<exists>e. active_employments H doc tenant (person_id H p) = [e] \<and> employment_role H e = lit ''boss'')"

lemma check_person:
  assumes "check_people H doc tenant (p # ps) (b, s) = Inr r"
  shows "in_tenant H tenant p \<Longrightarrow> sound_person H doc tenant p \<and> person_id H p \<notin> set s"
    "check_people H doc tenant ps (if in_tenant H tenant p \<and> is_boss H doc tenant p then b @ [person_id H p] else b,
       if in_tenant H tenant p then s @ [person_id H p] else s) = Inr r"
  using assms by (auto simp: in_tenant_def sound_person_def is_boss_def split: if_splits list.splits)

lemma check_people_sound:
  "check_people H doc tenant ps (b, s) = Inr (b', s') \<Longrightarrow>
     s' = s @ map (person_id H) (filter (in_tenant H tenant) ps) \<and>
     b' = b @ map (person_id H) (filter (\<lambda>p. in_tenant H tenant p \<and> is_boss H doc tenant p) ps) \<and>
     (\<forall>p\<in>set ps. in_tenant H tenant p \<longrightarrow> sound_person H doc tenant p)"
proof (induction ps arbitrary: b s)
  case (Cons p ps)
  from Cons.IH [OF check_person(2) [OF Cons.prems]] check_person(1) [OF Cons.prems] show ?case by (auto split: if_splits)
qed simp

lemma check_people_distinct: "check_people H doc tenant ps (b, s) = Inr (b', s') \<Longrightarrow> distinct s \<Longrightarrow> distinct s'"
proof (induction ps arbitrary: b s)
  case (Cons p ps)
  show ?case
    by (rule Cons.IH [OF check_person(2) [OF Cons.prems(1)]]) (use check_person(1) [OF Cons.prems(1)] Cons.prems(2) in auto)
qed simp

definition tenant_people :: "host \<Rightarrow> (pystr, json) dict \<Rightarrow> (pystr, json) dict list" where
  "tenant_people H doc = filter (in_tenant H (authority_tenant H doc)) (people_of doc)"

lemma valid_document:
  assumes "validate_runtime_identity_document H (JObj doc) = None" "authority_is_enforced H (JObj doc)"
  shows "authority_tenant H doc \<noteq> []"
    "\<forall>p\<in>set (tenant_people H doc). sound_person H doc (authority_tenant H doc) p"
    "distinct (map (person_id H) (tenant_people H doc))"
    "length (filter (is_boss H doc (authority_tenant H doc)) (tenant_people H doc)) = 1"
    "set (map fst (access_of doc ''pending'')) \<inter> set (map fst (access_of doc ''rejected'')) = {}"
    "set (map fst (access_of doc ''pending'')) \<inter> person_id H ` set (tenant_people H doc) = {}"
    "set (map fst (access_of doc ''rejected'')) \<inter> person_id H ` set (tenant_people H doc) = {}"
proof -
  obtain bosses seen where c: "check_people H doc (authority_tenant H doc) (people_of doc) ([], []) = Inr (bosses, seen)"
    using assms by (cases "check_people H doc (authority_tenant H doc) (people_of doc) ([], [])")
      (auto simp: validate_runtime_identity_document_def Let_def split: if_splits)
  have v: "authority_tenant H doc \<noteq> []" "length bosses = 1" "\<not> overlap (map fst (access_of doc ''pending'')) (map fst (access_of doc ''rejected''))"
    "\<not> overlap (map fst (access_of doc ''pending'')) seen" "\<not> overlap (map fst (access_of doc ''rejected'')) seen"
    using assms c by (auto simp: validate_runtime_identity_document_def Let_def split: if_splits)
  note s = check_people_sound [OF c]
  have seen: "seen = map (person_id H) (tenant_people H doc)" using s by (simp add: tenant_people_def)
  have bosses: "bosses = map (person_id H) (filter (is_boss H doc (authority_tenant H doc)) (tenant_people H doc))"
    using s by (simp add: tenant_people_def conj_commute)
  show "authority_tenant H doc \<noteq> []" by (rule v(1))
  show "\<forall>p\<in>set (tenant_people H doc). sound_person H doc (authority_tenant H doc) p" using s by (simp add: tenant_people_def)
  show "distinct (map (person_id H) (tenant_people H doc))" using check_people_distinct [OF c] seen by simp
  show "length (filter (is_boss H doc (authority_tenant H doc)) (tenant_people H doc)) = 1" using v(2) bosses by simp
  show "set (map fst (access_of doc ''pending'')) \<inter> set (map fst (access_of doc ''rejected'')) = {}"
    using v(3) by (auto simp: overlap_def list_ex_iff)
  show "set (map fst (access_of doc ''pending'')) \<inter> person_id H ` set (tenant_people H doc) = {}"
    using v(4) seen by (auto simp: overlap_def list_ex_iff)
  show "set (map fst (access_of doc ''rejected'')) \<inter> person_id H ` set (tenant_people H doc) = {}"
    using v(5) seen by (auto simp: overlap_def list_ex_iff)
qed

lemma find_person_Some:
  assumes "find_person H doc tenant key = Some p"
  shows "p \<in> set (people_of doc)" "in_tenant H tenant p" "text_in H p ''staff_user_id'' = key"
  using assms by (auto simp: find_person_def in_tenant_def find_Some_iff)

text \<open>Every document has an answer: the lookup of the employment does not go out of range.\<close>

lemma resolved_person:
  assumes "validate_runtime_identity_document H (JObj doc) = None" "authority_is_enforced H (JObj doc)"
    "find_person H doc (authority_tenant H doc) (strip u) = Some p" "person_state H p = lit ''active''"
  obtains e where "active_employments H doc (authority_tenant H doc) (strip u) = [e]" "employment_role H e \<in> set allowed_roles"
    "person_resolution H doc (authority_tenant H doc) (strip u) p = Inr \<lparr>rs_enforced = True, rs_approval_state = lit ''approved'',
       rs_role = employment_role H e, rs_display_name = strip (text_in H p ''display_name''), rs_why = ''authoritative_personnel_record''\<rparr>"
proof -
  note f = find_person_Some [OF assms(3)]
  have "sound_person H doc (authority_tenant H doc) p" using valid_document(2) [OF assms(1,2)] f by (simp add: tenant_people_def)
  moreover have "person_id H p = strip u" using f(3) by (simp add: person_id_def)
  ultimately obtain e where "active_employments H doc (authority_tenant H doc) (strip u) = [e]" "employment_role H e \<in> set allowed_roles"
    using assms(4) by (auto simp: sound_person_def)
  then show thesis using that assms(4) by (simp add: person_resolution_def)
qed

lemma resolve_unenforced: "\<not> authority_is_enforced H (JObj (as_dict v)) \<Longrightarrow> resolve_document H t u v = Inr None"
  by (simp add: resolve_document_def Let_def)

lemma resolve_invalid: "authority_is_enforced H (JObj (as_dict v)) \<Longrightarrow> validate_runtime_identity_document H (JObj (as_dict v)) = Some e \<Longrightarrow>
    resolve_document H t u v = Inr (Some (invalid_resolution e))"
  by (simp add: resolve_document_def Let_def)

definition decision :: "host \<Rightarrow> pystr \<Rightarrow> (pystr, json) dict \<Rightarrow> resolution" where
  "decision H key doc = (case find_person H doc (authority_tenant H doc) key of
     Some p \<Rightarrow> projr (person_resolution H doc (authority_tenant H doc) key p)
   | None \<Rightarrow>
       if key \<in> set (map fst (access_of doc ''rejected'')) then access_resolution ''rejected'' ''rejected_identity_access''
       else if key \<in> set (map fst (access_of doc ''pending'')) then access_resolution ''pending'' ''pending_identity_access''
       else access_resolution ''pending'' ''unrecognized_verified_userid'')"

lemma resolution_of_person:
  assumes "validate_runtime_identity_document H (JObj doc) = None" "authority_is_enforced H (JObj doc)"
    "find_person H doc (authority_tenant H doc) (strip u) = Some p"
  shows "\<exists>r. person_resolution H doc (authority_tenant H doc) (strip u) p = Inr r"
proof (cases "person_state H p = lit ''active''")
  case True
  from resolved_person [OF assms True] show ?thesis by blast
qed (simp add: person_resolution_def)

lemma resolve_valid:
  assumes "authority_is_enforced H (JObj (as_dict v))" "validate_runtime_identity_document H (JObj (as_dict v)) = None"
  shows "resolve_document H t u v = Inr (Some (if strip t = authority_tenant H (as_dict v) then decision H (strip u) (as_dict v)
    else invalid_resolution ''identity_authority_tenant_mismatch''))"
proof (cases "find_person H (as_dict v) (authority_tenant H (as_dict v)) (strip u)")
  case None
  then show ?thesis using assms by (simp add: resolve_document_def Let_def decision_def)
next
  case (Some p)
  from resolution_of_person [OF assms(2,1) Some] obtain r where "person_resolution H (as_dict v) (authority_tenant H (as_dict v)) (strip u) p = Inr r" by blast
  then show ?thesis using assms Some by (simp add: resolve_document_def Let_def decision_def)
qed

lemma resolve_total: "\<exists>r. resolve_document H t u v = Inr r"
  using resolve_unenforced [of H v t u] resolve_invalid [of H v _ t u] resolve_valid [of H v t u]
  by (cases "authority_is_enforced H (JObj (as_dict v))"; cases "validate_runtime_identity_document H (JObj (as_dict v))") blast+

lemma approved_document:
  assumes "resolve_document H t u v = Inr (Some r)" "rs_approval_state r = lit ''approved''"
  shows "authority_is_enforced H (JObj (as_dict v))" "validate_runtime_identity_document H (JObj (as_dict v)) = None"
    "strip t = authority_tenant H (as_dict v)" "r = decision H (strip u) (as_dict v)"
proof -
  have i: "rs_approval_state (invalid_resolution e) \<noteq> lit ''approved''" for e by (simp add: invalid_resolution_def)
  show en: "authority_is_enforced H (JObj (as_dict v))" using assms(1) resolve_unenforced [of H v t u] by force
  show val: "validate_runtime_identity_document H (JObj (as_dict v)) = None"
    using assms i resolve_invalid [OF en, of _ t u] by (cases "validate_runtime_identity_document H (JObj (as_dict v))") force+
  have "r = (if strip t = authority_tenant H (as_dict v) then decision H (strip u) (as_dict v) else invalid_resolution ''identity_authority_tenant_mismatch'')"
    using assms(1) resolve_valid [OF en val, of t u] by force
  then show "strip t = authority_tenant H (as_dict v)" "r = decision H (strip u) (as_dict v)" using assms(2) i by (simp_all split: if_splits)
qed

lemma approved_cases:
  assumes "resolve_document H t u v = Inr (Some r)" "rs_approval_state r = lit ''approved''" "doc = as_dict v"
  obtains p e where "authority_is_enforced H (JObj doc)" "validate_runtime_identity_document H (JObj doc) = None"
    "strip t = authority_tenant H doc" "p \<in> set (tenant_people H doc)" "text_in H p ''staff_user_id'' = strip u" "person_state H p = lit ''active''"
    "active_employments H doc (authority_tenant H doc) (strip u) = [e]" "employment_role H e \<in> set allowed_roles" "rs_role r = employment_role H e"
proof -
  note d = approved_document [OF assms(1,2), folded assms(3)]
  have "rs_approval_state (access_resolution ''rejected'' w) \<noteq> lit ''approved''" "rs_approval_state (access_resolution ''pending'' w) \<noteq> lit ''approved''" for w
    by (simp_all add: access_resolution_def)
  then obtain p where p: "find_person H doc (authority_tenant H doc) (strip u) = Some p"
    using assms(2) d(4) by (cases "find_person H doc (authority_tenant H doc) (strip u)") (simp_all add: decision_def split: if_splits)
  note f = find_person_Some [OF p]
  have sound: "sound_person H doc (authority_tenant H doc) p" using valid_document(2) [OF d(2,1)] f by (simp add: tenant_people_def)
  have r: "r = projr (person_resolution H doc (authority_tenant H doc) (strip u) p)" using d(4) p by (simp add: decision_def)
  have active: "person_state H p = lit ''active''"
  proof (rule ccontr)
    assume n: "person_state H p \<noteq> lit ''active''"
    then have "person_state H p = lit ''approved''" using r assms(2) by (simp add: person_resolution_def)
    with sound show False by (simp add: sound_person_def person_states_def)
  qed
  from resolved_person [OF d(2,1) p active] obtain e where e: "active_employments H doc (authority_tenant H doc) (strip u) = [e]"
    "employment_role H e \<in> set allowed_roles" "rs_role r = employment_role H e" using r by force
  show thesis by (rule that [OF d(1-3) _ f(3) active e]) (use f in \<open>simp add: tenant_people_def\<close>)
qed

lemma one_boss:
  assumes "resolve_document H t u v = Inr (Some r)" "rs_approval_state r = lit ''approved''" "rs_role r = lit ''boss''"
    "resolve_document H t' u' v = Inr (Some r')" "rs_approval_state r' = lit ''approved''" "rs_role r' = lit ''boss''"
  shows "strip u = strip u'"
proof -
  define doc where "doc = as_dict v"
  let ?T = "authority_tenant H doc"
  obtain p e where p: "authority_is_enforced H (JObj doc)" "validate_runtime_identity_document H (JObj doc) = None"
    "p \<in> set (tenant_people H doc)" "text_in H p ''staff_user_id'' = strip u" "person_state H p = lit ''active''"
    "active_employments H doc ?T (strip u) = [e]" "rs_role r = employment_role H e" by (rule approved_cases [OF assms(1,2) doc_def])
  obtain p' e' where p': "p' \<in> set (tenant_people H doc)" "text_in H p' ''staff_user_id'' = strip u'" "person_state H p' = lit ''active''"
    "active_employments H doc ?T (strip u') = [e']" "rs_role r' = employment_role H e'" by (rule approved_cases [OF assms(4,5) doc_def])
  have id: "person_id H p = strip u" "person_id H p' = strip u'" using p(4) p'(2) by (simp_all add: person_id_def)
  have boss: "is_boss H doc ?T p" "is_boss H doc ?T p'" using p(5-7) p'(3-5) id assms(3,6) by (simp_all add: is_boss_def)
  obtain x where x: "filter (is_boss H doc ?T) (tenant_people H doc) = [x]"
    using valid_document(4) [OF p(2,1)] by (auto simp: length_Suc_conv)
  have "p \<in> set (filter (is_boss H doc ?T) (tenant_people H doc))" "p' \<in> set (filter (is_boss H doc ?T) (tenant_people H doc))"
    using p(3) p'(1) boss by simp_all
  then have "p = p'" unfolding x by simp
  with id show ?thesis by simp
qed

section \<open>Recording an unknown user\<close>

lemma set_fst_update: "set (map fst (AList.update k v al)) = insert k (set (map fst al))"
  by (simp add: dom_update)

lemma put_reads:
  assumes doc': "JObj doc' = put_pending H key platform user_name chat_id doc"
  shows "k \<noteq> ''identity_access'' \<Longrightarrow> dget doc' (lit k) = dget doc (lit k)"
    "set (map fst (access_of doc' ''pending'')) = insert key (set (map fst (access_of doc ''pending'')))"
    "access_of doc' ''rejected'' = access_of doc ''rejected''"
proof -
  show "k \<noteq> ''identity_access'' \<Longrightarrow> dget doc' (lit k) = dget doc (lit k)" using doc' by (simp add: put_pending_def Let_def)
  have a: "dget doc' (lit ''identity_access'') = JObj (AList.update (lit ''rejected'') (JObj (access_of doc ''rejected''))
      (AList.update (lit ''pending'') (JObj (AList.update key (JObj (pending_row H key platform user_name chat_id (as_dict (dget (access_of doc ''pending'') key))))
        (access_of doc ''pending''))) (as_dict (dget doc (lit ''identity_access'')))))"
    using doc' by (simp add: put_pending_def Let_def)
  show "set (map fst (access_of doc' ''pending'')) = insert key (set (map fst (access_of doc ''pending'')))"
    unfolding access_of_def [of doc'] a by (simp add: set_fst_update del: set_map list.set_map)
  show "access_of doc' ''rejected'' = access_of doc ''rejected''" unfolding access_of_def [of doc'] a by simp
qed

lemma put_people:
  assumes doc': "JObj doc' = put_pending H key platform user_name chat_id doc"
  shows "authority_of (JObj doc') = authority_of (JObj doc)" "authority_tenant H' doc' = authority_tenant H' doc" "people_of doc' = people_of doc"
    "active_employments H' doc' = active_employments H' doc" "authority_is_enforced H' (JObj doc') = authority_is_enforced H' (JObj doc)"
  by (simp_all add: authority_of_def authority_tenant_def people_of_def active_employments_def authority_is_enforced_def put_reads(1) [OF doc'] fun_eq_iff)

lemma put_check:
  assumes doc': "JObj doc' = put_pending H key platform user_name chat_id doc"
  shows "check_people H' doc' t ps acc = check_people H' doc t ps acc"
proof (induction ps arbitrary: acc)
  case (Cons p ps)
  then show ?case
    by (cases acc; cases "active_employments H' doc t (person_id H' p)"; cases "tl (active_employments H' doc t (person_id H' p))") (simp_all add: put_people [OF doc'])
qed simp

text \<open>Recording a user that is not known makes it pending, or the document invalid when a padded row names it.\<close>

lemma put_pending_resolves:
  assumes "JObj doc' = put_pending H key platform user_name chat_id doc" "authority_is_enforced H' (JObj doc)"
    "validate_runtime_identity_document H' (JObj doc) = None" "key \<notin> set (map fst (access_of doc ''rejected''))"
  shows "validate_runtime_identity_document H' (JObj doc') =
      (if key \<in> person_id H' ` set (tenant_people H' doc) then Some ''identity_authority_person_access_conflict'' else None)"
proof -
  note r = put_reads [OF assms(1)] and p = put_people [OF assms(1)]
  obtain bosses seen where c: "check_people H' doc (authority_tenant H' doc) (people_of doc) ([], []) = Inr (bosses, seen)"
    using assms(2,3) by (cases "check_people H' doc (authority_tenant H' doc) (people_of doc) ([], [])")
      (auto simp: validate_runtime_identity_document_def Let_def split: if_splits)
  have c': "check_people H' doc' (authority_tenant H' doc') (people_of doc') ([], []) = Inr (bosses, seen)"
    using c by (simp add: p put_check [OF assms(1)])
  have seen: "set seen = person_id H' ` set (tenant_people H' doc)" using check_people_sound [OF c] by (simp add: tenant_people_def)
  have v: "authority_tenant H' doc \<noteq> []" "length bosses = 1" using assms(2,3) c by (auto simp: validate_runtime_identity_document_def Let_def split: if_splits)
  note d = valid_document(5-7) [OF assms(3,2)]
  have "\<not> overlap (map fst (access_of doc' ''pending'')) (map fst (access_of doc' ''rejected''))"
    using d(1) r(2) assms(4) by (auto simp: overlap_def list_ex_iff r(3))
  moreover have "overlap (map fst (access_of doc' ''pending'')) seen \<longleftrightarrow> key \<in> set seen"
    using d(2) r(2) seen unfolding overlap_def list_ex_iff by auto
  moreover have "\<not> overlap (map fst (access_of doc' ''rejected'')) seen" using d(3) seen by (auto simp: overlap_def list_ex_iff r(3))
  ultimately show ?thesis using v c' assms(2) seen p by (simp add: validate_runtime_identity_document_def Let_def)
qed

lemma stripped_tenant: "strip (authority_tenant H doc) = authority_tenant H doc"
  by (simp add: authority_tenant_def)

lemma enforced_as_dict: "authority_is_enforced H (JObj (as_dict v)) = authority_is_enforced H v"
  by (simp add: authority_is_enforced_def authority_of_def)

lemma unrecognized_cases:
  assumes "authority_is_enforced H v" "resolve_document H t u v = Inr (Some r)" "unrecognized r"
  shows "validate_runtime_identity_document H (JObj (as_dict v)) = None" "strip t = authority_tenant H (as_dict v)"
    "find_person H (as_dict v) (authority_tenant H (as_dict v)) (strip u) = None" "strip u \<notin> set (map fst (access_of (as_dict v) ''rejected''))"
proof -
  have en: "authority_is_enforced H (JObj (as_dict v))" using assms(1) by (simp add: enforced_as_dict)
  have i: "\<not> unrecognized (invalid_resolution e)" for e by (simp add: invalid_resolution_def unrecognized_def)
  show val: "validate_runtime_identity_document H (JObj (as_dict v)) = None"
    using assms(2,3) i resolve_invalid [OF en, of _ t u] by (cases "validate_runtime_identity_document H (JObj (as_dict v))") force+
  have r: "r = (if strip t = authority_tenant H (as_dict v) then decision H (strip u) (as_dict v) else invalid_resolution ''identity_authority_tenant_mismatch'')"
    using assms(2) resolve_valid [OF en val, of t u] by force
  then show t: "strip t = authority_tenant H (as_dict v)" using assms(3) i by (simp split: if_splits)
  have d: "unrecognized (decision H (strip u) (as_dict v))" using r t assms(3) by simp
  show none: "find_person H (as_dict v) (authority_tenant H (as_dict v)) (strip u) = None"
  proof (cases "find_person H (as_dict v) (authority_tenant H (as_dict v)) (strip u)")
    case (Some p)
    from resolution_of_person [OF val en Some] obtain x where x: "person_resolution H (as_dict v) (authority_tenant H (as_dict v)) (strip u) p = Inr x" by blast
    then have "rs_why x \<noteq> ''unrecognized_verified_userid''" by (auto simp: person_resolution_def split: if_splits list.splits)
    moreover have "unrecognized x" using d Some x by (simp add: decision_def)
    ultimately show ?thesis by (simp add: unrecognized_def)
  qed
  show "strip u \<notin> set (map fst (access_of (as_dict v) ''rejected''))"
  proof
    assume "strip u \<in> set (map fst (access_of (as_dict v) ''rejected''))"
    then have "decision H (strip u) (as_dict v) = access_resolution ''rejected'' ''rejected_identity_access''" using none by (simp add: decision_def)
    with d show False by (simp add: unrecognized_def access_resolution_def)
  qed
qed

lemma governance_name: "valid_name governance_file" "governance_file \<in> set protected_business_files"
  by (simp add: valid_name_def governance_file_def, simp add: lit_def) (unfold governance_file_def protected_business_files_def lit_in_map, simp)

lemma read_governance_iff: "read_governance dd = Inr v \<longleftrightarrow> read_json governance_file (JObj []) dd = Inr v"
  by (cases "read_json governance_file (JObj []) dd") (simp_all add: read_governance_def)

lemma recorded_document:
  assumes "record_pending_runtime_identity H t u pl n c dd = (Inr (), dd')" "read_governance dd = Inr v" "authority_is_enforced H v"
    "resolve_document H t u v = Inr (Some r)" "unrecognized r" "strip u \<noteq> []"
  obtains doc' where "read_governance dd' = Inr (JObj doc')" "JObj doc' = put_pending H (strip u) pl n c (as_dict v)"
proof -
  obtain doc' where doc': "JObj doc' = put_pending H (strip u) pl n c (as_dict v)" by (simp add: put_pending_def Let_def)
  note f = unrecognized_cases [OF assms(3-5)]
  have upd: "pending_update H t (strip u) pl n c v = Inr (Some (JObj doc'))"
    using f assms(3) doc' by (simp add: pending_update_def Let_def enforced_as_dict)
  obtain x d where u: "update_json H governance_file (JObj []) (pending_update H t (strip u) pl n c) dd = (x, d)" by fastforce
  have d: "d = dd'" "\<exists>y. x = Inr y" using assms(1,6) u by (auto simp: record_pending_runtime_identity_def split: sum.splits)
  from u have "read_governance dd' = Inr (JObj doc')"
  proof (cases rule: update_json_cases)
    case (written c' w)
    then show ?thesis using assms(2) upd d governance_name by (auto simp: read_governance_iff read_json_def update_conv')
  next
    case (kept c')
    then show ?thesis using assms(2) upd by (simp add: read_governance_iff)
  qed (use d in simp)
  with doc' that show thesis by blast
qed

lemma again_resolution:
  assumes "JObj doc' = put_pending H (strip u) pl n c (as_dict v)" "authority_is_enforced H v" "resolve_document H t u v = Inr (Some r)" "unrecognized r"
  shows "strip u \<in> person_id H ` set (tenant_people H (as_dict v)) \<Longrightarrow>
      resolve_document H t' u' (JObj doc') = Inr (Some (invalid_resolution ''identity_authority_person_access_conflict''))"
    "strip u \<notin> person_id H ` set (tenant_people H (as_dict v)) \<Longrightarrow> resolve_document H t u (JObj doc') = Inr (Some (access_resolution ''pending'' ''pending_identity_access''))"
proof -
  note f = unrecognized_cases [OF assms(2-4)] and p = put_people [OF assms(1)] and r = put_reads [OF assms(1)]
  have en: "authority_is_enforced H (JObj (as_dict v))" using assms(2) by (simp add: enforced_as_dict)
  then have en': "authority_is_enforced H (JObj (as_dict (JObj doc')))" by (simp add: p)
  note val = put_pending_resolves [OF assms(1) en f(1,4)]
  show "resolve_document H t' u' (JObj doc') = Inr (Some (invalid_resolution ''identity_authority_person_access_conflict''))"
    if "strip u \<in> person_id H ` set (tenant_people H (as_dict v))"
    using resolve_invalid [OF en'] val that by simp
  show "resolve_document H t u (JObj doc') = Inr (Some (access_resolution ''pending'' ''pending_identity_access''))"
    if "strip u \<notin> person_id H ` set (tenant_people H (as_dict v))"
  proof -
    have "find_person H doc' (authority_tenant H doc') (strip u) = None" using f(3) by (simp add: find_person_def p)
    then have "decision H (strip u) doc' = access_resolution ''pending'' ''pending_identity_access''"
      using r(2) f(4) by (simp add: decision_def r(3))
    then show ?thesis using resolve_valid [OF en'] val that f(2) by (simp add: p)
  qed
qed

section \<open>Properties\<close>

text \<open>
  C12: An approved role is the role of the one current employment, and there is one boss. When the
  enforced authority approves a user id, its aggregate is valid and of the caller's tenant, the id is
  that of an active person with exactly one current employment, and the role is that employment's, one of
  the three allowed; any other id that it approves as boss is the same id. It answers every
  request on a readable aggregate.
\<close>

theorem approved_role_is_the_current_employment:
  assumes "read_governance dd = Inr v"
  shows "(\<exists>x. resolve_runtime_identity H t u dd = Inr x) \<and>
    (\<forall>r. resolve_runtime_identity H t u dd = Inr (Some r) \<and> rs_approval_state r = lit ''approved'' \<longrightarrow>
      validate_runtime_identity_document H v = None \<and> strip t = authority_tenant H (as_dict v) \<and> rs_role r \<in> set allowed_roles \<and>
      (\<exists>p\<in>set (people_of (as_dict v)). text_in H p ''tenant_id'' = strip t \<and> text_in H p ''staff_user_id'' = strip u \<and> person_state H p = lit ''active'') \<and>
      (\<exists>e. active_employments H (as_dict v) (strip t) (strip u) = [e] \<and> rs_role r = employment_role H e) \<and>
      (rs_role r = lit ''boss'' \<longrightarrow> (\<forall>t' u' r'. resolve_runtime_identity H t' u' dd = Inr (Some r') \<and> rs_approval_state r' = lit ''approved'' \<and>
        rs_role r' = lit ''boss'' \<longrightarrow> strip u' = strip u)))"
proof -
  have res: "resolve_runtime_identity H t u dd = resolve_document H t u v" for t u using assms by (simp add: resolve_runtime_identity_def)
  have val: "validate_runtime_identity_document H v = validate_runtime_identity_document H (JObj (as_dict v))"
    by (simp add: validate_runtime_identity_document_def enforced_as_dict)
  have "validate_runtime_identity_document H v = None \<and> strip t = authority_tenant H (as_dict v) \<and> rs_role r \<in> set allowed_roles \<and>
      (\<exists>p\<in>set (people_of (as_dict v)). text_in H p ''tenant_id'' = strip t \<and> text_in H p ''staff_user_id'' = strip u \<and> person_state H p = lit ''active'') \<and>
      (\<exists>e. active_employments H (as_dict v) (strip t) (strip u) = [e] \<and> rs_role r = employment_role H e)"
    if r: "resolve_document H t u v = Inr (Some r)" "rs_approval_state r = lit ''approved''" for r
  proof -
    obtain p e where q: "authority_is_enforced H (JObj (as_dict v))" "validate_runtime_identity_document H (JObj (as_dict v)) = None"
      "strip t = authority_tenant H (as_dict v)" "p \<in> set (tenant_people H (as_dict v))" "text_in H p ''staff_user_id'' = strip u" "person_state H p = lit ''active''"
      "active_employments H (as_dict v) (authority_tenant H (as_dict v)) (strip u) = [e]" "employment_role H e \<in> set allowed_roles" "rs_role r = employment_role H e"
      by (rule approved_cases [OF r refl])
    moreover have "p \<in> set (people_of (as_dict v))" "text_in H p ''tenant_id'' = strip t" using q(3,4) by (simp_all add: tenant_people_def in_tenant_def)
    ultimately show ?thesis using val by metis
  qed
  then show ?thesis unfolding res using resolve_total one_boss by metis
qed

definition outcome :: "host \<Rightarrow> pystr \<Rightarrow> json \<Rightarrow> resolution \<Rightarrow> resolution" where
  "outcome H sender v r = (if \<not> unrecognized r \<or> strip sender = [] then r
     else if strip sender \<in> person_id H ` set (tenant_people H (as_dict v)) then invalid_resolution ''identity_authority_person_access_conflict''
     else access_resolution ''pending'' ''pending_identity_access'')"

lemma authority_identity_reads:
  assumes "authority_identity H pk sender r dd = Inr x"
  shows "ui_canonical_user_id x = sender" "ui_role x = rs_role r" "ui_approval_state x = rs_approval_state r"
  using assms by (auto simp: authority_identity_def identity_of_def sbind_eq_Inr)

lemma enforced_records:
  assumes "resolve_enforced H t pk sender n c r dd = (Inr x, dd1)" "unrecognized r"
  shows "record_pending_runtime_identity H t sender pk n c dd = (Inr (), dd1)"
proof -
  obtain y d where rec: "record_pending_runtime_identity H t sender pk n c dd = (y, d)" by fastforce
  show ?thesis using assms rec by (cases y) (simp_all add: resolve_enforced_def)
qed

lemma enforced_outcome:
  assumes "resolve_enforced H t pk sender n c r dd = (Inr x, dd1)" "read_governance dd = Inr v" "authority_is_enforced H v" "resolve_document H t sender v = Inr (Some r)"
  shows "ui_canonical_user_id x = sender \<and> ui_role x = rs_role (outcome H sender v r) \<and> ui_approval_state x = rs_approval_state (outcome H sender v r)"
proof (cases "unrecognized r")
  case False
  then have "authority_identity H pk sender r dd = Inr x" using assms(1) unfolding resolve_enforced_def by (metis prod.inject)
  from authority_identity_reads [OF this] False show ?thesis by (simp add: outcome_def)
next
  case True
  obtain y d where rec: "record_pending_runtime_identity H t sender pk n c dd = (y, d)" by fastforce
  have y: "y = Inr ()" using assms(1) rec True by (cases y) (simp_all add: resolve_enforced_def)
  have "sbind (resolve_runtime_identity H t sender d) (\<lambda>again. authority_identity H pk sender (case again of Some x \<Rightarrow> x | None \<Rightarrow> r) d) = Inr x"
    using assms(1) rec True y by (auto simp: resolve_enforced_def)
  then obtain again where a: "resolve_runtime_identity H t sender d = Inr again" "authority_identity H pk sender (case again of Some x \<Rightarrow> x | None \<Rightarrow> r) d = Inr x"
    by (auto simp: sbind_eq_Inr)
  have "again = Some (outcome H sender v r)"
  proof (cases "strip sender = []")
    case s: True
    then have "d = dd" using rec by (simp add: record_pending_runtime_identity_def)
    then show ?thesis using a(1) assms(2,4) s by (simp add: resolve_runtime_identity_def outcome_def)
  next
    case s: False
    obtain doc' where doc': "read_governance d = Inr (JObj doc')" "JObj doc' = put_pending H (strip sender) pk n c (as_dict v)"
      by (rule recorded_document [OF rec [unfolded y] assms(2-4) True s])
    show ?thesis using a(1) doc'(1) s True again_resolution [OF doc'(2) assms(3,4) True]
      by (cases "strip sender \<in> person_id H ` set (tenant_people H (as_dict v))") (simp_all add: resolve_runtime_identity_def outcome_def)
  qed
  with authority_identity_reads [OF a(2)] show ?thesis by simp
qed

lemma identity_outcome:
  assumes "resolve_identity H inst platform sender n c m tenant_id dd = (Inr x, dd1)" "read_governance dd = Inr v" "authority_is_enforced H v"
    "platform_key platform = lit ''wecom''"
  obtains r where "resolve_document H (strip (or_else tenant_id inst)) sender v = Inr (Some r)" "resolve_enforced H (strip (or_else tenant_id inst)) (lit ''wecom'') sender n c r dd = (Inr x, dd1)"
proof -
  obtain q where q: "resolve_document H (strip (or_else tenant_id inst)) sender v = Inr q" using resolve_total by blast
  have "authority_is_enforced H (JObj (as_dict v))" using assms(3) by (simp add: enforced_as_dict)
  then have "q \<noteq> None" using q resolve_invalid [of H v _ "strip (or_else tenant_id inst)" sender] resolve_valid [of H v "strip (or_else tenant_id inst)" sender]
    by (cases "validate_runtime_identity_document H (JObj (as_dict v))") force+
  then obtain r where r: "q = Some r" by blast
  with q assms that show thesis by (simp add: resolve_identity_def Let_def resolve_runtime_identity_def)
qed

text \<open>
  C13: Once the authority is enforced, the old directory has no say. Two data directories with the same
  aggregate give a sender the same canonical id, role and approval state, whatever their
  whitelists, name maps and staff profiles hold, and whatever display name, chat and message come with it;
  a sender of another platform is never approved.
\<close>

theorem legacy_directory_has_no_say:
  assumes "read_governance dd = Inr v" "read_governance dd' = Inr v" "authority_is_enforced H v"
    "resolve_identity H inst platform sender n c m tenant_id dd = (Inr x, dd1)" "resolve_identity H inst platform sender n' c' m' tenant_id dd' = (Inr y, dd1')"
  shows "ui_canonical_user_id x = sender \<and> ui_canonical_user_id y = sender \<and> ui_role x = ui_role y \<and> ui_approval_state x = ui_approval_state y \<and>
    (platform_key platform \<noteq> lit ''wecom'' \<longrightarrow> ui_approval_state x \<noteq> lit ''approved'' \<and> ui_role x = lit ''unknown'')"
proof (cases "platform_key platform = lit ''wecom''")
  case False
  with assms show ?thesis by (auto simp: resolve_identity_def Let_def identity_of_def)
next
  case True
  obtain r where r: "resolve_document H (strip (or_else tenant_id inst)) sender v = Inr (Some r)"
    "resolve_enforced H (strip (or_else tenant_id inst)) (lit ''wecom'') sender n c r dd = (Inr x, dd1)" by (rule identity_outcome [OF assms(4,1,3) True])
  obtain r' where r': "resolve_document H (strip (or_else tenant_id inst)) sender v = Inr (Some r')"
    "resolve_enforced H (strip (or_else tenant_id inst)) (lit ''wecom'') sender n' c' r' dd' = (Inr y, dd1')" by (rule identity_outcome [OF assms(5,2,3) True])
  have "r' = r" using r(1) r'(1) by simp
  with enforced_outcome [OF r(2) assms(1,3) r(1)] enforced_outcome [OF r'(2) assms(2,3) r'(1)] True show ?thesis by simp
qed

text \<open>
  C39: A padded user id locks everyone out. Suppose a valid aggregate names a person of the tenant with
  white space around the user id. The validation strips it, the lookup does not, so the person is not
  recognised; and once a message of that person was resolved, the person is entered as pending, the
  validation finds the conflict, and every later request of every user is answered
  \<open>authority_invalid\<close>.
\<close>

theorem padded_person_locks_everyone_out:
  assumes "read_governance dd = Inr v" "authority_is_enforced H v" "validate_runtime_identity_document H v = None"
    "strip (or_else tenant_id inst) = authority_tenant H (as_dict v)" "platform_key platform = lit ''wecom''"
    "p \<in> set (people_of (as_dict v))" "text_in H p ''tenant_id'' = authority_tenant H (as_dict v)" "strip (text_in H p ''staff_user_id'') = strip sender"
    "\<forall>q\<in>set (people_of (as_dict v)). text_in H q ''staff_user_id'' \<noteq> strip sender"
    "resolve_identity H inst platform sender n c m tenant_id dd = (Inr x, dd')"
  shows "ui_approval_state x = lit ''authority_invalid'' \<and>
    (\<forall>t u. resolve_runtime_identity H t u dd' = Inr (Some (invalid_resolution ''identity_authority_person_access_conflict'')))"
proof -
  define doc where "doc = as_dict v"
  have en: "authority_is_enforced H (JObj doc)" using assms(2) by (simp add: enforced_as_dict doc_def)
  have val: "validate_runtime_identity_document H (JObj doc) = None"
    using assms(3) by (simp add: validate_runtime_identity_document_def enforced_as_dict doc_def)
  have p: "p \<in> set (tenant_people H doc)" "person_id H p = strip sender"
    using assms(6-8) by (simp_all add: tenant_people_def in_tenant_def doc_def person_id_def)
  have ids: "strip sender \<in> person_id H ` set (tenant_people H doc)" using p by force
  have s: "strip sender \<noteq> []" using valid_document(2) [OF val en] p by (auto simp: sound_person_def)
  have "find_person H doc (authority_tenant H doc) (strip sender) = None" using assms(9) by (auto simp: find_person_def find_None_iff doc_def)
  moreover have "strip sender \<notin> set (map fst (access_of doc ''rejected''))" "strip sender \<notin> set (map fst (access_of doc ''pending''))"
    using ids valid_document(6,7) [OF val en] by blast+
  ultimately have "decision H (strip sender) doc = access_resolution ''pending'' ''unrecognized_verified_userid''" by (simp add: decision_def)
  then have res: "resolve_document H (strip (or_else tenant_id inst)) sender v = Inr (Some (access_resolution ''pending'' ''unrecognized_verified_userid''))"
    using resolve_valid [OF en [unfolded doc_def] val [unfolded doc_def]] assms(4) stripped_tenant by (simp add: doc_def)
  obtain r where r: "resolve_document H (strip (or_else tenant_id inst)) sender v = Inr (Some r)"
    "resolve_enforced H (strip (or_else tenant_id inst)) (lit ''wecom'') sender n c r dd = (Inr x, dd')" by (rule identity_outcome [OF assms(10,1,2,5)])
  have un: "unrecognized r" using r(1) res by (auto simp: unrecognized_def access_resolution_def)
  obtain doc' where doc': "read_governance dd' = Inr (JObj doc')" "JObj doc' = put_pending H (strip sender) (lit ''wecom'') n c (as_dict v)"
    by (rule recorded_document [OF enforced_records [OF r(2) un] assms(1,2) r(1) un s])
  have "resolve_runtime_identity H t u dd' = Inr (Some (invalid_resolution ''identity_authority_person_access_conflict''))" for t u
    using doc'(1) again_resolution(1) [OF doc'(2) assms(2) r(1) un] ids by (simp add: resolve_runtime_identity_def doc_def)
  then show ?thesis using enforced_outcome [OF r(2) assms(1,2) r(1)] un s ids by (simp add: outcome_def doc_def invalid_resolution_def)
qed

text \<open>
  With the guard on, an unknown user is an exception. The aggregate is a protected file and the
  resolution of a sender opens no write authorization, so a verified user id that the aggregate does not
  know is neither answered as pending nor recorded: the call raises, and no file is changed.
\<close>

theorem guarded_store_raises_for_unknown_user:
  assumes "guard_enabled dd" "\<not> covers governance_file (dd_active dd)" "read_governance dd = Inr v" "authority_is_enforced H v"
    "platform_key platform = lit ''wecom''" "strip sender \<noteq> []"
    "resolve_runtime_identity H (strip (or_else tenant_id inst)) sender dd = Inr (Some r)" "unrecognized r"
  shows "\<exists>dd'. resolve_identity H inst platform sender n c m tenant_id dd = (Inl (Id_store (Store_error ''unauthorized_write'')), dd') \<and> dd_docs dd' = dd_docs dd"
proof -
  obtain s where s: "assert_business_write_allowed H governance_file dd = (Inl (Store_error ''unauthorized_write''), s)" "dd_docs s = dd_docs dd"
    using assms(1,2) governance_name(2) by (simp add: assert_business_write_allowed_def append_audit_row_def)
  have "update_json H governance_file (JObj []) f dd = (Inl (Store_error ''unauthorized_write''), s)" for f
    using s(1) governance_name(1) by (simp add: update_json_def)
  then have "record_pending_runtime_identity H (strip (or_else tenant_id inst)) sender (lit ''wecom'') n c dd =
      (Inl (Id_store (Store_error ''unauthorized_write'')), s)"
    using assms(6) by (simp add: record_pending_runtime_identity_def cause_of_def)
  then show ?thesis using s(2) assms(3-5,7,8) by (simp add: resolve_identity_def Let_def resolve_enforced_def)
qed

text \<open>
  A malformed aggregate brings the old directory back. When the entry of the authority is not an
  object (the aggregate is a list, or the entry a text), the authority counts as not enforced, and a
  sender is resolved by the old whitelist.
\<close>

theorem malformed_authority_falls_back:
  assumes "read_governance dd = Inr v" "\<not> is_object (dget (as_dict v) (lit ''runtime_identity_authority''))"
  shows "resolve_identity H inst platform sender n c m tenant_id dd = resolve_legacy H (platform_key platform) sender n c m dd"
proof -
  have "authority_of v = []" using assms(2) by (auto simp: authority_of_def is_object_def split: json.splits)
  then have "\<not> authority_is_enforced H v" by (simp add: authority_is_enforced_def text_in_def text_of_def por_def dget_def lower_def)
  then show ?thesis using assms(1) resolve_unenforced [of H v] by (simp add: resolve_identity_def Let_def resolve_runtime_identity_def enforced_as_dict)
qed

section \<open>The migration of the old directory\<close>

definition migrated_role :: "host \<Rightarrow> (pystr, json) dict \<Rightarrow> pystr \<Rightarrow> pystr" where
  "migrated_role H source u = projr (legacy_role H source u)"

definition migrated_campuses :: "host \<Rightarrow> (pystr, json) dict \<Rightarrow> (pystr, json) dict \<Rightarrow> pystr \<Rightarrow> json list" where
  "migrated_campuses H source profiles u = projr (managed_campuses H (migrated_role H source u) (as_dict (dget profiles u)))"

lemma migrate_user_cases:
  assumes "migrate_user H sha tenant source profiles u mi = Inr mi'"
  obtains (blocked) b where "mi_blockers mi' = mi_blockers mi @ [b]"
    | (migrated) "legacy_role H source u = Inr (migrated_role H source u)" "migrated_role H source u \<in> set allowed_roles" "mi_blockers mi' = mi_blockers mi"
      "mi_people mi' = mi_people mi @ [migrated_person H sha tenant u (as_dict (dget profiles u))]"
      "mi_employments mi' = mi_employments mi @ [migrated_employment H sha tenant u (migrated_role H source u) (migrated_campuses H source profiles u) (as_dict (dget profiles u))]"
proof -
  obtain role where role: "legacy_role H source u = Inr role" using assms by (auto simp: migrate_user_def Let_def sbind_eq_Inr)
  then have m: "migrated_role H source u = role" by (simp add: migrated_role_def)
  show thesis
  proof (cases "role \<in> set allowed_roles \<and> legacy_state H (as_dict (dget profiles u)) = lit ''active''")
    case False
    then show ?thesis using assms role that(1) by (cases "role \<in> set allowed_roles") (auto simp: migrate_user_def Let_def)
  next
    case True
    then obtain campuses where c: "managed_campuses H role (as_dict (dget profiles u)) = Inr campuses"
      "mi' = mi\<lparr>mi_people := mi_people mi @ [migrated_person H sha tenant u (as_dict (dget profiles u))],
            mi_employments := mi_employments mi @ [migrated_employment H sha tenant u role campuses (as_dict (dget profiles u))],
            mi_bosses := (if role = lit ''boss'' then mi_bosses mi @ [u] else mi_bosses mi)\<rparr>"
      using assms role by (auto simp: migrate_user_def Let_def sbind_eq_Inr split: if_splits)
    then show ?thesis using that(2) role m True by (simp add: migrated_campuses_def)
  qed
qed

lemma migrated_users:
  assumes "migrate_users H sha tenant source profiles us mi = Inr mi'" "mi_blockers mi' = []"
  shows "mi_blockers mi = [] \<and> (\<forall>u\<in>set us. legacy_role H source u = Inr (migrated_role H source u) \<and> migrated_role H source u \<in> set allowed_roles) \<and>
    mi_people mi' = mi_people mi @ map (\<lambda>u. migrated_person H sha tenant u (as_dict (dget profiles u))) us \<and>
    mi_employments mi' = mi_employments mi @
      map (\<lambda>u. migrated_employment H sha tenant u (migrated_role H source u) (migrated_campuses H source profiles u) (as_dict (dget profiles u))) us"
  using assms
proof (induction us arbitrary: mi)
  case (Cons u us)
  then obtain mi1 where m: "migrate_user H sha tenant source profiles u mi = Inr mi1" "migrate_users H sha tenant source profiles us mi1 = Inr mi'"
    by (auto simp: sbind_eq_Inr)
  note ih = Cons.IH [OF m(2) Cons.prems(2)]
  from m(1) show ?case by (cases rule: migrate_user_cases) (use ih in auto)
qed simp

lemma migrated_person_reads: "text_in H (migrated_person H' sha tenant u prof) ''tenant_id'' = tenant" "text_in H (migrated_person H' sha tenant u prof) ''staff_user_id'' = u"
    "text_in H (migrated_person H' sha tenant u prof) ''state'' = lit ''active''"
  by (simp_all add: text_in_def migrated_person_def dget_def)

lemma migrated_employment_reads: "text_in H (migrated_employment H' sha tenant u role cs prof) ''staff_user_id'' = u" "text_in H (migrated_employment H' sha tenant u role cs prof) ''role'' = role"
  by (simp_all add: text_in_def migrated_employment_def dget_def)

lemma migrated_document_reads:
  "authority_is_enforced H (JObj (migrated_document tenant pend rej mi))" "authority_tenant H (migrated_document tenant pend rej mi) = strip tenant"
  "people_of (migrated_document tenant pend rej mi) = mi_people mi" "object_rows (dget (migrated_document tenant pend rej mi) (lit ''employments'')) = mi_employments mi"
proof -
  let ?d = "migrated_document tenant pend rej mi"
  have rows: "object_rows (JList (map JObj xs)) = xs" for xs by (induction xs) (simp_all add: object_rows_def is_object_def)
  have "dget ?d (lit ''runtime_identity_authority'') = JObj [(lit ''mode'', JStr (lit ''enforced'')), (lit ''tenant_id'', JStr tenant),
        (lit ''migration_source'', JStr (lit ''wecom_whitelist_and_staff_reviewed_snapshot'')), (lit ''activated_at'', JStr (lit ''migration_pending_apply''))]"
    "dget ?d (lit ''people'') = JList (map JObj (mi_people mi))" "dget ?d (lit ''employments'') = JList (map JObj (mi_employments mi))"
    by (simp_all add: migrated_document_def dget_def)
  moreover have "lower (strip (lit ''enforced'')) = lit ''enforced''" by (simp add: strip_def lower_def lit_def is_space_def)
  ultimately show "authority_is_enforced H (JObj ?d)" "authority_tenant H ?d = strip tenant" "people_of ?d = mi_people mi"
    "object_rows (dget ?d (lit ''employments'')) = mi_employments mi"
    by (simp_all add: authority_is_enforced_def authority_tenant_def authority_of_def people_of_def rows text_in_def) (simp_all add: dget_def)
qed

lemma allowed_role_text: "r \<in> set allowed_roles \<Longrightarrow> lower (strip r) = r"
  by (auto simp: allowed_roles_def) (simp_all add: strip_def lower_def lit_def is_space_def)

lemma texts_stripped: "texts_at H d k = Inr us \<Longrightarrow> u \<in> set us \<Longrightarrow> strip u = u"
  by (auto simp: texts_at_def texts_of_def sbind_def split: sum.splits)

lemma safe_bootstrap:
  assumes "build_legacy_identity_authority_bootstrap H sha tenant_id directory staff existing = Inr (doc, rep)" "br_safe_to_apply rep"
    "texts_at H (as_dict directory) ''allowed_users'' = Inr allowed" "texts_at H (as_dict directory) ''super_users'' = Inr supers"
  obtains pend rej mi mi0 where "doc = migrated_document (strip tenant_id) pend rej mi" "validate_runtime_identity_document H (JObj doc) = None" "mi_blockers mi = []"
    "migrate_users H sha (strip tenant_id) (as_dict directory) (as_dict staff) (sort (remdups (allowed @ supers))) mi0 = Inr mi" "mi_people mi0 = []" "mi_employments mi0 = []"
proof -
  let ?mi0 = "\<lparr>mi_people = [], mi_employments = [], mi_bosses = [], mi_blockers = first_blockers H (strip tenant_id) (as_dict existing)\<rparr>"
  obtain mi where mi: "migrate_users H sha (strip tenant_id) (as_dict directory) (as_dict staff) (sort (remdups (allowed @ supers))) ?mi0 = Inr mi"
    using assms(1,3,4) by (auto simp: build_legacy_identity_authority_bootstrap_def Let_def sbind_eq_Inr)
  obtain pu where pu: "texts_at H (as_dict directory) ''pending_users'' = Inr pu"
    using assms(1,3,4) mi by (auto simp: build_legacy_identity_authority_bootstrap_def Let_def sbind_eq_Inr)
  obtain ru where ru: "texts_at H (as_dict directory) ''rejected_users'' = Inr ru"
    using assms(1,3,4) mi pu by (auto simp: build_legacy_identity_authority_bootstrap_def Let_def sbind_eq_Inr)
  define b where "b = mi_blockers mi @ (if length (mi_bosses mi) \<noteq> 1 then [lit ''legacy_requires_exactly_one_active_boss''] else [])
            @ (if overlap pu ru then [lit ''legacy_pending_rejected_overlap''] else [])
            @ (if overlap (pu @ ru) (sort (remdups (allowed @ supers))) then [lit ''legacy_approved_access_state_overlap''] else [])"
  define d where "d = migrated_document (strip tenant_id) (migrated_access ''legacy_pending'' pu) (migrated_access ''legacy_rejected'' ru) mi"
  have "doc = d" "br_safe_to_apply rep = ((if b \<noteq> [] then b else case validate_runtime_identity_document H (JObj d) of Some e \<Rightarrow> [lit e] | None \<Rightarrow> []) = [])"
    using assms(1,3,4) mi pu ru unfolding b_def d_def by (simp_all add: build_legacy_identity_authority_bootstrap_def Let_def) auto
  then have "doc = d" "b = []" "validate_runtime_identity_document H (JObj d) = None"
    using assms(2) by (auto split: if_splits option.splits)
  moreover from this have "mi_blockers mi = []" by (simp add: b_def)
  ultimately show thesis using that [OF _ _ _ mi] by (simp add: d_def)
qed

lemma migrated_resolution:
  assumes "build_legacy_identity_authority_bootstrap H sha tenant_id directory staff existing = Inr (doc, rep)" "br_safe_to_apply rep"
    "texts_at H (as_dict directory) ''allowed_users'' = Inr allowed" "texts_at H (as_dict directory) ''super_users'' = Inr supers"
  shows "validate_runtime_identity_document H (JObj doc) = None"
    "u \<in> set allowed \<union> set supers \<Longrightarrow> \<exists>r. resolve_document H tenant_id u (JObj doc) = Inr (Some r) \<and> rs_approval_state r = lit ''approved'' \<and>
      legacy_role H (as_dict directory) u = Inr (rs_role r)"
    "p \<in> set (people_of doc) \<Longrightarrow> text_in H p ''staff_user_id'' \<in> set allowed \<union> set supers"
proof -
  obtain pend rej mi mi0 where d: "doc = migrated_document (strip tenant_id) pend rej mi" "validate_runtime_identity_document H (JObj doc) = None" "mi_blockers mi = []"
    "migrate_users H sha (strip tenant_id) (as_dict directory) (as_dict staff) (sort (remdups (allowed @ supers))) mi0 = Inr mi" "mi_people mi0 = []" "mi_employments mi0 = []"
    by (rule safe_bootstrap [OF assms])
  let ?us = "sort (remdups (allowed @ supers))" and ?T = "strip tenant_id"
  let ?person = "\<lambda>u. migrated_person H sha ?T u (as_dict (dget (as_dict staff) u))"
  let ?job = "\<lambda>u. migrated_employment H sha ?T u (migrated_role H (as_dict directory) u) (migrated_campuses H (as_dict directory) (as_dict staff) u) (as_dict (dget (as_dict staff) u))"
  note m = migrated_users [OF d(4,3)]
  have en: "authority_is_enforced H (JObj doc)" and T: "authority_tenant H doc = ?T" and people: "people_of doc = map ?person ?us"
    and jobs: "object_rows (dget doc (lit ''employments'')) = map ?job ?us"
    using m d(5,6) by (simp_all add: d(1) migrated_document_reads)
  show "validate_runtime_identity_document H (JObj doc) = None" by (rule d(2))
  show "text_in H p ''staff_user_id'' \<in> set allowed \<union> set supers" if "p \<in> set (people_of doc)"
    using that people by (auto simp: migrated_person_reads)
  show "\<exists>r. resolve_document H tenant_id u (JObj doc) = Inr (Some r) \<and> rs_approval_state r = lit ''approved'' \<and>
      legacy_role H (as_dict directory) u = Inr (rs_role r)" if u: "u \<in> set allowed \<union> set supers"
  proof -
    have us: "u \<in> set ?us" "strip u = u" using u texts_stripped [OF assms(3)] texts_stripped [OF assms(4)] by auto
    have "find_person H doc ?T u \<noteq> None" using us(1) by (auto simp: find_person_def people find_None_iff migrated_person_reads)
    then obtain p where p: "find_person H doc (authority_tenant H doc) (strip u) = Some p" using T us(2) by auto
    have word: "lower (strip (lit ''active'')) = lit ''active''" by (simp add: strip_def lower_def lit_def is_space_def)
    have "person_state H p = lit ''active''"
      using find_person_Some(1) [OF p] people word by (auto simp: person_state_def migrated_person_reads)
    from resolved_person [OF d(2) en p this] obtain e where e: "active_employments H doc (authority_tenant H doc) (strip u) = [e]"
      "person_resolution H doc (authority_tenant H doc) (strip u) p = Inr \<lparr>rs_enforced = True, rs_approval_state = lit ''approved'',
         rs_role = employment_role H e, rs_display_name = strip (text_in H p ''display_name''), rs_why = ''authoritative_personnel_record''\<rparr>" by blast
    have "e \<in> set (active_employments H doc (authority_tenant H doc) (strip u))" by (simp add: e(1))
    then obtain w where "e = ?job w" "text_in H e ''staff_user_id'' = strip u" using jobs by (auto simp: active_employments_def)
    then have w: "e = ?job u" using us(2) by (simp add: migrated_employment_reads)
    have role: "legacy_role H (as_dict directory) u = Inr (migrated_role H (as_dict directory) u)" "migrated_role H (as_dict directory) u \<in> set allowed_roles" using m us(1) by blast+
    have "employment_role H e = migrated_role H (as_dict directory) u" using w allowed_role_text [OF role(2)] by (simp add: employment_role_def migrated_employment_reads)
    moreover have "resolve_document H tenant_id u (JObj doc) = Inr (Some (decision H (strip u) doc))" using resolve_valid [of H "JObj doc" tenant_id u] en d(2) T by simp
    ultimately show ?thesis using role(1) p e(2) by (simp add: decision_def)
  qed
qed


text \<open>
  The migration overrules the configured role of a super user. The old directory gives a super user the
  role that is configured for it; the migration reads \<open>boss\<close> for every super user, and does not count
  the difference as a blocker: a super user who is a teacher or a manager in the old directory is the boss
  after a migration that reports itself safe.
\<close>

theorem migration_overrules_configured_role:
  assumes "build_legacy_identity_authority_bootstrap H sha tenant_id directory staff existing = Inr (doc, rep)" "br_safe_to_apply rep"
    "texts_at H (as_dict directory) ''allowed_users'' = Inr allowed" "texts_at H (as_dict directory) ''super_users'' = Inr supers"
    "u \<in> set supers" "directory_state_of H (as_dict directory) u = Inr (Dir_approved role)" "role \<noteq> lit ''boss''"
  shows "\<exists>r. resolve_document H tenant_id u (JObj doc) = Inr (Some r) \<and> rs_approval_state r = lit ''approved'' \<and> rs_role r = lit ''boss'' \<and> rs_role r \<noteq> role"
proof -
  have "legacy_role H (as_dict directory) u = Inr (lit ''boss'')" using assms(4,5) by (simp add: legacy_role_def)
  with migrated_resolution(2) [OF assms(1-4), of u] assms(5,7) show ?thesis by auto
qed

section \<open>Sample directories\<close>

definition sample_person :: "pystr \<Rightarrow> (pystr, json) dict" where
  "sample_person u = [(lit ''tenant_id'', JStr (lit ''t'')), (lit ''staff_user_id'', JStr u), (lit ''state'', JStr (lit ''active'')), (lit ''display_name'', JStr (lit ''n''))]"

definition sample_job_row :: "pystr \<Rightarrow> string \<Rightarrow> (pystr, json) dict" where
  "sample_job_row u role = [(lit ''tenant_id'', JStr (lit ''t'')), (lit ''staff_user_id'', JStr u), (lit ''state'', JStr (lit ''active'')), (lit ''role'', JStr (lit role))]"

definition padded_id :: pystr where
  "padded_id = lit ''a'' @ [32]"

definition sample_aggregate :: "(pystr, json) dict" where
  "sample_aggregate = [(lit ''runtime_identity_authority'', JObj [(lit ''mode'', JStr (lit ''enforced'')), (lit ''tenant_id'', JStr (lit ''t''))]),
     (lit ''people'', JList [JObj (sample_person (lit ''b'')), JObj (sample_person padded_id)]),
     (lit ''employments'', JList [JObj (sample_job_row (lit ''b'') ''boss''), JObj (sample_job_row (lit ''a'') ''teacher'')])]"

definition identity_dir :: "bool \<Rightarrow> json \<Rightarrow> data_dir" where
  "identity_dir guard v = \<lparr>dd_docs = [(guard_file, Some (JObj [(lit ''enabled'', JBool guard)])), (governance_file, Some v)], dd_ledgers = [], dd_active = None\<rparr>"

lemma identity_dir_reads: "read_governance (identity_dir g v) = Inr v" "guard_enabled (identity_dir g v) = g" "dd_active (identity_dir g v) = None"
proof -
  have ne: "guard_file \<noteq> governance_file" by (simp add: guard_file_def governance_file_def)
  then show "read_governance (identity_dir g v) = Inr v" using governance_name(1) by (simp add: read_governance_iff read_json_def identity_dir_def)
  show "guard_enabled (identity_dir g v) = g" by (simp add: guard_enabled_def guard_config_def identity_dir_def dget_def)
qed (simp add: identity_dir_def)

lemma id_words: "strip (lit ''b'') = lit ''b''" "strip (lit ''a'') = lit ''a''" "strip (lit ''t'') = lit ''t''" "strip padded_id = lit ''a''" "padded_id \<noteq> lit ''a''" "padded_id \<noteq> lit ''b''"
    "strip (lit ''z'') = lit ''z''" "lower (strip (lit ''active'')) = lit ''active''" "lower (strip (lit ''boss'')) = lit ''boss''" "lower (strip (lit ''teacher'')) = lit ''teacher''"
    "lower (strip (lit ''enforced'')) = lit ''enforced''" "platform_key (lit ''wecom'') = lit ''wecom''"
  by (simp_all add: strip_def lower_def lit_def is_space_def padded_id_def platform_key_def)

lemma sample_person_reads [simp]: "text_in H (sample_person u) ''tenant_id'' = lit ''t''" "text_in H (sample_person u) ''staff_user_id'' = u" "text_in H (sample_person u) ''state'' = lit ''active''"
    "text_in H (sample_person u) ''display_name'' = lit ''n''"
  by (simp_all add: text_in_def sample_person_def dget_def)

lemma sample_job_reads [simp]: "text_in H (sample_job_row u r) ''tenant_id'' = lit ''t''" "text_in H (sample_job_row u r) ''staff_user_id'' = u" "text_in H (sample_job_row u r) ''state'' = lit ''active''"
    "text_in H (sample_job_row u r) ''effective_until'' = []" "text_in H (sample_job_row u r) ''role'' = lit r"
  by (simp_all add: text_in_def sample_job_row_def dget_def) (simp add: text_of_def por_def)

lemma sample_aggregate_reads: "authority_is_enforced H (JObj sample_aggregate)" "authority_tenant H sample_aggregate = lit ''t''"
    "people_of sample_aggregate = [sample_person (lit ''b''), sample_person padded_id]"
    "object_rows (dget sample_aggregate (lit ''employments'')) = [sample_job_row (lit ''b'') ''boss'', sample_job_row (lit ''a'') ''teacher'']" "access_of sample_aggregate k = []"
proof -
  have d: "dget sample_aggregate (lit ''runtime_identity_authority'') = JObj [(lit ''mode'', JStr (lit ''enforced'')), (lit ''tenant_id'', JStr (lit ''t''))]"
    "dget sample_aggregate (lit ''people'') = JList [JObj (sample_person (lit ''b'')), JObj (sample_person padded_id)]"
    "dget sample_aggregate (lit ''employments'') = JList [JObj (sample_job_row (lit ''b'') ''boss''), JObj (sample_job_row (lit ''a'') ''teacher'')]"
    "dget sample_aggregate (lit ''identity_access'') = JNull"
    by (simp_all add: sample_aggregate_def dget_def)
  show "authority_is_enforced H (JObj sample_aggregate)" "authority_tenant H sample_aggregate = lit ''t''"
    "people_of sample_aggregate = [sample_person (lit ''b''), sample_person padded_id]"
    "object_rows (dget sample_aggregate (lit ''employments'')) = [sample_job_row (lit ''b'') ''boss'', sample_job_row (lit ''a'') ''teacher'']"
    by (simp_all add: authority_is_enforced_def authority_tenant_def authority_of_def people_of_def object_rows_def d text_in_def is_object_def) (simp_all add: dget_def id_words)
  show "access_of sample_aggregate k = []" by (simp add: access_of_def d) (simp add: dget_def)
qed

lemma sample_jobs: "active_employments H sample_aggregate (lit ''t'') (lit ''b'') = [sample_job_row (lit ''b'') ''boss'']"
    "active_employments H sample_aggregate (lit ''t'') (lit ''a'') = [sample_job_row (lit ''a'') ''teacher'']"
  by (simp_all add: active_employments_def sample_aggregate_reads)

lemma sample_valid: "validate_runtime_identity_document H (JObj sample_aggregate) = None"
proof -
  have p: "person_id H (sample_person (lit ''b'')) = lit ''b''" "person_id H (sample_person padded_id) = lit ''a''" "person_state H (sample_person u) = lit ''active''" for u
    by (simp_all add: person_id_def person_state_def id_words)
  have r: "employment_role H (sample_job_row u ''boss'') = lit ''boss''" "employment_role H (sample_job_row u ''teacher'') = lit ''teacher''" for u
    by (simp_all add: employment_role_def id_words)
  have "check_people H sample_aggregate (lit ''t'') [sample_person (lit ''b''), sample_person padded_id] ([], []) = Inr ([lit ''b''], [lit ''b'', lit ''a''])"
    by (simp add: p r sample_jobs person_states_def allowed_roles_def)
  then show ?thesis by (simp add: validate_runtime_identity_document_def Let_def sample_aggregate_reads overlap_def)
qed

lemma sample_boss: "\<exists>r. resolve_runtime_identity H (lit ''t'') (lit ''b'') (identity_dir g (JObj sample_aggregate)) = Inr (Some r) \<and>
    rs_approval_state r = lit ''approved'' \<and> rs_role r = lit ''boss'' \<and> rs_display_name r = lit ''n''"
proof -
  have "find_person H sample_aggregate (lit ''t'') (lit ''b'') = Some (sample_person (lit ''b''))" by (simp add: find_person_def sample_aggregate_reads)
  moreover have "lit ''active'' = person_state H (sample_person (lit ''b''))" "employment_role H (sample_job_row (lit ''b'') ''boss'') = lit ''boss''" "strip (lit ''n'') = lit ''n''"
    by (simp_all add: person_state_def employment_role_def id_words) (simp add: strip_def lit_def is_space_def)
  ultimately have "decision H (lit ''b'') sample_aggregate = \<lparr>rs_enforced = True, rs_approval_state = lit ''approved'', rs_role = lit ''boss'', rs_display_name = lit ''n'',
      rs_why = ''authoritative_personnel_record''\<rparr>" by (simp add: decision_def person_resolution_def sample_aggregate_reads sample_jobs)
  then show ?thesis using resolve_valid [of H "JObj sample_aggregate" "lit ''t''" "lit ''b''"]
    by (simp add: resolve_runtime_identity_def identity_dir_reads sample_aggregate_reads sample_valid id_words)
qed

lemma approved_role_is_the_current_employment_witness:
  "\<exists>r. resolve_runtime_identity sample_host (lit ''t'') (lit ''b'') (identity_dir True (JObj sample_aggregate)) = Inr (Some r) \<and> rs_role r = lit ''boss'' \<and>
    (\<exists>e. active_employments sample_host sample_aggregate (lit ''t'') (lit ''b'') = [e] \<and> employment_role sample_host e = lit ''boss'')"
proof -
  obtain r where r: "resolve_runtime_identity sample_host (lit ''t'') (lit ''b'') (identity_dir True (JObj sample_aggregate)) = Inr (Some r)"
    "rs_approval_state r = lit ''approved''" "rs_role r = lit ''boss''" using sample_boss by blast
  with approved_role_is_the_current_employment [OF identity_dir_reads(1) [of True "JObj sample_aggregate"], of sample_host "lit ''t''" "lit ''b''"] show ?thesis
    by (auto simp: id_words)
qed

lemma sample_boss_identity: "\<exists>x. resolve_identity sample_host [] (lit ''wecom'') (lit ''b'') n c m (lit ''t'') (identity_dir g (JObj sample_aggregate)) = (Inr x, identity_dir g (JObj sample_aggregate)) \<and>
    ui_role x = lit ''boss''"
proof -
  obtain r where r: "resolve_runtime_identity sample_host (lit ''t'') (lit ''b'') (identity_dir g (JObj sample_aggregate)) = Inr (Some r)"
    "rs_approval_state r = lit ''approved''" "rs_role r = lit ''boss''" "rs_display_name r = lit ''n''" using sample_boss by blast
  then have "\<not> unrecognized r" by (simp add: unrecognized_def)
  with r show ?thesis
    by (simp add: resolve_identity_def Let_def identity_dir_reads id_words or_else_def resolve_enforced_def authority_identity_def identity_of_def)
qed

lemma legacy_directory_has_no_say_witness:
  "\<exists>x y. fst (resolve_identity sample_host [] (lit ''wecom'') (lit ''b'') [] [] [] (lit ''t'') (identity_dir True (JObj sample_aggregate))) = Inr x \<and>
    fst (resolve_identity sample_host [] (lit ''wecom'') (lit ''b'') (lit ''x'') [] [] (lit ''t'') (identity_dir False (JObj sample_aggregate))) = Inr y \<and>
    ui_role x = ui_role y \<and> ui_approval_state x = ui_approval_state y"
proof -
  obtain x where x: "resolve_identity sample_host [] (lit ''wecom'') (lit ''b'') [] [] [] (lit ''t'') (identity_dir True (JObj sample_aggregate)) = (Inr x, identity_dir True (JObj sample_aggregate))"
    using sample_boss_identity by blast
  obtain y where y: "resolve_identity sample_host [] (lit ''wecom'') (lit ''b'') (lit ''x'') [] [] (lit ''t'') (identity_dir False (JObj sample_aggregate)) = (Inr y, identity_dir False (JObj sample_aggregate))"
    using sample_boss_identity by blast
  from legacy_directory_has_no_say [OF identity_dir_reads(1) identity_dir_reads(1) sample_aggregate_reads(1) x y] x y show ?thesis by simp
qed

lemma sample_unknown:
  assumes "u \<in> {''a'', ''z''}"
  shows "resolve_runtime_identity H (lit ''t'') (lit u) (identity_dir g (JObj sample_aggregate)) = Inr (Some (access_resolution ''pending'' ''unrecognized_verified_userid''))"
proof -
  have s: "strip (lit u) = lit u" "lit u \<noteq> lit ''b''" "padded_id \<noteq> lit u" using assms id_words by (auto simp: padded_id_def lit_def)
  then have "find_person H sample_aggregate (lit ''t'') (lit u) = None" by (simp add: find_person_def sample_aggregate_reads)
  then have "decision H (lit u) sample_aggregate = access_resolution ''pending'' ''unrecognized_verified_userid''" by (simp add: decision_def sample_aggregate_reads)
  then show ?thesis using resolve_valid [of H "JObj sample_aggregate" "lit ''t''" "lit u"] s(1)
    by (simp add: resolve_runtime_identity_def identity_dir_reads sample_aggregate_reads sample_valid id_words)
qed

lemma sample_record: "\<exists>dd'. record_pending_runtime_identity sample_host (lit ''t'') (lit ''a'') (lit ''wecom'') [] [] (identity_dir False (JObj sample_aggregate)) = (Inr (), dd')"
proof -
  have allowed: "assert_business_write_allowed sample_host governance_file (identity_dir False (JObj sample_aggregate)) = (Inr (), identity_dir False (JObj sample_aggregate))"
    by (simp add: assert_business_write_allowed_def identity_dir_reads)
  have upd: "pending_update sample_host (lit ''t'') (lit ''a'') (lit ''wecom'') [] [] (JObj sample_aggregate) = Inr (Some (put_pending sample_host (lit ''a'') (lit ''wecom'') [] [] sample_aggregate))"
    by (simp add: pending_update_def Let_def sample_aggregate_reads sample_valid id_words)
  have access: "dget sample_aggregate (lit ''identity_access'') = JNull" by (simp add: sample_aggregate_def dget_def)
  have "put_pending sample_host (lit ''a'') (lit ''wecom'') [] [] sample_aggregate = JObj (sample_aggregate @ [(lit ''identity_access'',
      JObj [(lit ''pending'', JObj [(lit ''a'', JObj (pending_row sample_host (lit ''a'') (lit ''wecom'') [] [] []))]), (lit ''rejected'', JObj [])])])"
    by (simp add: put_pending_def Let_def sample_aggregate_reads access) (simp add: sample_aggregate_def dget_def)
  then have "encodable (json_text (ho_floats sample_host) (put_pending sample_host (lit ''a'') (lit ''wecom'') [] [] sample_aggregate))"
    by (simp add: sample_aggregate_def pending_row_def sample_person_def sample_job_row_def padded_id_def text_in_def or_else_def)
      (simp add: dget_def text_of_def por_def sample_host_def)
  moreover have "read_json governance_file (JObj []) (identity_dir False (JObj sample_aggregate)) = Inr (JObj sample_aggregate)"
    using identity_dir_reads(1) by (simp add: read_governance_iff)
  ultimately show ?thesis
    by (simp add: record_pending_runtime_identity_def id_words update_json_def governance_name(1) allowed upd put_doc_def)
qed

lemma padded_person_locks_everyone_out_witness:
  "\<exists>x dd'. resolve_identity sample_host [] (lit ''wecom'') (lit ''a'') [] [] [] (lit ''t'') (identity_dir False (JObj sample_aggregate)) = (Inr x, dd') \<and>
    resolve_runtime_identity sample_host (lit ''t'') (lit ''b'') (identity_dir False (JObj sample_aggregate)) \<noteq> resolve_runtime_identity sample_host (lit ''t'') (lit ''b'') dd' \<and>
    resolve_runtime_identity sample_host (lit ''t'') (lit ''b'') dd' = Inr (Some (invalid_resolution ''identity_authority_person_access_conflict''))"
proof -
  let ?dd = "identity_dir False (JObj sample_aggregate)" and ?r = "access_resolution ''pending'' ''unrecognized_verified_userid''"
  obtain dd' where rec: "record_pending_runtime_identity sample_host (lit ''t'') (lit ''a'') (lit ''wecom'') [] [] ?dd = (Inr (), dd')" using sample_record by blast
  have un: "unrecognized ?r" by (simp add: unrecognized_def access_resolution_def)
  have res: "resolve_runtime_identity sample_host (lit ''t'') (lit ''a'') ?dd = Inr (Some ?r)" by (rule sample_unknown) simp
  have doc: "resolve_document sample_host (lit ''t'') (lit ''a'') (JObj sample_aggregate) = Inr (Some ?r)"
    using res by (simp add: resolve_runtime_identity_def identity_dir_reads)
  obtain doc' where doc': "read_governance dd' = Inr (JObj doc')" "JObj doc' = put_pending sample_host (strip (lit ''a'')) (lit ''wecom'') [] [] (as_dict (JObj sample_aggregate))"
    by (rule recorded_document [OF rec identity_dir_reads(1) sample_aggregate_reads(1) doc un]) (simp add: id_words)
  have "strip (lit ''a'') \<in> person_id sample_host ` set (tenant_people sample_host (as_dict (JObj sample_aggregate)))"
    by (simp add: tenant_people_def sample_aggregate_reads in_tenant_def person_id_def id_words)
  from again_resolution(1) [OF doc'(2) sample_aggregate_reads(1) doc un this]
  have "resolve_runtime_identity sample_host (lit ''t'') (lit ''a'') dd' = Inr (Some (invalid_resolution ''identity_authority_person_access_conflict''))"
    using doc'(1) by (simp add: resolve_runtime_identity_def)
  then obtain x where x: "resolve_identity sample_host [] (lit ''wecom'') (lit ''a'') [] [] [] (lit ''t'') ?dd = (Inr x, dd')"
    using res rec un by (simp add: resolve_identity_def Let_def identity_dir_reads id_words or_else_def resolve_enforced_def authority_identity_def invalid_resolution_def)
  have "resolve_runtime_identity sample_host (lit ''t'') (lit ''b'') dd' = Inr (Some (invalid_resolution ''identity_authority_person_access_conflict''))"
    using conjunct2 [OF padded_person_locks_everyone_out [where p = "sample_person padded_id", OF identity_dir_reads(1) sample_aggregate_reads(1) sample_valid _ _ _ _ _ _ x]]
    by (simp add: sample_aggregate_reads id_words or_else_def)
  moreover obtain q where "resolve_runtime_identity sample_host (lit ''t'') (lit ''b'') ?dd = Inr (Some q)" "rs_approval_state q = lit ''approved''" using sample_boss by blast
  moreover have "rs_approval_state (invalid_resolution e) \<noteq> lit ''approved''" for e by (simp add: invalid_resolution_def)
  ultimately show ?thesis using x by force
qed

lemma guarded_store_raises_for_unknown_user_witness:
  "\<exists>dd'. resolve_identity sample_host [] (lit ''wecom'') (lit ''z'') [] [] [] (lit ''t'') (identity_dir True (JObj sample_aggregate)) =
    (Inl (Id_store (Store_error ''unauthorized_write'')), dd') \<and> dd_docs dd' = dd_docs (identity_dir True (JObj sample_aggregate))"
  by (rule guarded_store_raises_for_unknown_user [where v = "JObj sample_aggregate" and r = "access_resolution ''pending'' ''unrecognized_verified_userid''"])
    (simp_all add: identity_dir_reads covers_def sample_aggregate_reads id_words or_else_def sample_unknown, simp add: unrecognized_def access_resolution_def)

lemma malformed_authority_falls_back_witness:
  "resolve_identity sample_host [] (lit ''wecom'') (lit ''b'') [] [] [] (lit ''t'') (identity_dir True (JList [])) =
    resolve_legacy sample_host (platform_key (lit ''wecom'')) (lit ''b'') [] [] [] (identity_dir True (JList []))"
  by (rule malformed_authority_falls_back [OF identity_dir_reads(1)]) (simp add: dget_def is_object_def)

definition sample_directory :: "(pystr, json) dict" where
  "sample_directory = [(lit ''super_users'', JList [JStr (lit ''b'')]), (lit ''user_roles'', JObj [(lit ''b'', JStr (lit ''teacher''))])]"

lemma sample_directory_reads: "texts_at H sample_directory ''super_users'' = Inr [lit ''b'']" "texts_at H sample_directory ''allowed_users'' = Inr []"
    "texts_at H sample_directory ''pending_users'' = Inr []" "texts_at H sample_directory ''rejected_users'' = Inr []"
  by (simp_all add: texts_at_def texts_of_def sample_directory_def dget_def por_def id_words)

lemma sample_directory_state: "directory_state_of H sample_directory (lit ''b'') = Inr (Dir_approved (lit ''teacher''))"
proof -
  have "in_set_of sample_directory ''super_users'' (lit ''b'') = Inr True" "in_set_of sample_directory ''allowed_users'' (lit ''b'') = Inr False"
    "in_set_of sample_directory ''pending_users'' (lit ''b'') = Inr False" "in_set_of sample_directory ''rejected_users'' (lit ''b'') = Inr False"
    by (simp_all add: in_set_of_def list_at_def sample_directory_def dget_def por_def is_object_def)
  moreover have "raw_role H sample_directory (lit ''b'') = Inr (lit ''teacher'')" "list_at sample_directory ''summer_manager_ids'' = Inr []"
    by (simp_all add: raw_role_def list_at_def sample_directory_def dget_def por_def)
  ultimately show ?thesis by (simp add: directory_state_of_def or_else_def alias_or_def role_aliases_def)
qed

lemma sample_migration: "\<exists>doc rep. build_legacy_identity_authority_bootstrap sample_host id (lit ''t'') (JObj sample_directory) (JObj []) (JObj []) = Inr (doc, rep) \<and> br_safe_to_apply rep"
proof -
  let ?H = sample_host and ?T = "lit ''t''"
  let ?p = "migrated_person ?H id ?T (lit ''b'') []" and ?e = "migrated_employment ?H id ?T (lit ''b'') (lit ''boss'') [] []"
  let ?mi = "\<lparr>mi_people = [?p], mi_employments = [?e], mi_bosses = [lit ''b''], mi_blockers = []\<rparr>"
  have state: "legacy_state ?H [] = lit ''active''" by (simp add: legacy_state_def dget_def por_def id_words left_words_def suspended_words_def Let_def) (simp add: lit_def)
  have role: "legacy_role ?H sample_directory (lit ''b'') = Inr (lit ''boss'')" by (simp add: legacy_role_def sample_directory_reads)
  have first: "first_blockers ?H ?T [] = []" by (simp add: first_blockers_def)
  have mi: "migrate_user ?H id ?T sample_directory [] (lit ''b'') \<lparr>mi_people = [], mi_employments = [], mi_bosses = [], mi_blockers = []\<rparr> = Inr ?mi"
    by (simp add: migrate_user_def dget_def role state allowed_roles_def managed_campuses_def)
  let ?d = "migrated_document ?T [] [] ?mi"
  have job: "text_in H ?e ''tenant_id'' = ?T" "text_in H ?e ''staff_user_id'' = lit ''b''" "text_in H ?e ''state'' = lit ''active''" "text_in H ?e ''effective_until'' = []" "text_in H ?e ''role'' = lit ''boss''" for H
    by (simp_all add: text_in_def migrated_employment_def dget_def)
  have "active_employments ?H ?d ?T (lit ''b'') = [?e]" by (simp add: active_employments_def migrated_document_reads job)
  then have "check_people ?H ?d ?T [?p] ([], []) = Inr ([lit ''b''], [lit ''b''])"
    by (simp add: migrated_person_reads person_id_def person_state_def id_words person_states_def employment_role_def job allowed_roles_def)
  moreover have "access_of ?d k = []" for k by (cases "k = ''pending''"; cases "k = ''rejected''") (simp_all add: access_of_def migrated_document_def dget_def)
  ultimately have "validate_runtime_identity_document ?H (JObj ?d) = None"
    by (simp add: validate_runtime_identity_document_def Let_def migrated_document_reads id_words overlap_def)
  then show ?thesis
    by (simp add: build_legacy_identity_authority_bootstrap_def Let_def id_words sample_directory_reads mi first migrated_access_def overlap_def)
qed


lemma migration_overrules_configured_role_witness:
  "\<exists>doc r. resolve_document sample_host (lit ''t'') (lit ''b'') (JObj doc) = Inr (Some r) \<and> rs_role r = lit ''boss'' \<and>
    directory_state_of sample_host sample_directory (lit ''b'') = Inr (Dir_approved (lit ''teacher''))"
proof -
  obtain doc rep where b: "build_legacy_identity_authority_bootstrap sample_host id (lit ''t'') (JObj sample_directory) (JObj []) (JObj []) = Inr (doc, rep)" "br_safe_to_apply rep"
    using sample_migration by blast
  from migration_overrules_configured_role [OF b, of "[]" "[lit ''b'']" "lit ''b''" "lit ''teacher''"] show ?thesis
    by (auto simp: sample_directory_reads sample_directory_state)
qed

end
