(* ===== verification/DashboardTokens.thy ===== *)
theory DashboardTokens
  imports IdentityService WecomCrypto WecomPort
begin

text \<open>
  \<^verbatim>\<open>runtime/plugins/tuoguan_core/dashboard_auth.py\<close>: the signed tokens of the dashboard and of the reports
  for parents. HMAC-SHA256 is a function on bytes, of which nothing is assumed; the fresh secret and the
  clock are arguments. An exception is one of the module, with its code and message, or any other.
\<close>

datatype token_error = Tk_auth string string | Tk_other id_error

type_synonym mac = "byte list \<Rightarrow> byte list \<Rightarrow> byte list"

definition raises :: "string \<Rightarrow> token_error" where
  "raises exn = Tk_other (Id_python (Py_error (lit exn)))"

record dashboard_principal =
  dp_user_id :: pystr
  dp_role :: pystr
  dp_expires_at :: int

record parent_principal =
  pp_report_id :: pystr
  pp_student_name :: pystr
  pp_expires_at :: int

definition token_ttl_seconds :: int where
  "token_ttl_seconds = 7 * 24 * 60 * 60"

definition parent_report_token_ttl_seconds :: int where
  "parent_report_token_ttl_seconds = 14 * 24 * 60 * 60"

definition secret_file :: pystr where
  "secret_file = lit ''dashboard_secret.json''"

definition dashboard_roles :: "(pystr, pystr) dict" where
  "dashboard_roles = map (\<lambda>(k, v). (lit k, lit v)) [(''admin'', ''boss''), (''super_admin'', ''boss''), (''boss'', ''boss''), (''manager'', ''manager''), (''teacher'', ''teacher'')]"

definition dashboard_alias :: "pystr \<Rightarrow> pystr" where
  "dashboard_alias raw = (case map_of dashboard_roles raw of Some r \<Rightarrow> r | None \<Rightarrow> [])"

definition viewer_roles :: "pystr list" where
  "viewer_roles = map lit [''teacher'', ''manager'', ''boss'']"

definition now_ts :: "timestamp \<Rightarrow> int" where
  "now_ts t = (if t < 0 then - \<lfloor>- t\<rfloor> else \<lfloor>t\<rfloor>)"

section \<open>Base64 for URLs\<close>

definition to_url :: "nat \<Rightarrow> nat" where
  "to_url c = (if c = 43 then 45 else if c = 47 then 95 else c)"

definition from_url :: "nat \<Rightarrow> nat" where
  "from_url c = (if c = 45 then 43 else if c = 95 then 47 else c)"

definition rstrip_pad :: "pystr \<Rightarrow> pystr" where
  "rstrip_pad s = rev (dropWhile (\<lambda>c. c = 61) (rev s))"

definition url_encode :: "byte list \<Rightarrow> pystr" where
  "url_encode bs = rstrip_pad (map to_url (b64_encode bs))"

definition url_decode :: "pystr \<Rightarrow> byte list option" where
  "url_decode s = b64_decode (map from_url (s @ replicate ((4 - length s mod 4) mod 4) 61))"

section \<open>The secret and the signature\<close>

definition read_secret :: "host \<Rightarrow> data_dir \<Rightarrow> token_error + pystr" where
  "read_secret H dd = (case read_json secret_file (JObj []) dd of
     Inl e \<Rightarrow> Inl (Tk_other (Id_store e))
   | Inr (JObj d) \<Rightarrow> Inr (strip (text_in H d ''secret''))
   | Inr _ \<Rightarrow> Inr [])"

definition secret_document :: "host \<Rightarrow> pystr \<Rightarrow> json" where
  "secret_document H secret = JObj [(lit ''secret'', JStr secret), (lit ''created_at'', JStr (ho_now H)), (lit ''purpose'', JStr (lit ''tuoguan_dashboard_hmac''))]"

definition get_or_create_dashboard_secret :: "host \<Rightarrow> pystr \<Rightarrow> (data_dir, token_error, pystr) op" where
  "get_or_create_dashboard_secret H fresh dd = (case read_secret H dd of
     Inl e \<Rightarrow> (Inl e, dd)
   | Inr secret \<Rightarrow> if secret \<noteq> [] then (Inr secret, dd)
       else (case write_json H secret_file (secret_document H fresh) dd of
         (Inl e, dd1) \<Rightarrow> (Inl (Tk_other (Id_store e)), dd1)
       | (Inr _, dd1) \<Rightarrow> (Inr fresh, dd1)))"

definition ascii :: "pystr \<Rightarrow> bool" where
  "ascii s \<longleftrightarrow> list_all (\<lambda>c. c < 128) s"

definition signature_of :: "mac \<Rightarrow> pystr \<Rightarrow> pystr \<Rightarrow> token_error + pystr" where
  "signature_of M secret part = (case utf8_encode secret of
     None \<Rightarrow> Inl (raises ''UnicodeEncodeError'')
   | Some key \<Rightarrow> if ascii part then Inr (url_encode (M key (map byte_of part))) else Inl (raises ''UnicodeEncodeError''))"

section \<open>The role that a user has now\<close>

definition whitelist_name :: pystr where
  "whitelist_name = lit ''wecom_whitelist.json''"

definition listed :: "host \<Rightarrow> (pystr, json) dict \<Rightarrow> string \<Rightarrow> token_error + pystr list" where
  "listed H data k = map_sum Tk_other (map (py_str (ho_render H))) (list_at data k)"

definition configured_role :: "host \<Rightarrow> (pystr, json) dict \<Rightarrow> pystr \<Rightarrow> bool \<Rightarrow> token_error + pystr" where
  "configured_role H data user super_user = (case por (dget data (lit ''user_roles'')) (JObj []) of
     JObj roles \<Rightarrow> Inr (dashboard_alias (py_str (ho_render H) (por (dget roles user) (JStr (if super_user then lit ''boss'' else lit ''teacher'')))))
   | _ \<Rightarrow> Inl (raises ''AttributeError''))"

definition role_in :: "host \<Rightarrow> (pystr, json) dict \<Rightarrow> pystr \<Rightarrow> token_error + pystr" where
  "role_in H data user = sbind (map_sum Tk_other id (in_set_of data ''rejected_users'' user)) (\<lambda>rejected.
     if rejected then Inr []
     else sbind (listed H data ''super_users'') (\<lambda>super_users. sbind (listed H data ''allowed_users'') (\<lambda>allowed_users.
       if user \<notin> set super_users \<and> user \<notin> set allowed_users then Inr []
       else sbind (configured_role H data user (user \<in> set super_users)) (\<lambda>role. sbind (listed H data ''summer_manager_ids'') (\<lambda>summer_managers.
         Inr (if user \<in> set summer_managers \<and> role \<noteq> lit ''boss'' then lit ''manager'' else role))))))"

definition current_wecom_role :: "host \<Rightarrow> pystr \<Rightarrow> data_dir \<Rightarrow> token_error + pystr" where
  "current_wecom_role H user dd = (case read_json whitelist_name (JObj []) dd of
     Inl e \<Rightarrow> Inl (Tk_other (Id_store e))
   | Inr (JObj data) \<Rightarrow> role_in H data user
   | Inr _ \<Rightarrow> Inr [])"

section \<open>Signing\<close>

definition payload_part :: "host \<Rightarrow> (pystr, json) dict \<Rightarrow> token_error + pystr" where
  "payload_part H payload = (case utf8_encode (json_text (ho_floats H) (JObj payload)) of
     None \<Rightarrow> Inl (raises ''UnicodeEncodeError'') | Some bs \<Rightarrow> Inr (url_encode bs))"

definition sealed :: "host \<Rightarrow> mac \<Rightarrow> pystr \<Rightarrow> (pystr, json) dict \<Rightarrow> (data_dir, token_error, pystr) op" where
  "sealed H M fresh payload dd = (case payload_part H payload of
     Inl e \<Rightarrow> (Inl e, dd)
   | Inr part \<Rightarrow> (case get_or_create_dashboard_secret H fresh dd of
       (Inl e, dd1) \<Rightarrow> (Inl e, dd1)
     | (Inr secret, dd1) \<Rightarrow> (sbind (signature_of M secret part) (\<lambda>sig. Inr (part @ 46 # sig)), dd1)))"

definition signer_id :: "user_identity \<Rightarrow> pystr" where
  "signer_id ident = strip (or_else (ui_canonical_user_id ident) (ui_platform_user_id ident))"

definition dashboard_payload :: "pystr \<Rightarrow> pystr \<Rightarrow> int \<Rightarrow> int \<Rightarrow> (pystr, json) dict" where
  "dashboard_payload uid role issued_at ttl = [(lit ''uid'', JStr uid), (lit ''role'', JStr role), (lit ''iat'', JInt issued_at), (lit ''exp'', JInt (issued_at + ttl))]"

definition forbidden :: "string \<Rightarrow> token_error" where
  "forbidden message = Tk_auth ''forbidden'' message"

definition sign_dashboard_token :: "host \<Rightarrow> mac \<Rightarrow> user_identity \<Rightarrow> int \<Rightarrow> timestamp \<Rightarrow> pystr \<Rightarrow> (data_dir, token_error, pystr) op" where
  "sign_dashboard_token H M ident ttl now fresh dd =
     (let role = dashboard_alias (ui_role ident); uid = signer_id ident in
      if role \<notin> set viewer_roles then (Inl (forbidden ''User role cannot access dashboard''), dd)
      else if uid = [] then (Inl (forbidden ''User id is empty''), dd)
      else (case current_wecom_role H uid dd of
        Inl e \<Rightarrow> (Inl e, dd)
      | Inr current_role \<Rightarrow> if current_role \<noteq> role then (Inl (forbidden ''User role is no longer authorized''), dd)
          else sealed H M fresh (dashboard_payload uid role (now_ts now) ttl) dd))"

definition find_growth_report :: "host \<Rightarrow> pystr \<Rightarrow> data_dir \<Rightarrow> token_error + (pystr, json) dict option" where
  "find_growth_report H report_id dd = (case read_json (lit ''growth_reports.json'') (JList []) dd of
     Inl e \<Rightarrow> Inl (Tk_other (Id_store e))
   | Inr v \<Rightarrow> Inr (List.find (\<lambda>d. text_in H d ''id'' = report_id) (object_rows v)))"

definition approved_report :: "(pystr, json) dict \<Rightarrow> bool" where
  "approved_report d \<longleftrightarrow> dget d (lit ''status'') = JStr (lit ''approved'')"

definition parent_payload :: "pystr \<Rightarrow> pystr \<Rightarrow> int \<Rightarrow> int \<Rightarrow> (pystr, json) dict" where
  "parent_payload report_id student_name issued_at ttl = [(lit ''scope'', JStr (lit ''parent_growth_report'')), (lit ''report_id'', JStr (strip report_id)),
     (lit ''student_name'', JStr (strip student_name)), (lit ''iat'', JInt issued_at), (lit ''exp'', JInt (issued_at + ttl))]"

text \<open>The checks on the report, at signing and at verification.\<close>

definition check_report :: "host \<Rightarrow> pystr \<Rightarrow> pystr \<Rightarrow> data_dir \<Rightarrow> token_error + unit" where
  "check_report H report_id student_name dd = sbind (find_growth_report H report_id dd) (\<lambda>report. case report of
     None \<Rightarrow> Inl (forbidden ''Parent report is not approved'')
   | Some d \<Rightarrow> if \<not> approved_report d then Inl (forbidden ''Parent report is not approved'')
       else if text_in H d ''student_name'' \<noteq> student_name then Inl (forbidden ''Parent report student does not match'') else Inr ())"

definition sign_parent_report_token :: "host \<Rightarrow> mac \<Rightarrow> pystr \<Rightarrow> pystr \<Rightarrow> int \<Rightarrow> timestamp \<Rightarrow> pystr \<Rightarrow> (data_dir, token_error, pystr) op" where
  "sign_parent_report_token H M report_id student_name ttl now fresh dd = (case check_report H report_id student_name dd of
     Inl e \<Rightarrow> (Inl e, dd)
   | Inr _ \<Rightarrow> sealed H M fresh (parent_payload report_id student_name (now_ts now) ttl) dd)"

section \<open>Verification\<close>

definition bad_token :: "string \<Rightarrow> token_error" where
  "bad_token message = Tk_auth ''bad_token'' message"

definition decoded :: "host \<Rightarrow> pystr \<Rightarrow> json option" where
  "decoded H part = (case url_decode part of None \<Rightarrow> None | Some bs \<Rightarrow>
     (case utf8_decode bs of None \<Rightarrow> None | Some s \<Rightarrow> json_loads (ho_floats H) s))"

text \<open>The part that both verifications share: the payload of a token with a good signature.\<close>

definition opened :: "host \<Rightarrow> mac \<Rightarrow> pystr \<Rightarrow> data_dir \<Rightarrow> token_error + (pystr, json) dict" where
  "opened H M tok dd =
     (let (part, sig) = split_once 46 tok in
      if tok = [] then Inl (Tk_auth ''missing_token'' ''Token is required'')
      else if 46 \<notin> set tok then Inl (bad_token ''Token format is invalid'')
      else sbind (read_secret H dd) (\<lambda>secret.
        if secret = [] then Inl (bad_token ''Dashboard signing secret is missing'')
        else sbind (signature_of M secret part) (\<lambda>expected.
          if \<not> ascii sig then Inl (raises ''TypeError'')
          else if sig \<noteq> expected then Inl (Tk_auth ''bad_signature'' ''Token signature is invalid'')
          else (case decoded H part of
            None \<Rightarrow> Inl (bad_token ''Token payload is invalid'')
          | Some (JObj payload) \<Rightarrow> Inr payload
          | Some _ \<Rightarrow> Inl (raises ''AttributeError'')))))"

definition expiry_of :: "(pystr, json) dict \<Rightarrow> token_error + int" where
  "expiry_of payload = (let v = por (dget payload (lit ''exp'')) (JInt 0) in
     case py_int v of Some i \<Rightarrow> Inr i | None \<Rightarrow> Inl (raises (case v of JStr _ \<Rightarrow> ''ValueError'' | _ \<Rightarrow> ''TypeError'')))"

definition verify_dashboard_token :: "host \<Rightarrow> mac \<Rightarrow> pystr \<Rightarrow> timestamp \<Rightarrow> data_dir \<Rightarrow> token_error + dashboard_principal" where
  "verify_dashboard_token H M tok now dd = sbind (opened H M tok dd) (\<lambda>payload.
     let uid = strip (text_in H payload ''uid''); role = dashboard_alias (text_in H payload ''role'') in
     sbind (expiry_of payload) (\<lambda>expires.
       if uid = [] \<or> role \<notin> set viewer_roles then Inl (bad_token ''Token payload is incomplete'')
       else if expires \<le> now_ts now then Inl (Tk_auth ''expired'' ''Token has expired'')
       else sbind (current_wecom_role H uid dd) (\<lambda>current_role.
         if current_role \<noteq> role then Inl (forbidden ''User is no longer authorized'')
         else Inr \<lparr>dp_user_id = uid, dp_role = role, dp_expires_at = expires\<rparr>)))"

definition verify_parent_report_token :: "host \<Rightarrow> mac \<Rightarrow> pystr \<Rightarrow> timestamp \<Rightarrow> data_dir \<Rightarrow> token_error + parent_principal" where
  "verify_parent_report_token H M tok now dd = sbind (opened H M tok dd) (\<lambda>payload.
     let report_id = strip (text_in H payload ''report_id''); student_name = strip (text_in H payload ''student_name'') in
     sbind (expiry_of payload) (\<lambda>expires.
       if text_in H payload ''scope'' \<noteq> lit ''parent_growth_report'' \<or> report_id = [] \<or> student_name = []
       then Inl (bad_token ''Token payload is incomplete'')
       else if expires \<le> now_ts now then Inl (Tk_auth ''expired'' ''Token has expired'')
       else sbind (check_report H report_id student_name dd) (\<lambda>_.
         Inr \<lparr>pp_report_id = report_id, pp_student_name = student_name, pp_expires_at = expires\<rparr>)))"

end
