(* ===== verification/GrowthReports.thy ===== *)
theory GrowthReports
  imports DashboardTokens
begin

text \<open>
  The approval and sharing of a student's growth report: the stored reports, the context of the last draft
  and the short links of \<^verbatim>\<open>runtime/plugins/tuoguan_core/growth_reports.py\<close>, and \<open>_approve_growth_report\<close> of
  \<^verbatim>\<open>router.py\<close>. A time is the number of seconds since the epoch; the printer and the reader of ISO texts are
  arguments on wall clock readings with an offset (the reader with its suffix \<open>Z\<close> and its fallback to a
  date), the local offset is fixed, and the clock does not move during a call. How a report is written and
  the words of a reply are left out.
\<close>

record calendar =
  ca_offset :: rat
  ca_print :: "rat \<Rightarrow> rat \<Rightarrow> pystr"
  ca_read :: "pystr \<Rightarrow> (rat \<times> rat option) option"

text \<open>\<open>isoformat(timespec="seconds")\<close> of the local time, and the local wall clock of a text.\<close>

definition local_text :: "calendar \<Rightarrow> timestamp \<Rightarrow> pystr" where
  "local_text K now = ca_print K (now + ca_offset K) (ca_offset K)"

definition parse_datetime :: "host \<Rightarrow> calendar \<Rightarrow> json \<Rightarrow> rat option" where
  "parse_datetime H K v = (let s = strip (text_of (ho_render H) v) in
     if s = [] then None
     else map_option (\<lambda>(wall, off). case off of None \<Rightarrow> wall | Some z \<Rightarrow> wall - z + ca_offset K) (ca_read K s))"

definition aware_iso :: "calendar \<Rightarrow> rat \<Rightarrow> pystr" where
  "aware_iso K wall = ca_print K wall 0"

definition reports_file :: pystr where
  "reports_file = lit ''growth_reports.json''"

definition report_context_file :: pystr where
  "report_context_file = lit ''growth_report_context.json''"

definition report_links_file :: pystr where
  "report_links_file = lit ''growth_report_links.json''"

definition report_context_ttl :: rat where
  "report_context_ttl = 2 * 60 * 60"

definition loaded :: "pystr \<Rightarrow> json \<Rightarrow> data_dir \<Rightarrow> token_error + json" where
  "loaded name fallback dd = map_sum (\<lambda>e. Tk_other (Id_store e)) id (read_json name fallback dd)"

definition saved :: "host \<Rightarrow> pystr \<Rightarrow> json \<Rightarrow> 'a \<Rightarrow> (data_dir, token_error, 'a) op" where
  "saved H name v result dd = (case write_json H name v dd of
     (Inl e, dd1) \<Rightarrow> (Inl (Tk_other (Id_store e)), dd1) | (Inr _, dd1) \<Rightarrow> (Inr result, dd1))"

section \<open>Reports\<close>

definition has_id :: "host \<Rightarrow> pystr \<Rightarrow> json \<Rightarrow> bool" where
  "has_id H report_id v \<longleftrightarrow> is_object v \<and> text_in H (as_dict v) ''id'' = report_id"

definition save_growth_report_draft :: "host \<Rightarrow> (pystr, json) dict \<Rightarrow> pystr \<Rightarrow> (data_dir, token_error, (pystr, json) dict) op" where
  "save_growth_report_draft H report actor dd = (case loaded reports_file (JList []) dd of
     Inl e \<Rightarrow> (Inl e, dd)
   | Inr v \<Rightarrow> (let item = AList.update (lit ''created_by'') (JStr actor) report; rows = (case v of JList xs \<Rightarrow> xs | _ \<Rightarrow> []) @ [JObj item] in
       saved H reports_file (JList (last_of 2000 rows)) item dd))"

text \<open>The first report with an id is changed in place; \<open>None\<close> when there is none.\<close>

definition change_report :: "host \<Rightarrow> pystr \<Rightarrow> ((pystr, json) dict \<Rightarrow> (pystr, json) dict) \<Rightarrow> (data_dir, token_error, (pystr, json) dict option) op" where
  "change_report H report_id f dd = (case loaded reports_file (JList []) dd of
     Inl e \<Rightarrow> (Inl e, dd)
   | Inr (JList reports) \<Rightarrow> (case List.find (has_id H report_id) reports of
       None \<Rightarrow> (Inr None, dd)
     | Some target \<Rightarrow> saved H reports_file (JList (apply_first (has_id H report_id) (\<lambda>v. JObj (f (as_dict v))) reports)) (Some (f (as_dict target))) dd)
   | Inr _ \<Rightarrow> (Inr None, dd))"

definition approval :: "calendar \<Rightarrow> pystr \<Rightarrow> pystr \<Rightarrow> timestamp \<Rightarrow> (pystr, json) dict \<Rightarrow> (pystr, json) dict" where
  "approval K actor remark now d = AList.update (lit ''approval_note'') (JStr (strip remark)) (AList.update (lit ''approved_by'') (JStr actor)
     (AList.update (lit ''approved_at'') (JStr (local_text K now)) (AList.update (lit ''status'') (JStr (lit ''approved'')) d)))"

definition approve_growth_report :: "host \<Rightarrow> calendar \<Rightarrow> pystr \<Rightarrow> pystr \<Rightarrow> pystr \<Rightarrow> timestamp \<Rightarrow> (data_dir, token_error, (pystr, json) dict option) op" where
  "approve_growth_report H K report_id actor remark now = change_report H report_id (approval K actor remark now)"

definition mark_growth_report_shared :: "host \<Rightarrow> calendar \<Rightarrow> pystr \<Rightarrow> timestamp \<Rightarrow> (data_dir, token_error, (pystr, json) dict option) op" where
  "mark_growth_report_shared H K report_id now = change_report H report_id (AList.update (lit ''approved_share_token_created_at'') (JStr (local_text K now)))"

definition growth_report_by_id :: "host \<Rightarrow> pystr \<Rightarrow> data_dir \<Rightarrow> token_error + (pystr, json) dict option" where
  "growth_report_by_id H report_id dd = sbind (loaded reports_file (JList []) dd) (\<lambda>v. Inr (case v of
     JList reports \<Rightarrow> map_option as_dict (List.find (has_id H report_id) reports) | _ \<Rightarrow> None))"

text \<open>\<open>max(xs, key=k)\<close>: the first of the greatest.\<close>

fun first_max :: "('a \<Rightarrow> pystr) \<Rightarrow> 'a \<Rightarrow> 'a list \<Rightarrow> 'a" where
  "first_max k b [] = b"
| "first_max k b (x # xs) = first_max k (if k b < k x then x else b) xs"

definition latest_growth_report :: "host \<Rightarrow> pystr \<Rightarrow> bool \<Rightarrow> pystr \<Rightarrow> data_dir \<Rightarrow> token_error + (pystr, json) dict option" where
  "latest_growth_report H student approved_only period dd = sbind (loaded reports_file (JList []) dd) (\<lambda>v. Inr (
     case filter (\<lambda>d. text_in H d ''student_name'' = student \<and> (\<not> approved_only \<or> approved_report d) \<and> (period = [] \<or> text_in H d ''period_type'' = period))
       (object_rows v) of
       [] \<Rightarrow> None
     | b # ds \<Rightarrow> Some (first_max (\<lambda>d. text_of (ho_render H) (por (dget d (lit ''approved_at'')) (dget d (lit ''created_at'')))) b ds)))"

section \<open>The context of the last draft\<close>

definition draft_report :: "(pystr, json) dict \<Rightarrow> bool" where
  "draft_report d \<longleftrightarrow> dget d (lit ''status'') = JStr (lit ''draft'')"

definition context_item :: "host \<Rightarrow> calendar \<Rightarrow> timestamp \<Rightarrow> (pystr, json) dict \<Rightarrow> (pystr, json) dict" where
  "context_item H K now report = [(lit ''report_id'', JStr (text_in H report ''id'')), (lit ''student_name'', JStr (text_in H report ''student_name'')),
     (lit ''period_type'', JStr (text_in H report ''period_type'')), (lit ''created_at'', JStr (local_text K now))]"

definition remember_growth_report_context :: "host \<Rightarrow> calendar \<Rightarrow> pystr \<Rightarrow> (pystr, json) dict \<Rightarrow> timestamp \<Rightarrow> (data_dir, token_error, unit) op" where
  "remember_growth_report_context H K user report now dd = (case loaded report_context_file (JObj []) dd of
     Inl e \<Rightarrow> (Inl e, dd)
   | Inr v \<Rightarrow> saved H report_context_file (JObj (AList.update user (JObj (context_item H K now report)) (as_dict v))) () dd)"

definition recent_draft :: "host \<Rightarrow> calendar \<Rightarrow> timestamp \<Rightarrow> json \<Rightarrow> bool" where
  "recent_draft H K now created = (case parse_datetime H K created of None \<Rightarrow> False | Some wall \<Rightarrow> now + ca_offset K - wall \<le> report_context_ttl)"

definition latest_growth_report_context :: "host \<Rightarrow> calendar \<Rightarrow> pystr \<Rightarrow> timestamp \<Rightarrow> data_dir \<Rightarrow> token_error + (pystr, json) dict option" where
  "latest_growth_report_context H K user now dd = sbind (loaded report_context_file (JObj []) dd) (\<lambda>v.
     case dget (as_dict v) user of
       JObj item \<Rightarrow> if \<not> recent_draft H K now (dget item (lit ''created_at'')) then Inr None
         else sbind (growth_report_by_id H (text_in H item ''report_id'') dd) (\<lambda>report. Inr (case report of
           Some d \<Rightarrow> if draft_report d then Some d else None | None \<Rightarrow> None))
     | _ \<Rightarrow> Inr None)"

definition pending_growth_reports_for_actor :: "host \<Rightarrow> calendar \<Rightarrow> pystr \<Rightarrow> timestamp \<Rightarrow> data_dir \<Rightarrow> token_error + (pystr, json) dict list" where
  "pending_growth_reports_for_actor H K actor now dd = sbind (loaded reports_file (JList []) dd) (\<lambda>v. Inr (
     rev (sort_key (\<lambda>d. text_in H d ''created_at'') (rev (filter (\<lambda>d. draft_report d \<and> text_in H d ''created_by'' = actor
       \<and> recent_draft H K now (dget d (lit ''created_at''))) (object_rows v))))))"

section \<open>Short links\<close>

definition link_item :: "calendar \<Rightarrow> pystr \<Rightarrow> pystr \<Rightarrow> pystr \<Rightarrow> rat \<Rightarrow> pystr \<Rightarrow> timestamp \<Rightarrow> (pystr, json) dict" where
  "link_item K code report_id tok expiry_wall actor now = [(lit ''code'', JStr code), (lit ''report_id'', JStr report_id), (lit ''token'', JStr tok),
     (lit ''expires_at'', JStr (aware_iso K expiry_wall)), (lit ''created_by'', JStr actor), (lit ''created_at'', JStr (local_text K now)), (lit ''access_count'', JInt 0)]"

text \<open>\<open>draws\<close> are the random codes, \<open>spare\<close> the one that is used when twenty of them are taken.\<close>

definition new_code :: "pystr list \<Rightarrow> pystr \<Rightarrow> (pystr, json) dict \<Rightarrow> pystr" where
  "new_code draws spare links = (case List.find (\<lambda>c. c \<notin> set (map fst links)) (take 20 draws) of Some c \<Rightarrow> c | None \<Rightarrow> spare)"

definition create_parent_report_short_link :: "host \<Rightarrow> calendar \<Rightarrow> pystr list \<Rightarrow> pystr \<Rightarrow> pystr \<Rightarrow> pystr \<Rightarrow> rat \<Rightarrow> pystr \<Rightarrow> timestamp \<Rightarrow>
    (data_dir, token_error, (pystr, json) dict) op" where
  "create_parent_report_short_link H K draws spare report_id tok expiry_wall actor now dd = (case loaded report_links_file (JObj []) dd of
     Inl e \<Rightarrow> (Inl e, dd)
   | Inr v \<Rightarrow> (let links = as_dict v; code = new_code draws spare links; item = link_item K code report_id tok expiry_wall actor now in
       saved H report_links_file (JObj (AList.update code (JObj item) links)) item dd))"

definition usable_link :: "host \<Rightarrow> calendar \<Rightarrow> timestamp \<Rightarrow> (pystr, json) dict \<Rightarrow> bool" where
  "usable_link H K now item = (case parse_datetime H K (dget item (lit ''expires_at'')) of None \<Rightarrow> False | Some wall \<Rightarrow> now + ca_offset K < wall)"

definition counted :: "(pystr, json) dict \<Rightarrow> token_error + (pystr, json) dict" where
  "counted item = (let v = por (dget item (lit ''access_count'')) (JInt 0) in case py_int v of
     Some n \<Rightarrow> Inr (AList.update (lit ''access_count'') (JInt (n + 1)) item)
   | None \<Rightarrow> Inl (raises (case v of JStr _ \<Rightarrow> ''ValueError'' | _ \<Rightarrow> ''TypeError'')))"

definition resolve_parent_report_short_link :: "host \<Rightarrow> calendar \<Rightarrow> pystr \<Rightarrow> timestamp \<Rightarrow> bool \<Rightarrow> (data_dir, token_error, (pystr, json) dict option) op" where
  "resolve_parent_report_short_link H K code now mark_access dd = (case loaded report_links_file (JObj []) dd of
     Inl e \<Rightarrow> (Inl e, dd)
   | Inr v \<Rightarrow> (case dget (as_dict v) (strip code) of
       JObj item \<Rightarrow> if \<not> usable_link H K now item then (Inr None, dd)
         else (case growth_report_by_id H (text_in H item ''report_id'') dd of
           Inl e \<Rightarrow> (Inl e, dd)
         | Inr None \<Rightarrow> (Inr None, dd)
         | Inr (Some d) \<Rightarrow>
             if \<not> approved_report d then (Inr None, dd)
             else if \<not> mark_access then (Inr (Some item), dd)
             else (case counted item of
               Inl e \<Rightarrow> (Inl e, dd)
             | Inr item' \<Rightarrow> saved H report_links_file (JObj (AList.update (strip code) (JObj item') (as_dict v))) (Some item') dd))
     | _ \<Rightarrow> (Inr None, dd)))"

section \<open>Approving and sharing\<close>

datatype share_reply = Share_no_draft | Share_not_approved | Share_no_address | Share_no_link | Share_link "(pystr, json) dict"

text \<open>The token and the two times of expiry: the link expires when the local wall clock shows the expiry of the token.\<close>

definition share_approved :: "host \<Rightarrow> calendar \<Rightarrow> mac \<Rightarrow> pystr \<Rightarrow> pystr list \<Rightarrow> pystr \<Rightarrow> user_identity \<Rightarrow> pystr \<Rightarrow> timestamp \<Rightarrow> (pystr, json) dict \<Rightarrow>
    (data_dir, token_error, share_reply) op" where
  "share_approved H K M fresh draws spare ident student now report dd =
     (let rid = text_in H report ''id'' in
      case sign_parent_report_token H M rid student parent_report_token_ttl_seconds now fresh dd of
        (Inl (Tk_auth c m), dd1) \<Rightarrow> (Inr Share_no_link, dd1)
      | (Inl e, dd1) \<Rightarrow> (Inl e, dd1)
      | (Inr tok, dd1) \<Rightarrow> (case mark_growth_report_shared H K rid now dd1 of
          (Inl e, dd2) \<Rightarrow> (Inl e, dd2)
        | (Inr _, dd2) \<Rightarrow> (case create_parent_report_short_link H K draws spare rid tok (now + ca_offset K + of_int parent_report_token_ttl_seconds) (ui_canonical_user_id ident) now dd2 of
            (Inl e, dd3) \<Rightarrow> (Inl e, dd3)
          | (Inr item, dd3) \<Rightarrow> (Inr (Share_link item), dd3))))"

definition share_growth_report :: "host \<Rightarrow> calendar \<Rightarrow> mac \<Rightarrow> bool \<Rightarrow> pystr \<Rightarrow> pystr list \<Rightarrow> pystr \<Rightarrow> user_identity \<Rightarrow> pystr \<Rightarrow> pystr \<Rightarrow> timestamp \<Rightarrow>
    (data_dir, token_error, share_reply) op" where
  "share_growth_report H K M has_address fresh draws spare ident student period now dd = (case latest_growth_report H student False period dd of
     Inl e \<Rightarrow> (Inl e, dd)
   | Inr None \<Rightarrow> (Inr Share_no_draft, dd)
   | Inr (Some report) \<Rightarrow> if report = [] then (Inr Share_no_draft, dd)
       else (case (if approved_report report then (Inr (Some report), dd) else approve_growth_report H K (text_in H report ''id'') (ui_canonical_user_id ident) [] now dd) of
         (Inl e, dd1) \<Rightarrow> (Inl e, dd1)
       | (Inr None, dd1) \<Rightarrow> (Inr Share_not_approved, dd1)
       | (Inr (Some d), dd1) \<Rightarrow> if \<not> has_address then (Inr Share_no_address, dd1)
           else share_approved H K M fresh draws spare ident student now d dd1))"

end
