(* ===== verification/DashboardApi.thy ===== *)
theory DashboardApi
  imports GrowthReports
begin

text \<open>
  The handlers of \<^verbatim>\<open>runtime/plugins/tuoguan_core/dashboard_http.py\<close> that answer with data: who may see
  what. The cache of the dashboards, the programs of a user and the payload of a report are arguments; the clock does not move during a call; an
  exception that a handler does not catch is the left side, which the server turns into an error of its own.
\<close>

datatype http_reply = Http_reply nat json

type_synonym handled = "token_error + http_reply"

definition json_error :: "nat \<Rightarrow> string \<Rightarrow> string \<Rightarrow> http_reply" where
  "json_error status code message = Http_reply status (JObj [(lit ''error'', JObj [(lit ''code'', JStr (lit code)), (lit ''message'', JStr (lit message))])])"

text \<open>\<open>except DashboardAuthError\<close>.\<close>

definition answering :: "token_error + 'a \<Rightarrow> ('a \<Rightarrow> handled) \<Rightarrow> handled" where
  "answering m f = (case m of Inl (Tk_auth code message) \<Rightarrow> Inr (json_error 401 code message) | Inl e \<Rightarrow> Inl e | Inr x \<Rightarrow> f x)"

definition display_name :: "host \<Rightarrow> pystr \<Rightarrow> data_dir \<Rightarrow> token_error + pystr" where
  "display_name H user dd = sbind (loaded (lit ''teacher_wecom_map.json'') (JObj []) dd) (\<lambda>v. Inr (
     case List.find (\<lambda>(name, uid). py_str (ho_render H) uid = user) (as_dict v) of Some (name, uid) \<Rightarrow> name | None \<Rightarrow> user))"

section \<open>The user behind the token\<close>

definition role_label :: "pystr \<Rightarrow> pystr" where
  "role_label role = (if role = lit ''teacher'' then [32769, 24072] else if role = lit ''manager'' then [24215, 38271]
     else if role = lit ''boss'' then [32769, 26495] else role)"

definition regular_program :: pystr where "regular_program = lit ''regular_tuoguan''"
definition summer_program :: pystr where "summer_program = lit ''summer_2026''"

text \<open>\<open>scope\<close> is the list of the programs of the user, \<open>None\<close> when there is no restriction.\<close>

definition program_role :: "pystr \<Rightarrow> pystr list option \<Rightarrow> pystr \<times> pystr" where
  "program_role role scope = (if role = lit ''boss'' then (lit ''global_owner'', lit ''global'')
     else if (case scope of Some ps \<Rightarrow> set ps = {summer_program} | None \<Rightarrow> False)
     then (if role = lit ''manager'' then lit ''summer_manager'' else lit ''summer_teacher'', summer_program)
     else (if role = lit ''manager'' then lit ''regular_manager'' else lit ''regular_teacher'', regular_program))"

definition handle_me :: "host \<Rightarrow> mac \<Rightarrow> (dashboard_principal \<Rightarrow> pystr list option) \<Rightarrow> pystr \<Rightarrow> timestamp \<Rightarrow> data_dir \<Rightarrow> handled" where
  "handle_me H M scope_of tok now dd = answering (verify_dashboard_token H M tok now dd) (\<lambda>p.
     sbind (display_name H (dp_user_id p) dd) (\<lambda>name.
       let scope = scope_of p; (prole, default_id) = program_role (dp_role p) scope in
       Inr (Http_reply 200 (JObj [(lit ''user_id'', JStr (dp_user_id p)), (lit ''role'', JStr (dp_role p)), (lit ''role_label'', JStr (role_label (dp_role p))),
         (lit ''display_name'', JStr name), (lit ''expires_at'', JInt (dp_expires_at p)), (lit ''program_role'', JStr prole), (lit ''default_program_id'', JStr default_id),
         (lit ''program_scope'', JList (map JStr (case scope of Some ps \<Rightarrow> sort ps | None \<Rightarrow> [lit ''global'', regular_program, summer_program])))]))))"

section \<open>Dashboards\<close>

definition view_of :: "(pystr, json) dict \<Rightarrow> string \<Rightarrow> pystr \<Rightarrow> token_error + json" where
  "view_of cache k key = (case por (dget cache (lit k)) (JObj []) of JObj d \<Rightarrow> Inr (dget d key) | _ \<Rightarrow> Inl (raises ''AttributeError''))"

definition empty_teacher_view :: "pystr \<Rightarrow> pystr \<Rightarrow> pystr \<Rightarrow> json" where
  "empty_teacher_view user name hint = JObj [(lit ''role'', JStr (lit ''teacher'')), (lit ''user_id'', JStr user), (lit ''display_name'', JStr name),
     (lit ''summary'', JObj []), (lit ''today_feedback'', JList []), (lit ''week_contribution'', JObj []), (lit ''uncovered_students'', JList []),
     (lit ''open_tasks'', JList []), (lit ''student_completion'', JList []), (lit ''readonly_hint'', JStr hint)]"

definition readonly_hint :: pystr where
  "readonly_hint = [35760, 24405, 35831, 22238, 20225, 19994, 24494, 20449, 30452, 25509, 35828]"

definition handle_teacher :: "host \<Rightarrow> mac \<Rightarrow> (pystr, json) dict \<Rightarrow> pystr \<Rightarrow> timestamp \<Rightarrow> data_dir \<Rightarrow> handled" where
  "handle_teacher H M cache tok now dd = answering (verify_dashboard_token H M tok now dd) (\<lambda>p.
     if dp_role p \<noteq> lit ''teacher'' then Inr (json_error 403 ''forbidden'' ''Only teacher dashboard tokens can access this API'')
     else sbind (view_of cache ''teacher_dashboards'' (dp_user_id p)) (\<lambda>data.
       if is_object data then Inr (Http_reply 200 data)
       else sbind (display_name H (dp_user_id p) dd) (\<lambda>name. Inr (Http_reply 200 (empty_teacher_view (dp_user_id p) name readonly_hint)))))"

definition boss_view :: "(pystr, json) dict \<Rightarrow> pystr \<Rightarrow> token_error + json option" where
  "boss_view cache selected =
     (if selected = [] \<or> selected = lit ''global'' then Inr (Some (dget cache (lit ''boss_dashboard'')))
      else if selected = regular_program \<or> selected = summer_program then map_sum id Some (view_of cache ''boss_project_dashboards'' selected)
      else Inr None)"

text \<open>\<open>program_id\<close> is the query parameter, empty when it is missing.\<close>

definition handle_boss :: "host \<Rightarrow> mac \<Rightarrow> (pystr, json) dict \<Rightarrow> pystr \<Rightarrow> pystr \<Rightarrow> timestamp \<Rightarrow> data_dir \<Rightarrow> handled" where
  "handle_boss H M cache program_id tok now dd = answering (verify_dashboard_token H M tok now dd) (\<lambda>p.
     if dp_role p \<notin> set [lit ''manager'', lit ''boss''] then Inr (json_error 403 ''forbidden'' ''Only manager or boss dashboard tokens can access this API'')
     else sbind (if dp_role p = lit ''manager'' then map_sum id Some (view_of cache ''manager_dashboards'' (dp_user_id p))
         else boss_view cache (strip (or_else program_id (lit ''global'')))) (\<lambda>data. Inr (case data of
       None \<Rightarrow> json_error 400 ''invalid_program'' ''Unknown dashboard program view''
     | Some v \<Rightarrow> Http_reply 200 (if is_object v then v else JObj [(lit ''role'', JStr (dp_role p)), (lit ''user_id'', JStr (dp_user_id p)), (lit ''summary'', JObj [])]))))"

section \<open>The report for parents\<close>

definition link_token :: "host \<Rightarrow> calendar \<Rightarrow> pystr \<Rightarrow> pystr \<Rightarrow> timestamp \<Rightarrow> (data_dir, token_error, pystr) op" where
  "link_token H K tok code now dd =
     (if code = [] then (Inr tok, dd)
      else (case resolve_parent_report_short_link H K code now True dd of
        (Inl e, dd1) \<Rightarrow> (Inl e, dd1)
      | (Inr link, dd1) \<Rightarrow> (case link of
          Some item \<Rightarrow> if item = [] then (Inl (Tk_auth ''expired'' ''Parent report link is invalid or expired''), dd1) else (Inr (text_in H item ''token''), dd1)
        | None \<Rightarrow> (Inl (Tk_auth ''expired'' ''Parent report link is invalid or expired''), dd1))))"

definition handle_parent_report_api :: "host \<Rightarrow> calendar \<Rightarrow> mac \<Rightarrow> ((pystr, json) dict \<Rightarrow> json) \<Rightarrow> pystr \<Rightarrow> pystr \<Rightarrow> timestamp \<Rightarrow> data_dir \<Rightarrow> handled \<times> data_dir" where
  "handle_parent_report_api H K M payload tok code now dd =
     (let (res, dd1) = link_token H K tok code now dd in
      (answering (sbind res (\<lambda>t. verify_parent_report_token H M t now dd1)) (\<lambda>p.
         sbind (growth_report_by_id H (pp_report_id p) dd1) (\<lambda>report. Inr (case report of
           None \<Rightarrow> json_error 404 ''not_found'' ''Parent report not found''
         | Some d \<Rightarrow> Http_reply 200 (payload d)))), dd1))"

end
