(* ===== verification/DashboardFacts.thy ===== *)
theory DashboardFacts
  imports DashboardApi IdentityFacts ToolFacts
begin

text \<open>
  What the tokens of the dashboard guarantee: a token that was signed opens until it expires, an accepted
  one names the current role of a listed user, the two kinds of token are never taken for each other, and
  a shared report opens by its link. The sections at the end compare the tokens with the personnel
  authority, and show what they do with input that is not ASCII.
\<close>

section \<open>Base64 for URLs\<close>

lemma rstrip_pad_append: "rstrip_pad (xs @ ys) = (if \<forall>c\<in>set ys. c = 61 then rstrip_pad xs else xs @ rstrip_pad ys)"
proof (cases "\<forall>c\<in>set ys. c = 61")
  case False
  then have "dropWhile (\<lambda>c. c = 61) (rev ys @ rev xs) = dropWhile (\<lambda>c. c = 61) (rev ys) @ rev xs" by (auto intro: dropWhile_append1)
  then show ?thesis using False by (simp only: rstrip_pad_def rev_append if_False rev_rev_ident)
next
  case True
  then have "dropWhile (\<lambda>c. c = 61) (rev ys @ rev xs) = dropWhile (\<lambda>c. c = 61) (rev xs)" by (intro dropWhile_append2) simp
  then show ?thesis using True by (simp add: rstrip_pad_def)
qed

lemma rstrip_keep: "a \<noteq> 61 \<Longrightarrow> rstrip_pad (xs @ [a]) = xs @ [a]" "rstrip_pad [] = []"
  by (simp_all add: rstrip_pad_def)

lemma to_url_pad: "v < 64 \<Longrightarrow> to_url (b64_char v) \<noteq> 61" "to_url 61 = 61"
  by (auto simp: to_url_def b64_char_def)

lemma from_to_url: "c \<noteq> 45 \<Longrightarrow> c \<noteq> 95 \<Longrightarrow> from_url (to_url c) = c"
  by (auto simp: to_url_def from_url_def)

lemma b64_code_chars: "c \<in> set (b64_encode bs) \<Longrightarrow> c \<noteq> 45 \<and> c \<noteq> 95 \<and> c \<noteq> 46 \<and> c < 128"
proof -
  have char: "b64_char v \<noteq> 45 \<and> b64_char v \<noteq> 95 \<and> b64_char v \<noteq> 46 \<and> b64_char v < 128" if "v < 64" for v using that by (auto simp: b64_char_def)
  show "c \<in> set (b64_encode bs) \<Longrightarrow> c \<noteq> 45 \<and> c \<noteq> 95 \<and> c \<noteq> 46 \<and> c < 128"
    by (induction bs rule: b64_encode.induct) (use b64_parts char in auto)
qed

lemma from_to_code: "map from_url (map to_url (b64_encode bs)) = b64_encode bs"
  using b64_code_chars [of _ bs] by (simp add: from_to_url map_idI)

lemma url_padded: "url_encode bs @ replicate ((4 - length (url_encode bs) mod 4) mod 4) 61 = map to_url (b64_encode bs)"
proof (induction bs rule: b64_encode.induct)
  case (4 a b c bs)
  let ?q = "map to_url (take 4 (b64_encode (a # b # c # bs)))"
  have q: "length ?q = 4" "map to_url (b64_encode (a # b # c # bs)) = ?q @ map to_url (b64_encode bs)" by simp_all
  have last: "rstrip_pad ?q = ?q"
    using rstrip_keep(1) [of _ "butlast ?q"] to_url_pad b64_parts by simp
  have "url_encode (a # b # c # bs) = ?q @ url_encode bs"
  proof (cases "\<forall>c\<in>set (map to_url (b64_encode bs)). c = 61")
    case True
    then have "rstrip_pad (map to_url (b64_encode bs)) = []" by (auto simp: rstrip_pad_def dropWhile_eq_Nil_conv)
    then show ?thesis using True last unfolding url_encode_def q(2) by (simp only: rstrip_pad_append if_True append_Nil2 if_cancel)
  next
    case False
    then show ?thesis unfolding url_encode_def q(2) by (simp only: rstrip_pad_append if_False)
  qed
  then show ?case using 4 q by simp
qed (simp_all add: url_encode_def rstrip_pad_def to_url_pad b64_parts numeral_2_eq_2)

lemma url_roundtrip: "url_decode (url_encode bs) = Some bs"
  by (simp add: url_decode_def url_padded from_to_code b64_roundtrip del: map_append map_map)

lemma url_chars: "c \<in> set (url_encode bs) \<Longrightarrow> c < 128 \<and> c \<noteq> 46"
proof -
  assume c: "c \<in> set (url_encode bs)"
  then have "c \<in> set (map to_url (b64_encode bs))" by (metis UnI1 set_append url_padded)
  then show ?thesis using b64_code_chars [of _ bs] by (auto simp: to_url_def)
qed

lemma url_ascii: "ascii (url_encode bs)" "46 \<notin> set (url_encode bs)"
  using url_chars by (auto simp: ascii_def list_all_iff)

section \<open>Signing and opening\<close>

lemma decoded_payload:
  assumes "payload_part H payload = Inr part" "printable (ho_floats H) (JObj payload)"
  shows "decoded H part = Some (JObj payload)" "ascii part" "46 \<notin> set part"
proof -
  obtain bs where bs: "utf8_encode (json_text (ho_floats H) (JObj payload)) = Some bs" "part = url_encode bs"
    using assms(1) by (auto simp: payload_part_def split: option.splits)
  show "ascii part" "46 \<notin> set part" using bs(2) url_ascii by simp_all
  show "decoded H part = Some (JObj payload)"
    using utf8_roundtrip [OF bs(1)] json_loads_text [OF assms(2)] by (simp add: decoded_def bs(2) url_roundtrip)
qed

lemma signature_chars: "signature_of M secret part = Inr sig \<Longrightarrow> ascii sig \<and> 46 \<notin> set sig \<and> ascii part"
  by (auto simp: signature_of_def url_ascii split: option.splits if_splits)

lemma secret_name: "valid_name secret_file" "valid_name whitelist_name" "secret_file \<noteq> whitelist_name" "secret_file \<notin> set protected_business_files"
proof -
  show "valid_name secret_file" by (simp add: valid_name_def secret_file_def) (simp add: lit_def)
  show "valid_name whitelist_name" by (simp add: valid_name_def whitelist_name_def) (simp add: lit_def)
  show "secret_file \<notin> set protected_business_files" unfolding secret_file_def protected_business_files_def lit_in_map by simp
qed (simp add: secret_file_def whitelist_name_def)

lemma unguarded: "name \<notin> set protected_business_files \<Longrightarrow> assert_business_write_allowed H name dd = (Inr (), dd)"
  by (simp add: assert_business_write_allowed_def)

lemma write_secret:
  assumes "write_json H secret_file v dd = (Inr (), dd1)"
  shows "dd1 = dd\<lparr>dd_docs := AList.update secret_file (Some v) (dd_docs dd)\<rparr>"
  using assms by (auto simp: write_json_def unguarded secret_name put_doc_def split: prod.splits sum.splits if_splits)

text \<open>A text that is not empty and has no white space around it, as hexadecimal digits and random codes are.\<close>

definition plain_text :: "pystr \<Rightarrow> bool" where
  "plain_text s \<longleftrightarrow> s \<noteq> [] \<and> strip s = s"

text \<open>A secret that is in use is the one that is read back.\<close>

lemma secret_in_use:
  assumes "get_or_create_dashboard_secret H fresh dd = (Inr secret, dd1)" "plain_text fresh"
  shows "read_secret H dd1 = Inr secret" "secret \<noteq> []" "map_of (dd_docs dd1) whitelist_name = map_of (dd_docs dd) whitelist_name"
proof -
  consider "read_secret H dd = Inr secret" "secret \<noteq> []" "dd1 = dd" | "write_json H secret_file (secret_document H fresh) dd = (Inr (), dd1)" "secret = fresh"
    using assms(1) by (auto simp: get_or_create_dashboard_secret_def split: sum.splits if_splits prod.splits)
  then have "read_secret H dd1 = Inr secret \<and> secret \<noteq> [] \<and> map_of (dd_docs dd1) whitelist_name = map_of (dd_docs dd) whitelist_name"
  proof cases
    case 2
    note dd1 = write_secret [OF 2(1)]
    have "read_secret H dd1 = Inr (strip fresh)"
      by (simp add: dd1 read_secret_def read_json_def secret_name update_conv' secret_document_def text_in_def dget_def text_of_def por_def)
    then show ?thesis using assms(2) 2(2) secret_name(3) by (simp add: plain_text_def dd1 update_conv')
  qed simp
  then show "read_secret H dd1 = Inr secret" "secret \<noteq> []" "map_of (dd_docs dd1) whitelist_name = map_of (dd_docs dd) whitelist_name" by simp_all
qed

lemma sealedE:
  assumes "sealed H M fresh payload dd = (Inr tok, dd1)" "printable (ho_floats H) (JObj payload)"
  obtains part secret sig where "tok = part @ 46 # sig" "46 \<notin> set part" "ascii part" "decoded H part = Some (JObj payload)" "signature_of M secret part = Inr sig"
    "get_or_create_dashboard_secret H fresh dd = (Inr secret, dd1)"
proof -
  obtain part secret sig where p: "payload_part H payload = Inr part" "get_or_create_dashboard_secret H fresh dd = (Inr secret, dd1)"
    "signature_of M secret part = Inr sig" "tok = part @ 46 # sig"
    using assms(1) by (auto simp: sealed_def sbind_eq_Inr split: sum.splits prod.splits)
  with decoded_payload [OF p(1) assms(2)] that show thesis by blast
qed

text \<open>Whatever secret is in force, a signed token opens to its payload or to nothing.\<close>

lemma opened_only_payload:
  assumes "sealed H M fresh payload dd = (Inr tok, dd1)" "printable (ho_floats H) (JObj payload)" "opened H M tok dd2 = Inr d"
  shows "d = payload"
proof -
  from assms(1,2) obtain part secret sig where t: "tok = part @ 46 # sig" "46 \<notin> set part" "decoded H part = Some (JObj payload)" by (rule sealedE)
  then show ?thesis using assms(3)
    by (auto simp: opened_def split_once_append sbind_eq_Inr split: if_splits option.splits json.splits)
qed

lemma opened_again:
  assumes "sealed H M fresh payload dd = (Inr tok, dd1)" "printable (ho_floats H) (JObj payload)" "plain_text fresh" "read_secret H dd2 = read_secret H dd1"
  shows "opened H M tok dd2 = Inr payload"
proof -
  from assms(1,2) obtain part secret sig where t: "tok = part @ 46 # sig" "46 \<notin> set part" "ascii part" "decoded H part = Some (JObj payload)" "signature_of M secret part = Inr sig"
    "get_or_create_dashboard_secret H fresh dd = (Inr secret, dd1)" by (rule sealedE)
  note s = secret_in_use [OF t(6) assms(3)]
  show ?thesis using s assms(4) t(2,4,5) signature_chars [OF t(5)]
    by (simp add: opened_def t(1) split_once_append)
qed

lemma payloads_printable: "printable F (JObj (dashboard_payload uid role i t))" "printable F (JObj (parent_payload rid student i t))"
  by (simp_all add: dashboard_payload_def parent_payload_def)

lemma payload_reads: "text_in H (dashboard_payload uid role i t) ''uid'' = uid" "text_in H (dashboard_payload uid role i t) ''role'' = role"
    "expiry_of (dashboard_payload uid role i t) = Inr (i + t)" "text_in H (dashboard_payload uid role i t) ''scope'' = []"
    "text_in H (parent_payload rid student i t) ''uid'' = []" "text_in H (parent_payload rid student i t) ''scope'' = lit ''parent_growth_report''"
    "text_in H (parent_payload rid student i t) ''report_id'' = strip rid" "text_in H (parent_payload rid student i t) ''student_name'' = strip student"
    "expiry_of (parent_payload rid student i t) = Inr (i + t)"
  by (simp_all add: text_in_def text_of_def dashboard_payload_def parent_payload_def dget_def expiry_of_def Let_def) (auto simp: por_def)

section \<open>The role in force\<close>

lemma dashboard_alias_cases: "dashboard_alias r \<in> set viewer_roles \<Longrightarrow> dashboard_alias (dashboard_alias r) = dashboard_alias r"
  by (auto simp: viewer_roles_def dashboard_alias_def dashboard_roles_def)

lemma read_json_agree: "map_of (dd_docs dd2) name = map_of (dd_docs dd1) name \<Longrightarrow> read_json name v dd2 = read_json name v dd1"
  by (simp add: read_json_def)

lemma role_agrees: "map_of (dd_docs dd2) whitelist_name = map_of (dd_docs dd1) whitelist_name \<Longrightarrow> current_wecom_role H u dd2 = current_wecom_role H u dd1"
  by (simp add: current_wecom_role_def read_json_agree [of dd2 whitelist_name dd1])

lemma secret_agrees: "map_of (dd_docs dd2) secret_file = map_of (dd_docs dd1) secret_file \<Longrightarrow> read_secret H dd2 = read_secret H dd1"
  by (simp add: read_secret_def read_json_agree [of dd2 secret_file dd1])

lemma signed_dashboardE:
  assumes "sign_dashboard_token H M ident ttl now fresh dd = (Inr tok, dd1)"
  shows "dashboard_alias (ui_role ident) \<in> set viewer_roles" "signer_id ident \<noteq> []" "current_wecom_role H (signer_id ident) dd = Inr (dashboard_alias (ui_role ident))"
    "sealed H M fresh (dashboard_payload (signer_id ident) (dashboard_alias (ui_role ident)) (now_ts now) ttl) dd = (Inr tok, dd1)"
  using assms by (auto simp: sign_dashboard_token_def Let_def split: if_splits sum.splits)

lemma signed_role_kept:
  assumes "sign_dashboard_token H M ident ttl now fresh dd = (Inr tok, dd1)" "plain_text fresh"
  shows "current_wecom_role H (signer_id ident) dd1 = Inr (dashboard_alias (ui_role ident))"
proof -
  note s = signed_dashboardE [OF assms(1)]
  from s(4) payloads_printable(1) obtain secret where "get_or_create_dashboard_secret H fresh dd = (Inr secret, dd1)" by (rule sealedE)
  then have "map_of (dd_docs dd1) whitelist_name = map_of (dd_docs dd) whitelist_name" using assms(2) by (rule secret_in_use)
  then show ?thesis using role_agrees s(3) by metis
qed

lemma verify_payload:
  assumes "opened H M tok dd = Inr (dashboard_payload uid role i t)" "current_wecom_role H uid dd = Inr role" "dashboard_alias role = role" "role \<in> set viewer_roles"
    "uid \<noteq> []" "strip uid = uid" "now_ts now < i + t"
  shows "verify_dashboard_token H M tok now dd = Inr \<lparr>dp_user_id = uid, dp_role = role, dp_expires_at = i + t\<rparr>"
  using assms by (simp add: verify_dashboard_token_def payload_reads)

text \<open>
  C15: A token that was signed for a user opens until it expires, as long as the secret and the directory
  are those it was signed with: the whole way through JSON, UTF-8, base64 and the signature gives the same
  user, role and time of expiry, whatever the keyed digest computes.
\<close>

theorem signed_token_opens_until_expiry:
  assumes signed: "sign_dashboard_token H M ident ttl now fresh dd = (Inr tok, dd1)" and fresh: "plain_text fresh"
    and same: "map_of (dd_docs dd2) secret_file = map_of (dd_docs dd1) secret_file" "map_of (dd_docs dd2) whitelist_name = map_of (dd_docs dd1) whitelist_name"
    and time: "now_ts later < now_ts now + ttl"
  shows "verify_dashboard_token H M tok later dd2 =
    Inr \<lparr>dp_user_id = signer_id ident, dp_role = dashboard_alias (ui_role ident), dp_expires_at = now_ts now + ttl\<rparr>"
proof (rule verify_payload)
  note s = signed_dashboardE [OF signed]
  show "opened H M tok dd2 = Inr (dashboard_payload (signer_id ident) (dashboard_alias (ui_role ident)) (now_ts now) ttl)"
    using opened_again [OF s(4) payloads_printable(1) fresh] secret_agrees [OF same(1)] by simp
  show "current_wecom_role H (signer_id ident) dd2 = Inr (dashboard_alias (ui_role ident))"
    using signed_role_kept [OF signed fresh] role_agrees [OF same(2)] by simp
  show "dashboard_alias (dashboard_alias (ui_role ident)) = dashboard_alias (ui_role ident)" by (rule dashboard_alias_cases [OF s(1)])
  show "strip (signer_id ident) = signer_id ident" by (simp add: signer_id_def)
qed (use signed_dashboardE [OF signed] time in simp_all)

text \<open>The directory behind a role: a user who is listed and not rejected.\<close>

lemma current_role_listed:
  assumes "current_wecom_role H u dd = Inr role" "role \<noteq> []"
  obtains data supers allowed where "read_json whitelist_name (JObj []) dd = Inr (JObj data)" "in_set_of data ''rejected_users'' u = Inr False"
    "listed H data ''super_users'' = Inr supers" "listed H data ''allowed_users'' = Inr allowed" "u \<in> set supers \<union> set allowed"
proof -
  obtain data where d: "read_json whitelist_name (JObj []) dd = Inr (JObj data)" "role_in H data u = Inr role"
    using assms by (auto simp: current_wecom_role_def split: sum.splits json.splits)
  obtain rejected where r: "in_set_of data ''rejected_users'' u = Inr rejected"
    using d(2) by (cases "in_set_of data ''rejected_users'' u") (auto simp: role_in_def)
  then have "\<not> rejected" using d(2) assms(2) by (auto simp: role_in_def)
  then show thesis using that d r assms(2) by (auto simp: role_in_def sbind_eq_Inr split: if_splits)
qed

lemma accepted_role:
  assumes "verify_dashboard_token H M tok now dd = Inr p"
  shows "now_ts now < dp_expires_at p" "dp_role p \<in> set viewer_roles" "current_wecom_role H (dp_user_id p) dd = Inr (dp_role p)"
  using assms by (auto simp: verify_dashboard_token_def sbind_eq_Inr Let_def split: if_splits)


lemma signed_reportE:
  assumes "sign_parent_report_token H M rid student ttl now fresh dd = (Inr tok, dd1)"
  shows "sealed H M fresh (parent_payload rid student (now_ts now) ttl) dd = (Inr tok, dd1)" "check_report H rid student dd = Inr ()"
  using assms by (auto simp: sign_parent_report_token_def split: sum.splits)

text \<open>
  C19: Both kinds of token are signed with one secret, and still a token for the dashboard never opens a
  report for parents, nor a report's token the dashboard, whatever the store holds by then.
\<close>

theorem token_kinds_do_not_mix:
  assumes "sign_dashboard_token H M ident ttl now fresh dd = (Inr tok, dd1)"
    and "sign_parent_report_token H M rid student ttl' now' fresh' dd' = (Inr tok', dd1')"
  shows "verify_parent_report_token H M tok later dd2 \<noteq> Inr q \<and> verify_dashboard_token H M tok' later dd2 \<noteq> Inr p \<and> tok \<noteq> tok'"
proof -
  note s = signed_reportE(1) [OF assms(2)]
  have d: "verify_dashboard_token H M tok' later dd2 \<noteq> Inr p"
    using opened_only_payload [OF s payloads_printable(2), of dd2]
    by (auto simp: verify_dashboard_token_def sbind_eq_Inr payload_reads split: if_splits)
  from s payloads_printable(2) obtain part secret sig where t': "tok' = part @ 46 # sig" "46 \<notin> set part"
    "decoded H part = Some (JObj (parent_payload rid student (now_ts now') ttl'))" by (rule sealedE)
  note s1 = signed_dashboardE(4) [OF assms(1)]
  have d1: "verify_parent_report_token H M tok later dd2 \<noteq> Inr q"
    using opened_only_payload [OF s1 payloads_printable(1), of dd2]
    by (auto simp: verify_parent_report_token_def sbind_eq_Inr payload_reads split: if_splits)
  from s1 payloads_printable(1) obtain part1 secret1 sig1 where t: "tok = part1 @ 46 # sig1" "46 \<notin> set part1"
    "decoded H part1 = Some (JObj (dashboard_payload (signer_id ident) (dashboard_alias (ui_role ident)) (now_ts now) ttl))" by (rule sealedE)
  have "tok \<noteq> tok'"
  proof
    assume "tok = tok'"
    then have "part1 = part" using t(1,2) t'(1,2) append_sep_inj by metis
    with t(3) t'(3) show False by (simp add: dashboard_payload_def parent_payload_def)
  qed
  then show ?thesis using d d1 by simp
qed

section \<open>Views\<close>

lemma teacher_sees_own_dashboard_only:
  assumes "handle_teacher H M cache tok now dd = Inr (Http_reply 200 v)"
  shows "\<exists>u. current_wecom_role H u dd = Inr (lit ''teacher'') \<and>
    (view_of cache ''teacher_dashboards'' u = Inr v \<or> (\<exists>name. v = empty_teacher_view u name readonly_hint))"
proof -
  obtain p where p: "verify_dashboard_token H M tok now dd = Inr p"
    using assms by (auto simp: handle_teacher_def answering_def json_error_def split: sum.splits token_error.splits)
  then have r: "dp_role p = lit ''teacher''" using assms by (auto simp: handle_teacher_def answering_def json_error_def split: if_splits)
  have "current_wecom_role H (dp_user_id p) dd = Inr (lit ''teacher'')" using accepted_role(3) [OF p] r by simp
  moreover have "view_of cache ''teacher_dashboards'' (dp_user_id p) = Inr v \<or> (\<exists>name. v = empty_teacher_view (dp_user_id p) name readonly_hint)"
    using assms p r by (auto simp: handle_teacher_def answering_def sbind_eq_Inr split: if_splits)
  ultimately show ?thesis by blast
qed

section \<open>Input that is not ASCII\<close>

lemma opened_non_ascii:
  assumes "46 \<in> set tok" "\<not> ascii tok" "read_secret H dd = Inr secret" "secret \<noteq> []" "utf8_encode secret = Some key"
  shows "\<exists>exn. opened H M tok dd = Inl (raises exn)"
proof -
  obtain a b where ab: "tok = a @ 46 # b" "46 \<notin> set a" using split_list_first [OF assms(1)] by blast
  then have "\<not> ascii a \<or> \<not> ascii b" using assms(2) by (auto simp: ascii_def)
  then show ?thesis
  proof (cases "ascii a")
    case True
    then have "\<not> ascii b" using \<open>\<not> ascii a \<or> \<not> ascii b\<close> by simp
    then show ?thesis using True assms(3-5) ab by (auto simp: opened_def split_once_append signature_of_def)
  next
    case False
    then show ?thesis using assms(3-5) ab by (auto simp: opened_def split_once_append signature_of_def)
  qed
qed


section \<open>The dashboard and the personnel authority\<close>

lemma governance_is_other: "governance_file \<noteq> whitelist_name" "governance_file \<noteq> secret_file"
  by (simp_all add: governance_file_def whitelist_name_def secret_file_def)

definition with_governance :: "(pystr, json) dict \<Rightarrow> data_dir \<Rightarrow> data_dir" where
  "with_governance doc dd = dd\<lparr>dd_docs := AList.update governance_file (Some (JObj doc)) (dd_docs dd)\<rparr>"

lemma with_governance_agrees: "map_of (dd_docs (with_governance doc dd)) whitelist_name = map_of (dd_docs dd) whitelist_name"
  "map_of (dd_docs (with_governance doc dd)) secret_file = map_of (dd_docs dd) secret_file"
  using governance_is_other by (simp_all add: with_governance_def update_conv')

lemma verify_agrees:
  assumes "map_of (dd_docs dd2) secret_file = map_of (dd_docs dd1) secret_file" "map_of (dd_docs dd2) whitelist_name = map_of (dd_docs dd1) whitelist_name"
  shows "verify_dashboard_token H M tok now dd2 = verify_dashboard_token H M tok now dd1"
proof -
  have o: "opened H M tok dd2 = opened H M tok dd1" unfolding opened_def secret_agrees [OF assms(1)] ..
  show ?thesis unfolding verify_dashboard_token_def o role_agrees [OF assms(2)] ..
qed

text \<open>
  C17: The dashboard asks the old directory, not the personnel authority. When a user whose token is accepted is
  entered as rejected in an authority that is enforced and valid, the identity service refuses that user, and the
  dashboard goes on accepting the token with the old role.
\<close>

theorem rejected_user_keeps_the_dashboard:
  assumes "verify_dashboard_token H M tok now dd = Inr p" "authority_is_enforced H (JObj doc)" "validate_runtime_identity_document H (JObj doc) = None"
    and "dp_user_id p \<in> set (map fst (access_of doc ''rejected''))"
  shows "verify_dashboard_token H M tok now (with_governance doc dd) = Inr p
    \<and> (\<exists>r. resolve_runtime_identity H (authority_tenant H doc) (dp_user_id p) (with_governance doc dd) = Inr (Some r)
        \<and> rs_approval_state r = lit ''rejected'' \<and> rs_role r = lit ''unknown'')"
proof -
  have id: "strip (dp_user_id p) = dp_user_id p" using assms(1) by (auto simp: verify_dashboard_token_def sbind_eq_Inr Let_def split: if_splits)
  have read: "read_governance (with_governance doc dd) = Inr (JObj doc)"
    using governance_name(1) by (simp add: read_governance_iff read_json_def with_governance_def update_conv')
  have none: "find_person H doc (authority_tenant H doc) (dp_user_id p) = None"
  proof (rule ccontr)
    assume "find_person H doc (authority_tenant H doc) (dp_user_id p) \<noteq> None"
    then obtain q where "q \<in> set (people_of doc)" "text_in H q ''tenant_id'' = authority_tenant H doc" "text_in H q ''staff_user_id'' = dp_user_id p"
      by (auto simp: find_person_def find_Some_iff in_set_conv_nth)
    then have "dp_user_id p \<in> person_id H ` set (tenant_people H doc)" using id by (intro image_eqI [of _ _ q]) (simp_all add: tenant_people_def person_id_def in_tenant_def)
    then show False using valid_document(7) [OF assms(3,2)] assms(4) by blast
  qed
  have dec: "decision H (strip (dp_user_id p)) doc = access_resolution ''rejected'' ''rejected_identity_access''"
    using none assms(4) id by (simp add: decision_def)
  have "resolve_document H (authority_tenant H doc) (dp_user_id p) (JObj doc) = Inr (Some (access_resolution ''rejected'' ''rejected_identity_access''))"
    using resolve_valid [of H "JObj doc" "authority_tenant H doc" "dp_user_id p"] assms(2,3) dec by (simp add: stripped_tenant)
  then show ?thesis using verify_agrees [OF with_governance_agrees(2,1), of H M tok now doc dd] assms(1)
    by (simp add: resolve_runtime_identity_def read access_resolution_def)
qed

section \<open>Sample runs\<close>

definition sample_mac :: mac where
  "sample_mac key bs = []"

definition viewer :: user_identity where
  "viewer = identity_of (lit ''wecom'') (lit ''z'') (lit ''z'') [] (lit ''boss'') (lit ''approved'')"

definition growth_sample :: "string \<Rightarrow> (pystr, json) dict" where
  "growth_sample status = [(lit ''id'', JStr (lit ''r'')), (lit ''student_name'', JStr (lit ''s'')), (lit ''status'', JStr (lit status))]"

definition dashboard_dir :: "string \<Rightarrow> data_dir" where
  "dashboard_dir status = \<lparr>dd_docs = [(whitelist_name, Some (JObj [(lit ''super_users'', JList [JStr (lit ''z'')])])),
     (secret_file, Some (JObj [(lit ''secret'', JStr (lit ''k''))])), (lit ''growth_reports.json'', Some (JList [JObj (growth_sample status)]))],
     dd_ledgers = [], dd_active = None\<rparr>"

lemma dashboard_dir_reads: "read_secret H (dashboard_dir st) = Inr (lit ''k'')" "current_wecom_role H (lit ''z'') (dashboard_dir st) = Inr (lit ''boss'')"
    "find_growth_report H (lit ''r'') (dashboard_dir st) = Inr (Some (growth_sample st))"
proof -
  have ne: "whitelist_name \<noteq> secret_file" "lit ''growth_reports.json'' \<noteq> whitelist_name" "lit ''growth_reports.json'' \<noteq> secret_file"
    by (simp_all add: whitelist_name_def secret_file_def)
  have k: "strip (lit ''k'') = lit ''k''" by (simp add: strip_def lit_def is_space_def)
  show "read_secret H (dashboard_dir st) = Inr (lit ''k'')"
    using ne k secret_name by (simp add: read_secret_def read_json_def dashboard_dir_def text_in_def dget_def text_of_def por_def)
  have "role_in H [(lit ''super_users'', JList [JStr (lit ''z'')])] (lit ''z'') = Inr (lit ''boss'')"
    by (simp add: role_in_def in_set_of_def list_at_def listed_def configured_role_def dget_def por_def dashboard_alias_def dashboard_roles_def)
  then show "current_wecom_role H (lit ''z'') (dashboard_dir st) = Inr (lit ''boss'')"
    using secret_name by (simp add: current_wecom_role_def read_json_def dashboard_dir_def)
  have "valid_name (lit ''growth_reports.json'')" by (simp add: valid_name_def) (simp add: lit_def)
  then show "find_growth_report H (lit ''r'') (dashboard_dir st) = Inr (Some (growth_sample st))"
    using ne by (simp add: find_growth_report_def read_json_def dashboard_dir_def object_rows_def is_object_def text_in_def growth_sample_def dget_def text_of_def por_def)
qed

lemma sample_digits: "decimal 0 = [48]" "decimal 1 = [49]" "decimal 100 = [49, 48, 48]" "decimal 1209600 = [49, 50, 48, 57, 54, 48, 48]"
  by (simp_all add: decimal_def digits.simps)

lemma viewer_signed: "sign_dashboard_token sample_host sample_mac viewer 100 0 (lit ''f'') (dashboard_dir st) =
    (Inr (projr (payload_part sample_host (dashboard_payload (lit ''z'') (lit ''boss'') 0 100)) @ [46]), dashboard_dir st)"
proof -
  have part: "\<exists>part. payload_part sample_host (dashboard_payload (lit ''z'') (lit ''boss'') 0 100) = Inr part"
    by (simp add: payload_part_def utf8_encode_def dashboard_payload_def sample_digits) (simp add: json_string_def json_escape_def code_point_def surrogate_def lit_def)
  then obtain part where p: "payload_part sample_host (dashboard_payload (lit ''z'') (lit ''boss'') 0 100) = Inr part" by blast
  then have "ascii part" by (rule decoded_payload) (rule payloads_printable)
  then have "signature_of sample_mac (lit ''k'') part = Inr []"
    by (simp add: signature_of_def utf8_encode_def sample_mac_def url_encode_def rstrip_pad_def code_point_def surrogate_def lit_def)
  moreover have "dashboard_alias (ui_role viewer) = lit ''boss''" "signer_id viewer = lit ''z''"
    by (simp_all add: viewer_def identity_of_def dashboard_alias_def dashboard_roles_def signer_id_def or_else_def id_words)
  ultimately show ?thesis using p
    by (simp add: sign_dashboard_token_def viewer_roles_def dashboard_dir_reads now_ts_def sealed_def get_or_create_dashboard_secret_def)
qed

lemma f_plain: "plain_text (lit ''f'')" "plain_text (lit ''s'')" "plain_text (lit ''r'')"
  by (simp_all add: plain_text_def) (simp_all add: strip_def lit_def is_space_def)

theorem signed_token_opens_until_expiry_witness:
  "\<exists>tok. sign_dashboard_token sample_host sample_mac viewer 100 0 (lit ''f'') (dashboard_dir ''draft'') = (Inr tok, dashboard_dir ''draft'')
    \<and> verify_dashboard_token sample_host sample_mac tok 1 (dashboard_dir ''draft'') =
      Inr \<lparr>dp_user_id = signer_id viewer, dp_role = dashboard_alias (ui_role viewer), dp_expires_at = 100\<rparr>"
  using signed_token_opens_until_expiry [OF viewer_signed f_plain(1) refl refl, of 1] viewer_signed by (simp add: now_ts_def)

lemma viewer_accepted: "\<exists>tok p. verify_dashboard_token sample_host sample_mac tok 1 (dashboard_dir st) = Inr p \<and> dp_user_id p = lit ''z''"
proof -
  note s = signed_dashboardE [OF viewer_signed [of st]]
  have v: "dashboard_alias (ui_role viewer) = lit ''boss''" "signer_id viewer = lit ''z''"
    by (simp_all add: viewer_def identity_of_def dashboard_alias_def dashboard_roles_def signer_id_def or_else_def id_words)
  have "dashboard_alias (lit ''boss'') = lit ''boss''" "lit ''boss'' \<in> set viewer_roles" "strip (lit ''z'') = lit ''z''"
    by (simp_all add: dashboard_alias_def dashboard_roles_def viewer_roles_def id_words)
  moreover note verify_payload [OF opened_again [OF s(4) payloads_printable(1) f_plain(1) refl] s(3)]
  ultimately have "verify_dashboard_token sample_host sample_mac (projr (payload_part sample_host (dashboard_payload (lit ''z'') (lit ''boss'') 0 100)) @ [46]) 1 (dashboard_dir st) =
      Inr \<lparr>dp_user_id = lit ''z'', dp_role = lit ''boss'', dp_expires_at = 100\<rparr>" by (simp add: v now_ts_def)
  then show ?thesis by fastforce
qed


lemma report_signed: "\<exists>tok. sign_parent_report_token sample_host sample_mac (lit ''r'') (lit ''s'') 100 0 (lit ''f'') (dashboard_dir ''approved'') = (Inr tok, dashboard_dir ''approved'')"
proof -
  have "\<exists>part. payload_part sample_host (parent_payload (lit ''r'') (lit ''s'') 0 100) = Inr part"
    using f_plain(2,3) by (simp add: payload_part_def utf8_encode_def parent_payload_def sample_digits plain_text_def)
      (simp add: json_string_def json_escape_def code_point_def surrogate_def lit_def)
  then obtain part where p: "payload_part sample_host (parent_payload (lit ''r'') (lit ''s'') 0 100) = Inr part" by blast
  then have "ascii part" by (rule decoded_payload) (rule payloads_printable)
  then have "signature_of sample_mac (lit ''k'') part = Inr []"
    by (simp add: signature_of_def utf8_encode_def sample_mac_def url_encode_def rstrip_pad_def code_point_def surrogate_def lit_def)
  moreover have "check_report sample_host (lit ''r'') (lit ''s'') (dashboard_dir ''approved'') = Inr ()"
    by (simp add: check_report_def dashboard_dir_reads approved_report_def growth_sample_def text_in_def dget_def text_of_def por_def)
  ultimately show ?thesis using p
    by (simp add: sign_parent_report_token_def dashboard_dir_reads now_ts_def sealed_def get_or_create_dashboard_secret_def)
qed

theorem token_kinds_do_not_mix_witness:
  "\<exists>tok tok'. sign_dashboard_token sample_host sample_mac viewer 100 0 (lit ''f'') (dashboard_dir ''approved'') = (Inr tok, dashboard_dir ''approved'')
    \<and> sign_parent_report_token sample_host sample_mac (lit ''r'') (lit ''s'') 100 0 (lit ''f'') (dashboard_dir ''approved'') = (Inr tok', dashboard_dir ''approved'')
    \<and> (\<forall>p q. verify_parent_report_token sample_host sample_mac tok 1 (dashboard_dir ''approved'') \<noteq> Inr q
        \<and> verify_dashboard_token sample_host sample_mac tok' 1 (dashboard_dir ''approved'') \<noteq> Inr p)"
proof -
  obtain tok' where s: "sign_parent_report_token sample_host sample_mac (lit ''r'') (lit ''s'') 100 0 (lit ''f'') (dashboard_dir ''approved'') = (Inr tok', dashboard_dir ''approved'')"
    using report_signed by blast
  from token_kinds_do_not_mix [OF viewer_signed s] show ?thesis using s viewer_signed by blast
qed


definition rejecting_aggregate :: "(pystr, json) dict" where
  "rejecting_aggregate = sample_aggregate @ [(lit ''identity_access'', JObj [(lit ''rejected'', JObj [(lit ''z'', JObj [])])])]"

lemma rejecting_reads: "authority_is_enforced H (JObj rejecting_aggregate)" "map fst (access_of rejecting_aggregate ''rejected'') = [lit ''z'']"
    "validate_runtime_identity_document H (JObj rejecting_aggregate) = None"
proof -
  have other: "dget rejecting_aggregate (lit k) = dget sample_aggregate (lit k)" if "k \<noteq> ''identity_access''" for k
    using that by (simp add: rejecting_aggregate_def sample_aggregate_def dget_def)
  have acc: "dget rejecting_aggregate (lit ''identity_access'') = JObj [(lit ''rejected'', JObj [(lit ''z'', JObj [])])]"
    by (simp add: rejecting_aggregate_def sample_aggregate_def dget_def)
  have reads: "authority_of (JObj rejecting_aggregate) = authority_of (JObj sample_aggregate)" "people_of rejecting_aggregate = people_of sample_aggregate"
    "active_employments H rejecting_aggregate = active_employments H sample_aggregate"
    by (simp_all add: authority_of_def people_of_def active_employments_def other fun_eq_iff)
  show en: "authority_is_enforced H (JObj rejecting_aggregate)" using sample_aggregate_reads(1) by (simp add: authority_is_enforced_def reads)
  show rej: "map fst (access_of rejecting_aggregate ''rejected'') = [lit ''z'']" by (simp add: access_of_def acc) (simp add: dget_def)
  have pend: "access_of rejecting_aggregate ''pending'' = []" by (simp add: access_of_def acc) (simp add: dget_def)
  have ten: "authority_tenant H rejecting_aggregate = lit ''t''" using sample_aggregate_reads(2) by (simp add: authority_tenant_def reads)
  have p: "person_id H (sample_person (lit ''b'')) = lit ''b''" "person_id H (sample_person padded_id) = lit ''a''" "person_state H (sample_person u) = lit ''active''" for u
    by (simp_all add: person_id_def person_state_def id_words)
  have r: "employment_role H (sample_job_row u ''boss'') = lit ''boss''" "employment_role H (sample_job_row u ''teacher'') = lit ''teacher''" for u
    by (simp_all add: employment_role_def id_words)
  have "check_people H rejecting_aggregate (lit ''t'') [sample_person (lit ''b''), sample_person padded_id] ([], []) = Inr ([lit ''b''], [lit ''b'', lit ''a''])"
    by (simp add: p r reads sample_jobs person_states_def allowed_roles_def)
  then show "validate_runtime_identity_document H (JObj rejecting_aggregate) = None"
    using en by (simp add: validate_runtime_identity_document_def Let_def ten reads sample_aggregate_reads overlap_def rej pend)
qed

theorem rejected_user_keeps_the_dashboard_witness:
  "\<exists>tok p r. verify_dashboard_token sample_host sample_mac tok 1 (with_governance rejecting_aggregate (dashboard_dir ''draft'')) = Inr p
    \<and> resolve_runtime_identity sample_host (authority_tenant sample_host rejecting_aggregate) (dp_user_id p) (with_governance rejecting_aggregate (dashboard_dir ''draft'')) = Inr (Some r)
    \<and> rs_approval_state r = lit ''rejected''"
proof -
  obtain tok p where p: "verify_dashboard_token sample_host sample_mac tok 1 (dashboard_dir ''draft'') = Inr p" "dp_user_id p = lit ''z''" using viewer_accepted by blast
  have "dp_user_id p \<in> set (map fst (access_of rejecting_aggregate ''rejected''))" unfolding rejecting_reads(2) p(2) by simp
  from rejected_user_keeps_the_dashboard [OF p(1) rejecting_reads(1,3) this] show ?thesis by blast
qed

end
