(* ===== verification/ReportFacts.thy ===== *)
theory ReportFacts
  imports DashboardFacts
begin

text \<open>
  From the approval of a growth report to the parent who opens it: what each write leaves in the store,
  the link that resolves to the token, the token that opens the report, and the times at which both expire.
\<close>

section \<open>Reads and writes of the report files\<close>

lemma report_names: "valid_name reports_file" "valid_name report_links_file" "reports_file \<noteq> report_links_file" "secret_file \<noteq> reports_file" "secret_file \<noteq> report_links_file"
    "reports_file \<notin> set protected_business_files" "report_links_file \<notin> set protected_business_files"
proof -
  show "valid_name reports_file" by (simp add: valid_name_def reports_file_def) (simp add: lit_def)
  show "valid_name report_links_file" by (simp add: valid_name_def report_links_file_def) (simp add: lit_def)
  show "reports_file \<notin> set protected_business_files" unfolding reports_file_def protected_business_files_def lit_in_map by simp
  show "report_links_file \<notin> set protected_business_files" unfolding report_links_file_def protected_business_files_def lit_in_map by simp
qed (simp_all add: reports_file_def report_links_file_def secret_file_def)

lemma saved_Inr:
  assumes "saved H name v r dd = (Inr x, dd1)" "name \<notin> set protected_business_files"
  shows "x = r" "dd1 = dd\<lparr>dd_docs := AList.update name (Some v) (dd_docs dd)\<rparr>" "encodable (json_text (ho_floats H) v)"
proof -
  have "x = r \<and> dd1 = dd\<lparr>dd_docs := AList.update name (Some v) (dd_docs dd)\<rparr> \<and> encodable (json_text (ho_floats H) v)"
    using assms by (cases "valid_name name"; cases "encodable (json_text (ho_floats H) v)") (simp_all add: saved_def write_json_def unguarded put_doc_def)
  then show "x = r" "dd1 = dd\<lparr>dd_docs := AList.update name (Some v) (dd_docs dd)\<rparr>" "encodable (json_text (ho_floats H) v)" by blast+
qed

lemma saved_ok: "valid_name name \<Longrightarrow> name \<notin> set protected_business_files \<Longrightarrow> encodable (json_text (ho_floats H) v) \<Longrightarrow>
    saved H name v r dd = (Inr r, dd\<lparr>dd_docs := AList.update name (Some v) (dd_docs dd)\<rparr>)"
  by (simp add: saved_def write_json_def unguarded put_doc_def)

lemma loaded_agrees: "map_of (dd_docs dd2) name = map_of (dd_docs dd1) name \<Longrightarrow> loaded name v dd2 = loaded name v dd1"
  by (simp add: loaded_def read_json_agree [of dd2 name dd1])

lemma loaded_written: "valid_name name \<Longrightarrow> loaded name w (dd\<lparr>dd_docs := AList.update name (Some v) (dd_docs dd)\<rparr>) = Inr v"
  by (simp add: loaded_def read_json_def update_conv')

lemma find_report_list: "map_option as_dict (List.find (has_id H rid) xs) = List.find (\<lambda>d. text_in H d ''id'' = rid) (map as_dict (filter is_object xs))"
  by (induction xs) (auto simp: has_id_def)

lemma find_report: "find_growth_report H rid dd = sbind (loaded reports_file (JList []) dd) (\<lambda>v. Inr (case v of
    JList reports \<Rightarrow> map_option as_dict (List.find (has_id H rid) reports) | _ \<Rightarrow> None))"
  by (cases "read_json reports_file (JList []) dd")
    (auto simp: find_growth_report_def loaded_def find_report_list object_rows_def simp flip: reports_file_def split: json.splits)

lemma by_id_is_find: "growth_report_by_id H rid dd = find_growth_report H rid dd"
  by (simp add: growth_report_by_id_def find_report)

lemma find_report_agrees: "map_of (dd_docs dd2) reports_file = map_of (dd_docs dd1) reports_file \<Longrightarrow> find_growth_report H rid dd2 = find_growth_report H rid dd1"
  by (simp add: find_report loaded_agrees [of dd2 reports_file dd1])

lemma find_changed:
  assumes "\<And>d. text_in H (f d) ''id'' = text_in H d ''id''"
  shows "map_option as_dict (List.find (has_id H rid) (apply_first (has_id H rid) (\<lambda>v. JObj (f (as_dict v))) xs)) = map_option (f \<circ> as_dict) (List.find (has_id H rid) xs)"
  using assms by (induction xs) (auto simp: has_id_def is_object_def)

text \<open>The report that a change returns is the one that is found afterwards; no other file changes.\<close>

lemma change_report_found:
  assumes "change_report H rid f dd = (Inr (Some d), dd1)" "\<And>d. text_in H (f d) ''id'' = text_in H d ''id''"
  obtains d0 where "find_growth_report H rid dd = Inr (Some d0)" "d = f d0" "find_growth_report H rid dd1 = Inr (Some d)"
    "\<And>n. n \<noteq> reports_file \<Longrightarrow> map_of (dd_docs dd1) n = map_of (dd_docs dd) n"
proof -
  obtain xs x where x: "loaded reports_file (JList []) dd = Inr (JList xs)" "List.find (has_id H rid) xs = Some x"
    "saved H reports_file (JList (apply_first (has_id H rid) (\<lambda>v. JObj (f (as_dict v))) xs)) (Some (f (as_dict x))) dd = (Inr (Some d), dd1)"
    using assms(1) by (auto simp: change_report_def split: sum.splits json.splits option.splits)
  note s = saved_Inr [OF x(3) report_names(6)]
  have "find_growth_report H rid dd = Inr (Some (as_dict x))" using x(1,2) by (simp add: find_report)
  moreover have "find_growth_report H rid dd1 = Inr (Some (f (as_dict x)))"
    unfolding s(2) find_report loaded_written [OF report_names(1)] using x(2) by (simp add: find_changed assms(2))
  moreover have "map_of (dd_docs dd1) n = map_of (dd_docs dd) n" if "n \<noteq> reports_file" for n
    using that by (simp add: s(2) update_conv')
  ultimately show thesis using that s(1) by simp
qed

lemma change_report_none:
  assumes "change_report H rid f dd = (Inr None, dd1)"
  shows "dd1 = dd" "find_growth_report H rid dd = Inr None"
  using assms by (auto simp: change_report_def find_report saved_def split: sum.splits json.splits option.splits prod.splits)

lemma approval_keeps: "text_in H (approval K actor remark now d) ''id'' = text_in H d ''id''" "approved_report (approval K actor remark now d)"
    "text_in H (approval K actor remark now d) ''student_name'' = text_in H d ''student_name''"
  by (simp_all add: approval_def text_in_def approved_report_def)

lemma share_mark_keeps: "text_in H (AList.update (lit ''approved_share_token_created_at'') v d) ''id'' = text_in H d ''id''"
    "text_in H (AList.update (lit ''approved_share_token_created_at'') v d) ''student_name'' = text_in H d ''student_name''"
    "approved_report (AList.update (lit ''approved_share_token_created_at'') v d) = approved_report d"
  by (simp_all add: text_in_def approved_report_def)

text \<open>
  An approval makes the first report with the given id approved, under the name of the actor, and leaves
  its student alone; every other file stays as it is, and without such a report nothing is written.
\<close>

theorem approval_is_recorded:
  assumes "approve_growth_report H K rid actor remark now dd = (Inr res, dd1)"
  shows "case res of None \<Rightarrow> dd1 = dd \<and> find_growth_report H rid dd = Inr None
    | Some d \<Rightarrow> find_growth_report H rid dd1 = Inr (Some d) \<and> approved_report d \<and> text_in H d ''approved_by'' = actor
        \<and> (\<exists>d0. find_growth_report H rid dd = Inr (Some d0) \<and> text_in H d ''student_name'' = text_in H d0 ''student_name'')
        \<and> (\<forall>n. n \<noteq> reports_file \<longrightarrow> map_of (dd_docs dd1) n = map_of (dd_docs dd) n)"
proof (cases res)
  case None
  then show ?thesis using assms change_report_none by (simp add: approve_growth_report_def)
next
  case (Some d)
  with assms have c: "change_report H rid (approval K actor remark now) dd = (Inr (Some d), dd1)" by (simp add: approve_growth_report_def)
  then obtain d0 where d: "find_growth_report H rid dd = Inr (Some d0)" "d = approval K actor remark now d0" "find_growth_report H rid dd1 = Inr (Some d)"
    "\<And>n. n \<noteq> reports_file \<Longrightarrow> map_of (dd_docs dd1) n = map_of (dd_docs dd) n" using approval_keeps(1) by (rule change_report_found) blast
  have "text_in H d ''approved_by'' = actor" by (simp add: d(2) approval_def text_in_def text_of_def por_def)
  then show ?thesis using Some d approval_keeps(2,3) by simp
qed

section \<open>Sharing\<close>

lemma secret_keeps: "get_or_create_dashboard_secret H fresh dd = (r, dd1) \<Longrightarrow> n \<noteq> secret_file \<Longrightarrow> map_of (dd_docs dd1) n = map_of (dd_docs dd) n"
proof -
  assume g: "get_or_create_dashboard_secret H fresh dd = (r, dd1)" and n: "n \<noteq> secret_file"
  consider "dd1 = dd" | r0 where "write_json H secret_file (secret_document H fresh) dd = (r0, dd1)"
    using g by (cases "write_json H secret_file (secret_document H fresh) dd") (auto simp: get_or_create_dashboard_secret_def split: sum.splits if_splits)
  then show ?thesis
  proof cases
    case 2
    then have "dd1 = dd \<or> dd1 = dd\<lparr>dd_docs := AList.update secret_file (Some (secret_document H fresh)) (dd_docs dd)\<rparr>"
      by (cases "encodable (json_text (ho_floats H) (secret_document H fresh))")
        (simp_all add: write_json_def unguarded put_doc_def secret_name)
    then show ?thesis using n by (auto simp: update_conv')
  qed simp
qed

lemma check_report_iff: "check_report H rid student dd = Inr () \<longleftrightarrow> (\<exists>d. find_growth_report H rid dd = Inr (Some d) \<and> approved_report d \<and> text_in H d ''student_name'' = student)"
  by (cases "find_growth_report H rid dd") (auto simp: check_report_def split: option.splits)

text \<open>What a shared report leaves in the store: the report, the secret and the link.\<close>

definition shared_state :: "host \<Rightarrow> calendar \<Rightarrow> mac \<Rightarrow> pystr \<Rightarrow> pystr \<Rightarrow> timestamp \<Rightarrow> (pystr, json) dict \<Rightarrow> data_dir \<Rightarrow> bool" where
  "shared_state H K M rid student now item dd \<longleftrightarrow> (\<exists>code tok actor links.
     item = link_item K code rid tok (now + ca_offset K + of_int parent_report_token_ttl_seconds) actor now
     \<and> loaded report_links_file (JObj []) dd = Inr (JObj links) \<and> dget links code = JObj item \<and> encodable (json_text (ho_floats H) (JObj links))
     \<and> check_report H rid student dd = Inr () \<and>
     (\<forall>dd2. read_secret H dd2 = read_secret H dd \<longrightarrow> opened H M tok dd2 = Inr (parent_payload rid student (now_ts now) parent_report_token_ttl_seconds)))"

lemma shared_leaves:
  assumes "share_approved H K M fresh draws spare ident student now report dd = (Inr (Share_link item), dd3)" "plain_text fresh"
  shows "shared_state H K M (text_in H report ''id'') student now item dd3"
proof -
  let ?rid = "text_in H report ''id''" and ?wall = "now + ca_offset K + of_int parent_report_token_ttl_seconds"
  obtain tok dd1 r dd2 where t: "sign_parent_report_token H M ?rid student parent_report_token_ttl_seconds now fresh dd = (Inr tok, dd1)"
    "mark_growth_report_shared H K ?rid now dd1 = (Inr r, dd2)"
    "create_parent_report_short_link H K draws spare ?rid tok ?wall (ui_canonical_user_id ident) now dd2 = (Inr item, dd3)"
    using assms(1) by (auto simp: share_approved_def Let_def split: prod.splits sum.splits token_error.splits)
  note s = signed_reportE [OF t(1)]
  from s(1) payloads_printable(2) obtain secret where sec: "get_or_create_dashboard_secret H fresh dd = (Inr secret, dd1)" by (rule sealedE)
  have f1: "find_growth_report H ?rid dd1 = find_growth_report H ?rid dd"
    using find_report_agrees secret_keeps [OF sec] report_names(4) by metis
  have keep2: "map_of (dd_docs dd2) secret_file = map_of (dd_docs dd1) secret_file \<and> check_report H ?rid student dd2 = Inr ()"
  proof (cases r)
    case None
    then have "dd2 = dd1" using change_report_none t(2) by (simp add: mark_growth_report_shared_def)
    then show ?thesis using s(2) f1 by (simp add: check_report_iff)
  next
    case (Some d)
    with t(2) have "change_report H ?rid (AList.update (lit ''approved_share_token_created_at'') (JStr (local_text K now))) dd1 = (Inr (Some d), dd2)"
      by (simp add: mark_growth_report_shared_def)
    then obtain d0 where d: "find_growth_report H ?rid dd1 = Inr (Some d0)" "d = AList.update (lit ''approved_share_token_created_at'') (JStr (local_text K now)) d0"
      "find_growth_report H ?rid dd2 = Inr (Some d)" "\<And>n. n \<noteq> reports_file \<Longrightarrow> map_of (dd_docs dd2) n = map_of (dd_docs dd1) n"
      using share_mark_keeps(1) by (rule change_report_found) blast
    then show ?thesis using s(2) f1 report_names(4) share_mark_keeps by (auto simp: check_report_iff)
  qed
  obtain v where v: "loaded report_links_file (JObj []) dd2 = Inr v" using t(3) by (auto simp: create_parent_report_short_link_def split: sum.splits)
  define code where "code = new_code draws spare (as_dict v)"
  have save: "saved H report_links_file (JObj (AList.update code (JObj (link_item K code ?rid tok ?wall (ui_canonical_user_id ident) now)) (as_dict v)))
      (link_item K code ?rid tok ?wall (ui_canonical_user_id ident) now) dd2 = (Inr item, dd3)"
    using t(3) v by (simp add: create_parent_report_short_link_def code_def Let_def)
  note w = saved_Inr [OF save report_names(7)]
  have docs: "map_of (dd_docs dd3) n = map_of (dd_docs dd2) n" if "n \<noteq> report_links_file" for n using that by (simp add: w(2) update_conv')
  have "check_report H ?rid student dd3 = Inr ()" using keep2 find_report_agrees [OF docs [OF report_names(3)]] by (simp add: check_report_iff)
  moreover have "read_secret H dd3 = read_secret H dd1" using secret_agrees docs [OF report_names(5)] keep2 by metis
  moreover have "loaded report_links_file (JObj []) dd3 = Inr (JObj (AList.update code (JObj item) (as_dict v)))"
    unfolding w(1) w(2) by (rule loaded_written [OF report_names(2)])
  ultimately show ?thesis unfolding shared_state_def using w(1,3) opened_again [OF s(1) payloads_printable(2) assms(2)]
    by (intro exI [of _ code] exI [of _ tok] exI [of _ "ui_canonical_user_id ident"] exI [of _ "AList.update code (JObj item) (as_dict v)"]) (simp add: dget_update)
qed

lemma share_link_shared:
  assumes "share_growth_report H K M a fresh draws spare ident student period now dd = (Inr (Share_link item), dd3)" "plain_text fresh"
  shows "shared_state H K M (text_in H item ''report_id'') student now item dd3"
proof -
  obtain d dd1 where "share_approved H K M fresh draws spare ident student now d dd1 = (Inr (Share_link item), dd3)"
    using assms(1) by (auto simp: share_growth_report_def split: sum.splits option.splits prod.splits if_splits)
  from shared_leaves [OF this assms(2)] have s: "shared_state H K M (text_in H d ''id'') student now item dd3" .
  then have "text_in H item ''report_id'' = text_in H d ''id''"
    by (auto simp: shared_state_def link_item_def text_in_def dget_def text_of_def por_def)
  with s show ?thesis by simp
qed

text \<open>What the printer and the reader of ISO texts do with one time: the fraction of the second is dropped.\<close>

definition reads_back :: "calendar \<Rightarrow> rat \<Rightarrow> rat \<Rightarrow> bool" where
  "reads_back K wall off \<longleftrightarrow> ca_read K (ca_print K wall off) = Some (of_int \<lfloor>wall\<rfloor>, Some off) \<and> plain_text (ca_print K wall off)"

definition token_end :: "timestamp \<Rightarrow> int" where
  "token_end now = now_ts now + parent_report_token_ttl_seconds"

definition link_end :: "calendar \<Rightarrow> timestamp \<Rightarrow> rat" where
  "link_end K now = of_int \<lfloor>now + ca_offset K + of_int parent_report_token_ttl_seconds\<rfloor>"

lemma encodable_update:
  assumes "encodable (json_text F (JObj d))" "encodable (json_text F v)" "encodable k"
  shows "encodable (json_text F (JObj (AList.update k v d)))"
  using assms by (induction d) (auto simp: list_all_iff)

lemma encodable_entry: "encodable (json_text F (JObj d)) \<Longrightarrow> (k, v) \<in> set d \<Longrightarrow> encodable k \<and> encodable (json_text F v)"
  by (auto simp: list_all_iff)

lemma link_reads: "text_in H (link_item K code rid tok wall actor now) ''code'' = code" "text_in H (link_item K code rid tok wall actor now) ''report_id'' = rid"
    "text_in H (link_item K code rid tok wall actor now) ''token'' = tok" "dget (link_item K code rid tok wall actor now) (lit ''expires_at'') = JStr (aware_iso K wall)"
    "counted (link_item K code rid tok wall actor now) = Inr (AList.update (lit ''access_count'') (JInt 1) (link_item K code rid tok wall actor now))"
  by (simp_all add: link_item_def text_in_def dget_def text_of_def por_def counted_def)

text \<open>Opening the link counts one access and yields the token; the other files stay as they are.\<close>

lemma shared_link_token:
  assumes st: "shared_state H K M rid student now item dd" and code: "plain_text (text_in H item ''code'')"
    and iso: "reads_back K (now + ca_offset K + of_int parent_report_token_ttl_seconds) 0" and time: "later < link_end K now"
  obtains tok dd1 links where "link_token H K t (text_in H item ''code'') later dd = (Inr tok, dd1)"
    "opened H M tok dd1 = Inr (parent_payload rid student (now_ts now) parent_report_token_ttl_seconds)"
    "check_report H rid student dd1 = Inr ()"
    "loaded report_links_file (JObj []) dd1 = Inr (JObj links)" "dget links (text_in H item ''code'') = JObj (AList.update (lit ''access_count'') (JInt 1) item)"
proof -
  let ?wall = "now + ca_offset K + of_int parent_report_token_ttl_seconds"
  obtain code tok actor links where l: "item = link_item K code rid tok ?wall actor now" "loaded report_links_file (JObj []) dd = Inr (JObj links)"
    "dget links code = JObj item" "encodable (json_text (ho_floats H) (JObj links))" "check_report H rid student dd = Inr ()"
    "\<And>dd2. read_secret H dd2 = read_secret H dd \<Longrightarrow> opened H M tok dd2 = Inr (parent_payload rid student (now_ts now) parent_report_token_ttl_seconds)"
    using st unfolding shared_state_def by blast
  let ?item = "AList.update (lit ''access_count'') (JInt 1) item" and ?links = "AList.update code (JObj (AList.update (lit ''access_count'') (JInt 1) item)) links"
  have c: "text_in H item ''code'' = code" "strip code = code" "code \<noteq> []" using code by (simp_all add: l(1) link_reads plain_text_def)
  have u: "usable_link H K later item"
    using iso time by (simp add: usable_link_def l(1) link_reads parse_datetime_def aware_iso_def text_of_def por_def reads_back_def plain_text_def link_end_def Let_def)
  have r: "\<exists>d. growth_report_by_id H (text_in H item ''report_id'') dd = Inr (Some d) \<and> approved_report d"
    using l(5) by (auto simp: check_report_iff by_id_is_find l(1) link_reads)
  have one: "encodable (decimal 1)" by (simp add: decimal_def digits.simps [of "Suc 0"])
  have "(code, JObj item) \<in> set links" using l(3) by (auto simp: dget_def dest: map_of_SomeD split: option.splits)
  then have enc: "encodable (json_text (ho_floats H) (JObj ?links))"
    using encodable_entry [OF l(4)] l(4) by (intro encodable_update) (auto simp: one encodable_update simp del: json_text.simps(7))
  define dd1 where "dd1 = dd\<lparr>dd_docs := AList.update report_links_file (Some (JObj ?links)) (dd_docs dd)\<rparr>"
  have docs: "map_of (dd_docs dd1) n = map_of (dd_docs dd) n" if "n \<noteq> report_links_file" for n using that by (simp add: dd1_def update_conv')
  have sv: "saved H report_links_file (JObj ?links) (Some ?item) dd = (Inr (Some ?item), dd1)"
    unfolding dd1_def using enc by (rule saved_ok [OF report_names(2,7)])
  have res: "resolve_parent_report_short_link H K code later True dd = (Inr (Some ?item), dd1)"
    using u r sv l(2,3) c(2) link_reads(5) by (auto simp: resolve_parent_report_short_link_def l(1))
  have "link_token H K t code later dd = (Inr tok, dd1)"
    using c(3) res by (simp add: link_token_def l(1) link_reads text_in_def) (simp add: link_item_def dget_def text_of_def por_def)
  moreover have "opened H M tok dd1 = Inr (parent_payload rid student (now_ts now) parent_report_token_ttl_seconds)"
    using l(6) secret_agrees docs [OF report_names(5)] by metis
  moreover have "check_report H rid student dd1 = Inr ()" using l(5) find_report_agrees [OF docs [OF report_names(3)]] by (simp add: check_report_iff)
  moreover have "loaded report_links_file (JObj []) dd1 = Inr (JObj ?links)" unfolding dd1_def by (rule loaded_written [OF report_names(2)])
  ultimately show thesis using that [of tok dd1 ?links] c(1) by (simp add: dget_update)
qed


text \<open>
  East of Greenwich the link outlives its token. The link is stored with the expiry of the token on the local
  wall clock, marked as UTC; between the end of the token and that time the link still resolves, the
  access is counted, and the parent is told that the token has expired.
\<close>

theorem link_outlives_its_token:
  assumes shared: "share_growth_report H K M address fresh draws spare ident student period now dd = (Inr (Share_link item), dd3)"
    and texts: "plain_text fresh" "plain_text student" "plain_text (text_in H item ''report_id'')" "plain_text (text_in H item ''code'')"
    and iso: "reads_back K (now + ca_offset K + of_int parent_report_token_ttl_seconds) 0"
    and time: "token_end now \<le> now_ts later" "later < link_end K now"
  shows "\<exists>dd4 links. handle_parent_report_api H K M payload [] (text_in H item ''code'') later dd3 = (Inr (json_error 401 ''expired'' ''Token has expired''), dd4)
    \<and> loaded report_links_file (JObj []) dd4 = Inr links
    \<and> dget (as_dict links) (text_in H item ''code'') = JObj (AList.update (lit ''access_count'') (JInt 1) item)"
proof -
  let ?rid = "text_in H item ''report_id''"
  obtain tok dd4 links where t: "link_token H K [] (text_in H item ''code'') later dd3 = (Inr tok, dd4)"
    "opened H M tok dd4 = Inr (parent_payload ?rid student (now_ts now) parent_report_token_ttl_seconds)"
    "loaded report_links_file (JObj []) dd4 = Inr (JObj links)" "dget links (text_in H item ''code'') = JObj (AList.update (lit ''access_count'') (JInt 1) item)"
    using shared_link_token [OF share_link_shared [OF shared texts(1)] texts(4) iso time(2)] by blast
  have "verify_parent_report_token H M tok later dd4 = Inl (Tk_auth ''expired'' ''Token has expired'')"
    using t(2) texts(2,3) time(1) by (simp add: verify_parent_report_token_def payload_reads plain_text_def token_end_def)
  then show ?thesis using t(1,3,4)
    by (intro exI [of _ dd4] exI [of _ "JObj links"]) (simp add: handle_parent_report_api_def answering_def)
qed

section \<open>Sample runs\<close>

definition sample_calendar :: calendar where
  "sample_calendar = \<lparr>ca_offset = 28800, ca_print = (\<lambda>_ _. lit ''i''), ca_read = (\<lambda>_. Some (1238400, Some 0))\<rparr>"

lemma i_plain: "plain_text (lit ''i'')" "plain_text (lit ''c'')"
  by (simp_all add: plain_text_def) (simp_all add: strip_def lit_def is_space_def)

lemma sample_reads_back: "reads_back sample_calendar (0 + ca_offset sample_calendar + of_int parent_report_token_ttl_seconds) 0"
  using i_plain(1) by (simp add: reads_back_def sample_calendar_def parent_report_token_ttl_seconds_def)

lemma dashboard_dir_reports: "loaded reports_file (JList []) (dashboard_dir st) = Inr (JList [JObj (growth_sample st)])"
    "loaded report_links_file (JObj []) (dashboard_dir st) = Inr (JObj [])"
  using report_names(1,2) by (simp_all add: loaded_def read_json_def dashboard_dir_def) (simp_all add: reports_file_def report_links_file_def whitelist_name_def secret_file_def)

lemma growth_sample_id: "has_id H (lit ''r'') (JObj (growth_sample st))"
  by (simp add: has_id_def is_object_def growth_sample_def text_in_def dget_def text_of_def por_def)

theorem approval_is_recorded_witness:
  "\<exists>d dd1. approve_growth_report sample_host sample_calendar (lit ''r'') (lit ''z'') [] 0 (dashboard_dir ''draft'') = (Inr (Some d), dd1)
    \<and> find_growth_report sample_host (lit ''r'') dd1 = Inr (Some d) \<and> approved_report d"
proof -
  let ?d = "approval sample_calendar (lit ''z'') [] 0 (growth_sample ''draft'')"
  have enc: "encodable (json_text (ho_floats sample_host) (JList [JObj ?d]))"
    by (simp add: approval_def growth_sample_def local_text_def sample_calendar_def)
  have "\<exists>dd1. approve_growth_report sample_host sample_calendar (lit ''r'') (lit ''z'') [] 0 (dashboard_dir ''draft'') = (Inr (Some ?d), dd1)"
    by (simp add: approve_growth_report_def change_report_def dashboard_dir_reports growth_sample_id) (rule exI, rule saved_ok [OF report_names(1,6) enc])
  then obtain dd1 where "approve_growth_report sample_host sample_calendar (lit ''r'') (lit ''z'') [] 0 (dashboard_dir ''draft'') = (Inr (Some ?d), dd1)" by blast
  with approval_is_recorded [OF this] show ?thesis by auto
qed

lemma sample_shared: "\<exists>tok dd3. share_growth_report sample_host sample_calendar sample_mac True (lit ''f'') [lit ''c''] (lit ''c'') viewer (lit ''s'') [] 0 (dashboard_dir ''approved'') =
    (Inr (Share_link (link_item sample_calendar (lit ''c'') (lit ''r'') tok (28800 + 1209600) (lit ''z'') 0)), dd3)"
proof -
  let ?H = sample_host and ?K = sample_calendar and ?dd = "dashboard_dir ''approved''"
  let ?m = "AList.update (lit ''approved_share_token_created_at'') (JStr (local_text ?K 0)) (growth_sample ''approved'')"
  have id: "text_in ?H (growth_sample ''approved'') ''id'' = lit ''r''" "text_in ?H (growth_sample ''approved'') ''student_name'' = lit ''s''"
    by (simp_all add: growth_sample_def text_in_def dget_def text_of_def por_def)
  obtain part where part: "payload_part ?H (parent_payload (lit ''r'') (lit ''s'') 0 1209600) = Inr part"
    using f_plain(2,3) by (simp add: payload_part_def utf8_encode_def parent_payload_def sample_digits plain_text_def)
      (simp add: json_string_def json_escape_def code_point_def surrogate_def lit_def)
  then have asc: "ascii part" by (rule decoded_payload) (rule payloads_printable)
  then have sig: "signature_of sample_mac (lit ''k'') part = Inr []"
    by (simp add: signature_of_def utf8_encode_def sample_mac_def url_encode_def rstrip_pad_def code_point_def surrogate_def lit_def)
  have chk: "check_report ?H (lit ''r'') (lit ''s'') ?dd = Inr ()"
    by (simp add: check_report_iff dashboard_dir_reads id) (simp add: approved_report_def growth_sample_def dget_def)
  have sign: "sign_parent_report_token ?H sample_mac (lit ''r'') (lit ''s'') parent_report_token_ttl_seconds 0 (lit ''f'') ?dd = (Inr (part @ [46]), ?dd)"
    using part sig by (simp add: sign_parent_report_token_def chk dashboard_dir_reads now_ts_def sealed_def get_or_create_dashboard_secret_def parent_report_token_ttl_seconds_def)
  have enc: "encodable (json_text (ho_floats ?H) (JList [JObj ?m]))"
    by (simp add: growth_sample_def local_text_def sample_calendar_def)
  define dd2 where "dd2 = ?dd\<lparr>dd_docs := AList.update reports_file (Some (JList [JObj ?m])) (dd_docs ?dd)\<rparr>"
  have mark: "mark_growth_report_shared ?H ?K (lit ''r'') 0 ?dd = (Inr (Some ?m), dd2)"
    using saved_ok [OF report_names(1,6) enc] by (simp add: mark_growth_report_shared_def change_report_def dashboard_dir_reports growth_sample_id dd2_def)
  have links: "loaded report_links_file (JObj []) dd2 = Inr (JObj [])"
    using loaded_agrees [of dd2 report_links_file ?dd] report_names(3) dashboard_dir_reports(2) by (simp add: dd2_def update_conv')
  let ?item = "link_item ?K (lit ''c'') (lit ''r'') (part @ [46]) (28800 + 1209600) (lit ''z'') 0"
  have "encodable part" using asc by (auto simp: ascii_def encodable_def list_all_iff)
  then have encl: "encodable (json_text (ho_floats ?H) (JObj [(lit ''c'', JObj ?item)]))"
    by (simp add: link_item_def aware_iso_def local_text_def sample_calendar_def sample_digits)
  have link: "\<exists>dd3. create_parent_report_short_link ?H ?K [lit ''c''] (lit ''c'') (lit ''r'') (part @ [46]) (28800 + 1209600) (lit ''z'') 0 dd2 = (Inr ?item, dd3)"
    unfolding create_parent_report_short_link_def links by (simp add: new_code_def) (rule exI, rule saved_ok [OF report_names(2,7)], use encl in simp)
  have view: "ui_canonical_user_id viewer = lit ''z''" "ca_offset ?K = 28800" by (simp_all add: viewer_def identity_of_def sample_calendar_def)
  have "latest_growth_report ?H (lit ''s'') False [] ?dd = Inr (Some (growth_sample ''approved''))"
    by (simp add: latest_growth_report_def dashboard_dir_reports object_rows_def is_object_def id)
  moreover have "approved_report (growth_sample ''approved'')" "growth_sample ''approved'' \<noteq> []" by (simp_all add: approved_report_def growth_sample_def dget_def)
  moreover have "\<exists>dd3. share_approved ?H ?K sample_mac (lit ''f'') [lit ''c''] (lit ''c'') viewer (lit ''s'') 0 (growth_sample ''approved'') ?dd = (Inr (Share_link ?item), dd3)"
    using link sign mark by (auto simp: share_approved_def id view parent_report_token_ttl_seconds_def)
  ultimately show ?thesis by (intro exI [of _ "part @ [46]"]) (simp add: share_growth_report_def)
qed


theorem link_outlives_its_token_witness:
  "\<exists>item dd3 dd4. handle_parent_report_api sample_host sample_calendar sample_mac JObj [] (text_in sample_host item ''code'') 1209600 dd3 =
    (Inr (json_error 401 ''expired'' ''Token has expired''), dd4)"
proof -
  obtain tok dd3 where s: "share_growth_report sample_host sample_calendar sample_mac True (lit ''f'') [lit ''c''] (lit ''c'') viewer (lit ''s'') [] 0 (dashboard_dir ''approved'') =
    (Inr (Share_link (link_item sample_calendar (lit ''c'') (lit ''r'') tok (28800 + 1209600) (lit ''z'') 0)), dd3)" using sample_shared by blast
  have "token_end 0 \<le> now_ts 1209600" "1209600 < link_end sample_calendar 0"
    by (simp_all add: now_ts_def token_end_def link_end_def parent_report_token_ttl_seconds_def sample_calendar_def)
  from link_outlives_its_token [OF s f_plain(1,2) _ _ sample_reads_back this, of JObj]
  obtain dd4 where "handle_parent_report_api sample_host sample_calendar sample_mac JObj [] (text_in sample_host (link_item sample_calendar (lit ''c'') (lit ''r'') tok (28800 + 1209600) (lit ''z'') 0) ''code'') 1209600 dd3 =
    (Inr (json_error 401 ''expired'' ''Token has expired''), dd4)" using f_plain(3) i_plain(2) by (auto simp: link_reads)
  then show ?thesis by blast
qed

end
