(* ===== verification/Spec2Isabelle.thy ===== *)
theory Spec2Isabelle
  imports Prelude TurnFence InboundReceipts Gates HoldingBridge WorkAuthority WorkInbox ReplyOutbox DeliveryAuthority Channels WecomPort WecomCrypto DirectReply AgendaFacts AgendaTickets AgendaService ServiceMachine TurnRegistry JsonText DataStore StoreFacts TaskTypes TaskLifecycle LifecycleFacts ExecutionReceipts AgendaPolicy ToolOperations ToolFacts ToolReceipts IdentityAuthority IdentityService IdentityFacts DashboardTokens GrowthReports DashboardApi DashboardFacts ReportFacts
begin

text \<open>
  A development for the durable work runtime of a tutoring centre's chat assistant: what happens
  to a message between the WeCom callback and the reply that is sent back, and to a work fact
  between its attestation and its acknowledgement. Every store of that path is a SQLite database or
  a JSON file; a table is a list of rows in insertion order, a statement is a function on it, a
  transaction either returns the new tables or leaves the old ones. Time, random identifiers,
  answers of HTTP servers and what other processes do during an \<open>await\<close> are arguments.

  \<^bold>\<open>Parts and theories\<close> (paths under \<^verbatim>\<open>src/runtime/plugins/\<close>).
  \<^item> \<^theory_text>\<open>Prelude\<close>: strings as lists of code points, JSON values, tables with unique keys, transactions,
    the locales of machines that keep an invariant (\<open>invariant_machine\<close>) and of facts that stay
    final (\<open>final_machine\<close>).
  \<^item> \<^theory_text>\<open>TurnFence\<close>, \<^verbatim>\<open>tuoguan_core/turn_fence.py\<close>: fences by message and session:
    \<open>begin_callback_turn\<close>, \<open>mark_phase\<close>, \<open>block_reason\<close> and \<open>finish_turn\<close>. A superseded or timed out turn never regains the
    right to write.
  \<^item> \<^theory_text>\<open>InboundReceipts\<close>, \<^verbatim>\<open>platforms/wecom/inbound_receipts.py\<close>: the receipt of an inbound message;
    claims, completion, failure and stale takeover. A processed message never runs again.
  \<^item> \<^theory_text>\<open>Gates\<close>, \<^verbatim>\<open>platforms/wecom/maintenance_drain.py\<close> and the mode file of the bridge: markers fail closed.
  \<^item> \<^theory_text>\<open>HoldingBridge\<close>, \<^verbatim>\<open>platforms/wecom/holding_bridge.py\<close>: the store-and-forward proxy; the handler
    \<open>handle_post\<close> is split where it awaits the upstream, and \<open>replay_once\<close> works off due rows.
    An acknowledged callback is durable, and a staged one is kept until it completed.
  \<^item> \<^theory_text>\<open>WorkAuthority\<close>, \<^theory_text>\<open>WorkInbox\<close>, \<^theory_text>\<open>ReplyOutbox\<close>, \<^verbatim>\<open>tuoguan_core/work_runtime.py\<close>: the registry of
    attested bindings, the inbox that coalesces work facts into leased batches, and the outbox of
    reply jobs. The outbox refines a machine on single jobs (\<open>job_step\<close>).
  \<^item> \<^theory_text>\<open>DeliveryAuthority\<close>, \<^verbatim>\<open>tuoguan_core/proactive_delivery_authority.py\<close>: the owner's grant and the
    decision that every proactive message is checked against.
  \<^item> \<^theory_text>\<open>Channels\<close>, \<^verbatim>\<open>tuoguan_core/work_runtime_channels.py\<close>: outcomes, the adapter port and the dispatcher
    that claims a job, sends it and records the outcome; \<open>settling_ports\<close> is the contract of ports.
  \<^item> \<^theory_text>\<open>WecomPort\<close>, \<^verbatim>\<open>tuoguan_core/wecom_outbox_port.py\<close>: the port that posts to the WeCom API; it
    interprets \<open>settling_ports\<close>, and the composition with dispatcher and outbox gives that a reply
    is accepted at most once.
  \<^item> \<^theory_text>\<open>WecomCrypto\<close>, \<^verbatim>\<open>platforms/wecom/wecom_crypto.py\<close>: the encrypted envelope, with UTF-8, base64 and
    PKCS7 written out; the round trip of encryption and decryption.
  \<^item> \<^theory_text>\<open>DirectReply\<close>, \<^verbatim>\<open>tuoguan_core/direct_reply_recovery.py\<close>: the manager that binds a trusted turn to its
    reply. Every operation is a sequence of elementary changes (\<open>micro\<close>), from which its invariant
    and the finality of captured scopes follow.
  \<^item> \<^theory_text>\<open>AgendaFacts\<close>, \<^verbatim>\<open>tuoguan_core/agenda_runtime.py\<close>: the scan that turns due work items, open tasks and
    governance facts into attested work facts. A scan is a run of the registry and the inbox; a
    second scan of an unchanged workspace admits nothing.
  \<^item> \<^theory_text>\<open>AgendaTickets\<close>, the same file: a leased batch becomes a ticket, open tickets keep their lease,
    ended ones are acknowledged; \<open>run_once\<close> is one cycle of the scheduler.
  \<^item> \<^theory_text>\<open>AgendaService\<close>, \<^verbatim>\<open>agenda_service_work/adapter.py\<close> and the claim of \<^verbatim>\<open>tuoguan_core/runtime_contract.py\<close>:
    the adapter that submits tickets and settles them, and the hook by which the agent's turn takes one.
  \<^item> \<^theory_text>\<open>ServiceMachine\<close>: scheduler, adapter, hook and reply manager as one machine; the life of a ticket
    is monotone (\<open>ticket_le\<close>), and no work is consumed without a ticket that is over.
  \<^item> \<^theory_text>\<open>TurnRegistry\<close>, the rest of \<^verbatim>\<open>tuoguan_core/runtime_contract.py\<close>: the registry of trusted turns and the
    one-shot robot ingress. A turn keeps its principal, an ingress is claimed once, and an ingress that
    expires unclaimed makes every later operation fail.
  \<^item> \<^theory_text>\<open>JsonText\<close>, \<^theory_text>\<open>DataStore\<close>, \<^theory_text>\<open>StoreFacts\<close>, \<^theory_text>\<open>TaskTypes\<close>, \<^verbatim>\<open>tuoguan_core/store.py\<close> and \<^verbatim>\<open>write_guard.py\<close>:
    \<open>json.dumps\<close> and \<open>json.loads\<close> written out with their round trip; documents, ledgers of JSON lines and
    the task list; the write guard. Nothing without a covering authorization changes a protected file,
    the task list keeps its type, and a ledger reads back what was appended to it.
  \<^item> \<^theory_text>\<open>TaskLifecycle\<close>, \<^theory_text>\<open>LifecycleFacts\<close>, \<^verbatim>\<open>tuoguan_core/agenda_task_lifecycle.py\<close>: the one task of an agenda
    ticket, its next review, and the contract at the end of the turn, composed with the scanner and
    with the settlement of the ticket.
  \<^item> \<^theory_text>\<open>ExecutionReceipts\<close>, \<^verbatim>\<open>tuoguan_core/execution_receipts.py\<close>: the receipt of a business write, with the
    object, version and error layer that it names.
  \<^item> \<^theory_text>\<open>AgendaPolicy\<close>, \<^verbatim>\<open>tuoguan_core/agenda_service_policy.py\<close>: the tools, fields and transitions that a
    service turn may use; every decision leaves an entry in the audit ledger.
  \<^item> \<^theory_text>\<open>ToolOperations\<close>, \<^theory_text>\<open>ToolFacts\<close>, \<open>_operation\<close> of \<^verbatim>\<open>tuoguan_core/tool_service.py\<close> and the write authorization of
    \<^verbatim>\<open>tuoguan_core/runtime_foundation.py\<close>: the fence around every business write, over the modelled store.
    It is split where the business function runs (\<open>operation_begin\<close>, \<open>operation_end\<close>), and its properties
    hold of any interleaving of calls and store operations (\<open>op_step\<close>).
  \<^item> \<^theory_text>\<open>ToolReceipts\<close>, \<^verbatim>\<open>tuoguan_core/work_runtime_receipts.py\<close>: the relay of receipts to the evidence store, the
    listeners and the reply manager; composed with the fence, a receipt on a turn is that of a
    verified write.
  \<^item> \<^theory_text>\<open>IdentityAuthority\<close>, \<^theory_text>\<open>IdentityService\<close>, \<^theory_text>\<open>IdentityFacts\<close>, \<^verbatim>\<open>tuoguan_core/personnel_identity_authority.py\<close> and
    \<^verbatim>\<open>identity.py\<close>: the aggregate that decides who a user id is, the resolution of a sender, and the
    migration of the old directory, which has no say once the authority is enforced.
  \<^item> \<^theory_text>\<open>DashboardTokens\<close>, \<^theory_text>\<open>DashboardApi\<close>, \<^theory_text>\<open>DashboardFacts\<close>, \<^verbatim>\<open>tuoguan_core/dashboard_auth.py\<close> and \<^verbatim>\<open>dashboard_http.py\<close>: the
    signed tokens, and the handlers that answer with data. The round trip goes through the JSON, UTF-8 and base64 of the
    theories above; the comparison with the personnel authority shows that the dashboard does not ask it.
  \<^item> \<^theory_text>\<open>GrowthReports\<close>, \<^theory_text>\<open>ReportFacts\<close>, the stored reports and short links of \<^verbatim>\<open>tuoguan_core/growth_reports.py\<close> and
    \<open>_approve_growth_report\<close> of \<^verbatim>\<open>router.py\<close>: from the approval of a report to the parent who opens it.

  \<^bold>\<open>Groups of lemmas.\<close> Each store has a record of its tables, an invariant (\<open>receipts_inv\<close>, \<open>held_inv\<close>,
  \<open>partitions_inv\<close>, \<open>outbox_inv\<close>, \<open>bridge_inv\<close>) that every operation keeps, a command type with a
  step function that runs any operation, and interpretations of the two machine locales on that
  step function; the safety properties are statements on every sequence of commands and rest on
  these interpretations. Functional properties state each branch of one operation. Sample runs at
  the end of each theory show that the hypotheses of the properties hold on concrete data.

  \<^bold>\<open>Bounds and fuel.\<close> There is no fuel: the loops of the code run over the rows that a statement
  returned, and the drain loop and the decoders recurse on their input. Lease times and backoffs
  are rationals; attempts are natural numbers; the bytes of the envelope are words of eight bits and
  its length field is a word of 32 bits.

  \<^bold>\<open>Parameters.\<close> SHA-256 and SHA-1 are functions on strings, of which nothing is assumed unless a
  statement says so (the round trip assumes that AES-CBC decryption inverts encryption); the keyed digest of a token is one on bytes;
  \<open>str\<close> of a JSON value that is not a string, and \<open>json.loads\<close>, are functions. A JSON column holds the
  value it encodes.

  \<^bold>\<open>Properties.\<close> A theorem whose text begins with a claim id is a listed property. The other theorems
  are facts of the library that the same definitions have; they are proved in the same way.

  \<^bold>\<open>Not modelled.\<close> The guarded write of the delivery grant (file locks and read-back), the servers
  around the handlers, schema migrations, and the domain data of the tutoring centre. The business
  function inside \<open>_operation\<close> is a parameter, so the bodies of the tools are not modelled; neither are the
  work item and attention state (\<^verbatim>\<open>digital_employee_state.py\<close>), routing by keywords and by a model,
  the contents of dashboards and reports, payroll, the point ledger, the autonomous loop, and the operations that edit
  personnel facts. The last are text processing and projections over JSON documents whose store,
  write fence, receipts and identities are those of the theories above.
\<close>

end
